(* ===== verification/Prelude.thy ===== *)
theory Prelude
  imports Complex_Main
begin

text \<open>
  Shared ground of the development: the JavaScript values the program computes with, the errors
  it throws, and the collections of rewrite rules that the component theories extend.

  \<^item> An integral \<open>number\<close> (versions, counters, epoch milliseconds) is an \<open>int\<close>; a fractional one
    (delays in seconds, multipliers, safety factors, random numbers) is a \<open>rat\<close>. The rounding of
    IEEE doubles is not modelled; where the code rounds (\<open>Math.ceil\<close>) the model rounds.
    \<open>js_number\<close> adds the values that are not finite, for the one function that tests for them.
  \<^item> An optional property \<open>x?: T\<close> is a field of type \<open>'t option\<close>; \<open>None\<close> is \<open>undefined\<close>.
  \<^item> An ISO instant is the number of milliseconds that \<open>Date.getTime\<close> returns for it.
  \<^item> A thrown exception is \<open>Inl\<close> of a \<open>js_error\<close>.
\<close>

section \<open>Collections of rewrite rules\<close>

named_theorems domain_simps \<open>unfolding rules of the pure policies of the domain package\<close>
named_theorems tx_simps \<open>evaluation of conditions and writes of a transaction\<close>
named_theorems persist_simps \<open>unfolding rules of the persistence operations\<close>

section \<open>Values\<close>

type_synonym instant = int

datatype js_number = Finite rat | Infinite bool | Not_A_Number

datatype json =
    JNull
  | JBool bool
  | JNum rat
  | JStr string
  | JArr "json list"
  | JObj "(string \<times> json) list"

text \<open>
  An \<open>expiresAt\<close> property is an ISO string where the program computes it and a number of epoch
  seconds where it has been read back from the table; \<open>epochSeconds\<close> of the persistence package
  accepts both.
\<close>

datatype expiry = Iso instant | Epoch int

fun epochSeconds :: "expiry \<Rightarrow> int" where
  "epochSeconds (Epoch s) = s"
| "epochSeconds (Iso ms) = ms div 1000"

text \<open>Property access on a JSON object: the value of the key, or \<open>undefined\<close>.\<close>

fun json_get :: "json \<Rightarrow> string \<Rightarrow> json option" where
  "json_get (JObj fs) k = map_of fs k"
| "json_get _ k = None"

text \<open>\<open>Number.isFinite\<close>, \<open>Number.isInteger\<close> and the comparisons of a number with a constant.\<close>

fun is_finite_number :: "js_number \<Rightarrow> bool" where
  "is_finite_number (Finite _) = True"
| "is_finite_number _ = False"

fun is_integer_number :: "js_number \<Rightarrow> bool" where
  "is_integer_number (Finite q) = (of_int \<lfloor>q\<rfloor> = q)"
| "is_integer_number _ = False"

fun number_le :: "js_number \<Rightarrow> rat \<Rightarrow> bool" where
  "number_le (Finite q) c = (q \<le> c)"
| "number_le (Infinite pos) c = (\<not> pos)"
| "number_le Not_A_Number c = False"

fun number_less :: "js_number \<Rightarrow> rat \<Rightarrow> bool" where
  "number_less (Finite q) c = (q < c)"
| "number_less (Infinite pos) c = (\<not> pos)"
| "number_less Not_A_Number c = False"

fun number_greater :: "js_number \<Rightarrow> rat \<Rightarrow> bool" where
  "number_greater (Finite q) c = (q > c)"
| "number_greater (Infinite pos) c = pos"
| "number_greater Not_A_Number c = False"

text \<open>A template string \<open>`${n}`\<close> of an integral number.\<close>

fun digits :: "nat \<Rightarrow> string" where
  "digits n = (if n < 10 then [char_of (48 + n)] else digits (n div 10) @ [char_of (48 + n mod 10)])"

declare digits.simps [simp del]

definition js_int :: "int \<Rightarrow> string" where
  "js_int i = (if i < 0 then CHR ''-'' # digits (nat (- i)) else digits (nat i))"

text \<open>The operator \<open>**\<close> with an integral exponent.\<close>

definition js_pow :: "rat \<Rightarrow> int \<Rightarrow> rat" where
  "js_pow b e = (if 0 \<le> e then b ^ nat e else inverse (b ^ nat (- e)))"

section \<open>Errors\<close>

datatype domain_code =
    INVALID_TRANSITION
  | INVALID_EVENT_COUNTERS
  | INVALID_POLICY
  | INVALID_IDENTIFIER

text \<open>
  The classes of errors that the program or the AWS SDK (\<open>ServiceError\<close>) throws; \<open>UnsafeDestinationError\<close> has
  a code beside its message, \<open>AuthenticationError\<close> the status of the answer.
\<close>

datatype js_error =
    DomainError domain_code string
  | Error string
  | ServiceError string
  | UnsafeDestinationError string string
  | AuthenticationError int

text \<open>A condition that throws when it holds, before the rest of the function.\<close>

definition throw_if :: "bool \<Rightarrow> 'e \<Rightarrow> 'e + 'a \<Rightarrow> 'e + 'a" where
  "throw_if b e r = (if b then Inl e else r)"

lemma throw_if_Inr [simp]: "throw_if b e r = Inr a \<longleftrightarrow> \<not> b \<and> r = Inr a"
  by (simp add: throw_if_def)

lemma throw_if_Inl: "throw_if b e r = Inl x \<longleftrightarrow> (b \<and> x = e) \<or> (\<not> b \<and> r = Inl x)"
  by (auto simp: throw_if_def)

section \<open>Generic lemmas\<close>

lemma js_pow_pos: "0 < b \<Longrightarrow> 0 < js_pow b e"
  by (simp add: js_pow_def)

lemma js_pow_0 [simp]: "js_pow b 0 = 1"
  by (simp add: js_pow_def)

lemma js_pow_mono: "1 \<le> b \<Longrightarrow> 0 \<le> e \<Longrightarrow> e \<le> f \<Longrightarrow> js_pow b e \<le> js_pow b f"
  by (simp add: js_pow_def power_increasing)

lemma map_of_filter_key: "map_of (filter (\<lambda>(k, v). P k) xs) k = (if P k then map_of xs k else None)"
  by (induction xs) auto

end
