(* ===== verification/Domain.thy ===== *)
theory Domain
  imports Prelude
begin

text \<open>
  The package \<open>packages/domain\<close>: the records of the control plane, of events and of deliveries, and
  the pure policies that every other component calls. Records carry the fields of the TypeScript
  interfaces, prefixed with the name of the interface because HOL record fields share a name space.
\<close>

section \<open>Configuration records\<close>

datatype actor_role = Admin | Operator | Viewer
datatype actor_type = Console_User | Api_Client | System_Actor

record tenant_context =
  cx_tenantId :: string
  cx_actorType :: actor_type
  cx_actorId :: string
  cx_role :: "actor_role option"
  cx_requestId :: string
  cx_correlationId :: string

datatype account_status = Active_Account | Disabled_Account
datatype secret_state = Active_Secret | Grace_Secret

text \<open>\<open>UserIdentityMapping\<close>, \<open>SecretReference\<close> (a name and a version), \<open>ApiClientSecretVersion\<close> and \<open>ApiClient\<close>.\<close>

type_synonym secret_reference = "string \<times> string option"

record user_identity =
  ui_issuer :: string
  ui_subject :: string
  ui_tenantId :: string
  ui_status :: account_status
  ui_role :: actor_role
  ui_userId :: string

record api_client_secret_version =
  av_reference :: secret_reference
  av_state :: secret_state
  av_activatedAt :: instant
  av_graceExpiresAt :: "instant option"

record api_client =
  ap_clientId :: string
  ap_tenantId :: string
  ap_name :: string
  ap_status :: account_status
  ap_scopes :: "string list"
  ap_secretVersions :: "api_client_secret_version list"
  ap_createdAt :: instant
  ap_version :: int

record retry_policy =
  rp_maxAttempts :: int
  rp_initialDelaySeconds :: rat
  rp_multiplier :: rat
  rp_maxDelaySeconds :: rat

record rate_limit_policy =
  rl_requestsPerInterval :: rat
  rl_intervalSeconds :: rat
  rl_burstCapacity :: rat
  rl_safetyFactor :: rat

record circuit_breaker_policy =
  cb_failureThreshold :: int
  cb_cooldownSeconds :: rat
  cb_probeLeaseSeconds :: rat

datatype circuit_mode = CLOSED | OPEN | HALF_OPEN

record circuit_state =
  ci_state :: circuit_mode
  ci_consecutiveFailures :: int
  ci_openedAt :: "instant option"
  ci_nextProbeAt :: "instant option"
  ci_probeLeaseOwner :: "string option"
  ci_probeLeaseExpiresAt :: "instant option"
  ci_version :: int

record rate_limit_state =
  rs_theoreticalArrivalTimeMs :: int
  rs_updatedAt :: instant
  rs_policyHash :: rate_limit_policy
  rs_version :: int

datatype auth_type = Api_Key | Oauth_Client_Credentials

record partner =
  pa_partnerId :: string
  pa_tenantId :: string
  pa_name :: string
  pa_externalKey :: string
  pa_description :: "string option"
  pa_enabled :: bool
  pa_createdAt :: instant
  pa_updatedAt :: instant
  pa_version :: int

record destination =
  de_destinationId :: string
  de_partnerId :: string
  de_tenantId :: string
  de_name :: string
  de_externalKey :: string
  de_baseUrl :: string
  de_path :: string
  de_enabled :: bool
  de_authType :: auth_type
  de_authConfiguration :: json
  de_secretReferences :: "string list"
  de_timeoutMs :: int
  de_retryPolicy :: retry_policy
  de_rateLimitPolicy :: rate_limit_policy
  de_circuitBreakerPolicy :: circuit_breaker_policy
  de_transformationId :: string
  de_activeTransformationVersion :: int
  de_sensitiveResponseJsonPaths :: "string list"
  de_version :: int

record transformation_version =
  tf_transformationId :: string
  tf_externalKey :: string
  tf_tenantId :: string
  tf_version :: int
  tf_definition :: json
  tf_createdAt :: instant
  tf_createdBy :: string

record subscription =
  su_subscriptionId :: string
  su_externalKey :: string
  su_tenantId :: string
  su_destinationId :: string
  su_eventType :: string
  su_enabled :: bool
  su_createdAt :: instant
  su_version :: int

section \<open>Events\<close>

datatype event_status =
    Ev_Accepted | Ev_Processing | Ev_Partially_Succeeded | Ev_Succeeded | Ev_Failed
  | Ev_No_Destinations

record outcome_counters =
  oc_routingComplete :: bool
  oc_totalDeliveries :: int
  oc_terminalDeliveries :: int
  oc_successfulDeliveries :: int
  oc_failedTerminalDeliveries :: int
  oc_deadLetteredDeliveries :: int

record canonical_event =
  ev_eventId :: string
  ev_tenantId :: string
  ev_producerClientId :: string
  ev_correlationId :: string
  ev_eventType :: string
  ev_occurredAt :: string
  ev_acceptedAt :: instant
  ev_subject :: "string \<times> string"
  ev_data :: json
  ev_metadata :: json
  ev_payloadHash :: string
  ev_status :: event_status
  ev_outcome :: outcome_counters
  ev_version :: int
  ev_expiresAt :: expiry

section \<open>Deliveries\<close>

datatype delivery_state =
    Pending | Scheduled | Rate_Limited | In_Progress | Retry_Scheduled
  | Succeeded | Failed_Terminal | Dead_Lettered | Cancelled

datatype failure_category =
    TRANSFORMATION_ERROR | INVALID_DESTINATION | DESTINATION_DISABLED | SECRET_NOT_FOUND
  | OAUTH_TOKEN_ERROR | DNS_ERROR | CONNECTION_ERROR | TLS_ERROR | TIMEOUT | RATE_LIMITED
  | PARTNER_4XX | PARTNER_5XX | RESPONSE_TOO_LARGE | RESPONSE_CONTRACT_ERROR | CIRCUIT_OPEN
  | INTERNAL_PERSISTENCE_ERROR | UNKNOWN

record config_snapshot =
  cs_destinationVersion :: int
  cs_url :: string
  cs_timeoutMs :: int
  cs_retryPolicy :: retry_policy
  cs_rateLimitPolicyId :: string
  cs_circuitBreakerPolicyId :: string
  cs_authType :: auth_type
  cs_authConfiguration :: json
  cs_secretReferenceNames :: "string list"
  cs_transformationId :: string
  cs_transformationVersion :: int
  cs_redactionPaths :: "string list"
  cs_idempotencyHeader :: "string option"

datatype execution_type = ORIGINAL | REPLAY

record delivery =
  d_deliveryId :: string
  d_eventId :: string
  d_correlationId :: string
  d_tenantId :: string
  d_partnerId :: string
  d_destinationId :: string
  d_executionType :: execution_type
  d_originalDeliveryId :: "string option"
  d_replayId :: "string option"
  d_state :: delivery_state
  d_blockedReason :: "failure_category option"
  d_attemptCount :: int
  d_maxAttempts :: int
  d_activeAttemptId :: "string option"
  d_nextEligibleAt :: "instant option"
  d_leaseOwner :: "string option"
  d_leaseToken :: "string option"
  d_leaseAcquiredAt :: "instant option"
  d_leaseExpiresAt :: "instant option"
  d_configSnapshot :: config_snapshot
  d_transformedPayload :: json
  d_transformedPayloadHash :: string
  d_partnerIdempotencyKey :: string
  d_lastFailureCategory :: "failure_category option"
  d_createdAt :: instant
  d_updatedAt :: instant
  d_terminalAt :: "instant option"
  d_version :: int
  d_expiresAt :: expiry

datatype attempt_outcome = At_Started | At_Succeeded | At_Failed

record delivery_attempt =
  at_attemptId :: string
  at_attemptNumber :: int
  at_deliveryId :: string
  at_correlationId :: string
  at_startedAt :: instant
  at_completedAt :: "instant option"
  at_durationMs :: "int option"
  at_requestUrl :: string
  at_requestHeadersRedacted :: "(string \<times> string) list"
  at_requestBodyHash :: string
  at_responseStatus :: "int option"
  at_responseHeadersRedacted :: "(string \<times> string) list option"
  at_responseBodyExcerptRedacted :: "string option"
  at_responseBodyHash :: "string option"
  at_outcome :: attempt_outcome
  at_failureCategory :: "failure_category option"
  at_retryable :: "bool option"
  at_traceId :: "string option"
  at_expiresAt :: expiry

datatype history_type =
    Hi_Created | Hi_Queued | Hi_Rate_Limited | Hi_Circuit_Open | Hi_Lease_Recovered
  | Hi_Retry_Scheduled | Hi_Destination_Disabled | Hi_Dead_Lettered | Hi_Replay_Linked
  | Hi_State_Transition

text \<open>History metadata is a small JSON object whose values are strings or instants.\<close>

datatype meta_value = Meta_Str string | Meta_Instant instant | Meta_Category failure_category
  | Meta_State delivery_state | Meta_Int int | Meta_Bool bool

record history_entry =
  hi_historyId :: string
  hi_deliveryId :: string
  hi_tenantId :: string
  hi_correlationId :: string
  hi_type :: history_type
  hi_occurredAt :: instant
  hi_summary :: string
  hi_metadata :: "(string \<times> meta_value) list"
  hi_expiresAt :: expiry

record audit_event =
  au_auditId :: string
  au_tenantId :: string
  au_actorId :: string
  au_actorRole :: "actor_role option"
  au_action :: string
  au_targetType :: string
  au_targetId :: string
  au_requestId :: string
  au_correlationId :: string
  au_reason :: "string option"
  au_metadata :: "(string \<times> meta_value) list"
  au_occurredAt :: instant
  au_expiresAt :: expiry

record replay_relation =
  rr_replayId :: string
  rr_tenantId :: string
  rr_eventId :: string
  rr_originalDeliveryId :: string
  rr_replayDeliveryId :: string
  rr_requestedAt :: instant
  rr_requestedBy :: string
  rr_reason :: string
  rr_correctionConfirmed :: bool
  rr_originalDestinationVersion :: int
  rr_originalTransformationId :: string
  rr_originalTransformationVersion :: int
  rr_replayDestinationVersion :: int
  rr_replayTransformationId :: string
  rr_replayTransformationVersion :: int
  rr_expiresAt :: expiry

section \<open>Outbox records\<close>

datatype outbox_kind =
    ROUTE_EVENT | DELIVER | SCHEDULE_DELIVERY | RESUME_DELIVERY | RESUME_DESTINATION
  | RECONCILE_EVENT_STATUS

datatype aggregate_type = EVENT | DELIVERY | DESTINATION
datatype outbox_target = ROUTING_QUEUE | DELIVERY_QUEUE | SCHEDULER
datatype cause = INITIAL | RETRY | REPLAYED | RESUME | RECONCILE | DESTINATION_ENABLED

record outbox_payload =
  pl_eventId :: "string option"
  pl_deliveryId :: "string option"
  pl_destinationId :: "string option"
  pl_correlationId :: string
  pl_notBefore :: "instant option"
  pl_cause :: "cause option"

record outbox_record =
  ob_outboxId :: string
  ob_kind :: outbox_kind
  ob_tenantId :: string
  ob_aggregateType :: aggregate_type
  ob_aggregateId :: string
  ob_target :: outbox_target
  ob_payload :: outbox_payload
  ob_createdAt :: instant
  ob_attempts :: int
  ob_publishedAt :: "instant option"
  ob_traceparent :: "string option"

section \<open>Delivery states and replay\<close>

fun isTerminalDeliveryState :: "delivery_state \<Rightarrow> bool" where
  "isTerminalDeliveryState s = (s \<in> set [Succeeded, Failed_Terminal, Dead_Lettered, Cancelled])"

definition replayableTerminalCategories :: "failure_category list" where
  "replayableTerminalCategories =
     [TRANSFORMATION_ERROR, INVALID_DESTINATION, SECRET_NOT_FOUND, OAUTH_TOKEN_ERROR,
      PARTNER_4XX, RESPONSE_TOO_LARGE, RESPONSE_CONTRACT_ERROR]"

record eligibility =
  el_eligible :: bool
  el_requiresCorrection :: bool

definition replayEligibility ::
    "delivery_state \<Rightarrow> failure_category option \<Rightarrow> bool \<Rightarrow> eligibility" where
  "replayEligibility state failureCategory correctionConfirmed =
     (if state = Dead_Lettered
      then \<lparr>el_eligible = True, el_requiresCorrection = False\<rparr>
      else if state = Failed_Terminal \<and> failureCategory \<noteq> None
              \<and> the failureCategory \<in> set replayableTerminalCategories
      then \<lparr>el_eligible = correctionConfirmed, el_requiresCorrection = True\<rparr>
      else \<lparr>el_eligible = False, el_requiresCorrection = False\<rparr>)"

section \<open>Policy validation\<close>

text \<open>
  \<open>validatePolicy\<close> takes any of the three policies and works on its property list, so its argument
  here is the list of properties; the values that are not numbers are the jitter mode.
\<close>

datatype policy_value = Policy_Number js_number | Policy_String string

type_synonym raw_policy = "(string \<times> policy_value) list"

definition positive_finite :: "policy_value \<Rightarrow> bool" where
  "positive_finite v = (case v of
      Policy_String _ \<Rightarrow> True
    | Policy_Number n \<Rightarrow> is_finite_number n \<and> \<not> number_le n 0)"

definition positive_integer :: "policy_value \<Rightarrow> bool" where
  "positive_integer v = (case v of
      Policy_String _ \<Rightarrow> False
    | Policy_Number n \<Rightarrow> is_integer_number n \<and> \<not> number_less n 1)"

definition exceeds_one :: "policy_value \<Rightarrow> bool" where
  "exceeds_one v = (case v of Policy_String _ \<Rightarrow> False | Policy_Number n \<Rightarrow> number_greater n 1)"

definition validatePolicy :: "raw_policy \<Rightarrow> js_error + unit" where
  "validatePolicy policy =
     throw_if (\<not> list_all (positive_finite \<circ> snd) policy)
       (DomainError INVALID_POLICY ''Policy values must be positive finite numbers.'')
    (throw_if (case map_of policy ''maxAttempts'' of
                 None \<Rightarrow> False | Some v \<Rightarrow> \<not> positive_integer v)
       (DomainError INVALID_POLICY ''maxAttempts must be a positive integer.'')
    (throw_if (case map_of policy ''safetyFactor'' of None \<Rightarrow> False | Some v \<Rightarrow> exceeds_one v)
       (DomainError INVALID_POLICY ''safetyFactor must be at most 1.'')
    (Inr ())))"

text \<open>The property lists of the typed policies.\<close>

definition raw_retry_policy :: "retry_policy \<Rightarrow> raw_policy" where
  "raw_retry_policy p =
     [(''maxAttempts'', Policy_Number (Finite (of_int (rp_maxAttempts p)))),
      (''initialDelaySeconds'', Policy_Number (Finite (rp_initialDelaySeconds p))),
      (''multiplier'', Policy_Number (Finite (rp_multiplier p))),
      (''maxDelaySeconds'', Policy_Number (Finite (rp_maxDelaySeconds p))),
      (''jitter'', Policy_String ''FULL_UPPER_HALF'')]"

definition raw_rate_limit_policy :: "rate_limit_policy \<Rightarrow> raw_policy" where
  "raw_rate_limit_policy p =
     [(''requestsPerInterval'', Policy_Number (Finite (rl_requestsPerInterval p))),
      (''intervalSeconds'', Policy_Number (Finite (rl_intervalSeconds p))),
      (''burstCapacity'', Policy_Number (Finite (rl_burstCapacity p))),
      (''safetyFactor'', Policy_Number (Finite (rl_safetyFactor p)))]"

definition raw_circuit_policy :: "circuit_breaker_policy \<Rightarrow> raw_policy" where
  "raw_circuit_policy p =
     [(''failureThreshold'', Policy_Number (Finite (of_int (cb_failureThreshold p)))),
      (''cooldownSeconds'', Policy_Number (Finite (cb_cooldownSeconds p))),
      (''probeLeaseSeconds'', Policy_Number (Finite (cb_probeLeaseSeconds p)))]"

section \<open>The status of an event\<close>

definition counters_inconsistent :: "outcome_counters \<Rightarrow> bool" where
  "counters_inconsistent c \<longleftrightarrow>
     list_ex (\<lambda>v. v < 0)
       [oc_totalDeliveries c, oc_terminalDeliveries c, oc_successfulDeliveries c,
        oc_failedTerminalDeliveries c, oc_deadLetteredDeliveries c]
     \<or> oc_terminalDeliveries c > oc_totalDeliveries c
     \<or> oc_successfulDeliveries c + oc_failedTerminalDeliveries c + oc_deadLetteredDeliveries c
        \<noteq> oc_terminalDeliveries c"

definition deriveEventStatus :: "outcome_counters \<Rightarrow> js_error + event_status" where
  "deriveEventStatus c =
     throw_if (counters_inconsistent c)
       (DomainError INVALID_EVENT_COUNTERS ''Event outcome counters are inconsistent.'')
       (Inr (if \<not> oc_routingComplete c
             then (if oc_totalDeliveries c = 0 then Ev_Accepted else Ev_Processing)
             else if oc_totalDeliveries c = 0 then Ev_No_Destinations
             else if oc_terminalDeliveries c < oc_totalDeliveries c then Ev_Processing
             else if oc_successfulDeliveries c = oc_totalDeliveries c then Ev_Succeeded
             else if oc_successfulDeliveries c > 0 then Ev_Partially_Succeeded else Ev_Failed))"

section \<open>Classification of a delivery result\<close>

record classification =
  cl_success :: bool
  cl_retryable :: bool
  cl_failureCategory :: "failure_category option"
  cl_countsTowardCircuit :: bool

definition transport_failure :: "failure_category \<Rightarrow> classification" where
  "transport_failure c = \<lparr>cl_success = False, cl_retryable = True,
     cl_failureCategory = Some c, cl_countsTowardCircuit = True\<rparr>"

definition final_failure :: "failure_category \<Rightarrow> classification" where
  "final_failure c = \<lparr>cl_success = False, cl_retryable = False,
     cl_failureCategory = Some c, cl_countsTowardCircuit = False\<rparr>"

definition classified :: "(string \<times> classification) list" where
  "classified =
     [(''DNS_ERROR'', transport_failure DNS_ERROR),
      (''CONNECTION_ERROR'', transport_failure CONNECTION_ERROR),
      (''TLS_ERROR'', transport_failure TLS_ERROR),
      (''TIMEOUT'', transport_failure TIMEOUT),
      (''OAUTH_TOKEN_ERROR'', final_failure OAUTH_TOKEN_ERROR),
      (''SECRET_NOT_FOUND'', final_failure SECRET_NOT_FOUND),
      (''INVALID_DESTINATION'', final_failure INVALID_DESTINATION),
      (''RESPONSE_TOO_LARGE'', final_failure RESPONSE_TOO_LARGE),
      (''RESPONSE_CONTRACT_ERROR'', final_failure RESPONSE_CONTRACT_ERROR)]"

definition classifyDeliveryResult :: "int option \<Rightarrow> string option \<Rightarrow> classification" where
  "classifyDeliveryResult status errorCode =
     (case status of
        Some s \<Rightarrow>
          (if s \<ge> 200 \<and> s < 300
           then \<lparr>cl_success = True, cl_retryable = False, cl_failureCategory = None,
                 cl_countsTowardCircuit = False\<rparr>
           else if s \<in> set [408, 425, 429, 500, 502, 503, 504]
           then \<lparr>cl_success = False, cl_retryable = True,
                 cl_failureCategory = Some (if s = 429 then RATE_LIMITED else PARTNER_5XX),
                 cl_countsTowardCircuit = (s \<in> set [500, 502, 503, 504])\<rparr>
           else final_failure PARTNER_4XX)
      | None \<Rightarrow>
          (let code = (case errorCode of None \<Rightarrow> ''UNKNOWN'' | Some c \<Rightarrow> c)
           in case map_of classified code of None \<Rightarrow> final_failure UNKNOWN | Some k \<Rightarrow> k))"

section \<open>Retry delays\<close>

text \<open>
  \<open>Number(value)\<close> and \<open>Date.parse(value)\<close> are arguments: \<open>numberOf\<close> is total as in JavaScript,
  \<open>dateParse\<close> is \<open>None\<close> for \<open>NaN\<close>.
\<close>

definition parseRetryAfter ::
    "(string \<Rightarrow> js_number) \<Rightarrow> (string \<Rightarrow> instant option) \<Rightarrow> string option \<Rightarrow> instant \<Rightarrow> rat option" where
  "parseRetryAfter numberOf dateParse value now =
     (case value of
        None \<Rightarrow> None
      | Some v \<Rightarrow>
          let byDate = (case dateParse v of
                  None \<Rightarrow> None
                | Some atMs \<Rightarrow>
                    let result = \<lceil>(of_int (atMs - now) :: rat) / 1000\<rceil>
                    in if result \<ge> 0 then Some (of_int result) else None)
          in case numberOf v of
               Finite seconds \<Rightarrow> if seconds \<ge> 0 then Some seconds else byDate
             | _ \<Rightarrow> byDate)"

definition clamp_random :: "rat \<Rightarrow> rat" where
  "clamp_random r = max 0 (min (999999 / 1000000) r)"

definition retryBase :: "retry_policy \<Rightarrow> int \<Rightarrow> rat" where
  "retryBase policy attemptNumber =
     min (rp_maxDelaySeconds policy)
       (rp_initialDelaySeconds policy * js_pow (rp_multiplier policy) (attemptNumber - 1))"

definition retryDelaySeconds :: "retry_policy \<Rightarrow> int \<Rightarrow> rat \<Rightarrow> rat option \<Rightarrow> rat" where
  "retryDelaySeconds policy attemptNumber random retryAfterSeconds =
     (let base = retryBase policy attemptNumber;
          jittered = base * (1 / 2 + clamp_random random * (1 / 2))
      in min (rp_maxDelaySeconds policy)
           (max jittered (case retryAfterSeconds of None \<Rightarrow> 0 | Some s \<Rightarrow> s)))"

section \<open>The rate limiter\<close>

record rate_decision =
  rd_permitted :: bool
  rd_nextEligibleAtMs :: int
  rd_nextTheoreticalArrivalTimeMs :: "int option"

definition rateIncrement :: "rate_limit_policy \<Rightarrow> rat" where
  "rateIncrement policy =
     (rl_intervalSeconds policy * 1000) / (rl_requestsPerInterval policy * rl_safetyFactor policy)"

definition rateLimitDecision ::
    "rate_limit_state option \<Rightarrow> rate_limit_policy \<Rightarrow> int \<Rightarrow> rate_decision" where
  "rateLimitDecision state policy nowMs =
     (let increment = rateIncrement policy;
          tat = (case state of None \<Rightarrow> nowMs | Some s \<Rightarrow> rs_theoreticalArrivalTimeMs s);
          earliest = of_int tat - increment * max 0 (rl_burstCapacity policy - 1)
      in if of_int nowMs < earliest
         then \<lparr>rd_permitted = False, rd_nextEligibleAtMs = \<lceil>earliest\<rceil>,
               rd_nextTheoreticalArrivalTimeMs = None\<rparr>
         else \<lparr>rd_permitted = True, rd_nextEligibleAtMs = nowMs,
               rd_nextTheoreticalArrivalTimeMs =
                 Some \<lceil>of_int (max nowMs tat) + increment\<rceil>\<rparr>)"

section \<open>Delivery transitions\<close>

record lease =
  le_owner :: string
  le_token :: string
  le_expiresAt :: instant

record delivery_transition =
  tr_to :: delivery_state
  tr_at :: instant
  tr_expectedVersion :: int
  tr_leaseToken :: "string option"
  tr_nextEligibleAt :: "instant option"
  tr_blockedReason :: "failure_category option"
  tr_lease :: "lease option"

fun permittedTransitions :: "delivery_state \<Rightarrow> delivery_state list" where
  "permittedTransitions Pending = [Scheduled]"
| "permittedTransitions Scheduled = [Scheduled, In_Progress, Rate_Limited]"
| "permittedTransitions Rate_Limited = [Scheduled]"
| "permittedTransitions In_Progress =
     [Scheduled, Rate_Limited, Succeeded, Retry_Scheduled, Failed_Terminal, Dead_Lettered]"
| "permittedTransitions Retry_Scheduled = [Scheduled, In_Progress]"
| "permittedTransitions Succeeded = []"
| "permittedTransitions Failed_Terminal = []"
| "permittedTransitions Dead_Lettered = []"
| "permittedTransitions Cancelled = []"

fun state_name :: "delivery_state \<Rightarrow> string" where
  "state_name Pending = ''pending''"
| "state_name Scheduled = ''scheduled''"
| "state_name Rate_Limited = ''rate_limited''"
| "state_name In_Progress = ''in_progress''"
| "state_name Retry_Scheduled = ''retry_scheduled''"
| "state_name Succeeded = ''succeeded''"
| "state_name Failed_Terminal = ''failed_terminal''"
| "state_name Dead_Lettered = ''dead_lettered''"
| "state_name Cancelled = ''cancelled''"

definition deferred_states :: "delivery_state list" where
  "deferred_states = [Scheduled, Retry_Scheduled, Rate_Limited]"

text \<open>The copy of the delivery that a transition builds once its guards have passed.\<close>

definition applyTransition :: "delivery \<Rightarrow> delivery_transition \<Rightarrow> delivery" where
  "applyTransition d t = d\<lparr>
     d_state := tr_to t,
     d_updatedAt := tr_at t,
     d_version := d_version d + 1,
     d_blockedReason := tr_blockedReason t,
     d_lastFailureCategory :=
       (case tr_blockedReason t of None \<Rightarrow> d_lastFailureCategory d | Some c \<Rightarrow> Some c),
     d_nextEligibleAt := tr_nextEligibleAt t,
     d_terminalAt := (if isTerminalDeliveryState (tr_to t) then Some (tr_at t) else None),
     d_leaseOwner := map_option le_owner (tr_lease t),
     d_leaseToken := map_option le_token (tr_lease t),
     d_leaseAcquiredAt := map_option (\<lambda>_. tr_at t) (tr_lease t),
     d_leaseExpiresAt := map_option le_expiresAt (tr_lease t)\<rparr>"

definition transitionDelivery :: "delivery \<Rightarrow> delivery_transition \<Rightarrow> js_error + delivery" where
  "transitionDelivery d t =
     throw_if (d_version d \<noteq> tr_expectedVersion t)
       (DomainError INVALID_TRANSITION ''Delivery version does not match expected version.'')
    (throw_if (tr_to t \<notin> set (permittedTransitions (d_state d)))
       (DomainError INVALID_TRANSITION
          (''Cannot transition '' @ state_name (d_state d) @ '' to '' @ state_name (tr_to t) @ ''.''))
    (throw_if (tr_to t = In_Progress \<and> tr_lease t = None)
       (DomainError INVALID_TRANSITION ''Entering in_progress requires a lease.'')
    (throw_if (d_state d = In_Progress \<and> d_leaseToken d \<noteq> tr_leaseToken t)
       (DomainError INVALID_TRANSITION ''Leaving in_progress requires the active lease token.'')
    (throw_if (tr_to t \<in> set deferred_states \<and> tr_nextEligibleAt t = None)
       (DomainError INVALID_TRANSITION ''Deferred delivery states require nextEligibleAt.'')
    (Inr (applyTransition d t))))))"

section \<open>Identifiers\<close>

definition ulid_alphabet :: string where
  "ulid_alphabet = ''0123456789ABCDEFGHJKMNPQRSTVWXYZ''"

definition is_ulid :: "string \<Rightarrow> bool" where
  "is_ulid s \<longleftrightarrow> length s = 26 \<and> list_all (\<lambda>c. c \<in> set ulid_alphabet) s"

definition asIdentifier :: "string \<Rightarrow> string \<Rightarrow> js_error + string" where
  "asIdentifier prefix value =
     throw_if (\<not> (take (length prefix + 1) value = prefix @ ''_''
                  \<and> is_ulid (drop (length prefix + 1) value)))
       (DomainError INVALID_IDENTIFIER (''Expected '' @ prefix @ ''_ followed by a ULID.''))
       (Inr value)"


section \<open>Facts about states and transitions\<close>

lemma permitted_not_terminal: "s' \<in> set (permittedTransitions s) \<Longrightarrow> \<not> isTerminalDeliveryState s"
  by (cases s) auto

lemma permitted_never_cancelled: "Cancelled \<notin> set (permittedTransitions s)"
  by (cases s) auto

lemma permitted_never_pending: "Pending \<notin> set (permittedTransitions s)"
  by (cases s) auto

lemma transitionDelivery_Inr:
  "transitionDelivery d t = Inr d' \<longleftrightarrow>
     d_version d = tr_expectedVersion t
     \<and> tr_to t \<in> set (permittedTransitions (d_state d))
     \<and> (tr_to t = In_Progress \<longrightarrow> tr_lease t \<noteq> None)
     \<and> (d_state d = In_Progress \<longrightarrow> d_leaseToken d = tr_leaseToken t)
     \<and> (tr_to t \<in> set deferred_states \<longrightarrow> tr_nextEligibleAt t \<noteq> None)
     \<and> d' = applyTransition d t"
  by (auto simp: transitionDelivery_def)

lemma transitionDelivery_Inl:
  "transitionDelivery d t = Inl e \<Longrightarrow> \<exists>msg. e = DomainError INVALID_TRANSITION msg"
  by (auto simp: transitionDelivery_def throw_if_Inl)

lemma applyTransition_simps [simp]:
  "d_state (applyTransition d t) = tr_to t"
  "d_updatedAt (applyTransition d t) = tr_at t"
  "d_version (applyTransition d t) = d_version d + 1"
  "d_blockedReason (applyTransition d t) = tr_blockedReason t"
  "d_nextEligibleAt (applyTransition d t) = tr_nextEligibleAt t"
  "d_leaseOwner (applyTransition d t) = map_option le_owner (tr_lease t)"
  "d_leaseToken (applyTransition d t) = map_option le_token (tr_lease t)"
  "d_leaseAcquiredAt (applyTransition d t) = map_option (\<lambda>_. tr_at t) (tr_lease t)"
  "d_leaseExpiresAt (applyTransition d t) = map_option le_expiresAt (tr_lease t)"
  "d_terminalAt (applyTransition d t) =
     (if isTerminalDeliveryState (tr_to t) then Some (tr_at t) else None)"
  "d_lastFailureCategory (applyTransition d t) =
     (case tr_blockedReason t of None \<Rightarrow> d_lastFailureCategory d | Some c \<Rightarrow> Some c)"
  by (simp_all add: applyTransition_def)

text \<open>The fields that identify a delivery and its frozen configuration.\<close>

definition same_identity :: "delivery \<Rightarrow> delivery \<Rightarrow> bool" where
  "same_identity d d' \<longleftrightarrow>
     d_deliveryId d' = d_deliveryId d \<and> d_eventId d' = d_eventId d
     \<and> d_correlationId d' = d_correlationId d \<and> d_tenantId d' = d_tenantId d
     \<and> d_partnerId d' = d_partnerId d \<and> d_destinationId d' = d_destinationId d
     \<and> d_executionType d' = d_executionType d
     \<and> d_originalDeliveryId d' = d_originalDeliveryId d \<and> d_replayId d' = d_replayId d
     \<and> d_maxAttempts d' = d_maxAttempts d \<and> d_configSnapshot d' = d_configSnapshot d
     \<and> d_transformedPayload d' = d_transformedPayload d
     \<and> d_transformedPayloadHash d' = d_transformedPayloadHash d
     \<and> d_partnerIdempotencyKey d' = d_partnerIdempotencyKey d
     \<and> d_createdAt d' = d_createdAt d \<and> d_expiresAt d' = d_expiresAt d"

lemma applyTransition_identity [simp]: "same_identity d (applyTransition d t)"
  by (simp add: same_identity_def applyTransition_def)

lemma applyTransition_keeps [simp]:
  "d_deliveryId (applyTransition d t) = d_deliveryId d"
  "d_eventId (applyTransition d t) = d_eventId d"
  "d_correlationId (applyTransition d t) = d_correlationId d"
  "d_tenantId (applyTransition d t) = d_tenantId d"
  "d_partnerId (applyTransition d t) = d_partnerId d"
  "d_destinationId (applyTransition d t) = d_destinationId d"
  "d_executionType (applyTransition d t) = d_executionType d"
  "d_attemptCount (applyTransition d t) = d_attemptCount d"
  "d_maxAttempts (applyTransition d t) = d_maxAttempts d"
  "d_activeAttemptId (applyTransition d t) = d_activeAttemptId d"
  "d_configSnapshot (applyTransition d t) = d_configSnapshot d"
  "d_expiresAt (applyTransition d t) = d_expiresAt d"
  "d_partnerIdempotencyKey (applyTransition d t) = d_partnerIdempotencyKey d"
  "d_transformedPayload (applyTransition d t) = d_transformedPayload d"
  by (simp_all add: applyTransition_def)

section \<open>Well-formed deliveries\<close>

text \<open>
  What the optional fields of a delivery say about its state. The transitions that the program
  builds pass a lease exactly when they enter \<open>in_progress\<close>, and no blocked reason then.
\<close>

definition lease_wf :: "delivery \<Rightarrow> bool" where
  "lease_wf d \<longleftrightarrow>
     (d_leaseToken d \<noteq> None \<longleftrightarrow> d_state d = In_Progress)
     \<and> (d_leaseOwner d \<noteq> None \<longleftrightarrow> d_state d = In_Progress)
     \<and> (d_leaseAcquiredAt d \<noteq> None \<longleftrightarrow> d_state d = In_Progress)
     \<and> (d_leaseExpiresAt d \<noteq> None \<longleftrightarrow> d_state d = In_Progress)"

definition delivery_wf :: "delivery \<Rightarrow> bool" where
  "delivery_wf d \<longleftrightarrow>
     lease_wf d
     \<and> (d_terminalAt d \<noteq> None \<longleftrightarrow> isTerminalDeliveryState (d_state d))
     \<and> (d_state d \<in> set deferred_states \<longrightarrow> d_nextEligibleAt d \<noteq> None)
     \<and> (d_state d = In_Progress \<longrightarrow> d_blockedReason d = None)"

definition program_transition :: "delivery_transition \<Rightarrow> bool" where
  "program_transition t \<longleftrightarrow>
     (tr_lease t \<noteq> None \<longleftrightarrow> tr_to t = In_Progress)
     \<and> (tr_to t = In_Progress \<longrightarrow> tr_blockedReason t = None)"

lemma delivery_wf_transition:
  assumes "transitionDelivery d t = Inr d'" and "program_transition t"
  shows "delivery_wf d'"
  using assms
  by (auto simp: transitionDelivery_Inr delivery_wf_def lease_wf_def program_transition_def)

text \<open>
  C2. The delivery state machine. Whatever transition succeeds starts in a state that is not
  terminal and names the version it found, increments the version by exactly one, keeps the identity
  and the frozen configuration of the delivery, and never enters \<open>pending\<close> or \<open>cancelled\<close>; it leaves
  \<open>in_progress\<close> only with the token of the lease, enters it only with a lease, whose owner, token and
  times are then on the delivery, has a terminal time exactly in a terminal state and an eligibility
  time in every deferred one. The guards do not ask more of the lease: the outcome is well-formed
  exactly when the caller passed a lease to enter \<open>in_progress\<close> and only then, and no blocked reason
  with it.
\<close>

theorem transition_sound:
  assumes "transitionDelivery d t = Inr d'"
  shows "\<not> isTerminalDeliveryState (d_state d) \<and> d_version d = tr_expectedVersion t
    \<and> d_version d' = d_version d + 1 \<and> same_identity d d'
    \<and> d_state d' \<notin> {Pending, Cancelled}
    \<and> (d_state d = In_Progress \<longrightarrow> d_leaseToken d = tr_leaseToken t)
    \<and> (d_state d' = In_Progress \<longrightarrow> d_leaseToken d' \<noteq> None \<and> d_leaseOwner d' \<noteq> None
         \<and> d_leaseAcquiredAt d' \<noteq> None \<and> d_leaseExpiresAt d' \<noteq> None)
    \<and> (d_terminalAt d' \<noteq> None \<longleftrightarrow> isTerminalDeliveryState (d_state d'))
    \<and> (d_state d' \<in> {Scheduled, Retry_Scheduled, Rate_Limited} \<longrightarrow> d_nextEligibleAt d' \<noteq> None)
    \<and> (delivery_wf d' \<longleftrightarrow> (tr_lease t \<noteq> None \<longleftrightarrow> d_state d' = In_Progress)
         \<and> (d_state d' = In_Progress \<longrightarrow> tr_blockedReason t = None))"
proof -
  from assms have perm: "tr_to t \<in> set (permittedTransitions (d_state d))"
    and d': "d' = applyTransition d t"
    and guards: "d_version d = tr_expectedVersion t" "tr_to t = In_Progress \<longrightarrow> tr_lease t \<noteq> None"
      "d_state d = In_Progress \<longrightarrow> d_leaseToken d = tr_leaseToken t"
      "tr_to t \<in> set deferred_states \<longrightarrow> tr_nextEligibleAt t \<noteq> None"
    by (auto simp: transitionDelivery_Inr)
  from perm have "tr_to t \<noteq> Pending \<and> tr_to t \<noteq> Cancelled"
    using permitted_never_cancelled permitted_never_pending by metis
  moreover from perm have "\<not> isTerminalDeliveryState (d_state d)"
    by (rule permitted_not_terminal)
  moreover from guards have "delivery_wf d' \<longleftrightarrow> (tr_lease t \<noteq> None \<longleftrightarrow> tr_to t = In_Progress)
         \<and> (tr_to t = In_Progress \<longrightarrow> tr_blockedReason t = None)"
    by (auto simp: d' delivery_wf_def lease_wf_def)
  moreover from guards(4) have "tr_to t \<in> {Scheduled, Retry_Scheduled, Rate_Limited}
      \<longrightarrow> tr_nextEligibleAt t \<noteq> None"
    by (auto simp: deferred_states_def)
  ultimately show ?thesis using d' guards(1-3) by simp
qed

text \<open>A concrete delivery for the witnesses.\<close>

definition sample_policy :: retry_policy where
  "sample_policy = \<lparr>rp_maxAttempts = 3, rp_initialDelaySeconds = 2, rp_multiplier = 2,
     rp_maxDelaySeconds = 60\<rparr>"

definition sample_snapshot :: config_snapshot where
  "sample_snapshot = \<lparr>cs_destinationVersion = 1, cs_url = ''https://p.test/x'',
     cs_timeoutMs = 1000, cs_retryPolicy = sample_policy,
     cs_rateLimitPolicyId = ''dst_1:v1'', cs_circuitBreakerPolicyId = ''dst_1:v1'',
     cs_authType = Api_Key,
     cs_authConfiguration = JObj [(''headerName'', JStr ''X-API-Key'')],
     cs_secretReferenceNames = [''alias''], cs_transformationId = ''trf_1'',
     cs_transformationVersion = 1, cs_redactionPaths = [],
     cs_idempotencyHeader = Some ''Idempotency-Key''\<rparr>"

definition sample_delivery :: delivery where
  "sample_delivery = \<lparr>d_deliveryId = ''dlv_1'', d_eventId = ''evt_1'',
     d_correlationId = ''cor_1'', d_tenantId = ''t1'', d_partnerId = ''ptr_1'',
     d_destinationId = ''dst_1'', d_executionType = ORIGINAL, d_originalDeliveryId = None,
     d_replayId = None, d_state = Scheduled, d_blockedReason = None, d_attemptCount = 0,
     d_maxAttempts = 3, d_activeAttemptId = None, d_nextEligibleAt = Some 1000,
     d_leaseOwner = None, d_leaseToken = None, d_leaseAcquiredAt = None,
     d_leaseExpiresAt = None, d_configSnapshot = sample_snapshot,
     d_transformedPayload = JObj [], d_transformedPayloadHash = ''h'',
     d_partnerIdempotencyKey = ''k'', d_lastFailureCategory = None, d_createdAt = 1000,
     d_updatedAt = 1000, d_terminalAt = None, d_version = 1, d_expiresAt = Epoch 9000\<rparr>"

definition sample_lease_transition :: delivery_transition where
  "sample_lease_transition = \<lparr>tr_to = In_Progress, tr_at = 2000, tr_expectedVersion = 1,
     tr_leaseToken = None, tr_nextEligibleAt = None, tr_blockedReason = None,
     tr_lease = Some \<lparr>le_owner = ''w'', le_token = ''lease_1'', le_expiresAt = 8000\<rparr>\<rparr>"

lemmas sample_defs = sample_policy_def sample_snapshot_def sample_delivery_def
  sample_lease_transition_def

theorem transition_sound_witness:
  "transitionDelivery sample_delivery sample_lease_transition
     = Inr (applyTransition sample_delivery sample_lease_transition)
   \<and> d_version (applyTransition sample_delivery sample_lease_transition) = 2
   \<and> delivery_wf (applyTransition sample_delivery sample_lease_transition)"
proof -
  have ok: "transitionDelivery sample_delivery sample_lease_transition
      = Inr (applyTransition sample_delivery sample_lease_transition)"
    by (simp add: transitionDelivery_Inr sample_defs deferred_states_def)
  from transition_sound [OF ok] ok show ?thesis by (simp add: sample_defs)
qed

text \<open>
  Terminal states are final: no transition whatever leaves \<open>succeeded\<close>, \<open>failed_terminal\<close>,
  \<open>dead_lettered\<close> or \<open>cancelled\<close>; each is refused with \<open>INVALID_TRANSITION\<close>.
\<close>

theorem terminal_absorbing:
  assumes "isTerminalDeliveryState (d_state d)"
  shows "\<exists>msg. transitionDelivery d t = Inl (DomainError INVALID_TRANSITION msg)"
proof (cases "transitionDelivery d t")
  case (Inl e)
  then show ?thesis using transitionDelivery_Inl by blast
next
  case (Inr d')
  then have "tr_to t \<in> set (permittedTransitions (d_state d))"
    by (simp add: transitionDelivery_Inr)
  with assms show ?thesis using permitted_not_terminal by blast
qed

theorem terminal_absorbing_witness:
  "\<exists>msg. transitionDelivery (sample_delivery\<lparr>d_state := Dead_Lettered\<rparr>) sample_lease_transition
      = Inl (DomainError INVALID_TRANSITION msg)"
  using terminal_absorbing [of "sample_delivery\<lparr>d_state := Dead_Lettered\<rparr>"] by simp

section \<open>Facts about the policies\<close>

lemma validate_retry_iff:
  "validatePolicy (raw_retry_policy p) = Inr () \<longleftrightarrow>
     1 \<le> rp_maxAttempts p \<and> 0 < rp_initialDelaySeconds p \<and> 0 < rp_multiplier p
     \<and> 0 < rp_maxDelaySeconds p"
  by (auto simp: validatePolicy_def raw_retry_policy_def positive_finite_def positive_integer_def
      not_less)

lemma validate_rate_iff:
  "validatePolicy (raw_rate_limit_policy p) = Inr () \<longleftrightarrow>
     0 < rl_requestsPerInterval p \<and> 0 < rl_intervalSeconds p \<and> 0 < rl_burstCapacity p
     \<and> 0 < rl_safetyFactor p \<and> rl_safetyFactor p \<le> 1"
  by (auto simp: validatePolicy_def raw_rate_limit_policy_def positive_finite_def exceeds_one_def
      not_less)

lemma clamp_random_bounds: "0 \<le> clamp_random r" "clamp_random r < 1"
  by (auto simp: clamp_random_def)

lemma retryBase_pos:
  "0 < rp_initialDelaySeconds p \<Longrightarrow> 0 < rp_multiplier p \<Longrightarrow> 0 < rp_maxDelaySeconds p
   \<Longrightarrow> 0 < retryBase p n"
  by (simp add: retryBase_def js_pow_pos)

lemma retryBase_le_max: "retryBase p n \<le> rp_maxDelaySeconds p"
  by (simp add: retryBase_def)

lemma jitter_bounds:
  fixes base :: rat
  assumes "0 < base"
  shows "base / 2 \<le> base * (1 / 2 + clamp_random r * (1 / 2))"
    and "base * (1 / 2 + clamp_random r * (1 / 2)) \<le> base"
proof -
  have c: "0 \<le> clamp_random r" "clamp_random r < 1" by (rule clamp_random_bounds)+
  have "base * (1 / 2) \<le> base * (1 / 2 + clamp_random r * (1 / 2))"
    using assms c by (intro mult_left_mono) auto
  then show "base / 2 \<le> base * (1 / 2 + clamp_random r * (1 / 2))" by simp
  have "base * (1 / 2 + clamp_random r * (1 / 2)) \<le> base * 1"
    using assms c by (intro mult_left_mono) auto
  then show "base * (1 / 2 + clamp_random r * (1 / 2)) \<le> base" by simp
qed

text \<open>
  A retry policy that passed validation gives a delay that is positive, at least half of the
  capped exponential backoff (the jitter is the upper half), at least the partner's
  \<open>Retry-After\<close> up to the cap, and never above \<open>maxDelaySeconds\<close>, whatever the random number is.
\<close>

theorem retry_delay_bounds:
  assumes "validatePolicy (raw_retry_policy p) = Inr ()"
  shows "0 < retryDelaySeconds p n r ra
    \<and> retryBase p n / 2 \<le> retryDelaySeconds p n r ra
    \<and> retryDelaySeconds p n r ra \<le> rp_maxDelaySeconds p
    \<and> (case ra of None \<Rightarrow> retryDelaySeconds p n r ra \<le> retryBase p n
       | Some s \<Rightarrow> min (rp_maxDelaySeconds p) s \<le> retryDelaySeconds p n r ra)"
proof -
  let ?j = "retryBase p n * (1 / 2 + clamp_random r * (1 / 2))"
  from assms have pos: "0 < retryBase p n" by (simp add: validate_retry_iff retryBase_pos)
  have le: "retryBase p n \<le> rp_maxDelaySeconds p" by (rule retryBase_le_max)
  note j = jitter_bounds [OF pos, of r]
  have lower: "retryBase p n / 2 \<le> retryDelaySeconds p n r ra"
    unfolding retryDelaySeconds_def Let_def
    using j le pos by (intro min.boundedI max.coboundedI1) linarith+
  moreover have "0 < retryBase p n / 2" using pos by simp
  ultimately have "0 < retryDelaySeconds p n r ra" by linarith
  then show ?thesis
    using lower j le pos
    by (auto simp: retryDelaySeconds_def Let_def min_le_iff_disj le_max_iff_disj split: option.splits)
qed

theorem retry_delay_bounds_witness:
  "validatePolicy (raw_retry_policy sample_policy) = Inr ()
   \<and> retryBase sample_policy 3 = 8
   \<and> 4 \<le> retryDelaySeconds sample_policy 3 (1 / 10) None
   \<and> retryDelaySeconds sample_policy 3 (1 / 10) None \<le> 60"
proof -
  have ok: "validatePolicy (raw_retry_policy sample_policy) = Inr ()"
    by (simp add: validate_retry_iff sample_policy_def)
  have b: "retryBase sample_policy 3 = 8"
    by (simp add: retryBase_def sample_policy_def js_pow_def)
  from retry_delay_bounds [OF ok, of 3 "1 / 10" None] b ok show ?thesis
    by (simp add: sample_policy_def)
qed

section \<open>The status of an event against the deliveries it has\<close>

text \<open>
  The counters of an event are a materialised view of the states of its original deliveries.
  \<open>counters_of\<close> is the view, \<open>status_of\<close> the status an operator expects from the states alone.
\<close>

definition count_state :: "(delivery_state \<Rightarrow> bool) \<Rightarrow> delivery_state list \<Rightarrow> int" where
  "count_state P ss = int (length (filter P ss))"

definition counters_of :: "bool \<Rightarrow> delivery_state list \<Rightarrow> outcome_counters" where
  "counters_of routed ss = \<lparr>oc_routingComplete = routed,
     oc_totalDeliveries = int (length ss),
     oc_terminalDeliveries = count_state isTerminalDeliveryState ss,
     oc_successfulDeliveries = count_state (\<lambda>s. s = Succeeded) ss,
     oc_failedTerminalDeliveries = count_state (\<lambda>s. s = Failed_Terminal) ss,
     oc_deadLetteredDeliveries = count_state (\<lambda>s. s = Dead_Lettered) ss\<rparr>"

definition status_of :: "bool \<Rightarrow> delivery_state list \<Rightarrow> event_status" where
  "status_of routed ss =
     (if \<not> routed then (if ss = [] then Ev_Accepted else Ev_Processing)
      else if ss = [] then Ev_No_Destinations
      else if \<not> list_all isTerminalDeliveryState ss then Ev_Processing
      else if list_all (\<lambda>s. s = Succeeded) ss then Ev_Succeeded
      else if list_ex (\<lambda>s. s = Succeeded) ss then Ev_Partially_Succeeded
      else Ev_Failed)"

lemma count_state_nonneg [simp]: "0 \<le> count_state P ss"
  by (simp add: count_state_def)

lemma count_state_le: "count_state P ss \<le> int (length ss)"
  by (simp add: count_state_def)

lemma count_state_all: "count_state P ss = int (length ss) \<longleftrightarrow> list_all P ss"
proof (induction ss)
  case (Cons s ss)
  have "int (length (filter P ss)) \<noteq> 1 + int (length ss)"
    using length_filter_le [of P ss] by linarith
  with Cons show ?case by (auto simp: count_state_def)
qed (simp add: count_state_def)

lemma count_state_pos: "0 < count_state P ss \<longleftrightarrow> list_ex P ss"
  by (induction ss) (auto simp: count_state_def)

lemma count_state_terminal_sum:
  "Cancelled \<notin> set ss \<Longrightarrow>
   count_state (\<lambda>s. s = Succeeded) ss + count_state (\<lambda>s. s = Failed_Terminal) ss
     + count_state (\<lambda>s. s = Dead_Lettered) ss = count_state isTerminalDeliveryState ss"
  by (induction ss) (auto simp: count_state_def)

lemma counters_of_consistent: "Cancelled \<notin> set ss \<Longrightarrow> \<not> counters_inconsistent (counters_of routed ss)"
  using count_state_le [of isTerminalDeliveryState ss] count_state_terminal_sum [of ss]
  by (auto simp: counters_inconsistent_def counters_of_def not_less)

lemma derive_status_spec:
  assumes "Cancelled \<notin> set ss"
  shows "deriveEventStatus (counters_of routed ss) = Inr (status_of routed ss)"
proof -
  have lt: "count_state isTerminalDeliveryState ss < int (length ss)
      \<longleftrightarrow> \<not> list_all isTerminalDeliveryState ss"
    using count_state_le [of isTerminalDeliveryState ss]
      count_state_all [of isTerminalDeliveryState ss] by linarith
  show ?thesis
    using counters_of_consistent [OF assms, of routed] lt
      count_state_all [of "\<lambda>s. s = Succeeded" ss] count_state_pos [of "\<lambda>s. s = Succeeded" ss]
    by (auto simp: deriveEventStatus_def throw_if_def status_of_def counters_of_def)
qed

text \<open>
  The status that the code derives from the counters is the status of the deliveries they
  count: for every list of delivery states without \<open>cancelled\<close> (which no transition enters), the
  counters are accepted and the derived status is the one read off the states.
\<close>

theorem derive_status_refines:
  assumes "Cancelled \<notin> set ss"
  shows "deriveEventStatus (counters_of routed ss) = Inr (status_of routed ss)"
  using assms by (rule derive_status_spec)

theorem derive_status_refines_witness:
  "deriveEventStatus (counters_of True [Succeeded, Dead_Lettered]) = Inr Ev_Partially_Succeeded"
  using derive_status_refines [of "[Succeeded, Dead_Lettered]" True] by (simp add: status_of_def)

section \<open>Facts about classification and replay\<close>

text \<open>
  The classification of a delivery result is coherent for every status and error code: a
  success is never retried and has no failure category, a failure always has one, only retryable
  failures count towards the circuit, and a response counts exactly when it is a server error
  500, 502, 503 or 504.
\<close>

theorem classification_coherent:
  "let k = classifyDeliveryResult status errorCode in
     (cl_success k \<longleftrightarrow> cl_failureCategory k = None)
     \<and> (cl_success k \<longrightarrow> \<not> cl_retryable k)
     \<and> (cl_countsTowardCircuit k \<longrightarrow> cl_retryable k)
     \<and> (\<forall>s. status = Some s \<longrightarrow>
          (cl_success k \<longleftrightarrow> 200 \<le> s \<and> s < 300)
          \<and> (cl_countsTowardCircuit k \<longleftrightarrow> s = 500 \<or> s = 502 \<or> s = 503 \<or> s = 504))"
proof -
  have look: "map_of classified c = Some k \<Longrightarrow>
      \<not> cl_success k \<and> cl_failureCategory k \<noteq> None \<and> cl_countsTowardCircuit k = cl_retryable k" for c k
    by (auto simp: classified_def transport_failure_def final_failure_def split: if_splits)
  show ?thesis
    by (cases status)
       (auto simp: classifyDeliveryResult_def final_failure_def Let_def
          dest: look split: option.splits)
qed

theorem classification_coherent_witness:
  "cl_countsTowardCircuit (classifyDeliveryResult (Some 503) None)
   \<and> \<not> cl_countsTowardCircuit (classifyDeliveryResult (Some 429) None)
   \<and> cl_failureCategory (classifyDeliveryResult (Some 204) None) = None"
  using classification_coherent [of "Some 503" None] classification_coherent [of "Some 429" None]
    classification_coherent [of "Some 204" None]
  by (auto simp: Let_def)

lemma replay_only_terminal:
  "el_eligible (replayEligibility s c b) \<Longrightarrow> s = Dead_Lettered \<or> s = Failed_Terminal"
  by (auto simp: replayEligibility_def split: if_splits)

end
