(* ===== verification/Dynamo.thy ===== *)
theory Dynamo
  imports Domain
begin

text \<open>
  What the persistence package uses of its database. The service itself (DynamoDB, reached through
  the AWS client library) is not part of the repository: it is a parameter, the record \<open>dynamo\<close> of
  the three calls the code makes, over a type \<open>'w\<close> of worlds that hold the table, the other clients
  of the table and the process clock. The locale \<open>dynamo_table\<close> states what the code relies on:
  a read returns the current item, a transaction checks all its conditions and applies all its
  writes in one step or changes nothing, and between two calls the other clients may change the
  table as the relation \<open>rely\<close> allows. \<open>mem_db\<close> is a concrete world for which this is proved.

  The items and their keys are the ones the package writes: \<open>dkey\<close> has one constructor per function
  of \<open>packages/persistence/src/keys.ts\<close>, \<open>item\<close> one per \<open>entityType\<close>.
\<close>

section \<open>Keys\<close>

datatype runtime_name = RT_Rate_Limit | RT_Circuit
datatype resource_type = RES_Partner | RES_Destination | RES_Transformation | RES_Subscription
datatype lookup_kind = LK_Event | LK_Delivery | LK_Correlation

datatype dkey =
    K_Tenant string
  | K_Identity string string
  | K_ApiClient string string
  | K_ApiClientLocator string
  | K_Partner string string
  | K_Destination string string
  | K_Runtime string string runtime_name
  | K_Transformation string string int
  | K_Subscription string string string
  | K_SubscriptionCatalog string string
  | K_ExternalKey string resource_type string
  | K_Event string string
  | K_Delivery string string string
  | K_Attempt string string string int
  | K_History string string string instant string
  | K_Lookup string lookup_kind string
  | K_Idempotency string string string
  | K_ReplayIdempotency string string
  | K_Nonce string string string
  | K_EventIndex string string instant string
  | K_DeliveryIndex string string instant string
  | K_ReplayRelation string string string string
  | K_Rollup string int "nat option"
  | K_DestinationRollup string int string
  | K_Outbox nat instant string
  | K_ScheduledWork nat instant string
  | K_Audit string instant string
  | K_Secret string string string

section \<open>Items\<close>

record event_index =
  ei_eventId :: string
  ei_eventType :: "string option"
  ei_status :: "event_status option"
  ei_acceptedAt :: instant
  ei_expiresAt :: expiry

record delivery_index =
  di_deliveryId :: string
  di_eventId :: string
  di_correlationId :: string
  di_destinationId :: string
  di_partnerId :: string
  di_state :: delivery_state
  di_blockedReason :: "failure_category option"
  di_updatedAt :: instant
  di_expiresAt :: expiry

record idempotency_guard =
  ig_requestBodyHash :: string
  ig_eventId :: string
  ig_responseStatus :: int
  ig_expiresAt :: expiry

record replay_guard =
  rg_requestHash :: string
  rg_replayDeliveryId :: string
  rg_replayId :: string
  rg_expiresAt :: expiry

record scheduled_work =
  sw_workId :: string
  sw_tenantId :: string
  sw_eventId :: string
  sw_deliveryId :: string
  sw_correlationId :: string
  sw_notBefore :: instant
  sw_cause :: cause
  sw_createdAt :: instant
  sw_publishedAt :: "instant option"
  sw_traceparent :: "string option"
  sw_attempts :: int
  sw_expiresAt :: expiry

text \<open>
  An outbox item carries, beside the record, its expiry, whether it is on the index of unpublished
  records (the attributes \<open>GSI1PK\<close> and \<open>GSI1SK\<close>) and the time of its last publication failure.
\<close>

record outbox_item =
  oi_record :: outbox_record
  oi_expiresAt :: expiry
  oi_unpublished :: bool
  oi_lastPublicationFailureAt :: "instant option"

text \<open>
  An update of a key that holds no item creates one, of the attributes that the update sets and no
  others. The updates of outbox rows and of scheduled work are unconditional, so this can happen to
  them when the row has been deleted by its expiry.
\<close>

record stub =
  sb_publishedAt :: "instant option"
  sb_attempts :: "int option"
  sb_lastPublicationFailureAt :: "instant option"

text \<open>A rollup item is a list of named counters; an absent counter counts as zero.\<close>

type_synonym counters = "string \<Rightarrow> int"

datatype item =
    It_Identity user_identity
  | It_ApiClient api_client
  | It_ClientLocator string
  | It_Event canonical_event
  | It_Delivery delivery
  | It_Attempt delivery_attempt
  | It_History history_entry
  | It_Lookup string
  | It_EventIndex event_index
  | It_DeliveryIndex delivery_index
  | It_Idempotency idempotency_guard
  | It_ReplayIdempotency replay_guard
  | It_ReplayRelation replay_relation
  | It_Outbox outbox_item
  | It_ScheduledWork scheduled_work
  | It_Circuit circuit_state
  | It_RateLimit rate_limit_state
  | It_Nonce expiry
  | It_Partner partner
  | It_Destination destination
  | It_Transformation transformation_version
  | It_Subscription subscription
  | It_External string
  | It_Rollup counters
  | It_Audit audit_event
  | It_Stub stub

type_synonym dtable = "dkey \<Rightarrow> item option"

text \<open>The numeric \<open>version\<close> attribute of an item, where it has one.\<close>

fun item_version :: "item \<Rightarrow> int option" where
  "item_version (It_Event e) = Some (ev_version e)"
| "item_version (It_Delivery d) = Some (d_version d)"
| "item_version (It_Circuit c) = Some (ci_version c)"
| "item_version (It_ApiClient c) = Some (ap_version c)"
| "item_version (It_RateLimit r) = Some (rs_version r)"
| "item_version (It_Partner p) = Some (pa_version p)"
| "item_version (It_Destination d) = Some (de_version d)"
| "item_version (It_Transformation t) = Some (tf_version t)"
| "item_version (It_Subscription s) = Some (su_version s)"
| "item_version _ = None"

text \<open>The \<open>expiresAt\<close> attribute of an item, where it has one.\<close>

fun item_expiry :: "item \<Rightarrow> expiry option" where
  "item_expiry (It_Event e) = Some (ev_expiresAt e)"
| "item_expiry (It_Delivery d) = Some (d_expiresAt d)"
| "item_expiry (It_Attempt a) = Some (at_expiresAt a)"
| "item_expiry (It_History h) = Some (hi_expiresAt h)"
| "item_expiry (It_EventIndex i) = Some (ei_expiresAt i)"
| "item_expiry (It_DeliveryIndex i) = Some (di_expiresAt i)"
| "item_expiry (It_Idempotency g) = Some (ig_expiresAt g)"
| "item_expiry (It_ReplayIdempotency g) = Some (rg_expiresAt g)"
| "item_expiry (It_ReplayRelation r) = Some (rr_expiresAt r)"
| "item_expiry (It_Outbox b) = Some (oi_expiresAt b)"
| "item_expiry (It_ScheduledWork w) = Some (sw_expiresAt w)"
| "item_expiry (It_Nonce e) = Some e"
| "item_expiry (It_Audit a) = Some (au_expiresAt a)"
| "item_expiry _ = None"

definition isExpired :: "item \<Rightarrow> instant \<Rightarrow> bool" where
  "isExpired it now = (case item_expiry it of
      Some (Epoch s) \<Rightarrow> s \<le> epochSeconds (Iso now)
    | _ \<Rightarrow> False)"

section \<open>Transactions\<close>

text \<open>
  A write names a key, a condition on the item that is there before the transaction, and what it
  puts there. \<open>Update\<close> is a function of the old item (an update expression).
\<close>

datatype action = Put item | Delete | Update "item option \<Rightarrow> item"

record tx_op =
  op_key :: dkey
  op_cond :: "item option \<Rightarrow> bool"
  op_action :: action

definition always :: "item option \<Rightarrow> bool" where
  "always old = True"

definition attribute_not_exists_PK :: "item option \<Rightarrow> bool" where
  "attribute_not_exists_PK old \<longleftrightarrow> old = None"

definition attribute_exists_PK :: "item option \<Rightarrow> bool" where
  "attribute_exists_PK old \<longleftrightarrow> old \<noteq> None"

definition version_is :: "int \<Rightarrow> item option \<Rightarrow> bool" where
  "version_is v old \<longleftrightarrow> (case old of None \<Rightarrow> False | Some it \<Rightarrow> item_version it = Some v)"

definition absent_or_version :: "int \<Rightarrow> item option \<Rightarrow> bool" where
  "absent_or_version v old \<longleftrightarrow> attribute_not_exists_PK old \<or> version_is v old"

definition put_op :: "dkey \<Rightarrow> (item option \<Rightarrow> bool) \<Rightarrow> item \<Rightarrow> tx_op" where
  "put_op k c it = \<lparr>op_key = k, op_cond = c, op_action = Put it\<rparr>"

definition put_new :: "dkey \<Rightarrow> item \<Rightarrow> tx_op" where
  "put_new k it = put_op k attribute_not_exists_PK it"

definition delete_op :: "dkey \<Rightarrow> (item option \<Rightarrow> bool) \<Rightarrow> tx_op" where
  "delete_op k c = \<lparr>op_key = k, op_cond = c, op_action = Delete\<rparr>"

definition update_op :: "dkey \<Rightarrow> (item option \<Rightarrow> item) \<Rightarrow> tx_op" where
  "update_op k f = \<lparr>op_key = k, op_cond = always, op_action = Update f\<rparr>"

fun run_action :: "action \<Rightarrow> item option \<Rightarrow> item option" where
  "run_action (Put it) old = Some it"
| "run_action Delete old = None"
| "run_action (Update f) old = Some (f old)"

definition tx_distinct :: "tx_op list \<Rightarrow> bool" where
  "tx_distinct ops \<longleftrightarrow> distinct (map op_key ops)"

definition tx_conditions :: "tx_op list \<Rightarrow> dtable \<Rightarrow> bool" where
  "tx_conditions ops s \<longleftrightarrow> list_all (\<lambda>op. op_cond op (s (op_key op))) ops"

definition tx_ok :: "tx_op list \<Rightarrow> dtable \<Rightarrow> bool" where
  "tx_ok ops s \<longleftrightarrow> tx_distinct ops \<and> tx_conditions ops s"

primrec tx_apply :: "tx_op list \<Rightarrow> dtable \<Rightarrow> dtable" where
  "tx_apply [] s = s"
| "tx_apply (op # ops) s =
     tx_apply ops (s(op_key op := run_action (op_action op) (s (op_key op))))"

lemma op_sel [simp, tx_simps]:
  "op_key (put_op k c it) = k" "op_cond (put_op k c it) = c" "op_action (put_op k c it) = Put it"
  "op_key (put_new k it) = k" "op_cond (put_new k it) = attribute_not_exists_PK"
  "op_action (put_new k it) = Put it"
  "op_key (delete_op k c) = k" "op_cond (delete_op k c) = c" "op_action (delete_op k c) = Delete"
  "op_key (update_op k f) = k" "op_cond (update_op k f) = always"
  "op_action (update_op k f) = Update f"
  by (simp_all add: put_op_def put_new_def delete_op_def update_op_def)

lemma always_True [simp, tx_simps]: "always old"
  by (simp add: always_def)

lemma not_exists_iff [simp, tx_simps]: "attribute_not_exists_PK old \<longleftrightarrow> old = None"
  by (simp add: attribute_not_exists_PK_def)

lemma exists_iff [simp, tx_simps]: "attribute_exists_PK old \<longleftrightarrow> old \<noteq> None"
  by (simp add: attribute_exists_PK_def)

lemma tx_conditions_Nil [simp, tx_simps]: "tx_conditions [] s"
  by (simp add: tx_conditions_def)

lemma tx_conditions_Cons [simp, tx_simps]:
  "tx_conditions (op # ops) s \<longleftrightarrow> op_cond op (s (op_key op)) \<and> tx_conditions ops s"
  by (simp add: tx_conditions_def)

lemma tx_conditions_append [simp, tx_simps]:
  "tx_conditions (xs @ ys) s \<longleftrightarrow> tx_conditions xs s \<and> tx_conditions ys s"
  by (simp add: tx_conditions_def)

lemma tx_apply_append [simp]: "tx_apply (xs @ ys) s = tx_apply ys (tx_apply xs s)"
  by (induction xs arbitrary: s) auto

lemma tx_apply_other: "k \<notin> op_key ` set ops \<Longrightarrow> tx_apply ops s k = s k"
  by (induction ops arbitrary: s) auto

lemma tx_apply_at:
  assumes "op \<in> set ops" and "tx_distinct ops"
  shows "tx_apply ops s (op_key op) = run_action (op_action op) (s (op_key op))"
  using assms
proof (induction ops arbitrary: s)
  case Nil
  then show ?case by simp
next
  case (Cons x xs)
  show ?case
  proof (cases "op = x")
    case True
    with Cons.prems have "op_key op \<notin> op_key ` set xs" by (auto simp: tx_distinct_def)
    with True show ?thesis by (simp add: tx_apply_other)
  next
    case False
    with Cons.prems have op: "op \<in> set xs" and d: "tx_distinct xs"
      by (auto simp: tx_distinct_def)
    from Cons.prems have "op_key x \<notin> op_key ` set xs" by (simp add: tx_distinct_def)
    moreover from op have "op_key op \<in> op_key ` set xs" by (rule imageI)
    ultimately have ne: "op_key op \<noteq> op_key x" by metis
    from ne Cons.IH [OF op d] show ?thesis by simp
  qed
qed

lemma tx_conditionsD: "tx_conditions ops s \<Longrightarrow> op \<in> set ops \<Longrightarrow> op_cond op (s (op_key op))"
  by (auto simp: tx_conditions_def list_all_iff)

section \<open>Operations that read and write the table\<close>

text \<open>
  An asynchronous method is a function from worlds: it returns or throws, and leaves a world. An
  exception keeps the effects made so far, as in the code.
\<close>

type_synonym ('w, 'a) op = "'w \<Rightarrow> (js_error + 'a) \<times> 'w"

definition returnM :: "'a \<Rightarrow> ('w, 'a) op" where
  "returnM a w = (Inr a, w)"

definition throwM :: "js_error \<Rightarrow> ('w, 'a) op" where
  "throwM e w = (Inl e, w)"

definition bindM :: "('w, 'a) op \<Rightarrow> ('a \<Rightarrow> ('w, 'b) op) \<Rightarrow> ('w, 'b) op" where
  "bindM m f w = (case m w of (Inl e, w') \<Rightarrow> (Inl e, w') | (Inr a, w') \<Rightarrow> f a w')"

definition liftM :: "js_error + 'a \<Rightarrow> ('w, 'a) op" where
  "liftM r w = (r, w)"

text \<open>Reading a part of the world, and \<open>try ... catch\<close>: the handler goes on in the world that the failure left.\<close>

definition readM :: "('w \<Rightarrow> 'a) \<Rightarrow> ('w, 'a) op" where
  "readM f w = (Inr (f w), w)"

definition catchM :: "('w, 'a) op \<Rightarrow> (js_error \<Rightarrow> ('w, 'a) op) \<Rightarrow> ('w, 'a) op" where
  "catchM m h w = (case m w of (Inl e, w') \<Rightarrow> h e w' | (Inr a, w') \<Rightarrow> (Inr a, w'))"

text \<open>
  \<open>for (let attempt = 0; attempt < n; attempt += 1)\<close> around a body that returns, or falls through
  to the next round (\<open>None\<close>); \<open>final\<close> is what follows the loop.
\<close>

primrec retryM :: "nat \<Rightarrow> ('w, 'a option) op \<Rightarrow> ('w, 'a) op \<Rightarrow> ('w, 'a) op" where
  "retryM 0 body final = final"
| "retryM (Suc n) body final =
     bindM body (\<lambda>r. case r of None \<Rightarrow> retryM n body final | Some a \<Rightarrow> returnM a)"

text \<open>A loop \<open>for (const x of xs)\<close> with an accumulator.\<close>

primrec foldM :: "('x \<Rightarrow> 'a \<Rightarrow> ('w, 'a) op) \<Rightarrow> 'x list \<Rightarrow> 'a \<Rightarrow> ('w, 'a) op" where
  "foldM f [] a = returnM a"
| "foldM f (x # xs) a = bindM (f x a) (foldM f xs)"

lemma op_bind_assoc: "bindM (bindM m f) g = bindM m (\<lambda>a. bindM (f a) g)"
  by (rule ext) (simp add: bindM_def split: prod.split sum.split)

lemma op_bind_return: "bindM (returnM a) f = f a"
  by (rule ext) (simp add: bindM_def returnM_def)

lemma op_bind_throw: "bindM (throwM e) f = throwM e"
  by (rule ext) (simp add: bindM_def throwM_def)

lemma op_bind_if: "bindM (if c then m else m') f = (if c then bindM m f else bindM m' f)"
  by simp

section \<open>The database client\<close>

text \<open>
  \<open>db_write\<close> is a \<open>TransactWriteCommand\<close>, or a single put or update (a transaction of one write):
  \<open>Inr True\<close> when it committed, \<open>Inr False\<close> when it was refused with an error for which
  \<open>isConditionalFailure\<close> holds, \<open>Inl\<close> for every other error. \<open>db_query\<close> takes the key condition
  and the limit; \<open>db_index\<close> is a query of the sparse index of unpublished outbox rows, whose key is
  made of attributes of the item. \<open>db_now\<close> is \<open>new Date()\<close> of the process.
\<close>

record 'w dynamo =
  db_get :: "dkey \<Rightarrow> ('w, item option) op"
  db_write :: "tx_op list \<Rightarrow> ('w, bool) op"
  db_query :: "(dkey \<Rightarrow> bool) \<Rightarrow> nat option \<Rightarrow> ('w, (dkey \<times> item) list) op"
  db_index :: "(item \<Rightarrow> bool) \<Rightarrow> nat option \<Rightarrow> ('w, (dkey \<times> item) list) op"
  db_now :: "'w \<Rightarrow> instant"

text \<open>\<open>new Date()\<close> in the middle of an operation.\<close>

definition withNow :: "'w dynamo \<Rightarrow> (instant \<Rightarrow> ('w, 'a) op) \<Rightarrow> ('w, 'a) op" where
  "withNow db m w = m (db_now db w) w"

text \<open>
  The laws. \<open>view\<close> is the table of a world and \<open>rely s t\<close> says that the other clients may take the
  table from \<open>s\<close> to \<open>t\<close>. A read is eventually consistent: it returns what the key held in a table
  from which the present one has evolved. A transaction takes effect at one moment, when all its
  conditions hold and no two of its writes have the same key, or not at all; when the call fails
  with another error it is not known which.
\<close>

locale dynamo_table =
  fixes db :: "'w dynamo"
    and view :: "'w \<Rightarrow> dtable"
    and rely :: "dtable \<Rightarrow> dtable \<Rightarrow> bool"
  assumes rely_refl: "rely s s"
    and rely_trans: "rely s t \<Longrightarrow> rely t u \<Longrightarrow> rely s u"
    and get_law: "db_get db k w = (r, w') \<Longrightarrow>
       rely (view w) (view w') \<and> (\<forall>x. r = Inr x \<longrightarrow> (\<exists>s. rely s (view w') \<and> x = s k))"
    and write_law: "db_write db ops w = (rw, w') \<Longrightarrow>
       \<exists>s. rely (view w) s \<and>
         (case rw of
            Inr True \<Rightarrow> tx_ok ops s \<and> view w' = tx_apply ops s
          | Inr False \<Rightarrow> view w' = s
          | Inl e \<Rightarrow> view w' = s \<or> (tx_ok ops s \<and> view w' = tx_apply ops s))"
    and query_law: "db_query db P n w = (rq, w') \<Longrightarrow>
       rely (view w) (view w')
       \<and> (\<forall>xs. rq = Inr xs \<longrightarrow> (\<forall>(k, it) \<in> set xs. P k \<and> (\<exists>s. rely s (view w') \<and> s k = Some it)))"
    and index_law: "db_index db A n w = (rq, w') \<Longrightarrow>
       rely (view w) (view w')
       \<and> (\<forall>xs. rq = Inr xs \<longrightarrow> (\<forall>(k, it) \<in> set xs. A it \<and> (\<exists>s. rely s (view w') \<and> s k = Some it)))"

text \<open>
  A client that is alone on its table, of a service that answers: reads are exact, and a transaction
  of distinct keys commits exactly when its conditions hold. Two writes to one key in a transaction
  are refused by the service with a \<open>ValidationException\<close>, which is not a conditional failure.
\<close>

locale dynamo_alone = dynamo_table db view "(=)"
  for db :: "'w dynamo" and view :: "'w \<Rightarrow> dtable" +
  assumes get_alone: "\<exists>x. fst (db_get db k w) = Inr x"
    and write_alone: "tx_distinct ops \<Longrightarrow> fst (db_write db ops w) = Inr (tx_conditions ops (view w))"
    and write_validation: "\<not> tx_distinct ops \<Longrightarrow>
       fst (db_write db ops w) = Inl (ServiceError ''ValidationException'')"
    and query_alone: "\<exists>xs. fst (db_query db P n w) = Inr xs"
    and index_alone: "\<exists>xs. fst (db_index db A n w) = Inr xs"
    and now_get: "db_now db (snd (db_get db k w)) = db_now db w"
    and now_write: "db_now db (snd (db_write db ops w)) = db_now db w"

section \<open>Reasoning about operations\<close>

text \<open>
  \<open>hoare view P m Q E\<close>: started in a table with \<open>P\<close>, \<open>m\<close> returns \<open>a\<close> in a table with \<open>Q a\<close> or
  throws in a table with \<open>E\<close>.
\<close>

definition hoare ::
    "('w \<Rightarrow> dtable) \<Rightarrow> (dtable \<Rightarrow> bool) \<Rightarrow> ('w, 'a) op \<Rightarrow> ('a \<Rightarrow> dtable \<Rightarrow> bool)
       \<Rightarrow> (dtable \<Rightarrow> bool) \<Rightarrow> bool" where
  "hoare view P m Q E \<longleftrightarrow>
     (\<forall>w. P (view w) \<longrightarrow>
        (case m w of (Inr a, w') \<Rightarrow> Q a (view w') | (Inl e, w') \<Rightarrow> E (view w')))"

lemma hoareI:
  assumes "\<And>w r w'. P (view w) \<Longrightarrow> m w = (r, w') \<Longrightarrow>
    (case r of Inr a \<Rightarrow> Q a (view w') | Inl e \<Rightarrow> E (view w'))"
  shows "hoare view P m Q E"
  unfolding hoare_def
proof (intro allI impI)
  fix w
  assume "P (view w)"
  from assms [OF this, of "fst (m w)" "snd (m w)"]
  show "case m w of (Inr a, w') \<Rightarrow> Q a (view w') | (Inl e, w') \<Rightarrow> E (view w')"
    by (cases "m w"; cases "fst (m w)") auto
qed

lemma hoareD:
  assumes "hoare view P m Q E" and "P (view w)" and "m w = (r, w')"
  shows "case r of Inr a \<Rightarrow> Q a (view w') | Inl e \<Rightarrow> E (view w')"
  using assms by (auto simp: hoare_def split: sum.splits dest: spec [of _ w])

lemma hoare_return: "(\<And>s. P s \<Longrightarrow> Q a s) \<Longrightarrow> hoare view P (returnM a) Q E"
  by (auto simp: hoare_def returnM_def)

lemma hoare_throw: "(\<And>s. P s \<Longrightarrow> E s) \<Longrightarrow> hoare view P (throwM e) Q E"
  by (auto simp: hoare_def throwM_def)

lemma hoare_lift:
  "(\<And>a s. r = Inr a \<Longrightarrow> P s \<Longrightarrow> Q a s) \<Longrightarrow> (\<And>s. P s \<Longrightarrow> E s) \<Longrightarrow> hoare view P (liftM r) Q E"
  by (cases r) (auto simp: hoare_def liftM_def)

lemma hoare_bind:
  assumes "hoare view P m R E" and "\<And>a. hoare view (R a) (f a) Q E"
  shows "hoare view P (bindM m f) Q E"
  unfolding hoare_def
proof (intro allI impI)
  fix w
  assume "P (view w)"
  with assms show "case bindM m f w of (Inr a, w') \<Rightarrow> Q a (view w') | (Inl e, w') \<Rightarrow> E (view w')"
    by (cases "m w"; cases "fst (m w)")
       (fastforce simp: hoare_def bindM_def dest: spec [of _ w])+
qed

lemma hoare_lift_bind:
  assumes "\<And>s. P s \<Longrightarrow> E s" and "\<And>a. r = Inr a \<Longrightarrow> hoare view P (f a) Q E"
  shows "hoare view P (bindM (liftM r) f) Q E"
proof (cases r)
  case (Inl e)
  with assms(1) show ?thesis by (auto simp: hoare_def bindM_def liftM_def)
next
  case (Inr a)
  have "bindM (liftM r) f = f a" using Inr by (auto simp: bindM_def liftM_def fun_eq_iff)
  with assms(2) [OF Inr] show ?thesis by simp
qed

lemma hoare_weaken:
  assumes "hoare view P' m Q' E'"
    and "\<And>s. P s \<Longrightarrow> P' s" and "\<And>a s. Q' a s \<Longrightarrow> Q a s" and "\<And>s. E' s \<Longrightarrow> E s"
  shows "hoare view P m Q E"
  using assms by (fastforce simp: hoare_def split: prod.splits sum.splits)

lemma hoare_conj_pure: "(c \<Longrightarrow> hoare view P m Q E) \<Longrightarrow> hoare view (\<lambda>s. c \<and> P s) m Q E"
  by (auto simp: hoare_def)

lemma hoare_ex: "(\<And>x. hoare view (P x) m Q E) \<Longrightarrow> hoare view (\<lambda>s. \<exists>x. P x s) m Q E"
  by (rule hoareI) (blast dest: hoareD)

lemma hoare_retry:
  assumes "hoare view P body (\<lambda>r s. case r of None \<Rightarrow> P s | Some a \<Rightarrow> Q a s) E"
    and "hoare view P final Q E"
  shows "hoare view P (retryM n body final) Q E"
proof (induction n)
  case 0
  with assms(2) show ?case by simp
next
  case (Suc n)
  show ?case
  proof (simp, rule hoare_bind [OF assms(1)])
    fix r
    show "hoare view (\<lambda>s. case r of None \<Rightarrow> P s | Some a \<Rightarrow> Q a s)
       (case r of None \<Rightarrow> retryM n body final | Some a \<Rightarrow> returnM a) Q E"
      using Suc by (cases r) (auto intro: hoare_return)
  qed
qed

lemma hoare_fold:
  assumes "\<And>x a. x \<in> set xs \<Longrightarrow> hoare view P (f x a) (\<lambda>_. P) P"
  shows "hoare view P (foldM f xs a) (\<lambda>_. P) P"
  using assms
proof (induction xs arbitrary: a)
  case Nil
  then show ?case by (auto intro: hoare_return)
next
  case (Cons x xs)
  show ?case
    by (simp, rule hoare_bind [where R = "\<lambda>_. P"]) (use Cons in auto)
qed

lemma hoare_withNow: "(\<And>now. hoare view P (m now) Q E) \<Longrightarrow> hoare view P (withNow db m) Q E"
  by (simp add: hoare_def withNow_def)

lemma hoare_read_world: "(\<And>w. P (view w) \<Longrightarrow> Q (f w) (view w)) \<Longrightarrow> hoare view P (readM f) Q E"
  by (simp add: hoare_def readM_def)

lemma hoare_catch:
  assumes "hoare view P m Q R" and "\<And>e. hoare view R (h e) Q E"
  shows "hoare view P (catchM m h) Q E"
proof (rule hoareI)
  fix w r w'
  assume P: "P (view w)" and run: "catchM m h w = (r, w')"
  obtain r1 w1 where m: "m w = (r1, w1)" by (cases "m w")
  show "case r of Inr a \<Rightarrow> Q a (view w') | Inl e \<Rightarrow> E (view w')"
  proof (cases r1)
    case (Inl e)
    with assms(1) P m have "R (view w1)" by (fastforce simp: hoare_def)
    moreover have "h e w1 = (r, w')" using run m Inl by (simp add: catchM_def)
    ultimately show ?thesis using assms(2) [of e] by (cases r) (fastforce simp: hoare_def)+
  next
    case (Inr a)
    with assms(1) P m have "Q a (view w1)" by (fastforce simp: hoare_def)
    moreover have "r = Inr a" "w' = w1" using run m Inr by (auto simp: catchM_def)
    ultimately show ?thesis by simp
  qed
qed

text \<open>
  \<open>runs view P m Q\<close>: the same with one condition on the result, so that it can tell the errors apart; \<open>view\<close> is any part of the world.
\<close>

definition runs :: "('w \<Rightarrow> 's) \<Rightarrow> ('s \<Rightarrow> bool) \<Rightarrow> ('w, 'a) op \<Rightarrow> (js_error + 'a \<Rightarrow> 's \<Rightarrow> bool) \<Rightarrow> bool" where
  "runs view P m Q \<longleftrightarrow> (\<forall>w r w'. P (view w) \<longrightarrow> m w = (r, w') \<longrightarrow> Q r (view w'))"

lemma runsD: "runs view P m Q \<Longrightarrow> P (view w) \<Longrightarrow> m w = (r, w') \<Longrightarrow> Q r (view w')"
  by (simp add: runs_def)

lemma runs_bind:
  assumes "runs view P m (\<lambda>r u. case r of Inl e \<Rightarrow> Q (Inl e) u | Inr a \<Rightarrow> R a u)" and "\<And>a. runs view (R a) (f a) Q"
  shows "runs view P (bindM m f) Q"
  using assms unfolding runs_def bindM_def by (fastforce split: prod.splits sum.splits)

lemma runs_weaken: "runs view P m Q \<Longrightarrow> (\<And>u. P' u \<Longrightarrow> P u) \<Longrightarrow> (\<And>r u. Q r u \<Longrightarrow> Q' r u) \<Longrightarrow> runs view P' m Q'"
  unfolding runs_def by blast

lemma runs_return: "(\<And>u. P u \<Longrightarrow> Q (Inr a) u) \<Longrightarrow> runs view P (returnM a) Q"
  by (simp add: runs_def returnM_def)

lemma runs_throw: "(\<And>u. P u \<Longrightarrow> Q (Inl e) u) \<Longrightarrow> runs view P (throwM e) Q"
  by (simp add: runs_def throwM_def)

lemma runs_lift: "(\<And>u. P u \<Longrightarrow> Q r u) \<Longrightarrow> runs view P (liftM r) Q"
  by (simp add: runs_def liftM_def)

lemma runs_lift_then:
  "(\<And>e u. r = Inl e \<Longrightarrow> P u \<Longrightarrow> Q (Inl e) u) \<Longrightarrow> (\<And>a. r = Inr a \<Longrightarrow> runs view P (f a) Q) \<Longrightarrow> runs view P (bindM (liftM r) f) Q"
  by (cases r) (auto simp: runs_def bindM_def liftM_def throwM_def)

lemma runs_clock: "(\<And>a. runs view P (f a) Q) \<Longrightarrow> runs view P (bindM (readM g) f) Q"
  by (simp add: runs_def bindM_def readM_def)

lemma any_then:
  "(\<And>e u. Q (Inl e) u) \<Longrightarrow> (\<And>a. runs view (\<lambda>_. True) (f a) Q) \<Longrightarrow> runs view (\<lambda>_. True) (bindM m f) Q"
  by (rule runs_bind [where R = "\<lambda>_ _. True"]) (auto simp: runs_def split: sum.split)

text \<open>A predicate that the other clients cannot falsify.\<close>

definition stable :: "(dtable \<Rightarrow> dtable \<Rightarrow> bool) \<Rightarrow> (dtable \<Rightarrow> bool) \<Rightarrow> bool" where
  "stable rely P \<longleftrightarrow> (\<forall>s t. P s \<longrightarrow> rely s t \<longrightarrow> P t)"

lemma stableD: "stable rely P \<Longrightarrow> P s \<Longrightarrow> rely s t \<Longrightarrow> P t"
  by (auto simp: stable_def)

context dynamo_table
begin

lemma stable_from: "stable rely (rely s0)"
  using rely_trans by (auto simp: stable_def)

lemma stable_read: "stable rely (\<lambda>t. \<exists>s. rely s t \<and> x = s k)"
  using rely_trans by (fastforce simp: stable_def)

lemma hoare_get:
  assumes "stable rely P"
  shows "hoare view P (db_get db k) (\<lambda>x t. P t \<and> (\<exists>s. rely s t \<and> x = s k)) P"
proof (rule hoareI)
  fix w r w'
  assume P: "P (view w)" and run: "db_get db k w = (r, w')"
  from get_law [OF run] have rel: "rely (view w) (view w')"
    and val: "\<forall>x. r = Inr x \<longrightarrow> (\<exists>s. rely s (view w') \<and> x = s k)" by auto
  from assms P rel have "P (view w')" by (rule stableD)
  with val show "case r of Inr x \<Rightarrow> P (view w') \<and> (\<exists>s. rely s (view w') \<and> x = s k)
      | Inl e \<Rightarrow> P (view w')" by (cases r) auto
qed

lemma hoare_write:
  assumes "stable rely P"
    and "\<And>s. P s \<Longrightarrow> tx_ok ops s \<Longrightarrow> Q True (tx_apply ops s)"
    and "\<And>s. P s \<Longrightarrow> Q False s"
    and "\<And>s. P s \<Longrightarrow> E s"
    and "\<And>s. P s \<Longrightarrow> tx_ok ops s \<Longrightarrow> E (tx_apply ops s)"
  shows "hoare view P (db_write db ops) Q E"
proof (rule hoareI)
  fix w r w'
  assume P: "P (view w)" and run: "db_write db ops w = (r, w')"
  from write_law [OF run] obtain s where s: "rely (view w) s"
    and res: "case r of Inr True \<Rightarrow> tx_ok ops s \<and> view w' = tx_apply ops s
       | Inr False \<Rightarrow> view w' = s
       | Inl e \<Rightarrow> view w' = s \<or> (tx_ok ops s \<and> view w' = tx_apply ops s)" by blast
  from assms(1) P s have Ps: "P s" by (rule stableD)
  show "case r of Inr b \<Rightarrow> Q b (view w') | Inl e \<Rightarrow> E (view w')"
    using res assms(2-5) [OF Ps] by (auto split: sum.splits bool.splits)
qed

lemma hoare_query:
  assumes "stable rely P"
  shows "hoare view P (db_query db F n)
    (\<lambda>xs t. P t \<and> (\<forall>(k, it) \<in> set xs. F k \<and> (\<exists>s. rely s t \<and> s k = Some it))) P"
proof (rule hoareI)
  fix w r w'
  assume P: "P (view w)" and run: "db_query db F n w = (r, w')"
  from query_law [OF run] have rel: "rely (view w) (view w')"
    and val: "\<forall>xs. r = Inr xs \<longrightarrow>
      (\<forall>(k, it) \<in> set xs. F k \<and> (\<exists>s. rely s (view w') \<and> s k = Some it))" by blast+
  from assms P rel have "P (view w')" by (rule stableD)
  with val show "case r of Inr xs \<Rightarrow> P (view w')
        \<and> (\<forall>(k, it) \<in> set xs. F k \<and> (\<exists>s. rely s (view w') \<and> s k = Some it))
      | Inl e \<Rightarrow> P (view w')" by (cases r) auto
qed

end

section \<open>A client in memory\<close>

text \<open>
  The world of a table in memory: before each call the next pending change by another client is made,
  when \<open>rely\<close> allows it. With \<open>rely\<close> the identity no other client changes anything.
\<close>

record mem =
  mem_table :: dtable
  mem_clock :: instant
  mem_others :: "(dtable \<Rightarrow> dtable) list"

definition interfere :: "(dtable \<Rightarrow> dtable \<Rightarrow> bool) \<Rightarrow> mem \<Rightarrow> mem" where
  "interfere rely w = (case mem_others w of
      [] \<Rightarrow> w
    | f # fs \<Rightarrow>
        let t = f (mem_table w)
        in w\<lparr>mem_others := fs, mem_table := (if rely (mem_table w) t then t else mem_table w)\<rparr>)"

definition mem_get :: "(dtable \<Rightarrow> dtable \<Rightarrow> bool) \<Rightarrow> dkey \<Rightarrow> (mem, item option) op" where
  "mem_get rely k w = (let w' = interfere rely w in (Inr (mem_table w' k), w'))"

definition mem_write :: "(dtable \<Rightarrow> dtable \<Rightarrow> bool) \<Rightarrow> tx_op list \<Rightarrow> (mem, bool) op" where
  "mem_write rely ops w =
     (let w' = interfere rely w
      in if \<not> tx_distinct ops then (Inl (ServiceError ''ValidationException''), w')
         else if tx_conditions ops (mem_table w')
         then (Inr True, w'\<lparr>mem_table := tx_apply ops (mem_table w')\<rparr>)
         else (Inr False, w'))"

text \<open>The keys a query can return are given with the client: a table in memory lists them.\<close>

definition mem_query ::
    "dkey list \<Rightarrow> (dtable \<Rightarrow> dtable \<Rightarrow> bool) \<Rightarrow> (dkey \<Rightarrow> bool) \<Rightarrow> nat option
       \<Rightarrow> (mem, (dkey \<times> item) list) op" where
  "mem_query ks rely P n w =
     (let w' = interfere rely w;
          hits = map (\<lambda>k. (k, the (mem_table w' k)))
                   (filter (\<lambda>k. P k \<and> mem_table w' k \<noteq> None) ks)
      in (Inr (case n of None \<Rightarrow> hits | Some m \<Rightarrow> take m hits), w'))"

definition mem_index ::
    "dkey list \<Rightarrow> (dtable \<Rightarrow> dtable \<Rightarrow> bool) \<Rightarrow> (item \<Rightarrow> bool) \<Rightarrow> nat option
       \<Rightarrow> (mem, (dkey \<times> item) list) op" where
  "mem_index ks rely A n w =
     (let w' = interfere rely w;
          hits = map (\<lambda>k. (k, the (mem_table w' k)))
                   (filter (\<lambda>k. case mem_table w' k of None \<Rightarrow> False | Some it \<Rightarrow> A it) ks)
      in (Inr (case n of None \<Rightarrow> hits | Some m \<Rightarrow> take m hits), w'))"

definition mem_db :: "dkey list \<Rightarrow> (dtable \<Rightarrow> dtable \<Rightarrow> bool) \<Rightarrow> mem dynamo" where
  "mem_db ks rely = \<lparr>db_get = mem_get rely, db_write = mem_write rely,
     db_query = mem_query ks rely, db_index = mem_index ks rely, db_now = mem_clock\<rparr>"

lemma interfere_rely:
  assumes "\<And>s. rely s s"
  shows "rely (mem_table w) (mem_table (interfere rely w))"
  using assms by (auto simp: interfere_def Let_def split: list.splits)

lemma interfere_clock [simp]: "mem_clock (interfere rely w) = mem_clock w"
  by (auto simp: interfere_def Let_def split: list.splits)

lemma interfere_alone [simp]: "mem_table (interfere (=) w) = mem_table w"
  by (auto simp: interfere_def Let_def split: list.splits)

lemma mem_db_laws:
  assumes refl: "\<And>s. rely s s" and trans: "\<And>s t u. rely s t \<Longrightarrow> rely t u \<Longrightarrow> rely s u"
  shows "dynamo_table (mem_db ks rely) mem_table rely"
proof
  note R = interfere_rely [of rely, OF refl]
  show "rely s s" for s by (rule refl)
  show "rely s t \<Longrightarrow> rely t u \<Longrightarrow> rely s u" for s t u by (rule trans)
  show "rely (mem_table w) (mem_table w')
      \<and> (\<forall>x. r = Inr x \<longrightarrow> (\<exists>s. rely s (mem_table w') \<and> x = s k))"
    if "db_get (mem_db ks rely) k w = (r, w')" for k w r w'
    using that R refl by (auto simp: mem_db_def mem_get_def Let_def)
  show "\<exists>s. rely (mem_table w) s \<and>
      (case r of Inr True \<Rightarrow> tx_ok ops s \<and> mem_table w' = tx_apply ops s
       | Inr False \<Rightarrow> mem_table w' = s
       | Inl e \<Rightarrow> mem_table w' = s \<or> (tx_ok ops s \<and> mem_table w' = tx_apply ops s))"
    if "db_write (mem_db ks rely) ops w = (r, w')" for ops w r w'
    using that R [of w] by (auto simp: mem_db_def mem_write_def Let_def tx_ok_def split: if_splits)
  show "rely (mem_table w) (mem_table w')
      \<and> (\<forall>xs. r = Inr xs \<longrightarrow>
           (\<forall>(k, it) \<in> set xs. P k \<and> (\<exists>s. rely s (mem_table w') \<and> s k = Some it)))"
    if "db_query (mem_db ks rely) P n w = (r, w')" for P n w r w'
    using that R refl
    by (fastforce simp: mem_db_def mem_query_def Let_def split: option.splits dest: in_set_takeD)
  show "rely (mem_table w) (mem_table w')
      \<and> (\<forall>xs. r = Inr xs \<longrightarrow>
           (\<forall>(k, it) \<in> set xs. A it \<and> (\<exists>s. rely s (mem_table w') \<and> s k = Some it)))"
    if "db_index (mem_db ks rely) A n w = (r, w')" for A n w r w'
    using that R refl
    by (fastforce simp: mem_db_def mem_index_def Let_def split: option.splits dest: in_set_takeD)
qed

interpretation mem_alone: dynamo_alone "mem_db ks (=)" mem_table for ks
proof -
  have base: "dynamo_table (mem_db ks (=)) mem_table (=)" by (rule mem_db_laws) auto
  show "dynamo_alone (mem_db ks (=)) mem_table"
    unfolding dynamo_alone_def dynamo_alone_axioms_def
    using base
    by (auto simp: mem_db_def mem_get_def mem_write_def mem_query_def mem_index_def Let_def)
qed

end
