(* ===== verification/Sharding.thy ===== *)
theory Sharding
  imports Prelude
begin

text \<open>
  \<open>stableShard\<close> of \<open>packages/persistence/src/keys.ts\<close>: a rolling hash in 32 bits. The code computes
  \<open>(hash * 31 + code) >>> 0\<close> in doubles; the model writes the wrap-around of \<open>>>> 0\<close> out and the
  lemma \<open>hash_step_exact\<close> shows that the product stays below \<open>2 ^ 53\<close>, where doubles are exact. A
  character is its code unit.
\<close>

definition hash_step :: "nat \<Rightarrow> char \<Rightarrow> nat" where
  "hash_step hash c = (hash * 31 + of_char c) mod 2 ^ 32"

definition stable_hash :: "string \<Rightarrow> nat" where
  "stable_hash value = foldl hash_step 0 value"

definition stableShard :: "string \<Rightarrow> nat \<Rightarrow> nat" where
  "stableShard value count = stable_hash value mod count"

lemma of_char_bound: "(of_char c :: nat) < 256"
proof -
  have "(of_char c :: nat) \<in> of_char ` UNIV" by blast
  then have "(of_char c :: nat) \<in> {0..<256}" by (simp only: range_nat_of_char)
  then show ?thesis by simp
qed

lemma hash_step_bound: "hash_step h c < 2 ^ 32"
  by (simp add: hash_step_def)

lemma hash_step_exact: "h < 2 ^ 32 \<Longrightarrow> h * 31 + of_char c < (2 ^ 53 :: nat)"
proof -
  assume h: "h < 2 ^ 32"
  have "(2::nat) ^ 32 = 4294967296" "(2::nat) ^ 53 = 9007199254740992" by simp_all
  with h of_char_bound [of c] show ?thesis by linarith
qed

lemma stable_hash_bound: "stable_hash s < 2 ^ 32"
  by (cases s rule: rev_cases) (simp_all add: stable_hash_def hash_step_def)

text \<open>The value of the string as a number in base 31, without wrap-around.\<close>

definition base31 :: "string \<Rightarrow> nat" where
  "base31 value = foldl (\<lambda>a c. a * 31 + of_char c) 0 value"

lemma foldl_hash_mod:
  "foldl hash_step (a mod 2 ^ 32) s = foldl (\<lambda>a c. a * 31 + of_char c) a s mod 2 ^ 32"
proof (induction s arbitrary: a)
  case Nil
  show ?case by simp
next
  case (Cons c s)
  have "hash_step (a mod 2 ^ 32) c = (a * 31 + of_char c) mod 2 ^ 32"
    unfolding hash_step_def by (metis mod_add_left_eq mod_mult_left_eq)
  with Cons.IH [of "a * 31 + of_char c"] show ?case by simp
qed

text \<open>
  Sharding. The shard of an identifier is always one of the \<open>count\<close> shards, and it is a function
  of the identifier alone: its value in base 31 reduced modulo \<open>2 ^ 32\<close> and then modulo the count.
  So a reader that knows the identifier finds the row that the writer stored, whatever the process.
\<close>

theorem stable_shard_spec:
  assumes "0 < count"
  shows "stableShard s count < count \<and> stableShard s count = (base31 s mod 2 ^ 32) mod count"
  using assms foldl_hash_mod [of 0 s] by (simp add: stableShard_def stable_hash_def base31_def)

theorem stable_shard_spec_witness: "stableShard ''obx_1'' 8 < 8 \<and> stableShard ''ab'' 8 = 1"
  using stable_shard_spec [of 8 "''obx_1''"] stable_shard_spec [of 8 "''ab''"]
  by (simp add: base31_def)

end
