(* ===== verification/Persist_Base.thy ===== *)
theory Persist_Base
  imports Dynamo Sharding
begin

text \<open>
  The parts that the methods of \<open>DynamoPersistence\<close> share: \<open>getCore\<close> and the typed reads, the item
  a record is stored as, the index rows of events and deliveries, the outbox row and the hourly
  rollup counters. \<open>shards\<close> is the configured \<open>outboxShardCount\<close>.
\<close>

section \<open>Reads\<close>

definition live_item :: "item option \<Rightarrow> instant \<Rightarrow> item option" where
  "live_item value now = (case value of
      None \<Rightarrow> None
    | Some it \<Rightarrow> if isExpired it now then None else Some it)"

definition getCore :: "'w dynamo \<Rightarrow> dkey \<Rightarrow> ('w, item option) op" where
  "getCore db k = bindM (db_get db k) (\<lambda>x w. (Inr (live_item x (db_now db w)), w))"

fun as_event :: "item option \<Rightarrow> canonical_event option" where
  "as_event (Some (It_Event e)) = Some e"
| "as_event _ = None"

fun as_delivery :: "item option \<Rightarrow> delivery option" where
  "as_delivery (Some (It_Delivery d)) = Some d"
| "as_delivery _ = None"

fun as_attempt :: "item option \<Rightarrow> delivery_attempt option" where
  "as_attempt (Some (It_Attempt a)) = Some a"
| "as_attempt _ = None"

fun as_lookup :: "item option \<Rightarrow> string option" where
  "as_lookup (Some (It_Lookup e)) = Some e"
| "as_lookup _ = None"

definition mapM :: "('a \<Rightarrow> 'b) \<Rightarrow> ('w, 'a) op \<Rightarrow> ('w, 'b) op" where
  "mapM f m = bindM m (\<lambda>a. returnM (f a))"

definition getEvent :: "'w dynamo \<Rightarrow> string \<Rightarrow> string \<Rightarrow> ('w, canonical_event option) op" where
  "getEvent db tenant eventId = mapM as_event (getCore db (K_Event tenant eventId))"

definition getDelivery :: "'w dynamo \<Rightarrow> string \<Rightarrow> string \<Rightarrow> ('w, delivery option) op" where
  "getDelivery db tenant deliveryId =
     bindM (mapM as_lookup (getCore db (K_Lookup tenant LK_Delivery deliveryId)))
       (\<lambda>pointer. case pointer of
          None \<Rightarrow> returnM None
        | Some eventId \<Rightarrow> mapM as_delivery (getCore db (K_Delivery tenant eventId deliveryId)))"

section \<open>Stored records\<close>

definition to_epoch :: "expiry \<Rightarrow> expiry" where
  "to_epoch e = Epoch (epochSeconds e)"

definition stored_event :: "canonical_event \<Rightarrow> item" where
  "stored_event e = It_Event (e\<lparr>ev_expiresAt := to_epoch (ev_expiresAt e)\<rparr>)"

definition stored_delivery :: "delivery \<Rightarrow> item" where
  "stored_delivery d = It_Delivery (d\<lparr>d_expiresAt := to_epoch (d_expiresAt d)\<rparr>)"

definition stored_attempt :: "delivery_attempt \<Rightarrow> item" where
  "stored_attempt a = It_Attempt (a\<lparr>at_expiresAt := to_epoch (at_expiresAt a)\<rparr>)"

definition stored_history :: "history_entry \<Rightarrow> item" where
  "stored_history h = It_History (h\<lparr>hi_expiresAt := to_epoch (hi_expiresAt h)\<rparr>)"

definition stored_audit :: "audit_event \<Rightarrow> item" where
  "stored_audit a = It_Audit (a\<lparr>au_expiresAt := to_epoch (au_expiresAt a)\<rparr>)"

definition auditPut :: "audit_event \<Rightarrow> tx_op" where
  "auditPut a = put_new (K_Audit (au_tenantId a) (au_occurredAt a) (au_auditId a)) (stored_audit a)"

definition days :: "int \<Rightarrow> int" where
  "days n = n * 86400000"

definition outboxPut :: "nat \<Rightarrow> outbox_record \<Rightarrow> tx_op" where
  "outboxPut shards b =
     put_new (K_Outbox (stableShard (ob_outboxId b) shards) (ob_createdAt b) (ob_outboxId b))
       (It_Outbox \<lparr>oi_record = b, oi_expiresAt = to_epoch (Iso (ob_createdAt b + days 7)),
          oi_unpublished = True, oi_lastPublicationFailureAt = None\<rparr>)"

section \<open>Index rows\<close>

definition deliveryIndexItem :: "delivery \<Rightarrow> item" where
  "deliveryIndexItem d = It_DeliveryIndex
     \<lparr>di_deliveryId = d_deliveryId d, di_eventId = d_eventId d,
      di_correlationId = d_correlationId d, di_destinationId = d_destinationId d,
      di_partnerId = d_partnerId d, di_state = d_state d, di_blockedReason = d_blockedReason d,
      di_updatedAt = d_updatedAt d, di_expiresAt = to_epoch (d_expiresAt d)\<rparr>"

definition deliveryIndexKey :: "delivery \<Rightarrow> string \<Rightarrow> dkey" where
  "deliveryIndexKey d category =
     K_DeliveryIndex (d_tenantId d) category (d_updatedAt d) (d_deliveryId d)"

definition deliveryIndexCategories :: "delivery \<Rightarrow> string list" where
  "deliveryIndexCategories d =
     [''ALL'', ''STATUS#'' @ state_name (d_state d), ''PARTNER#'' @ d_partnerId d,
      ''DESTINATION#'' @ d_destinationId d]
     @ (if d_state d = Dead_Lettered \<or> d_state d = Failed_Terminal
        then [''TERMINAL_FAILURE''] else [])"

definition indexPutsNew :: "delivery \<Rightarrow> tx_op list" where
  "indexPutsNew d =
     map (\<lambda>c. put_new (deliveryIndexKey d c) (deliveryIndexItem d)) (deliveryIndexCategories d)"

definition indexPuts :: "delivery \<Rightarrow> tx_op list" where
  "indexPuts d =
     map (\<lambda>c. put_op (deliveryIndexKey d c) always (deliveryIndexItem d)) (deliveryIndexCategories d)"

definition indexDeletes :: "delivery \<Rightarrow> tx_op list" where
  "indexDeletes d =
     map (\<lambda>c. delete_op (deliveryIndexKey d c) always) (deliveryIndexCategories d)"

fun event_status_name :: "event_status \<Rightarrow> string" where
  "event_status_name Ev_Accepted = ''accepted''"
| "event_status_name Ev_Processing = ''processing''"
| "event_status_name Ev_Partially_Succeeded = ''partially_succeeded''"
| "event_status_name Ev_Succeeded = ''succeeded''"
| "event_status_name Ev_Failed = ''failed''"
| "event_status_name Ev_No_Destinations = ''no_destinations''"

definition eventStatusKey :: "string \<Rightarrow> canonical_event \<Rightarrow> dkey" where
  "eventStatusKey tenant e =
     K_EventIndex tenant (''STATUS#'' @ event_status_name (ev_status e)) (ev_acceptedAt e) (ev_eventId e)"

text \<open>The replacement of the status row of an event, when its status changes.\<close>

definition statusIndexOps :: "string \<Rightarrow> canonical_event \<Rightarrow> canonical_event \<Rightarrow> tx_op list" where
  "statusIndexOps tenant event updated =
     (if ev_status event = ev_status updated then []
      else [delete_op (eventStatusKey tenant event) always,
            put_op (eventStatusKey tenant updated) always
              (It_EventIndex \<lparr>ei_eventId = ev_eventId updated, ei_eventType = None,
                 ei_status = Some (ev_status updated), ei_acceptedAt = ev_acceptedAt updated,
                 ei_expiresAt = to_epoch (ev_expiresAt updated)\<rparr>)])"

definition eventPut :: "string \<Rightarrow> canonical_event \<Rightarrow> canonical_event \<Rightarrow> tx_op" where
  "eventPut tenant event updated =
     put_op (K_Event tenant (ev_eventId updated)) (version_is (ev_version event))
       (stored_event updated)"

section \<open>Rollups\<close>

definition hourOf :: "instant \<Rightarrow> int" where
  "hourOf at_ms = at_ms div 3600000"

text \<open>The update expression \<open>ADD name value, ...\<close>: an absent attribute counts as zero.\<close>

definition add_counters :: "(string \<times> int) list \<Rightarrow> item option \<Rightarrow> item" where
  "add_counters adds old =
     (let old_counts = (case old of Some (It_Rollup c) \<Rightarrow> c | _ \<Rightarrow> (\<lambda>_. 0))
      in It_Rollup (fold (\<lambda>(n, v) c. c(n := c n + v)) adds old_counts))"

definition latencyBucket :: "int \<Rightarrow> string" where
  "latencyBucket duration =
     (if duration \<le> 100 then ''latencyLe100''
      else if duration \<le> 250 then ''latencyLe250''
      else if duration \<le> 500 then ''latencyLe500''
      else if duration \<le> 1000 then ''latencyLe1000''
      else if duration \<le> 2500 then ''latencyLe2500''
      else ''latencyGt2500'')"

definition rollupValues :: "delivery_attempt \<Rightarrow> delivery \<Rightarrow> (string \<times> int) list" where
  "rollupValues attempt d =
     (let isReplay = (d_executionType d = REPLAY);
          duration = (case at_durationMs attempt of None \<Rightarrow> 0 | Some n \<Rightarrow> n)
      in [(''deliveryAttempts'', if isReplay then 0 else 1),
          (''deliverySuccesses'', if \<not> isReplay \<and> at_outcome attempt = At_Succeeded then 1 else 0),
          (''deliveryFailures'', if \<not> isReplay \<and> at_outcome attempt = At_Failed then 1 else 0),
          (''retriesScheduled'', if \<not> isReplay \<and> d_state d = Retry_Scheduled then 1 else 0),
          (''deadLetters'', if \<not> isReplay \<and> d_state d = Dead_Lettered then 1 else 0),
          (''replaySuccesses'', if isReplay \<and> d_state d = Succeeded then 1 else 0),
          (''replayFailures'', if isReplay \<and> (d_state d = Dead_Lettered \<or> d_state d = Failed_Terminal)
             then 1 else 0),
          (''latencyTotalMs'', if isReplay then 0 else duration),
          (''latencyCount'', if isReplay then 0 else 1),
          (latencyBucket duration, if isReplay then 0 else 1)])"

definition rollupUpdates ::
    "string \<Rightarrow> string \<Rightarrow> string \<Rightarrow> instant \<Rightarrow> delivery_attempt \<Rightarrow> delivery \<Rightarrow> tx_op list" where
  "rollupUpdates tenant destinationId stableId at_ms attempt d =
     [update_op (K_Rollup tenant (hourOf at_ms) (Some (stableShard stableId 8)))
        (add_counters (rollupValues attempt d)),
      update_op (K_DestinationRollup tenant (hourOf at_ms) destinationId)
        (add_counters (rollupValues attempt d))]"

section \<open>Facts about the shared parts\<close>

lemma categories_distinct [simp]: "distinct (deliveryIndexCategories d)"
  by (auto simp: deliveryIndexCategories_def)

lemma deliveryIndexKey_inj [simp]:
  "deliveryIndexKey d c = deliveryIndexKey d' c' \<longleftrightarrow>
     d_tenantId d = d_tenantId d' \<and> c = c' \<and> d_updatedAt d = d_updatedAt d'
     \<and> d_deliveryId d = d_deliveryId d'"
  by (auto simp: deliveryIndexKey_def)

lemma index_ops_keys:
  "op_key ` set (indexPutsNew d) = deliveryIndexKey d ` set (deliveryIndexCategories d)"
  "op_key ` set (indexPuts d) = deliveryIndexKey d ` set (deliveryIndexCategories d)"
  "op_key ` set (indexDeletes d) = deliveryIndexKey d ` set (deliveryIndexCategories d)"
  by (auto simp: indexPutsNew_def indexPuts_def indexDeletes_def image_iff)

lemma index_ops_conditions [simp, tx_simps]:
  "tx_conditions (indexPuts d) s" "tx_conditions (indexDeletes d) s"
  by (auto simp: tx_conditions_def indexPuts_def indexDeletes_def list_all_iff)

lemma index_ops_distinct [simp]:
  "distinct (map op_key (indexPutsNew d))" "distinct (map op_key (indexPuts d))"
  "distinct (map op_key (indexDeletes d))"
  by (auto simp: indexPutsNew_def indexPuts_def indexDeletes_def distinct_map comp_def inj_on_def)

text \<open>Which keys a transaction leaves alone: index, outbox and rollup rows are none of these.\<close>

fun is_index_key :: "dkey \<Rightarrow> bool" where
  "is_index_key (K_DeliveryIndex _ _ _ _) = True"
| "is_index_key (K_EventIndex _ _ _ _) = True"
| "is_index_key (K_Rollup _ _ _) = True"
| "is_index_key (K_DestinationRollup _ _ _) = True"
| "is_index_key (K_Outbox _ _ _) = True"
| "is_index_key (K_History _ _ _ _ _) = True"
| "is_index_key (K_Audit _ _ _) = True"
| "is_index_key _ = False"

lemma index_ops_are_index:
  "op \<in> set (indexPutsNew d) \<Longrightarrow> is_index_key (op_key op)"
  "op \<in> set (indexPuts d) \<Longrightarrow> is_index_key (op_key op)"
  "op \<in> set (indexDeletes d) \<Longrightarrow> is_index_key (op_key op)"
  "op \<in> set (statusIndexOps t e u) \<Longrightarrow> is_index_key (op_key op)"
  "op \<in> set (rollupUpdates t ds st at_ms a d) \<Longrightarrow> is_index_key (op_key op)"
  by (auto simp: indexPutsNew_def indexPuts_def indexDeletes_def statusIndexOps_def
      rollupUpdates_def deliveryIndexKey_def eventStatusKey_def split: if_splits)

lemma outboxPut_is_index [simp]: "is_index_key (op_key (outboxPut n b))"
  by (simp add: outboxPut_def)

lemma auditPut_is_index [simp]: "is_index_key (op_key (auditPut a))"
  by (simp add: auditPut_def)

definition only_index :: "tx_op list \<Rightarrow> bool" where
  "only_index ops \<longleftrightarrow> (\<forall>op \<in> set ops. is_index_key (op_key op))"

lemma tx_apply_only_index: "only_index ops \<Longrightarrow> \<not> is_index_key k \<Longrightarrow> tx_apply ops s k = s k"
  by (rule tx_apply_other) (auto simp: only_index_def)

lemma only_index_simps [simp]:
  "only_index []"
  "only_index (op # ops) \<longleftrightarrow> is_index_key (op_key op) \<and> only_index ops"
  "only_index (xs @ ys) \<longleftrightarrow> only_index xs \<and> only_index ys"
  "only_index (indexPutsNew d)" "only_index (indexPuts d)" "only_index (indexDeletes d)"
  "only_index (statusIndexOps t e u)" "only_index (rollupUpdates t ds st at_ms a d)"
  by (auto simp: only_index_def index_ops_are_index)

lemma as_event_Some: "as_event x = Some e \<longleftrightarrow> x = Some (It_Event e)"
  by (cases x rule: as_event.cases) auto

lemma as_delivery_Some: "as_delivery x = Some d \<longleftrightarrow> x = Some (It_Delivery d)"
  by (cases x rule: as_delivery.cases) auto

lemma as_attempt_Some: "as_attempt x = Some a \<longleftrightarrow> x = Some (It_Attempt a)"
  by (cases x rule: as_attempt.cases) auto

lemma as_lookup_Some: "as_lookup x = Some e \<longleftrightarrow> x = Some (It_Lookup e)"
  by (cases x rule: as_lookup.cases) auto

lemma live_item_Some: "live_item x now = Some it \<longleftrightarrow> x = Some it \<and> \<not> isExpired it now"
  by (auto simp: live_item_def split: option.splits)

text \<open>A read keeps whatever the other clients keep.\<close>

context dynamo_table
begin

lemma hoare_read:
  assumes "stable rely P"
  shows "hoare view P (mapM f (getCore db k)) (\<lambda>_. P) P"
proof (rule hoareI)
  fix w r w'
  assume P: "P (view w)" and run: "mapM f (getCore db k) w = (r, w')"
  obtain g w1 where g: "db_get db k w = (g, w1)" by (cases "db_get db k w")
  from get_law [OF g] have "rely (view w) (view w1)" by simp
  from stableD [OF assms P this] have "P (view w1)" .
  moreover have "w' = w1"
    using run g by (cases g) (auto simp: mapM_def getCore_def bindM_def returnM_def)
  ultimately show "case r of Inr a \<Rightarrow> P (view w') | Inl e \<Rightarrow> P (view w')" by (simp split: sum.splits)
qed

end

end
