(* ===== verification/Event_Store.thy ===== *)
theory Event_Store
  imports Persist_Base
begin

text \<open>
  The methods of \<open>DynamoPersistence\<close> that write events: the idempotent \<open>accept\<close>, and \<open>createDelivery\<close>
  and \<open>completeRouting\<close>, which replace the event together with its counters under a version check and
  try again, up to eight times, when another writer came first.
\<close>

section \<open>Accepting an event\<close>

record accept_input =
  ac_context :: tenant_context
  ac_event :: canonical_event
  ac_requestBodyHash :: string
  ac_idempotencyKeyHash :: string
  ac_responseStatus :: int
  ac_outbox :: outbox_record

datatype accept_result = Accepted canonical_event | Duplicate canonical_event | Conflict

fun as_guard :: "item option \<Rightarrow> idempotency_guard option" where
  "as_guard (Some (It_Idempotency g)) = Some g"
| "as_guard _ = None"

definition eventIndexPut ::
    "string \<Rightarrow> string \<Rightarrow> canonical_event \<Rightarrow> string option \<Rightarrow> event_status option \<Rightarrow> tx_op" where
  "eventIndexPut tenant category e etype status =
     put_new (K_EventIndex tenant category (ev_acceptedAt e) (ev_eventId e))
       (It_EventIndex \<lparr>ei_eventId = ev_eventId e, ei_eventType = etype, ei_status = status,
          ei_acceptedAt = ev_acceptedAt e, ei_expiresAt = to_epoch (ev_expiresAt e)\<rparr>)"

definition guardKey :: "accept_input \<Rightarrow> dkey" where
  "guardKey inp =
     K_Idempotency (cx_tenantId (ac_context inp)) (ev_producerClientId (ac_event inp))
       (ac_idempotencyKeyHash inp)"

definition acceptTransaction :: "nat \<Rightarrow> accept_input \<Rightarrow> instant \<Rightarrow> tx_op list" where
  "acceptTransaction shards inp now =
     (let t = cx_tenantId (ac_context inp); e = ac_event inp in
      [put_new (K_Event t (ev_eventId e)) (stored_event e),
       eventIndexPut t (''IDEMPOTENCY#'' @ ac_idempotencyKeyHash inp) e
         (Some (ev_eventType e)) (Some (ev_status e)),
       put_new (K_Lookup t LK_Event (ev_eventId e)) (It_Lookup (ev_eventId e)),
       put_new (K_Lookup t LK_Correlation (ev_correlationId e)) (It_Lookup (ev_eventId e)),
       eventIndexPut t (''TYPE#'' @ ev_eventType e) e (Some (ev_eventType e)) None,
       eventIndexPut t (''STATUS#'' @ event_status_name (ev_status e)) e None (Some (ev_status e)),
       eventIndexPut t ''ALL'' e None None,
       put_new (guardKey inp)
         (It_Idempotency \<lparr>ig_requestBodyHash = ac_requestBodyHash inp, ig_eventId = ev_eventId e,
            ig_responseStatus = ac_responseStatus inp,
            ig_expiresAt = to_epoch (Iso (now + days 7))\<rparr>),
       outboxPut shards (ac_outbox inp),
       update_op (K_Rollup t (hourOf (ev_acceptedAt e)) (Some (stableShard (ev_eventId e) 8)))
         (add_counters [(''acceptedEvents'', 1)])])"

text \<open>What a request that finds the guard of its key answers.\<close>

definition answerFromGuard ::
    "'w dynamo \<Rightarrow> accept_input \<Rightarrow> idempotency_guard option \<Rightarrow> ('w, accept_result) op" where
  "answerFromGuard db inp guard =
     (case guard of
        None \<Rightarrow> returnM Conflict
      | Some g \<Rightarrow>
          if ig_requestBodyHash g \<noteq> ac_requestBodyHash inp then returnM Conflict
          else bindM (getEvent db (cx_tenantId (ac_context inp)) (ig_eventId g))
                 (\<lambda>event. returnM (case event of None \<Rightarrow> Conflict | Some e \<Rightarrow> Duplicate e)))"

definition accept :: "'w dynamo \<Rightarrow> nat \<Rightarrow> accept_input \<Rightarrow> ('w, accept_result) op" where
  "accept db shards inp =
     bindM (mapM as_guard (getCore db (guardKey inp))) (\<lambda>existing.
       if existing \<noteq> None then answerFromGuard db inp existing
       else bindM (withNow db (\<lambda>now. db_write db (acceptTransaction shards inp now))) (\<lambda>ok.
         if ok then returnM (Accepted (ac_event inp))
         else bindM (mapM as_guard (getCore db (guardKey inp))) (answerFromGuard db inp)))"

section \<open>Creating a delivery\<close>

record create_input =
  cr_context :: tenant_context
  cr_delivery :: delivery
  cr_history :: history_entry
  cr_outbox :: "outbox_record option"

datatype create_result = Created | Already_There

definition one_if :: "bool \<Rightarrow> int" where
  "one_if b = (if b then 1 else 0)"

definition countCreated :: "outcome_counters \<Rightarrow> delivery_state \<Rightarrow> outcome_counters" where
  "countCreated c state = c\<lparr>
     oc_totalDeliveries := oc_totalDeliveries c + 1,
     oc_terminalDeliveries := oc_terminalDeliveries c + one_if (isTerminalDeliveryState state),
     oc_successfulDeliveries := oc_successfulDeliveries c + one_if (state = Succeeded),
     oc_failedTerminalDeliveries := oc_failedTerminalDeliveries c + one_if (state = Failed_Terminal),
     oc_deadLetteredDeliveries := oc_deadLetteredDeliveries c + one_if (state = Dead_Lettered)\<rparr>"

definition withOutcome ::
    "canonical_event \<Rightarrow> outcome_counters \<Rightarrow> event_status \<Rightarrow> canonical_event" where
  "withOutcome e outcome status =
     e\<lparr>ev_outcome := outcome, ev_status := status, ev_version := ev_version e + 1\<rparr>"

definition createRollups :: "string \<Rightarrow> delivery \<Rightarrow> tx_op list" where
  "createRollups t d =
     (if isTerminalDeliveryState (d_state d) \<and> d_executionType d = ORIGINAL
      then (let hour = hourOf (d_updatedAt d);
                values = [(''deliveryFailures'', one_if (d_state d = Failed_Terminal)),
                          (''deadLetters'', one_if (d_state d = Dead_Lettered))]
            in [update_op (K_Rollup t hour (Some (stableShard (d_deliveryId d) 8))) (add_counters values),
                update_op (K_DestinationRollup t hour (d_destinationId d)) (add_counters values)])
      else [])"

text \<open>The history row is put as it is, without \<open>epochSeconds\<close>.\<close>

definition createTransaction ::
    "nat \<Rightarrow> create_input \<Rightarrow> canonical_event \<Rightarrow> canonical_event \<Rightarrow> tx_op list" where
  "createTransaction shards inp event updated =
     (let t = cx_tenantId (cr_context inp); d = cr_delivery inp; h = cr_history inp in
      [put_new (K_Delivery t (d_eventId d) (d_deliveryId d)) (stored_delivery d),
       put_new (K_Lookup t LK_Delivery (d_deliveryId d)) (It_Lookup (d_eventId d)),
       put_new (K_History t (d_eventId d) (hi_deliveryId h) (hi_occurredAt h) (hi_historyId h))
         (It_History h)]
      @ indexPutsNew d
      @ [eventPut t event updated]
      @ statusIndexOps t event updated
      @ (case cr_outbox inp of None \<Rightarrow> [] | Some b \<Rightarrow> [outboxPut shards b])
      @ createRollups t d)"

definition createDeliveryRound ::
    "'w dynamo \<Rightarrow> nat \<Rightarrow> create_input \<Rightarrow> ('w, create_result option) op" where
  "createDeliveryRound db shards inp =
     (let t = cx_tenantId (cr_context inp); d = cr_delivery inp in
      bindM (mapM as_lookup (getCore db (K_Lookup t LK_Delivery (d_deliveryId d)))) (\<lambda>existing.
        if existing \<noteq> None then returnM (Some Already_There)
        else bindM (getEvent db t (d_eventId d)) (\<lambda>found.
          case found of
            None \<Rightarrow> throwM (Error ''EVENT_NOT_FOUND'')
          | Some event \<Rightarrow>
              (let outcome = countCreated (ev_outcome event) (d_state d) in
               bindM (liftM (deriveEventStatus outcome)) (\<lambda>status.
               bindM (db_write db
                        (createTransaction shards inp event (withOutcome event outcome status)))
                 (\<lambda>ok. returnM (if ok then Some Created else None)))))))"

definition createDelivery :: "'w dynamo \<Rightarrow> nat \<Rightarrow> create_input \<Rightarrow> ('w, create_result) op" where
  "createDelivery db shards inp =
     retryM 8 (createDeliveryRound db shards inp) (throwM (Error ''ROUTING_CONFLICT''))"

section \<open>Completing the routing of an event\<close>

definition completeTransaction ::
    "string \<Rightarrow> canonical_event \<Rightarrow> canonical_event \<Rightarrow> tx_op list" where
  "completeTransaction t event updated =
     eventPut t event updated # statusIndexOps t event updated"

definition completeRoutingRound ::
    "'w dynamo \<Rightarrow> string \<Rightarrow> string \<Rightarrow> ('w, unit option) op" where
  "completeRoutingRound db t eventId =
     bindM (getEvent db t eventId) (\<lambda>found.
       case found of
         None \<Rightarrow> returnM (Some ())
       | Some event \<Rightarrow>
           if oc_routingComplete (ev_outcome event) then returnM (Some ())
           else (let outcome = (ev_outcome event)\<lparr>oc_routingComplete := True\<rparr> in
             bindM (liftM (deriveEventStatus outcome)) (\<lambda>status.
             bindM (db_write db (completeTransaction t event (withOutcome event outcome status)))
               (\<lambda>ok. returnM (if ok then Some () else None)))))"

definition completeRouting :: "'w dynamo \<Rightarrow> string \<Rightarrow> string \<Rightarrow> ('w, unit) op" where
  "completeRouting db t eventId =
     retryM 8 (completeRoutingRound db t eventId) (throwM (Error ''ROUTING_COMPLETION_CONFLICT''))"

end
