(* ===== verification/Event_Invariant.thy ===== *)
theory Event_Invariant
  imports Event_Store
begin

text \<open>
  What the writers of events and deliveries keep true of the whole table, whoever runs beside them:
  the counters of an event are the numbers of its original deliveries in each kind of state, and its
  status is the one derived from the counters. \<open>table_inv\<close> is this invariant, \<open>evolves\<close> the way an
  event or a delivery changes (to a higher version, keeping its identity), and \<open>safe\<close> the relation
  that every writer both relies on and guarantees.
\<close>

section \<open>The invariant\<close>

text \<open>The original deliveries of an event whose state satisfies \<open>P\<close>.\<close>

definition originals ::
    "dtable \<Rightarrow> string \<Rightarrow> string \<Rightarrow> (delivery_state \<Rightarrow> bool) \<Rightarrow> string set" where
  "originals s t e P =
     {d. \<exists>x. s (K_Delivery t e d) = Some (It_Delivery x) \<and> d_executionType x = ORIGINAL
           \<and> P (d_state x)}"

definition tally :: "dtable \<Rightarrow> string \<Rightarrow> string \<Rightarrow> (delivery_state \<Rightarrow> bool) \<Rightarrow> int" where
  "tally s t e P = int (card (originals s t e P))"

definition observed_counters :: "dtable \<Rightarrow> string \<Rightarrow> string \<Rightarrow> bool \<Rightarrow> outcome_counters" where
  "observed_counters s t e routed = \<lparr>oc_routingComplete = routed,
     oc_totalDeliveries = tally s t e (\<lambda>_. True),
     oc_terminalDeliveries = tally s t e isTerminalDeliveryState,
     oc_successfulDeliveries = tally s t e (\<lambda>x. x = Succeeded),
     oc_failedTerminalDeliveries = tally s t e (\<lambda>x. x = Failed_Terminal),
     oc_deadLetteredDeliveries = tally s t e (\<lambda>x. x = Dead_Lettered)\<rparr>"

definition event_ok :: "dtable \<Rightarrow> string \<Rightarrow> string \<Rightarrow> canonical_event \<Rightarrow> bool" where
  "event_ok s t e ev \<longleftrightarrow>
     ev_eventId ev = e \<and> ev_tenantId ev = t \<and> finite (originals s t e (\<lambda>_. True))
     \<and> ev_outcome ev = observed_counters s t e (oc_routingComplete (ev_outcome ev))
     \<and> deriveEventStatus (ev_outcome ev) = Inr (ev_status ev)"

definition delivery_ok :: "string \<Rightarrow> string \<Rightarrow> string \<Rightarrow> delivery \<Rightarrow> bool" where
  "delivery_ok t e d x \<longleftrightarrow>
     d_tenantId x = t \<and> d_eventId x = e \<and> d_deliveryId x = d \<and> lease_wf x \<and> d_state x \<noteq> Cancelled
     \<and> to_epoch (d_expiresAt x) = d_expiresAt x"

definition table_inv :: "dtable \<Rightarrow> bool" where
  "table_inv s \<longleftrightarrow>
     (\<forall>t e it. s (K_Event t e) = Some it \<longrightarrow> (\<exists>ev. it = It_Event ev \<and> event_ok s t e ev))
     \<and> (\<forall>t e d it. s (K_Delivery t e d) = Some it \<longrightarrow>
          (\<exists>x. it = It_Delivery x \<and> delivery_ok t e d x) \<and> s (K_Event t e) \<noteq> None)"

section \<open>Evolution\<close>

fun is_core :: "dkey \<Rightarrow> bool" where
  "is_core (K_Event _ _) = True"
| "is_core (K_Delivery _ _ _) = True"
| "is_core _ = False"

fun evolves_item :: "item option \<Rightarrow> item option \<Rightarrow> bool" where
  "evolves_item (Some (It_Event e)) new =
     (\<exists>e'. new = Some (It_Event e') \<and> ev_eventId e' = ev_eventId e \<and> ev_tenantId e' = ev_tenantId e
        \<and> (e' = e \<or> ev_version e < ev_version e'))"
| "evolves_item (Some (It_Delivery d)) new =
     (\<exists>d'. new = Some (It_Delivery d') \<and> same_identity d d'
        \<and> (d' = d \<or> d_version d < d_version d'))"
| "evolves_item _ new = True"

definition evolves :: "dtable \<Rightarrow> dtable \<Rightarrow> bool" where
  "evolves s u \<longleftrightarrow> (\<forall>k. is_core k \<longrightarrow> evolves_item (s k) (u k))"

definition safe :: "dtable \<Rightarrow> dtable \<Rightarrow> bool" where
  "safe s u \<longleftrightarrow> s = u \<or> (table_inv s \<and> table_inv u \<and> evolves s u)"

lemma same_identity_refl [simp]: "same_identity d d"
  by (simp add: same_identity_def)

lemma same_identity_trans: "same_identity a b \<Longrightarrow> same_identity b c \<Longrightarrow> same_identity a c"
  by (simp add: same_identity_def)

lemma evolves_item_refl [simp]: "evolves_item x x"
  by (cases "(x, x)" rule: evolves_item.cases) auto

lemma evolves_item_trans: "evolves_item x y \<Longrightarrow> evolves_item y z \<Longrightarrow> evolves_item x z"
  by (cases "(x, y)" rule: evolves_item.cases) (auto, (metis same_identity_trans)+)

lemma evolves_refl [simp]: "evolves s s"
  by (simp add: evolves_def)

lemma evolves_trans: "evolves s t \<Longrightarrow> evolves t u \<Longrightarrow> evolves s u"
  unfolding evolves_def using evolves_item_trans by blast

lemma safe_refl: "safe s s"
  by (simp add: safe_def)

lemma safe_trans: "safe s t \<Longrightarrow> safe t u \<Longrightarrow> safe s u"
  unfolding safe_def using evolves_trans by blast

lemma safeI: "table_inv s \<Longrightarrow> table_inv u \<Longrightarrow> evolves s u \<Longrightarrow> safe s u"
  by (simp add: safe_def)

lemma safe_inv: "safe s u \<Longrightarrow> table_inv s \<Longrightarrow> table_inv u"
  by (auto simp: safe_def)

lemma safe_inv_back: "safe s u \<Longrightarrow> table_inv u \<Longrightarrow> table_inv s"
  by (auto simp: safe_def)

lemma safe_evolves: "safe s u \<Longrightarrow> evolves s u"
  by (auto simp: safe_def)

section \<open>How a transaction acts on events and deliveries\<close>

definition core_writes :: "tx_op list \<Rightarrow> tx_op list" where
  "core_writes ops = filter (\<lambda>op. is_core (op_key op)) ops"

lemma core_writes_simps [simp]:
  "core_writes [] = []"
  "core_writes (op # ops) = (if is_core (op_key op) then op # core_writes ops else core_writes ops)"
  "core_writes (xs @ ys) = core_writes xs @ core_writes ys"
  by (simp_all add: core_writes_def)

lemma index_not_core: "is_index_key k \<Longrightarrow> \<not> is_core k"
  by (cases k) auto

lemma core_writes_only_index: "only_index ops \<Longrightarrow> core_writes ops = []"
  by (auto simp: core_writes_def only_index_def filter_empty_conv index_not_core)

lemma core_writes_index [simp]:
  "core_writes (indexPutsNew d) = []" "core_writes (indexPuts d) = []"
  "core_writes (indexDeletes d) = []" "core_writes (statusIndexOps t e u) = []"
  "core_writes (rollupUpdates t ds st at_ms a d) = []"
  by (rule core_writes_only_index, simp)+

lemma outboxPut_not_core [simp]: "\<not> is_core (op_key (outboxPut n b))"
  by (simp add: index_not_core)

lemma eventPut_key [simp]: "op_key (eventPut t event updated) = K_Event t (ev_eventId updated)"
  by (simp add: eventPut_def)

lemma tx_apply_core_cong:
  "is_core k \<Longrightarrow> (\<And>j. is_core j \<Longrightarrow> s j = s' j) \<Longrightarrow> tx_apply ops s k = tx_apply (core_writes ops) s' k"
proof (induction ops arbitrary: s s')
  case (Cons op ops)
  let ?a = "run_action (op_action op) (s (op_key op))"
  show ?case
  proof (cases "is_core (op_key op)")
    case True
    have "tx_apply ops (s(op_key op := ?a)) k = tx_apply (core_writes ops) (s'(op_key op := ?a)) k"
      using Cons.prems by (intro Cons.IH) auto
    with True Cons.prems show ?thesis by simp
  next
    case False
    have "tx_apply ops (s(op_key op := ?a)) k = tx_apply (core_writes ops) s' k"
      using Cons.prems False by (intro Cons.IH) auto
    with False show ?thesis by simp
  qed
qed simp

lemma tx_apply_core: "is_core k \<Longrightarrow> tx_apply ops s k = tx_apply (core_writes ops) s k"
  by (rule tx_apply_core_cong) auto

section \<open>Changing one delivery together with its event\<close>

definition counts :: "delivery option \<Rightarrow> (delivery_state \<Rightarrow> bool) \<Rightarrow> int" where
  "counts x P = (case x of None \<Rightarrow> 0
     | Some y \<Rightarrow> one_if (d_executionType y = ORIGINAL \<and> P (d_state y)))"

lemma originals_mono: "originals s t e P \<subseteq> originals s t e (\<lambda>_. True)"
  by (auto simp: originals_def)

lemma originals_cong:
  "(\<And>d. u (K_Delivery t e d) = s (K_Delivery t e d)) \<Longrightarrow> originals u t e P = originals s t e P"
  by (auto simp: originals_def)

lemma counts_member:
  "counts (as_delivery (s (K_Delivery t e d))) P = one_if (d \<in> originals s t e P)"
  by (cases "s (K_Delivery t e d)" rule: as_delivery.cases)
     (simp_all add: originals_def counts_def one_if_def)

lemma originals_rest:
  assumes "\<And>d'. d' \<noteq> d \<Longrightarrow> u (K_Delivery t e d') = s (K_Delivery t e d')"
  shows "originals u t e P - {d} = originals s t e P - {d}"
proof (rule set_eqI)
  fix d'
  show "d' \<in> originals u t e P - {d} \<longleftrightarrow> d' \<in> originals s t e P - {d}"
    using assms [of d'] by (cases "d' = d") (simp_all add: originals_def)
qed

lemma tally_split:
  assumes "finite (originals s t e (\<lambda>_. True))"
  shows "tally s t e P = int (card (originals s t e P - {d}))
      + counts (as_delivery (s (K_Delivery t e d))) P"
proof -
  have f: "finite (originals s t e P)" using assms originals_mono by (rule finite_subset [rotated])
  show ?thesis
  proof (cases "d \<in> originals s t e P")
    case True
    with card_Suc_Diff1 [OF f True] show ?thesis by (simp add: tally_def one_if_def counts_member)
  next
    case False
    then show ?thesis by (simp add: tally_def one_if_def counts_member)
  qed
qed

lemma tally_update:
  assumes fin: "finite (originals s t e (\<lambda>_. True))"
    and same: "\<And>d'. d' \<noteq> d \<Longrightarrow> u (K_Delivery t e d') = s (K_Delivery t e d')"
  shows "finite (originals u t e (\<lambda>_. True))"
    and "tally u t e P = tally s t e P - counts (as_delivery (s (K_Delivery t e d))) P
           + counts (as_delivery (u (K_Delivery t e d))) P"
proof -
  have rest: "originals u t e P - {d} = originals s t e P - {d}" for P
    by (rule originals_rest) (rule same)
  have "originals u t e (\<lambda>_. True) - {d} \<subseteq> originals s t e (\<lambda>_. True)"
    by (subst rest) (rule Diff_subset)
  with fin have "finite (originals u t e (\<lambda>_. True) - {d})" by (rule finite_subset [rotated])
  then show finu: "finite (originals u t e (\<lambda>_. True))" by simp
  show "tally u t e P = tally s t e P - counts (as_delivery (s (K_Delivery t e d))) P
           + counts (as_delivery (u (K_Delivery t e d))) P"
    unfolding tally_split [OF fin, of P d] tally_split [OF finu, of P d] rest by linarith
qed

text \<open>The counters after the delivery \<open>old\<close> (if any) has been replaced by \<open>new\<close>.\<close>

definition recount :: "outcome_counters \<Rightarrow> delivery option \<Rightarrow> delivery \<Rightarrow> outcome_counters" where
  "recount c old new = c\<lparr>
     oc_totalDeliveries := oc_totalDeliveries c
       - counts old (\<lambda>_. True) + counts (Some new) (\<lambda>_. True),
     oc_terminalDeliveries := oc_terminalDeliveries c
       - counts old isTerminalDeliveryState + counts (Some new) isTerminalDeliveryState,
     oc_successfulDeliveries := oc_successfulDeliveries c
       - counts old (\<lambda>x. x = Succeeded) + counts (Some new) (\<lambda>x. x = Succeeded),
     oc_failedTerminalDeliveries := oc_failedTerminalDeliveries c
       - counts old (\<lambda>x. x = Failed_Terminal) + counts (Some new) (\<lambda>x. x = Failed_Terminal),
     oc_deadLetteredDeliveries := oc_deadLetteredDeliveries c
       - counts old (\<lambda>x. x = Dead_Lettered) + counts (Some new) (\<lambda>x. x = Dead_Lettered)\<rparr>"

lemma table_inv_event: "table_inv s \<Longrightarrow> s (K_Event t e) = Some it \<Longrightarrow> \<exists>ev. it = It_Event ev \<and> event_ok s t e ev"
  by (auto simp: table_inv_def)

lemma table_inv_delivery:
  "table_inv s \<Longrightarrow> s (K_Delivery t e d) = Some it \<Longrightarrow>
     \<exists>x. it = It_Delivery x \<and> delivery_ok t e d x"
  by (auto simp: table_inv_def)

lemma table_inv_parent: "table_inv s \<Longrightarrow> s (K_Delivery t e d) = Some it \<Longrightarrow> s (K_Event t e) \<noteq> None"
  unfolding table_inv_def by blast

lemma event_ok_cong:
  "(\<And>d. u (K_Delivery t e d) = s (K_Delivery t e d)) \<Longrightarrow> event_ok u t e ev = event_ok s t e ev"
  by (simp add: event_ok_def observed_counters_def tally_def originals_cong [of u t e s])

lemma core_step:
  assumes inv: "table_inv s"
    and other: "\<And>k. is_core k \<Longrightarrow> k \<noteq> K_Event t e \<Longrightarrow> k \<noteq> K_Delivery t e d \<Longrightarrow> u k = s k"
    and ev: "s (K_Event t e) = Some (It_Event ev)" "u (K_Event t e) = Some (It_Event ev')"
    and evid: "ev_eventId ev' = ev_eventId ev" "ev_tenantId ev' = ev_tenantId ev" and evv: "ev' = ev \<or> ev_version ev < ev_version ev'"
    and new: "u (K_Delivery t e d) = Some (It_Delivery x')" "delivery_ok t e d x'"
    and old: "\<And>x. s (K_Delivery t e d) = Some (It_Delivery x) \<Longrightarrow>
        same_identity x x' \<and> (x' = x \<or> d_version x < d_version x')"
    and outcome: "ev_outcome ev' = (recount (ev_outcome ev) (as_delivery (s (K_Delivery t e d))) x')
        \<lparr>oc_routingComplete := routed\<rparr>"
    and status: "deriveEventStatus (ev_outcome ev') = Inr (ev_status ev')"
  shows "table_inv u \<and> evolves s u"
proof -
  from inv ev(1) have ok: "event_ok s t e ev" using table_inv_event by fastforce
  have same: "u (K_Delivery t e d') = s (K_Delivery t e d')" if "d' \<noteq> d" for d'
    using other that by simp
  have fin: "finite (originals s t e (\<lambda>_. True))" using ok by (simp add: event_ok_def)
  note finu = tally_update(1) [where u = u and d = d, OF fin same]
  note upd = tally_update(2) [where u = u and d = d, OF fin same]
  have rec: "ev_outcome ev' = observed_counters u t e (oc_routingComplete (ev_outcome ev'))"
  proof -
    have oc: "ev_outcome ev = observed_counters s t e (oc_routingComplete (ev_outcome ev))"
      using ok by (simp add: event_ok_def)
    show ?thesis
      unfolding outcome by (subst oc)
        (simp add: recount_def observed_counters_def upd new(1))
  qed
  have here: "event_ok u t e ev'"
    using ok rec status evid finu by (simp add: event_ok_def)
  have elsewhere: "event_ok u t' e' ev2 = event_ok s t' e' ev2" if "(t', e') \<noteq> (t, e)" for t' e' ev2
    using that other by (intro event_ok_cong) auto
  have events: "\<exists>ev2. it = It_Event ev2 \<and> event_ok u t' e' ev2"
    if "u (K_Event t' e') = Some it" for t' e' it
    using that here elsewhere ev(2) other [of "K_Event t' e'"] table_inv_event [OF inv, of t' e']
    by (cases "(t', e') = (t, e)") auto
  have deliveries: "(\<exists>x. it = It_Delivery x \<and> delivery_ok t' e' d' x) \<and> u (K_Event t' e') \<noteq> None"
    if "u (K_Delivery t' e' d') = Some it" for t' e' d' it
  proof (cases "(t', e', d') = (t, e, d)")
    case True
    with that new ev(2) show ?thesis by auto
  next
    case False
    with that other have "s (K_Delivery t' e' d') = Some it" by auto
    then show ?thesis
      using table_inv_delivery [OF inv] table_inv_parent [OF inv] other [of "K_Event t' e'"] ev(2)
      by (cases "(t', e') = (t, e)") auto
  qed
  have "table_inv u" unfolding table_inv_def using events deliveries by blast
  moreover have "evolves_item (s k) (u k)" if core: "is_core k" for k
  proof -
    consider "k = K_Event t e" | "k = K_Delivery t e d" | "u k = s k" using other [OF core] by metis
    then show ?thesis
    proof cases
      case 1
      then show ?thesis using ev evid evv by auto
    next
      case 2
      then show ?thesis
        using new(1) old table_inv_delivery [OF inv, of t e d]
        by (cases "s (K_Delivery t e d)") auto
    qed simp
  qed
  ultimately show ?thesis by (simp add: evolves_def)
qed

lemma event_step:
  assumes inv: "table_inv s"
    and other: "\<And>k. is_core k \<Longrightarrow> k \<noteq> K_Event t e \<Longrightarrow> u k = s k"
    and new: "u (K_Event t e) = Some (It_Event ev')" "event_ok s t e ev'"
    and old: "\<And>ev. s (K_Event t e) = Some (It_Event ev) \<Longrightarrow>
       ev_eventId ev' = ev_eventId ev \<and> ev_tenantId ev' = ev_tenantId ev \<and> ev_version ev < ev_version ev'"
  shows "table_inv u \<and> evolves s u"
proof -
  have ok: "event_ok u t' e' ev2 = event_ok s t' e' ev2" for t' e' ev2
    using other by (intro event_ok_cong) simp
  have events: "\<exists>ev2. it = It_Event ev2 \<and> event_ok u t' e' ev2"
    if "u (K_Event t' e') = Some it" for t' e' it
    using that new ok other [of "K_Event t' e'"] table_inv_event [OF inv, of t' e']
    by (cases "(t', e') = (t, e)") auto
  have deliveries: "(\<exists>x. it = It_Delivery x \<and> delivery_ok t' e' d' x) \<and> u (K_Event t' e') \<noteq> None"
    if "u (K_Delivery t' e' d') = Some it" for t' e' d' it
  proof -
    from that other have "s (K_Delivery t' e' d') = Some it" by simp
    then show ?thesis
      using table_inv_delivery [OF inv] table_inv_parent [OF inv] other [of "K_Event t' e'"] new(1)
      by (cases "(t', e') = (t, e)") auto
  qed
  have "table_inv u" unfolding table_inv_def using events deliveries by blast
  moreover have "evolves_item (s k) (u k)" if core: "is_core k" for k
  proof (cases "k = K_Event t e")
    case True
    then show ?thesis
      using new(1) old table_inv_event [OF inv, of t e] by (cases "s (K_Event t e)") auto
  next
    case False
    with core show ?thesis by (simp add: other)
  qed
  ultimately show ?thesis by (simp add: evolves_def)
qed

section \<open>What a reader knows\<close>

text \<open>\<open>seen u k it\<close>: some moment of the past of \<open>u\<close> had \<open>it\<close> under the key \<open>k\<close>.\<close>

definition seen :: "dtable \<Rightarrow> dkey \<Rightarrow> item \<Rightarrow> bool" where
  "seen u k it \<longleftrightarrow> (\<exists>s. safe s u \<and> s k = Some it)"

lemma seen_safe: "seen s k it \<Longrightarrow> safe s u \<Longrightarrow> seen u k it"
  unfolding seen_def using safe_trans by blast

lemma seen_now: "u k = Some it \<Longrightarrow> seen u k it"
  unfolding seen_def using safe_refl by blast

text \<open>
  A version check tells the reader that nothing has changed: what was read at version \<open>v\<close> is still
  what is stored when the stored version is \<open>v\<close>.
\<close>

lemma seen_delivery_current:
  assumes "seen u (K_Delivery t e d) (It_Delivery x)" and "version_is (d_version x) (u (K_Delivery t e d))"
  shows "u (K_Delivery t e d) = Some (It_Delivery x)"
proof -
  from assms(1) obtain s where s: "safe s u" "s (K_Delivery t e d) = Some (It_Delivery x)"
    by (auto simp: seen_def)
  from safe_evolves [OF s(1)] have "evolves_item (s (K_Delivery t e d)) (u (K_Delivery t e d))"
    unfolding evolves_def by simp
  with s(2) assms(2) show ?thesis by (auto simp: version_is_def)
qed

lemma seen_event_current:
  assumes "seen u (K_Event t e) (It_Event ev)" and "version_is (ev_version ev) (u (K_Event t e))"
  shows "u (K_Event t e) = Some (It_Event ev)"
proof -
  from assms(1) obtain s where s: "safe s u" "s (K_Event t e) = Some (It_Event ev)"
    by (auto simp: seen_def)
  from safe_evolves [OF s(1)] have "evolves_item (s (K_Event t e)) (u (K_Event t e))"
    unfolding evolves_def by simp
  with s(2) assms(2) show ?thesis by (auto simp: version_is_def)
qed

lemma seen_delivery_ok:
  assumes "seen u (K_Delivery t e d) (It_Delivery x)" and "table_inv u"
  shows "delivery_ok t e d x"
proof -
  from assms(1) obtain s where s: "safe s u" "s (K_Delivery t e d) = Some (It_Delivery x)"
    by (auto simp: seen_def)
  from safe_inv_back [OF s(1) assms(2)] s(2) show ?thesis using table_inv_delivery by blast
qed

lemma seen_event_id:
  assumes "seen u (K_Event t e) (It_Event ev)" and "table_inv u"
  shows "ev_eventId ev = e"
proof -
  from assms(1) obtain s where s: "safe s u" "s (K_Event t e) = Some (It_Event ev)"
    by (auto simp: seen_def)
  from safe_inv_back [OF s(1) assms(2)] s(2) show ?thesis
    using table_inv_event [of s t e] by (auto simp: event_ok_def)
qed

section \<open>Clients of a table that evolves safely\<close>

locale safe_table = dynamo_table db view safe
  for db :: "'w dynamo" and view :: "'w \<Rightarrow> dtable"
begin

lemma stable_seen: "stable safe (\<lambda>u. seen u k it)"
  unfolding stable_def using seen_safe by blast

lemma stable_conj: "stable safe P \<Longrightarrow> stable safe Q \<Longrightarrow> stable safe (\<lambda>u. P u \<and> Q u)"
  unfolding stable_def by blast

lemma stable_imp_seen: "stable safe (\<lambda>u. c \<longrightarrow> seen u k it)"
  unfolding stable_def using seen_safe by blast

lemma hoare_core:
  assumes "stable safe P"
  shows "hoare view P (mapM f (getCore db k))
    (\<lambda>r u. P u \<and> (\<forall>a. r = Some a \<longrightarrow> f None = None \<longrightarrow> (\<exists>it. f (Some it) = Some a \<and> seen u k it))) P"
proof (rule hoareI)
  fix w r w'
  assume P: "P (view w)" and run: "mapM f (getCore db k) w = (r, w')"
  obtain g w1 where g: "db_get db k w = (g, w1)" by (cases "db_get db k w")
  from get_law [OF g] have rel: "safe (view w) (view w1)"
    and val: "\<And>x. g = Inr x \<Longrightarrow> \<exists>s. safe s (view w1) \<and> x = s k" by auto
  from assms P rel have P1: "P (view w1)" by (rule stableD)
  show "case r of Inr r \<Rightarrow> P (view w') \<and>
        (\<forall>a. r = Some a \<longrightarrow> f None = None \<longrightarrow> (\<exists>it. f (Some it) = Some a \<and> seen (view w') k it))
      | Inl e \<Rightarrow> P (view w')"
  proof (cases g)
    case (Inl err)
    with run g P1 show ?thesis by (auto simp: mapM_def getCore_def bindM_def)
  next
    case (Inr x)
    with run g have r: "r = Inr (f (live_item x (db_now db w1)))" and w': "w' = w1"
      by (auto simp: mapM_def getCore_def bindM_def returnM_def)
    from val [OF Inr] obtain s where s: "safe s (view w1)" "x = s k" by blast
    have "\<exists>it. f (Some it) = Some a \<and> seen (view w1) k it"
      if a: "f (live_item x (db_now db w1)) = Some a" and fN: "f None = None" for a
    proof (cases "live_item x (db_now db w1)")
      case None
      with a fN show ?thesis by simp
    next
      case (Some it)
      then have "s k = Some it" using s(2) by (simp add: live_item_Some)
      with s(1) have "seen (view w1) k it" by (auto simp: seen_def)
      with a Some show ?thesis by auto
    qed
    with r w' P1 show ?thesis by simp
  qed
qed

lemma hoare_getEvent:
  assumes "stable safe P"
  shows "hoare view P (getEvent db t e)
    (\<lambda>r u. P u \<and> (\<forall>ev. r = Some ev \<longrightarrow> seen u (K_Event t e) (It_Event ev))) P"
  unfolding getEvent_def
  by (rule hoare_weaken [OF hoare_core [OF assms]]) (auto simp: as_event_Some)

lemma hoare_lookup:
  assumes "stable safe P"
  shows "hoare view P (mapM as_lookup (getCore db k)) (\<lambda>r. P) P"
  by (rule hoare_weaken [OF hoare_core [OF assms]]) auto

lemma hoare_safe_write:
  assumes "stable safe P" and "\<And>u. P u \<Longrightarrow> tx_ok ops u \<Longrightarrow> safe u (tx_apply ops u)"
  shows "hoare view P (db_write db ops) (\<lambda>_. P) P"
proof (rule hoare_write [OF assms(1)])
  fix u
  assume P: "P u" and ok: "tx_ok ops u"
  from assms(1) P assms(2) [OF P ok] show "P (tx_apply ops u)" by (rule stableD)
  from assms(1) P assms(2) [OF P ok] show "P (tx_apply ops u)" by (rule stableD)
qed

text \<open>The precondition of a whole operation: everything since \<open>s0\<close> was safe.\<close>

definition since :: "dtable \<Rightarrow> dtable \<Rightarrow> bool" where
  "since s0 u \<longleftrightarrow> table_inv s0 \<and> safe s0 u"

lemma stable_since: "stable safe (since s0)"
  unfolding stable_def since_def using safe_trans by blast

lemma since_inv: "since s0 u \<Longrightarrow> table_inv u"
  unfolding since_def using safe_inv by blast

lemma since_safe: "since s0 u \<Longrightarrow> safe s0 u"
  by (simp add: since_def)

lemma since_refl: "table_inv s \<Longrightarrow> since s s"
  by (simp add: since_def safe_refl)

lemma operation_safe:
  assumes "\<And>s0. hoare view (\<lambda>u. since s0 u \<and> C u) m (\<lambda>_ u. since s0 u \<and> C u) (\<lambda>u. since s0 u \<and> C u)"
    and "table_inv (view w)" and "C (view w)"
  shows "safe (view w) (view (snd (m w))) \<and> table_inv (view (snd (m w)))"
proof -
  have pre: "since (view w) (view w) \<and> C (view w)" using assms(2,3) since_refl by blast
  have run: "m w = (fst (m w), snd (m w))" by simp
  have "since (view w) (view (snd (m w)))"
    using hoareD [OF assms(1) [of "view w"] pre run] by (auto split: sum.splits)
  then show ?thesis using since_safe since_inv by blast
qed

end

interpretation mem_safe: safe_table "mem_db ks safe" mem_table for ks
  unfolding safe_table_def by (rule mem_db_laws) (auto intro: safe_refl safe_trans)

end
