(* ===== verification/Delivery_Store.thy ===== *)
theory Delivery_Store
  imports Event_Store
begin

text \<open>
  The methods of \<open>DynamoPersistence\<close> that move a delivery: taking a lease, starting and finalizing
  an attempt, deferring, recovering an expired lease and resuming the deliveries of a destination
  that was enabled again. Each is one conditional transaction (\<open>finalizeAttempt\<close> and
  \<open>finalizeSuccess\<close> up to eight), whose condition on the stored delivery names the version, the lease
  and the active attempt that the caller holds.
\<close>

section \<open>Conditions on the stored delivery\<close>

definition delivery_cond :: "int \<Rightarrow> (delivery \<Rightarrow> bool) \<Rightarrow> item option \<Rightarrow> bool" where
  "delivery_cond v P old \<longleftrightarrow> version_is v old \<and> (case as_delivery old of None \<Rightarrow> False | Some d \<Rightarrow> P d)"

definition leasable_states :: "delivery_state list" where
  "leasable_states = [Scheduled, Retry_Scheduled, Rate_Limited]"

definition eligible_by :: "instant \<Rightarrow> delivery \<Rightarrow> bool" where
  "eligible_by now d \<longleftrightarrow> (case d_nextEligibleAt d of None \<Rightarrow> True | Some n \<Rightarrow> n \<le> now)"

definition getDeliveryAt ::
    "'w dynamo \<Rightarrow> string \<Rightarrow> string \<Rightarrow> string \<Rightarrow> ('w, delivery option) op" where
  "getDeliveryAt db t e d = mapM as_delivery (getCore db (K_Delivery t e d))"

definition deliveryPut :: "string \<Rightarrow> string \<Rightarrow> (item option \<Rightarrow> bool) \<Rightarrow> delivery \<Rightarrow> tx_op" where
  "deliveryPut t e c d = put_op (K_Delivery t e (d_deliveryId d)) c (stored_delivery d)"

definition attemptKey :: "string \<Rightarrow> string \<Rightarrow> delivery_attempt \<Rightarrow> dkey" where
  "attemptKey t e a = K_Attempt t e (at_deliveryId a) (at_attemptNumber a)"

definition historyKey :: "string \<Rightarrow> string \<Rightarrow> history_entry \<Rightarrow> dkey" where
  "historyKey t e h = K_History t e (hi_deliveryId h) (hi_occurredAt h) (hi_historyId h)"

section \<open>Replacing a delivery, appending evidence\<close>

definition replaceIfVersion ::
    "'w dynamo \<Rightarrow> string \<Rightarrow> delivery \<Rightarrow> int \<Rightarrow> ('w, bool) op" where
  "replaceIfVersion db t d expected =
     bindM (mapM as_lookup (getCore db (K_Lookup t LK_Delivery (d_deliveryId d)))) (\<lambda>existing.
       case existing of
         None \<Rightarrow> returnM False
       | Some e \<Rightarrow> db_write db [deliveryPut t e (version_is expected) d])"

text \<open>Both rows are put as they are, without \<open>epochSeconds\<close>; a refused condition is thrown.\<close>

definition appendAttemptAndHistory ::
    "'w dynamo \<Rightarrow> string \<Rightarrow> string \<Rightarrow> delivery_attempt \<Rightarrow> history_entry \<Rightarrow> ('w, unit) op" where
  "appendAttemptAndHistory db t e a h =
     bindM (db_write db [put_new (attemptKey t e a) (It_Attempt a),
                         put_new (historyKey t e h) (It_History h)])
       (\<lambda>ok. if ok then returnM () else throwM (ServiceError ''TransactionCanceledException''))"

section \<open>Leases\<close>

record lease_request =
  lq_tenantId :: string
  lq_eventId :: string
  lq_deliveryId :: string
  lq_expectedVersion :: int
  lq_owner :: string
  lq_token :: string
  lq_expiresAt :: instant

definition leaseTransition :: "lease_request \<Rightarrow> instant \<Rightarrow> delivery_transition" where
  "leaseTransition q now = \<lparr>tr_to = In_Progress, tr_at = now,
     tr_expectedVersion = lq_expectedVersion q, tr_leaseToken = None, tr_nextEligibleAt = None,
     tr_blockedReason = None,
     tr_lease = Some \<lparr>le_owner = lq_owner q, le_token = lq_token q, le_expiresAt = lq_expiresAt q\<rparr>\<rparr>"

definition leasable :: "lease_request \<Rightarrow> instant \<Rightarrow> delivery \<Rightarrow> bool" where
  "leasable q now d \<longleftrightarrow> d_version d = lq_expectedVersion q
     \<and> d_state d \<in> set leasable_states \<and> eligible_by now d"

definition leaseTransaction ::
    "lease_request \<Rightarrow> instant \<Rightarrow> delivery \<Rightarrow> delivery \<Rightarrow> tx_op list" where
  "leaseTransaction q now current leased =
     put_op (K_Delivery (lq_tenantId q) (lq_eventId q) (lq_deliveryId q))
       (delivery_cond (lq_expectedVersion q)
          (\<lambda>d. d_state d \<in> set leasable_states \<and> eligible_by now d))
       (stored_delivery leased)
     # indexDeletes current @ indexPuts leased"

definition acquireLease :: "'w dynamo \<Rightarrow> lease_request \<Rightarrow> ('w, delivery option) op" where
  "acquireLease db q =
     bindM (getDeliveryAt db (lq_tenantId q) (lq_eventId q) (lq_deliveryId q)) (\<lambda>found.
       case found of
         None \<Rightarrow> returnM None
       | Some current \<Rightarrow>
           withNow db (\<lambda>now.
              if \<not> leasable q now current then returnM None
              else bindM (liftM (transitionDelivery current (leaseTransition q now))) (\<lambda>leased.
                   bindM (db_write db (leaseTransaction q now current leased)) (\<lambda>ok.
                   returnM (if ok then Some leased else None)))))"

section \<open>Attempts\<close>

record start_input =
  st_tenantId :: string
  st_eventId :: string
  st_delivery :: delivery
  st_expectedVersion :: int
  st_attempt :: delivery_attempt

definition startedDelivery :: "start_input \<Rightarrow> delivery" where
  "startedDelivery inp = (st_delivery inp)\<lparr>
     d_attemptCount := at_attemptNumber (st_attempt inp),
     d_activeAttemptId := Some (at_attemptId (st_attempt inp)),
     d_version := d_version (st_delivery inp) + 1,
     d_updatedAt := at_startedAt (st_attempt inp)\<rparr>"

definition startTransaction :: "start_input \<Rightarrow> string \<Rightarrow> tx_op list" where
  "startTransaction inp token =
     [deliveryPut (st_tenantId inp) (st_eventId inp)
        (delivery_cond (st_expectedVersion inp)
           (\<lambda>d. d_leaseToken d = Some token \<and> d_activeAttemptId d = None))
        (startedDelivery inp),
      put_new (attemptKey (st_tenantId inp) (st_eventId inp) (st_attempt inp))
        (stored_attempt (st_attempt inp))]"

text \<open>
  A condition that names an expression value which is \<open>undefined\<close> (here the token of a delivery
  without a lease) is refused as a whole.
\<close>

definition undefined_value :: js_error where
  "undefined_value = ServiceError ''ValidationException''"

definition startAttempt :: "'w dynamo \<Rightarrow> start_input \<Rightarrow> ('w, delivery option) op" where
  "startAttempt db inp =
     (case d_leaseToken (st_delivery inp) of
        None \<Rightarrow> throwM undefined_value
      | Some token \<Rightarrow>
          bindM (db_write db (startTransaction inp token)) (\<lambda>ok.
            returnM (if ok then Some (startedDelivery inp) else None)))"

record finalize_input =
  fi_tenantId :: string
  fi_eventId :: string
  fi_delivery :: delivery
  fi_expectedVersion :: int
  fi_leaseToken :: string
  fi_attempt :: delivery_attempt
  fi_history :: history_entry
  fi_outbox :: "outbox_record option"
  fi_circuit :: "circuit_state option"

definition updatesOriginalEvent :: "delivery \<Rightarrow> bool" where
  "updatesOriginalEvent d \<longleftrightarrow> isTerminalDeliveryState (d_state d) \<and> d_executionType d = ORIGINAL"

definition countTerminal :: "outcome_counters \<Rightarrow> delivery_state \<Rightarrow> outcome_counters" where
  "countTerminal c state = c\<lparr>
     oc_terminalDeliveries := oc_terminalDeliveries c + 1,
     oc_successfulDeliveries := oc_successfulDeliveries c + one_if (state = Succeeded),
     oc_failedTerminalDeliveries := oc_failedTerminalDeliveries c + one_if (state = Failed_Terminal),
     oc_deadLetteredDeliveries := oc_deadLetteredDeliveries c + one_if (state = Dead_Lettered)\<rparr>"

definition outcome_started :: "item option \<Rightarrow> bool" where
  "outcome_started old \<longleftrightarrow> (case as_attempt old of None \<Rightarrow> False | Some a \<Rightarrow> at_outcome a = At_Started)"

definition circuitPut :: "string \<Rightarrow> string \<Rightarrow> circuit_state \<Rightarrow> tx_op" where
  "circuitPut t destinationId c =
     put_op (K_Runtime t destinationId RT_Circuit) (absent_or_version (max 0 (ci_version c - 1)))
       (It_Circuit c)"

text \<open>The event is put without the replacement of its status index row.\<close>

definition finalizeTransaction ::
    "nat \<Rightarrow> finalize_input \<Rightarrow> delivery \<Rightarrow> canonical_event \<Rightarrow> canonical_event \<Rightarrow> tx_op list" where
  "finalizeTransaction shards inp current event updated =
     (let t = fi_tenantId inp; e = fi_eventId inp; d = fi_delivery inp; a = fi_attempt inp in
      [deliveryPut t e
         (delivery_cond (fi_expectedVersion inp)
            (\<lambda>x. d_leaseToken x = Some (fi_leaseToken inp)
               \<and> d_activeAttemptId x = Some (at_attemptId a)))
         (d\<lparr>d_activeAttemptId := None\<rparr>),
       put_op (attemptKey t e a) outcome_started (stored_attempt a),
       put_new (historyKey t e (fi_history inp)) (stored_history (fi_history inp))]
      @ indexDeletes current @ indexPuts d
      @ (if updatesOriginalEvent d
         then [put_op (K_Event t e) (version_is (ev_version event)) (stored_event updated)] else [])
      @ (case fi_outbox inp of None \<Rightarrow> [] | Some b \<Rightarrow> [outboxPut shards b])
      @ rollupUpdates t (d_destinationId d) (d_deliveryId d)
          (case at_completedAt a of None \<Rightarrow> d_updatedAt d | Some c \<Rightarrow> c) a d
      @ (case fi_circuit inp of None \<Rightarrow> [] | Some c \<Rightarrow> [circuitPut t (d_destinationId d) c]))"

definition finalizedEvent :: "delivery \<Rightarrow> canonical_event \<Rightarrow> js_error + canonical_event" where
  "finalizedEvent d event =
     (if updatesOriginalEvent d
      then (let outcome = countTerminal (ev_outcome event) (d_state d)
            in case deriveEventStatus outcome of
                 Inl err \<Rightarrow> Inl err
               | Inr status \<Rightarrow> Inr (withOutcome event outcome status))
      else Inr event)"

definition finalizeAttemptRound ::
    "'w dynamo \<Rightarrow> nat \<Rightarrow> finalize_input \<Rightarrow> ('w, bool option) op" where
  "finalizeAttemptRound db shards inp =
     (let t = fi_tenantId inp; e = fi_eventId inp; d = fi_delivery inp in
      bindM (getDeliveryAt db t e (d_deliveryId d)) (\<lambda>current.
      bindM (getEvent db t e) (\<lambda>event.
        case (current, event) of
          (Some c, Some ev) \<Rightarrow>
            bindM (liftM (finalizedEvent d ev)) (\<lambda>updated.
            bindM (db_write db (finalizeTransaction shards inp c ev updated)) (\<lambda>ok.
            returnM (if ok then Some True else None)))
        | _ \<Rightarrow> returnM (Some False))))"

definition finalizeAttempt :: "'w dynamo \<Rightarrow> nat \<Rightarrow> finalize_input \<Rightarrow> ('w, bool) op" where
  "finalizeAttempt db shards inp = retryM 8 (finalizeAttemptRound db shards inp) (returnM False)"

text \<open>
  \<open>finalizeSuccess\<close> counts the success on the event whatever the execution type is, and puts the
  attempt and the history as they are.
\<close>

record success_input =
  fs_tenantId :: string
  fs_eventId :: string
  fs_delivery :: delivery
  fs_expectedVersion :: int
  fs_attempt :: delivery_attempt
  fs_history :: history_entry

definition countSuccess :: "outcome_counters \<Rightarrow> outcome_counters" where
  "countSuccess c = c\<lparr>oc_terminalDeliveries := oc_terminalDeliveries c + 1,
     oc_successfulDeliveries := oc_successfulDeliveries c + 1\<rparr>"

definition successTransaction ::
    "success_input \<Rightarrow> string \<Rightarrow> delivery \<Rightarrow> canonical_event \<Rightarrow> canonical_event \<Rightarrow> tx_op list" where
  "successTransaction inp token current event updated =
     (let t = fs_tenantId inp; e = fs_eventId inp; d = fs_delivery inp in
      [deliveryPut t e
         (delivery_cond (fs_expectedVersion inp) (\<lambda>x. d_leaseToken x = Some token)) d,
       put_new (attemptKey t e (fs_attempt inp)) (It_Attempt (fs_attempt inp)),
       put_new (historyKey t e (fs_history inp)) (It_History (fs_history inp))]
      @ indexDeletes current @ indexPuts d
      @ [put_op (K_Event t e) (version_is (ev_version event)) (stored_event updated)]
      @ statusIndexOps t event updated)"

definition finalizeSuccessRound :: "'w dynamo \<Rightarrow> success_input \<Rightarrow> ('w, bool option) op" where
  "finalizeSuccessRound db inp =
     (let t = fs_tenantId inp; e = fs_eventId inp; d = fs_delivery inp in
      bindM (getDeliveryAt db t e (d_deliveryId d)) (\<lambda>current.
      bindM (getEvent db t e) (\<lambda>event.
        case (current, event) of
          (Some c, Some ev) \<Rightarrow>
            (let outcome = countSuccess (ev_outcome ev) in
             bindM (liftM (deriveEventStatus outcome)) (\<lambda>status.
             case d_leaseToken c of
               None \<Rightarrow> throwM undefined_value
             | Some token \<Rightarrow>
                 bindM (db_write db
                    (successTransaction inp token c ev (withOutcome ev outcome status))) (\<lambda>ok.
                 returnM (if ok then Some True else None))))
        | _ \<Rightarrow> returnM (Some False))))"

definition finalizeSuccess :: "'w dynamo \<Rightarrow> success_input \<Rightarrow> ('w, bool) op" where
  "finalizeSuccess db inp = retryM 8 (finalizeSuccessRound db inp) (returnM False)"

section \<open>Deferring\<close>

record defer_input =
  df_tenantId :: string
  df_eventId :: string
  df_delivery :: delivery
  df_expectedVersion :: int
  df_leaseToken :: string
  df_history :: history_entry
  df_outbox :: outbox_record

definition deferTransaction :: "nat \<Rightarrow> defer_input \<Rightarrow> delivery \<Rightarrow> tx_op list" where
  "deferTransaction shards inp current =
     [deliveryPut (df_tenantId inp) (df_eventId inp)
        (delivery_cond (df_expectedVersion inp) (\<lambda>x. d_leaseToken x = Some (df_leaseToken inp)))
        (df_delivery inp),
      put_new (historyKey (df_tenantId inp) (df_eventId inp) (df_history inp))
        (stored_history (df_history inp))]
     @ indexDeletes current @ indexPuts (df_delivery inp)
     @ [outboxPut shards (df_outbox inp)]"

definition defer_delivery :: "'w dynamo \<Rightarrow> nat \<Rightarrow> defer_input \<Rightarrow> ('w, bool) op" where
  "defer_delivery db shards inp =
     bindM (getDeliveryAt db (df_tenantId inp) (df_eventId inp) (d_deliveryId (df_delivery inp)))
       (\<lambda>current. case current of
          None \<Rightarrow> returnM False
        | Some c \<Rightarrow> db_write db (deferTransaction shards inp c))"

section \<open>Recovering an expired lease\<close>

record recover_input =
  re_tenantId :: string
  re_eventId :: string
  re_deliveryId :: string
  re_now :: instant
  re_random :: rat

definition lease_expired :: "instant \<Rightarrow> delivery \<Rightarrow> bool" where
  "lease_expired now d \<longleftrightarrow> d_state d = In_Progress
     \<and> (case d_leaseExpiresAt d of None \<Rightarrow> False | Some x \<Rightarrow> x \<le> now)"

definition retry_at :: "instant \<Rightarrow> rat \<Rightarrow> instant" where
  "retry_at now delay = now + \<lceil>delay * 1000\<rceil>"

definition option_or :: "'a option \<Rightarrow> 'a \<Rightarrow> 'a" where
  "option_or x y = (case x of None \<Rightarrow> y | Some a \<Rightarrow> a)"

definition exhausted :: "delivery \<Rightarrow> bool" where
  "exhausted d \<longleftrightarrow> d_attemptCount d \<ge> d_maxAttempts d"

definition recoveryId :: "delivery \<Rightarrow> string" where
  "recoveryId d = ''recovery-'' @ d_deliveryId d @ ''-'' @ js_int (d_version d)"

definition recoveryOutbox :: "delivery \<Rightarrow> instant \<Rightarrow> instant \<Rightarrow> cause \<Rightarrow> outbox_record" where
  "recoveryOutbox d now notBefore cause = \<lparr>
     ob_outboxId = ''obx_recovery_'' @ d_deliveryId d @ ''_'' @ js_int (d_version d),
     ob_kind = SCHEDULE_DELIVERY, ob_tenantId = d_tenantId d, ob_aggregateType = DELIVERY,
     ob_aggregateId = d_deliveryId d, ob_target = SCHEDULER,
     ob_payload = \<lparr>pl_eventId = Some (d_eventId d), pl_deliveryId = Some (d_deliveryId d),
       pl_destinationId = None, pl_correlationId = d_correlationId d,
       pl_notBefore = Some notBefore, pl_cause = Some cause\<rparr>,
     ob_createdAt = now, ob_attempts = 0, ob_publishedAt = None, ob_traceparent = None\<rparr>"

definition recoveryHistory ::
    "delivery \<Rightarrow> history_type \<Rightarrow> instant \<Rightarrow> string \<Rightarrow> (string \<times> meta_value) list \<Rightarrow> history_entry" where
  "recoveryHistory d htype now summary meta = \<lparr>
     hi_historyId = recoveryId d, hi_deliveryId = d_deliveryId d, hi_tenantId = d_tenantId d,
     hi_correlationId = d_correlationId d, hi_type = htype, hi_occurredAt = now,
     hi_summary = summary, hi_metadata = meta, hi_expiresAt = d_expiresAt d\<rparr>"

definition recoveryRetryAt :: "recover_input \<Rightarrow> delivery \<Rightarrow> instant" where
  "recoveryRetryAt inp d = retry_at (re_now inp)
     (retryDelaySeconds (cs_retryPolicy (d_configSnapshot d)) (d_attemptCount d) (re_random inp) None)"

definition timeoutTransition :: "recover_input \<Rightarrow> delivery \<Rightarrow> delivery_transition" where
  "timeoutTransition inp d = \<lparr>tr_to = (if exhausted d then Dead_Lettered else Retry_Scheduled),
     tr_at = re_now inp, tr_expectedVersion = d_version d,
     tr_leaseToken = Some (option_or (d_leaseToken d) ''expired-lease''),
     tr_nextEligibleAt = (if exhausted d then None else Some (recoveryRetryAt inp d)),
     tr_blockedReason = Some TIMEOUT, tr_lease = None\<rparr>"

definition timedOutAttempt :: "recover_input \<Rightarrow> delivery_attempt \<Rightarrow> delivery_attempt" where
  "timedOutAttempt inp a = a\<lparr>at_completedAt := Some (re_now inp),
     at_durationMs := Some (max 0 (re_now inp - at_startedAt a)), at_outcome := At_Failed,
     at_failureCategory := Some TIMEOUT, at_retryable := Some True\<rparr>"

definition timeoutInput :: "recover_input \<Rightarrow> delivery \<Rightarrow> delivery_attempt \<Rightarrow> delivery \<Rightarrow> finalize_input" where
  "timeoutInput inp d a final = \<lparr>
     fi_tenantId = re_tenantId inp, fi_eventId = d_eventId d, fi_delivery = final,
     fi_expectedVersion = d_version d,
     fi_leaseToken = option_or (d_leaseToken d) ''expired-lease'',
     fi_attempt = timedOutAttempt inp a,
     fi_history =
       (if exhausted d
        then recoveryHistory d Hi_Dead_Lettered (re_now inp)
          ''Expired started delivery attempt exhausted retries.''
          [(''failureCategory'', Meta_Category TIMEOUT)]
        else recoveryHistory d Hi_Retry_Scheduled (re_now inp)
          ''Expired started delivery attempt recovered as timeout.''
          [(''failureCategory'', Meta_Category TIMEOUT),
           (''nextEligibleAt'', Meta_Instant (recoveryRetryAt inp d))]),
     fi_outbox = (if exhausted d then None
        else Some (recoveryOutbox d (re_now inp) (recoveryRetryAt inp d) RETRY)),
     fi_circuit = None\<rparr>"

definition rescheduleTransition :: "recover_input \<Rightarrow> delivery \<Rightarrow> delivery_transition" where
  "rescheduleTransition inp d = \<lparr>tr_to = Scheduled, tr_at = re_now inp,
     tr_expectedVersion = d_version d,
     tr_leaseToken = Some (option_or (d_leaseToken d) ''expired-lease''),
     tr_nextEligibleAt = Some (re_now inp), tr_blockedReason = None, tr_lease = None\<rparr>"

definition rescheduleInput :: "recover_input \<Rightarrow> delivery \<Rightarrow> delivery \<Rightarrow> defer_input" where
  "rescheduleInput inp d nxt = \<lparr>
     df_tenantId = re_tenantId inp, df_eventId = d_eventId d, df_delivery = nxt,
     df_expectedVersion = d_version d, df_leaseToken = option_or (d_leaseToken d) [],
     df_history = recoveryHistory d Hi_Lease_Recovered (re_now inp)
       ''Expired delivery lease recovered.'' [],
     df_outbox = recoveryOutbox d (re_now inp) (re_now inp) RESUME\<rparr>"

definition recoverStarted :: "'w dynamo \<Rightarrow> nat \<Rightarrow> recover_input \<Rightarrow> delivery \<Rightarrow> string \<Rightarrow> ('w, bool) op" where
  "recoverStarted db shards inp d active =
     bindM (mapM as_attempt (getCore db
        (K_Attempt (re_tenantId inp) (re_eventId inp) (d_deliveryId d) (d_attemptCount d))))
       (\<lambda>started. case started of
          None \<Rightarrow> returnM False
        | Some a \<Rightarrow>
            if at_attemptId a \<noteq> active then returnM False
            else bindM (liftM (transitionDelivery d (timeoutTransition inp d))) (\<lambda>final.
                 finalizeAttempt db shards (timeoutInput inp d a final)))"

definition recoverExpired :: "'w dynamo \<Rightarrow> nat \<Rightarrow> recover_input \<Rightarrow> ('w, bool) op" where
  "recoverExpired db shards inp =
     bindM (getDelivery db (re_tenantId inp) (re_deliveryId inp)) (\<lambda>found.
       case found of
         None \<Rightarrow> returnM False
       | Some d \<Rightarrow>
           if \<not> lease_expired (re_now inp) d then returnM False
           else case d_activeAttemptId d of
               Some active \<Rightarrow> recoverStarted db shards inp d active
             | None \<Rightarrow>
                 bindM (liftM (transitionDelivery d (rescheduleTransition inp d))) (\<lambda>nxt.
                 defer_delivery db shards (rescheduleInput inp d nxt)))"

section \<open>Resuming the deliveries of a destination\<close>

record resume_input =
  ru_tenantId :: string
  ru_destinationId :: string
  ru_now :: instant

fun in_delivery_index :: "string \<Rightarrow> string \<Rightarrow> dkey \<Rightarrow> bool" where
  "in_delivery_index t category (K_DeliveryIndex t' c at_ms d) \<longleftrightarrow> t' = t \<and> c = category"
| "in_delivery_index t category _ = False"

fun as_delivery_index :: "item \<Rightarrow> delivery_index option" where
  "as_delivery_index (It_DeliveryIndex i) = Some i"
| "as_delivery_index _ = None"

text \<open>The elements of a \<open>Set\<close> in the order of their first insertion.\<close>

definition js_set :: "'a list \<Rightarrow> 'a list" where
  "js_set xs = rev (remdups (rev xs))"

definition resumeOutbox :: "delivery \<Rightarrow> instant \<Rightarrow> outbox_record" where
  "resumeOutbox d now = \<lparr>
     ob_outboxId = ''obx_resume_'' @ d_deliveryId d @ ''_'' @ js_int (d_version d),
     ob_kind = RESUME_DELIVERY, ob_tenantId = d_tenantId d, ob_aggregateType = DELIVERY,
     ob_aggregateId = d_deliveryId d, ob_target = DELIVERY_QUEUE,
     ob_payload = \<lparr>pl_eventId = Some (d_eventId d), pl_deliveryId = Some (d_deliveryId d),
       pl_destinationId = None, pl_correlationId = d_correlationId d,
       pl_notBefore = Some now, pl_cause = Some RESUME\<rparr>,
     ob_createdAt = now, ob_attempts = 0, ob_publishedAt = None, ob_traceparent = None\<rparr>"

definition resumeTransition :: "instant \<Rightarrow> delivery \<Rightarrow> delivery_transition" where
  "resumeTransition now d = \<lparr>tr_to = Scheduled, tr_at = now, tr_expectedVersion = d_version d,
     tr_leaseToken = None, tr_nextEligibleAt = Some now, tr_blockedReason = None, tr_lease = None\<rparr>"

definition resumeTransaction :: "nat \<Rightarrow> instant \<Rightarrow> delivery \<Rightarrow> delivery \<Rightarrow> tx_op list" where
  "resumeTransaction shards now current nxt =
     deliveryPut (d_tenantId current) (d_eventId current) (version_is (d_version current)) nxt
     # indexDeletes current @ indexPuts nxt @ [outboxPut shards (resumeOutbox current now)]"

definition resumable :: "resume_input \<Rightarrow> delivery \<Rightarrow> bool" where
  "resumable inp d \<longleftrightarrow> d_destinationId d = ru_destinationId inp
     \<and> d_blockedReason d = Some DESTINATION_DISABLED \<and> \<not> isTerminalDeliveryState (d_state d)"

definition resumeOne :: "'w dynamo \<Rightarrow> nat \<Rightarrow> resume_input \<Rightarrow> string \<Rightarrow> int \<Rightarrow> ('w, int) op" where
  "resumeOne db shards inp deliveryId resumed =
     bindM (getDelivery db (ru_tenantId inp) deliveryId) (\<lambda>found.
       case found of
         None \<Rightarrow> returnM resumed
       | Some current \<Rightarrow>
           if \<not> resumable inp current then returnM resumed
           else bindM (liftM (transitionDelivery current (resumeTransition (ru_now inp) current))) (\<lambda>nxt.
                bindM (db_write db (resumeTransaction shards (ru_now inp) current nxt)) (\<lambda>ok.
                returnM (if ok then resumed + 1 else resumed))))"

definition resumeDestination :: "'w dynamo \<Rightarrow> nat \<Rightarrow> resume_input \<Rightarrow> ('w, int) op" where
  "resumeDestination db shards inp =
     bindM (db_query db (in_delivery_index (ru_tenantId inp)
              (''DESTINATION#'' @ ru_destinationId inp)) (Some 100))
       (\<lambda>rows. withNow db (\<lambda>now.
          (let live = filter (\<lambda>it. \<not> isExpired it now) (map snd rows);
               ids = js_set (map di_deliveryId (List.map_filter as_delivery_index live))
           in foldM (resumeOne db shards inp) ids 0)))"

end
