(* ===== verification/Write_Safety.thy ===== *)
theory Write_Safety
  imports Event_Invariant Delivery_Store
begin

text \<open>
  Every writer of \<open>DynamoPersistence\<close> keeps the invariant of the table and evolves it safely, while
  any number of clients that do the same run beside it. For each transaction there is a lemma that
  its commit is safe; the operations follow with the rules of \<open>safe_table\<close>.
\<close>

section \<open>Commits\<close>

text \<open>\<open>advances x d\<close>: what every caller makes of a delivery that it has read.\<close>

definition advances :: "delivery \<Rightarrow> delivery \<Rightarrow> bool" where
  "advances x d \<longleftrightarrow> same_identity x d \<and> d_version x < d_version d \<and> lease_wf d
     \<and> d_state d \<noteq> Cancelled \<and> \<not> isTerminalDeliveryState (d_state x)"

lemma transition_advances:
  assumes "transitionDelivery x t = Inr d" and "program_transition t"
  shows "advances x d"
proof -
  from assms(1) have perm: "tr_to t \<in> set (permittedTransitions (d_state x))"
    and d: "d = applyTransition x t" by (auto simp: transitionDelivery_Inr)
  from perm have "tr_to t \<noteq> Cancelled" using permitted_never_cancelled by metis
  moreover have "delivery_wf d" using assms by (rule delivery_wf_transition)
  ultimately show ?thesis
    using d permitted_not_terminal [OF perm] by (simp add: advances_def delivery_wf_def)
qed

lemma advances_active [simp]: "advances x (d\<lparr>d_activeAttemptId := a\<rparr>) \<longleftrightarrow> advances x d"
  by (simp add: advances_def same_identity_def lease_wf_def)

lemma same_identity_keys:
  "same_identity x d \<Longrightarrow> d_deliveryId d = d_deliveryId x \<and> d_eventId d = d_eventId x
     \<and> d_tenantId d = d_tenantId x \<and> d_executionType d = d_executionType x \<and> d_expiresAt d = d_expiresAt x"
  by (simp add: same_identity_def)

lemma stored_delivery_id: "to_epoch (d_expiresAt d) = d_expiresAt d \<Longrightarrow> stored_delivery d = It_Delivery d"
  by (simp add: stored_delivery_def)

lemma advances_ok:
  "advances x d \<Longrightarrow> delivery_ok t e i x \<Longrightarrow> delivery_ok t e i d \<and> stored_delivery d = It_Delivery d"
  using same_identity_keys [of x d]
  by (auto simp: advances_def delivery_ok_def stored_delivery_def)

lemma terminal_not_Cancelled:
  "s \<noteq> Cancelled \<Longrightarrow> isTerminalDeliveryState s \<longleftrightarrow> s = Succeeded \<or> s = Failed_Terminal \<or> s = Dead_Lettered"
  by auto

lemma recount_keeps:
  assumes "advances x d" and "\<not> updatesOriginalEvent d"
  shows "recount c (Some x) d = c"
proof -
  from assms(1) have "d_executionType d = d_executionType x"
    and "\<not> isTerminalDeliveryState (d_state x)"
    by (auto simp: advances_def dest: same_identity_keys)
  with assms(2) show ?thesis
    by (cases c) (auto simp: recount_def counts_def one_if_def updatesOriginalEvent_def)
qed

lemma recount_terminal:
  assumes "advances x d" and "updatesOriginalEvent d"
  shows "recount c (Some x) d = countTerminal c (d_state d)"
proof -
  from assms(1) have "d_executionType d = d_executionType x"
    and "\<not> isTerminalDeliveryState (d_state x)"
    by (auto simp: advances_def dest: same_identity_keys)
  with assms(2) show ?thesis
    by (cases c)
       (auto simp: recount_def counts_def one_if_def updatesOriginalEvent_def countTerminal_def)
qed

lemma deriveEventStatus_kept: "event_ok s t e ev \<Longrightarrow> deriveEventStatus (ev_outcome ev) = Inr (ev_status ev)"
  by (simp add: event_ok_def)

lemma commit_at:
  "is_core k \<Longrightarrow> k \<notin> op_key ` set (core_writes ops) \<Longrightarrow> tx_apply ops s k = s k"
  by (subst tx_apply_core) (simp_all add: tx_apply_other)

lemma commit_core: "core_writes ops = ops' \<Longrightarrow> is_core k \<Longrightarrow> tx_apply ops s k = tx_apply ops' s k"
  by (subst tx_apply_core) simp_all

text \<open>A transaction that replaces one delivery and leaves the events alone.\<close>

lemma delivery_commit:
  assumes inv: "table_inv s" and seen: "seen s (K_Delivery t e i) (It_Delivery x)"
    and cond: "version_is (d_version x) (s (K_Delivery t e i))"
    and core: "core_writes ops = [put_op (K_Delivery t e i) c (stored_delivery d)]"
    and adv: "advances x d" and kept: "\<not> updatesOriginalEvent d"
  shows "safe s (tx_apply ops s)"
proof -
  have now: "s (K_Delivery t e i) = Some (It_Delivery x)" using seen cond by (rule seen_delivery_current)
  have ok: "delivery_ok t e i x" using seen inv by (rule seen_delivery_ok)
  note d = advances_ok [OF adv ok]
  obtain ev where ev: "s (K_Event t e) = Some (It_Event ev)"
    using table_inv_parent [OF inv now] table_inv_event [OF inv, of t e] by blast
  have status: "deriveEventStatus (ev_outcome ev) = Inr (ev_status ev)"
    using table_inv_event [OF inv ev] deriveEventStatus_kept by auto
  have "table_inv (tx_apply ops s) \<and> evolves s (tx_apply ops s)"
  proof (rule core_step [where t = t and e = e and d = i and ev = ev and ev' = ev and x' = d
        and routed = "oc_routingComplete (ev_outcome ev)"])
    show "table_inv s" by (rule inv)
    show "tx_apply ops s k = s k" if "is_core k" "k \<noteq> K_Event t e" "k \<noteq> K_Delivery t e i" for k
      using that by (simp add: commit_at core)
    show "s (K_Event t e) = Some (It_Event ev)" by (rule ev)
    show "tx_apply ops s (K_Event t e) = Some (It_Event ev)" by (simp add: commit_at core ev)
    show "tx_apply ops s (K_Delivery t e i) = Some (It_Delivery d)"
      by (simp add: commit_core [OF core] d)
    show "delivery_ok t e i d" using d by simp
    show "same_identity y d \<and> (d = y \<or> d_version y < d_version d)"
      if "s (K_Delivery t e i) = Some (It_Delivery y)" for y
      using that now adv by (simp add: advances_def)
    show "ev_outcome ev = (recount (ev_outcome ev) (as_delivery (s (K_Delivery t e i))) d)
        \<lparr>oc_routingComplete := oc_routingComplete (ev_outcome ev)\<rparr>"
      by (simp add: now recount_keeps [OF adv kept])
    show "deriveEventStatus (ev_outcome ev) = Inr (ev_status ev)" by (rule status)
  qed simp_all
  then show ?thesis using inv by (simp add: safeI)
qed

text \<open>A transaction that replaces one delivery by a terminal one, together with its event.\<close>

lemma delivery_event_commit:
  assumes inv: "table_inv s" and seen: "seen s (K_Delivery t e i) (It_Delivery x)"
    and cond: "version_is (d_version x) (s (K_Delivery t e i))"
    and seen_ev: "seen s (K_Event t e) (It_Event ev)"
    and cond_ev: "version_is (ev_version ev) (s (K_Event t e))"
    and core: "core_writes ops = [put_op (K_Delivery t e i) c (stored_delivery d),
        put_op (K_Event t e) c' (stored_event (withOutcome ev (countTerminal (ev_outcome ev) (d_state d)) st))]"
    and adv: "advances x d" and final: "updatesOriginalEvent d"
    and status: "deriveEventStatus (countTerminal (ev_outcome ev) (d_state d)) = Inr st"
  shows "safe s (tx_apply ops s)"
proof -
  let ?ev = "(withOutcome ev (countTerminal (ev_outcome ev) (d_state d)) st)
      \<lparr>ev_expiresAt := to_epoch (ev_expiresAt ev)\<rparr>"
  have now: "s (K_Delivery t e i) = Some (It_Delivery x)" using seen cond by (rule seen_delivery_current)
  have ev: "s (K_Event t e) = Some (It_Event ev)" using seen_ev cond_ev by (rule seen_event_current)
  have ok: "delivery_ok t e i x" using seen inv by (rule seen_delivery_ok)
  note d = advances_ok [OF adv ok]
  have "table_inv (tx_apply ops s) \<and> evolves s (tx_apply ops s)"
  proof (rule core_step [where t = t and e = e and d = i and ev = ev and ev' = ?ev and x' = d
        and routed = "oc_routingComplete (ev_outcome ev)"])
    show "table_inv s" by (rule inv)
    show "tx_apply ops s k = s k" if "is_core k" "k \<noteq> K_Event t e" "k \<noteq> K_Delivery t e i" for k
      using that by (simp add: commit_at core)
    show "s (K_Event t e) = Some (It_Event ev)" by (rule ev)
    show "tx_apply ops s (K_Event t e) = Some (It_Event ?ev)"
      by (simp add: commit_core [OF core] stored_event_def withOutcome_def)
    show "tx_apply ops s (K_Delivery t e i) = Some (It_Delivery d)"
      by (simp add: commit_core [OF core] d)
    show "delivery_ok t e i d" using d by simp
    show "same_identity y d \<and> (d = y \<or> d_version y < d_version d)"
      if "s (K_Delivery t e i) = Some (It_Delivery y)" for y
      using that now adv by (simp add: advances_def)
    show "ev_outcome ?ev = (recount (ev_outcome ev) (as_delivery (s (K_Delivery t e i))) d)
        \<lparr>oc_routingComplete := oc_routingComplete (ev_outcome ev)\<rparr>"
      by (simp add: now recount_terminal [OF adv final] countTerminal_def withOutcome_def)
    show "deriveEventStatus (ev_outcome ?ev) = Inr (ev_status ?ev)"
      using status by (simp add: withOutcome_def)
  qed (simp_all add: withOutcome_def)
  then show ?thesis using inv by (simp add: safeI)
qed

text \<open>A transaction that creates a delivery of a known event.\<close>

definition creatable :: "delivery \<Rightarrow> bool" where
  "creatable d \<longleftrightarrow> lease_wf d \<and> d_state d \<noteq> Cancelled"

lemma creatable_ok:
  "creatable d \<Longrightarrow> stored_delivery d = It_Delivery (d\<lparr>d_expiresAt := to_epoch (d_expiresAt d)\<rparr>)
     \<and> delivery_ok (d_tenantId d) (d_eventId d) (d_deliveryId d) (d\<lparr>d_expiresAt := to_epoch (d_expiresAt d)\<rparr>)"
  by (simp add: creatable_def stored_delivery_def delivery_ok_def lease_wf_def to_epoch_def)

lemma recount_created:
  "d_executionType d = ORIGINAL \<Longrightarrow> recount c None d = countCreated c (d_state d)"
  by (simp add: recount_def counts_def countCreated_def one_if_def)

lemma recount_replay: "d_executionType d = REPLAY \<Longrightarrow> recount c None d = c"
  by (cases c) (simp add: recount_def counts_def one_if_def)

lemma recount_expiry [simp]: "recount c x (d\<lparr>d_expiresAt := ex\<rparr>) = recount c x d"
  by (simp add: recount_def counts_def)

lemma create_commit:
  assumes inv: "table_inv s" and new: "s (K_Delivery t (d_eventId d) (d_deliveryId d)) = None"
    and d: "creatable d" "d_tenantId d = t" "d_executionType d = ORIGINAL"
    and seen_ev: "seen s (K_Event t (d_eventId d)) (It_Event ev)"
    and cond_ev: "version_is (ev_version ev) (s (K_Event t (d_eventId d)))"
    and core: "core_writes ops = [put_op (K_Delivery t (d_eventId d) (d_deliveryId d)) c (stored_delivery d),
        put_op (K_Event t (d_eventId d)) c'
          (stored_event (withOutcome ev (countCreated (ev_outcome ev) (d_state d)) st))]"
    and status: "deriveEventStatus (countCreated (ev_outcome ev) (d_state d)) = Inr st"
  shows "safe s (tx_apply ops s)"
proof -
  let ?e = "d_eventId d" and ?i = "d_deliveryId d"
  let ?d = "d\<lparr>d_expiresAt := to_epoch (d_expiresAt d)\<rparr>"
  let ?ev = "(withOutcome ev (countCreated (ev_outcome ev) (d_state d)) st)
      \<lparr>ev_expiresAt := to_epoch (ev_expiresAt ev)\<rparr>"
  have ev: "s (K_Event t ?e) = Some (It_Event ev)" using seen_ev cond_ev by (rule seen_event_current)
  note ok = creatable_ok [OF d(1), unfolded d(2)]
  have "table_inv (tx_apply ops s) \<and> evolves s (tx_apply ops s)"
  proof (rule core_step [where t = t and e = ?e and d = ?i and ev = ev and ev' = ?ev and x' = ?d
        and routed = "oc_routingComplete (ev_outcome ev)"])
    show "table_inv s" by (rule inv)
    show "tx_apply ops s k = s k" if "is_core k" "k \<noteq> K_Event t ?e" "k \<noteq> K_Delivery t ?e ?i" for k
      using that by (simp add: commit_at core)
    show "s (K_Event t ?e) = Some (It_Event ev)" by (rule ev)
    show "tx_apply ops s (K_Event t ?e) = Some (It_Event ?ev)"
      by (simp add: commit_core [OF core] stored_event_def withOutcome_def)
    show "tx_apply ops s (K_Delivery t ?e ?i) = Some (It_Delivery ?d)"
      by (simp add: commit_core [OF core] ok)
    show "delivery_ok t ?e ?i ?d" using ok by simp
    show "ev_outcome ?ev = (recount (ev_outcome ev) (as_delivery (s (K_Delivery t ?e ?i))) ?d)
        \<lparr>oc_routingComplete := oc_routingComplete (ev_outcome ev)\<rparr>"
      by (simp add: new recount_created [OF d(3)] countCreated_def withOutcome_def)
    show "deriveEventStatus (ev_outcome ?ev) = Inr (ev_status ?ev)"
      using status by (simp add: withOutcome_def)
  qed (simp_all add: withOutcome_def new)
  then show ?thesis using inv by (simp add: safeI)
qed

lemma create_replay_commit:
  assumes inv: "table_inv s" and new: "s (K_Delivery t (d_eventId d) (d_deliveryId d)) = None"
    and d: "creatable d" "d_tenantId d = t" "d_executionType d = REPLAY"
    and seen_ev: "seen s (K_Event t (d_eventId d)) it"
    and core: "core_writes ops = [put_op (K_Delivery t (d_eventId d) (d_deliveryId d)) c (stored_delivery d)]"
  shows "safe s (tx_apply ops s)"
proof -
  let ?e = "d_eventId d" and ?i = "d_deliveryId d"
  let ?d = "d\<lparr>d_expiresAt := to_epoch (d_expiresAt d)\<rparr>"
  from seen_ev obtain s0 where s0: "safe s0 s" "s0 (K_Event t ?e) = Some it" by (auto simp: seen_def)
  obtain ev0 where "it = It_Event ev0"
    using table_inv_event [OF safe_inv_back [OF s0(1) inv] s0(2)] by blast
  moreover have "evolves_item (s0 (K_Event t ?e)) (s (K_Event t ?e))"
    using safe_evolves [OF s0(1)] unfolding evolves_def by simp
  ultimately obtain ev where ev: "s (K_Event t ?e) = Some (It_Event ev)" using s0(2) by auto
  note ok = creatable_ok [OF d(1), unfolded d(2)]
  have status: "deriveEventStatus (ev_outcome ev) = Inr (ev_status ev)"
    using table_inv_event [OF inv ev] deriveEventStatus_kept by auto
  have "table_inv (tx_apply ops s) \<and> evolves s (tx_apply ops s)"
  proof (rule core_step [where t = t and e = ?e and d = ?i and ev = ev and ev' = ev and x' = ?d
        and routed = "oc_routingComplete (ev_outcome ev)"])
    show "table_inv s" by (rule inv)
    show "tx_apply ops s k = s k" if "is_core k" "k \<noteq> K_Event t ?e" "k \<noteq> K_Delivery t ?e ?i" for k
      using that by (simp add: commit_at core)
    show "s (K_Event t ?e) = Some (It_Event ev)" by (rule ev)
    show "tx_apply ops s (K_Event t ?e) = Some (It_Event ev)" by (simp add: commit_at core ev)
    show "tx_apply ops s (K_Delivery t ?e ?i) = Some (It_Delivery ?d)"
      by (simp add: commit_core [OF core] ok)
    show "delivery_ok t ?e ?i ?d" using ok by simp
    show "ev_outcome ev = (recount (ev_outcome ev) (as_delivery (s (K_Delivery t ?e ?i))) ?d)
        \<lparr>oc_routingComplete := oc_routingComplete (ev_outcome ev)\<rparr>"
      by (simp add: new recount_replay [OF d(3)])
    show "deriveEventStatus (ev_outcome ev) = Inr (ev_status ev)" by (rule status)
  qed (simp_all add: new)
  then show ?thesis using inv by (simp add: safeI)
qed

text \<open>A transaction that completes the routing of an event, and one that creates an event.\<close>

lemma complete_commit:
  assumes inv: "table_inv s" and seen_ev: "seen s (K_Event t e) (It_Event ev)"
    and cond_ev: "version_is (ev_version ev) (s (K_Event t e))"
    and core: "core_writes ops = [put_op (K_Event t e) c'
          (stored_event (withOutcome ev ((ev_outcome ev)\<lparr>oc_routingComplete := True\<rparr>) st))]"
    and status: "deriveEventStatus ((ev_outcome ev)\<lparr>oc_routingComplete := True\<rparr>) = Inr st"
  shows "safe s (tx_apply ops s)"
proof -
  let ?ev = "(withOutcome ev ((ev_outcome ev)\<lparr>oc_routingComplete := True\<rparr>) st)
      \<lparr>ev_expiresAt := to_epoch (ev_expiresAt ev)\<rparr>"
  have ev: "s (K_Event t e) = Some (It_Event ev)" using seen_ev cond_ev by (rule seen_event_current)
  have ok: "event_ok s t e ev" using table_inv_event [OF inv ev] by simp
  have oc: "ev_outcome ev = observed_counters s t e (oc_routingComplete (ev_outcome ev))"
    using ok by (simp add: event_ok_def)
  have ok': "event_ok s t e ?ev"
    using ok status by (subst event_ok_def, subst (asm) event_ok_def)
      (auto simp: withOutcome_def observed_counters_def dest: arg_cong [where f = "\<lambda>c. c\<lparr>oc_routingComplete := True\<rparr>"])
  have "table_inv (tx_apply ops s) \<and> evolves s (tx_apply ops s)"
  proof (rule event_step [OF inv _ _ ok'])
    show "tx_apply ops s k = s k" if "is_core k" "k \<noteq> K_Event t e" for k
      using that by (simp add: commit_at core)
    show "tx_apply ops s (K_Event t e) = Some (It_Event ?ev)"
      by (simp add: commit_core [OF core] stored_event_def withOutcome_def)
  qed (simp add: ev withOutcome_def)
  then show ?thesis using inv by (simp add: safeI)
qed

definition fresh_event :: "canonical_event \<Rightarrow> bool" where
  "fresh_event e \<longleftrightarrow> ev_status e = Ev_Accepted \<and> ev_outcome e =
     \<lparr>oc_routingComplete = False, oc_totalDeliveries = 0, oc_terminalDeliveries = 0,
      oc_successfulDeliveries = 0, oc_failedTerminalDeliveries = 0, oc_deadLetteredDeliveries = 0\<rparr>"

lemma accept_commit:
  assumes inv: "table_inv s" and new: "s (K_Event t (ev_eventId ev)) = None"
    and core: "core_writes ops = [put_op (K_Event t (ev_eventId ev)) c (stored_event ev)]"
    and fresh: "fresh_event ev" "ev_tenantId ev = t"
  shows "safe s (tx_apply ops s)"
proof -
  let ?ev = "ev\<lparr>ev_expiresAt := to_epoch (ev_expiresAt ev)\<rparr>"
  have none: "s (K_Delivery t (ev_eventId ev) d) = None" for d
    using table_inv_parent [OF inv, of t "ev_eventId ev" d] new by (cases "s (K_Delivery t (ev_eventId ev) d)") auto
  then have empty: "originals s t (ev_eventId ev) P = {}" for P by (simp add: originals_def)
  have ok: "event_ok s t (ev_eventId ev) ?ev"
    using fresh
    by (simp add: event_ok_def fresh_event_def observed_counters_def tally_def empty
        deriveEventStatus_def counters_inconsistent_def throw_if_def)
  have "table_inv (tx_apply ops s) \<and> evolves s (tx_apply ops s)"
  proof (rule event_step [OF inv _ _ ok])
    show "tx_apply ops s k = s k" if "is_core k" "k \<noteq> K_Event t (ev_eventId ev)" for k
      using that by (simp add: commit_at core)
    show "tx_apply ops s (K_Event t (ev_eventId ev)) = Some (It_Event ?ev)"
      by (simp add: commit_core [OF core] stored_event_def)
  qed (simp add: new)
  then show ?thesis using inv by (simp add: safeI)
qed

section \<open>The core writes of each transaction\<close>

lemma not_core_keys [simp]:
  "\<not> is_core (historyKey t e h)" "\<not> is_core (attemptKey t e a)"
  by (simp_all add: historyKey_def attemptKey_def)

lemma core_accept:
  "core_writes (acceptTransaction shards inp now) =
     [put_op (K_Event (cx_tenantId (ac_context inp)) (ev_eventId (ac_event inp))) attribute_not_exists_PK
        (stored_event (ac_event inp))]"
  by (simp add: acceptTransaction_def Let_def eventIndexPut_def guardKey_def put_new_def)

lemma core_createRollups [simp]: "core_writes (createRollups t d) = []"
  by (simp add: createRollups_def Let_def)

lemma core_create:
  "ev_eventId updated = d_eventId (cr_delivery inp) \<Longrightarrow>
   core_writes (createTransaction shards inp event updated) =
     [put_op (K_Delivery (cx_tenantId (cr_context inp)) (d_eventId (cr_delivery inp))
         (d_deliveryId (cr_delivery inp))) attribute_not_exists_PK (stored_delivery (cr_delivery inp)),
      put_op (K_Event (cx_tenantId (cr_context inp)) (d_eventId (cr_delivery inp)))
        (version_is (ev_version event)) (stored_event updated)]"
  by (cases "cr_outbox inp") (simp_all add: createTransaction_def Let_def eventPut_def put_new_def)

lemma core_complete:
  "ev_eventId updated = e \<Longrightarrow> core_writes (completeTransaction t event updated) =
     [put_op (K_Event t e) (version_is (ev_version event)) (stored_event updated)]"
  by (simp add: completeTransaction_def eventPut_def)

lemma core_lease:
  "core_writes (leaseTransaction q now current leased) =
     [put_op (K_Delivery (lq_tenantId q) (lq_eventId q) (lq_deliveryId q))
       (delivery_cond (lq_expectedVersion q)
          (\<lambda>d. d_state d \<in> set leasable_states \<and> eligible_by now d))
       (stored_delivery leased)]"
  by (simp add: leaseTransaction_def)

lemma core_start:
  "core_writes (startTransaction inp token) =
     [put_op (K_Delivery (st_tenantId inp) (st_eventId inp) (d_deliveryId (st_delivery inp)))
        (delivery_cond (st_expectedVersion inp)
           (\<lambda>d. d_leaseToken d = Some token \<and> d_activeAttemptId d = None))
        (stored_delivery (startedDelivery inp))]"
  by (simp add: startTransaction_def deliveryPut_def startedDelivery_def)

lemma core_circuitPut [simp]: "\<not> is_core (op_key (circuitPut t d c))"
  by (simp add: circuitPut_def)

lemma core_finalize:
  "core_writes (finalizeTransaction shards inp current event updated) =
     put_op (K_Delivery (fi_tenantId inp) (fi_eventId inp) (d_deliveryId (fi_delivery inp)))
         (delivery_cond (fi_expectedVersion inp)
            (\<lambda>x. d_leaseToken x = Some (fi_leaseToken inp)
               \<and> d_activeAttemptId x = Some (at_attemptId (fi_attempt inp))))
         (stored_delivery ((fi_delivery inp)\<lparr>d_activeAttemptId := None\<rparr>))
     # (if updatesOriginalEvent (fi_delivery inp)
        then [put_op (K_Event (fi_tenantId inp) (fi_eventId inp)) (version_is (ev_version event))
                (stored_event updated)] else [])"
  by (cases "fi_outbox inp"; cases "fi_circuit inp")
     (simp_all add: finalizeTransaction_def Let_def deliveryPut_def)

lemma core_success:
  "core_writes (successTransaction inp token current event updated) =
     [put_op (K_Delivery (fs_tenantId inp) (fs_eventId inp) (d_deliveryId (fs_delivery inp)))
        (delivery_cond (fs_expectedVersion inp) (\<lambda>x. d_leaseToken x = Some token))
        (stored_delivery (fs_delivery inp)),
      put_op (K_Event (fs_tenantId inp) (fs_eventId inp)) (version_is (ev_version event))
        (stored_event updated)]"
  by (simp add: successTransaction_def Let_def deliveryPut_def)

lemma core_defer:
  "core_writes (deferTransaction shards inp current) =
     [put_op (K_Delivery (df_tenantId inp) (df_eventId inp) (d_deliveryId (df_delivery inp)))
        (delivery_cond (df_expectedVersion inp) (\<lambda>x. d_leaseToken x = Some (df_leaseToken inp)))
        (stored_delivery (df_delivery inp))]"
  by (simp add: deferTransaction_def deliveryPut_def)

lemma core_resume:
  "core_writes (resumeTransaction shards now current nxt) =
     [put_op (K_Delivery (d_tenantId current) (d_eventId current) (d_deliveryId nxt))
        (version_is (d_version current)) (stored_delivery nxt)]"
  by (simp add: resumeTransaction_def deliveryPut_def)

lemma delivery_cond_version: "delivery_cond v P old \<Longrightarrow> version_is v old"
  by (simp add: delivery_cond_def)

lemma tx_ok_core: "tx_ok ops s \<Longrightarrow> tx_conditions (core_writes ops) s"
  by (auto simp: tx_ok_def tx_conditions_def core_writes_def list_all_iff)

section \<open>Operations on events\<close>

context safe_table
begin

lemma write_then:
  assumes "stable safe R" and "\<And>u. R u \<Longrightarrow> P u"
    and "\<And>u. R u \<Longrightarrow> tx_ok ops u \<Longrightarrow> safe u (tx_apply ops u)"
    and "\<And>b. hoare view R (g b) (\<lambda>_. P) P"
  shows "hoare view R (bindM (db_write db ops) g) (\<lambda>_. P) P"
  by (rule hoare_bind [where R = "\<lambda>_. R"],
      rule hoare_weaken [OF hoare_safe_write [OF assms(1,3)]]) (use assms in auto)

lemma last_write:
  assumes "stable safe R" and "\<And>u. R u \<Longrightarrow> P u"
    and "\<And>u. R u \<Longrightarrow> tx_ok ops u \<Longrightarrow> safe u (tx_apply ops u)"
  shows "hoare view R (db_write db ops) (\<lambda>_. P) P"
  by (rule hoare_weaken [OF hoare_safe_write [OF assms(1,3)]]) (use assms in auto)

lemma return_keeps: "(\<And>u. R u \<Longrightarrow> P u) \<Longrightarrow> hoare view R (returnM a) (\<lambda>_. P) P"
  by (rule hoare_return)

lemma throw_keeps: "(\<And>u. R u \<Longrightarrow> P u) \<Longrightarrow> hoare view R (throwM e) (\<lambda>_. P) P"
  by (rule hoare_throw)

lemma lift_then:
  assumes "\<And>u. R u \<Longrightarrow> P u" and "\<And>a. r = Inr a \<Longrightarrow> hoare view R (f a) (\<lambda>_. P) P"
  shows "hoare view R (bindM (liftM r) f) (\<lambda>_. P) P"
  using assms by (rule hoare_lift_bind)

lemma retry_keeps:
  assumes "hoare view P body (\<lambda>_. P) P" and "hoare view P final (\<lambda>_. P) P"
  shows "hoare view P (retryM n body final) (\<lambda>_. P) P"
  by (rule hoare_retry) (rule hoare_weaken [OF assms(1)], auto intro: assms(2) split: option.splits)

lemma read_then:
  assumes R: "stable safe R" and RP: "\<And>u. R u \<Longrightarrow> E u" and f: "f None = None"
    and none: "hoare view R (g None) Q E"
    and some: "\<And>a it. f (Some it) = Some a \<Longrightarrow>
       hoare view (\<lambda>u. R u \<and> seen u k it) (g (Some a)) Q E"
  shows "hoare view R (bindM (mapM f (getCore db k)) g) Q E"
proof (rule hoare_bind)
  show "hoare view R (mapM f (getCore db k))
      (\<lambda>r u. R u \<and> (\<forall>a. r = Some a \<longrightarrow> (\<exists>it. f (Some it) = Some a \<and> seen u k it))) E"
    by (rule hoare_weaken [OF hoare_core [OF R]]) (use f RP in auto)
  show "hoare view (\<lambda>u. R u \<and> (\<forall>a. r = Some a \<longrightarrow> (\<exists>it. f (Some it) = Some a \<and> seen u k it)))
      (g r) Q E" for r
  proof (cases r)
    case None
    with none show ?thesis by simp
  next
    case (Some a)
    show ?thesis
      unfolding hoare_def
    proof (intro allI impI)
      fix w
      assume "R (view w) \<and> (\<forall>a. r = Some a \<longrightarrow> (\<exists>it. f (Some it) = Some a \<and> seen (view w) k it))"
      then obtain it where "f (Some it) = Some a" "R (view w) \<and> seen (view w) k it" using Some by auto
      with some [of it a] Some
      show "case g r w of (Inr a, w') \<Rightarrow> Q a (view w') | (Inl e, w') \<Rightarrow> E (view w')"
        by (simp add: hoare_def)
    qed
  qed
qed

lemma event_then:
  assumes "stable safe R" and "\<And>u. R u \<Longrightarrow> P u" and "hoare view R (g None) (\<lambda>_. P) P"
    and some: "\<And>ev. hoare view (\<lambda>u. R u \<and> seen u (K_Event t e) (It_Event ev)) (g (Some ev)) (\<lambda>_. P) P"
  shows "hoare view R (bindM (getEvent db t e) g) (\<lambda>_. P) P"
  unfolding getEvent_def
  by (rule read_then [OF assms(1,2)]) (use assms(3) some in \<open>auto simp: as_event_Some\<close>)

lemma delivery_then:
  assumes "stable safe R" and "\<And>u. R u \<Longrightarrow> E u" and "hoare view R (g None) Q E"
    and some: "\<And>x. hoare view (\<lambda>u. R u \<and> seen u (K_Delivery t e d) (It_Delivery x)) (g (Some x)) Q E"
  shows "hoare view R (bindM (getDeliveryAt db t e d) g) Q E"
  unfolding getDeliveryAt_def
  by (rule read_then [OF assms(1,2)]) (use assms(3) some in \<open>auto simp: as_delivery_Some\<close>)

lemma lookup_then:
  assumes "stable safe R" and "\<And>u. R u \<Longrightarrow> P u" and f: "f None = None"
    and any: "\<And>r. hoare view R (g r) (\<lambda>_. P) P"
  shows "hoare view R (bindM (mapM f (getCore db k)) g) (\<lambda>_. P) P"
  by (rule read_then [OF assms(1,2)]) (use f any in \<open>auto intro: hoare_weaken\<close>)

lemma bind_assoc: "bindM (bindM m f) g = bindM m (\<lambda>a. bindM (f a) g)"
  by (auto simp: bindM_def fun_eq_iff split: prod.splits sum.splits)

lemma bind_return: "bindM (returnM a) f = f a"
  by (auto simp: bindM_def returnM_def fun_eq_iff)

text \<open>\<open>getDelivery\<close> goes through the lookup row; the delivery it finds has the identifier asked for.\<close>

lemma find_delivery_then:
  assumes R: "stable safe R" and RP: "\<And>u. R u \<Longrightarrow> P u" and inv: "\<And>u. R u \<Longrightarrow> table_inv u"
    and none: "hoare view R (g None) (\<lambda>_. P) P"
    and some: "\<And>x. d_deliveryId x = d \<Longrightarrow>
       hoare view (\<lambda>u. R u \<and> seen u (K_Delivery t (d_eventId x) d) (It_Delivery x))
         (g (Some x)) (\<lambda>_. P) P"
  shows "hoare view R (bindM (getDelivery db t d) g) (\<lambda>_. P) P"
  unfolding getDelivery_def bind_assoc
proof (rule lookup_then [OF R RP])
  fix r
  show "hoare view R (bindM (case r of None \<Rightarrow> returnM None
      | Some eventId \<Rightarrow> mapM as_delivery (getCore db (K_Delivery t eventId d))) g) (\<lambda>_. P) P"
  proof (cases r)
    case None
    with none show ?thesis by (simp add: bind_return)
  next
    case (Some e)
    have "hoare view R (bindM (mapM as_delivery (getCore db (K_Delivery t e d))) g) (\<lambda>_. P) P"
    proof (rule read_then [OF R RP])
      fix x it
      assume "as_delivery (Some it) = Some x"
      then have it: "it = It_Delivery x" by (simp add: as_delivery_Some)
      show "hoare view (\<lambda>u. R u \<and> seen u (K_Delivery t e d) it) (g (Some x)) (\<lambda>_. P) P"
      proof (cases "d_deliveryId x = d \<and> d_eventId x = e")
        case True
        with some it show ?thesis by auto
      next
        case False
        have "\<not> (R u \<and> seen u (K_Delivery t e d) it)" for u
          using seen_delivery_ok [of u t e d x] inv [of u] False it by (auto simp: delivery_ok_def)
        then show ?thesis by (auto simp: hoare_def)
      qed
    qed (use none in auto)
    with Some show ?thesis by simp
  qed
qed simp_all

text \<open>The operations.\<close>

lemma completeRouting_keeps:
  "hoare view (since s0) (completeRouting db t e) (\<lambda>_. since s0) (since s0)"
  unfolding completeRouting_def
proof (rule retry_keeps)
  have commit: "safe u (tx_apply (completeTransaction t ev (withOutcome ev ((ev_outcome ev)\<lparr>oc_routingComplete := True\<rparr>) st)) u)"
    if u: "since s0 u \<and> seen u (K_Event t e) (It_Event ev)"
      and st: "deriveEventStatus ((ev_outcome ev)\<lparr>oc_routingComplete := True\<rparr>) = Inr st"
      and ok: "tx_ok (completeTransaction t ev (withOutcome ev ((ev_outcome ev)\<lparr>oc_routingComplete := True\<rparr>) st)) u"
    for u ev st
  proof -
    note inv = since_inv [OF conjunct1 [OF u]]
    have "ev_eventId (withOutcome ev ((ev_outcome ev)\<lparr>oc_routingComplete := True\<rparr>) st) = e"
      using seen_event_id [OF conjunct2 [OF u] inv] by (simp add: withOutcome_def)
    note core = core_complete [OF this, of t ev]
    show ?thesis
      using tx_ok_core [OF ok] by (intro complete_commit [OF inv conjunct2 [OF u] _ core st]) (simp add: core)
  qed
  show "hoare view (since s0) (completeRoutingRound db t e) (\<lambda>_. since s0) (since s0)"
    unfolding completeRoutingRound_def Let_def
    by (intro event_then stable_since)
       (auto intro!: return_keeps lift_then write_then stable_conj stable_since stable_seen commit)
qed (auto intro: throw_keeps)

end

end
