(* ===== verification/Table_Safety.thy ===== *)
theory Table_Safety
  imports Write_Safety
begin

text \<open>
  The operations on events and deliveries are safe as a whole: whatever other safe clients do between
  two of their calls, the table moves from one that satisfies the invariant to one that does, and
  every event and delivery evolves to a higher version or stays as it is.
\<close>

section \<open>Operations\<close>

context safe_table
begin

lemmas keeps_intros = return_keeps throw_keeps lift_then write_then last_write stable_conj
  stable_since stable_seen

lemma plain_operation_safe:
  assumes "\<And>s0. hoare view (since s0) m (\<lambda>_. since s0) (since s0)" and "table_inv (view w)"
  shows "safe (view w) (view (snd (m w))) \<and> table_inv (view (snd (m w)))"
  using operation_safe [where C = "\<lambda>_. True" and m = m and w = w] assms by simp

lemma answerFromGuard_keeps:
  "hoare view (since s0) (answerFromGuard db inp g) (\<lambda>_. since s0) (since s0)"
  unfolding answerFromGuard_def
  by (auto intro!: keeps_intros event_then split: option.splits)

lemma accept_keeps:
  assumes fresh: "fresh_event (ac_event inp)"
      "ev_tenantId (ac_event inp) = cx_tenantId (ac_context inp)"
  shows "hoare view (since s0) (accept db shards inp) (\<lambda>_. since s0) (since s0)"
proof -
  have commit: "safe u (tx_apply (acceptTransaction shards inp now) u)"
    if u: "since s0 u" and ok: "tx_ok (acceptTransaction shards inp now) u" for u now
    using tx_ok_core [OF ok]
    by (intro accept_commit [OF since_inv [OF u] _ core_accept fresh]) (simp add: core_accept)
  have writes: "hoare view (since s0) (withNow db (\<lambda>now. db_write db (acceptTransaction shards inp now)))
      (\<lambda>_. since s0) (since s0)"
    by (auto intro!: hoare_withNow last_write stable_since commit)
  have again: "hoare view (since s0)
      (bindM (mapM as_guard (getCore db (guardKey inp))) (answerFromGuard db inp)) (\<lambda>_. since s0) (since s0)"
    by (intro lookup_then stable_since answerFromGuard_keeps) auto
  show ?thesis
    unfolding accept_def
  proof (intro lookup_then stable_since)
    fix r
    show "hoare view (since s0)
        (if r \<noteq> None then answerFromGuard db inp r
         else bindM (withNow db (\<lambda>now. db_write db (acceptTransaction shards inp now))) (\<lambda>ok.
              if ok then returnM (Accepted (ac_event inp))
              else bindM (mapM as_guard (getCore db (guardKey inp))) (answerFromGuard db inp)))
        (\<lambda>_. since s0) (since s0)"
      using answerFromGuard_keeps again
      by (auto intro!: hoare_bind [OF writes] return_keeps)
  qed auto
qed

lemma createDelivery_keeps:
  assumes d: "creatable (cr_delivery inp)" "d_tenantId (cr_delivery inp) = cx_tenantId (cr_context inp)"
      "d_executionType (cr_delivery inp) = ORIGINAL"
  shows "hoare view (since s0) (createDelivery db shards inp) (\<lambda>_. since s0) (since s0)"
proof -
  let ?t = "cx_tenantId (cr_context inp)" and ?d = "cr_delivery inp"
  have commit: "safe u (tx_apply (createTransaction shards inp ev (withOutcome ev oc st)) u)"
    if u: "since s0 u \<and> seen u (K_Event ?t (d_eventId ?d)) (It_Event ev)"
      and oc: "oc = countCreated (ev_outcome ev) (d_state ?d)" and st: "deriveEventStatus oc = Inr st"
      and ok: "tx_ok (createTransaction shards inp ev (withOutcome ev oc st)) u"
    for u ev oc st
  proof -
    note inv = since_inv [OF conjunct1 [OF u]]
    have "ev_eventId (withOutcome ev oc st) = d_eventId ?d"
      using seen_event_id [OF conjunct2 [OF u] inv] by (simp add: withOutcome_def)
    note core = core_create [OF this, of shards ev]
    show ?thesis
      using tx_ok_core [OF ok] st
      by (intro create_commit [OF inv _ d conjunct2 [OF u] _ core [unfolded oc], folded oc])
         (simp_all add: core)
  qed
  show ?thesis
    unfolding createDelivery_def
  proof (rule retry_keeps)
    show "hoare view (since s0) (createDeliveryRound db shards inp) (\<lambda>_. since s0) (since s0)"
      unfolding createDeliveryRound_def Let_def
      by (intro lookup_then stable_since)
         (auto intro!: event_then keeps_intros commit)
  qed (auto intro: throw_keeps)
qed

text \<open>The caller of a writer has read the delivery \<open>x\<close> and passes what it has made of it.\<close>

lemma delivery_commit_checked:
  assumes u: "since s0 u" "seen u (K_Delivery t e i) (It_Delivery x)" and ok: "tx_ok ops u"
    and core: "core_writes ops = [put_op (K_Delivery t e i) (delivery_cond (d_version x) Q) (stored_delivery d)]"
    and d: "advances x d" "\<not> updatesOriginalEvent d"
  shows "safe u (tx_apply ops u)"
  using tx_ok_core [OF ok]
  by (intro delivery_commit [OF since_inv [OF u(1)] u(2) _ core d])
     (simp add: core delivery_cond_version)

lemma acquireLease_keeps:
  "hoare view (since s0) (acquireLease db q) (\<lambda>_. since s0) (since s0)"
proof -
  have commit: "safe u (tx_apply (leaseTransaction q now x leased) u)"
    if u: "since s0 u \<and> seen u (K_Delivery (lq_tenantId q) (lq_eventId q) (lq_deliveryId q)) (It_Delivery x)"
      and le: "leasable q now x" and tr: "transitionDelivery x (leaseTransition q now) = Inr leased"
      and ok: "tx_ok (leaseTransaction q now x leased) u" for u now x leased
  proof (rule delivery_commit_checked [OF conjunct1 [OF u] conjunct2 [OF u] ok])
    show "advances x leased"
      by (rule transition_advances [OF tr]) (simp add: leaseTransition_def program_transition_def)
    show "\<not> updatesOriginalEvent leased"
      using tr by (auto simp: transitionDelivery_Inr leaseTransition_def updatesOriginalEvent_def)
  qed (use le in \<open>auto simp: core_lease leasable_def\<close>)
  show ?thesis
    unfolding acquireLease_def Let_def
    by (intro delivery_then stable_since) (auto intro!: hoare_withNow keeps_intros commit)
qed

lemma startAttempt_keeps:
  assumes x: "x = st_delivery inp" "d_version x = st_expectedVersion inp"
    and k: "k = K_Delivery (st_tenantId inp) (st_eventId inp) (d_deliveryId x)"
  shows "hoare view (\<lambda>u. since s0 u \<and> seen u k (It_Delivery x)) (startAttempt db inp)
    (\<lambda>_ u. since s0 u \<and> seen u k (It_Delivery x)) (\<lambda>u. since s0 u \<and> seen u k (It_Delivery x))"
proof -
  have commit: "safe u (tx_apply (startTransaction inp token) u)"
    if u: "since s0 u \<and> seen u k (It_Delivery x)" and tok: "d_leaseToken x = Some token"
      and ok: "tx_ok (startTransaction inp token) u" for u token
  proof (rule delivery_commit_checked [OF conjunct1 [OF u] conjunct2 [OF u, unfolded k] ok])
    have "delivery_ok (st_tenantId inp) (st_eventId inp) (d_deliveryId x) x"
      using seen_delivery_ok [OF conjunct2 [OF u, unfolded k] since_inv [OF conjunct1 [OF u]]] .
    then have "lease_wf x" and "d_state x = In_Progress"
      using tok by (auto simp: delivery_ok_def lease_wf_def)
    then show "advances x (startedDelivery inp)" "\<not> updatesOriginalEvent (startedDelivery inp)"
      using x by (auto simp: advances_def startedDelivery_def same_identity_def lease_wf_def
          updatesOriginalEvent_def)
  qed (use x in \<open>auto simp: core_start\<close>)
  show ?thesis
    unfolding startAttempt_def
    by (cases "d_leaseToken x")
       (auto simp: x(1) [symmetric] intro!: keeps_intros commit)
qed

lemma finalizeAttempt_keeps:
  assumes x: "advances x (fi_delivery inp)" "d_version x = fi_expectedVersion inp"
    and k: "k = K_Delivery (fi_tenantId inp) (fi_eventId inp) (d_deliveryId (fi_delivery inp))"
  shows "hoare view (\<lambda>u. since s0 u \<and> seen u k (It_Delivery x)) (finalizeAttempt db shards inp)
    (\<lambda>_ u. since s0 u \<and> seen u k (It_Delivery x)) (\<lambda>u. since s0 u \<and> seen u k (It_Delivery x))"
proof -
  let ?P = "\<lambda>u. since s0 u \<and> seen u k (It_Delivery x)"
  let ?d = "fi_delivery inp"
  have P: "stable safe ?P" by (intro stable_conj stable_since stable_seen)
  have commit: "safe u (tx_apply (finalizeTransaction shards inp c ev updated) u)"
    if u: "?P u \<and> seen u (K_Event (fi_tenantId inp) (fi_eventId inp)) (It_Event ev)"
      and upd: "finalizedEvent ?d ev = Inr updated"
      and ok: "tx_ok (finalizeTransaction shards inp c ev updated) u" for u c ev updated
  proof -
    from u have u1: "since s0 u" and u2: "seen u k (It_Delivery x)"
      and u3: "seen u (K_Event (fi_tenantId inp) (fi_eventId inp)) (It_Event ev)" by auto
    note core = core_finalize [of shards inp c ev updated]
    have adv: "advances x (?d\<lparr>d_activeAttemptId := None\<rparr>)" using x by simp
    show ?thesis
    proof (cases "updatesOriginalEvent ?d")
      case False
      then show ?thesis
        using core x(2)
        by (intro delivery_commit_checked [OF u1 u2 [unfolded k] ok _ adv])
           (auto simp: updatesOriginalEvent_def)
    next
      case True
      with upd obtain st where st: "deriveEventStatus (countTerminal (ev_outcome ev) (d_state ?d)) = Inr st"
        and updated: "updated = withOutcome ev (countTerminal (ev_outcome ev) (d_state ?d)) st"
        by (auto simp: finalizedEvent_def Let_def split: sum.splits)
      have conds: "tx_conditions (core_writes (finalizeTransaction shards inp c ev updated)) u"
        using ok by (rule tx_ok_core)
      show ?thesis
      proof (rule delivery_event_commit [OF since_inv [OF u1] u2 [unfolded k] _ u3])
        show "version_is (d_version x) (u (K_Delivery (fi_tenantId inp) (fi_eventId inp) (d_deliveryId ?d)))"
          using conds x(2) True by (auto simp: core dest: delivery_cond_version)
        show "version_is (ev_version ev) (u (K_Event (fi_tenantId inp) (fi_eventId inp)))"
          using conds True by (simp add: core)
        show "advances x (?d\<lparr>d_activeAttemptId := None\<rparr>)" by (rule adv)
        show "updatesOriginalEvent (?d\<lparr>d_activeAttemptId := None\<rparr>)"
          using True by (simp add: updatesOriginalEvent_def)
        show "deriveEventStatus (countTerminal (ev_outcome ev) (d_state (?d\<lparr>d_activeAttemptId := None\<rparr>)))
            = Inr st" using st by simp
      qed (use True updated core in simp)
    qed
  qed
  show ?thesis
    unfolding finalizeAttempt_def
  proof (rule retry_keeps)
    have step: "hoare view (\<lambda>u. since s0 u \<and> seen u k (It_Delivery x) \<and> seen u kc (It_Delivery c)
        \<and> seen u (K_Event (fi_tenantId inp) (fi_eventId inp)) (It_Event ev))
        (bindM (liftM (finalizedEvent ?d ev)) (\<lambda>updated.
            bindM (db_write db (finalizeTransaction shards inp c ev updated)) (\<lambda>ok.
            returnM (if ok then Some True else None)))) (\<lambda>_. ?P) ?P" for kc c ev
      by (intro lift_then write_then stable_conj stable_since stable_seen return_keeps)
         (auto intro!: commit)
    show "hoare view ?P (finalizeAttemptRound db shards inp) (\<lambda>_. ?P) ?P"
      unfolding finalizeAttemptRound_def Let_def
      by (intro delivery_then P)
         (auto intro!: return_keeps event_then stable_conj stable_since stable_seen step)
  qed (auto intro: return_keeps)
qed

lemma finalizeSuccess_keeps:
  assumes x: "advances x (fs_delivery inp)" "d_version x = fs_expectedVersion inp"
      "d_state (fs_delivery inp) = Succeeded" "d_executionType (fs_delivery inp) = ORIGINAL"
    and k: "k = K_Delivery (fs_tenantId inp) (fs_eventId inp) (d_deliveryId (fs_delivery inp))"
  shows "hoare view (\<lambda>u. since s0 u \<and> seen u k (It_Delivery x)) (finalizeSuccess db inp)
    (\<lambda>_ u. since s0 u \<and> seen u k (It_Delivery x)) (\<lambda>u. since s0 u \<and> seen u k (It_Delivery x))"
proof -
  let ?P = "\<lambda>u. since s0 u \<and> seen u k (It_Delivery x)"
  let ?d = "fs_delivery inp"
  have P: "stable safe ?P" by (intro stable_conj stable_since stable_seen)
  have count: "countSuccess c = countTerminal c (d_state ?d)" for c
    using x(3) by (simp add: countSuccess_def countTerminal_def one_if_def)
  have commit: "safe u (tx_apply (successTransaction inp token c ev (withOutcome ev (countSuccess (ev_outcome ev)) st)) u)"
    if u: "(?P u \<and> seen u kc (It_Delivery c)) \<and> seen u (K_Event (fs_tenantId inp) (fs_eventId inp)) (It_Event ev)"
      and st: "deriveEventStatus (countSuccess (ev_outcome ev)) = Inr st"
      and ok: "tx_ok (successTransaction inp token c ev (withOutcome ev (countSuccess (ev_outcome ev)) st)) u"
    for u token c ev st kc
  proof -
    from u have u1: "since s0 u" and u2: "seen u k (It_Delivery x)"
      and u3: "seen u (K_Event (fs_tenantId inp) (fs_eventId inp)) (It_Event ev)" by auto
    note core = core_success [of inp token c ev "withOutcome ev (countSuccess (ev_outcome ev)) st"]
    note conds = tx_ok_core [OF ok, unfolded core]
    show ?thesis
    proof (rule delivery_event_commit [OF since_inv [OF u1] u2 [unfolded k] _ u3 _
          core [unfolded count] x(1), folded count])
      show "updatesOriginalEvent ?d" using x by (simp add: updatesOriginalEvent_def)
    qed (use conds x(2) st in \<open>auto dest: delivery_cond_version\<close>)
  qed
  have step: "hoare view (\<lambda>u. since s0 u \<and> seen u k (It_Delivery x) \<and> seen u kc (It_Delivery c)
        \<and> seen u (K_Event (fs_tenantId inp) (fs_eventId inp)) (It_Event ev))
      (bindM (liftM (deriveEventStatus (countSuccess (ev_outcome ev)))) (\<lambda>status.
         case d_leaseToken c of
           None \<Rightarrow> throwM undefined_value
         | Some token \<Rightarrow>
             bindM (db_write db
                (successTransaction inp token c ev (withOutcome ev (countSuccess (ev_outcome ev)) status)))
             (\<lambda>ok. returnM (if ok then Some True else None)))) (\<lambda>_. ?P) ?P" for kc c ev
    by (intro lift_then, blast, cases "d_leaseToken c")
       (auto intro!: throw_keeps write_then stable_conj P stable_since stable_seen return_keeps commit)
  show ?thesis
    unfolding finalizeSuccess_def
  proof (rule retry_keeps)
    show "hoare view ?P (finalizeSuccessRound db inp) (\<lambda>_. ?P) ?P"
      unfolding finalizeSuccessRound_def Let_def
      by (intro delivery_then P)
         (auto intro!: return_keeps event_then stable_conj stable_since stable_seen step)
  qed (auto intro: return_keeps)
qed

lemma defer_keeps:
  assumes x: "advances x (df_delivery inp)" "d_version x = df_expectedVersion inp"
      "\<not> updatesOriginalEvent (df_delivery inp)"
    and k: "k = K_Delivery (df_tenantId inp) (df_eventId inp) (d_deliveryId (df_delivery inp))"
  shows "hoare view (\<lambda>u. since s0 u \<and> seen u k (It_Delivery x)) (defer_delivery db shards inp)
    (\<lambda>_ u. since s0 u \<and> seen u k (It_Delivery x)) (\<lambda>u. since s0 u \<and> seen u k (It_Delivery x))"
proof -
  let ?P = "\<lambda>u. since s0 u \<and> seen u k (It_Delivery x)"
  have P: "stable safe ?P" by (intro stable_conj stable_since stable_seen)
  have commit: "safe u (tx_apply (deferTransaction shards inp c) u)"
    if u: "?P u \<and> seen u kc (It_Delivery c)" and ok: "tx_ok (deferTransaction shards inp c) u" for u c kc
    using u x k core_defer [of shards inp c]
    by (intro delivery_commit_checked [where x = x, OF _ _ ok _ x(1)]) auto
  show ?thesis
    unfolding defer_delivery_def
    by (intro delivery_then P)
       (auto intro!: return_keeps last_write stable_conj stable_since stable_seen commit)
qed

lemma recoverExpired_keeps:
  "hoare view (since s0) (recoverExpired db shards inp) (\<lambda>_. since s0) (since s0)"
proof -
  let ?K = "\<lambda>x. K_Delivery (re_tenantId inp) (d_eventId x) (re_deliveryId inp)"
  let ?P = "\<lambda>x u. since s0 u \<and> seen u (?K x) (It_Delivery x)"
  have P: "stable safe (?P x)" for x by (intro stable_conj stable_since stable_seen)
  have timeout: "hoare view (?P x) (finalizeAttempt db shards (timeoutInput inp x a final)) (\<lambda>_. since s0) (since s0)"
    if id: "d_deliveryId x = re_deliveryId inp"
      and tr: "transitionDelivery x (timeoutTransition inp x) = Inr final" for x a final
  proof -
    have adv: "advances x final"
      by (rule transition_advances [OF tr]) (simp add: timeoutTransition_def program_transition_def)
    have "d_deliveryId final = d_deliveryId x" using adv by (simp add: advances_def same_identity_def)
    then show ?thesis
      using adv id
      by (intro hoare_weaken [OF finalizeAttempt_keeps [where x = x and k = "?K x"]])
         (auto simp: timeoutInput_def)
  qed
  have reschedule: "hoare view (?P x) (defer_delivery db shards (rescheduleInput inp x nxt)) (\<lambda>_. since s0) (since s0)"
    if id: "d_deliveryId x = re_deliveryId inp"
      and tr: "transitionDelivery x (rescheduleTransition inp x) = Inr nxt" for x nxt
  proof -
    have adv: "advances x nxt"
      by (rule transition_advances [OF tr]) (simp add: rescheduleTransition_def program_transition_def)
    have "d_deliveryId nxt = d_deliveryId x" using adv by (simp add: advances_def same_identity_def)
    moreover have "d_state nxt = Scheduled"
      using tr by (auto simp: transitionDelivery_Inr rescheduleTransition_def)
    ultimately show ?thesis
      using adv id
      by (intro hoare_weaken [OF defer_keeps [where x = x and k = "?K x"]])
         (auto simp: rescheduleInput_def updatesOriginalEvent_def)
  qed
  have started: "hoare view (?P x) (recoverStarted db shards inp x active) (\<lambda>_. since s0) (since s0)"
    if id: "d_deliveryId x = re_deliveryId inp" for x active
    unfolding recoverStarted_def
    by (rule lookup_then [OF P])
       (auto intro!: return_keeps lift_then timeout [OF id] split: option.splits)
  show ?thesis
    unfolding recoverExpired_def
    by (rule find_delivery_then [OF stable_since])
       (auto intro!: return_keeps lift_then started reschedule dest: since_inv split: option.splits)
qed

lemma resumeDestination_keeps:
  "hoare view (since s0) (resumeDestination db shards inp) (\<lambda>_. since s0) (since s0)"
proof -
  have commit: "safe u (tx_apply (resumeTransaction shards (ru_now inp) x nxt) u)"
    if u: "since s0 u \<and> seen u (K_Delivery (ru_tenantId inp) (d_eventId x) d) (It_Delivery x)"
      and id: "d_deliveryId x = d"
      and tr: "transitionDelivery x (resumeTransition (ru_now inp) x) = Inr nxt"
      and ok: "tx_ok (resumeTransaction shards (ru_now inp) x nxt) u" for u x nxt d
  proof -
    have adv: "advances x nxt"
      by (rule transition_advances [OF tr]) (simp add: resumeTransition_def program_transition_def)
    have ids: "d_deliveryId nxt = d" using adv id by (simp add: advances_def same_identity_def)
    have tenant: "d_tenantId x = ru_tenantId inp"
      using seen_delivery_ok [OF conjunct2 [OF u] since_inv [OF conjunct1 [OF u]]]
      by (simp add: delivery_ok_def)
    have "d_state nxt = Scheduled"
      using tr by (auto simp: transitionDelivery_Inr resumeTransition_def)
    then have kept: "\<not> updatesOriginalEvent nxt" by (simp add: updatesOriginalEvent_def)
    show ?thesis
      using tx_ok_core [OF ok] u
      by (intro delivery_commit [OF _ _ _ core_resume [unfolded tenant ids] adv kept])
         (auto simp: core_resume tenant ids dest: since_inv)
  qed
  have one: "hoare view (since s0) (resumeOne db shards inp d n) (\<lambda>_. since s0) (since s0)" for d n
    unfolding resumeOne_def
    by (rule find_delivery_then [OF stable_since])
       (auto intro!: return_keeps lift_then write_then stable_conj stable_since stable_seen commit
          dest: since_inv)
  show ?thesis
    unfolding resumeDestination_def Let_def
    by (rule hoare_bind [where R = "\<lambda>_. since s0"])
       (auto intro!: hoare_withNow hoare_fold one hoare_weaken [OF hoare_query [OF stable_since]])
qed

end

section \<open>A concrete table\<close>

definition sample_event :: canonical_event where
  "sample_event = \<lparr>ev_eventId = ''evt_1'', ev_tenantId = ''t1'', ev_producerClientId = ''cli_1'',
     ev_correlationId = ''cor_1'', ev_eventType = ''order.created'', ev_occurredAt = ''2026-01-01'',
     ev_acceptedAt = 500, ev_subject = (''order'', ''o1''), ev_data = JObj [], ev_metadata = JObj [],
     ev_payloadHash = ''h'', ev_status = Ev_Processing,
     ev_outcome = \<lparr>oc_routingComplete = False, oc_totalDeliveries = 1, oc_terminalDeliveries = 0,
       oc_successfulDeliveries = 0, oc_failedTerminalDeliveries = 0, oc_deadLetteredDeliveries = 0\<rparr>,
     ev_version = 2, ev_expiresAt = Epoch 9000\<rparr>"

definition sample_table :: "delivery \<Rightarrow> dtable" where
  "sample_table d = [K_Event ''t1'' ''evt_1'' \<mapsto> It_Event sample_event,
     K_Delivery ''t1'' ''evt_1'' ''dlv_1'' \<mapsto> It_Delivery d,
     K_Lookup ''t1'' LK_Delivery ''dlv_1'' \<mapsto> It_Lookup ''evt_1'']"

definition sample_world :: "dtable \<Rightarrow> mem" where
  "sample_world s = \<lparr>mem_table = s, mem_clock = 2000, mem_others = []\<rparr>"

definition sample_leased :: delivery where
  "sample_leased = applyTransition sample_delivery sample_lease_transition"

definition sample_started :: delivery where
  "sample_started = sample_leased\<lparr>d_attemptCount := 1, d_activeAttemptId := Some ''att_1'',
     d_version := 3\<rparr>"

definition sample_attempt :: delivery_attempt where
  "sample_attempt = \<lparr>at_attemptId = ''att_1'', at_attemptNumber = 1, at_deliveryId = ''dlv_1'',
     at_correlationId = ''cor_1'', at_startedAt = 2100, at_completedAt = None, at_durationMs = None,
     at_requestUrl = ''https://p.test/x'', at_requestHeadersRedacted = [], at_requestBodyHash = ''h'',
     at_responseStatus = None, at_responseHeadersRedacted = None,
     at_responseBodyExcerptRedacted = None, at_responseBodyHash = None, at_outcome = At_Started,
     at_failureCategory = None, at_retryable = None, at_traceId = None, at_expiresAt = Epoch 9000\<rparr>"

definition sample_history :: history_entry where
  "sample_history = \<lparr>hi_historyId = ''req_1'', hi_deliveryId = ''dlv_1'', hi_tenantId = ''t1'',
     hi_correlationId = ''cor_1'', hi_type = Hi_Created, hi_occurredAt = 1000, hi_summary = ''created'',
     hi_metadata = [], hi_expiresAt = Epoch 9000\<rparr>"

definition sample_outbox :: outbox_record where
  "sample_outbox = \<lparr>ob_outboxId = ''obx_1'', ob_kind = DELIVER, ob_tenantId = ''t1'',
     ob_aggregateType = DELIVERY, ob_aggregateId = ''dlv_1'', ob_target = DELIVERY_QUEUE,
     ob_payload = \<lparr>pl_eventId = Some ''evt_1'', pl_deliveryId = Some ''dlv_1'',
       pl_destinationId = None, pl_correlationId = ''cor_1'', pl_notBefore = None,
       pl_cause = Some INITIAL\<rparr>,
     ob_createdAt = 1000, ob_attempts = 0, ob_publishedAt = None, ob_traceparent = None\<rparr>"

definition sample_context :: tenant_context where
  "sample_context = \<lparr>cx_tenantId = ''t1'', cx_actorType = System_Actor, cx_actorId = ''router'',
     cx_role = None, cx_requestId = ''req_0'', cx_correlationId = ''cor_1''\<rparr>"

lemma view_sample [simp]: "mem_table (sample_world s) = s"
  by (simp add: sample_world_def)

lemma sample_table_inv:
  assumes "delivery_ok ''t1'' ''evt_1'' ''dlv_1'' d" and "\<not> isTerminalDeliveryState (d_state d)"
    and "d_executionType d = ORIGINAL"
  shows "table_inv (sample_table d)"
proof -
  have orig: "originals (sample_table d) ''t1'' ''evt_1'' P = (if P (d_state d) then {''dlv_1''} else {})" for P
    using assms(3) by (auto simp: originals_def sample_table_def)
  have "event_ok (sample_table d) ''t1'' ''evt_1'' sample_event"
    using assms(2)
    by (auto simp: event_ok_def orig tally_def observed_counters_def sample_event_def
        deriveEventStatus_def counters_inconsistent_def throw_if_def)
  then show ?thesis
    using assms(1) by (auto simp: table_inv_def sample_table_def split: if_splits)
qed

lemma sample_inv:
  "table_inv (sample_table sample_delivery)" "table_inv (sample_table sample_leased)"
  "table_inv (sample_table sample_started)" "table_inv Map.empty"
proof -
  show "table_inv (sample_table sample_delivery)" "table_inv (sample_table sample_leased)"
    "table_inv (sample_table sample_started)"
    by (rule sample_table_inv; simp add: sample_defs sample_leased_def sample_started_def
        applyTransition_def delivery_ok_def lease_wf_def to_epoch_def)+
  show "table_inv Map.empty" by (simp add: table_inv_def)
qed

lemma mem_is_safe: "safe_table (mem_db ks safe) mem_table"
  by (rule mem_safe.safe_table_axioms)

section \<open>Properties of the writers of events\<close>

definition state_at :: "dtable \<Rightarrow> string \<Rightarrow> string \<Rightarrow> string \<Rightarrow> delivery_state" where
  "state_at s t e d = (case as_delivery (s (K_Delivery t e d)) of None \<Rightarrow> Pending | Some x \<Rightarrow> d_state x)"

lemma originals_state:
  "originals s t e P = {d \<in> originals s t e (\<lambda>_. True). P (state_at s t e d)}"
  by (auto simp: originals_def state_at_def)

lemma tally_list:
  assumes "distinct ids" and "set ids = originals s t e (\<lambda>_. True)"
  shows "tally s t e P = count_state P (map (state_at s t e) ids)"
proof -
  have "originals s t e P = set (filter (\<lambda>d. P (state_at s t e d)) ids)"
    using assms(2) originals_state [of s t e P] by auto
  then have "card (originals s t e P) = length (filter (\<lambda>d. P (state_at s t e d)) ids)"
    using assms(1) distinct_card [of "filter (\<lambda>d. P (state_at s t e d)) ids"] by simp
  then show ?thesis by (simp add: tally_def count_state_def filter_map comp_def)
qed

text \<open>
  C1. The status of an event is the status of its deliveries. In every table that satisfies the
  invariant, and for any list of the identifiers of the original deliveries of an event, the stored
  status is the one that \<open>status_of\<close> reads off the states of these deliveries: \<open>accepted\<close> and
  \<open>no_destinations\<close> when there are none, \<open>succeeded\<close>, \<open>failed\<close> or \<open>partially_succeeded\<close> only when
  all of them are terminal, \<open>processing\<close> otherwise.
\<close>

theorem event_status_of_deliveries:
  assumes "table_inv s" and "s (K_Event t e) = Some (It_Event ev)"
    and "distinct ids" and "set ids = originals s t e (\<lambda>_. True)"
  shows "ev_status ev = status_of (oc_routingComplete (ev_outcome ev)) (map (state_at s t e) ids)"
proof -
  let ?ss = "map (state_at s t e) ids" and ?r = "oc_routingComplete (ev_outcome ev)"
  from table_inv_event [OF assms(1,2)] have ok: "event_ok s t e ev" by simp
  have "Cancelled \<notin> set ?ss"
  proof
    assume "Cancelled \<in> set ?ss"
    then obtain d where "d \<in> set ids" "state_at s t e d = Cancelled" by auto
    with assms(4) obtain x where x: "s (K_Delivery t e d) = Some (It_Delivery x)" "d_state x = Cancelled"
      by (auto simp: originals_def state_at_def)
    with table_inv_delivery [OF assms(1) x(1)] show False by (simp add: delivery_ok_def)
  qed
  then have "deriveEventStatus (counters_of ?r ?ss) = Inr (status_of ?r ?ss)"
    by (rule derive_status_spec)
  moreover have "ev_outcome ev = counters_of ?r ?ss"
  proof -
    have "ev_outcome ev = observed_counters s t e ?r" using ok by (simp add: event_ok_def)
    also have "\<dots> = counters_of ?r ?ss"
      using assms(3)
      by (simp add: observed_counters_def counters_of_def tally_list [OF assms(3,4)] count_state_def
          del: isTerminalDeliveryState.simps)
    finally show ?thesis .
  qed
  ultimately show ?thesis using ok by (simp add: event_ok_def)
qed

theorem event_status_of_deliveries_witness:
  "ev_status sample_event = status_of False [Scheduled]"
proof -
  have "set [''dlv_1''] = originals (sample_table sample_delivery) ''t1'' ''evt_1'' (\<lambda>_. True)"
    by (auto simp: originals_def sample_table_def sample_defs)
  from event_status_of_deliveries [OF sample_inv(1) _ _ this, of sample_event]
  show ?thesis by (simp add: sample_table_def state_at_def sample_defs sample_event_def)
qed

text \<open>
  Accepting an event is safe beside other safe clients: whatever they do between the calls of
  \<open>accept\<close>, and whether it returns an accepted event, a duplicate, a conflict or throws, the table
  satisfies the invariant afterwards and every event and delivery has evolved.
\<close>

theorem accept_safe:
  assumes "safe_table db view" and "table_inv (view w)" and "fresh_event (ac_event inp)"
    and "ev_tenantId (ac_event inp) = cx_tenantId (ac_context inp)"
  shows "safe (view w) (view (snd (accept db shards inp w)))
    \<and> table_inv (view (snd (accept db shards inp w)))"
  using assms(2) by (rule safe_table.plain_operation_safe [OF assms(1) safe_table.accept_keeps [OF assms(1,3,4)]])

definition sample_accept :: accept_input where
  "sample_accept = \<lparr>ac_context = sample_context,
     ac_event = sample_event\<lparr>ev_status := Ev_Accepted, ev_version := 1,
       ev_outcome := (ev_outcome sample_event)\<lparr>oc_totalDeliveries := 0\<rparr>\<rparr>,
     ac_requestBodyHash = ''b'', ac_idempotencyKeyHash = ''i'', ac_responseStatus = 202,
     ac_outbox = sample_outbox\<rparr>"

theorem accept_safe_witness:
  "table_inv (mem_table (snd (accept (mem_db [] safe) 4 sample_accept (sample_world Map.empty))))"
  using accept_safe [OF mem_is_safe, where w = "sample_world Map.empty" and inp = sample_accept] sample_inv(4)
  by (simp add: sample_accept_def fresh_event_def sample_event_def sample_context_def)

text \<open>
  Creating the delivery of a routed event is safe: the counters and the status of the event
  are replaced together with the delivery that they count, never without it, whatever other routers,
  workers and recoveries do to the same event in the meantime.
\<close>

theorem createDelivery_safe:
  assumes "safe_table db view" and "table_inv (view w)" and "creatable (cr_delivery inp)"
    and "d_executionType (cr_delivery inp) = ORIGINAL"
    and "d_tenantId (cr_delivery inp) = cx_tenantId (cr_context inp)"
  shows "safe (view w) (view (snd (createDelivery db shards inp w)))
    \<and> table_inv (view (snd (createDelivery db shards inp w)))"
  using assms(2)
  by (rule safe_table.plain_operation_safe [OF assms(1) safe_table.createDelivery_keeps [OF assms(1,3,5,4)]])

definition sample_create :: create_input where
  "sample_create = \<lparr>cr_context = sample_context,
     cr_delivery = sample_delivery\<lparr>d_deliveryId := ''dlv_2'', d_state := Failed_Terminal\<rparr>,
     cr_history = sample_history\<lparr>hi_deliveryId := ''dlv_2''\<rparr>, cr_outbox = None\<rparr>"

theorem createDelivery_safe_witness:
  "table_inv (mem_table (snd (createDelivery (mem_db [] safe) 4 sample_create
     (sample_world (sample_table sample_delivery)))))"
  using createDelivery_safe [OF mem_is_safe, where w = "sample_world (sample_table sample_delivery)" and inp = sample_create]
    sample_inv(1)
  by (simp add: sample_create_def creatable_def lease_wf_def sample_defs sample_context_def)

text \<open>
  Completing the routing of an event is safe: the flag and the status derived from it are set
  under the version check, against the counters the event has at that moment.
\<close>

theorem completeRouting_safe:
  assumes "safe_table db view" and "table_inv (view w)"
  shows "safe (view w) (view (snd (completeRouting db t e w)))
    \<and> table_inv (view (snd (completeRouting db t e w)))"
  using assms(2)
  by (rule safe_table.plain_operation_safe [OF assms(1) safe_table.completeRouting_keeps [OF assms(1)]])

theorem completeRouting_safe_witness:
  "table_inv (mem_table (snd (completeRouting (mem_db [] safe) ''t1'' ''evt_1''
     (sample_world (sample_table sample_delivery)))))"
  using completeRouting_safe [OF mem_is_safe, where w = "sample_world (sample_table sample_delivery)"]
    sample_inv(1) by simp

section \<open>Properties of the writers of deliveries\<close>

text \<open>
  Taking a lease and starting an attempt are safe: a lease may be requested for any delivery at
  any expected version, and a started attempt may be recorded for any delivery that the caller has
  read, however stale; the version and lease checks of the transactions make both harmless.
\<close>

theorem lease_and_start_safe:
  assumes "safe_table db view" and "table_inv (view w)"
  shows "safe (view w) (view (snd (acquireLease db q w)))
    \<and> table_inv (view (snd (acquireLease db q w)))
    \<and> (seen (view w) (K_Delivery (st_tenantId inp) (st_eventId inp) (d_deliveryId (st_delivery inp)))
           (It_Delivery (st_delivery inp))
       \<longrightarrow> st_expectedVersion inp = d_version (st_delivery inp)
       \<longrightarrow> safe (view w) (view (snd (startAttempt db inp w)))
         \<and> table_inv (view (snd (startAttempt db inp w))))"
  using safe_table.plain_operation_safe [OF assms(1) safe_table.acquireLease_keeps [OF assms(1)] assms(2)]
    assms(2) safe_table.operation_safe [OF assms(1) safe_table.startAttempt_keeps [OF assms(1) refl _ refl], of inp w]
  by simp

definition sample_request :: lease_request where
  "sample_request = \<lparr>lq_tenantId = ''t1'', lq_eventId = ''evt_1'', lq_deliveryId = ''dlv_1'',
     lq_expectedVersion = 1, lq_owner = ''w'', lq_token = ''lease_1'', lq_expiresAt = 8000\<rparr>"

definition sample_start :: start_input where
  "sample_start = \<lparr>st_tenantId = ''t1'', st_eventId = ''evt_1'', st_delivery = sample_leased,
     st_expectedVersion = 2, st_attempt = sample_attempt\<rparr>"

lemma sample_seen:
  "d_deliveryId d = ''dlv_1'' \<Longrightarrow> seen (sample_table d) (K_Delivery ''t1'' ''evt_1'' ''dlv_1'') (It_Delivery d)"
  by (rule seen_now) (simp add: sample_table_def)

theorem lease_and_start_safe_witness:
  "table_inv (mem_table (snd (acquireLease (mem_db [] safe) sample_request
      (sample_world (sample_table sample_delivery)))))
   \<and> table_inv (mem_table (snd (startAttempt (mem_db [] safe) sample_start
      (sample_world (sample_table sample_leased)))))"
  using lease_and_start_safe [OF mem_is_safe, where w = "sample_world (sample_table sample_delivery)" and q = sample_request]
    lease_and_start_safe [OF mem_is_safe, where w = "sample_world (sample_table sample_leased)" and inp = sample_start]
    sample_inv(1,2) sample_seen [of sample_leased]
  by (simp add: sample_start_def sample_leased_def sample_defs)

text \<open>
  Finalizing an attempt is safe. The caller passes the delivery that a transition made of what
  it had read (at any time in the past). The event is counted with the delivery in one
  transaction, exactly once: a second finalizer, or one whose lease was recovered in the meantime,
  changes nothing that breaks the counters.
\<close>

theorem finalizeAttempt_safe:
  assumes "safe_table db view" and "table_inv (view w)"
    and "seen (view w) (K_Delivery (fi_tenantId inp) (fi_eventId inp) (d_deliveryId (fi_delivery inp)))
           (It_Delivery x)"
    and "d_version x = fi_expectedVersion inp"
    and "transitionDelivery x t = Inr (fi_delivery inp)" and "program_transition t"
  shows "safe (view w) (view (snd (finalizeAttempt db shards inp w)))
    \<and> table_inv (view (snd (finalizeAttempt db shards inp w)))"
  using safe_table.operation_safe [OF assms(1)
      safe_table.finalizeAttempt_keeps [OF assms(1) transition_advances [OF assms(5,6)] assms(4) refl]
      assms(2,3)] .

definition sample_success_transition :: delivery_transition where
  "sample_success_transition = \<lparr>tr_to = Succeeded, tr_at = 2500, tr_expectedVersion = 3,
     tr_leaseToken = Some ''lease_1'', tr_nextEligibleAt = None, tr_blockedReason = None,
     tr_lease = None\<rparr>"

definition sample_finalize :: finalize_input where
  "sample_finalize = \<lparr>fi_tenantId = ''t1'', fi_eventId = ''evt_1'',
     fi_delivery = applyTransition sample_started sample_success_transition, fi_expectedVersion = 3,
     fi_leaseToken = ''lease_1'',
     fi_attempt = sample_attempt\<lparr>at_outcome := At_Succeeded, at_completedAt := Some 2500\<rparr>,
     fi_history = sample_history, fi_outbox = None, fi_circuit = None\<rparr>"

theorem finalizeAttempt_safe_witness:
  "table_inv (mem_table (snd (finalizeAttempt (mem_db [] safe) 4 sample_finalize
     (sample_world (sample_table sample_started)))))"
proof -
  have tr: "transitionDelivery sample_started sample_success_transition = Inr (fi_delivery sample_finalize)"
    by (simp add: transitionDelivery_Inr sample_finalize_def sample_started_def sample_leased_def
        sample_success_transition_def sample_defs deferred_states_def applyTransition_def)
  have id: "d_deliveryId (fi_delivery sample_finalize) = ''dlv_1''"
    by (simp add: sample_finalize_def sample_started_def sample_leased_def sample_defs)
  have "d_deliveryId sample_started = ''dlv_1''"
    by (simp add: sample_started_def sample_leased_def sample_defs)
  note here = sample_seen [OF this]
  have "program_transition sample_success_transition"
    by (simp add: program_transition_def sample_success_transition_def)
  from finalizeAttempt_safe [OF mem_is_safe, where w = "sample_world (sample_table sample_started)",
      OF _ _ _ tr this] sample_inv(3) here id
  show ?thesis by (simp add: sample_finalize_def sample_started_def)
qed

text \<open>
  Deferring is safe under the same contract, for a target state that is not terminal.
\<close>

theorem defer_safe:
  assumes "safe_table db view" and "table_inv (view w)"
    and "seen (view w) (K_Delivery (df_tenantId inp) (df_eventId inp) (d_deliveryId (df_delivery inp)))
           (It_Delivery x)"
    and "d_version x = df_expectedVersion inp"
    and "transitionDelivery x t = Inr (df_delivery inp)" and "program_transition t"
    and "\<not> isTerminalDeliveryState (tr_to t)"
  shows "safe (view w) (view (snd (defer_delivery db shards inp w)))
    \<and> table_inv (view (snd (defer_delivery db shards inp w)))"
proof -
  have kept: "\<not> updatesOriginalEvent (df_delivery inp)"
    using assms(5,7) by (auto simp: updatesOriginalEvent_def transitionDelivery_Inr)
  show ?thesis
    by (rule safe_table.operation_safe [OF assms(1)
        safe_table.defer_keeps [OF assms(1) transition_advances [OF assms(5,6)] assms(4) kept refl]
        assms(2,3)])
qed

definition sample_defer_transition :: delivery_transition where
  "sample_defer_transition = \<lparr>tr_to = Rate_Limited, tr_at = 2500, tr_expectedVersion = 2,
     tr_leaseToken = Some ''lease_1'', tr_nextEligibleAt = Some 3000,
     tr_blockedReason = Some RATE_LIMITED, tr_lease = None\<rparr>"

definition sample_defer :: defer_input where
  "sample_defer = \<lparr>df_tenantId = ''t1'', df_eventId = ''evt_1'',
     df_delivery = applyTransition sample_leased sample_defer_transition, df_expectedVersion = 2,
     df_leaseToken = ''lease_1'', df_history = sample_history, df_outbox = sample_outbox\<rparr>"

theorem defer_safe_witness:
  "table_inv (mem_table (snd (defer_delivery (mem_db [] safe) 4 sample_defer
     (sample_world (sample_table sample_leased)))))"
proof -
  have tr: "transitionDelivery sample_leased sample_defer_transition = Inr (df_delivery sample_defer)"
    by (simp add: transitionDelivery_Inr sample_defer_def sample_leased_def
        sample_defer_transition_def sample_defs deferred_states_def applyTransition_def)
  have id: "d_deliveryId (df_delivery sample_defer) = ''dlv_1''" "d_deliveryId sample_leased = ''dlv_1''"
    by (simp_all add: sample_defer_def sample_leased_def sample_defs)
  note here = sample_seen [OF id(2)]
  have "program_transition sample_defer_transition" "\<not> isTerminalDeliveryState (tr_to sample_defer_transition)"
    by (simp_all add: program_transition_def sample_defer_transition_def)
  from defer_safe [OF mem_is_safe, where w = "sample_world (sample_table sample_leased)",
      OF _ _ _ tr this] sample_inv(2) here id(1)
  show ?thesis by (simp add: sample_defer_def sample_leased_def sample_defs)
qed

text \<open>
  Recovering an expired lease and resuming the deliveries of a destination are safe, with no
  contract at all: both read what they need and guard what they write.
\<close>

theorem recover_and_resume_safe:
  assumes "safe_table db view" and "table_inv (view w)"
  shows "safe (view w) (view (snd (recoverExpired db shards inp w)))
    \<and> table_inv (view (snd (recoverExpired db shards inp w)))
    \<and> safe (view w) (view (snd (resumeDestination db shards rinp w)))
    \<and> table_inv (view (snd (resumeDestination db shards rinp w)))"
  using safe_table.plain_operation_safe [OF assms(1) safe_table.recoverExpired_keeps [OF assms(1)] assms(2)]
    safe_table.plain_operation_safe [OF assms(1) safe_table.resumeDestination_keeps [OF assms(1)] assms(2)]
  by blast

theorem recover_and_resume_safe_witness:
  "table_inv (mem_table (snd (recoverExpired (mem_db [] safe) 4
      \<lparr>re_tenantId = ''t1'', re_eventId = ''evt_1'', re_deliveryId = ''dlv_1'', re_now = 9000,
       re_random = 0\<rparr> (sample_world (sample_table sample_leased)))))"
  using recover_and_resume_safe [OF mem_is_safe, where w = "sample_world (sample_table sample_leased)"]
    sample_inv(2) by simp

end
