(* ===== verification/Alone.thy ===== *)
theory Alone
  imports Table_Safety
begin

text \<open>
  What the operations on deliveries do, exactly, for a client that is alone on its table: which
  branch is taken, what is returned and how the table changes. These are the runs that the code's
  own sequence of calls goes through; the properties at the end show where that sequence gets stuck
  or leaves rows behind.
\<close>

section \<open>Runs\<close>

definition yields ::
    "'w dynamo \<Rightarrow> ('w \<Rightarrow> dtable) \<Rightarrow> ('w, 'a) op \<Rightarrow> 'w \<Rightarrow> js_error + 'a \<Rightarrow> dtable \<Rightarrow> bool" where
  "yields db view m w r s \<longleftrightarrow> (\<exists>w1. m w = (r, w1) \<and> view w1 = s \<and> db_now db w1 = db_now db w)"

lemma yields_fst: "yields db view m w r s \<Longrightarrow> fst (m w) = r"
  by (auto simp: yields_def)

lemma yields_view: "yields db view m w r s \<Longrightarrow> view (snd (m w)) = s"
  by (auto simp: yields_def)

lemma yields_return: "view w = s \<Longrightarrow> yields db view (returnM a) w (Inr a) s"
  by (simp add: yields_def returnM_def)

lemma yields_throw: "view w = s \<Longrightarrow> yields db view (throwM e) w (Inl e) s"
  by (simp add: yields_def throwM_def)

lemma yields_bind:
  assumes "yields db view m w (Inr a) s"
    and "\<And>w1. view w1 = s \<Longrightarrow> db_now db w1 = db_now db w \<Longrightarrow> yields db view (f a) w1 r u"
  shows "yields db view (bindM m f) w r u"
  using assms by (fastforce simp: yields_def bindM_def)

lemma yields_bind_throw:
  "yields db view m w (Inl e) s \<Longrightarrow> yields db view (bindM m f) w (Inl e) s"
  by (auto simp: yields_def bindM_def)

lemma bind_lift [simp]: "bindM (liftM (Inr a)) f = f a" "bindM (liftM (Inl e)) f = throwM e"
  by (auto simp: bindM_def liftM_def throwM_def fun_eq_iff)

lemma yields_withNow: "yields db view (m (db_now db w)) w r u \<Longrightarrow> yields db view (withNow db m) w r u"
  by (simp add: yields_def withNow_def)

lemma yields_retry_done:
  "yields db view body w (Inr (Some a)) s \<Longrightarrow> yields db view (retryM (Suc n) body final) w (Inr a) s"
  by (auto simp: yields_def bindM_def returnM_def)

lemma yields_retry_throw:
  "yields db view body w (Inl e) s \<Longrightarrow> yields db view (retryM (Suc n) body final) w (Inl e) s"
  by (auto simp: yields_def bindM_def)

context dynamo_alone
begin

lemma yields_get: "yields db view (db_get db k) w (Inr (view w k)) (view w)"
proof -
  obtain r w1 where run: "db_get db k w = (r, w1)" by (cases "db_get db k w")
  from get_law [OF run] have "view w1 = view w" "\<forall>x. r = Inr x \<longrightarrow> x = view w1 k" by auto
  moreover obtain x where "r = Inr x" using get_alone [of k w] run by auto
  moreover have "db_now db w1 = db_now db w" using now_get [of k w] run by simp
  ultimately show ?thesis using run by (simp add: yields_def)
qed

lemma yields_core:
  "yields db view (mapM f (getCore db k)) w (Inr (f (live_item (view w k) (db_now db w)))) (view w)"
proof -
  from yields_get [of k w] obtain w1
    where "db_get db k w = (Inr (view w k), w1)" "view w1 = view w" "db_now db w1 = db_now db w"
    by (auto simp: yields_def)
  then show ?thesis by (simp add: yields_def mapM_def getCore_def bindM_def returnM_def)
qed

lemma yields_write:
  assumes "tx_distinct ops"
  shows "yields db view (db_write db ops) w (Inr (tx_conditions ops (view w)))
    (if tx_conditions ops (view w) then tx_apply ops (view w) else view w)"
proof -
  obtain r w1 where run: "db_write db ops w = (r, w1)" by (cases "db_write db ops w")
  have r: "r = Inr (tx_conditions ops (view w))" using write_alone [OF assms, of w] run by simp
  from write_law [OF run] r have "view w1 = (if tx_conditions ops (view w) then tx_apply ops (view w) else view w)"
    by (auto split: if_splits bool.splits)
  moreover have "db_now db w1 = db_now db w" using now_write [of ops w] run by simp
  ultimately show ?thesis using run r by (simp add: yields_def)
qed

lemma yields_commit:
  assumes "tx_distinct ops" and "tx_conditions ops (view w)"
  shows "yields db view (db_write db ops) w (Inr True) (tx_apply ops (view w))"
  using yields_write [OF assms(1), of w] assms(2) by simp

lemma yields_invalid:
  assumes "\<not> tx_distinct ops"
  shows "yields db view (db_write db ops) w (Inl (ServiceError ''ValidationException'')) (view w)"
proof -
  obtain r w1 where run: "db_write db ops w = (r, w1)" by (cases "db_write db ops w")
  have r: "r = Inl (ServiceError ''ValidationException'')" using write_validation [OF assms, of w] run by simp
  from write_law [OF run] r assms have "view w1 = view w" by (simp add: tx_ok_def)
  moreover have "db_now db w1 = db_now db w" using now_write [of ops w] run by simp
  ultimately show ?thesis using run r by (simp add: yields_def)
qed

lemma yields_delivery:
  assumes "view w (K_Delivery t e i) = Some (It_Delivery d)" and "\<not> isExpired (It_Delivery d) (db_now db w)"
  shows "yields db view (getDeliveryAt db t e i) w (Inr (Some d)) (view w)"
  using yields_core [of as_delivery "K_Delivery t e i" w] assms by (simp add: getDeliveryAt_def live_item_def)

lemma yields_event:
  assumes "view w (K_Event t e) = Some (It_Event ev)" and "\<not> isExpired (It_Event ev) (db_now db w)"
  shows "yields db view (getEvent db t e) w (Inr (Some ev)) (view w)"
  using yields_core [of as_event "K_Event t e" w] assms by (simp add: getEvent_def live_item_def)

end

section \<open>Taking a lease\<close>

definition leaseKey :: "lease_request \<Rightarrow> dkey" where
  "leaseKey q = K_Delivery (lq_tenantId q) (lq_eventId q) (lq_deliveryId q)"

lemma index_keys_disjoint:
  assumes "d_updatedAt d \<noteq> d_updatedAt d'"
  shows "op_key ` set (indexDeletes d) \<inter> op_key ` set (indexPuts d') = {}"
  using assms by (auto simp: index_ops_keys)

lemma index_keys_clash:
  assumes "d_updatedAt d' = d_updatedAt d" and "d_tenantId d' = d_tenantId d"
    and "d_deliveryId d' = d_deliveryId d"
  shows "deliveryIndexKey d ''ALL'' \<in> op_key ` set (indexDeletes d) \<inter> op_key ` set (indexPuts d')"
  using assms by (auto simp: index_ops_keys deliveryIndexCategories_def deliveryIndexKey_def image_iff)

lemma index_op_not_delivery:
  "K_Delivery t e i \<notin> op_key ` set (indexDeletes d)" "K_Delivery t e i \<notin> op_key ` set (indexPuts d)"
  by (auto simp: index_ops_keys deliveryIndexKey_def)

lemma lease_distinct:
  assumes "leased = applyTransition d (leaseTransition q now)"
  shows "tx_distinct (leaseTransaction q now d leased) \<longleftrightarrow> d_updatedAt d \<noteq> now"
proof
  assume "tx_distinct (leaseTransaction q now d leased)"
  then have "op_key ` set (indexDeletes d) \<inter> op_key ` set (indexPuts leased) = {}"
    by (simp add: tx_distinct_def leaseTransaction_def)
  then show "d_updatedAt d \<noteq> now"
    using index_keys_clash [of leased d] assms by (auto simp: leaseTransition_def)
next
  assume "d_updatedAt d \<noteq> now"
  then have "op_key ` set (indexDeletes d) \<inter> op_key ` set (indexPuts leased) = {}"
    using assms by (intro index_keys_disjoint) (simp add: leaseTransition_def)
  then show "tx_distinct (leaseTransaction q now d leased)"
    using index_op_not_delivery by (simp add: tx_distinct_def leaseTransaction_def)
qed

lemma lease_conditions:
  "s (leaseKey q) = Some (It_Delivery d) \<Longrightarrow> leasable q now d \<Longrightarrow>
   tx_conditions (leaseTransaction q now d leased) s"
  by (simp add: leaseTransaction_def delivery_cond_def version_is_def leasable_def leaseKey_def)

lemma lease_transition_ok:
  "leasable q now d \<Longrightarrow> d_state d \<noteq> Rate_Limited \<Longrightarrow>
   transitionDelivery d (leaseTransition q now) = Inr (applyTransition d (leaseTransition q now))"
  by (auto simp: transitionDelivery_Inr leasable_def leasable_states_def leaseTransition_def deferred_states_def)

lemma lease_transition_rate_limited:
  "leasable q now d \<Longrightarrow> d_state d = Rate_Limited \<Longrightarrow>
   transitionDelivery d (leaseTransition q now)
     = Inl (DomainError INVALID_TRANSITION ''Cannot transition rate_limited to in_progress.'')"
  by (simp add: transitionDelivery_def throw_if_def leasable_def leaseTransition_def)

context dynamo_alone
begin

lemma lease_granted_run:
  assumes d: "view w (leaseKey q) = Some (It_Delivery d)" "\<not> isExpired (It_Delivery d) (db_now db w)"
    and ok: "leasable q (db_now db w) d" "d_state d \<noteq> Rate_Limited" "d_updatedAt d \<noteq> db_now db w"
    and leased: "leased = applyTransition d (leaseTransition q (db_now db w))"
  shows "yields db view (acquireLease db q) w (Inr (Some leased))
    (tx_apply (leaseTransaction q (db_now db w) d leased) (view w))"
  unfolding acquireLease_def
proof (rule yields_bind [OF yields_delivery [OF d [unfolded leaseKey_def]]])
  fix w1
  assume w1: "view w1 = view w" "db_now db w1 = db_now db w"
  have "yields db view (db_write db (leaseTransaction q (db_now db w) d leased)) w1 (Inr True)
      (tx_apply (leaseTransaction q (db_now db w) d leased) (view w))"
    using yields_commit [of "leaseTransaction q (db_now db w) d leased" w1]
      lease_distinct [OF leased] ok(3) lease_conditions [of "view w" q d] d(1) ok(1) w1 by simp
  then show "yields db view (case Some d of None \<Rightarrow> returnM None | Some current \<Rightarrow>
      withNow db (\<lambda>now. if \<not> leasable q now current then returnM None
        else bindM (liftM (transitionDelivery current (leaseTransition q now))) (\<lambda>leased.
             bindM (db_write db (leaseTransaction q now current leased)) (\<lambda>ok.
             returnM (if ok then Some leased else None))))) w1 (Inr (Some leased))
      (tx_apply (leaseTransaction q (db_now db w) d leased) (view w))"
    using ok w1 lease_transition_ok [OF ok(1,2)] leased
    by (auto intro!: yields_withNow yields_return yields_bind [where a = True])
qed

lemma lease_rate_limited_run:
  assumes d: "view w (leaseKey q) = Some (It_Delivery d)" "\<not> isExpired (It_Delivery d) (db_now db w)"
    and state: "d_state d = Rate_Limited"
  shows "yields db view (acquireLease db q) w
    (if leasable q (db_now db w) d
     then Inl (DomainError INVALID_TRANSITION ''Cannot transition rate_limited to in_progress.'')
     else Inr None) (view w)"
  unfolding acquireLease_def
proof (rule yields_bind [OF yields_delivery [OF d [unfolded leaseKey_def]]])
  fix w1
  assume w1: "view w1 = view w" "db_now db w1 = db_now db w"
  show "yields db view (case Some d of None \<Rightarrow> returnM None | Some current \<Rightarrow>
      withNow db (\<lambda>now. if \<not> leasable q now current then returnM None
        else bindM (liftM (transitionDelivery current (leaseTransition q now))) (\<lambda>leased.
             bindM (db_write db (leaseTransaction q now current leased)) (\<lambda>ok.
             returnM (if ok then Some leased else None))))) w1
      (if leasable q (db_now db w) d
       then Inl (DomainError INVALID_TRANSITION ''Cannot transition rate_limited to in_progress.'')
       else Inr None) (view w)"
    using w1 lease_transition_rate_limited [OF _ state]
    by (auto intro!: yields_withNow yields_throw yields_return)
qed

lemma lease_same_instant_run:
  assumes d: "view w (leaseKey q) = Some (It_Delivery d)" "\<not> isExpired (It_Delivery d) (db_now db w)"
    and ok: "leasable q (db_now db w) d" "d_state d \<noteq> Rate_Limited" "d_updatedAt d = db_now db w"
  shows "yields db view (acquireLease db q) w (Inl (ServiceError ''ValidationException'')) (view w)"
  unfolding acquireLease_def
proof (rule yields_bind [OF yields_delivery [OF d [unfolded leaseKey_def]]])
  fix w1
  assume w1: "view w1 = view w" "db_now db w1 = db_now db w"
  let ?leased = "applyTransition d (leaseTransition q (db_now db w))"
  have "yields db view (db_write db (leaseTransaction q (db_now db w) d ?leased)) w1
      (Inl (ServiceError ''ValidationException'')) (view w)"
    using yields_invalid [of "leaseTransaction q (db_now db w) d ?leased" w1]
      lease_distinct [OF refl, of q "db_now db w" d] ok(3) w1 by simp
  then show "yields db view (case Some d of None \<Rightarrow> returnM None | Some current \<Rightarrow>
      withNow db (\<lambda>now. if \<not> leasable q now current then returnM None
        else bindM (liftM (transitionDelivery current (leaseTransition q now))) (\<lambda>leased.
             bindM (db_write db (leaseTransaction q now current leased)) (\<lambda>ok.
             returnM (if ok then Some leased else None))))) w1 (Inl (ServiceError ''ValidationException''))
      (view w)"
    using ok w1 lease_transition_ok [OF ok(1,2)]
    by (auto intro!: yields_withNow yields_bind_throw)
qed

end

section \<open>Properties\<close>

lemma mem_is_alone: "dynamo_alone (mem_db ks (=)) mem_table"
  by (rule mem_alone.dynamo_alone_axioms)

lemma lease_put_at:
  "tx_distinct (leaseTransaction q now d leased) \<Longrightarrow>
   tx_apply (leaseTransaction q now d leased) s (leaseKey q) = Some (stored_delivery leased)"
  using tx_apply_at [of "put_op (leaseKey q) (delivery_cond (lq_expectedVersion q)
      (\<lambda>d. d_state d \<in> set leasable_states \<and> eligible_by now d)) (stored_delivery leased)"
      "leaseTransaction q now d leased" s]
  by (simp add: leaseTransaction_def leaseKey_def)

lemma lease_index_at:
  assumes "tx_distinct (leaseTransaction q now d leased)"
  shows "c \<in> set (deliveryIndexCategories d) \<Longrightarrow>
      tx_apply (leaseTransaction q now d leased) s (deliveryIndexKey d c) = None"
    and "c \<in> set (deliveryIndexCategories leased) \<Longrightarrow>
      tx_apply (leaseTransaction q now d leased) s (deliveryIndexKey leased c) = Some (deliveryIndexItem leased)"
  using tx_apply_at [OF _ assms, of "delete_op (deliveryIndexKey d c) always" s]
    tx_apply_at [OF _ assms, of "put_op (deliveryIndexKey leased c) always (deliveryIndexItem leased)" s]
  by (auto simp: leaseTransaction_def indexDeletes_def indexPuts_def)

text \<open>
  A lease that is granted. Alone on its table, a worker that asks for a delivery that is
  scheduled or waiting for a retry, eligible, at the version it has read and not updated in this very
  millisecond, gets it: the stored delivery is the one returned, in progress with the worker's
  token, every index row of the old state is gone and every row of the new state is there, and no
  other key has changed.
\<close>

theorem lease_granted:
  assumes "dynamo_alone db view" and "view w (leaseKey q) = Some (It_Delivery d)"
    and "\<not> isExpired (It_Delivery d) (db_now db w)" and "leasable q (db_now db w) d"
    and "d_state d \<noteq> Rate_Limited" and "d_updatedAt d \<noteq> db_now db w"
  shows "\<exists>leased. fst (acquireLease db q w) = Inr (Some leased)
    \<and> d_state leased = In_Progress \<and> d_leaseToken leased = Some (lq_token q)
    \<and> d_version leased = d_version d + 1
    \<and> (let u = view (snd (acquireLease db q w)) in
         u (leaseKey q) = Some (stored_delivery leased)
         \<and> (\<forall>c \<in> set (deliveryIndexCategories d). u (deliveryIndexKey d c) = None)
         \<and> (\<forall>c \<in> set (deliveryIndexCategories leased).
              u (deliveryIndexKey leased c) = Some (deliveryIndexItem leased))
         \<and> (\<forall>k. k \<noteq> leaseKey q
              \<longrightarrow> k \<notin> deliveryIndexKey d ` set (deliveryIndexCategories d)
              \<longrightarrow> k \<notin> deliveryIndexKey leased ` set (deliveryIndexCategories leased)
              \<longrightarrow> u k = view w k))"
proof -
  let ?leased = "applyTransition d (leaseTransition q (db_now db w))"
  let ?ops = "leaseTransaction q (db_now db w) d ?leased"
  note run = dynamo_alone.lease_granted_run [OF assms(1-6) refl]
  have dist: "tx_distinct ?ops" using lease_distinct [OF refl] assms(6) by simp
  have other: "tx_apply ?ops (view w) k = view w k"
    if "k \<noteq> leaseKey q" "k \<notin> deliveryIndexKey d ` set (deliveryIndexCategories d)"
      "k \<notin> deliveryIndexKey ?leased ` set (deliveryIndexCategories ?leased)" for k
  proof (rule tx_apply_other)
    have "op_key ` set ?ops = insert (leaseKey q) (deliveryIndexKey d ` set (deliveryIndexCategories d)
        \<union> deliveryIndexKey ?leased ` set (deliveryIndexCategories ?leased))"
      by (simp add: leaseTransaction_def leaseKey_def image_Un index_ops_keys)
    with that show "k \<notin> op_key ` set ?ops" by simp
  qed
  show ?thesis
    unfolding yields_fst [OF run] yields_view [OF run]
    using lease_put_at [OF dist] lease_index_at [OF dist] other
    by (intro exI [of _ ?leased]) (auto simp: leaseTransition_def)
qed

theorem lease_granted_witness:
  "\<exists>leased. fst (acquireLease (mem_db [] (=)) sample_request (sample_world (sample_table sample_delivery)))
     = Inr (Some leased) \<and> d_state leased = In_Progress"
  using lease_granted [OF mem_is_alone, of "sample_world (sample_table sample_delivery)" sample_request sample_delivery]
  by (auto simp: sample_table_def leaseKey_def sample_request_def sample_defs isExpired_def mem_db_def
      sample_world_def leasable_def leasable_states_def eligible_by_def)

text \<open>
  C7. A rate limited delivery is stuck. \<open>acquireLease\<close> admits the state \<open>rate_limited\<close> in its own
  check and in its condition, but the transition it then makes is not permitted from that state: when
  the time to try again has come, the call throws \<open>INVALID_TRANSITION\<close>, for every worker, owner and
  version, and nothing changes, so the delivery can be attempted neither now nor later.
\<close>

theorem rate_limited_is_stuck:
  assumes "dynamo_alone db view" and "view w (leaseKey q) = Some (It_Delivery d)"
    and "\<not> isExpired (It_Delivery d) (db_now db w)" and "d_state d = Rate_Limited"
  shows "view (snd (acquireLease db q w)) = view w
    \<and> (\<forall>leased. fst (acquireLease db q w) \<noteq> Inr (Some leased))
    \<and> (d_version d = lq_expectedVersion q \<and> eligible_by (db_now db w) d
       \<longrightarrow> fst (acquireLease db q w)
           = Inl (DomainError INVALID_TRANSITION ''Cannot transition rate_limited to in_progress.''))"
proof -
  note run = dynamo_alone.lease_rate_limited_run [OF assms]
  show ?thesis
    unfolding yields_fst [OF run] yields_view [OF run]
    using assms(4) by (simp add: leasable_def leasable_states_def)
qed

definition sample_rate_limited :: delivery where
  "sample_rate_limited = sample_delivery\<lparr>d_state := Rate_Limited, d_nextEligibleAt := Some 1500\<rparr>"

theorem rate_limited_is_stuck_witness:
  "fst (acquireLease (mem_db [] (=)) sample_request (sample_world (sample_table sample_rate_limited)))
     = Inl (DomainError INVALID_TRANSITION ''Cannot transition rate_limited to in_progress.'')"
  using rate_limited_is_stuck [OF mem_is_alone, of "sample_world (sample_table sample_rate_limited)"
      sample_request sample_rate_limited]
  by (simp add: sample_table_def leaseKey_def sample_request_def sample_defs isExpired_def mem_db_def
      sample_world_def eligible_by_def sample_rate_limited_def)

text \<open>
  A lease in the same millisecond. When the delivery was last updated in the millisecond of the
  request, the transaction deletes and puts the same index row; the service refuses such a
  transaction as invalid, which is not a failed condition, so the call throws instead of returning.
\<close>

theorem lease_same_millisecond_throws:
  assumes "dynamo_alone db view" and "view w (leaseKey q) = Some (It_Delivery d)"
    and "\<not> isExpired (It_Delivery d) (db_now db w)" and "leasable q (db_now db w) d"
    and "d_state d \<noteq> Rate_Limited" and "d_updatedAt d = db_now db w"
  shows "fst (acquireLease db q w) = Inl (ServiceError ''ValidationException'')
    \<and> view (snd (acquireLease db q w)) = view w"
proof -
  note run = dynamo_alone.lease_same_instant_run [OF assms]
  show ?thesis unfolding yields_fst [OF run] yields_view [OF run] by simp
qed

theorem lease_same_millisecond_throws_witness:
  "fst (acquireLease (mem_db [] (=)) sample_request
      (sample_world (sample_table (sample_delivery\<lparr>d_updatedAt := 2000\<rparr>))))
     = Inl (ServiceError ''ValidationException'')"
  using lease_same_millisecond_throws [OF mem_is_alone,
      of "sample_world (sample_table (sample_delivery\<lparr>d_updatedAt := 2000\<rparr>))" sample_request
        "sample_delivery\<lparr>d_updatedAt := 2000\<rparr>"]
  by (simp add: sample_table_def leaseKey_def sample_request_def sample_defs isExpired_def mem_db_def
      sample_world_def leasable_def leasable_states_def eligible_by_def)

end
