(* ===== verification/Event_Runs.thy ===== *)
theory Event_Runs
  imports Alone
begin

text \<open>
  Idempotent acceptance: what \<open>accept\<close> answers and writes for a client that is alone on its table,
  and what a repeated request gets. Then the index rows of events and deliveries: which operations
  keep them in step with the records, and which do not.
\<close>

section \<open>The answers of accept\<close>

definition guard_in :: "dtable \<Rightarrow> instant \<Rightarrow> accept_input \<Rightarrow> idempotency_guard option" where
  "guard_in s now inp = as_guard (live_item (s (guardKey inp)) now)"

definition answer_in ::
    "dtable \<Rightarrow> instant \<Rightarrow> accept_input \<Rightarrow> idempotency_guard option \<Rightarrow> accept_result" where
  "answer_in s now inp guard = (case guard of
      None \<Rightarrow> Conflict
    | Some g \<Rightarrow>
        if ig_requestBodyHash g \<noteq> ac_requestBodyHash inp then Conflict
        else (case as_event (live_item (s (K_Event (cx_tenantId (ac_context inp)) (ig_eventId g))) now) of
                None \<Rightarrow> Conflict | Some e \<Rightarrow> Duplicate e))"

lemma accept_distinct: "tx_distinct (acceptTransaction shards inp now)"
  by (simp add: tx_distinct_def acceptTransaction_def Let_def eventIndexPut_def guardKey_def outboxPut_def)

lemma accept_puts_guard:
  "tx_apply (acceptTransaction shards inp now) s (guardKey inp) = Some (It_Idempotency
     \<lparr>ig_requestBodyHash = ac_requestBodyHash inp, ig_eventId = ev_eventId (ac_event inp),
      ig_responseStatus = ac_responseStatus inp, ig_expiresAt = to_epoch (Iso (now + days 7))\<rparr>)"
  by (simp add: acceptTransaction_def Let_def eventIndexPut_def guardKey_def outboxPut_def)

lemma accept_puts_event:
  "tx_apply (acceptTransaction shards inp now) s
     (K_Event (cx_tenantId (ac_context inp)) (ev_eventId (ac_event inp))) = Some (stored_event (ac_event inp))"
  by (simp add: acceptTransaction_def Let_def eventIndexPut_def guardKey_def outboxPut_def)

context dynamo_alone
begin

lemma answer_run:
  "yields db view (answerFromGuard db inp g) w (Inr (answer_in (view w) (db_now db w) inp g)) (view w)"
proof (cases g)
  case None
  then show ?thesis by (simp add: answerFromGuard_def answer_in_def yields_return)
next
  case (Some h)
  let ?k = "K_Event (cx_tenantId (ac_context inp)) (ig_eventId h)"
  have "yields db view (bindM (getEvent db (cx_tenantId (ac_context inp)) (ig_eventId h))
      (\<lambda>event. returnM (case event of None \<Rightarrow> Conflict | Some e \<Rightarrow> Duplicate e))) w
      (Inr (case as_event (live_item (view w ?k) (db_now db w)) of None \<Rightarrow> Conflict | Some e \<Rightarrow> Duplicate e))
      (view w)"
    unfolding getEvent_def by (rule yields_bind [OF yields_core]) (simp add: yields_return)
  with Some show ?thesis by (simp add: answerFromGuard_def answer_in_def yields_return)
qed

lemma accept_run:
  "yields db view (accept db shards inp) w
     (Inr (if guard_in (view w) (db_now db w) inp \<noteq> None
           then answer_in (view w) (db_now db w) inp (guard_in (view w) (db_now db w) inp)
           else if tx_conditions (acceptTransaction shards inp (db_now db w)) (view w)
           then Accepted (ac_event inp) else Conflict))
     (if guard_in (view w) (db_now db w) inp = None
         \<and> tx_conditions (acceptTransaction shards inp (db_now db w)) (view w)
      then tx_apply (acceptTransaction shards inp (db_now db w)) (view w) else view w)"
  unfolding accept_def
proof (rule yields_bind [OF yields_core])
  fix w1
  assume w1: "view w1 = view w" "db_now db w1 = db_now db w"
  let ?now = "db_now db w" and ?g = "guard_in (view w) (db_now db w) inp"
  let ?ops = "acceptTransaction shards inp ?now"
  have again: "yields db view (bindM (mapM as_guard (getCore db (guardKey inp))) (answerFromGuard db inp)) w2
      (Inr Conflict) (view w)" if none: "?g = None" and w2: "view w2 = view w" "db_now db w2 = ?now" for w2
  proof (rule yields_bind [OF yields_core])
    fix w3
    assume w3: "view w3 = view w2" "db_now db w3 = db_now db w2"
    have "as_guard (live_item (view w2 (guardKey inp)) (db_now db w2)) = None"
      using none w2 by (simp add: guard_in_def)
    then show "yields db view (answerFromGuard db inp (as_guard (live_item (view w2 (guardKey inp)) (db_now db w2))))
        w3 (Inr Conflict) (view w)"
      using answer_run [of inp None w3] w2 w3 by (simp add: answer_in_def)
  qed
  have writes: "yields db view (withNow db (\<lambda>now. db_write db (acceptTransaction shards inp now))) w1
      (Inr (tx_conditions ?ops (view w))) (if tx_conditions ?ops (view w) then tx_apply ?ops (view w) else view w)"
    by (rule yields_withNow)
       (use yields_write [OF accept_distinct, of shards inp ?now w1] w1 in \<open>simp cong: if_cong\<close>)
  show "yields db view
     (if as_guard (live_item (view w (guardKey inp)) ?now) \<noteq> None
      then answerFromGuard db inp (as_guard (live_item (view w (guardKey inp)) ?now))
      else bindM (withNow db (\<lambda>now. db_write db (acceptTransaction shards inp now))) (\<lambda>ok.
           if ok then returnM (Accepted (ac_event inp))
           else bindM (mapM as_guard (getCore db (guardKey inp))) (answerFromGuard db inp))) w1
     (Inr (if ?g \<noteq> None then answer_in (view w) ?now inp ?g
           else if tx_conditions ?ops (view w) then Accepted (ac_event inp) else Conflict))
     (if ?g = None \<and> tx_conditions ?ops (view w) then tx_apply ?ops (view w) else view w)"
  proof (cases "?g = None")
    case True
    show ?thesis
      using True w1 again
      by (auto simp: guard_in_def [symmetric] intro!: yields_bind [OF writes] yields_return)
  next
    case False
    then show ?thesis
      using w1 answer_run [of inp ?g w1] by (auto simp: guard_in_def [symmetric])
  qed
qed

end

text \<open>
  When a request was accepted, a second request of the same producer with the same idempotency key,
  within the seven days that the guard lives and with the guard row still there, changes nothing: with
  the same body it gets the event as its row is then, marked as a duplicate, with any other body, or
  when the row has gone, a conflict.
\<close>

lemma accept_again:
  assumes "dynamo_alone db view" and "accept db shards inp w = (Inr (Accepted e), w1)"
    and "view w2 (guardKey inp) = view w1 (guardKey inp)" and "db_now db w2 + 1000 \<le> db_now db w + days 7"
    and "guardKey inp2 = guardKey inp" and "cx_tenantId (ac_context inp2) = cx_tenantId (ac_context inp)"
  shows "e = ac_event inp
    \<and> view w1 (K_Event (cx_tenantId (ac_context inp)) (ev_eventId e)) = Some (stored_event e)
    \<and> fst (accept db shards2 inp2 w2) =
      Inr (if ac_requestBodyHash inp2 = ac_requestBodyHash inp
       then (case as_event (live_item (view w2 (K_Event (cx_tenantId (ac_context inp)) (ev_eventId e))) (db_now db w2)) of
               None \<Rightarrow> Conflict | Some x \<Rightarrow> Duplicate x) else Conflict)
    \<and> view (snd (accept db shards2 inp2 w2)) = view w2"
proof -
  let ?now = "db_now db w2" and ?ops = "acceptTransaction shards inp (db_now db w)"
  note run = dynamo_alone.accept_run [OF assms(1), of shards inp w]
  have e: "e = ac_event inp" and w1: "view w1 = tx_apply ?ops (view w)"
    using run assms(2)
    by (auto simp: yields_def answer_in_def split: if_splits option.splits)
  let ?g = "\<lparr>ig_requestBodyHash = ac_requestBodyHash inp, ig_eventId = ev_eventId (ac_event inp),
      ig_responseStatus = ac_responseStatus inp, ig_expiresAt = to_epoch (Iso (db_now db w + days 7))\<rparr>"
  have "?now div 1000 < (db_now db w + days 7) div 1000"
    using zdiv_mono1 [OF assms(4), of 1000] by simp
  then have live: "\<not> isExpired (It_Idempotency ?g) ?now" by (simp add: isExpired_def to_epoch_def)
  have g: "guard_in (view w2) ?now inp2 = Some ?g"
    using live by (simp add: guard_in_def assms(3,5) w1 accept_puts_guard live_item_def)
  note run2 = dynamo_alone.accept_run [OF assms(1), of shards2 inp2 w2]
  show ?thesis
    unfolding yields_fst [OF run2] yields_view [OF run2] g
    by (simp add: e w1 accept_puts_event answer_in_def assms(6))
qed

text \<open>
  A key whose guard has expired. The table deletes expired rows some time after they expire; until
  then a new request with that key is answered with a conflict, because the read hides the expired
  guard and the transaction still finds it, and its event is not accepted.
\<close>

theorem expired_guard_conflicts:
  assumes "dynamo_alone db view" and "view w (guardKey inp) = Some (It_Idempotency g)"
    and "isExpired (It_Idempotency g) (db_now db w)"
  shows "fst (accept db shards inp w) = Inr Conflict \<and> view (snd (accept db shards inp w)) = view w"
proof -
  have g: "guard_in (view w) (db_now db w) inp = None"
    using assms(2,3) by (simp add: guard_in_def live_item_def)
  have c: "\<not> tx_conditions (acceptTransaction shards inp (db_now db w)) (view w)"
    using assms(2) by (simp add: acceptTransaction_def Let_def)
  note run = dynamo_alone.accept_run [OF assms(1), of shards inp w]
  show ?thesis unfolding yields_fst [OF run] yields_view [OF run] using g c by simp
qed

theorem expired_guard_conflicts_witness:
  "fst (accept (mem_db [] (=)) 4 sample_accept (sample_world [guardKey sample_accept \<mapsto>
      It_Idempotency \<lparr>ig_requestBodyHash = ''b'', ig_eventId = ''evt_0'', ig_responseStatus = 202,
        ig_expiresAt = Epoch 1\<rparr>])) = Inr Conflict"
proof -
  let ?g = "\<lparr>ig_requestBodyHash = ''b'', ig_eventId = ''evt_0'', ig_responseStatus = 202,
        ig_expiresAt = Epoch 1\<rparr>"
  have "isExpired (It_Idempotency ?g) (db_now (mem_db [] (=)) (sample_world [guardKey sample_accept \<mapsto> It_Idempotency ?g]))"
    by (simp add: isExpired_def mem_db_def sample_world_def)
  from expired_guard_conflicts [OF mem_is_alone _ this] show ?thesis by simp
qed

section \<open>Index rows\<close>

lemma finalize_keys:
  "op_key ` set (finalizeTransaction shards inp current event updated) \<subseteq>
     {K_Delivery (fi_tenantId inp) (fi_eventId inp) (d_deliveryId (fi_delivery inp)),
      attemptKey (fi_tenantId inp) (fi_eventId inp) (fi_attempt inp),
      historyKey (fi_tenantId inp) (fi_eventId inp) (fi_history inp),
      K_Event (fi_tenantId inp) (fi_eventId inp),
      K_Runtime (fi_tenantId inp) (d_destinationId (fi_delivery inp)) RT_Circuit}
     \<union> deliveryIndexKey current ` set (deliveryIndexCategories current)
     \<union> deliveryIndexKey (fi_delivery inp) ` set (deliveryIndexCategories (fi_delivery inp))
     \<union> {k. \<exists>sh c i. k = K_Outbox sh c i} \<union> {k. \<exists>t h x. k = K_Rollup t h x}
     \<union> {k. \<exists>t h x. k = K_DestinationRollup t h x}"
  by (cases "fi_outbox inp"; cases "fi_circuit inp")
     (auto simp: finalizeTransaction_def Let_def deliveryPut_def outboxPut_def circuitPut_def
        rollupUpdates_def indexDeletes_def indexPuts_def)

lemma start_keys:
  "op_key ` set (startTransaction inp token) =
     {K_Delivery (st_tenantId inp) (st_eventId inp) (d_deliveryId (st_delivery inp)),
      attemptKey (st_tenantId inp) (st_eventId inp) (st_attempt inp)}"
  by (simp add: startTransaction_def deliveryPut_def startedDelivery_def)

text \<open>
  Index rows outlive an attempt. \<open>startAttempt\<close> moves \<open>updatedAt\<close> of the delivery without
  replacing its index rows, so \<open>finalizeAttempt\<close>, which deletes the rows of the delivery it has
  read, deletes keys that do not exist: every row written when the lease was taken (the delivery as
  \<open>in_progress\<close>) is still on the index after the attempt has been finalized.
\<close>

theorem index_rows_outlive_attempt:
  assumes "s (deliveryIndexKey leased c) = Some row" and "st_delivery inp = leased"
    and "at_startedAt (st_attempt inp) \<noteq> d_updatedAt leased"
    and "d_updatedAt (fi_delivery finp) \<noteq> d_updatedAt leased"
  shows "tx_apply (finalizeTransaction shards finp (startedDelivery inp) event updated)
      (tx_apply (startTransaction inp token) s) (deliveryIndexKey leased c) = Some row"
proof -
  have "deliveryIndexKey leased c \<notin> op_key ` set (startTransaction inp token)"
    by (simp add: start_keys deliveryIndexKey_def attemptKey_def)
  moreover have "deliveryIndexKey leased c
      \<notin> op_key ` set (finalizeTransaction shards finp (startedDelivery inp) event updated)"
  proof
    assume "deliveryIndexKey leased c
      \<in> op_key ` set (finalizeTransaction shards finp (startedDelivery inp) event updated)"
    with finalize_keys [of shards finp "startedDelivery inp" event updated] assms(2-4) show False
      by (auto simp: deliveryIndexKey_def attemptKey_def historyKey_def startedDelivery_def)
  qed
  ultimately show ?thesis using assms(1) by (simp add: tx_apply_other)
qed

theorem index_rows_outlive_attempt_witness:
  "\<exists>row. tx_apply (finalizeTransaction 4 sample_finalize (startedDelivery sample_start) sample_event sample_event)
      (tx_apply (startTransaction sample_start ''lease_1'')
        [K_DeliveryIndex ''t1'' ''STATUS#in_progress'' 2000 ''dlv_1'' \<mapsto> deliveryIndexItem sample_leased])
      (K_DeliveryIndex ''t1'' ''STATUS#in_progress'' 2000 ''dlv_1'') = Some row"
proof -
  have k: "deliveryIndexKey sample_leased ''STATUS#in_progress''
      = K_DeliveryIndex ''t1'' ''STATUS#in_progress'' 2000 ''dlv_1''"
    by (simp add: deliveryIndexKey_def sample_leased_def sample_defs)
  show ?thesis
    using index_rows_outlive_attempt [where leased = sample_leased and c = "''STATUS#in_progress''"
        and inp = sample_start and finp = sample_finalize, unfolded k]
    by (force simp: sample_start_def sample_finalize_def sample_attempt_def sample_leased_def sample_defs
        sample_success_transition_def)
qed

definition statusRow :: "canonical_event \<Rightarrow> item" where
  "statusRow e = It_EventIndex \<lparr>ei_eventId = ev_eventId e, ei_eventType = None,
     ei_status = Some (ev_status e), ei_acceptedAt = ev_acceptedAt e,
     ei_expiresAt = to_epoch (ev_expiresAt e)\<rparr>"

lemma status_ops_at:
  assumes "ev_status event \<noteq> ev_status updated" and "tx_ok ops s"
    and "set (statusIndexOps t event updated) \<subseteq> set ops"
  shows "tx_apply ops s (eventStatusKey t event) = None
    \<and> tx_apply ops s (eventStatusKey t updated) = Some (statusRow updated)"
proof -
  have d: "tx_distinct ops" using assms(2) by (simp add: tx_ok_def)
  have mem: "delete_op (eventStatusKey t event) always \<in> set ops"
      "put_op (eventStatusKey t updated) always (statusRow updated) \<in> set ops"
    using assms(1,3) by (auto simp: statusIndexOps_def statusRow_def)
  show ?thesis using tx_apply_at [OF mem(1) d, of s] tx_apply_at [OF mem(2) d, of s] by simp
qed

text \<open>
  The status row of an event. \<open>createDelivery\<close> and \<open>completeRouting\<close> move the row that lists an
  event under its status together with the status: after their commit the old row is gone and the
  new one is there. \<open>finalizeAttempt\<close> changes the status of the event as well, and touches no such
  row: the event stays listed under its old status and is not put under the new one.
\<close>

theorem status_row_follows_status:
  assumes "ev_status event \<noteq> ev_status updated"
  shows "(tx_ok (createTransaction shards inp event updated) s \<longrightarrow>
        tx_apply (createTransaction shards inp event updated) s
          (eventStatusKey (cx_tenantId (cr_context inp)) event) = None
        \<and> tx_apply (createTransaction shards inp event updated) s
          (eventStatusKey (cx_tenantId (cr_context inp)) updated) = Some (statusRow updated))
    \<and> (tx_ok (completeTransaction t event updated) s \<longrightarrow>
        tx_apply (completeTransaction t event updated) s (eventStatusKey t event) = None
        \<and> tx_apply (completeTransaction t event updated) s (eventStatusKey t updated)
            = Some (statusRow updated))
    \<and> (\<forall>t category accepted e. tx_apply (finalizeTransaction shards finp current event updated) s
          (K_EventIndex t category accepted e) = s (K_EventIndex t category accepted e))"
proof (intro conjI impI allI)
  fix t category accepted e
  have "K_EventIndex t category accepted e \<notin> op_key ` set (finalizeTransaction shards finp current event updated)"
    using finalize_keys [of shards finp current event updated]
    by (auto simp: deliveryIndexKey_def attemptKey_def historyKey_def)
  then show "tx_apply (finalizeTransaction shards finp current event updated) s
      (K_EventIndex t category accepted e) = s (K_EventIndex t category accepted e)"
    by (rule tx_apply_other)
next
  assume ok: "tx_ok (createTransaction shards inp event updated) s"
  have "set (statusIndexOps (cx_tenantId (cr_context inp)) event updated)
      \<subseteq> set (createTransaction shards inp event updated)"
    by (auto simp: createTransaction_def Let_def)
  note at = status_ops_at [OF assms ok this]
  from at show "tx_apply (createTransaction shards inp event updated) s
      (eventStatusKey (cx_tenantId (cr_context inp)) event) = None" by simp
  from at show "tx_apply (createTransaction shards inp event updated) s
      (eventStatusKey (cx_tenantId (cr_context inp)) updated) = Some (statusRow updated)" by simp
next
  assume ok: "tx_ok (completeTransaction t event updated) s"
  have "set (statusIndexOps t event updated) \<subseteq> set (completeTransaction t event updated)"
    by (auto simp: completeTransaction_def)
  note at = status_ops_at [OF assms ok this]
  from at show "tx_apply (completeTransaction t event updated) s (eventStatusKey t event) = None" by simp
  from at show "tx_apply (completeTransaction t event updated) s (eventStatusKey t updated)
      = Some (statusRow updated)" by simp
qed

theorem status_row_follows_status_witness:
  "tx_apply (finalizeTransaction 4 sample_finalize sample_started sample_event
       (sample_event\<lparr>ev_status := Ev_Succeeded\<rparr>))
     [K_EventIndex ''t1'' ''STATUS#processing'' 500 ''evt_1'' \<mapsto> statusRow sample_event]
     (K_EventIndex ''t1'' ''STATUS#processing'' 500 ''evt_1'') = Some (statusRow sample_event)"
proof -
  have "ev_status sample_event \<noteq> ev_status (sample_event\<lparr>ev_status := Ev_Succeeded\<rparr>)"
    by (simp add: sample_event_def)
  from status_row_follows_status [OF this, of 4 _ _ _ sample_finalize sample_started]
  show ?thesis by simp
qed

end
