(* ===== verification/Permits.thy ===== *)
theory Permits
  imports Alone
begin

text \<open>
  The runtime state of a destination: the rate limiter and the circuit breaker, each one row that the
  workers compare and swap by its version, up to eight times.
\<close>

section \<open>The rate limiter\<close>

fun as_rate :: "item option \<Rightarrow> rate_limit_state option" where
  "as_rate (Some (It_RateLimit r)) = Some r"
| "as_rate _ = None"

fun as_circuit :: "item option \<Rightarrow> circuit_state option" where
  "as_circuit (Some (It_Circuit c)) = Some c"
| "as_circuit _ = None"

record rate_input =
  ri_tenantId :: string
  ri_destinationId :: string
  ri_policy :: rate_limit_policy
  ri_now :: instant

record rate_permit =
  rt_permitted :: bool
  rt_nextEligibleAt :: instant

definition rate_version :: "rate_limit_state option \<Rightarrow> int" where
  "rate_version current = (case current of None \<Rightarrow> 0 | Some c \<Rightarrow> rs_version c)"

definition rateNext :: "rate_limit_state option \<Rightarrow> rate_limit_policy \<Rightarrow> instant \<Rightarrow> rate_limit_state" where
  "rateNext current policy now = \<lparr>rs_theoreticalArrivalTimeMs =
       (case rd_nextTheoreticalArrivalTimeMs (rateLimitDecision current policy now) of
          None \<Rightarrow> now | Some t \<Rightarrow> t),
     rs_updatedAt = now, rs_policyHash = policy, rs_version = rate_version current + 1\<rparr>"

definition rateKey :: "rate_input \<Rightarrow> dkey" where
  "rateKey inp = K_Runtime (ri_tenantId inp) (ri_destinationId inp) RT_Rate_Limit"

definition ratePut :: "rate_input \<Rightarrow> rate_limit_state option \<Rightarrow> tx_op" where
  "ratePut inp current = put_op (rateKey inp) (absent_or_version (rate_version current))
     (It_RateLimit (rateNext current (ri_policy inp) (ri_now inp)))"

definition ratePermitRound :: "'w dynamo \<Rightarrow> rate_input \<Rightarrow> ('w, rate_permit option) op" where
  "ratePermitRound db inp =
     bindM (mapM as_rate (getCore db (rateKey inp))) (\<lambda>current.
       (let decision = rateLimitDecision current (ri_policy inp) (ri_now inp) in
        if \<not> rd_permitted decision
        then returnM (Some \<lparr>rt_permitted = False, rt_nextEligibleAt = rd_nextEligibleAtMs decision\<rparr>)
        else bindM (db_write db [ratePut inp current]) (\<lambda>ok.
             returnM (if ok then Some \<lparr>rt_permitted = True, rt_nextEligibleAt = ri_now inp\<rparr>
                      else None))))"

definition acquireRatePermit :: "'w dynamo \<Rightarrow> rate_input \<Rightarrow> ('w, rate_permit) op" where
  "acquireRatePermit db inp =
     retryM 8 (ratePermitRound db inp)
       (returnM \<lparr>rt_permitted = False, rt_nextEligibleAt = ri_now inp + 5000\<rparr>)"

section \<open>The circuit breaker\<close>

record circuit_input =
  qi_tenantId :: string
  qi_destinationId :: string
  qi_policy :: circuit_breaker_policy
  qi_owner :: string
  qi_now :: instant

record circuit_permit =
  cp_allowed :: bool
  cp_probe :: bool
  cp_nextEligibleAt :: "instant option"
  cp_state :: circuit_state

text \<open>\<open>new Date(ms)\<close> drops the fraction of a millisecond.\<close>

definition js_date :: "rat \<Rightarrow> instant" where
  "js_date q = (if 0 \<le> q then \<lfloor>q\<rfloor> else \<lceil>q\<rceil>)"

definition after_seconds :: "instant \<Rightarrow> rat \<Rightarrow> instant" where
  "after_seconds now seconds = js_date (of_int now + seconds * 1000)"

definition initial_circuit :: circuit_state where
  "initial_circuit = \<lparr>ci_state = CLOSED, ci_consecutiveFailures = 0, ci_openedAt = None,
     ci_nextProbeAt = None, ci_probeLeaseOwner = None, ci_probeLeaseExpiresAt = None, ci_version = 0\<rparr>"

definition circuitKey :: "circuit_input \<Rightarrow> dkey" where
  "circuitKey inp = K_Runtime (qi_tenantId inp) (qi_destinationId inp) RT_Circuit"

definition probeState :: "circuit_input \<Rightarrow> circuit_state \<Rightarrow> circuit_state" where
  "probeState inp current = current\<lparr>ci_state := HALF_OPEN, ci_probeLeaseOwner := Some (qi_owner inp),
     ci_probeLeaseExpiresAt := Some (after_seconds (qi_now inp) (cb_probeLeaseSeconds (qi_policy inp))),
     ci_version := ci_version current + 1\<rparr>"

text \<open>The answer that needs no write: the circuit is closed, or open and waiting, or being probed.\<close>

definition circuitGate :: "circuit_state \<Rightarrow> instant \<Rightarrow> circuit_permit option" where
  "circuitGate current now =
     (if ci_state current = CLOSED
      then Some \<lparr>cp_allowed = True, cp_probe = False, cp_nextEligibleAt = None, cp_state = current\<rparr>
      else (let nextProbe = (case ci_nextProbeAt current of None \<Rightarrow> now | Some n \<Rightarrow> n) in
        if ci_state current = OPEN \<and> nextProbe > now
        then Some \<lparr>cp_allowed = False, cp_probe = False, cp_nextEligibleAt = Some nextProbe,
               cp_state = current\<rparr>
        else (case ci_probeLeaseExpiresAt current of
            None \<Rightarrow> None
          | Some expiration \<Rightarrow>
              if ci_state current = HALF_OPEN \<and> expiration > now
              then Some \<lparr>cp_allowed = False, cp_probe = False, cp_nextEligibleAt = Some expiration,
                     cp_state = current\<rparr>
              else None)))"

definition probePut :: "circuit_input \<Rightarrow> circuit_state \<Rightarrow> tx_op" where
  "probePut inp current = put_op (circuitKey inp) (absent_or_version (ci_version current))
     (It_Circuit (probeState inp current))"

definition circuitPermitRound :: "'w dynamo \<Rightarrow> circuit_input \<Rightarrow> ('w, circuit_permit option) op" where
  "circuitPermitRound db inp =
     bindM (mapM as_circuit (getCore db (circuitKey inp))) (\<lambda>found.
       (let current = (case found of None \<Rightarrow> initial_circuit | Some c \<Rightarrow> c) in
        case circuitGate current (qi_now inp) of
          Some answer \<Rightarrow> returnM (Some answer)
        | None \<Rightarrow>
            bindM (db_write db [probePut inp current]) (\<lambda>ok.
              returnM (if ok then Some \<lparr>cp_allowed = True, cp_probe = True, cp_nextEligibleAt = None,
                         cp_state = probeState inp current\<rparr> else None))))"

definition contended_circuit :: "circuit_input \<Rightarrow> circuit_permit" where
  "contended_circuit inp = \<lparr>cp_allowed = False, cp_probe = False,
     cp_nextEligibleAt = Some (qi_now inp + 5000),
     cp_state = initial_circuit\<lparr>ci_state := OPEN, ci_nextProbeAt := Some (qi_now inp + 5000)\<rparr>\<rparr>"

definition acquireCircuitPermit :: "'w dynamo \<Rightarrow> circuit_input \<Rightarrow> ('w, circuit_permit) op" where
  "acquireCircuitPermit db inp =
     retryM 8 (circuitPermitRound db inp) (returnM (contended_circuit inp))"

record after_input =
  ai_current :: circuit_state
  ai_policy :: circuit_breaker_policy
  ai_now :: instant
  ai_success :: bool
  ai_countsTowardCircuit :: bool
  ai_probe :: bool

definition circuitAfterAttempt :: "after_input \<Rightarrow> circuit_state" where
  "circuitAfterAttempt inp =
     (let version = ci_version (ai_current inp) + 1;
          failures = ci_consecutiveFailures (ai_current inp) + 1
      in if ai_success inp then initial_circuit\<lparr>ci_version := version\<rparr>
         else if \<not> ai_countsTowardCircuit inp then (ai_current inp)\<lparr>ci_version := version\<rparr>
         else if ai_probe inp \<or> failures \<ge> cb_failureThreshold (ai_policy inp)
         then initial_circuit\<lparr>ci_state := OPEN, ci_consecutiveFailures := failures,
                ci_openedAt := Some (ai_now inp),
                ci_nextProbeAt := Some (after_seconds (ai_now inp) (cb_cooldownSeconds (ai_policy inp))),
                ci_version := version\<rparr>
         else initial_circuit\<lparr>ci_consecutiveFailures := failures, ci_version := version\<rparr>)"

section \<open>Conformance of the rate limiter\<close>

text \<open>
  \<open>grants p st ts st'\<close>: from the state \<open>st\<close>, permits at the times \<open>ts\<close>, one after the other, lead to
  \<open>st'\<close>.
\<close>

fun grants ::
    "rate_limit_policy \<Rightarrow> rate_limit_state option \<Rightarrow> instant list \<Rightarrow> rate_limit_state option \<Rightarrow> bool" where
  "grants p st [] st' \<longleftrightarrow> st' = st"
| "grants p st (t # ts) st' \<longleftrightarrow>
     rd_permitted (rateLimitDecision st p t) \<and> grants p (Some (rateNext st p t)) ts st'"

lemma grants_append: "grants p st (ts @ us) st' \<longleftrightarrow> (\<exists>m. grants p st ts m \<and> grants p m us st')"
  by (induction ts arbitrary: st) auto

lemma rateIncrement_pos:
  "validatePolicy (raw_rate_limit_policy p) = Inr () \<Longrightarrow> 0 < rateIncrement p"
  by (auto simp: validate_rate_iff rateIncrement_def)

definition tolerance :: "rate_limit_policy \<Rightarrow> rat" where
  "tolerance p = rateIncrement p * max 0 (rl_burstCapacity p - 1)"

definition tat_of :: "rate_limit_state option \<Rightarrow> instant \<Rightarrow> int" where
  "tat_of st t = (case st of None \<Rightarrow> t | Some s \<Rightarrow> rs_theoreticalArrivalTimeMs s)"

lemma permitted_iff:
  "rd_permitted (rateLimitDecision st p t) \<longleftrightarrow> of_int (tat_of st t) - tolerance p \<le> of_int t"
  by (auto simp: rateLimitDecision_def Let_def tat_of_def tolerance_def not_less split: option.splits)

lemma permitted_tat:
  assumes "rd_permitted (rateLimitDecision st p t)"
  shows "rd_nextTheoreticalArrivalTimeMs (rateLimitDecision st p t)
     = Some \<lceil>of_int (max t (tat_of st t)) + rateIncrement p\<rceil>"
  using assms unfolding rateLimitDecision_def Let_def tat_of_def by (simp split: if_splits)

lemma next_tat:
  assumes "rd_permitted (rateLimitDecision st p t)"
  shows "of_int (max t (tat_of st t)) + rateIncrement p \<le> of_int (rs_theoreticalArrivalTimeMs (rateNext st p t))"
  unfolding rateNext_def permitted_tat [OF assms] by simp

lemma increments:
  "ts \<noteq> [] \<Longrightarrow> rateIncrement p * of_nat (length ts)
     = rateIncrement p * of_nat (length ts - 1) + rateIncrement p"
  by (cases ts) (simp_all add: algebra_simps)

text \<open>After \<open>n\<close> permits the theoretical arrival time has moved by at least \<open>n\<close> increments.\<close>

lemma last_permit_after:
  assumes "grants p (Some st) ts st'" and "ts \<noteq> []"
  shows "of_int (rs_theoreticalArrivalTimeMs st) + rateIncrement p * of_nat (length ts - 1) - tolerance p
     \<le> of_int (last ts)"
  using assms
proof (induction ts arbitrary: st)
  case (Cons t ts)
  show ?case
  proof (cases "ts = []")
    case True
    with Cons.prems show ?thesis by (simp add: permitted_iff tat_of_def)
  next
    case False
    from Cons.prems have perm: "rd_permitted (rateLimitDecision (Some st) p t)"
      and rest: "grants p (Some (rateNext (Some st) p t)) ts st'" by auto
    have "of_int (rs_theoreticalArrivalTimeMs st) \<le> (of_int (max t (tat_of (Some st) t)) :: rat)"
      by (simp only: of_int_le_iff) (simp add: tat_of_def)
    with next_tat [OF perm] Cons.IH [OF rest False] increments [OF False, of p] False
    show ?thesis by simp
  qed
qed simp

text \<open>
  C9. The rate limiter conforms. Whatever number of permits are granted one after the other from any
  state of the row, under a policy that passed validation, the \<open>n\<close> permits take at least the time of
  \<open>n - 1\<close> increments less the burst tolerance: \<open>(n - 1) * increment <= span + increment * max 0 (burst - 1)\<close>,
  where the increment is the interval over the requests allowed in it, scaled by the safety factor.
\<close>

theorem rate_limit_conforms:
  assumes "validatePolicy (raw_rate_limit_policy p) = Inr ()" and "grants p st ts st'" and "ts \<noteq> []"
  shows "rateIncrement p * of_nat (length ts - 1)
     \<le> of_int (last ts - hd ts) + rateIncrement p * max 0 (rl_burstCapacity p - 1)"
proof -
  obtain t us where ts: "ts = t # us" using assms(3) by (cases ts) auto
  have tol: "0 \<le> tolerance p" using rateIncrement_pos [OF assms(1)] by (simp add: tolerance_def)
  show ?thesis
  proof (cases "us = []")
    case True
    then show ?thesis using ts tol by (simp add: tolerance_def)
  next
    case False
    from assms(2) ts have perm: "rd_permitted (rateLimitDecision st p t)"
      and rest: "grants p (Some (rateNext st p t)) us st'" by auto
    have "of_int t \<le> (of_int (max t (tat_of st t)) :: rat)"
      by simp
    with next_tat [OF perm] last_permit_after [OF rest False] increments [OF False, of p] False ts
    show ?thesis by (simp add: tolerance_def)
  qed
qed

definition sample_rate_policy :: rate_limit_policy where
  "sample_rate_policy = \<lparr>rl_requestsPerInterval = 2, rl_intervalSeconds = 1, rl_burstCapacity = 2,
     rl_safetyFactor = 1\<rparr>"

theorem rate_limit_conforms_witness:
  "\<exists>st. grants sample_rate_policy None [0, 0, 500] st \<and> rateIncrement sample_rate_policy * 2
     \<le> 500 + rateIncrement sample_rate_policy"
proof -
  have g: "grants sample_rate_policy None [0, 0, 500]
      (Some (rateNext (Some (rateNext (Some (rateNext None sample_rate_policy 0)) sample_rate_policy 0))
        sample_rate_policy 500))"
    by (simp add: rateLimitDecision_def rateNext_def Let_def rateIncrement_def sample_rate_policy_def)
  have "validatePolicy (raw_rate_limit_policy sample_rate_policy) = Inr ()"
    by (simp add: validate_rate_iff sample_rate_policy_def)
  from rate_limit_conforms [OF this g] g show ?thesis
    by (auto simp: sample_rate_policy_def max_def)
qed

text \<open>
  A denial names the right moment. When a request is denied, it is denied for every earlier
  millisecond too, and with the row unchanged it is permitted from \<open>nextEligibleAt\<close> on.
\<close>

theorem rate_denial_is_exact:
  assumes "\<not> rd_permitted (rateLimitDecision (Some st) p now)"
  shows "now < rd_nextEligibleAtMs (rateLimitDecision (Some st) p now)
    \<and> (\<forall>t. rd_permitted (rateLimitDecision (Some st) p t)
          \<longleftrightarrow> rd_nextEligibleAtMs (rateLimitDecision (Some st) p now) \<le> t)"
proof -
  let ?e = "of_int (rs_theoreticalArrivalTimeMs st) - tolerance p"
  have nxt: "rd_nextEligibleAtMs (rateLimitDecision (Some st) p now) = \<lceil>?e\<rceil>"
    using assms by (auto simp: rateLimitDecision_def Let_def tolerance_def split: if_splits)
  have "rd_permitted (rateLimitDecision (Some st) p t) \<longleftrightarrow> \<lceil>?e\<rceil> \<le> t" for t
    by (simp add: permitted_iff tat_of_def ceiling_le_iff)
  with nxt assms show ?thesis by (metis not_le)
qed

theorem rate_denial_is_exact_witness:
  "rd_permitted (rateLimitDecision (Some \<lparr>rs_theoreticalArrivalTimeMs = 1000, rs_updatedAt = 0,
      rs_policyHash = sample_rate_policy, rs_version = 1\<rparr>) sample_rate_policy 500)"
proof -
  let ?st = "\<lparr>rs_theoreticalArrivalTimeMs = 1000, rs_updatedAt = 0, rs_policyHash = sample_rate_policy,
      rs_version = 1\<rparr>"
  have d: "\<not> rd_permitted (rateLimitDecision (Some ?st) sample_rate_policy 0)"
    and n: "rd_nextEligibleAtMs (rateLimitDecision (Some ?st) sample_rate_policy 0) = 500"
    by (simp_all add: rateLimitDecision_def Let_def rateIncrement_def sample_rate_policy_def max_def)
  from rate_denial_is_exact [OF d] n show ?thesis by simp
qed

section \<open>Permits of concurrent workers\<close>

text \<open>
  All clients of the row of the limiter \<open>k\<close> change it by grants under the policy \<open>p\<close>. Then each
  permit that \<open>acquireRatePermit\<close> returns is one of the grants of the row, at the time that was asked
  for.
\<close>

definition rate_row :: "dkey \<Rightarrow> dtable \<Rightarrow> bool" where
  "rate_row k s \<longleftrightarrow> s k = None \<or> (\<exists>r. s k = Some (It_RateLimit r) \<and> 0 < rs_version r)"

definition rate_rely :: "dkey \<Rightarrow> rate_limit_policy \<Rightarrow> dtable \<Rightarrow> dtable \<Rightarrow> bool" where
  "rate_rely k p s u \<longleftrightarrow> (rate_row k s \<longleftrightarrow> rate_row k u)
     \<and> (rate_row k s \<longrightarrow> (\<exists>ts. grants p (as_rate (s k)) ts (as_rate (u k))))"

lemma rate_rely_refl: "rate_rely k p s s"
  by (auto simp: rate_rely_def intro: exI [of _ "[]"])

lemma rate_rely_trans: "rate_rely k p s t \<Longrightarrow> rate_rely k p t u \<Longrightarrow> rate_rely k p s u"
  unfolding rate_rely_def using grants_append by metis

lemma grants_version: "grants p st ts st' \<Longrightarrow> rate_version st' = rate_version st + int (length ts)"
  by (induction ts arbitrary: st) (auto simp: rateNext_def rate_version_def)

lemma rate_version_row: "rate_row k s \<Longrightarrow> 0 \<le> rate_version (as_rate (s k))"
  by (auto simp: rate_row_def rate_version_def)

lemma live_rate: "rate_row k s \<Longrightarrow> as_rate (live_item (s k) now) = as_rate (s k)"
  by (auto simp: rate_row_def live_item_def isExpired_def)

lemma checked_rate_current:
  assumes "rate_row k s" and "rate_rely k p s u"
    and "absent_or_version (rate_version (as_rate (s k))) (u k)"
  shows "as_rate (u k) = as_rate (s k)"
proof -
  from assms(1,2) obtain ts where ts: "grants p (as_rate (s k)) ts (as_rate (u k))"
    and row: "rate_row k u" by (auto simp: rate_rely_def)
  have "rate_version (as_rate (u k)) \<le> rate_version (as_rate (s k))"
    using assms(3) row rate_version_row [OF assms(1)]
    by (auto simp: absent_or_version_def version_is_def rate_row_def rate_version_def)
  with grants_version [OF ts] have "ts = []" by simp
  with ts show ?thesis by simp
qed

locale rate_table = dynamo_table db view "rate_rely k p"
  for db :: "'w dynamo" and view :: "'w \<Rightarrow> dtable" and k :: dkey and p :: rate_limit_policy
begin

definition granted :: "rate_limit_state option \<Rightarrow> dtable \<Rightarrow> bool" where
  "granted st u \<longleftrightarrow> rate_row k u \<and> (\<exists>ts. grants p st ts (as_rate (u k)))"

definition granted_at :: "rate_limit_state option \<Rightarrow> instant \<Rightarrow> dtable \<Rightarrow> bool" where
  "granted_at st now u \<longleftrightarrow> rate_row k u \<and> (\<exists>ts us. grants p st (ts @ now # us) (as_rate (u k)))"

lemma stable_granted: "stable (rate_rely k p) (granted st)"
  unfolding stable_def granted_def rate_rely_def using grants_append by metis

lemma granted_commit:
  assumes "rate_row k s" and "rate_rely k p s u" and "granted st u"
    and key: "k = rateKey inp" "p = ri_policy inp"
    and perm: "rd_permitted (rateLimitDecision (as_rate (s k)) p (ri_now inp))"
    and ok: "tx_ok [ratePut inp (as_rate (s k))] u"
  shows "granted_at st (ri_now inp) (tx_apply [ratePut inp (as_rate (s k))] u)"
proof -
  have cur: "as_rate (u k) = as_rate (s k)"
    using ok key by (intro checked_rate_current [OF assms(1,2)]) (simp add: tx_ok_def ratePut_def)
  let ?next = "rateNext (as_rate (s k)) p (ri_now inp)"
  have u: "tx_apply [ratePut inp (as_rate (s k))] u k = Some (It_RateLimit ?next)"
    using key by (simp add: ratePut_def)
  from assms(3) obtain ts where "grants p st ts (as_rate (s k))" by (auto simp: granted_def cur)
  moreover have "grants p (as_rate (s k)) [ri_now inp] (Some ?next)" using perm by simp
  ultimately have "grants p st (ts @ ri_now inp # []) (Some ?next)" using grants_append by blast
  moreover have "0 < rs_version ?next"
    using rate_version_row [OF assms(1)] by (simp add: rateNext_def)
  ultimately show ?thesis
    unfolding granted_at_def u rate_row_def by auto
qed

lemma permit_round:
  assumes key: "k = rateKey inp" "p = ri_policy inp"
  shows "hoare view (granted st) (ratePermitRound db inp)
    (\<lambda>r u. case r of None \<Rightarrow> granted st u
       | Some a \<Rightarrow> rt_permitted a \<longrightarrow> granted_at st (ri_now inp) u) (\<lambda>_. True)"
proof -
  have read: "hoare view (granted st) (mapM as_rate (getCore db (rateKey inp)))
      (\<lambda>c u. \<exists>s. rate_row k s \<and> rate_rely k p s u \<and> granted st u \<and> c = as_rate (s k)) (\<lambda>_. True)"
  proof (rule hoareI)
    fix w r w'
    assume P: "granted st (view w)" and run: "mapM as_rate (getCore db (rateKey inp)) w = (r, w')"
    obtain g w1 where g: "db_get db k w = (g, w1)" by (cases "db_get db k w")
    from get_law [OF g] have rel: "rate_rely k p (view w) (view w1)"
      and val: "\<And>x. g = Inr x \<Longrightarrow> \<exists>s. rate_rely k p s (view w1) \<and> x = s k" by auto
    from stableD [OF stable_granted P rel] have P1: "granted st (view w1)" .
    show "case r of Inr c \<Rightarrow> \<exists>s. rate_row k s \<and> rate_rely k p s (view w') \<and> granted st (view w')
          \<and> c = as_rate (s k) | Inl e \<Rightarrow> True"
    proof (cases g)
      case (Inl e)
      with run g key show ?thesis by (auto simp: mapM_def getCore_def bindM_def)
    next
      case (Inr x)
      with run g key have r: "r = Inr (as_rate (live_item x (db_now db w1)))" and w': "w' = w1"
        by (auto simp: mapM_def getCore_def bindM_def returnM_def)
      from val [OF Inr] obtain s where s: "rate_rely k p s (view w1)" "x = s k" by blast
      have "rate_row k s" using s(1) P1 by (simp add: rate_rely_def granted_def)
      with s r w' P1 live_rate show ?thesis by auto
    qed
  qed
  have step: "hoare view (\<lambda>u. \<exists>s. rate_row k s \<and> rate_rely k p s u \<and> granted st u \<and> c = as_rate (s k))
      (let decision = rateLimitDecision c (ri_policy inp) (ri_now inp) in
        if \<not> rd_permitted decision
        then returnM (Some \<lparr>rt_permitted = False, rt_nextEligibleAt = rd_nextEligibleAtMs decision\<rparr>)
        else bindM (db_write db [ratePut inp c]) (\<lambda>ok.
             returnM (if ok then Some \<lparr>rt_permitted = True, rt_nextEligibleAt = ri_now inp\<rparr>
                      else None)))
      (\<lambda>r u. case r of None \<Rightarrow> granted st u
       | Some a \<Rightarrow> rt_permitted a \<longrightarrow> granted_at st (ri_now inp) u) (\<lambda>_. True)" for c
  proof (rule hoare_ex, cases "rd_permitted (rateLimitDecision c (ri_policy inp) (ri_now inp))")
    fix s
    let ?P = "\<lambda>u. rate_row k s \<and> rate_rely k p s u \<and> granted st u \<and> c = as_rate (s k)"
    case True
    have st: "stable (rate_rely k p) ?P"
      unfolding stable_def using rate_rely_trans stableD [OF stable_granted] by blast
    have "hoare view ?P (db_write db [ratePut inp c])
        (\<lambda>b u. if b then granted_at st (ri_now inp) u else granted st u) (\<lambda>_. True)"
      by (rule hoare_write [OF st]) (use True key granted_commit in auto)
    with True show "hoare view ?P
      (let decision = rateLimitDecision c (ri_policy inp) (ri_now inp) in
        if \<not> rd_permitted decision
        then returnM (Some \<lparr>rt_permitted = False, rt_nextEligibleAt = rd_nextEligibleAtMs decision\<rparr>)
        else bindM (db_write db [ratePut inp c]) (\<lambda>ok.
             returnM (if ok then Some \<lparr>rt_permitted = True, rt_nextEligibleAt = ri_now inp\<rparr>
                      else None)))
      (\<lambda>r u. case r of None \<Rightarrow> granted st u
       | Some a \<Rightarrow> rt_permitted a \<longrightarrow> granted_at st (ri_now inp) u) (\<lambda>_. True)"
      by (auto simp: Let_def intro!: hoare_bind hoare_return)
  qed (auto simp: Let_def intro!: hoare_return)
  show ?thesis
    unfolding ratePermitRound_def by (rule hoare_bind [OF read step])
qed

lemma permit_keeps:
  assumes key: "k = rateKey inp" "p = ri_policy inp"
  shows "hoare view (granted st) (acquireRatePermit db inp)
    (\<lambda>a u. rt_permitted a \<longrightarrow> granted_at st (ri_now inp) u) (\<lambda>_. True)"
  unfolding acquireRatePermit_def
  by (rule hoare_retry [OF permit_round [OF key]]) (simp add: hoare_return)

end

interpretation mem_rate: rate_table "mem_db ks (rate_rely k p)" mem_table k p for ks k p
  unfolding rate_table_def
  by (rule mem_db_laws) (auto intro: rate_rely_refl rate_rely_trans)

text \<open>
  C10. Concurrent permits are grants. Whatever the other workers do to the row of the limiter, so long
  as they change it by grants, a permit that is returned is one of the grants between the table
  before the call and the table after it, at the requested time; no two calls can be answered from
  one grant, because each has written its own.
\<close>

theorem permit_is_a_grant:
  assumes "rate_table db view (rateKey inp) (ri_policy inp)" and "rate_row (rateKey inp) (view w)"
    and "acquireRatePermit db inp w = (Inr a, w')" and "rt_permitted a"
  shows "\<exists>ts us. grants (ri_policy inp) (as_rate (view w (rateKey inp))) (ts @ ri_now inp # us)
    (as_rate (view w' (rateKey inp)))"
proof -
  have "rate_table.granted (rateKey inp) (ri_policy inp) (as_rate (view w (rateKey inp))) (view w)"
    using assms(2) by (auto simp: rate_table.granted_def [OF assms(1)] intro: exI [of _ "[]"])
  from hoareD [OF rate_table.permit_keeps [OF assms(1) refl refl] this assms(3)] assms(4)
  show ?thesis by (auto simp: rate_table.granted_at_def [OF assms(1)])
qed

definition sample_rate :: rate_input where
  "sample_rate = \<lparr>ri_tenantId = ''t1'', ri_destinationId = ''dst_1'', ri_policy = sample_rate_policy,
     ri_now = 100\<rparr>"

theorem permit_is_a_grant_witness:
  "\<exists>a w'. acquireRatePermit (mem_db [] (rate_rely (rateKey sample_rate) (ri_policy sample_rate)))
       sample_rate (sample_world Map.empty) = (Inr a, w')
     \<and> rt_permitted a
     \<and> (\<exists>ts us. grants (ri_policy sample_rate) None (ts @ 100 # us)
          (as_rate (mem_table w' (rateKey sample_rate))))"
proof -
  let ?db = "mem_db [] (rate_rely (rateKey sample_rate) (ri_policy sample_rate))"
  have perm: "rd_permitted (rateLimitDecision None (ri_policy sample_rate) (ri_now sample_rate))"
    by (simp add: rateLimitDecision_def Let_def rateIncrement_def sample_rate_def sample_rate_policy_def max_def)
  have cond: "tx_conditions [ratePut sample_rate None] Map.empty" "tx_distinct [ratePut sample_rate None]"
    by (simp_all add: ratePut_def absent_or_version_def tx_distinct_def)
  obtain a w' where run: "acquireRatePermit ?db sample_rate (sample_world Map.empty) = (Inr a, w')"
    and a: "rt_permitted a"
    using perm cond
    by (simp add: acquireRatePermit_def numeral_eq_Suc ratePermitRound_def mapM_def getCore_def bindM_def
        returnM_def mem_db_def mem_get_def mem_write_def interfere_def sample_world_def live_item_def Let_def)
  have row: "rate_row (rateKey sample_rate) (mem_table (sample_world Map.empty))"
    by (simp add: rate_row_def)
  from permit_is_a_grant [OF mem_rate.rate_table_axioms row run a] run a
  show ?thesis by (auto simp: sample_rate_def)
qed

section \<open>The life of a circuit\<close>

definition failed :: "circuit_breaker_policy \<Rightarrow> instant \<Rightarrow> circuit_state \<Rightarrow> circuit_state" where
  "failed p now c = circuitAfterAttempt \<lparr>ai_current = c, ai_policy = p, ai_now = now,
     ai_success = False, ai_countsTowardCircuit = True, ai_probe = False\<rparr>"

lemma failed_below:
  "ci_consecutiveFailures c + 1 < cb_failureThreshold p \<Longrightarrow>
   failed p now c = initial_circuit\<lparr>ci_consecutiveFailures := ci_consecutiveFailures c + 1,
     ci_version := ci_version c + 1\<rparr>"
  by (simp add: failed_def circuitAfterAttempt_def)

lemma failures_below:
  "ci_consecutiveFailures c + int (length ts) < cb_failureThreshold p \<Longrightarrow> ts \<noteq> [] \<Longrightarrow>
   fold (failed p) ts c = initial_circuit\<lparr>ci_consecutiveFailures := ci_consecutiveFailures c + int (length ts),
     ci_version := ci_version c + int (length ts)\<rparr>"
proof (induction ts arbitrary: c)
  case (Cons t ts)
  then show ?case by (cases "ts = []") (simp_all add: failed_below)
qed simp

text \<open>
  The circuit opens at the threshold and waits. From a closed circuit without failures, fewer
  counted failures in a row than the threshold leave it closed; the one that reaches the threshold
  opens it until its own time plus the cooldown. Until then the gate denies every request and names
  that moment; at that moment it lets a probe be taken. A success at any time closes the circuit and
  forgets the failures.
\<close>

theorem circuit_opens_and_waits:
  assumes "ci_state c = CLOSED" and "ci_consecutiveFailures c = 0"
    and "int (length ts) + 1 = cb_failureThreshold p"
  shows "ci_state (fold (failed p) ts c) = CLOSED
    \<and> ci_state (failed p t (fold (failed p) ts c)) = OPEN
    \<and> (let until = after_seconds t (cb_cooldownSeconds p); open = failed p t (fold (failed p) ts c) in
         (\<forall>now < until. circuitGate open now = Some \<lparr>cp_allowed = False, cp_probe = False,
            cp_nextEligibleAt = Some until, cp_state = open\<rparr>)
         \<and> (\<forall>now \<ge> until. circuitGate open now = None))
    \<and> (\<forall>d n pr. circuitAfterAttempt \<lparr>ai_current = d, ai_policy = p, ai_now = n, ai_success = True,
          ai_countsTowardCircuit = False, ai_probe = pr\<rparr> = initial_circuit\<lparr>ci_version := ci_version d + 1\<rparr>)"
proof -
  have closed: "ci_state (fold (failed p) ts c) = CLOSED
      \<and> ci_consecutiveFailures (fold (failed p) ts c) = int (length ts)"
    using failures_below [of c ts p] assms by (cases "ts = []") (simp_all add: initial_circuit_def)
  let ?o = "failed p t (fold (failed p) ts c)"
  have opened: "?o = initial_circuit\<lparr>ci_state := OPEN, ci_consecutiveFailures := int (length ts) + 1,
      ci_openedAt := Some t, ci_nextProbeAt := Some (after_seconds t (cb_cooldownSeconds p)),
      ci_version := ci_version (fold (failed p) ts c) + 1\<rparr>"
    using closed assms(3) by (simp add: failed_def circuitAfterAttempt_def)
  show ?thesis
    using closed unfolding opened
    by (auto simp: circuitGate_def initial_circuit_def Let_def circuitAfterAttempt_def)
qed

theorem circuit_opens_and_waits_witness:
  "ci_state (failed \<lparr>cb_failureThreshold = 3, cb_cooldownSeconds = 30, cb_probeLeaseSeconds = 5\<rparr> 9000
     (fold (failed \<lparr>cb_failureThreshold = 3, cb_cooldownSeconds = 30, cb_probeLeaseSeconds = 5\<rparr>)
       [1000, 2000] initial_circuit)) = OPEN"
  using circuit_opens_and_waits [of initial_circuit "[1000, 2000]"
      "\<lparr>cb_failureThreshold = 3, cb_cooldownSeconds = 30, cb_probeLeaseSeconds = 5\<rparr>" 9000]
  by (simp add: initial_circuit_def)

end
