(* ===== verification/Finalization.thy ===== *)
theory Finalization
  imports Event_Runs Permits
begin

text \<open>
  Finalizing an attempt and recovering an expired lease, as runs of a client that is alone on its
  table: what is recorded when the conditions hold, and the two ways in which the result of an
  attempt is lost, a circuit row that another delivery to the same destination has moved, and the
  recovery of the lease as a timeout.
\<close>

section \<open>The transaction of a finalization\<close>

lemma finalize_distinct:
  assumes "d_updatedAt current \<noteq> d_updatedAt (fi_delivery inp)"
  shows "tx_distinct (finalizeTransaction shards inp current event updated)"
proof -
  have dis: "op_key ` set (indexDeletes current) \<inter> op_key ` set (indexPuts (fi_delivery inp)) = {}"
    using assms by (rule index_keys_disjoint)
  have idx: "k \<notin> op_key ` set (indexDeletes current)" "k \<notin> op_key ` set (indexPuts (fi_delivery inp))"
    if "\<And>t c a i. k \<noteq> K_DeliveryIndex t c a i" for k
    using that by (auto simp: index_ops_keys deliveryIndexKey_def)
  show ?thesis
    using dis
    by (cases "fi_outbox inp"; cases "fi_circuit inp"; cases "updatesOriginalEvent (fi_delivery inp)")
       (simp_all add: finalizeTransaction_def Let_def tx_distinct_def deliveryPut_def attemptKey_def
          historyKey_def outboxPut_def circuitPut_def rollupUpdates_def idx Int_commute)
qed

text \<open>The conditions under which the caller's claim on the delivery still stands.\<close>

definition claim_holds :: "finalize_input \<Rightarrow> delivery \<Rightarrow> bool" where
  "claim_holds inp d \<longleftrightarrow> d_version d = fi_expectedVersion inp
     \<and> d_leaseToken d = Some (fi_leaseToken inp)
     \<and> d_activeAttemptId d = Some (at_attemptId (fi_attempt inp))"

definition circuit_fits :: "finalize_input \<Rightarrow> dtable \<Rightarrow> bool" where
  "circuit_fits inp s \<longleftrightarrow> (case fi_circuit inp of None \<Rightarrow> True
     | Some c \<Rightarrow> absent_or_version (max 0 (ci_version c - 1))
         (s (K_Runtime (fi_tenantId inp) (d_destinationId (fi_delivery inp)) RT_Circuit)))"

definition rows_are_new :: "nat \<Rightarrow> finalize_input \<Rightarrow> dtable \<Rightarrow> bool" where
  "rows_are_new shards inp s \<longleftrightarrow>
     s (historyKey (fi_tenantId inp) (fi_eventId inp) (fi_history inp)) = None
     \<and> (case fi_outbox inp of None \<Rightarrow> True | Some b \<Rightarrow> s (op_key (outboxPut shards b)) = None)"

lemma rollup_conditions [simp]: "tx_conditions (rollupUpdates t ds st at_ms a d) s"
  by (simp add: rollupUpdates_def)

lemma finalize_conditions:
  assumes "s (K_Delivery (fi_tenantId inp) (fi_eventId inp) (d_deliveryId (fi_delivery inp)))
      = Some (It_Delivery d)"
    and "s (K_Event (fi_tenantId inp) (fi_eventId inp)) = Some (It_Event ev)"
  shows "tx_conditions (finalizeTransaction shards inp d ev updated) s \<longleftrightarrow>
     claim_holds inp d \<and> outcome_started (s (attemptKey (fi_tenantId inp) (fi_eventId inp) (fi_attempt inp)))
     \<and> rows_are_new shards inp s \<and> circuit_fits inp s"
  using assms
  by (cases "fi_outbox inp"; cases "fi_circuit inp")
     (auto simp: finalizeTransaction_def Let_def deliveryPut_def delivery_cond_def version_is_def
        claim_holds_def rows_are_new_def circuit_fits_def outboxPut_def circuitPut_def)

context dynamo_alone
begin

lemma finalize_run:
  assumes d: "view w (K_Delivery (fi_tenantId inp) (fi_eventId inp) (d_deliveryId (fi_delivery inp)))
      = Some (It_Delivery d)" "\<not> isExpired (It_Delivery d) (db_now db w)"
    and ev: "view w (K_Event (fi_tenantId inp) (fi_eventId inp)) = Some (It_Event ev)"
      "\<not> isExpired (It_Event ev) (db_now db w)"
    and upd: "finalizedEvent (fi_delivery inp) ev = Inr updated"
    and ok: "claim_holds inp d"
      "outcome_started (view w (attemptKey (fi_tenantId inp) (fi_eventId inp) (fi_attempt inp)))"
      "rows_are_new shards inp (view w)" "circuit_fits inp (view w)"
      "d_updatedAt d \<noteq> d_updatedAt (fi_delivery inp)"
  shows "yields db view (finalizeAttempt db shards inp) w (Inr True)
    (tx_apply (finalizeTransaction shards inp d ev updated) (view w))"
proof -
  let ?ops = "finalizeTransaction shards inp d ev updated"
  have cond: "tx_conditions ?ops (view w)" using ok finalize_conditions [OF d(1) ev(1)] by simp
  have dist: "tx_distinct ?ops" by (rule finalize_distinct [OF ok(5)])
  have commit: "yields db view (db_write db ?ops) w2 (Inr True) (tx_apply ?ops (view w))"
    if "view w2 = view w" for w2
    using yields_commit [OF dist, of w2] cond that by simp
  have "yields db view (finalizeAttemptRound db shards inp) w (Inr (Some True)) (tx_apply ?ops (view w))"
    unfolding finalizeAttemptRound_def Let_def
  proof (rule yields_bind [OF yields_delivery [OF d]])
    fix w1
    assume w1: "view w1 = view w" "db_now db w1 = db_now db w"
    have "yields db view (getEvent db (fi_tenantId inp) (fi_eventId inp)) w1 (Inr (Some ev)) (view w)"
      using yields_event [of w1 "fi_tenantId inp" "fi_eventId inp" ev] ev w1 by simp
    then show "yields db view (bindM (getEvent db (fi_tenantId inp) (fi_eventId inp)) (\<lambda>event.
        case (Some d, event) of
          (Some c, Some ev) \<Rightarrow>
            bindM (liftM (finalizedEvent (fi_delivery inp) ev)) (\<lambda>updated.
            bindM (db_write db (finalizeTransaction shards inp c ev updated)) (\<lambda>ok.
            returnM (if ok then Some True else None)))
        | _ \<Rightarrow> returnM (Some False))) w1 (Inr (Some True)) (tx_apply ?ops (view w))"
      by (rule yields_bind)
         (auto simp: upd intro!: yields_bind [OF commit] yields_return)
  qed
  then show ?thesis
    unfolding finalizeAttempt_def numeral_eq_Suc by (rule yields_retry_done)
qed

text \<open>A loop whose body is refused in every round comes to its end.\<close>

lemma yields_retry_none:
  assumes "\<And>w'. view w' = view w \<Longrightarrow> db_now db w' = db_now db w \<Longrightarrow> yields db view body w' (Inr None) (view w)"
  shows "yields db view (retryM n body (returnM a)) w (Inr a) (view w)"
proof -
  have "yields db view (retryM n body (returnM a)) w' (Inr a) (view w)"
    if "view w' = view w" "db_now db w' = db_now db w" for w'
    using that
  proof (induction n arbitrary: w')
    case 0
    then show ?case by (simp add: yields_def returnM_def)
  next
    case (Suc n)
    show ?case
      unfolding retryM.simps
      by (rule yields_bind [OF assms]) (use Suc in auto)
  qed
  then show ?thesis by simp
qed

text \<open>The claim stands and the row to be counted on is there, but a condition of the transaction does not hold.\<close>

lemma finalize_gives_up:
  assumes d: "view w (K_Delivery (fi_tenantId inp) (fi_eventId inp) (d_deliveryId (fi_delivery inp)))
      = Some (It_Delivery d)" "\<not> isExpired (It_Delivery d) (db_now db w)"
    and ev: "view w (K_Event (fi_tenantId inp) (fi_eventId inp)) = Some (It_Event ev)"
      "\<not> isExpired (It_Event ev) (db_now db w)"
    and upd: "finalizedEvent (fi_delivery inp) ev = Inr updated"
    and dist: "d_updatedAt d \<noteq> d_updatedAt (fi_delivery inp)"
    and no: "\<not> tx_conditions (finalizeTransaction shards inp d ev updated) (view w)"
  shows "yields db view (finalizeAttempt db shards inp) w (Inr False) (view w)"
  unfolding finalizeAttempt_def
proof (rule yields_retry_none)
  fix w0
  assume w0: "view w0 = view w" "db_now db w0 = db_now db w"
  let ?ops = "finalizeTransaction shards inp d ev updated"
  have refused: "yields db view (db_write db ?ops) w2 (Inr False) (view w)" if "view w2 = view w" for w2
    using yields_write [OF finalize_distinct [OF dist], of shards ev updated w2] no that by simp
  have "yields db view (finalizeAttemptRound db shards inp) w0 (Inr None) (view w)"
    unfolding finalizeAttemptRound_def Let_def
  proof (rule yields_bind)
    show "yields db view (getDeliveryAt db (fi_tenantId inp) (fi_eventId inp) (d_deliveryId (fi_delivery inp))) w0
        (Inr (Some d)) (view w)"
      using yields_delivery [of w0 "fi_tenantId inp" "fi_eventId inp" "d_deliveryId (fi_delivery inp)" d] d w0 by simp
    fix w1
    assume w1: "view w1 = view w" "db_now db w1 = db_now db w0"
    have "yields db view (getEvent db (fi_tenantId inp) (fi_eventId inp)) w1 (Inr (Some ev)) (view w)"
      using yields_event [of w1 "fi_tenantId inp" "fi_eventId inp" ev] ev w1 w0 by simp
    then show "yields db view (bindM (getEvent db (fi_tenantId inp) (fi_eventId inp)) (\<lambda>event.
        case (Some d, event) of
          (Some c, Some ev) \<Rightarrow>
            bindM (liftM (finalizedEvent (fi_delivery inp) ev)) (\<lambda>updated.
            bindM (db_write db (finalizeTransaction shards inp c ev updated)) (\<lambda>ok.
            returnM (if ok then Some True else None)))
        | _ \<Rightarrow> returnM (Some False))) w1 (Inr None) (view w)"
      by (rule yields_bind)
         (auto simp: upd intro!: yields_bind [OF refused] yields_return)
  qed
  then show "yields db view (finalizeAttemptRound db shards inp) w0 (Inr None) (view w)" .
qed

text \<open>A transaction whose conditions cannot hold: nothing is written, and no round succeeds.\<close>

lemma finalize_refused:
  assumes "\<And>c ev updated. \<not> tx_conditions (finalizeTransaction shards inp c ev updated) s"
  shows "hoare view (\<lambda>u. u = s) (finalizeAttempt db shards inp) (\<lambda>b u. \<not> b \<and> u = s) (\<lambda>u. u = s)"
proof -
  have st: "stable (=) (\<lambda>u. u = s)" by (simp add: stable_def)
  have put: "hoare view (\<lambda>u. u = s) (db_write db (finalizeTransaction shards inp c ev upd))
      (\<lambda>b u. \<not> b \<and> u = s) (\<lambda>u. u = s)" for c ev upd
    by (rule hoare_write [OF st]) (use assms in \<open>auto simp: tx_ok_def\<close>)
  have step: "hoare view (\<lambda>u. u = s)
      (case c of None \<Rightarrow> returnM (Some False)
       | Some c \<Rightarrow>
          (case ev of None \<Rightarrow> returnM (Some False)
           | Some ev \<Rightarrow>
              bindM (liftM (finalizedEvent (fi_delivery inp) ev)) (\<lambda>updated.
              bindM (db_write db (finalizeTransaction shards inp c ev updated)) (\<lambda>ok.
              returnM (if ok then Some True else None)))))
      (\<lambda>r u. case r of None \<Rightarrow> u = s | Some b \<Rightarrow> \<not> b \<and> u = s) (\<lambda>u. u = s)" for c ev
    by (cases c; cases ev) (auto intro!: hoare_return hoare_lift_bind hoare_bind [OF put])
  show ?thesis
    unfolding finalizeAttempt_def
    by (rule hoare_retry)
       (auto simp: finalizeAttemptRound_def Let_def getDeliveryAt_def getEvent_def
          intro!: hoare_return hoare_bind [OF hoare_read [OF st]] step)
qed

end

section \<open>Properties\<close>

lemma finalize_put_at:
  assumes "tx_distinct (finalizeTransaction shards inp current event updated)"
  shows "tx_apply (finalizeTransaction shards inp current event updated) s
      (K_Delivery (fi_tenantId inp) (fi_eventId inp) (d_deliveryId (fi_delivery inp)))
      = Some (stored_delivery ((fi_delivery inp)\<lparr>d_activeAttemptId := None\<rparr>))"
    and "tx_apply (finalizeTransaction shards inp current event updated) s
      (attemptKey (fi_tenantId inp) (fi_eventId inp) (fi_attempt inp)) = Some (stored_attempt (fi_attempt inp))"
    and "updatesOriginalEvent (fi_delivery inp) \<Longrightarrow>
      tx_apply (finalizeTransaction shards inp current event updated) s
      (K_Event (fi_tenantId inp) (fi_eventId inp)) = Some (stored_event updated)"
    and "fi_outbox inp = Some b \<Longrightarrow>
      tx_apply (finalizeTransaction shards inp current event updated) s (op_key (outboxPut shards b))
      = Some (It_Outbox \<lparr>oi_record = b, oi_expiresAt = to_epoch (Iso (ob_createdAt b + days 7)),
          oi_unpublished = True, oi_lastPublicationFailureAt = None\<rparr>)"
proof -
  let ?ops = "finalizeTransaction shards inp current event updated"
  note at = tx_apply_at [OF _ assms, of _ s]
  show "tx_apply ?ops s (K_Delivery (fi_tenantId inp) (fi_eventId inp) (d_deliveryId (fi_delivery inp)))
      = Some (stored_delivery ((fi_delivery inp)\<lparr>d_activeAttemptId := None\<rparr>))"
    using at [of "hd ?ops"] by (simp add: finalizeTransaction_def Let_def deliveryPut_def)
  show "tx_apply ?ops s (attemptKey (fi_tenantId inp) (fi_eventId inp) (fi_attempt inp))
      = Some (stored_attempt (fi_attempt inp))"
    using at [of "hd (tl ?ops)"] by (simp add: finalizeTransaction_def Let_def)
  show "tx_apply ?ops s (K_Event (fi_tenantId inp) (fi_eventId inp)) = Some (stored_event updated)"
    if "updatesOriginalEvent (fi_delivery inp)"
    using at [of "put_op (K_Event (fi_tenantId inp) (fi_eventId inp)) (version_is (ev_version event))
        (stored_event updated)"] that
    by (simp add: finalizeTransaction_def Let_def)
  show "tx_apply ?ops s (op_key (outboxPut shards b))
      = Some (It_Outbox \<lparr>oi_record = b, oi_expiresAt = to_epoch (Iso (ob_createdAt b + days 7)),
          oi_unpublished = True, oi_lastPublicationFailureAt = None\<rparr>)"
    if "fi_outbox inp = Some b"
    using at [of "outboxPut shards b"] that
    by (simp add: finalizeTransaction_def Let_def outboxPut_def)
qed

text \<open>
  The result of an attempt is recorded. When the claim of the worker still stands (version,
  lease and active attempt), the attempt row says started, the rows to add are new and the circuit
  row is the one the worker has seen, \<open>finalizeAttempt\<close> returns \<open>true\<close> and in one step the delivery
  is in its final state without an active attempt, the attempt carries its result, an original
  delivery that became terminal is counted on its event, and the next work, if any, is in the outbox.
\<close>

theorem attempt_is_recorded:
  assumes "dynamo_alone db view"
    and "view w (K_Delivery (fi_tenantId inp) (fi_eventId inp) (d_deliveryId (fi_delivery inp)))
      = Some (It_Delivery d)" and "\<not> isExpired (It_Delivery d) (db_now db w)"
    and "view w (K_Event (fi_tenantId inp) (fi_eventId inp)) = Some (It_Event ev)"
    and "\<not> isExpired (It_Event ev) (db_now db w)"
    and "finalizedEvent (fi_delivery inp) ev = Inr updated"
    and "claim_holds inp d"
    and "outcome_started (view w (attemptKey (fi_tenantId inp) (fi_eventId inp) (fi_attempt inp)))"
    and "rows_are_new shards inp (view w)" and "circuit_fits inp (view w)"
    and "d_updatedAt d \<noteq> d_updatedAt (fi_delivery inp)"
  shows "fst (finalizeAttempt db shards inp w) = Inr True
    \<and> (let u = view (snd (finalizeAttempt db shards inp w)) in
         u (K_Delivery (fi_tenantId inp) (fi_eventId inp) (d_deliveryId (fi_delivery inp)))
           = Some (stored_delivery ((fi_delivery inp)\<lparr>d_activeAttemptId := None\<rparr>))
         \<and> u (attemptKey (fi_tenantId inp) (fi_eventId inp) (fi_attempt inp))
           = Some (stored_attempt (fi_attempt inp))
         \<and> (updatesOriginalEvent (fi_delivery inp)
            \<longrightarrow> u (K_Event (fi_tenantId inp) (fi_eventId inp)) = Some (stored_event updated))
         \<and> (\<forall>b. fi_outbox inp = Some b \<longrightarrow> u (op_key (outboxPut shards b)) \<noteq> None))"
proof -
  note run = dynamo_alone.finalize_run [OF assms]
  note at = finalize_put_at [OF finalize_distinct [OF assms(11)], where shards = shards and event = ev and updated = updated and s = "view w"]
  show ?thesis
    unfolding yields_fst [OF run] yields_view [OF run] using at by (auto simp: Let_def)
qed

definition running_table :: dtable where
  "running_table = (sample_table sample_started)
     (K_Attempt ''t1'' ''evt_1'' ''dlv_1'' 1 \<mapsto> It_Attempt sample_attempt)"

lemma finalize_sample:
  "running_table (K_Delivery ''t1'' ''evt_1'' ''dlv_1'') = Some (It_Delivery sample_started)"
  "running_table (K_Event ''t1'' ''evt_1'') = Some (It_Event sample_event)"
  "d_deliveryId (fi_delivery sample_finalize) = ''dlv_1''"
  "fi_tenantId sample_finalize = ''t1''" "fi_eventId sample_finalize = ''evt_1''"
  "\<not> isExpired (It_Delivery sample_started) 2000" "\<not> isExpired (It_Event sample_event) 2000"
  "outcome_started (running_table (attemptKey ''t1'' ''evt_1'' (fi_attempt sample_finalize)))"
  "rows_are_new 4 sample_finalize running_table" "claim_holds sample_finalize sample_started"
  "d_updatedAt sample_started \<noteq> d_updatedAt (fi_delivery sample_finalize)"
  by (simp_all add: running_table_def sample_table_def sample_finalize_def sample_started_def
      sample_leased_def sample_defs isExpired_def sample_event_def attemptKey_def outcome_started_def
      sample_attempt_def rows_are_new_def historyKey_def sample_history_def claim_holds_def
      sample_success_transition_def)

theorem attempt_is_recorded_witness:
  "fst (finalizeAttempt (mem_db [] (=)) 4 sample_finalize (sample_world running_table)) = Inr True"
proof -
  let ?up = "withOutcome sample_event (countTerminal (ev_outcome sample_event) Succeeded) Ev_Processing"
  have up: "finalizedEvent (fi_delivery sample_finalize) sample_event = Inr ?up"
    by (simp add: finalizedEvent_def updatesOriginalEvent_def sample_finalize_def sample_started_def
        sample_leased_def sample_defs sample_success_transition_def sample_event_def countTerminal_def
        deriveEventStatus_def counters_inconsistent_def throw_if_def one_if_def Let_def)
  have now: "db_now (mem_db [] (=)) (sample_world running_table) = 2000"
    by (simp add: mem_db_def sample_world_def)
  have fits: "circuit_fits sample_finalize running_table"
    by (simp add: circuit_fits_def sample_finalize_def)
  from attempt_is_recorded [OF mem_is_alone, where w = "sample_world running_table" and inp = sample_finalize
      and d = sample_started and ev = sample_event and updated = ?up and shards = 4] finalize_sample up now fits
  show ?thesis by simp
qed

text \<open>
  C11. A circuit row that moved loses the result. \<open>finalizeAttempt\<close> writes the circuit state that the
  worker computed from what it had read before the request, under the version it had then; it reads
  the row again in no round. When another delivery to the same destination was finalized in the
  meantime, every one of the eight rounds is refused and nothing is recorded. With the rows of the
  delivery and of its event in the table, the claim on the delivery standing or not, the answer is
  then \<open>false\<close>.
\<close>

theorem moved_circuit_loses_result:
  assumes "dynamo_alone db view"
    and "view w (K_Runtime (fi_tenantId inp) (d_destinationId (fi_delivery inp)) RT_Circuit)
      = Some (It_Circuit c)"
    and "fi_circuit inp = Some computed" and "ci_version c \<noteq> max 0 (ci_version computed - 1)"
    and "view w (K_Delivery (fi_tenantId inp) (fi_eventId inp) (d_deliveryId (fi_delivery inp)))
      = Some (It_Delivery d)" and "\<not> isExpired (It_Delivery d) (db_now db w)"
    and "view w (K_Event (fi_tenantId inp) (fi_eventId inp)) = Some (It_Event ev)"
    and "\<not> isExpired (It_Event ev) (db_now db w)"
    and "finalizedEvent (fi_delivery inp) ev = Inr updated"
    and "d_updatedAt d \<noteq> d_updatedAt (fi_delivery inp)"
  shows "fst (finalizeAttempt db shards inp w) = Inr False
    \<and> view (snd (finalizeAttempt db shards inp w)) = view w"
proof -
  have no: "\<not> tx_conditions (finalizeTransaction shards inp d ev updated) (view w)"
    using assms(2-4)
    by (cases "fi_outbox inp")
       (auto simp: finalizeTransaction_def Let_def circuitPut_def absent_or_version_def version_is_def)
  note run = dynamo_alone.finalize_gives_up [OF assms(1,5-10) no]
  show ?thesis
    unfolding yields_fst [OF run] yields_view [OF run] by simp
qed

definition sample_moved :: finalize_input where
  "sample_moved = sample_finalize\<lparr>fi_circuit := Some (initial_circuit\<lparr>ci_version := 5\<rparr>)\<rparr>"

theorem moved_circuit_loses_result_witness:
  "claim_holds sample_moved sample_started
   \<and> fst (finalizeAttempt (mem_db [] (=)) 4 sample_moved (sample_world (running_table
        (K_Runtime ''t1'' ''dst_1'' RT_Circuit \<mapsto> It_Circuit (initial_circuit\<lparr>ci_version := 5\<rparr>)))))
      = Inr False"
proof -
  let ?w = "sample_world (running_table
        (K_Runtime ''t1'' ''dst_1'' RT_Circuit \<mapsto> It_Circuit (initial_circuit\<lparr>ci_version := 5\<rparr>)))"
  have same: "fi_delivery sample_moved = fi_delivery sample_finalize" "fi_tenantId sample_moved = ''t1''"
      "fi_eventId sample_moved = ''evt_1''" "d_destinationId (fi_delivery sample_moved) = ''dst_1''"
    by (simp_all add: sample_moved_def sample_finalize_def sample_started_def sample_leased_def sample_defs)
  let ?up = "withOutcome sample_event (countTerminal (ev_outcome sample_event) Succeeded) Ev_Processing"
  have up: "finalizedEvent (fi_delivery sample_finalize) sample_event = Inr ?up"
    by (simp add: finalizedEvent_def updatesOriginalEvent_def sample_finalize_def sample_started_def
        sample_leased_def sample_defs sample_success_transition_def sample_event_def countTerminal_def
        deriveEventStatus_def counters_inconsistent_def throw_if_def one_if_def Let_def)
  have now: "db_now (mem_db [] (=)) ?w = 2000"
    by (simp add: mem_db_def sample_world_def)
  have "claim_holds sample_moved sample_started"
    using finalize_sample(10) by (simp add: claim_holds_def sample_moved_def)
  moreover have "fst (finalizeAttempt (mem_db [] (=)) 4 sample_moved ?w) = Inr False"
    using moved_circuit_loses_result [OF mem_is_alone, where w = ?w and inp = sample_moved and shards = 4
        and d = sample_started and ev = sample_event and updated = ?up] finalize_sample up now same
    by (simp add: sample_moved_def)
  ultimately show ?thesis by blast
qed

section \<open>Recovery of a started attempt\<close>

lemma timeout_transition_ok:
  assumes "lease_expired now d" and "d_leaseToken d \<noteq> None"
  shows "transitionDelivery d (timeoutTransition inp d) = Inr (applyTransition d (timeoutTransition inp d))"
  using assms
  by (auto simp: transitionDelivery_Inr timeoutTransition_def lease_expired_def deferred_states_def
      option_or_def)

definition timedOut :: "recover_input \<Rightarrow> delivery \<Rightarrow> delivery_attempt \<Rightarrow> finalize_input" where
  "timedOut inp d a = timeoutInput inp d a (applyTransition d (timeoutTransition inp d))"

context dynamo_alone
begin

lemma yields_find:
  assumes "view w (K_Lookup t LK_Delivery i) = Some (It_Lookup e)"
    and "view w (K_Delivery t e i) = Some (It_Delivery d)" and "\<not> isExpired (It_Delivery d) (db_now db w)"
  shows "yields db view (getDelivery db t i) w (Inr (Some d)) (view w)"
  unfolding getDelivery_def
proof (rule yields_bind [OF yields_core])
  fix w1
  assume w1: "view w1 = view w" "db_now db w1 = db_now db w"
  have "as_lookup (live_item (view w (K_Lookup t LK_Delivery i)) (db_now db w)) = Some e"
    using assms(1) by (simp add: live_item_def isExpired_def)
  moreover have "yields db view (mapM as_delivery (getCore db (K_Delivery t e i))) w1 (Inr (Some d)) (view w)"
    using yields_core [of as_delivery "K_Delivery t e i" w1] assms(2,3) w1 by (simp add: live_item_def)
  ultimately show "yields db view (case as_lookup (live_item (view w (K_Lookup t LK_Delivery i)) (db_now db w)) of
      None \<Rightarrow> returnM None | Some e \<Rightarrow> mapM as_delivery (getCore db (K_Delivery t e i))) w1
      (Inr (Some d)) (view w)" by simp
qed

lemma recover_run:
  assumes find: "view w (K_Lookup (re_tenantId inp) LK_Delivery (re_deliveryId inp)) = Some (It_Lookup (re_eventId inp))"
    and d: "view w (K_Delivery (re_tenantId inp) (re_eventId inp) (re_deliveryId inp)) = Some (It_Delivery d)"
      "\<not> isExpired (It_Delivery d) (db_now db w)"
    and ids: "d_eventId d = re_eventId inp" "d_deliveryId d = re_deliveryId inp"
    and att: "view w (K_Attempt (re_tenantId inp) (re_eventId inp) (re_deliveryId inp) (d_attemptCount d))
      = Some (It_Attempt a)" "\<not> isExpired (It_Attempt a) (db_now db w)"
      "d_activeAttemptId d = Some (at_attemptId a)"
    and lease: "lease_expired (re_now inp) d" "d_leaseToken d \<noteq> None"
    and fin: "\<And>w1. view w1 = view w \<Longrightarrow> db_now db w1 = db_now db w \<Longrightarrow>
       yields db view (finalizeAttempt db shards (timedOut inp d a)) w1 r u"
  shows "yields db view (recoverExpired db shards inp) w r u"
  unfolding recoverExpired_def
proof (rule yields_bind [OF yields_find [OF find d]])
  fix w1
  assume w1: "view w1 = view w" "db_now db w1 = db_now db w"
  have a: "as_attempt (live_item (view w1 (K_Attempt (re_tenantId inp) (re_eventId inp) (d_deliveryId d)
      (d_attemptCount d))) (db_now db w1)) = Some a"
    using att w1 ids by (simp add: live_item_def)
  have "yields db view (recoverStarted db shards inp d (at_attemptId a)) w1 r u"
    unfolding recoverStarted_def
    by (rule yields_bind [OF yields_core])
       (use a w1 fin timeout_transition_ok [OF lease] in \<open>simp add: timedOut_def\<close>)
  then show "yields db view (case Some d of None \<Rightarrow> returnM False
      | Some d \<Rightarrow>
          if \<not> lease_expired (re_now inp) d then returnM False
          else case d_activeAttemptId d of
              Some active \<Rightarrow> recoverStarted db shards inp d active
            | None \<Rightarrow>
                bindM (liftM (transitionDelivery d (rescheduleTransition inp d))) (\<lambda>nxt.
                defer_delivery db shards (rescheduleInput inp d nxt))) w1 r u"
    using lease(1) att(3) by simp
qed

end

text \<open>
  A started attempt whose lease expired is recorded as a timeout. Recovery treats it as a failed,
  retryable attempt whatever the partner answered: with attempts left the delivery is scheduled for
  a retry at a time after now, in the outbox; with none left it is dead-lettered, and nothing is put in
  the outbox. The partner may be called again for a request that it has accepted.
\<close>

theorem recovery_is_a_timeout:
  assumes "dynamo_alone db view"
    and "view w (K_Lookup (re_tenantId inp) LK_Delivery (re_deliveryId inp)) = Some (It_Lookup (re_eventId inp))"
    and "view w (K_Delivery (re_tenantId inp) (re_eventId inp) (re_deliveryId inp)) = Some (It_Delivery d)"
    and "\<not> isExpired (It_Delivery d) (db_now db w)"
    and "d_eventId d = re_eventId inp" and "d_deliveryId d = re_deliveryId inp"
    and "view w (K_Attempt (re_tenantId inp) (re_eventId inp) (re_deliveryId inp) (d_attemptCount d))
      = Some (It_Attempt a)" and "\<not> isExpired (It_Attempt a) (db_now db w)"
    and "d_activeAttemptId d = Some (at_attemptId a)" and "at_attemptNumber a = d_attemptCount d"
    and "at_deliveryId a = re_deliveryId inp" and "at_outcome a = At_Started"
    and "lease_expired (re_now inp) d" and "d_leaseToken d \<noteq> None"
    and "view w (K_Event (re_tenantId inp) (re_eventId inp)) = Some (It_Event ev)"
    and "\<not> isExpired (It_Event ev) (db_now db w)"
    and "finalizedEvent (applyTransition d (timeoutTransition inp d)) ev = Inr updated"
    and "rows_are_new shards (timedOut inp d a) (view w)" and "d_updatedAt d \<noteq> re_now inp"
  shows "fst (recoverExpired db shards inp w) = Inr True
    \<and> (\<exists>final. view (snd (recoverExpired db shards inp w))
            (K_Delivery (re_tenantId inp) (re_eventId inp) (re_deliveryId inp)) = Some (stored_delivery final)
         \<and> d_state final = (if exhausted d then Dead_Lettered else Retry_Scheduled)
         \<and> d_lastFailureCategory final = Some TIMEOUT \<and> d_activeAttemptId final = None
         \<and> d_leaseToken final = None
         \<and> (if exhausted d then d_nextEligibleAt final = None
            else d_nextEligibleAt final = Some (recoveryRetryAt inp d)
              \<and> view (snd (recoverExpired db shards inp w))
                  (op_key (outboxPut shards (recoveryOutbox d (re_now inp) (recoveryRetryAt inp d) RETRY)))
                \<noteq> None))"
proof -
  let ?final = "applyTransition d (timeoutTransition inp d)" and ?in = "timedOut inp d a"
  let ?ops = "finalizeTransaction shards ?in d ev updated"
  have fi [simp]: "fi_tenantId ?in = re_tenantId inp" "fi_eventId ?in = re_eventId inp"
    "fi_delivery ?in = ?final" "fi_attempt ?in = timedOutAttempt inp a" "fi_circuit ?in = None"
    "fi_expectedVersion ?in = d_version d"
    by (simp_all add: timedOut_def timeoutInput_def assms(5))
  have claim: "claim_holds ?in d"
    using assms(9,14)
    by (auto simp: claim_holds_def timedOutAttempt_def timedOut_def timeoutInput_def option_or_def)
  have key: "attemptKey (fi_tenantId ?in) (fi_eventId ?in) (fi_attempt ?in)
      = K_Attempt (re_tenantId inp) (re_eventId inp) (re_deliveryId inp) (d_attemptCount d)"
    using assms(10,11) by (simp add: attemptKey_def timedOutAttempt_def)
  have upd: "d_updatedAt d \<noteq> d_updatedAt (fi_delivery ?in)"
    using assms(19) by (simp add: timeoutTransition_def)
  have fin: "yields db view (finalizeAttempt db shards ?in) w1 (Inr True) (tx_apply ?ops (view w))"
    if w1: "view w1 = view w" "db_now db w1 = db_now db w" for w1
    unfolding w1(1) [symmetric]
    by (rule dynamo_alone.finalize_run [OF assms(1)])
       (use assms claim key upd w1 in \<open>simp_all add: circuit_fits_def outcome_started_def\<close>)
  have at: "tx_apply ?ops (view w) (K_Delivery (re_tenantId inp) (re_eventId inp) (re_deliveryId inp))
      = Some (stored_delivery (?final\<lparr>d_activeAttemptId := None\<rparr>))"
    using finalize_put_at(1) [OF finalize_distinct [OF upd], where shards = shards and event = ev and updated = updated and s = "view w"] assms(6) by simp
  have ob: "tx_apply ?ops (view w)
      (op_key (outboxPut shards (recoveryOutbox d (re_now inp) (recoveryRetryAt inp d) RETRY))) \<noteq> None"
    if "\<not> exhausted d"
    using finalize_put_at(4) [OF finalize_distinct [OF upd], where shards = shards and event = ev and updated = updated and s = "view w"] that
    by (simp add: timedOut_def timeoutInput_def)
  have run: "yields db view (recoverExpired db shards inp) w (Inr True) (tx_apply ?ops (view w))"
    by (rule dynamo_alone.recover_run [OF assms(1-9,13,14)]) (rule fin)
  show ?thesis
    unfolding yields_fst [OF run] yields_view [OF run]
    using at ob by (auto simp: timeoutTransition_def intro!: exI [of _ "?final\<lparr>d_activeAttemptId := None\<rparr>"])
qed

definition sample_recover :: recover_input where
  "sample_recover = \<lparr>re_tenantId = ''t1'', re_eventId = ''evt_1'', re_deliveryId = ''dlv_1'',
     re_now = 9000, re_random = 0\<rparr>"

theorem recovery_is_a_timeout_witness:
  "fst (recoverExpired (mem_db [] (=)) 4 sample_recover (sample_world running_table)) = Inr True
   \<and> \<not> exhausted sample_started"
proof -
  let ?w = "sample_world running_table"
  have now: "db_now (mem_db [] (=)) ?w = 2000" by (simp add: mem_db_def sample_world_def)
  have ids: "d_eventId sample_started = ''evt_1''" "d_deliveryId sample_started = ''dlv_1''"
    "d_activeAttemptId sample_started = Some ''att_1''" "d_attemptCount sample_started = 1"
    "lease_expired 9000 sample_started" "d_leaseToken sample_started \<noteq> None"
    "d_updatedAt sample_started = 2000" "\<not> exhausted sample_started"
    by (simp_all add: sample_started_def sample_leased_def sample_defs lease_expired_def exhausted_def)
  have rows: "running_table (K_Lookup ''t1'' LK_Delivery ''dlv_1'') = Some (It_Lookup ''evt_1'')"
    "running_table (K_Attempt ''t1'' ''evt_1'' ''dlv_1'' 1) = Some (It_Attempt sample_attempt)"
    "\<not> isExpired (It_Attempt sample_attempt) 2000"
    by (simp_all add: running_table_def sample_table_def isExpired_def sample_attempt_def)
  have upd: "finalizedEvent (applyTransition sample_started (timeoutTransition sample_recover sample_started))
      sample_event = Inr sample_event"
    using ids(8) by (simp add: finalizedEvent_def updatesOriginalEvent_def timeoutTransition_def)
  have new: "rows_are_new 4 (timedOut sample_recover sample_started sample_attempt) running_table"
    using ids by (simp add: rows_are_new_def timedOut_def timeoutInput_def historyKey_def outboxPut_def
        running_table_def sample_table_def split: option.splits)
  have att: "at_attemptId sample_attempt = ''att_1''" "at_attemptNumber sample_attempt = 1"
    "at_deliveryId sample_attempt = ''dlv_1''" "at_outcome sample_attempt = At_Started"
    by (simp_all add: sample_attempt_def)
  have inp: "re_tenantId sample_recover = ''t1''" "re_eventId sample_recover = ''evt_1''"
    "re_deliveryId sample_recover = ''dlv_1''" "re_now sample_recover = 9000"
    by (simp_all add: sample_recover_def)
  from recovery_is_a_timeout [OF mem_is_alone, where w = ?w and inp = sample_recover and d = sample_started
      and a = sample_attempt and ev = sample_event and updated = sample_event and shards = 4]
    now ids rows upd new att inp finalize_sample(1,2,6,7)
  show ?thesis by simp
qed

end
