(* ===== verification/Fencing.thy ===== *)
theory Fencing
  imports Table_Safety
begin

text \<open>
  Fencing: a worker whose view of a delivery is out of date cannot write it. Once the stored version
  is above the version that a caller expects, no operation of that caller commits, so of the
  workers that compete for one version of a delivery at most one obtains the lease, and a worker
  whose lease was recovered cannot finalize.
\<close>

section \<open>Superseded versions\<close>

definition newer_than :: "dkey \<Rightarrow> int \<Rightarrow> dtable \<Rightarrow> bool" where
  "newer_than k v u \<longleftrightarrow> (\<exists>x. u k = Some (It_Delivery x) \<and> v < d_version x)"

lemma newer_stable: "is_core k \<Longrightarrow> stable safe (newer_than k v)"
proof (unfold stable_def, intro allI impI)
  fix s u
  assume k: "is_core k" and "newer_than k v s" "safe s u"
  then obtain x where x: "s k = Some (It_Delivery x)" "v < d_version x" by (auto simp: newer_than_def)
  from safe_evolves [OF \<open>safe s u\<close>] k have "evolves_item (s k) (u k)" by (simp add: evolves_def)
  with x show "newer_than k v u" by (auto simp: newer_than_def)
qed

lemma newer_refuses: "newer_than k v u \<Longrightarrow> version_is v (u k) \<Longrightarrow> False"
  by (auto simp: newer_than_def version_is_def)

context safe_table
begin

text \<open>A transaction that checks the superseded version is never committed.\<close>

lemma superseded_write:
  assumes "is_core k" and "\<And>u. tx_conditions ops u \<Longrightarrow> version_is v (u k)"
    and "\<And>u. newer_than k v u \<Longrightarrow> Q False u"
  shows "hoare view (newer_than k v) (db_write db ops) Q (\<lambda>_. True)"
proof (rule hoare_write [OF newer_stable [OF assms(1)]])
  show "Q True (tx_apply ops s)" if "newer_than k v s" "tx_ok ops s" for s
    using newer_refuses [OF that(1)] assms(2) [of s] that(2) by (auto simp: tx_ok_def)
qed (use assms(3) in auto)

lemma any_read:
  "is_core k \<Longrightarrow> hoare view (newer_than k v) (mapM f (getCore db k')) (\<lambda>_. newer_than k v) (\<lambda>_. True)"
  by (rule hoare_weaken [OF hoare_read [OF newer_stable]]) auto

lemma superseded_retry:
  assumes "hoare view P body (\<lambda>r u. case r of None \<Rightarrow> P u | Some b \<Rightarrow> \<not> b) (\<lambda>_. True)"
  shows "hoare view P (retryM n body (returnM False)) (\<lambda>b _. \<not> b) (\<lambda>_. True)"
  by (rule hoare_retry [OF assms]) (auto intro: hoare_return)

lemma superseded_lease:
  assumes "v = lq_expectedVersion q"
    and "k = K_Delivery (lq_tenantId q) (lq_eventId q) (lq_deliveryId q)"
  shows "hoare view (newer_than k v) (acquireLease db q) (\<lambda>r _. r = None) (\<lambda>_. True)"
proof -
  have k: "is_core k" using assms by simp
  have step: "hoare view (newer_than k v)
      (if \<not> leasable q now x then returnM None
       else bindM (liftM (transitionDelivery x (leaseTransition q now))) (\<lambda>leased.
            bindM (db_write db (leaseTransaction q now x leased)) (\<lambda>ok.
            returnM (if ok then Some leased else None)))) (\<lambda>r _. r = None) (\<lambda>_. True)" for x now
  proof -
    have put: "hoare view (newer_than k v) (db_write db (leaseTransaction q now x leased))
        (\<lambda>b _. \<not> b) (\<lambda>_. True)" for leased
      by (rule superseded_write [OF k])
         (use assms in \<open>auto simp: leaseTransaction_def dest: delivery_cond_version\<close>)
    show ?thesis
      by (auto intro!: hoare_return hoare_lift_bind hoare_bind [OF put])
  qed
  show ?thesis
    unfolding acquireLease_def getDeliveryAt_def
    by (rule hoare_bind [OF any_read [OF k]])
       (auto intro!: hoare_return hoare_withNow step split: option.splits)
qed

lemma superseded_start:
  assumes "v = st_expectedVersion inp"
    and "k = K_Delivery (st_tenantId inp) (st_eventId inp) (d_deliveryId (st_delivery inp))"
  shows "hoare view (newer_than k v) (startAttempt db inp) (\<lambda>r _. r = None) (\<lambda>_. True)"
proof (cases "d_leaseToken (st_delivery inp)")
  case None
  then show ?thesis by (simp add: startAttempt_def hoare_throw)
next
  case (Some token)
  have k: "is_core k" using assms by simp
  have "hoare view (newer_than k v) (db_write db (startTransaction inp token)) (\<lambda>b _. \<not> b) (\<lambda>_. True)"
    by (rule superseded_write [OF k])
       (use assms in \<open>auto simp: startTransaction_def deliveryPut_def startedDelivery_def
          dest: delivery_cond_version\<close>)
  with Some show ?thesis
    by (auto simp: startAttempt_def intro!: hoare_bind hoare_return)
qed

lemma superseded_finalize:
  assumes "v = fi_expectedVersion inp"
    and "k = K_Delivery (fi_tenantId inp) (fi_eventId inp) (d_deliveryId (fi_delivery inp))"
  shows "hoare view (newer_than k v) (finalizeAttempt db shards inp) (\<lambda>b _. \<not> b) (\<lambda>_. True)"
proof -
  have k: "is_core k" using assms by simp
  have put: "hoare view (newer_than k v) (db_write db (finalizeTransaction shards inp c ev upd))
      (\<lambda>b u. \<not> b \<and> newer_than k v u) (\<lambda>_. True)" for c ev upd
    by (rule superseded_write [OF k])
       (use assms in \<open>auto simp: finalizeTransaction_def deliveryPut_def Let_def
          dest: delivery_cond_version\<close>)
  have step: "hoare view (newer_than k v)
      (case c of None \<Rightarrow> returnM (Some False)
       | Some c \<Rightarrow>
          (case ev of None \<Rightarrow> returnM (Some False)
           | Some ev \<Rightarrow>
              bindM (liftM (finalizedEvent (fi_delivery inp) ev)) (\<lambda>updated.
              bindM (db_write db (finalizeTransaction shards inp c ev updated)) (\<lambda>ok.
              returnM (if ok then Some True else None)))))
      (\<lambda>r u. case r of None \<Rightarrow> newer_than k v u | Some b \<Rightarrow> \<not> b) (\<lambda>_. True)" for c ev
    by (cases c; cases ev)
       (auto intro!: hoare_return hoare_lift_bind hoare_bind [OF put])
  show ?thesis
    unfolding finalizeAttempt_def
    by (rule superseded_retry)
       (auto simp: finalizeAttemptRound_def Let_def getDeliveryAt_def getEvent_def
          intro!: hoare_bind [OF any_read [OF k]] step)
qed

lemma superseded_defer:
  assumes "v = df_expectedVersion inp"
    and "k = K_Delivery (df_tenantId inp) (df_eventId inp) (d_deliveryId (df_delivery inp))"
  shows "hoare view (newer_than k v) (defer_delivery db shards inp) (\<lambda>b _. \<not> b) (\<lambda>_. True)"
proof -
  have k: "is_core k" using assms by simp
  have put: "hoare view (newer_than k v) (db_write db (deferTransaction shards inp c))
      (\<lambda>b _. \<not> b) (\<lambda>_. True)" for c
    by (rule superseded_write [OF k])
       (use assms in \<open>auto simp: deferTransaction_def deliveryPut_def dest: delivery_cond_version\<close>)
  show ?thesis
    unfolding defer_delivery_def getDeliveryAt_def
    by (rule hoare_bind [OF any_read [OF k]]) (auto intro!: hoare_return put split: option.splits)
qed

text \<open>A lease that was granted supersedes the version it was requested for.\<close>

lemma lease_supersedes:
  assumes "k = K_Delivery (lq_tenantId q) (lq_eventId q) (lq_deliveryId q)"
  shows "hoare view (\<lambda>_. True) (acquireLease db q)
    (\<lambda>r u. r = None \<or> newer_than k (lq_expectedVersion q) u) (\<lambda>_. True)"
proof -
  have top: "stable safe (\<lambda>_. True)" by (simp add: stable_def)
  have read: "hoare view (\<lambda>_. True) (mapM f (getCore db k')) (\<lambda>_ _. True) (\<lambda>_. True)" for k' f
    by (simp add: hoare_def split: prod.splits sum.splits)
  have put: "hoare view (\<lambda>_. True) (db_write db (leaseTransaction q now x leased))
      (\<lambda>b u. b \<longrightarrow> newer_than k (lq_expectedVersion q) u) (\<lambda>_. True)"
    if "transitionDelivery x (leaseTransition q now) = Inr leased" for now x leased
  proof (rule hoare_write [OF top])
    fix s
    assume ok: "tx_ok (leaseTransaction q now x leased) s"
    let ?op = "put_op (K_Delivery (lq_tenantId q) (lq_eventId q) (lq_deliveryId q))
       (delivery_cond (lq_expectedVersion q) (\<lambda>d. d_state d \<in> set leasable_states \<and> eligible_by now d))
       (stored_delivery leased)"
    have "?op \<in> set (leaseTransaction q now x leased)" by (simp add: leaseTransaction_def)
    from tx_apply_at [OF this] ok have "tx_apply (leaseTransaction q now x leased) s k = Some (stored_delivery leased)"
      using assms by (simp add: tx_ok_def)
    then show "True \<longrightarrow> newer_than k (lq_expectedVersion q) (tx_apply (leaseTransaction q now x leased) s)"
      using that by (auto simp: newer_than_def stored_delivery_def transitionDelivery_Inr leaseTransition_def)
  qed simp_all
  have step: "hoare view (\<lambda>_. True)
      (bindM (liftM (transitionDelivery x (leaseTransition q now))) (\<lambda>leased.
            bindM (db_write db (leaseTransaction q now x leased)) (\<lambda>ok.
            returnM (if ok then Some leased else None))))
      (\<lambda>r u. r = None \<or> newer_than k (lq_expectedVersion q) u) (\<lambda>_. True)" for x now
    by (auto intro!: hoare_return hoare_lift_bind hoare_bind [OF put])
  show ?thesis
    unfolding acquireLease_def getDeliveryAt_def
    by (rule hoare_bind [OF read]) (auto intro!: hoare_return hoare_withNow step split: option.splits)
qed

end

section \<open>Properties\<close>

text \<open>
  C6. A stale worker is refused. When the stored version of a delivery is above the version \<open>v\<close> that
  a caller expects, then whatever else happens meanwhile none of its calls succeeds: \<open>acquireLease\<close>
  and \<open>startAttempt\<close> return no delivery, \<open>finalizeAttempt\<close> and \<open>defer\<close> do not return \<open>true\<close>. This
  is what makes the result of a worker whose lease expired and was recovered harmless.
\<close>

theorem stale_worker_refused:
  assumes "safe_table db view" and "newer_than (K_Delivery t e i) v (view w)"
  shows "(lq_tenantId q = t \<and> lq_eventId q = e \<and> lq_deliveryId q = i \<and> lq_expectedVersion q = v
           \<longrightarrow> (\<forall>d. fst (acquireLease db q w) \<noteq> Inr (Some d)))
    \<and> (st_tenantId sinp = t \<and> st_eventId sinp = e \<and> d_deliveryId (st_delivery sinp) = i
           \<and> st_expectedVersion sinp = v
           \<longrightarrow> (\<forall>d. fst (startAttempt db sinp w) \<noteq> Inr (Some d)))
    \<and> (fi_tenantId finp = t \<and> fi_eventId finp = e \<and> d_deliveryId (fi_delivery finp) = i
           \<and> fi_expectedVersion finp = v
           \<longrightarrow> fst (finalizeAttempt db shards finp w) \<noteq> Inr True)
    \<and> (df_tenantId dinp = t \<and> df_eventId dinp = e \<and> d_deliveryId (df_delivery dinp) = i
           \<and> df_expectedVersion dinp = v
           \<longrightarrow> fst (defer_delivery db shards dinp w) \<noteq> Inr True)"
  using hoareD [OF safe_table.superseded_lease [OF assms(1) refl refl, of q], of w, OF _ surjective_pairing]
    hoareD [OF safe_table.superseded_start [OF assms(1) refl refl, of sinp], of w, OF _ surjective_pairing]
    hoareD [OF safe_table.superseded_finalize [OF assms(1) refl refl, of finp shards], of w, OF _ surjective_pairing]
    hoareD [OF safe_table.superseded_defer [OF assms(1) refl refl, of dinp shards], of w, OF _ surjective_pairing]
    assms(2)
  by (auto split: sum.splits)

theorem stale_worker_refused_witness:
  "fst (finalizeAttempt (mem_db [] safe) 4 (sample_finalize\<lparr>fi_expectedVersion := 2\<rparr>)
     (sample_world (sample_table sample_started))) \<noteq> Inr True"
proof -
  have "newer_than (K_Delivery ''t1'' ''evt_1'' ''dlv_1'') 2
      (mem_table (sample_world (sample_table sample_started)))"
    by (simp add: newer_than_def sample_table_def sample_started_def)
  from stale_worker_refused [OF mem_is_safe this, where finp = "sample_finalize\<lparr>fi_expectedVersion := 2\<rparr>"]
  show ?thesis by (simp add: sample_finalize_def sample_started_def sample_leased_def sample_defs)
qed

text \<open>
  Mutual exclusion of leases. After one client obtained the lease of a delivery at a version, no
  client obtains a lease of the same delivery for the same version any more, however the table
  evolved in between: two workers that received duplicate messages and read the same version never
  both hold a lease from it.
\<close>

theorem single_lease_per_version:
  assumes "safe_table db view" and "safe_table db2 view"
    and "acquireLease db q w = (Inr (Some d), w1)" and "safe (view w1) (view w2)"
    and "lq_tenantId q2 = lq_tenantId q" and "lq_eventId q2 = lq_eventId q"
    and "lq_deliveryId q2 = lq_deliveryId q" and "lq_expectedVersion q2 = lq_expectedVersion q"
  shows "fst (acquireLease db2 q2 w2) \<noteq> Inr (Some d2)"
proof -
  let ?k = "K_Delivery (lq_tenantId q2) (lq_eventId q2) (lq_deliveryId q2)"
  have "newer_than ?k (lq_expectedVersion q2) (view w1)"
    using hoareD [OF safe_table.lease_supersedes [OF assms(1), of ?k q] TrueI assms(3)] assms(5-8) by simp
  with assms(4) have "newer_than ?k (lq_expectedVersion q2) (view w2)"
    using stableD [OF newer_stable [of ?k]] by simp
  from hoareD [OF safe_table.superseded_lease [OF assms(2) refl refl, of q2] this surjective_pairing]
  show ?thesis by (auto split: sum.splits)
qed

lemma sample_lease_run:
  "\<exists>w1. acquireLease (mem_db [] safe) sample_request (sample_world (sample_table sample_delivery))
     = (Inr (Some sample_leased), w1)"
proof -
  let ?s = "sample_table sample_delivery"
  have tr: "transitionDelivery sample_delivery (leaseTransition sample_request 2000) = Inr sample_leased"
    by (simp add: transitionDelivery_Inr leaseTransition_def sample_request_def sample_leased_def
        sample_defs deferred_states_def applyTransition_def)
  have leasable: "leasable sample_request 2000 sample_delivery"
    by (simp add: leasable_def sample_request_def sample_defs leasable_states_def eligible_by_def)
  have live: "live_item (?s (K_Delivery ''t1'' ''evt_1'' ''dlv_1'')) 2000 = Some (It_Delivery sample_delivery)"
    by (simp add: live_item_def sample_table_def isExpired_def sample_defs)
  have "tx_distinct (leaseTransaction sample_request 2000 sample_delivery sample_leased)"
    by (simp add: tx_distinct_def leaseTransaction_def indexDeletes_def indexPuts_def
        deliveryIndexCategories_def deliveryIndexKey_def sample_leased_def sample_defs)
  moreover have "tx_conditions (leaseTransaction sample_request 2000 sample_delivery sample_leased) ?s"
    by (simp add: leaseTransaction_def delivery_cond_def version_is_def sample_table_def
        sample_request_def sample_defs leasable_states_def eligible_by_def)
  ultimately show ?thesis
    using tr leasable live
    by (simp add: acquireLease_def getDeliveryAt_def getCore_def mapM_def bindM_def returnM_def liftM_def
        withNow_def mem_db_def mem_get_def mem_write_def interfere_def sample_world_def
        sample_request_def Let_def)
qed

theorem single_lease_per_version_witness:
  "\<exists>w1. acquireLease (mem_db [] safe) sample_request (sample_world (sample_table sample_delivery))
       = (Inr (Some sample_leased), w1)
     \<and> fst (acquireLease (mem_db [] safe) (sample_request\<lparr>lq_token := ''lease_2''\<rparr>) w1)
       \<noteq> Inr (Some sample_leased)"
proof -
  obtain w1 where "acquireLease (mem_db [] safe) sample_request (sample_world (sample_table sample_delivery))
     = (Inr (Some sample_leased), w1)" using sample_lease_run by blast
  with single_lease_per_version [OF mem_is_safe mem_is_safe this safe_refl] show ?thesis by auto
qed

end
