(* ===== verification/Control_Store.thy ===== *)
theory Control_Store
  imports Fencing
begin

text \<open>
  The control plane of \<open>DynamoPersistence\<close>: partners, destinations, transformation versions and
  subscriptions, each a record under its own key with a pointer row per external key, written
  together with an audit event in one conditional transaction.
\<close>

section \<open>Reads\<close>

fun as_partner :: "item option \<Rightarrow> partner option" where
  "as_partner (Some (It_Partner p)) = Some p"
| "as_partner _ = None"

fun as_destination :: "item option \<Rightarrow> destination option" where
  "as_destination (Some (It_Destination d)) = Some d"
| "as_destination _ = None"

fun as_transformation :: "item option \<Rightarrow> transformation_version option" where
  "as_transformation (Some (It_Transformation t)) = Some t"
| "as_transformation _ = None"

fun as_subscription :: "item option \<Rightarrow> subscription option" where
  "as_subscription (Some (It_Subscription s)) = Some s"
| "as_subscription _ = None"

fun as_external :: "item option \<Rightarrow> string option" where
  "as_external (Some (It_External e)) = Some e"
| "as_external _ = None"

definition getPartner :: "'w dynamo \<Rightarrow> string \<Rightarrow> string \<Rightarrow> ('w, partner option) op" where
  "getPartner db t partnerId = mapM as_partner (getCore db (K_Partner t partnerId))"

definition getDestination :: "'w dynamo \<Rightarrow> string \<Rightarrow> string \<Rightarrow> ('w, destination option) op" where
  "getDestination db t destinationId = mapM as_destination (getCore db (K_Destination t destinationId))"

definition getTransformationVersion ::
    "'w dynamo \<Rightarrow> string \<Rightarrow> string \<Rightarrow> int \<Rightarrow> ('w, transformation_version option) op" where
  "getTransformationVersion db t transformationId version =
     mapM as_transformation (getCore db (K_Transformation t transformationId version))"

definition byExternalKey ::
    "'w dynamo \<Rightarrow> string \<Rightarrow> resource_type \<Rightarrow> string \<Rightarrow> (string \<Rightarrow> ('w, 'a option) op) \<Rightarrow> ('w, 'a option) op" where
  "byExternalKey db t kind externalKey get =
     bindM (mapM as_external (getCore db (K_ExternalKey t kind externalKey)))
       (\<lambda>pointer. case pointer of None \<Rightarrow> returnM None | Some i \<Rightarrow> get i)"

definition getPartnerByExternalKey :: "'w dynamo \<Rightarrow> string \<Rightarrow> string \<Rightarrow> ('w, partner option) op" where
  "getPartnerByExternalKey db t k = byExternalKey db t RES_Partner k (getPartner db t)"

definition getDestinationByExternalKey :: "'w dynamo \<Rightarrow> string \<Rightarrow> string \<Rightarrow> ('w, destination option) op" where
  "getDestinationByExternalKey db t k = byExternalKey db t RES_Destination k (getDestination db t)"

definition getSubscriptionByExternalKey :: "'w dynamo \<Rightarrow> string \<Rightarrow> string \<Rightarrow> ('w, subscription option) op" where
  "getSubscriptionByExternalKey db t k = byExternalKey db t RES_Subscription k
     (\<lambda>i. mapM as_subscription (getCore db (K_SubscriptionCatalog t i)))"

fun subscription_of_type :: "string \<Rightarrow> string \<Rightarrow> dkey \<Rightarrow> bool" where
  "subscription_of_type t eventType (K_Subscription t' e d) \<longleftrightarrow> t' = t \<and> e = eventType"
| "subscription_of_type t eventType _ = False"

definition listSubscriptions :: "'w dynamo \<Rightarrow> string \<Rightarrow> string \<Rightarrow> ('w, subscription list) op" where
  "listSubscriptions db t eventType =
     bindM (db_query db (subscription_of_type t eventType) None) (\<lambda>rows. withNow db (\<lambda>now.
       returnM (List.map_filter (\<lambda>(k, it). if isExpired it now then None else as_subscription (Some it)) rows)))"

fun partner_of :: "string \<Rightarrow> dkey \<Rightarrow> bool" where
  "partner_of t (K_Partner t' p) \<longleftrightarrow> t' = t"
| "partner_of t _ = False"

fun destination_of :: "string \<Rightarrow> dkey \<Rightarrow> bool" where
  "destination_of t (K_Destination t' d) \<longleftrightarrow> t' = t"
| "destination_of t _ = False"

section \<open>Writes\<close>

datatype create_outcome = CO_Created | CO_Conflict | CO_Limit | CO_Not_Found
datatype update_outcome = UO_Updated | UO_Not_Found | UO_Conflict
datatype delete_outcome = DO_Deleted | DO_Not_Found

definition created_or_conflict :: "bool \<Rightarrow> create_outcome" where
  "created_or_conflict ok = (if ok then CO_Created else CO_Conflict)"

definition updated_or_conflict :: "bool \<Rightarrow> update_outcome" where
  "updated_or_conflict ok = (if ok then UO_Updated else UO_Conflict)"

text \<open>
  \<open>controlWrite\<close> is the transaction itself: \<open>ok\<close> is \<open>True\<close>, \<open>conflict\<close> is \<open>False\<close>. \<open>createPartner\<close>
  lists up to eleven partners and leaves out the expired ones, which partners never are.
\<close>

definition partnerTransaction :: "string \<Rightarrow> partner \<Rightarrow> audit_event \<Rightarrow> tx_op list" where
  "partnerTransaction t p a =
     [put_new (K_Partner t (pa_partnerId p)) (It_Partner p),
      put_new (K_ExternalKey t RES_Partner (pa_externalKey p)) (It_External (pa_partnerId p)),
      auditPut a]"

definition createPartner ::
    "'w dynamo \<Rightarrow> string \<Rightarrow> partner \<Rightarrow> audit_event \<Rightarrow> ('w, create_outcome) op" where
  "createPartner db t p a =
     bindM (db_query db (partner_of t) (Some 11)) (\<lambda>existing.
       if length existing \<ge> 10 then returnM CO_Limit
       else mapM created_or_conflict (db_write db (partnerTransaction t p a)))"

definition updatePartner ::
    "'w dynamo \<Rightarrow> string \<Rightarrow> partner \<Rightarrow> int \<Rightarrow> audit_event \<Rightarrow> ('w, update_outcome) op" where
  "updatePartner db t p expected a =
     bindM (getPartner db t (pa_partnerId p)) (\<lambda>existing.
       if existing = None then returnM UO_Not_Found
       else mapM updated_or_conflict (db_write db
              [put_op (K_Partner t (pa_partnerId p)) (version_is expected) (It_Partner p), auditPut a]))"

definition destinationTransaction :: "string \<Rightarrow> destination \<Rightarrow> audit_event \<Rightarrow> tx_op list" where
  "destinationTransaction t d a =
     [put_new (K_Destination t (de_destinationId d)) (It_Destination d),
      put_new (K_ExternalKey t RES_Destination (de_externalKey d)) (It_External (de_destinationId d)),
      auditPut a]"

definition createDestination ::
    "'w dynamo \<Rightarrow> string \<Rightarrow> destination \<Rightarrow> audit_event \<Rightarrow> ('w, create_outcome) op" where
  "createDestination db t d a =
     bindM (getPartner db t (de_partnerId d)) (\<lambda>owner.
       if owner = None then returnM CO_Not_Found
       else bindM (db_query db (destination_of t) None) (\<lambda>existing.
         if length existing \<ge> 25 then returnM CO_Limit
         else mapM created_or_conflict (db_write db (destinationTransaction t d a))))"

definition updateDestination ::
    "'w dynamo \<Rightarrow> nat \<Rightarrow> string \<Rightarrow> destination \<Rightarrow> int \<Rightarrow> audit_event \<Rightarrow> outbox_record option
       \<Rightarrow> ('w, update_outcome) op" where
  "updateDestination db shards t d expected a outbox =
     bindM (getDestination db t (de_destinationId d)) (\<lambda>existing.
       if existing = None then returnM UO_Not_Found
       else mapM updated_or_conflict (db_write db
              ([put_op (K_Destination t (de_destinationId d)) (version_is expected) (It_Destination d),
                auditPut a]
               @ (case outbox of None \<Rightarrow> [] | Some b \<Rightarrow> [outboxPut shards b]))))"

definition transformationTransaction ::
    "string \<Rightarrow> transformation_version \<Rightarrow> audit_event \<Rightarrow> tx_op list" where
  "transformationTransaction t v a =
     put_new (K_Transformation t (tf_transformationId v) (tf_version v)) (It_Transformation v)
     # (if tf_version v = 1
        then [put_new (K_ExternalKey t RES_Transformation (tf_externalKey v))
                (It_External (tf_transformationId v))] else [])
     @ [auditPut a]"

definition createTransformationVersion ::
    "'w dynamo \<Rightarrow> string \<Rightarrow> transformation_version \<Rightarrow> audit_event \<Rightarrow> ('w, create_outcome) op" where
  "createTransformationVersion db t v a =
     mapM created_or_conflict (db_write db (transformationTransaction t v a))"

definition subscriptionKey :: "string \<Rightarrow> subscription \<Rightarrow> dkey" where
  "subscriptionKey t s = K_Subscription t (su_eventType s) (su_destinationId s)"

definition catalogKey :: "string \<Rightarrow> subscription \<Rightarrow> dkey" where
  "catalogKey t s = K_SubscriptionCatalog t (su_subscriptionId s)"

definition subscribeTransaction :: "string \<Rightarrow> subscription \<Rightarrow> audit_event \<Rightarrow> tx_op list" where
  "subscribeTransaction t s a =
     [put_new (subscriptionKey t s) (It_Subscription s),
      put_new (catalogKey t s) (It_Subscription s),
      put_new (K_ExternalKey t RES_Subscription (su_externalKey s)) (It_External (su_subscriptionId s)),
      auditPut a]"

definition createSubscription ::
    "'w dynamo \<Rightarrow> string \<Rightarrow> subscription \<Rightarrow> audit_event \<Rightarrow> ('w, create_outcome) op" where
  "createSubscription db t s a =
     bindM (getDestination db t (su_destinationId s)) (\<lambda>dest.
       if dest = None then returnM CO_Not_Found
       else mapM created_or_conflict (db_write db (subscribeTransaction t s a)))"

definition resubscribeTransaction :: "string \<Rightarrow> subscription \<Rightarrow> int \<Rightarrow> audit_event \<Rightarrow> tx_op list" where
  "resubscribeTransaction t s expected a =
     [put_op (subscriptionKey t s) (version_is expected) (It_Subscription s),
      put_op (catalogKey t s) (version_is expected) (It_Subscription s),
      auditPut a]"

definition updateSubscription ::
    "'w dynamo \<Rightarrow> string \<Rightarrow> subscription \<Rightarrow> int \<Rightarrow> audit_event \<Rightarrow> ('w, update_outcome) op" where
  "updateSubscription db t s expected a =
     bindM (mapM as_subscription (getCore db (catalogKey t s))) (\<lambda>existing.
       if existing = None then returnM UO_Not_Found
       else mapM updated_or_conflict (db_write db (resubscribeTransaction t s expected a)))"

definition unsubscribeTransaction :: "string \<Rightarrow> subscription \<Rightarrow> audit_event \<Rightarrow> tx_op list" where
  "unsubscribeTransaction t s a =
     [delete_op (subscriptionKey t s) attribute_exists_PK,
      delete_op (catalogKey t s) attribute_exists_PK,
      delete_op (K_ExternalKey t RES_Subscription (su_externalKey s)) always,
      auditPut a]"

definition deleteSubscription ::
    "'w dynamo \<Rightarrow> string \<Rightarrow> string \<Rightarrow> audit_event \<Rightarrow> ('w, delete_outcome) op" where
  "deleteSubscription db t subscriptionId a =
     bindM (mapM as_subscription (getCore db (K_SubscriptionCatalog t subscriptionId))) (\<lambda>found.
       case found of
         None \<Rightarrow> returnM DO_Not_Found
       | Some s \<Rightarrow> mapM (\<lambda>ok. if ok then DO_Deleted else DO_Not_Found)
                     (db_write db (unsubscribeTransaction t s a)))"

section \<open>Subscriptions and their catalogue\<close>

text \<open>
  Routing reads subscriptions by event type, the control plane by identifier: two copies of each
  subscription, which must be the same.
\<close>

definition catalogue_agrees :: "dtable \<Rightarrow> bool" where
  "catalogue_agrees s \<longleftrightarrow>
     (\<forall>t e d it. s (K_Subscription t e d) = Some it \<longrightarrow>
        (\<exists>x. it = It_Subscription x \<and> su_eventType x = e \<and> su_destinationId x = d
           \<and> s (catalogKey t x) = Some (It_Subscription x)))
     \<and> (\<forall>t i it. s (K_SubscriptionCatalog t i) = Some it \<longrightarrow>
        (\<exists>x. it = It_Subscription x \<and> su_subscriptionId x = i
           \<and> s (subscriptionKey t x) = Some (It_Subscription x)))"

lemma tx_writes_two:
  assumes "tx_distinct ops" and "a \<in> set ops" and "b \<in> set ops"
  shows "tx_apply ops s (op_key a) = run_action (op_action a) (s (op_key a))"
    and "tx_apply ops s (op_key b) = run_action (op_action b) (s (op_key b))"
  using tx_apply_at assms by blast+

lemma catalogue_change:
  assumes inv: "catalogue_agrees s"
    and old: "\<And>x. s (catalogKey t n) = Some (It_Subscription x) \<Longrightarrow>
        su_eventType x = su_eventType n \<and> su_destinationId x = su_destinationId n"
      "\<And>x. s (subscriptionKey t n) = Some (It_Subscription x) \<Longrightarrow>
        su_subscriptionId x = su_subscriptionId n"
    and other: "\<And>t' e d. K_Subscription t' e d \<noteq> subscriptionKey t n \<Longrightarrow>
        u (K_Subscription t' e d) = s (K_Subscription t' e d)"
      "\<And>t' i. K_SubscriptionCatalog t' i \<noteq> catalogKey t n \<Longrightarrow>
        u (K_SubscriptionCatalog t' i) = s (K_SubscriptionCatalog t' i)"
    and new: "(u (subscriptionKey t n) = None \<and> u (catalogKey t n) = None)
      \<or> (u (subscriptionKey t n) = Some (It_Subscription n) \<and> u (catalogKey t n) = Some (It_Subscription n))"
  shows "catalogue_agrees u"
  unfolding catalogue_agrees_def
proof (intro conjI allI impI)
  fix t' e d it
  assume u: "u (K_Subscription t' e d) = Some it"
  show "\<exists>x. it = It_Subscription x \<and> su_eventType x = e \<and> su_destinationId x = d
      \<and> u (catalogKey t' x) = Some (It_Subscription x)"
  proof (cases "K_Subscription t' e d = subscriptionKey t n")
    case True
    with u new show ?thesis by (auto simp: subscriptionKey_def catalogKey_def)
  next
    case False
    with u other(1) have "s (K_Subscription t' e d) = Some it" by simp
    with inv obtain x where x: "it = It_Subscription x" "su_eventType x = e" "su_destinationId x = d"
        "s (catalogKey t' x) = Some (It_Subscription x)"
      unfolding catalogue_agrees_def by blast
    have "catalogKey t' x \<noteq> catalogKey t n"
    proof
      assume eq: "catalogKey t' x = catalogKey t n"
      with x(4) old(1) [of x] x(2,3) eq have "K_Subscription t' e d = subscriptionKey t n"
        by (simp add: catalogKey_def subscriptionKey_def)
      with False show False by contradiction
    qed
    with x other(2) show ?thesis by (simp add: catalogKey_def)
  qed
next
  fix t' i it
  assume u: "u (K_SubscriptionCatalog t' i) = Some it"
  show "\<exists>x. it = It_Subscription x \<and> su_subscriptionId x = i
      \<and> u (subscriptionKey t' x) = Some (It_Subscription x)"
  proof (cases "K_SubscriptionCatalog t' i = catalogKey t n")
    case True
    with u new show ?thesis by (auto simp: subscriptionKey_def catalogKey_def)
  next
    case False
    with u other(2) have "s (K_SubscriptionCatalog t' i) = Some it" by simp
    with inv obtain x where x: "it = It_Subscription x" "su_subscriptionId x = i"
        "s (subscriptionKey t' x) = Some (It_Subscription x)"
      unfolding catalogue_agrees_def by blast
    have "subscriptionKey t' x \<noteq> subscriptionKey t n"
    proof
      assume eq: "subscriptionKey t' x = subscriptionKey t n"
      with x(3) old(2) [of x] x(2) have "K_SubscriptionCatalog t' i = catalogKey t n"
        by (simp add: catalogKey_def subscriptionKey_def)
      with False show False by contradiction
    qed
    with x other(1) show ?thesis by (simp add: subscriptionKey_def)
  qed
qed

text \<open>
  The catalogue of subscriptions agrees with what routing reads. Every commit of a creation, of an
  update that keeps event type and destination, and of a deletion of a subscription that was in the
  catalogue keeps the two copies of every subscription equal, so an event is routed to exactly the
  subscriptions that the control plane lists.
\<close>

theorem catalogue_stays_in_step:
  assumes "catalogue_agrees s"
  shows "(tx_ok (subscribeTransaction t x a) s \<longrightarrow> catalogue_agrees (tx_apply (subscribeTransaction t x a) s))
    \<and> (tx_ok (resubscribeTransaction t x v a) s
       \<and> (\<exists>y. s (catalogKey t x) = Some (It_Subscription y) \<and> su_eventType y = su_eventType x
            \<and> su_destinationId y = su_destinationId x)
       \<longrightarrow> catalogue_agrees (tx_apply (resubscribeTransaction t x v a) s))
    \<and> (tx_ok (unsubscribeTransaction t x a) s
       \<and> (\<forall>y. s (catalogKey t x) = Some (It_Subscription y) \<longrightarrow> su_eventType y = su_eventType x
            \<and> su_destinationId y = su_destinationId x)
       \<longrightarrow> catalogue_agrees (tx_apply (unsubscribeTransaction t x a) s))"
proof (intro conjI impI)
  assume ok: "tx_ok (subscribeTransaction t x a) s"
  show "catalogue_agrees (tx_apply (subscribeTransaction t x a) s)"
    using ok
    by (intro catalogue_change [OF assms, where t = t and n = x])
       (auto simp: tx_ok_def subscribeTransaction_def subscriptionKey_def catalogKey_def auditPut_def)
next
  assume h: "tx_ok (resubscribeTransaction t x v a) s
       \<and> (\<exists>y. s (catalogKey t x) = Some (It_Subscription y) \<and> su_eventType y = su_eventType x
            \<and> su_destinationId y = su_destinationId x)"
  then obtain y where y: "s (catalogKey t x) = Some (It_Subscription y)" "su_eventType y = su_eventType x"
      "su_destinationId y = su_destinationId x" by blast
  have copy: "s (subscriptionKey t x) = Some (It_Subscription y)" "su_subscriptionId y = su_subscriptionId x"
    using assms y unfolding catalogue_agrees_def catalogKey_def subscriptionKey_def by fastforce+
  show "catalogue_agrees (tx_apply (resubscribeTransaction t x v a) s)"
    using y copy
    by (intro catalogue_change [OF assms, where t = t and n = x])
       (auto simp: resubscribeTransaction_def subscriptionKey_def catalogKey_def auditPut_def)
next
  assume h: "tx_ok (unsubscribeTransaction t x a) s
       \<and> (\<forall>y. s (catalogKey t x) = Some (It_Subscription y) \<longrightarrow> su_eventType y = su_eventType x
            \<and> su_destinationId y = su_destinationId x)"
  then have "s (catalogKey t x) \<noteq> None"
    by (simp add: tx_ok_def unsubscribeTransaction_def)
  then obtain y where y: "s (catalogKey t x) = Some (It_Subscription y)" "su_subscriptionId y = su_subscriptionId x"
      "s (subscriptionKey t y) = Some (It_Subscription y)"
    using assms unfolding catalogue_agrees_def catalogKey_def by fastforce
  have same: "subscriptionKey t y = subscriptionKey t x" using h y(1) by (simp add: subscriptionKey_def)
  show "catalogue_agrees (tx_apply (unsubscribeTransaction t x a) s)"
    using y same h
    by (intro catalogue_change [OF assms, where t = t and n = x])
       (auto simp: unsubscribeTransaction_def subscriptionKey_def catalogKey_def auditPut_def)
qed

definition sample_subscription :: subscription where
  "sample_subscription = \<lparr>su_subscriptionId = ''sub_1'', su_externalKey = ''orders'', su_tenantId = ''t1'',
     su_destinationId = ''dst_1'', su_eventType = ''order.created'', su_enabled = True,
     su_createdAt = 1000, su_version = 1\<rparr>"

definition sample_audit :: audit_event where
  "sample_audit = \<lparr>au_auditId = ''aud_1'', au_tenantId = ''t1'', au_actorId = ''usr_1'', au_actorRole = None,
     au_action = ''SUBSCRIPTION_CREATED'', au_targetType = ''SUBSCRIPTION'', au_targetId = ''sub_1'',
     au_requestId = ''req_1'', au_correlationId = ''cor_1'', au_reason = None, au_metadata = [],
     au_occurredAt = 1000, au_expiresAt = Iso 9000\<rparr>"

lemma empty_catalogue: "catalogue_agrees Map.empty"
  by (simp add: catalogue_agrees_def)

lemma sample_subscribe_ok: "tx_ok (subscribeTransaction ''t1'' sample_subscription sample_audit) Map.empty"
  by (simp add: tx_ok_def tx_distinct_def subscribeTransaction_def subscriptionKey_def catalogKey_def
      auditPut_def sample_subscription_def sample_audit_def)

lemma catalogue_stays_in_step_witness:
  "catalogue_agrees Map.empty
   \<and> tx_ok (subscribeTransaction ''t1'' sample_subscription sample_audit) Map.empty
   \<and> catalogue_agrees (tx_apply (subscribeTransaction ''t1'' sample_subscription sample_audit) Map.empty)"
  using catalogue_stays_in_step [OF empty_catalogue, of "''t1''" sample_subscription sample_audit]
    empty_catalogue sample_subscribe_ok by blast

end
