(* ===== verification/Replay_Store.thy ===== *)
theory Replay_Store
  imports Fencing Event_Runs
begin

text \<open>
  \<open>createReplay\<close> of \<open>DynamoPersistence\<close>: a second delivery for the same event and destination, tied to
  the original by a replay relation, with its history, index rows, outbox record and audit event, and a
  guard row that makes the request idempotent, all in one transaction.
\<close>

record replay_input =
  ry_tenantId :: string
  ry_requestHash :: string
  ry_idempotencyKeyHash :: string
  ry_relation :: replay_relation
  ry_delivery :: delivery
  ry_history :: history_entry
  ry_outbox :: outbox_record
  ry_audit :: audit_event

datatype replay_result =
    Replay_Created delivery string
  | Replay_Duplicate delivery string
  | Replay_Conflict

fun as_replay_guard :: "item option \<Rightarrow> replay_guard option" where
  "as_replay_guard (Some (It_ReplayIdempotency g)) = Some g"
| "as_replay_guard _ = None"

definition replayGuardKey :: "replay_input \<Rightarrow> dkey" where
  "replayGuardKey inp = K_ReplayIdempotency (ry_tenantId inp) (ry_idempotencyKeyHash inp)"

definition replayGuard :: "replay_input \<Rightarrow> replay_guard" where
  "replayGuard inp = \<lparr>rg_requestHash = ry_requestHash inp,
     rg_replayDeliveryId = d_deliveryId (ry_delivery inp), rg_replayId = rr_replayId (ry_relation inp),
     rg_expiresAt = to_epoch (Iso (rr_requestedAt (ry_relation inp) + days 7))\<rparr>"

definition stored_relation :: "replay_relation \<Rightarrow> item" where
  "stored_relation r = It_ReplayRelation (r\<lparr>rr_expiresAt := to_epoch (rr_expiresAt r)\<rparr>)"

definition replayTransaction :: "nat \<Rightarrow> replay_input \<Rightarrow> tx_op list" where
  "replayTransaction shards inp =
     (let t = ry_tenantId inp; d = ry_delivery inp; r = ry_relation inp; h = ry_history inp;
          hour = hourOf (rr_requestedAt r)
      in [put_new (K_Delivery t (d_eventId d) (d_deliveryId d)) (stored_delivery d),
          put_new (K_Lookup t LK_Delivery (d_deliveryId d)) (It_Lookup (d_eventId d)),
          put_new (K_ReplayRelation t (rr_eventId r) (rr_originalDeliveryId r) (rr_replayId r))
            (stored_relation r),
          put_new (K_History t (d_eventId d) (hi_deliveryId h) (hi_occurredAt h) (hi_historyId h))
            (stored_history h)]
         @ indexPutsNew d
         @ [put_new (replayGuardKey inp) (It_ReplayIdempotency (replayGuard inp)),
            outboxPut shards (ry_outbox inp),
            auditPut (ry_audit inp),
            update_op (K_Rollup t hour (Some (stableShard (d_deliveryId d) 8)))
              (add_counters [(''replaysRequested'', 1)]),
            update_op (K_DestinationRollup t hour (d_destinationId d))
              (add_counters [(''replaysRequested'', 1)])])"

text \<open>What a request that finds the guard of its key answers, before or after a refused transaction.\<close>

definition answerReplay ::
    "'w dynamo \<Rightarrow> replay_input \<Rightarrow> replay_guard option \<Rightarrow> ('w, replay_result) op" where
  "answerReplay db inp guard = (case guard of
      None \<Rightarrow> returnM Replay_Conflict
    | Some g \<Rightarrow>
        if rg_requestHash g \<noteq> ry_requestHash inp then returnM Replay_Conflict
        else bindM (getDelivery db (ry_tenantId inp) (rg_replayDeliveryId g)) (\<lambda>found.
               returnM (case found of None \<Rightarrow> Replay_Conflict | Some d \<Rightarrow> Replay_Duplicate d (rg_replayId g))))"

definition createReplay :: "'w dynamo \<Rightarrow> nat \<Rightarrow> replay_input \<Rightarrow> ('w, replay_result) op" where
  "createReplay db shards inp =
     bindM (mapM as_replay_guard (getCore db (replayGuardKey inp))) (\<lambda>existing.
       if existing \<noteq> None then answerReplay db inp existing
       else bindM (db_write db (replayTransaction shards inp)) (\<lambda>ok.
         if ok then returnM (Replay_Created (ry_delivery inp) (rr_replayId (ry_relation inp)))
         else bindM (mapM as_replay_guard (getCore db (replayGuardKey inp))) (answerReplay db inp)))"

section \<open>A replay is safe\<close>

lemma core_replay:
  "core_writes (replayTransaction shards inp) =
     [put_op (K_Delivery (ry_tenantId inp) (d_eventId (ry_delivery inp)) (d_deliveryId (ry_delivery inp)))
        attribute_not_exists_PK (stored_delivery (ry_delivery inp))]"
  by (simp add: replayTransaction_def Let_def replayGuardKey_def auditPut_def put_new_def)

context safe_table
begin

lemma read_keeps: "hoare view (since s0) (mapM f (getCore db k)) (\<lambda>_. since s0) (since s0)"
  by (rule hoare_read [OF stable_since])

lemma getDelivery_keeps: "hoare view (since s0) (getDelivery db t i) (\<lambda>_. since s0) (since s0)"
  unfolding getDelivery_def
  by (rule hoare_bind [OF read_keeps]) (auto intro: read_keeps return_keeps split: option.split)

lemma answerReplay_keeps: "hoare view (since s0) (answerReplay db inp g) (\<lambda>_. since s0) (since s0)"
  unfolding answerReplay_def
  by (auto intro!: return_keeps hoare_bind [OF getDelivery_keeps] split: option.split)

lemma run_safe:
  assumes "hoare view (since (view w)) m (\<lambda>_. since (view w)) (since (view w))" and "table_inv (view w)"
  shows "safe (view w) (view (snd (m w))) \<and> table_inv (view (snd (m w)))"
proof -
  have run: "m w = (fst (m w), snd (m w))" by simp
  have "since (view w) (view (snd (m w)))"
    using hoareD [OF assms(1) _ run] since_refl [OF assms(2)] by (auto split: sum.splits)
  then show ?thesis using since_safe since_inv by blast
qed

lemma createReplay_keeps:
  assumes d: "creatable (ry_delivery inp)" "d_tenantId (ry_delivery inp) = ry_tenantId inp"
      "d_executionType (ry_delivery inp) = REPLAY"
    and ev: "seen s0 (K_Event (ry_tenantId inp) (d_eventId (ry_delivery inp))) it"
  shows "hoare view (since s0) (createReplay db shards inp) (\<lambda>_. since s0) (since s0)"
proof -
  have commit: "since s0 (tx_apply (replayTransaction shards inp) u)"
    if u: "since s0 u" and ok: "tx_ok (replayTransaction shards inp) u" for u
  proof -
    have "seen u (K_Event (ry_tenantId inp) (d_eventId (ry_delivery inp))) it"
      using seen_safe [OF ev] u by (simp add: since_def)
    then have "safe u (tx_apply (replayTransaction shards inp) u)"
      using tx_ok_core [OF ok]
      by (intro create_replay_commit [OF since_inv [OF u] _ d _ core_replay]) (simp_all add: core_replay)
    with u show ?thesis unfolding since_def using safe_trans safe_inv by blast
  qed
  have again: "hoare view (since s0)
      (bindM (mapM as_replay_guard (getCore db (replayGuardKey inp))) (answerReplay db inp)) (\<lambda>_. since s0) (since s0)"
    by (rule hoare_bind [OF read_keeps answerReplay_keeps])
  have writes: "hoare view (since s0) (db_write db (replayTransaction shards inp)) (\<lambda>_. since s0) (since s0)"
    by (rule hoare_write [OF stable_since]) (auto intro: commit)
  show ?thesis
    unfolding createReplay_def
  proof (rule hoare_bind [OF read_keeps])
    fix g
    show "hoare view (since s0) (if g \<noteq> None then answerReplay db inp g
        else bindM (db_write db (replayTransaction shards inp)) (\<lambda>ok.
          if ok then returnM (Replay_Created (ry_delivery inp) (rr_replayId (ry_relation inp)))
          else bindM (mapM as_replay_guard (getCore db (replayGuardKey inp))) (answerReplay db inp)))
        (\<lambda>_. since s0) (since s0)"
    proof (cases g)
      case None
      show ?thesis
        unfolding None by (simp, rule hoare_bind [OF writes]) (auto intro: again return_keeps)
    qed (auto intro: answerReplay_keeps)
  qed
qed

end

text \<open>
  Creating a replay is safe: beside any safe clients it keeps the invariant of the table. A replay
  is a delivery of its own, which the counters of its event do not count.
\<close>

theorem createReplay_safe:
  assumes "safe_table db view" and "table_inv (view w)" and "creatable (ry_delivery inp)"
    and "d_tenantId (ry_delivery inp) = ry_tenantId inp" and "d_executionType (ry_delivery inp) = REPLAY"
    and "view w (K_Event (ry_tenantId inp) (d_eventId (ry_delivery inp))) = Some it"
  shows "safe (view w) (view (snd (createReplay db shards inp w)))
    \<and> table_inv (view (snd (createReplay db shards inp w)))"
proof -
  have "seen (view w) (K_Event (ry_tenantId inp) (d_eventId (ry_delivery inp))) it"
    using assms(6) by (rule seen_now)
  from safe_table.createReplay_keeps [OF assms(1,3,4,5) this] show ?thesis
    using assms(2) by (rule safe_table.run_safe [OF assms(1)])
qed

definition sample_relation :: replay_relation where
  "sample_relation = \<lparr>rr_replayId = ''rpl_1'', rr_tenantId = ''t1'', rr_eventId = ''evt_1'',
     rr_originalDeliveryId = ''dlv_1'', rr_replayDeliveryId = ''dlv_2'', rr_requestedAt = 2000,
     rr_requestedBy = ''usr_1'', rr_reason = ''fixed'', rr_correctionConfirmed = True,
     rr_originalDestinationVersion = 1, rr_originalTransformationId = ''trf_1'',
     rr_originalTransformationVersion = 1, rr_replayDestinationVersion = 1,
     rr_replayTransformationId = ''trf_1'', rr_replayTransformationVersion = 1, rr_expiresAt = Iso 9000000\<rparr>"

definition sample_audit_row :: audit_event where
  "sample_audit_row = \<lparr>au_auditId = ''aud_1'', au_tenantId = ''t1'', au_actorId = ''usr_1'',
     au_actorRole = None, au_action = ''delivery.replay_requested'', au_targetType = ''DELIVERY'',
     au_targetId = ''dlv_1'', au_requestId = ''req_1'', au_correlationId = ''cor_1'', au_reason = Some ''fixed'',
     au_metadata = [], au_occurredAt = 2000, au_expiresAt = Iso 9000000\<rparr>"

definition sample_replay :: replay_input where
  "sample_replay = \<lparr>ry_tenantId = ''t1'', ry_requestHash = ''h'', ry_idempotencyKeyHash = ''k'',
     ry_relation = sample_relation,
     ry_delivery = sample_delivery\<lparr>d_deliveryId := ''dlv_2'', d_executionType := REPLAY, d_updatedAt := 2000\<rparr>,
     ry_history = sample_history\<lparr>hi_deliveryId := ''dlv_2''\<rparr>, ry_outbox = sample_outbox,
     ry_audit = sample_audit_row\<rparr>"

lemma sample_replay_input:
  "creatable (ry_delivery sample_replay)" "d_tenantId (ry_delivery sample_replay) = ry_tenantId sample_replay"
  "d_executionType (ry_delivery sample_replay) = REPLAY"
  "sample_table sample_delivery (K_Event (ry_tenantId sample_replay) (d_eventId (ry_delivery sample_replay)))
     = Some (It_Event sample_event)"
  by (simp_all add: sample_replay_def creatable_def lease_wf_def sample_delivery_def sample_table_def)

lemma createReplay_safe_witness:
  "table_inv (mem_table (snd (createReplay (mem_db [] safe) 4 sample_replay
     (sample_world (sample_table sample_delivery)))))"
  using createReplay_safe [OF mem_is_safe, where w = "sample_world (sample_table sample_delivery)"
      and inp = sample_replay and it = "It_Event sample_event"] sample_inv(1) sample_replay_input by simp

section \<open>A replay happens once\<close>

lemma replay_distinct: "tx_distinct (replayTransaction shards inp)"
proof -
  have "distinct (map op_key (indexPutsNew (ry_delivery inp)))" by simp
  moreover have "set (map op_key (indexPutsNew (ry_delivery inp))) \<inter> {k. \<nexists>t c n i. k = K_DeliveryIndex t c n i} = {}"
    by (auto simp: indexPutsNew_def deliveryIndexKey_def)
  ultimately show ?thesis
    by (auto simp: tx_distinct_def replayTransaction_def Let_def replayGuardKey_def outboxPut_def auditPut_def
        indexPutsNew_def deliveryIndexKey_def)
qed

lemma replay_puts:
  "tx_apply (replayTransaction shards inp) s (replayGuardKey inp)
     = Some (It_ReplayIdempotency (replayGuard inp))"
  "tx_apply (replayTransaction shards inp) s
     (K_Lookup (ry_tenantId inp) LK_Delivery (d_deliveryId (ry_delivery inp)))
     = Some (It_Lookup (d_eventId (ry_delivery inp)))"
  "tx_apply (replayTransaction shards inp) s
     (K_Delivery (ry_tenantId inp) (d_eventId (ry_delivery inp)) (d_deliveryId (ry_delivery inp)))
     = Some (stored_delivery (ry_delivery inp))"
proof -
  note at_key = tx_apply_at [OF _ replay_distinct [of shards inp], where s = s]
  show "tx_apply (replayTransaction shards inp) s (replayGuardKey inp)
     = Some (It_ReplayIdempotency (replayGuard inp))"
    using at_key [of "put_new (replayGuardKey inp) (It_ReplayIdempotency (replayGuard inp))"]
    by (simp add: replayTransaction_def Let_def)
  show "tx_apply (replayTransaction shards inp) s
     (K_Lookup (ry_tenantId inp) LK_Delivery (d_deliveryId (ry_delivery inp)))
     = Some (It_Lookup (d_eventId (ry_delivery inp)))"
    using at_key [of "put_new (K_Lookup (ry_tenantId inp) LK_Delivery (d_deliveryId (ry_delivery inp)))
        (It_Lookup (d_eventId (ry_delivery inp)))"]
    by (simp add: replayTransaction_def Let_def)
  show "tx_apply (replayTransaction shards inp) s
     (K_Delivery (ry_tenantId inp) (d_eventId (ry_delivery inp)) (d_deliveryId (ry_delivery inp)))
     = Some (stored_delivery (ry_delivery inp))"
    using at_key [of "put_new (K_Delivery (ry_tenantId inp) (d_eventId (ry_delivery inp))
        (d_deliveryId (ry_delivery inp))) (stored_delivery (ry_delivery inp))"]
    by (simp add: replayTransaction_def Let_def)
qed

definition replay_answer_in :: "dtable \<Rightarrow> instant \<Rightarrow> replay_input \<Rightarrow> replay_guard option \<Rightarrow> replay_result" where
  "replay_answer_in s now inp guard = (case guard of
      None \<Rightarrow> Replay_Conflict
    | Some g \<Rightarrow> if rg_requestHash g \<noteq> ry_requestHash inp then Replay_Conflict
        else (case as_lookup (live_item (s (K_Lookup (ry_tenantId inp) LK_Delivery (rg_replayDeliveryId g))) now) of
            None \<Rightarrow> Replay_Conflict
          | Some e \<Rightarrow> (case as_delivery (live_item (s (K_Delivery (ry_tenantId inp) e (rg_replayDeliveryId g))) now) of
                None \<Rightarrow> Replay_Conflict | Some d \<Rightarrow> Replay_Duplicate d (rg_replayId g))))"

context dynamo_alone
begin

lemma getDelivery_run:
  "yields db view (getDelivery db t i) w (Inr
     (case as_lookup (live_item (view w (K_Lookup t LK_Delivery i)) (db_now db w)) of None \<Rightarrow> None
      | Some e \<Rightarrow> as_delivery (live_item (view w (K_Delivery t e i)) (db_now db w)))) (view w)"
  unfolding getDelivery_def
proof (rule yields_bind [OF yields_core])
  fix w1
  assume "view w1 = view w" "db_now db w1 = db_now db w"
  then show "yields db view
      (case as_lookup (live_item (view w (K_Lookup t LK_Delivery i)) (db_now db w)) of
         None \<Rightarrow> returnM None | Some eventId \<Rightarrow> mapM as_delivery (getCore db (K_Delivery t eventId i))) w1
      (Inr (case as_lookup (live_item (view w (K_Lookup t LK_Delivery i)) (db_now db w)) of None \<Rightarrow> None
      | Some e \<Rightarrow> as_delivery (live_item (view w (K_Delivery t e i)) (db_now db w)))) (view w)"
    using yields_core [of as_delivery "K_Delivery t _ i" w1]
    by (auto intro: yields_return split: option.split)
qed

lemma answerReplay_run:
  "yields db view (answerReplay db inp g) w (Inr (replay_answer_in (view w) (db_now db w) inp g)) (view w)"
proof (cases "\<exists>h. g = Some h \<and> rg_requestHash h = ry_requestHash inp")
  case False
  then show ?thesis
    by (auto simp: answerReplay_def replay_answer_in_def yields_return split: option.splits)
next
  case True
  then obtain h where h: "g = Some h" "rg_requestHash h = ry_requestHash inp" by blast
  let ?found = "case as_lookup (live_item (view w (K_Lookup (ry_tenantId inp) LK_Delivery (rg_replayDeliveryId h))) (db_now db w)) of
      None \<Rightarrow> None | Some e \<Rightarrow> as_delivery (live_item (view w (K_Delivery (ry_tenantId inp) e (rg_replayDeliveryId h))) (db_now db w))"
  have "replay_answer_in (view w) (db_now db w) inp g
      = (case ?found of None \<Rightarrow> Replay_Conflict | Some d \<Rightarrow> Replay_Duplicate d (rg_replayId h))"
    by (simp add: replay_answer_in_def h split: option.split)
  moreover have "yields db view (bindM (getDelivery db (ry_tenantId inp) (rg_replayDeliveryId h)) (\<lambda>found.
      returnM (case found of None \<Rightarrow> Replay_Conflict | Some d \<Rightarrow> Replay_Duplicate d (rg_replayId h)))) w
      (Inr (case ?found of None \<Rightarrow> Replay_Conflict | Some d \<Rightarrow> Replay_Duplicate d (rg_replayId h))) (view w)"
    by (rule yields_bind [OF getDelivery_run]) (simp add: yields_return)
  ultimately show ?thesis by (simp add: answerReplay_def h)
qed

lemma createReplay_run:
  fixes inp w
  defines "g \<equiv> as_replay_guard (live_item (view w (replayGuardKey inp)) (db_now db w))"
  shows "g \<noteq> None \<Longrightarrow> yields db view (createReplay db shards inp) w
      (Inr (replay_answer_in (view w) (db_now db w) inp g)) (view w)"
    and "g = None \<Longrightarrow> yields db view (createReplay db shards inp) w
      (Inr (if tx_conditions (replayTransaction shards inp) (view w)
            then Replay_Created (ry_delivery inp) (rr_replayId (ry_relation inp)) else Replay_Conflict))
      (if tx_conditions (replayTransaction shards inp) (view w)
       then tx_apply (replayTransaction shards inp) (view w) else view w)"
proof -
  show "yields db view (createReplay db shards inp) w
      (Inr (replay_answer_in (view w) (db_now db w) inp g)) (view w)" if "g \<noteq> None"
    unfolding createReplay_def
  proof (rule yields_bind [OF yields_core])
    fix w1
    assume w1: "view w1 = view w" "db_now db w1 = db_now db w"
    show "yields db view (if as_replay_guard (live_item (view w (replayGuardKey inp)) (db_now db w)) \<noteq> None
        then answerReplay db inp (as_replay_guard (live_item (view w (replayGuardKey inp)) (db_now db w)))
        else bindM (db_write db (replayTransaction shards inp)) (\<lambda>ok.
          if ok then returnM (Replay_Created (ry_delivery inp) (rr_replayId (ry_relation inp)))
          else bindM (mapM as_replay_guard (getCore db (replayGuardKey inp))) (answerReplay db inp))) w1
        (Inr (replay_answer_in (view w) (db_now db w) inp g)) (view w)"
      using answerReplay_run [of inp g w1] that w1 by (simp add: g_def)
  qed
  show "yields db view (createReplay db shards inp) w
      (Inr (if tx_conditions (replayTransaction shards inp) (view w)
            then Replay_Created (ry_delivery inp) (rr_replayId (ry_relation inp)) else Replay_Conflict))
      (if tx_conditions (replayTransaction shards inp) (view w)
       then tx_apply (replayTransaction shards inp) (view w) else view w)" if none: "g = None"
    unfolding createReplay_def
  proof (rule yields_bind [OF yields_core])
    fix w1
    assume w1: "view w1 = view w" "db_now db w1 = db_now db w"
    have again: "yields db view (bindM (mapM as_replay_guard (getCore db (replayGuardKey inp))) (answerReplay db inp)) w2
        (Inr Replay_Conflict) (view w)" if "view w2 = view w" "db_now db w2 = db_now db w1" for w2
    proof (rule yields_bind [OF yields_core])
      fix w3
      assume "view w3 = view w2" "db_now db w3 = db_now db w2"
      then show "yields db view (answerReplay db inp (as_replay_guard (live_item (view w2 (replayGuardKey inp)) (db_now db w2))))
          w3 (Inr Replay_Conflict) (view w)"
        using answerReplay_run [of inp None w3] none that w1 by (simp add: g_def replay_answer_in_def)
    qed
    have commit: "yields db view (db_write db (replayTransaction shards inp)) w1
        (Inr (tx_conditions (replayTransaction shards inp) (view w)))
        (if tx_conditions (replayTransaction shards inp) (view w)
         then tx_apply (replayTransaction shards inp) (view w) else view w)"
      using yields_write [OF replay_distinct, of shards inp w1] w1 by (simp cong: if_cong)
    show "yields db view (if as_replay_guard (live_item (view w (replayGuardKey inp)) (db_now db w)) \<noteq> None
        then answerReplay db inp (as_replay_guard (live_item (view w (replayGuardKey inp)) (db_now db w)))
        else bindM (db_write db (replayTransaction shards inp)) (\<lambda>ok.
          if ok then returnM (Replay_Created (ry_delivery inp) (rr_replayId (ry_relation inp)))
          else bindM (mapM as_replay_guard (getCore db (replayGuardKey inp))) (answerReplay db inp))) w1
        (Inr (if tx_conditions (replayTransaction shards inp) (view w)
            then Replay_Created (ry_delivery inp) (rr_replayId (ry_relation inp)) else Replay_Conflict))
        (if tx_conditions (replayTransaction shards inp) (view w)
         then tx_apply (replayTransaction shards inp) (view w) else view w)"
      using none again by (auto simp: g_def intro!: yields_bind [OF commit] yields_return)
  qed
qed

end

text \<open>
  C14. A replay request is carried out once, beside the original. The request that creates the replay
  leaves every event and every other delivery as it was, the original included; a repeated request
  with the same key changes nothing and gets the same replay back, and with another body a conflict,
  for as long as the guard row lives.
\<close>

theorem replay_once:
  assumes "dynamo_alone db view" and "createReplay db shards inp w = (Inr (Replay_Created d r), w1)"
    and "replayGuardKey inp2 = replayGuardKey inp" and "ry_tenantId inp2 = ry_tenantId inp"
    and "\<not> isExpired (It_ReplayIdempotency (replayGuard inp)) (db_now db w)"
    and "\<not> isExpired (stored_delivery d) (db_now db w)"
  shows "fst (createReplay db shards2 inp2 w1) =
      (if ry_requestHash inp2 = ry_requestHash inp
       then Inr (Replay_Duplicate (d\<lparr>d_expiresAt := to_epoch (d_expiresAt d)\<rparr>) r) else Inr Replay_Conflict)
    \<and> view (snd (createReplay db shards2 inp2 w1)) = view w1
    \<and> (\<forall>k. is_core k \<longrightarrow> k \<noteq> K_Delivery (ry_tenantId inp) (d_eventId d) (d_deliveryId d) \<longrightarrow> view w1 k = view w k)"
proof -
  let ?now = "db_now db w" and ?ops = "replayTransaction shards inp"
  note run = dynamo_alone.createReplay_run [OF assms(1), of w inp shards]
  have d: "d = ry_delivery inp" "r = rr_replayId (ry_relation inp)"
    and w1: "view w1 = tx_apply ?ops (view w)" "db_now db w1 = ?now"
    using run assms(2)
    by (cases "as_replay_guard (live_item (view w (replayGuardKey inp)) ?now)";
        auto simp: yields_def replay_answer_in_def split: if_splits option.splits)+
  have g: "as_replay_guard (live_item (view w1 (replayGuardKey inp2)) (db_now db w1)) = Some (replayGuard inp)"
    using assms(3,5) by (simp add: w1 replay_puts live_item_def)
  have ans: "replay_answer_in (view w1) ?now inp2 (Some (replayGuard inp)) =
      (if ry_requestHash inp2 = ry_requestHash inp
       then Replay_Duplicate (d\<lparr>d_expiresAt := to_epoch (d_expiresAt d)\<rparr>) r else Replay_Conflict)"
    using assms(4,6) d
    by (simp add: replay_answer_in_def replayGuard_def w1 replay_puts live_item_def isExpired_def stored_delivery_def)
  have run2: "yields db view (createReplay db shards2 inp2) w1
      (Inr (if ry_requestHash inp2 = ry_requestHash inp
         then Replay_Duplicate (d\<lparr>d_expiresAt := to_epoch (d_expiresAt d)\<rparr>) r else Replay_Conflict)) (view w1)"
    using dynamo_alone.createReplay_run(1) [OF assms(1), of w1 inp2 shards2] g ans w1(2) by simp
  have "view w1 k = view w k" if "is_core k" "k \<noteq> K_Delivery (ry_tenantId inp) (d_eventId d) (d_deliveryId d)" for k
    using that by (simp add: w1 commit_at core_replay d)
  then show ?thesis using yields_fst [OF run2] yields_view [OF run2] by simp
qed

lemma replay_once_witness:
  "\<exists>w1. createReplay (mem_db [] (=)) 4 sample_replay (sample_world (sample_table sample_delivery))
       = (Inr (Replay_Created (ry_delivery sample_replay) ''rpl_1''), w1)
     \<and> fst (createReplay (mem_db [] (=)) 4 (sample_replay\<lparr>ry_requestHash := ''g''\<rparr>) w1) = Inr Replay_Conflict"
proof -
  let ?w = "sample_world (sample_table sample_delivery)"
  have now: "db_now (mem_db [] (=)) ?w = 2000" by (simp add: mem_db_def sample_world_def)
  have g: "as_replay_guard (live_item (mem_table ?w (replayGuardKey sample_replay)) 2000) = None"
    by (simp add: sample_table_def replayGuardKey_def live_item_def)
  have c: "tx_conditions (replayTransaction 4 sample_replay) (mem_table ?w)"
    by (simp add: tx_conditions_def list_all_iff replayTransaction_def Let_def sample_table_def replayGuardKey_def
        outboxPut_def auditPut_def indexPutsNew_def deliveryIndexKey_def sample_replay_def sample_delivery_def)
  have r: "rr_replayId (ry_relation sample_replay) = ''rpl_1''"
    by (simp add: sample_replay_def sample_relation_def)
  obtain w1 where w1: "createReplay (mem_db [] (=)) 4 sample_replay ?w
      = (Inr (Replay_Created (ry_delivery sample_replay) ''rpl_1''), w1)"
    using mem_alone.createReplay_run(2) [where w = ?w and inp = sample_replay and shards = 4 and ks = "[]"] g c now r by (auto simp: yields_def)
  have live: "\<not> isExpired (It_ReplayIdempotency (replayGuard sample_replay)) (db_now (mem_db [] (=)) ?w)"
      "\<not> isExpired (stored_delivery (ry_delivery sample_replay)) (db_now (mem_db [] (=)) ?w)"
    unfolding now
    by (simp_all add: isExpired_def replayGuard_def stored_delivery_def sample_replay_def sample_relation_def
        sample_delivery_def to_epoch_def days_def)
  have k: "replayGuardKey (sample_replay\<lparr>ry_requestHash := ''g''\<rparr>) = replayGuardKey sample_replay"
    by (simp add: replayGuardKey_def)
  from replay_once [OF mem_is_alone w1 k _ live] w1 show ?thesis by (auto simp: sample_replay_def)
qed

end
