(* ===== verification/Outbox_Store.thy ===== *)
theory Outbox_Store
  imports Alone
begin

text \<open>
  The outbox of \<open>DynamoPersistence\<close>: the rows that every other transaction adds beside its own
  changes, read through a sparse index of the unpublished ones, marked when the queue has taken them,
  and turned into rows of scheduled work when they are due later than a queue can delay; the audit
  log and the nonces of signed requests, which are single conditional writes.
\<close>

section \<open>Unpublished records\<close>

fun as_outbox :: "item \<Rightarrow> outbox_item option" where
  "as_outbox (It_Outbox b) = Some b"
| "as_outbox _ = None"

definition outboxKey :: "nat \<Rightarrow> outbox_record \<Rightarrow> dkey" where
  "outboxKey shards b = K_Outbox (stableShard (ob_outboxId b) shards) (ob_createdAt b) (ob_outboxId b)"

text \<open>
  \<open>GSI1PK = OUTBOX#UNPUBLISHED#shard\<close> and \<open>GSI1SK < before\<close>, where \<open>GSI1SK\<close> is the creation time
  followed by \<open>#\<close> and the identifier: of two equal times the longer string is the greater one.
\<close>

definition waits_in :: "nat \<Rightarrow> nat \<Rightarrow> instant \<Rightarrow> item \<Rightarrow> bool" where
  "waits_in shards shard bound it = (case as_outbox it of
      None \<Rightarrow> False
    | Some b \<Rightarrow> oi_unpublished b \<and> stableShard (ob_outboxId (oi_record b)) shards = shard
        \<and> ob_createdAt (oi_record b) < bound)"

definition getUnpublished ::
    "'w dynamo \<Rightarrow> nat \<Rightarrow> nat \<Rightarrow> instant \<Rightarrow> nat \<Rightarrow> ('w, outbox_record list) op" where
  "getUnpublished db shards shard olderThan limit =
     bindM (db_index db (waits_in shards shard olderThan) (Some limit)) (\<lambda>rows. withNow db (\<lambda>now.
       returnM (List.map_filter
         (\<lambda>(k, it). if isExpired it now then None else map_option oi_record (as_outbox it)) rows)))"

text \<open>\<open>SET publishedAt = :published REMOVE GSI1PK, GSI1SK\<close>.\<close>

definition set_published :: "instant \<Rightarrow> item option \<Rightarrow> item" where
  "set_published at_ms old = (case old of
      Some (It_Outbox b) \<Rightarrow> It_Outbox (b\<lparr>oi_record := (oi_record b)\<lparr>ob_publishedAt := Some at_ms\<rparr>,
         oi_unpublished := False\<rparr>)
    | Some (It_Stub s) \<Rightarrow> It_Stub (s\<lparr>sb_publishedAt := Some at_ms\<rparr>)
    | Some it \<Rightarrow> it
    | None \<Rightarrow> It_Stub \<lparr>sb_publishedAt = Some at_ms, sb_attempts = None, sb_lastPublicationFailureAt = None\<rparr>)"

definition added_attempt :: "int option \<Rightarrow> int option" where
  "added_attempt n = Some ((case n of None \<Rightarrow> 0 | Some k \<Rightarrow> k) + 1)"

text \<open>\<open>ADD attempts :one SET lastPublicationFailureAt = :at\<close>.\<close>

definition count_failure :: "instant \<Rightarrow> item option \<Rightarrow> item" where
  "count_failure at_ms old = (case old of
      Some (It_Outbox b) \<Rightarrow> It_Outbox (b\<lparr>oi_record := (oi_record b)\<lparr>ob_attempts := ob_attempts (oi_record b) + 1\<rparr>,
         oi_lastPublicationFailureAt := Some at_ms\<rparr>)
    | Some (It_Stub s) \<Rightarrow> It_Stub (s\<lparr>sb_attempts := added_attempt (sb_attempts s),
         sb_lastPublicationFailureAt := Some at_ms\<rparr>)
    | Some it \<Rightarrow> it
    | None \<Rightarrow> It_Stub \<lparr>sb_publishedAt = None, sb_attempts = Some 1, sb_lastPublicationFailureAt = Some at_ms\<rparr>)"

text \<open>A write whose refusal is not caught: the name of the service's exception is given.\<close>

definition asUnit :: "string \<Rightarrow> ('w, bool) op \<Rightarrow> ('w, unit) op" where
  "asUnit e m = bindM m (\<lambda>ok. if ok then returnM () else throwM (ServiceError e))"

definition markPublished :: "'w dynamo \<Rightarrow> nat \<Rightarrow> outbox_record \<Rightarrow> instant \<Rightarrow> ('w, unit) op" where
  "markPublished db shards b publishedAt =
     asUnit ''ConditionalCheckFailedException'' (db_write db [update_op (outboxKey shards b) (set_published publishedAt)])"

definition recordPublicationFailure :: "'w dynamo \<Rightarrow> nat \<Rightarrow> outbox_record \<Rightarrow> instant \<Rightarrow> ('w, unit) op" where
  "recordPublicationFailure db shards b occurredAt =
     asUnit ''ConditionalCheckFailedException'' (db_write db [update_op (outboxKey shards b) (count_failure occurredAt)])"

section \<open>Scheduled work\<close>

definition schedulable :: "outbox_payload \<Rightarrow> bool" where
  "schedulable p \<longleftrightarrow> pl_eventId p \<noteq> None \<and> pl_deliveryId p \<noteq> None \<and> pl_notBefore p \<noteq> None
     \<and> (pl_cause p = Some RETRY \<or> pl_cause p = Some RESUME)"

definition scheduledWork :: "outbox_record \<Rightarrow> scheduled_work" where
  "scheduledWork b = (let p = ob_payload b in
     \<lparr>sw_workId = ob_outboxId b, sw_tenantId = ob_tenantId b, sw_eventId = the (pl_eventId p),
      sw_deliveryId = the (pl_deliveryId p), sw_correlationId = pl_correlationId p,
      sw_notBefore = the (pl_notBefore p), sw_cause = the (pl_cause p), sw_createdAt = ob_createdAt b,
      sw_publishedAt = None, sw_traceparent = ob_traceparent b, sw_attempts = 0,
      sw_expiresAt = to_epoch (Iso (ob_createdAt b + days 7))\<rparr>)"

definition workKey :: "nat \<Rightarrow> scheduled_work \<Rightarrow> dkey" where
  "workKey shards w = K_ScheduledWork (stableShard (sw_workId w) shards) (sw_notBefore w) (sw_workId w)"

definition materializeScheduledWork :: "'w dynamo \<Rightarrow> nat \<Rightarrow> outbox_record \<Rightarrow> ('w, unit) op" where
  "materializeScheduledWork db shards b =
     (if \<not> schedulable (ob_payload b) then throwM (Error ''INVALID_SCHEDULE_OUTBOX'')
      else withNow db (\<lambda>now. asUnit ''TransactionCanceledException'' (db_write db
        [put_new (workKey shards (scheduledWork b)) (It_ScheduledWork (scheduledWork b)),
         update_op (outboxKey shards b) (set_published now)])))"

text \<open>\<open>SK < now#~\<close>: due at \<open>now\<close> or before.\<close>

fun due_in :: "nat \<Rightarrow> instant \<Rightarrow> dkey \<Rightarrow> bool" where
  "due_in shard now (K_ScheduledWork s notBefore workId) \<longleftrightarrow> s = shard \<and> notBefore \<le> now"
| "due_in shard now _ = False"

text \<open>A stub of this partition was made by \<open>markScheduledWorkPublished\<close> and so has its \<open>publishedAt\<close>.\<close>

fun as_waiting_work :: "item \<Rightarrow> scheduled_work option" where
  "as_waiting_work (It_ScheduledWork w) = (if sw_publishedAt w = None then Some w else None)"
| "as_waiting_work _ = None"

definition getDueScheduledWork ::
    "'w dynamo \<Rightarrow> nat \<Rightarrow> instant \<Rightarrow> nat \<Rightarrow> ('w, scheduled_work list) op" where
  "getDueScheduledWork db shard now limit =
     bindM (db_query db (due_in shard now) (Some limit)) (\<lambda>rows. withNow db (\<lambda>t.
       returnM (List.map_filter (\<lambda>(k, it). if isExpired it t then None else as_waiting_work it) rows)))"

definition set_work_published :: "instant \<Rightarrow> item option \<Rightarrow> item" where
  "set_work_published at_ms old = (case old of
      Some (It_ScheduledWork w) \<Rightarrow> It_ScheduledWork
        (w\<lparr>sw_publishedAt := Some at_ms, sw_attempts := sw_attempts w + 1\<rparr>)
    | Some (It_Stub s) \<Rightarrow> It_Stub (s\<lparr>sb_publishedAt := Some at_ms, sb_attempts := added_attempt (sb_attempts s)\<rparr>)
    | Some it \<Rightarrow> it
    | None \<Rightarrow> It_Stub \<lparr>sb_publishedAt = Some at_ms, sb_attempts = Some 1, sb_lastPublicationFailureAt = None\<rparr>)"

definition markScheduledWorkPublished ::
    "'w dynamo \<Rightarrow> nat \<Rightarrow> scheduled_work \<Rightarrow> instant \<Rightarrow> ('w, unit) op" where
  "markScheduledWorkPublished db shards w publishedAt =
     asUnit ''ConditionalCheckFailedException'' (db_write db [update_op (workKey shards w) (set_work_published publishedAt)])"

section \<open>Audit log and nonces\<close>

definition append_audit :: "'w dynamo \<Rightarrow> audit_event \<Rightarrow> ('w, unit) op" where
  "append_audit db a = asUnit ''ConditionalCheckFailedException'' (db_write db [auditPut a])"

definition putIfAbsent :: "'w dynamo \<Rightarrow> string \<Rightarrow> string \<Rightarrow> string \<Rightarrow> instant \<Rightarrow> ('w, bool) op" where
  "putIfAbsent db tenant clientId nonceHash expiresAt =
     db_write db [put_new (K_Nonce tenant clientId nonceHash) (It_Nonce (to_epoch (Iso expiresAt)))]"

section \<open>Facts about the updates\<close>

definition waiting_row :: "item option \<Rightarrow> bool" where
  "waiting_row old \<longleftrightarrow> (\<exists>b. old = Some (It_Outbox b) \<and> oi_unpublished b)"

lemma failure_keeps_waiting: "waiting_row old \<Longrightarrow> waiting_row (Some (count_failure t old))"
  by (auto simp: waiting_row_def count_failure_def)

lemma published_not_waiting: "\<not> waiting_row (Some (set_published t old))"
  by (auto simp: waiting_row_def set_published_def split: option.splits item.splits)

lemma single_update_ok [simp]: "tx_ok [update_op k f] s"
  by (simp add: tx_ok_def tx_distinct_def)

lemma outboxPut_waits: "tx_apply [outboxPut shards b] s (outboxKey shards b) = u \<Longrightarrow> waiting_row u"
  by (auto simp: outboxPut_def outboxKey_def waiting_row_def)

end
