(* ===== verification/Iso_Time.thy ===== *)
theory Iso_Time
  imports Prelude "HOL-Library.List_Lexorder" "HOL-Library.Char_ord"
begin

text \<open>
  \<open>Date.toISOString\<close>, by the definitions of the language standard (\<open>DayFromYear\<close>, \<open>YearFromTime\<close>,
  \<open>MonthFromTime\<close>, \<open>DateFromTime\<close>). The program stores instants as these strings and lets the table
  compare them as strings: in its sort keys, in the range conditions of its queries and in the
  condition expressions of leases. The model stores and compares instants; \<open>iso_order\<close> shows that this is
  the same for the years 0000 to 9999.
\<close>

section \<open>The calendar\<close>

definition dayFromYear :: "int \<Rightarrow> int" where
  "dayFromYear y = 365 * (y - 1970) + (y - 1969) div 4 - (y - 1901) div 100 + (y - 1601) div 400"

text \<open>The greatest year that begins on or before the day: the mean year gives it up to one.\<close>

definition yearFromDay :: "int \<Rightarrow> int" where
  "yearFromDay d =
     (let g = (400 * d) div 146097 + 1970
      in if dayFromYear (g + 1) \<le> d then g + 1 else if dayFromYear g \<le> d then g else g - 1)"

definition inLeapYear :: "int \<Rightarrow> bool" where
  "inLeapYear y \<longleftrightarrow> dayFromYear (y + 1) - dayFromYear y = 366"

definition monthStarts :: "int \<Rightarrow> int list" where
  "monthStarts y = (let l = (if inLeapYear y then 1 else 0)
     in [31, 59 + l, 90 + l, 120 + l, 151 + l, 181 + l, 212 + l, 243 + l, 273 + l, 304 + l, 334 + l])"

text \<open>Months count from 1, as \<open>toISOString\<close> prints them.\<close>

definition monthOf :: "int \<Rightarrow> int \<Rightarrow> int" where
  "monthOf y doy = 1 + int (length (filter (\<lambda>s. s \<le> doy) (monthStarts y)))"

definition dateOf :: "int \<Rightarrow> int \<Rightarrow> int" where
  "dateOf y doy = doy - last (0 # filter (\<lambda>s. s \<le> doy) (monthStarts y)) + 1"

section \<open>The text of an instant\<close>

primrec padded :: "nat \<Rightarrow> nat \<Rightarrow> string" where
  "padded 0 n = []"
| "padded (Suc k) n = padded k (n div 10) @ [char_of (48 + n mod 10)]"

definition yearText :: "int \<Rightarrow> string" where
  "yearText y = (if 0 \<le> y \<and> y \<le> 9999 then padded 4 (nat y)
     else (if y < 0 then ''-'' else ''+'') @ padded 6 (nat \<bar>y\<bar>))"

definition isoDate :: "int \<Rightarrow> string" where
  "isoDate day =
     (let y = yearFromDay day; doy = day - dayFromYear y
      in yearText y @ ''-'' @ padded 2 (nat (monthOf y doy)) @ ''-'' @ padded 2 (nat (dateOf y doy)))"

definition isoClock :: "int \<Rightarrow> string" where
  "isoClock ms = padded 2 (nat (ms div 3600000)) @ '':'' @ padded 2 (nat (ms div 60000 mod 60)) @ '':''
     @ padded 2 (nat (ms div 1000 mod 60)) @ ''.'' @ padded 3 (nat (ms mod 1000)) @ ''Z''"

definition isoString :: "instant \<Rightarrow> string" where
  "isoString t = isoDate (t div 86400000) @ ''T'' @ isoClock (t mod 86400000)"

section \<open>Years, months and days are in order\<close>

text \<open>Quotients as new variables, so that linear arithmetic decides what follows.\<close>

lemma dayFromYear_parts:
  obtains q c f where "dayFromYear y = 365 * (y - 1970) + q - c + f"
    and "4 * q \<le> y - 1969" "y - 1972 \<le> 4 * q" "100 * c \<le> y - 1901" "y - 2000 \<le> 100 * c"
    and "400 * f \<le> y - 1601" "y - 2000 \<le> 400 * f"
proof
  show "dayFromYear y = 365 * (y - 1970) + (y - 1969) div 4 - (y - 1901) div 100 + (y - 1601) div 400"
    by (simp add: dayFromYear_def)
qed linarith+

lemma dayFromYear_linear:
  "400 * dayFromYear y \<le> 146097 * (y - 1970) + 589" "146097 * (y - 1970) - 506 \<le> 400 * dayFromYear y"
proof -
  obtain q c f where "dayFromYear y = 365 * (y - 1970) + q - c + f"
    and "4 * q \<le> y - 1969" "y - 1972 \<le> 4 * q" "100 * c \<le> y - 1901" "y - 2000 \<le> 100 * c"
    and "400 * f \<le> y - 1601" "y - 2000 \<le> 400 * f" by (rule dayFromYear_parts)
  then show "400 * dayFromYear y \<le> 146097 * (y - 1970) + 589" "146097 * (y - 1970) - 506 \<le> 400 * dayFromYear y"
    by (simp_all add: algebra_simps)
qed

text \<open>The quotient of the next number is the same, or the next quotient exactly.\<close>

lemma next_quotient:
  fixes n q q' x :: int
  assumes "0 < n" and "n * q \<le> x" "x - n < n * q" and "n * q' \<le> x + 1" "x + 1 - n < n * q'"
  shows "q' = q \<or> (q' = q + 1 \<and> n * q' = x + 1)"
proof -
  have "n * (q' - q) < n * 2" "n * (q - q') < n * 1" using assms by (simp_all add: algebra_simps)
  then have "q' - q < 2" "q - q' < 1" using assms(1) by (simp_all only: mult_less_cancel_left_pos)
  then have "q' = q \<or> q' = q + 1" by arith
  then show ?thesis using assms by (auto simp: algebra_simps)
qed

text \<open>A century is the end of a fourth year, and the end of four centuries of a century.\<close>

lemma dayFromYear_step: "dayFromYear y + 365 \<le> dayFromYear (y + 1) \<and> dayFromYear (y + 1) \<le> dayFromYear y + 366"
proof -
  obtain q c f where y: "dayFromYear y = 365 * (y - 1970) + q - c + f"
    and b: "4 * q \<le> y - 1969" "y - 1972 \<le> 4 * q" "100 * c \<le> y - 1901" "y - 2000 \<le> 100 * c"
      "400 * f \<le> y - 1601" "y - 2000 \<le> 400 * f" by (rule dayFromYear_parts)
  obtain q' c' f' where z: "dayFromYear (y + 1) = 365 * (y + 1 - 1970) + q' - c' + f'"
    and b': "4 * q' \<le> y + 1 - 1969" "y + 1 - 1972 \<le> 4 * q'" "100 * c' \<le> y + 1 - 1901" "y + 1 - 2000 \<le> 100 * c'"
      "400 * f' \<le> y + 1 - 1601" "y + 1 - 2000 \<le> 400 * f'" by (rule dayFromYear_parts)
  have q: "q' = q \<or> (q' = q + 1 \<and> 4 * q' = y - 1968)"
    using next_quotient [of 4 q "y - 1969" q'] b b' by simp
  have c: "c' = c \<or> (c' = c + 1 \<and> 100 * c' = y - 1900)"
    using next_quotient [of 100 c "y - 1901" c'] b b' by simp
  have f: "f' = f \<or> (f' = f + 1 \<and> 400 * f' = y - 1600)"
    using next_quotient [of 400 f "y - 1601" f'] b b' by simp
  have cq: "q' = q + 1" if "c' = c + 1"
  proof (rule ccontr)
    assume "q' \<noteq> q + 1"
    with q have "q' = q" by simp
    moreover have "100 * c' = y - 1900" using c that by auto
    ultimately have "4 * q \<le> 4 * (25 * c' - 17) - 1" "4 * (25 * c' - 18) + 1 \<le> 4 * q" using b b' by simp_all
    then show False by presburger
  qed
  have fc: "c' = c + 1" if "f' = f + 1"
  proof (rule ccontr)
    assume "c' \<noteq> c + 1"
    with c have "c' = c" by simp
    moreover have "400 * f' = y - 1600" using f that by auto
    ultimately have "100 * c \<le> 100 * (4 * f' - 3) - 1" "100 * (4 * f' - 4) + 1 \<le> 100 * c" using b b' by simp_all
    then have "c \<le> 4 * f' - 4" "4 * f' - 3 \<le> c" by simp_all
    then show False by simp
  qed
  from q c f cq fc y z show ?thesis by auto
qed

lemma yearFromDay_spec: "dayFromYear (yearFromDay d) \<le> d \<and> d < dayFromYear (yearFromDay d + 1)"
proof -
  define g where "g = (400 * d) div 146097 + 1970"
  have g: "146097 * (g - 1970) \<le> 400 * d" "400 * d < 146097 * (g - 1970) + 146097" 
    using div_mult_mod_eq [of "400 * d" 146097] pos_mod_sign [of 146097 "400 * d"] pos_mod_bound [of 146097 "400 * d"]
    unfolding g_def by simp_all
  have "400 * dayFromYear (g - 1) \<le> 400 * d" using dayFromYear_linear(1) [of "g - 1"] g by simp
  moreover have "400 * d < 400 * dayFromYear (g + 2)" using dayFromYear_linear(2) [of "g + 2"] g by simp
  ultimately show ?thesis by (simp add: yearFromDay_def g_def [symmetric] Let_def add.commute [of 2 g])
qed

lemma dayFromYear_mono: "y \<le> z \<Longrightarrow> dayFromYear y \<le> dayFromYear z"
proof (induction "nat (z - y)" arbitrary: z)
  case (Suc n)
  then have "dayFromYear y \<le> dayFromYear (z - 1)" by simp
  with dayFromYear_step [of "z - 1"] show ?case by simp
qed simp

lemma yearFromDay_mono:
  assumes "a \<le> b"
  shows "yearFromDay a \<le> yearFromDay b"
proof (rule ccontr)
  assume "\<not> yearFromDay a \<le> yearFromDay b"
  then have "dayFromYear (yearFromDay b + 1) \<le> dayFromYear (yearFromDay a)" by (intro dayFromYear_mono) simp
  with assms yearFromDay_spec [of a] yearFromDay_spec [of b] show False by linarith
qed

text \<open>Within a year: a later day is in a later month, or a later day of the same month.\<close>

lemma month_order:
  assumes "a < b"
  shows "monthOf y a < monthOf y b \<or> (monthOf y a = monthOf y b \<and> dateOf y a < dateOf y b)"
proof -
  let ?A = "filter (\<lambda>s. s \<le> a) (monthStarts y)" and ?B = "filter (\<lambda>s. s \<le> b) (monthStarts y)"
  have A: "?A = filter (\<lambda>s. s \<le> a) ?B" using assms by (auto intro!: filter_cong)
  show ?thesis
  proof (cases "\<forall>s \<in> set ?B. s \<le> a")
    case True
    then have "?A = ?B" using A by (simp only: filter_True)
    with assms show ?thesis by (simp add: monthOf_def dateOf_def)
  next
    case False
    then obtain s where "s \<in> set ?B" "\<not> s \<le> a" by blast
    then have "length ?A < length ?B" using length_filter_less [of s ?B "\<lambda>s. s \<le> a"] A by metis
    then show ?thesis by (simp add: monthOf_def)
  qed
qed

lemma month_bounds: "1 \<le> monthOf y a \<and> monthOf y a \<le> 12"
proof -
  have "length (filter (\<lambda>s. s \<le> a) (monthStarts y)) \<le> length (monthStarts y)" by (rule length_filter_le)
  then show ?thesis by (simp add: monthOf_def monthStarts_def Let_def)
qed

text \<open>No month has more than 31 days.\<close>

lemma date_bounds:
  assumes "0 \<le> a" and "a < (if inLeapYear y then 366 else 365)"
  shows "1 \<le> dateOf y a \<and> dateOf y a \<le> 31"
proof (cases "inLeapYear y")
  case l: True
  consider "0 \<le> a" "a < 31" | "31 \<le> a" "a < 60" | "60 \<le> a" "a < 91" | "91 \<le> a" "a < 121" | "121 \<le> a" "a < 152" | "152 \<le> a" "a < 182" | "182 \<le> a" "a < 213" | "213 \<le> a" "a < 244" | "244 \<le> a" "a < 274" | "274 \<le> a" "a < 305" | "305 \<le> a" "a < 335" | "335 \<le> a" "a < 366"
    using assms l by simp linarith
  then show ?thesis by cases (simp_all add: dateOf_def monthStarts_def l)
next
  case l: False
  consider "0 \<le> a" "a < 31" | "31 \<le> a" "a < 59" | "59 \<le> a" "a < 90" | "90 \<le> a" "a < 120" | "120 \<le> a" "a < 151" | "151 \<le> a" "a < 181" | "181 \<le> a" "a < 212" | "212 \<le> a" "a < 243" | "243 \<le> a" "a < 273" | "273 \<le> a" "a < 304" | "304 \<le> a" "a < 334" | "334 \<le> a" "a < 365"
    using assms l by simp linarith
  then show ?thesis by cases (simp_all add: dateOf_def monthStarts_def l)
qed

section \<open>The order of the texts\<close>

lemma length_padded [simp]: "length (padded k n) = k"
  by (induction k arbitrary: n) auto

lemma digit_less: "m < 10 \<Longrightarrow> n < 10 \<Longrightarrow> (char_of (48 + m) < (char_of (48 + n) :: char)) = (m < (n::nat))"
  by (simp add: less_char_def)

text \<open>Texts that begin with parts of the same length are compared by these parts first.\<close>

lemma append_less:
  fixes a b x y :: string
  assumes "length a = length b"
  shows "a @ x < b @ y \<longleftrightarrow> a < b \<or> (a = b \<and> x < y)"
  using assms by (induction a b rule: list_induct2) auto

lemma div_order_nat: "m < n \<longleftrightarrow> m div 10 < n div 10 \<or> (m div 10 = n div 10 \<and> m mod 10 < n mod (10::nat))"
proof -
  have "m = 10 * (m div 10) + m mod 10" "n = 10 * (n div 10) + n mod 10" "m mod 10 < 10" "n mod 10 < 10" by simp_all
  then show ?thesis by linarith
qed

lemma padded_less:
  "m < 10 ^ k \<Longrightarrow> n < 10 ^ k \<Longrightarrow> padded k m < padded k n \<longleftrightarrow> m < n"
  "m < 10 ^ k \<Longrightarrow> n < 10 ^ k \<Longrightarrow> padded k m = padded k n \<longleftrightarrow> m = n"
proof (induction k arbitrary: m n)
  case (Suc k)
  have ord: "padded k (m div 10) < padded k (n div 10) \<longleftrightarrow> m div 10 < n div 10"
      "padded k (m div 10) = padded k (n div 10) \<longleftrightarrow> m div 10 = n div 10" if "m < 10 ^ Suc k" "n < 10 ^ Suc k" for m n
    using that by (intro Suc.IH; simp add: less_mult_imp_div_less mult.commute)+
  have digit: "(char_of (48 + m mod 10) :: char) = char_of (48 + n mod 10) \<longleftrightarrow> m mod 10 = n mod 10" for m n :: nat
    using digit_less [of "m mod 10" "n mod 10"] digit_less [of "n mod 10" "m mod 10"]
    by (metis less_irrefl linorder_neqE_nat mod_less_divisor zero_less_numeral)
  {
    case 1
    then have "padded (Suc k) m < padded (Suc k) n
        \<longleftrightarrow> m div 10 < n div 10 \<or> (m div 10 = n div 10 \<and> m mod 10 < n mod 10)"
      using ord [OF 1] digit_less [of "m mod 10" "n mod 10"] 1 by (simp add: append_less)
    also have "\<dots> \<longleftrightarrow> m < n" using div_order_nat [of m n] by simp
    finally show ?case .
  next
    case 2
    then show ?case using ord(2) [OF 2] digit by (simp, metis div_mult_mod_eq)
  }
qed auto

lemma padded_int:
  fixes i j :: int
  assumes "0 \<le> i" "i < 10 ^ k" "0 \<le> j" "j < 10 ^ k"
  shows "padded k (nat i) < padded k (nat j) \<longleftrightarrow> i < j" "padded k (nat i) = padded k (nat j) \<longleftrightarrow> i = j"
proof -
  have "nat i < 10 ^ k" "nat j < 10 ^ k" using assms by (simp_all add: nat_less_iff)
  with assms show "padded k (nat i) < padded k (nat j) \<longleftrightarrow> i < j" "padded k (nat i) = padded k (nat j) \<longleftrightarrow> i = j"
    by (auto simp: padded_less nat_less_eq_zless eq_nat_nat_iff)
qed

lemma clock_text_less:
  fixes h m s k :: int
  assumes "0 \<le> h" "h < 100" "0 \<le> m" "m < 100" "0 \<le> s" "s < 100" "0 \<le> k" "k < 1000"
    and "0 \<le> h'" "h' < 100" "0 \<le> m'" "m' < 100" "0 \<le> s'" "s' < 100" "0 \<le> k'" "k' < 1000"
    and "h < h' \<or> (h = h' \<and> (m < m' \<or> (m = m' \<and> (s < s' \<or> (s = s' \<and> k < k')))))"
  shows "padded 2 (nat h) @ '':'' @ padded 2 (nat m) @ '':'' @ padded 2 (nat s) @ ''.'' @ padded 3 (nat k) @ ''Z''
    < padded 2 (nat h') @ '':'' @ padded 2 (nat m') @ '':'' @ padded 2 (nat s') @ ''.'' @ padded 3 (nat k') @ ''Z''"
  using assms padded_int [of h 2 h'] padded_int [of m 2 m'] padded_int [of s 2 s'] padded_int(1) [of k 3 k']
  by (auto simp: append_less)

lemma isoClock_mono:
  assumes "0 \<le> a" "a < b" "b < 86400000"
  shows "isoClock a < isoClock b"
proof -
  have split: "x < y \<Longrightarrow> x div n < y div n \<or> (x div n = y div n \<and> x mod n < y mod n)" if "0 < n" for x y n :: int
  proof -
    assume "x < y"
    then have "x div n \<le> y div n" using that by (intro zdiv_mono1) simp_all
    then show ?thesis
    proof (cases "x div n = y div n")
      case True
      have "x div n * n + x mod n < y div n * n + y mod n" using \<open>x < y\<close> by (simp only: div_mult_mod_eq)
      with True show ?thesis by (simp only: add_less_cancel_left simp_thms)
    qed simp
  qed
  have nested: "x div 1000 div 60 = x div 60000" "x div 60000 div 60 = x div 3600000" for x :: int
    using zdiv_zmult2_eq [of 60 x 1000] zdiv_zmult2_eq [of 60 x 60000] by simp_all
  have seconds: "a div 1000 < b div 1000 \<or> (a div 1000 = b div 1000 \<and> a mod 1000 < b mod 1000)"
    using split [of 1000 a b] assms(2) by simp
  have minutes: "a div 1000 < b div 1000 \<Longrightarrow> a div 60000 < b div 60000
      \<or> (a div 60000 = b div 60000 \<and> a div 1000 mod 60 < b div 1000 mod 60)"
    using split [of 60 "a div 1000" "b div 1000"] by (simp only: nested)
  have hour: "a div 60000 < b div 60000 \<Longrightarrow> a div 3600000 < b div 3600000
      \<or> (a div 3600000 = b div 3600000 \<and> a div 60000 mod 60 < b div 60000 mod 60)"
    using split [of 60 "a div 60000" "b div 60000"] by (simp only: nested)
  have parts: "a div 3600000 < b div 3600000 \<or> (a div 3600000 = b div 3600000
      \<and> (a div 60000 mod 60 < b div 60000 mod 60 \<or> (a div 60000 mod 60 = b div 60000 mod 60
      \<and> (a div 1000 mod 60 < b div 1000 mod 60 \<or> (a div 1000 mod 60 = b div 1000 mod 60
      \<and> a mod 1000 < b mod 1000)))))"
    using seconds minutes hour nested by metis
  have hours: "0 \<le> x div 3600000" "x div 3600000 < 24" if "0 \<le> x" "x < 86400000" for x :: int
    using that by (simp_all add: pos_imp_zdiv_nonneg_iff zdiv_mono1 div_less_iff_less_mult)
  have range: "0 \<le> x mod n" "x mod n < n" if "0 < n" for x n :: int using that by simp_all
  show ?thesis
    unfolding isoClock_def
  proof (rule clock_text_less [OF _ _ _ _ _ _ _ _ _ _ _ _ _ _ _ _ parts])
    show "a div 3600000 < 100" "b div 3600000 < 100" "0 \<le> a div 3600000" "0 \<le> b div 3600000"
      using hours [of a] hours [of b] assms by simp_all
    show "x mod 60 < 100" for x :: int using range(2) [of 60 x] by simp
  qed (simp_all add: range)
qed

lemma isoDate_mono:
  assumes "a < b" and "0 \<le> yearFromDay a" and "yearFromDay b \<le> 9999"
  shows "isoDate a < isoDate b"
proof -
  let ?y = yearFromDay
  have le: "?y a \<le> ?y b" using yearFromDay_mono assms(1) by simp
  with assms have range: "?y a < 10000" "?y b < 10000" "0 \<le> ?y b" by auto
  have years: "yearText (?y a) = padded 4 (nat (?y a))" "yearText (?y b) = padded 4 (nat (?y b))"
    using assms range by (simp_all add: yearText_def)
  have days: "0 \<le> d - dayFromYear (?y d)" "d - dayFromYear (?y d) < (if inLeapYear (?y d) then 366 else 365)" for d
    using yearFromDay_spec [of d] dayFromYear_step [of "?y d"] by (auto simp: inLeapYear_def)
  show ?thesis
  proof (cases "?y a = ?y b")
    case False
    with le assms range show ?thesis by (simp add: isoDate_def Let_def years append_less padded_less nat_less_iff)
  next
    case True
    let ?m = "\<lambda>d. monthOf (?y b) (d - dayFromYear (?y b))" and ?d = "\<lambda>d. dateOf (?y b) (d - dayFromYear (?y b))"
    have m: "0 \<le> ?m d" "?m d < 100" for d using month_bounds [of "?y b" "d - dayFromYear (?y b)"] by simp_all
    have "1 \<le> ?d a \<and> ?d a \<le> 31" "1 \<le> ?d b \<and> ?d b \<le> 31"
      using date_bounds [of "a - dayFromYear (?y b)" "?y b"] date_bounds [of "b - dayFromYear (?y b)" "?y b"]
        days [of a] days [of b] True by simp_all
    moreover have "?m a < ?m b \<or> (?m a = ?m b \<and> ?d a < ?d b)" using assms(1) by (intro month_order) simp
    ultimately show ?thesis
      using padded_int [of "?m a" 2 "?m b"] padded_int [of "?d a" 2 "?d b"] m
      by (auto simp: isoDate_def Let_def years True append_less)
  qed
qed

lemma isoString_mono:
  assumes "a < b" and "0 \<le> yearFromDay (a div 86400000)" and "yearFromDay (b div 86400000) \<le> 9999"
  shows "isoString a < isoString b"
proof -
  let ?d = "\<lambda>t. t div 86400000"
  have lengths: "length (isoDate (?d a)) = 10" "length (isoDate (?d b)) = 10"
    using assms yearFromDay_mono [of "?d a" "?d b"] zdiv_mono1 [of a b 86400000]
    by (simp_all add: isoDate_def Let_def yearText_def)
  show ?thesis
  proof (cases "?d a = ?d b")
    case True
    have "?d a * 86400000 + a mod 86400000 < ?d b * 86400000 + b mod 86400000"
      using assms(1) by (simp only: div_mult_mod_eq)
    with True have "a mod 86400000 < b mod 86400000" by (simp only: add_less_cancel_left)
    then have "isoClock (a mod 86400000) < isoClock (b mod 86400000)" by (intro isoClock_mono) simp_all
    with True show ?thesis by (simp add: isoString_def append_less)
  next
    case False
    then have "?d a < ?d b" using assms(1) zdiv_mono1 [of a b 86400000] by simp
    from isoDate_mono [OF this assms(2,3)] lengths show ?thesis by (simp add: isoString_def append_less)
  qed
qed

text \<open>
  The texts of instants are in the order of the instants. For two instants of the years 0000 to 9999
  the comparison of their ISO strings, which is what the sort keys and range conditions of the table use,
  is the comparison of the instants.
\<close>

theorem iso_order:
  assumes "0 \<le> yearFromDay (a div 86400000)" "yearFromDay (a div 86400000) \<le> 9999"
    and "0 \<le> yearFromDay (b div 86400000)" "yearFromDay (b div 86400000) \<le> 9999"
  shows "isoString a < isoString b \<longleftrightarrow> a < b"
  using isoString_mono [of a b] isoString_mono [of b a] assms
  by (cases a b rule: linorder_cases) auto

lemma iso_order_witness:
  "isoString 951782399999 = ''2000-02-28T23:59:59.999Z'' \<and> isoString 951782400000 = ''2000-02-29T00:00:00.000Z''
   \<and> isoString 951782399999 < isoString 951782400000"
proof -
  have years: "yearFromDay (951782399999 div 86400000) = 2000" "yearFromDay (951782400000 div 86400000) = 2000"
    by code_simp+
  have texts: "isoString 951782399999 = ''2000-02-28T23:59:59.999Z''" "isoString 951782400000 = ''2000-02-29T00:00:00.000Z''"
    by code_simp+
  show ?thesis using iso_order [of 951782399999 951782400000] years texts by simp
qed

end
