(* ===== verification/Outbox_Publisher.thy ===== *)
theory Outbox_Publisher
  imports Outbox_Store Iso_Time
begin

text \<open>
  The publishers of the outbox: the worker of \<open>apps/outbox-worker\<close>, which publishes every unpublished
  record, and the reconciler of \<open>apps/outbox-reconciler\<close>, which publishes the ones that have waited for
  too long and the scheduled work that has become due. The queues and the scheduler service are not part of
  the repository: they are parameters, of which the locale \<open>outbox_ports\<close> states what the code relies on.
\<close>

section \<open>Queue messages\<close>

datatype message_type = MT_Route_Event | MT_Deliver | MT_Resume_Destination
datatype queue = Q_Routing | Q_Delivery

record queue_message =
  qm_messageType :: message_type
  qm_tenantId :: string
  qm_eventId :: "string option"
  qm_deliveryId :: "string option"
  qm_destinationId :: "string option"
  qm_correlationId :: string
  qm_notBefore :: "instant option"
  qm_cause :: cause

definition identifier_ok :: "string \<Rightarrow> string \<Rightarrow> bool" where
  "identifier_ok prefix s \<longleftrightarrow> \<not> isl (asIdentifier prefix s)"

fun optional_ok :: "string \<Rightarrow> string option \<Rightarrow> bool" where
  "optional_ok prefix None = True"
| "optional_ok prefix (Some s) = identifier_ok prefix s"

fun required_ok :: "string \<Rightarrow> string option \<Rightarrow> bool" where
  "required_ok prefix None = False"
| "required_ok prefix (Some s) = identifier_ok prefix s"

text \<open>
  The schemas of \<open>packages/contracts\<close>. They are strict: an attribute that a schema does not name, such as
  the destination in a delivery message, is refused.
\<close>

definition base_ok :: "string \<Rightarrow> outbox_payload \<Rightarrow> bool" where
  "base_ok tenantId p \<longleftrightarrow> identifier_ok ''tenant'' tenantId \<and> optional_ok ''evt'' (pl_eventId p)
     \<and> optional_ok ''dlv'' (pl_deliveryId p) \<and> identifier_ok ''cor'' (pl_correlationId p)"

fun schema_ok :: "message_type \<Rightarrow> outbox_payload \<Rightarrow> cause option \<Rightarrow> bool" where
  "schema_ok MT_Route_Event p c \<longleftrightarrow> required_ok ''evt'' (pl_eventId p) \<and> pl_destinationId p = None
     \<and> c \<in> {Some INITIAL, Some RECONCILE}"
| "schema_ok MT_Deliver p c \<longleftrightarrow> required_ok ''evt'' (pl_eventId p) \<and> required_ok ''dlv'' (pl_deliveryId p)
     \<and> pl_destinationId p = None \<and> c \<in> {Some INITIAL, Some RETRY, Some REPLAYED, Some RESUME}"
| "schema_ok MT_Resume_Destination p c \<longleftrightarrow> required_ok ''dst'' (pl_destinationId p)
     \<and> c = Some DESTINATION_ENABLED"

definition parseMessage ::
    "message_type \<Rightarrow> string \<Rightarrow> outbox_payload \<Rightarrow> cause option \<Rightarrow> js_error + queue_message" where
  "parseMessage mt tenantId p c =
     throw_if (\<not> (base_ok tenantId p \<and> schema_ok mt p c)) (ServiceError ''ZodError'')
       (Inr \<lparr>qm_messageType = mt, qm_tenantId = tenantId, qm_eventId = pl_eventId p,
          qm_deliveryId = pl_deliveryId p, qm_destinationId = pl_destinationId p,
          qm_correlationId = pl_correlationId p, qm_notBefore = pl_notBefore p, qm_cause = the c\<rparr>)"

definition or_cause :: "cause option \<Rightarrow> cause \<Rightarrow> cause option" where
  "or_cause c d = (case c of None \<Rightarrow> Some d | Some x \<Rightarrow> Some x)"

definition outboxQueueMessage :: "outbox_record \<Rightarrow> js_error + queue_message option" where
  "outboxQueueMessage b = (let p = ob_payload b; t = ob_tenantId b in
     case ob_kind b of
       ROUTE_EVENT \<Rightarrow> map_sum id Some (parseMessage MT_Route_Event t p (pl_cause p))
     | DELIVER \<Rightarrow> map_sum id Some (parseMessage MT_Deliver t p (or_cause (pl_cause p) INITIAL))
     | SCHEDULE_DELIVERY \<Rightarrow> map_sum id Some (parseMessage MT_Deliver t p (or_cause (pl_cause p) RESUME))
     | RESUME_DELIVERY \<Rightarrow> map_sum id Some (parseMessage MT_Deliver t p (or_cause (pl_cause p) RESUME))
     | RESUME_DESTINATION \<Rightarrow> map_sum id Some
         (parseMessage MT_Resume_Destination t p (Some DESTINATION_ENABLED))
     | RECONCILE_EVENT_STATUS \<Rightarrow> Inr None)"

section \<open>Publishing\<close>

text \<open>The delay given to the queue: none, a number of seconds, or \<open>NaN\<close> for a record without \<open>notBefore\<close>.\<close>

datatype delay = No_Delay | Seconds int | Not_A_Number

text \<open>The environment of the process that names the schedules and their target, and the \<open>CreateScheduleCommand\<close> of the scheduler.\<close>

record scheduler_config =
  sk_namePrefix :: "string option"
  sk_groupName :: "string option"
  sk_queueArn :: "string option"
  sk_executionRoleArn :: "string option"

record create_schedule =
  sl_name :: string
  sl_group :: "string option"
  sl_expression :: string
  sl_clientToken :: string
  sl_targetArn :: string
  sl_roleArn :: string
  sl_input :: queue_message

text \<open>\<open>po_scheduler\<close> is \<open>scheduler.send\<close>; there is a scheduler when the process is not \<open>local\<close>.\<close>

record 'w ports =
  po_db :: "'w dynamo"
  po_shards :: nat
  po_local :: bool
  po_now :: "'w \<Rightarrow> instant"
  po_send :: "queue \<Rightarrow> queue_message \<Rightarrow> delay \<Rightarrow> string option \<Rightarrow> ('w, unit) op"
  po_config :: scheduler_config
  po_scheduler :: "create_schedule \<Rightarrow> ('w, unit) op"

definition ceil_seconds :: "int \<Rightarrow> int" where
  "ceil_seconds ms = - ((- ms) div 1000)"

definition delayOf :: "outbox_record \<Rightarrow> instant \<Rightarrow> delay" where
  "delayOf b now = (case pl_notBefore (ob_payload b) of
      None \<Rightarrow> Not_A_Number
    | Some notBefore \<Rightarrow> Seconds (max 0 (ceil_seconds (notBefore - now))))"

fun long_delay :: "delay \<Rightarrow> bool" where
  "long_delay (Seconds n) \<longleftrightarrow> n > 900"
| "long_delay _ = False"

text \<open>
  A message has no number of an attempt, which no schema lets through: the next one is always the first. \<open>slice(0, 64)\<close>
  takes 64 characters, and the expression is the time without its milliseconds.
\<close>

definition nextAttemptNumber :: "queue_message \<Rightarrow> nat" where
  "nextAttemptNumber m = 0 + 1"

definition scheduleRequest ::
    "scheduler_config \<Rightarrow> queue_message \<Rightarrow> string \<Rightarrow> instant \<Rightarrow> string \<Rightarrow> string \<Rightarrow> create_schedule" where
  "scheduleRequest c m deliveryId notBefore arn role = (let attempt = padded 1 (nextAttemptNumber m); at_iso = isoString notBefore in
     \<lparr>sl_name = take 64 ((case sk_namePrefix c of None \<Rightarrow> ''pirh-demo'' | Some p \<Rightarrow> p) @ ''-'' @ deliveryId @ ''-'' @ attempt),
      sl_group = sk_groupName c,
      sl_expression = ''at('' @ take (length at_iso - 5) at_iso @ '')'',
      sl_clientToken = take 64 (''pirh-'' @ deliveryId @ ''-'' @ attempt),
      sl_targetArn = arn, sl_roleArn = role, sl_input = m\<rparr>)"

definition createSchedule ::
    "'w ports \<Rightarrow> queue_message \<Rightarrow> string \<Rightarrow> string \<Rightarrow> string \<Rightarrow> ('w, unit) op" where
  "createSchedule po m deliveryId arn role = (case qm_notBefore m of
      None \<Rightarrow> throwM (Error ''RangeError'')
    | Some notBefore \<Rightarrow> po_scheduler po (scheduleRequest (po_config po) m deliveryId notBefore arn role))"

text \<open>\<open>scheduleLongDelay\<close> of the worker.\<close>

definition scheduleLongDelay :: "'w ports \<Rightarrow> queue_message \<Rightarrow> ('w, unit) op" where
  "scheduleLongDelay po m = (case qm_deliveryId m of
      None \<Rightarrow> throwM (Error ''Scheduled delivery configuration is unavailable.'')
    | Some deliveryId \<Rightarrow>
        if po_local po then throwM (Error ''Scheduled delivery configuration is unavailable.'')
        else (case (sk_queueArn (po_config po), sk_executionRoleArn (po_config po)) of
            (Some arn, Some role) \<Rightarrow> createSchedule po m deliveryId arn role
          | _ \<Rightarrow> throwM (Error ''Scheduler target configuration is unavailable.'')))"

definition mark :: "'w ports \<Rightarrow> outbox_record \<Rightarrow> ('w, unit) op" where
  "mark po b = bindM (readM (po_now po)) (markPublished (po_db po) (po_shards po) b)"

definition failure :: "'w ports \<Rightarrow> outbox_record \<Rightarrow> ('w, unit) op" where
  "failure po b = bindM (readM (po_now po)) (recordPublicationFailure (po_db po) (po_shards po) b)"

definition publishScheduled :: "'w ports \<Rightarrow> outbox_record \<Rightarrow> queue_message \<Rightarrow> ('w, unit) op" where
  "publishScheduled po b message =
     bindM (bindM (readM (po_now po)) (\<lambda>now.
         if long_delay (delayOf b now)
         then (if po_local po then materializeScheduledWork (po_db po) (po_shards po) b
               else scheduleLongDelay po message)
         else po_send po Q_Delivery message (delayOf b now) (ob_traceparent b)))
       (\<lambda>_. mark po b)"

definition publishNow :: "'w ports \<Rightarrow> outbox_record \<Rightarrow> queue_message \<Rightarrow> ('w, unit) op" where
  "publishNow po b message =
     bindM (po_send po (if ob_kind b = ROUTE_EVENT then Q_Routing else Q_Delivery) message No_Delay
              (ob_traceparent b))
       (\<lambda>_. mark po b)"

definition publishBody :: "'w ports \<Rightarrow> outbox_record \<Rightarrow> ('w, unit) op" where
  "publishBody po b =
     bindM (liftM (outboxQueueMessage b)) (\<lambda>m. case m of
        None \<Rightarrow> returnM ()
      | Some message \<Rightarrow> if ob_kind b = SCHEDULE_DELIVERY then publishScheduled po b message
                        else publishNow po b message)"

definition publish :: "'w ports \<Rightarrow> outbox_record \<Rightarrow> ('w, unit) op" where
  "publish po b = catchM (publishBody po b) (\<lambda>_. failure po b)"

text \<open>One tick of the outbox worker: every shard, up to twenty-five records of each.\<close>

definition worker_shard :: "'w ports \<Rightarrow> nat \<Rightarrow> unit \<Rightarrow> ('w, unit) op" where
  "worker_shard po shard _ =
     bindM (readM (po_now po)) (\<lambda>now.
     bindM (getUnpublished (po_db po) (po_shards po) shard (now + 1) 25) (\<lambda>records.
       foldM (\<lambda>b _. publish po b) records ()))"

definition worker_tick :: "'w ports \<Rightarrow> ('w, unit) op" where
  "worker_tick po = foldM (worker_shard po) [0..<po_shards po] ()"

section \<open>Reconciliation\<close>

text \<open>
  The reconciler decides in milliseconds where the worker decides in seconds, and it reads the clock
  once more for the delay.
\<close>

definition far_off :: "outbox_record \<Rightarrow> instant \<Rightarrow> bool" where
  "far_off b now = (case pl_notBefore (ob_payload b) of None \<Rightarrow> False | Some t \<Rightarrow> t - now > 900000)"

text \<open>\<open>scheduleLongDelay\<close> of the reconciler makes one check of them all.\<close>

definition rescheduleLongDelay :: "'w ports \<Rightarrow> queue_message \<Rightarrow> ('w, unit) op" where
  "rescheduleLongDelay po m =
     (case (qm_deliveryId m, sk_queueArn (po_config po), sk_executionRoleArn (po_config po)) of
        (Some deliveryId, Some arn, Some role) \<Rightarrow>
          if po_local po then throwM (Error ''Scheduler target configuration is unavailable.'')
          else createSchedule po m deliveryId arn role
      | _ \<Rightarrow> throwM (Error ''Scheduler target configuration is unavailable.''))"

definition reconcileScheduled :: "'w ports \<Rightarrow> outbox_record \<Rightarrow> queue_message \<Rightarrow> ('w, unit) op" where
  "reconcileScheduled po b message =
     bindM (readM (po_now po)) (\<lambda>now.
       if far_off b now
       then bindM (if po_local po then materializeScheduledWork (po_db po) (po_shards po) b
                   else rescheduleLongDelay po message) (\<lambda>_. mark po b)
       else bindM (readM (po_now po)) (\<lambda>later.
            bindM (po_send po Q_Delivery message (delayOf b later) (ob_traceparent b)) (\<lambda>_. mark po b)))"

definition reconcileBody :: "'w ports \<Rightarrow> outbox_record \<Rightarrow> ('w, unit) op" where
  "reconcileBody po b =
     bindM (liftM (outboxQueueMessage b)) (\<lambda>m. case m of
        None \<Rightarrow> returnM ()
      | Some message \<Rightarrow> if ob_kind b = SCHEDULE_DELIVERY then reconcileScheduled po b message
                        else publishNow po b message)"

definition reconcile :: "'w ports \<Rightarrow> outbox_record \<Rightarrow> ('w, unit) op" where
  "reconcile po b = catchM (reconcileBody po b) (\<lambda>_. failure po b)"

definition workMessage :: "scheduled_work \<Rightarrow> queue_message" where
  "workMessage w = \<lparr>qm_messageType = MT_Deliver, qm_tenantId = sw_tenantId w, qm_eventId = Some (sw_eventId w),
     qm_deliveryId = Some (sw_deliveryId w), qm_destinationId = None, qm_correlationId = sw_correlationId w,
     qm_notBefore = Some (sw_notBefore w), qm_cause = sw_cause w\<rparr>"

definition publishWork :: "'w ports \<Rightarrow> scheduled_work \<Rightarrow> ('w, unit) op" where
  "publishWork po w =
     bindM (po_send po Q_Delivery (workMessage w) No_Delay (sw_traceparent w)) (\<lambda>_.
     bindM (readM (po_now po)) (markScheduledWorkPublished (po_db po) (po_shards po) w))"

definition reconciler_tick :: "'w ports \<Rightarrow> int \<Rightarrow> ('w, unit) op" where
  "reconciler_tick po staleMs =
     bindM (foldM (\<lambda>shard _.
         bindM (readM (po_now po)) (\<lambda>now.
         bindM (getUnpublished (po_db po) (po_shards po) shard (now - staleMs) 25) (\<lambda>records.
           foldM (\<lambda>b _. reconcile po b) records ()))) [0..<po_shards po] ()) (\<lambda>_.
     foldM (\<lambda>shard _.
         bindM (readM (po_now po)) (\<lambda>now.
         bindM (getDueScheduledWork (po_db po) shard now 25) (\<lambda>due.
           foldM (\<lambda>w _. publishWork po w) due ()))) [0..<po_shards po] ())"

section \<open>What the publishers rely on\<close>

text \<open>
  \<open>handed\<close> is what the queues and the scheduler have taken so far. A call that returns has handed its
  message over; a call that throws may or may not have. The other clients do not take the row of the
  record off the index, nor its scheduled work away.
\<close>

locale outbox_ports = dynamo_table "po_db po" view rely
  for po :: "'w ports" and view :: "'w \<Rightarrow> dtable" and rely :: "dtable \<Rightarrow> dtable \<Rightarrow> bool" +
  fixes handed :: "'w \<Rightarrow> queue_message set"
    and b :: outbox_record
  assumes waits: "rely s t \<Longrightarrow> waiting_row (s (outboxKey (po_shards po) b))
      \<Longrightarrow> waiting_row (t (outboxKey (po_shards po) b))"
    and work_stays: "rely s t \<Longrightarrow> s (workKey (po_shards po) (scheduledWork b)) \<noteq> None
      \<Longrightarrow> t (workKey (po_shards po) (scheduledWork b)) \<noteq> None"
    and write_handed: "db_write (po_db po) ops w = (rw, w') \<Longrightarrow> handed w \<subseteq> handed w'"
    and send_law: "po_send po q m dl tr w = (ru, w') \<Longrightarrow>
      rely (view w) (view w') \<and> handed w \<subseteq> handed w' \<and> (ru = Inr () \<longrightarrow> m \<in> handed w')"
    and schedule_law: "po_scheduler po x w = (ru, w') \<Longrightarrow>
      rely (view w) (view w') \<and> handed w \<subseteq> handed w' \<and> (ru = Inr () \<longrightarrow> sl_input x \<in> handed w')"

text \<open>\<open>leads P m Q\<close>: from \<open>P\<close>, a return of \<open>m\<close> has \<open>Q\<close> and a throw still has \<open>P\<close>.\<close>

definition leads :: "('w \<Rightarrow> bool) \<Rightarrow> ('w, 'a) op \<Rightarrow> ('w \<Rightarrow> bool) \<Rightarrow> bool" where
  "leads P m Q \<longleftrightarrow> (\<forall>w. P w \<longrightarrow> (case m w of (Inr a, w') \<Rightarrow> Q w' | (Inl e, w') \<Rightarrow> P w'))"

lemma leadsI:
  assumes "\<And>w r w'. P w \<Longrightarrow> m w = (r, w') \<Longrightarrow> (case r of Inr a \<Rightarrow> Q w' | Inl e \<Rightarrow> P w')"
  shows "leads P m Q"
  unfolding leads_def
proof (intro allI impI)
  fix w
  assume "P w"
  moreover obtain r w' where run: "m w = (r, w')" by (cases "m w")
  ultimately have "case r of Inr a \<Rightarrow> Q w' | Inl e \<Rightarrow> P w'" by (rule assms)
  with run show "case m w of (Inr a, w') \<Rightarrow> Q w' | (Inl e, w') \<Rightarrow> P w'" by (cases r) auto
qed

lemma leadsD: "leads P m Q \<Longrightarrow> P w \<Longrightarrow> m w = (r, w') \<Longrightarrow> (case r of Inr a \<Rightarrow> Q w' | Inl e \<Rightarrow> P w')"
  by (cases r) (fastforce simp: leads_def)+

lemma leads_weaken:
  assumes "leads P m Q" and "\<And>w. Q w \<Longrightarrow> Q' w"
  shows "leads P m Q'"
proof (rule leadsI)
  fix w r w'
  assume "P w" "m w = (r, w')"
  from leadsD [OF assms(1) this] assms(2) show "case r of Inr a \<Rightarrow> Q' w' | Inl e \<Rightarrow> P w'"
    by (cases r) auto
qed

lemma leads_bind:
  assumes "leads P m R" and "\<And>a. leads R (f a) Q" and "\<And>w. R w \<Longrightarrow> P w"
  shows "leads P (bindM m f) Q"
proof (rule leadsI)
  fix w r w'
  assume P: "P w" and run: "bindM m f w = (r, w')"
  obtain r1 w1 where m: "m w = (r1, w1)" by (cases "m w")
  note first = leadsD [OF assms(1) P m]
  show "case r of Inr a \<Rightarrow> Q w' | Inl e \<Rightarrow> P w'"
  proof (cases r1)
    case (Inl e)
    with first run m show ?thesis by (auto simp: bindM_def)
  next
    case (Inr a)
    with first have "R w1" by simp
    moreover have "f a w1 = (r, w')" using run m Inr by (simp add: bindM_def)
    ultimately have "case r of Inr a \<Rightarrow> Q w' | Inl e \<Rightarrow> R w'" by (rule leadsD [OF assms(2)])
    with assms(3) show ?thesis by (cases r) auto
  qed
qed

lemma leads_read: "(\<And>a. leads P (f a) Q) \<Longrightarrow> leads P (bindM (readM g) f) Q"
  by (simp add: leads_def bindM_def readM_def)

lemma leads_lift: "(\<And>a. r = Inr a \<Longrightarrow> leads P (f a) Q) \<Longrightarrow> leads P (bindM (liftM r) f) Q"
  by (cases r) (auto simp: leads_def throwM_def)

lemma leads_return: "(\<And>w. P w \<Longrightarrow> Q w) \<Longrightarrow> leads P (returnM a) Q"
  by (simp add: leads_def returnM_def)

lemma leads_catch:
  assumes "leads P m P" and "\<And>e. leads P (h e) P"
  shows "leads P (catchM m h) P"
proof (rule leadsI)
  fix w r w'
  assume P: "P w" and run: "catchM m h w = (r, w')"
  obtain r1 w1 where m: "m w = (r1, w1)" by (cases "m w")
  have P1: "P w1" using leadsD [OF assms(1) P m] by (cases r1) auto
  show "case r of Inr a \<Rightarrow> P w' | Inl e \<Rightarrow> P w'"
  proof (cases r1)
    case (Inl e)
    with run m have "h e w1 = (r, w')" by (simp add: catchM_def)
    from leadsD [OF assms(2) P1 this] show ?thesis by (cases r) auto
  next
    case (Inr a)
    with run m P1 show ?thesis by (auto simp: catchM_def)
  qed
qed

lemma leads_final: "leads P m P \<Longrightarrow> P w \<Longrightarrow> m w = (r, w') \<Longrightarrow> P w'"
  using leadsD [of P m P w r w'] by (cases r) auto

context outbox_ports
begin

abbreviation row :: "'w \<Rightarrow> item option" where
  "row w \<equiv> view w (outboxKey (po_shards po) b)"

definition gone_on :: "'w \<Rightarrow> bool" where
  "gone_on w \<longleftrightarrow> (\<exists>m. outboxQueueMessage b = Inr (Some m) \<and>
     (m \<in> handed w \<or> view w (workKey (po_shards po) (scheduledWork b)) \<noteq> None))"

definition not_lost :: "'w \<Rightarrow> bool" where
  "not_lost w \<longleftrightarrow> waiting_row (row w) \<or> gone_on w"

lemma gone_on_step:
  assumes "gone_on w" and "rely (view w) s" and "handed w \<subseteq> handed w'"
    and "view w' = s \<or> (\<exists>f. view w' = tx_apply [update_op (outboxKey (po_shards po) b) f] s)"
  shows "gone_on w'"
proof -
  have "view w' (workKey (po_shards po) (scheduledWork b)) = s (workKey (po_shards po) (scheduledWork b))"
    using assms(4) by (auto simp: workKey_def outboxKey_def)
  with assms(1-3) work_stays [OF assms(2)] show ?thesis unfolding gone_on_def by fastforce
qed

lemma update_row:
  assumes "db_write (po_db po) [update_op (outboxKey (po_shards po) b) f] w = (r, w')"
  obtains s where "rely (view w) s" "handed w \<subseteq> handed w'"
    "view w' = s \<or> view w' = tx_apply [update_op (outboxKey (po_shards po) b) f] s"
proof -
  from write_law [OF assms] obtain s where "rely (view w) s"
      "case r of Inr True \<Rightarrow> tx_ok [update_op (outboxKey (po_shards po) b) f] s
         \<and> view w' = tx_apply [update_op (outboxKey (po_shards po) b) f] s
       | Inr False \<Rightarrow> view w' = s
       | Inl e \<Rightarrow> view w' = s \<or> (tx_ok [update_op (outboxKey (po_shards po) b) f] s
         \<and> view w' = tx_apply [update_op (outboxKey (po_shards po) b) f] s)" by blast
  moreover from this(2) have "view w' = s \<or> view w' = tx_apply [update_op (outboxKey (po_shards po) b) f] s"
    by (cases r) (auto split: bool.splits)
  ultimately show thesis using that write_handed [OF assms] by blast
qed

lemma asUnit_run: "asUnit e m w = (r, w') \<Longrightarrow> \<exists>x. m w = (x, w') \<and> (r = Inr () \<longrightarrow> x = Inr True)"
  by (auto simp: asUnit_def bindM_def returnM_def throwM_def split: prod.splits sum.splits if_splits)

lemma mark_leads: "leads gone_on (mark po b) gone_on"
  unfolding mark_def
proof (rule leads_read)
  fix t
  show "leads gone_on (markPublished (po_db po) (po_shards po) b t) gone_on"
    unfolding leads_def
  proof (intro allI impI)
    fix w
    assume g: "gone_on w"
    obtain r w' where run: "markPublished (po_db po) (po_shards po) b t w = (r, w')"
      by (cases "markPublished (po_db po) (po_shards po) b t w")
    then obtain x where "db_write (po_db po) [update_op (outboxKey (po_shards po) b) (set_published t)] w = (x, w')"
      unfolding markPublished_def by (blast dest: asUnit_run)
    from update_row [OF this] gone_on_step [OF g] have "gone_on w'" by metis
    with run show "case markPublished (po_db po) (po_shards po) b t w of
        (Inr a, w') \<Rightarrow> gone_on w' | (Inl e, w') \<Rightarrow> gone_on w'"
      by (simp split: sum.splits)
  qed
qed

lemma failure_leads: "leads not_lost (failure po b) not_lost"
  unfolding failure_def
proof (rule leads_read)
  fix t
  show "leads not_lost (recordPublicationFailure (po_db po) (po_shards po) b t) not_lost"
    unfolding leads_def
  proof (intro allI impI)
    fix w
    assume P: "not_lost w"
    obtain r w' where run: "recordPublicationFailure (po_db po) (po_shards po) b t w = (r, w')"
      by (cases "recordPublicationFailure (po_db po) (po_shards po) b t w")
    then obtain x where "db_write (po_db po) [update_op (outboxKey (po_shards po) b) (count_failure t)] w = (x, w')"
      unfolding recordPublicationFailure_def by (blast dest: asUnit_run)
    from update_row [OF this] obtain s where s: "rely (view w) s" "handed w \<subseteq> handed w'"
        "view w' = s \<or> view w' = tx_apply [update_op (outboxKey (po_shards po) b) (count_failure t)] s" .
    have "not_lost w'"
    proof (cases "gone_on w")
      case True
      with gone_on_step [OF True s(1,2)] s(3) show ?thesis unfolding not_lost_def by blast
    next
      case False
      with P have "waiting_row (s (outboxKey (po_shards po) b))" using waits [OF s(1)] by (simp add: not_lost_def)
      with s(3) show ?thesis by (auto simp: not_lost_def failure_keeps_waiting)
    qed
    with run show "case recordPublicationFailure (po_db po) (po_shards po) b t w of
        (Inr a, w') \<Rightarrow> not_lost w' | (Inl e, w') \<Rightarrow> not_lost w'"
      by (simp split: sum.splits)
  qed
qed

text \<open>A call that hands the message over, and the transaction that turns the record into scheduled work.\<close>

lemma not_lost_step:
  assumes "not_lost w" and "rely (view w) (view w')" and "handed w \<subseteq> handed w'"
  shows "not_lost w'"
  using assms waits [OF assms(2)] gone_on_step [OF _ assms(2,3)] unfolding not_lost_def by blast

lemma hand_over_leads:
  assumes "outboxQueueMessage b = Inr (Some m)"
    and "\<And>w r w'. call w = (r, w') \<Longrightarrow>
      rely (view w) (view w') \<and> handed w \<subseteq> handed w' \<and> (r = Inr () \<longrightarrow> m \<in> handed w')"
  shows "leads not_lost call gone_on"
  unfolding leads_def
proof (intro allI impI)
  fix w
  assume P: "not_lost w"
  obtain r w' where run: "call w = (r, w')" by (cases "call w")
  note law = assms(2) [OF run]
  show "case call w of (Inr a, w') \<Rightarrow> gone_on w' | (Inl e, w') \<Rightarrow> not_lost w'"
  proof (cases r)
    case (Inl e)
    with run law not_lost_step [OF P] show ?thesis by simp
  next
    case (Inr u)
    with law assms(1) have "gone_on w'" by (simp add: gone_on_def)
    with run Inr show ?thesis by simp
  qed
qed

lemma materialize_leads:
  assumes "outboxQueueMessage b = Inr (Some m)"
  shows "leads not_lost (materializeScheduledWork (po_db po) (po_shards po) b) gone_on"
  unfolding leads_def
proof (intro allI impI)
  fix w
  assume P: "not_lost w"
  let ?k = "workKey (po_shards po) (scheduledWork b)"
  let ?ops = "[put_new ?k (It_ScheduledWork (scheduledWork b)),
      update_op (outboxKey (po_shards po) b) (set_published (db_now (po_db po) w))]"
  obtain r w' where run: "materializeScheduledWork (po_db po) (po_shards po) b w = (r, w')"
    by (cases "materializeScheduledWork (po_db po) (po_shards po) b w")
  have "(r = Inr () \<longrightarrow> gone_on w') \<and> not_lost w'"
  proof (cases "schedulable (ob_payload b)")
    case False
    with run P show ?thesis by (auto simp: materializeScheduledWork_def throwM_def)
  next
    case True
    with run obtain x where x: "db_write (po_db po) ?ops w = (x, w')" "r = Inr () \<longrightarrow> x = Inr True"
      unfolding materializeScheduledWork_def withNow_def by (auto dest: asUnit_run)
    from write_law [OF x(1)] obtain s where s: "rely (view w) s"
        "case x of Inr True \<Rightarrow> tx_ok ?ops s \<and> view w' = tx_apply ?ops s
         | Inr False \<Rightarrow> view w' = s
         | Inl e \<Rightarrow> view w' = s \<or> (tx_ok ?ops s \<and> view w' = tx_apply ?ops s)" by blast
    have committed: "gone_on w'" if "view w' = tx_apply ?ops s"
      using that assms by (auto simp: gone_on_def workKey_def outboxKey_def)
    have refused: "not_lost w'" if "view w' = s"
      using not_lost_step [OF P _ write_handed [OF x(1)]] s(1) that by simp
    from s(2) have "view w' = s \<or> view w' = tx_apply ?ops s" by (cases x) (auto split: bool.splits)
    with committed refused have "not_lost w'" unfolding not_lost_def by blast
    moreover have "gone_on w'" if "r = Inr ()" using that x(2) s(2) committed by auto
    ultimately show ?thesis by blast
  qed
  with run show "case materializeScheduledWork (po_db po) (po_shards po) b w of
      (Inr a, w') \<Rightarrow> gone_on w' | (Inl e, w') \<Rightarrow> not_lost w'"
    by (cases r) auto
qed

lemma gone_not_lost: "gone_on w \<Longrightarrow> not_lost w"
  by (simp add: not_lost_def)

lemma then_mark: "leads not_lost call gone_on \<Longrightarrow> leads not_lost (bindM call (\<lambda>_. mark po b)) not_lost"
  by (rule leads_bind [where R = gone_on]) (auto intro: leads_weaken [OF mark_leads] gone_not_lost)

lemma publishNow_leads:
  assumes "outboxQueueMessage b = Inr (Some m)"
  shows "leads not_lost (publishNow po b m) not_lost"
  unfolding publishNow_def
  by (rule then_mark, rule hand_over_leads [OF assms]) (use send_law in blast)

text \<open>A schedule that was created carries the message; nothing is scheduled before a throw.\<close>

lemma long_delay_run:
  assumes "scheduleLongDelay po m w = (r, w') \<or> rescheduleLongDelay po m w = (r, w')"
  shows "rely (view w) (view w') \<and> handed w \<subseteq> handed w' \<and> (r = Inr () \<longrightarrow> m \<in> handed w')"
proof -
  have create: "rely (view w) (view w') \<and> handed w \<subseteq> handed w' \<and> (r = Inr () \<longrightarrow> m \<in> handed w')"
    if "createSchedule po m d arn role w = (r, w')" for d arn role
    using that schedule_law [of "scheduleRequest (po_config po) m d n arn role" w r w' for n]
    by (auto simp: createSchedule_def scheduleRequest_def throwM_def rely_refl Let_def split: option.splits)
  show ?thesis
    using assms create
    by (auto simp: scheduleLongDelay_def rescheduleLongDelay_def throwM_def rely_refl split: option.splits if_splits)
qed

lemma long_or_short_leads:
  assumes "outboxQueueMessage b = Inr (Some m)"
  shows "leads not_lost (if po_local po then materializeScheduledWork (po_db po) (po_shards po) b
      else scheduleLongDelay po m) gone_on"
    and "leads not_lost (if po_local po then materializeScheduledWork (po_db po) (po_shards po) b
      else rescheduleLongDelay po m) gone_on"
    and "leads not_lost (po_send po q m dl tr) gone_on"
  using materialize_leads [OF assms] hand_over_leads [OF assms, of "scheduleLongDelay po m", OF long_delay_run [OF disjI1]]
    hand_over_leads [OF assms, of "rescheduleLongDelay po m", OF long_delay_run [OF disjI2]]
    hand_over_leads [OF assms, of "po_send po q m dl tr"] send_law by auto

lemma publish_leads: "leads not_lost (publish po b) not_lost"
  unfolding publish_def publishBody_def
proof (rule leads_catch [OF leads_lift failure_leads])
  fix a
  assume a: "outboxQueueMessage b = Inr a"
  show "leads not_lost (case a of None \<Rightarrow> returnM () | Some message \<Rightarrow>
      if ob_kind b = SCHEDULE_DELIVERY then publishScheduled po b message else publishNow po b message) not_lost"
  proof (cases a)
    case None
    then show ?thesis by (auto intro: leads_return)
  next
    case (Some m)
    with a have m: "outboxQueueMessage b = Inr (Some m)" by simp
    have "leads not_lost (publishScheduled po b m) not_lost"
      unfolding publishScheduled_def
      by (rule then_mark, rule leads_read) (simp add: long_or_short_leads [OF m] split: if_splits)
    with Some publishNow_leads [OF m] show ?thesis by simp
  qed
qed

lemma reconcile_leads: "leads not_lost (reconcile po b) not_lost"
  unfolding reconcile_def reconcileBody_def
proof (rule leads_catch [OF leads_lift failure_leads])
  fix a
  assume a: "outboxQueueMessage b = Inr a"
  show "leads not_lost (case a of None \<Rightarrow> returnM () | Some message \<Rightarrow>
      if ob_kind b = SCHEDULE_DELIVERY then reconcileScheduled po b message else publishNow po b message) not_lost"
  proof (cases a)
    case None
    then show ?thesis by (auto intro: leads_return)
  next
    case (Some m)
    with a have m: "outboxQueueMessage b = Inr (Some m)" by simp
    have "leads not_lost (reconcileScheduled po b m) not_lost"
      unfolding reconcileScheduled_def
      using then_mark [OF long_or_short_leads(2) [OF m]] then_mark [OF long_or_short_leads(3) [OF m]]
      by (intro leads_read) (simp add: leads_read)
    with Some publishNow_leads [OF m] show ?thesis by simp
  qed
qed

lemma never_lost:
  assumes "waiting_row (row w)" and "publish po b w = (r, w') \<or> reconcile po b w = (r, w')"
  shows "waiting_row (row w') \<or> gone_on w'"
  using assms leads_final [OF publish_leads] leads_final [OF reconcile_leads] unfolding not_lost_def by metis

end

section \<open>A publisher in memory\<close>

text \<open>A table in memory beside a list of the messages taken: every send succeeds.\<close>

definition beside :: "('w, 'a) op \<Rightarrow> ('w \<times> 'h, 'a) op" where
  "beside m w = (case m (fst w) of (r, w') \<Rightarrow> (r, (w', snd w)))"

definition beside_db :: "'w dynamo \<Rightarrow> ('w \<times> 'h) dynamo" where
  "beside_db db = \<lparr>db_get = \<lambda>k. beside (db_get db k), db_write = \<lambda>ops. beside (db_write db ops),
     db_query = \<lambda>P n. beside (db_query db P n), db_index = \<lambda>A n. beside (db_index db A n),
     db_now = \<lambda>w. db_now db (fst w)\<rparr>"

lemma beside_run: "beside m w = (r, w') \<longleftrightarrow> m (fst w) = (r, fst w') \<and> snd w' = snd w"
  by (cases w'; cases "m (fst w)") (auto simp: beside_def)

lemma beside_table:
  assumes "dynamo_table db view rely"
  shows "dynamo_table (beside_db db) (view \<circ> fst) rely"
  by (unfold_locales, unfold beside_db_def dynamo.select_convs beside_run comp_apply)
    (((elim conjE)?, (rule dynamo_table.rely_refl [OF assms]
      | (erule (1) dynamo_table.rely_trans [OF assms])
      | (erule dynamo_table.get_law [OF assms]) | (erule dynamo_table.write_law [OF assms])
      | (erule dynamo_table.query_law [OF assms]) | (erule dynamo_table.index_law [OF assms])))+)

text \<open>What the other clients may do to the row of a record and to its scheduled work.\<close>

definition leave_alone :: "nat \<Rightarrow> outbox_record \<Rightarrow> dtable \<Rightarrow> dtable \<Rightarrow> bool" where
  "leave_alone shards b s t \<longleftrightarrow>
     (waiting_row (s (outboxKey shards b)) \<longrightarrow> waiting_row (t (outboxKey shards b)))
     \<and> (s (workKey shards (scheduledWork b)) \<noteq> None \<longrightarrow> t (workKey shards (scheduledWork b)) \<noteq> None)"

definition mem_send :: "queue_message \<Rightarrow> (mem \<times> queue_message list, unit) op" where
  "mem_send m w = (Inr (), (fst w, m # snd w))"

definition mem_ports ::
    "dkey list \<Rightarrow> nat \<Rightarrow> bool \<Rightarrow> (dtable \<Rightarrow> dtable \<Rightarrow> bool) \<Rightarrow> (mem \<times> queue_message list) ports" where
  "mem_ports ks shards isLocal rely = \<lparr>po_db = beside_db (mem_db ks rely), po_shards = shards,
     po_local = isLocal, po_now = \<lambda>w. mem_clock (fst w), po_send = \<lambda>q m dl tr. mem_send m,
     po_config = \<lparr>sk_namePrefix = None, sk_groupName = None, sk_queueArn = Some ''arn:queue'', sk_executionRoleArn = Some ''arn:role''\<rparr>,
     po_scheduler = \<lambda>x. mem_send (sl_input x)\<rparr>"

interpretation mem_outbox: outbox_ports "mem_ports ks shards isLocal (leave_alone shards b)"
    "mem_table \<circ> fst" "leave_alone shards b" "set \<circ> snd" b for ks shards isLocal b
proof -
  have base: "dynamo_table (beside_db (mem_db ks (leave_alone shards b))) (mem_table \<circ> fst) (leave_alone shards b)"
    by (rule beside_table, rule mem_db_laws) (auto simp: leave_alone_def)
  then show "outbox_ports (mem_ports ks shards isLocal (leave_alone shards b))
      (mem_table \<circ> fst) (leave_alone shards b) (set \<circ> snd) b"
    unfolding outbox_ports_def outbox_ports_axioms_def
    by (auto simp: mem_ports_def mem_send_def beside_db_def beside_run leave_alone_def)
qed

section \<open>No work is lost\<close>

text \<open>
  C13. The outbox delivers at least once. However the calls of a publisher fail, and whatever the other
  clients do short of taking the row away, a record that waited is afterwards still on the index of
  unpublished records, or its message has been taken by a queue or by the scheduler, or its scheduled
  work is in the table: the mark is never written before the hand-over. This holds for the worker
  and for the reconciler.
\<close>

theorem outbox_at_least_once:
  assumes "outbox_ports po view rely handed b"
    and "waiting_row (view w (outboxKey (po_shards po) b))"
    and "publish po b w = (r, w') \<or> reconcile po b w = (r, w')"
  shows "waiting_row (view w' (outboxKey (po_shards po) b))
    \<or> (\<exists>m. outboxQueueMessage b = Inr (Some m) \<and>
         (m \<in> handed w' \<or> view w' (workKey (po_shards po) (scheduledWork b)) \<noteq> None))"
  using outbox_ports.never_lost [OF assms] unfolding outbox_ports.gone_on_def [OF assms(1)] .

definition sample_route :: outbox_record where
  "sample_route = \<lparr>ob_outboxId = ''obx_1'', ob_kind = ROUTE_EVENT,
     ob_tenantId = ''tenant_00000000000000000000000001'', ob_aggregateType = EVENT,
     ob_aggregateId = ''evt_00000000000000000000000001'', ob_target = ROUTING_QUEUE,
     ob_payload = \<lparr>pl_eventId = Some ''evt_00000000000000000000000001'', pl_deliveryId = None,
       pl_destinationId = None, pl_correlationId = ''cor_00000000000000000000000001'',
       pl_notBefore = None, pl_cause = Some INITIAL\<rparr>,
     ob_createdAt = 1000, ob_attempts = 0, ob_publishedAt = None, ob_traceparent = None\<rparr>"

definition outbox_world :: "mem \<times> queue_message list" where
  "outbox_world = (\<lparr>mem_table = tx_apply [outboxPut 8 sample_route] Map.empty, mem_clock = 2000,
     mem_others = []\<rparr>, [])"

lemma sample_route_waits: "waiting_row ((mem_table \<circ> fst) outbox_world (outboxKey 8 sample_route))"
  by (simp add: outbox_world_def outboxPut_waits)

lemma sample_route_message: "\<exists>m. outboxQueueMessage sample_route = Inr (Some m)"
  by (simp add: outboxQueueMessage_def sample_route_def parseMessage_def base_ok_def identifier_ok_def
      asIdentifier_def is_ulid_def ulid_alphabet_def throw_if_def)

definition outbox_after :: "mem \<times> queue_message list" where
  "outbox_after = snd (publish (mem_ports [] 8 True (leave_alone 8 sample_route)) sample_route outbox_world)"

lemma outbox_at_least_once_witness:
  "waiting_row ((mem_table \<circ> fst) outbox_world (outboxKey 8 sample_route))
   \<and> (waiting_row ((mem_table \<circ> fst) outbox_after (outboxKey 8 sample_route))
      \<or> (\<exists>m. outboxQueueMessage sample_route = Inr (Some m) \<and> (m \<in> set (snd outbox_after)
           \<or> (mem_table \<circ> fst) outbox_after (workKey 8 (scheduledWork sample_route)) \<noteq> None)))"
proof -
  let ?po = "mem_ports [] 8 True (leave_alone 8 sample_route)"
  have shards: "po_shards ?po = 8" by (simp add: mem_ports_def)
  have run: "publish ?po sample_route outbox_world = (fst (publish ?po sample_route outbox_world), outbox_after)"
    by (simp add: outbox_after_def)
  show ?thesis
    using outbox_at_least_once [OF mem_outbox.outbox_ports_axioms [where ks = "[]" and shards = 8
          and isLocal = True and b = sample_route] _ disjI1 [OF run]] sample_route_waits
    by (simp only: shards comp_apply)
qed

end
