(* ===== verification/Identifiers.thy ===== *)
theory Identifiers
  imports Domain "HOL-Library.Word"
begin

unbundle bit_operations_syntax

text \<open>
  The identifiers that the services derive from their input: \<open>deterministicIdentifier\<close> of
  \<open>packages/application/src/index.ts\<close>, which writes the first 130 bits of a SHA-256 digest in base 32.
  The digest is a parameter (\<open>node:crypto\<close>); the bit buffer is the 32-bit integer that JavaScript's
  shift operators work on.
\<close>

section \<open>The encoder\<close>

definition sextet :: "32 word \<Rightarrow> nat \<Rightarrow> char" where
  "sextet buffer bits = ulid_alphabet ! unat (signed_drop_bit bits buffer AND 31)"

text \<open>The inner loop: \<open>while (bits >= 5 && encoded.length < 26)\<close>.\<close>

fun emit :: "nat \<Rightarrow> 32 word \<Rightarrow> string \<Rightarrow> nat \<times> string" where
  "emit bits buffer encoded =
     (if 5 \<le> bits \<and> length encoded < 26
      then emit (bits - 5) buffer (encoded @ [sextet buffer (bits - 5)])
      else (bits, encoded))"

declare emit.simps [simp del]

fun encode_bytes :: "8 word list \<Rightarrow> nat \<Rightarrow> 32 word \<Rightarrow> string \<Rightarrow> string" where
  "encode_bytes [] bits buffer encoded = encoded"
| "encode_bytes (byte # bytes) bits buffer encoded =
     (let filled = push_bit 8 buffer OR ucast byte;
          (left, more) = emit (bits + 8) filled encoded
      in if length more = 26 then more else encode_bytes bytes left filled more)"

definition padEnd :: "nat \<Rightarrow> char \<Rightarrow> string \<Rightarrow> string" where
  "padEnd n c s = s @ replicate (n - length s) c"

definition deterministicIdentifier :: "(string \<Rightarrow> 8 word list) \<Rightarrow> string \<Rightarrow> string \<Rightarrow> string" where
  "deterministicIdentifier sha256 prefix value =
     prefix @ ''_'' @ padEnd 26 (CHR ''0'') (encode_bytes (sha256 value) 0 0 [])"

section \<open>What the encoder writes\<close>

text \<open>The number a digest is, read with its first byte the most significant.\<close>

definition digest_number :: "8 word list \<Rightarrow> nat" where
  "digest_number bytes = foldl (\<lambda>n b. n * 256 + unat b) 0 bytes"

text \<open>The base 32 digit of \<open>n\<close> that stands above its \<open>k\<close> lowest bits.\<close>

definition digit32 :: "nat \<Rightarrow> nat \<Rightarrow> char" where
  "digit32 n k = ulid_alphabet ! (n div 2 ^ k mod 32)"

lemma digest_number_snoc: "digest_number (bs @ [b]) = digest_number bs * 256 + unat b"
  by (simp add: digest_number_def)

lemma digest_number_append:
  "digest_number (xs @ ys) = digest_number xs * 256 ^ length ys + digest_number ys"
proof (induction ys rule: rev_induct)
  case Nil
  then show ?case by (simp add: digest_number_def)
next
  case (snoc y ys)
  have "digest_number (xs @ ys @ [y]) = digest_number (xs @ ys) * 256 + unat y"
    using digest_number_snoc [of "xs @ ys" y] by simp
  then show ?case by (simp add: snoc digest_number_snoc algebra_simps)
qed

lemma digest_number_bound: "digest_number bs < 256 ^ length bs"
proof (induction bs rule: rev_induct)
  case Nil
  then show ?case by (simp add: digest_number_def)
next
  case (snoc b bs)
  have "unat b < 256" using unsigned_less [of b] by simp
  with snoc show ?case by (simp add: digest_number_snoc)
qed

text \<open>A digit of the digest is decided by the bytes read when it is written.\<close>

lemma digit_of_prefix:
  "digit32 (digest_number (xs @ ys)) (8 * length ys + k) = digit32 (digest_number xs) k"
proof -
  let ?n = "digest_number xs" and ?m = "digest_number ys"
  have p: "(256::nat) ^ length ys = 2 ^ (8 * length ys)" by (simp add: power_mult)
  have m: "?m < 2 ^ (8 * length ys)" using digest_number_bound [of ys] p by simp
  have "(?n * 2 ^ (8 * length ys) + ?m) div 2 ^ (8 * length ys + k)
      = (?n * 2 ^ (8 * length ys) + ?m) div 2 ^ (8 * length ys) div 2 ^ k"
    by (simp add: power_add div_mult2_eq)
  also have "(?n * 2 ^ (8 * length ys) + ?m) div 2 ^ (8 * length ys) = ?n"
    using m by simp
  finally show ?thesis by (simp add: digit32_def digest_number_append p)
qed

text \<open>
  The buffer holds the number of the bytes read so far, less what the 32 bits have dropped; a digit
  whose five bits lie in the buffer is read right.
\<close>

lemma low_digit: "unat (take_bit 5 (drop_bit k (word_of_nat n :: 32 word))) = n div 2 ^ k mod 32"
  if "k + 5 \<le> 32"
proof -
  have "take_bit 5 (drop_bit k (take_bit 32 n)) = take_bit 5 (drop_bit k n)"
    using that by (intro bit_eqI) (auto simp: bit_take_bit_iff bit_drop_bit_eq)
  moreover have "unat (take_bit 5 (drop_bit k (word_of_nat n :: 32 word))) = take_bit 5 (drop_bit k (take_bit 32 n))"
    by (simp only: unsigned_take_bit_eq unsigned_drop_bit_eq unsigned_of_nat) simp
  ultimately show ?thesis by (simp add: take_bit_eq_mod drop_bit_eq_div)
qed

lemma sextet_digit:
  assumes "buffer = word_of_nat n" and "k + 5 \<le> 32"
  shows "sextet buffer k = digit32 n k"
proof -
  have "signed_drop_bit k buffer AND 31 = take_bit 5 (signed_drop_bit k buffer)"
    by (simp add: take_bit_eq_mask mask_eq_exp_minus_1)
  also have "\<dots> = take_bit 5 (drop_bit k buffer)"
    using assms(2) by (intro bit_eqI) (auto simp: bit_take_bit_iff bit_signed_drop_bit_iff bit_drop_bit_eq)
  finally show ?thesis using low_digit [OF assms(2), of n] by (simp add: sextet_def digit32_def assms(1))
qed

lemma filled_number:
  "push_bit 8 (word_of_nat n) OR ucast (byte :: 8 word) = (word_of_nat (n * 256 + unat byte) :: 32 word)"
proof -
  have "push_bit 8 (word_of_nat n :: 32 word) AND ucast byte = 0"
    by (intro bit_eqI) (auto simp: bit_and_iff bit_push_bit_iff bit_ucast_iff dest: bit_imp_le_length)
  then have "push_bit 8 (word_of_nat n) OR ucast byte = push_bit 8 (word_of_nat n :: 32 word) + ucast byte"
    by (simp add: disjunctive_add_eq_or)
  also have "\<dots> = word_of_nat n * 256 + word_of_nat (unat byte)"
    by (simp add: push_bit_eq_mult unsigned_ucast_eq)
  finally show ?thesis by simp
qed

section \<open>The encoder writes the leading digits\<close>

definition leading_digits :: "8 word list \<Rightarrow> nat \<Rightarrow> string" where
  "leading_digits bs n = map (\<lambda>i. digit32 (digest_number bs) (8 * length bs - 5 * Suc i)) [0..<n]"

lemma length_leading [simp]: "length (leading_digits bs n) = n"
  by (simp add: leading_digits_def)

lemma emit_digits:
  assumes "buffer = word_of_nat n" and "bits \<le> 32"
  shows "emit bits buffer e =
    (let c = min (bits div 5) (26 - length e)
     in (bits - 5 * c, e @ map (\<lambda>i. digit32 n (bits - 5 * Suc i)) [0..<c]))"
  using assms
proof (induction bits buffer e rule: emit.induct)
  case (1 bits buffer e)
  show ?case
  proof (cases "5 \<le> bits \<and> length e < 26")
    case False
    then have "min (bits div 5) (26 - length e) = 0" by (auto simp: min_def)
    moreover have "emit bits buffer e = (bits, e)"
      by (subst emit.simps) (rule if_not_P [OF False])
    ultimately show ?thesis by (simp add: Let_def)
  next
    case True
    define c where "c = min ((bits - 5) div 5) (25 - length e)"
    have c: "min (bits div 5) (26 - length e) = Suc c"
      using True by (auto simp: c_def min_def le_div_geq)
    have "emit bits buffer e = emit (bits - 5) buffer (e @ [sextet buffer (bits - 5)])"
      by (subst emit.simps) (rule if_P [OF True])
    also have "\<dots> = (bits - 5 - 5 * c, (e @ [sextet buffer (bits - 5)])
        @ map (\<lambda>i. digit32 n (bits - 5 - 5 * Suc i)) [0..<c])"
      using 1 True by (simp add: c_def Let_def)
    also have "sextet buffer (bits - 5) = digit32 n (bits - 5)"
      using True 1 by (intro sextet_digit) auto
    also have "(bits - 5 - 5 * c, (e @ [digit32 n (bits - 5)])
        @ map (\<lambda>i. digit32 n (bits - 5 - 5 * Suc i)) [0..<c])
      = (bits - 5 * Suc c, e @ map (\<lambda>i. digit32 n (bits - 5 * Suc i)) [0..<Suc c])"
      by (simp add: map_upt_Suc diff_diff_left del: upt_Suc)
    finally show ?thesis by (simp only: c Let_def)
  qed
qed

lemma leading_digits_more:
  assumes "8 * length xs = bits + 5 * j" and "5 * c \<le> bits"
  shows "leading_digits (xs @ ys) j @ map (\<lambda>i. digit32 (digest_number xs) (bits - 5 * Suc i)) [0..<c]
    = leading_digits (xs @ ys) (j + c)"
proof -
  have "digit32 (digest_number xs) (bits - 5 * Suc i)
      = digit32 (digest_number (xs @ ys)) (8 * length (xs @ ys) - 5 * Suc (j + i))" if "i < c" for i
  proof -
    have "8 * length (xs @ ys) - 5 * Suc (j + i) = 8 * length ys + (bits - 5 * Suc i)"
      using assms that by simp
    then show ?thesis by (simp only: digit_of_prefix)
  qed
  moreover have "[0..<j + c] = [0..<j] @ map (\<lambda>i. i + j) [0..<c]"
    using upt_add_eq_append [of 0 j c] by (simp add: map_add_upt add.commute)
  ultimately show ?thesis by (simp add: leading_digits_def comp_def add.commute)
qed

lemma encode_leading:
  assumes "e = leading_digits (xs @ ys) (length e)" and "length e < 26" and "bits < 5"
    and "8 * length xs = bits + 5 * length e" and "130 \<le> 8 * length (xs @ ys)"
    and "buffer = word_of_nat (digest_number xs)"
  shows "encode_bytes ys bits buffer e = leading_digits (xs @ ys) 26"
  using assms
proof (induction ys arbitrary: xs bits buffer e)
  case Nil
  then show ?case by simp
next
  case (Cons y ys)
  define c where "c = min ((bits + 8) div 5) (26 - length e)"
  let ?n = "digest_number (xs @ [y])"
  let ?e = "e @ map (\<lambda>i. digit32 ?n (bits + 8 - 5 * Suc i)) [0..<c]"
  have filled: "push_bit 8 buffer OR ucast y = word_of_nat ?n"
    using Cons.prems(6) by (simp add: filled_number digest_number_snoc)
  have emit: "emit (bits + 8) (push_bit 8 buffer OR ucast y) e = (bits + 8 - 5 * c, ?e)"
    using emit_digits [OF filled, of "bits + 8" e] Cons.prems(3) by (simp add: c_def Let_def)
  have c: "5 * c \<le> bits + 8" by (auto simp: c_def min_def)
  have more: "?e = leading_digits (xs @ y # ys) (length e + c)"
    using leading_digits_more [of "xs @ [y]" "bits + 8" "length e" c ys] Cons.prems(1,4) c by simp
  show ?case
  proof (cases "length e + c = 26")
    case True
    then show ?thesis using emit more by simp
  next
    case False
    then have short: "c = (bits + 8) div 5" "length e + c < 26"
      using Cons.prems(2) by (auto simp: c_def min_def split: if_splits)
    have "encode_bytes ys (bits + 8 - 5 * c) (word_of_nat ?n) ?e = leading_digits ((xs @ [y]) @ ys) 26"
    proof (rule Cons.IH)
      show "?e = leading_digits ((xs @ [y]) @ ys) (length ?e)" using more by simp
      show "length ?e < 26" using short by simp
      show "bits + 8 - 5 * c < 5" using short(1) by (simp add: minus_mult_div_eq_mod)
      show "8 * length (xs @ [y]) = bits + 8 - 5 * c + 5 * length ?e" using Cons.prems(4) c by simp
      show "130 \<le> 8 * length ((xs @ [y]) @ ys)" using Cons.prems(5) by simp
    qed simp
    with emit filled False show ?thesis by simp
  qed
qed

lemma digit32_in_alphabet: "digit32 n k \<in> set ulid_alphabet"
proof -
  have "n div 2 ^ k mod 32 < length ulid_alphabet" by (simp add: ulid_alphabet_def)
  then show ?thesis unfolding digit32_def by (rule nth_mem)
qed

text \<open>
  C12. A derived identifier is well formed and loses nothing of its 130 bits. For a digest of 32 bytes
  the result is the prefix and the 26 leading base 32 digits of the digest: the wrap-around of the
  32-bit buffer, which overflows from the fourth byte on, never reaches a bit that is still to be
  written. \<open>asIdentifier\<close> accepts every such identifier.
\<close>

theorem derived_identifier_spec:
  assumes "length (sha256 value) = 32"
  shows "deterministicIdentifier sha256 prefix value = prefix @ ''_'' @ leading_digits (sha256 value) 26
    \<and> asIdentifier prefix (deterministicIdentifier sha256 prefix value)
        = Inr (deterministicIdentifier sha256 prefix value)"
proof -
  have enc: "encode_bytes (sha256 value) 0 0 [] = leading_digits (sha256 value) 26"
    using encode_leading [of "[]" "[]" "sha256 value" 0 0] assms
    by (simp add: leading_digits_def digest_number_def)
  have "is_ulid (leading_digits (sha256 value) 26)"
    using digit32_in_alphabet by (auto simp: is_ulid_def leading_digits_def list_all_iff)
  then show ?thesis
    by (simp add: deterministicIdentifier_def enc padEnd_def asIdentifier_def)
qed

definition sample_digest :: "string \<Rightarrow> 8 word list" where
  "sample_digest value = map (\<lambda>i. word_of_nat (11 * i + length value)) [0..<32]"

lemma sample_digest_length: "length (sample_digest value) = 32"
  by (simp add: sample_digest_def)

lemma derived_identifier_spec_witness:
  "deterministicIdentifier sample_digest ''dlv'' ''x'' = ''dlv_'' @ leading_digits (sample_digest ''x'') 26"
  using derived_identifier_spec [of sample_digest "''x''" "''dlv''", OF sample_digest_length] by simp

end
