(* ===== verification/Canonical_Json.thy ===== *)
theory Canonical_Json
  imports Domain "HOL-Library.List_Lexorder" "HOL-Library.Char_ord"
begin

text \<open>
  The canonical text of a JSON value: \<open>stableJson\<close> of \<open>packages/application/src/index.ts\<close> and \<open>stable\<close>
  of \<open>packages/transformation/src/index.ts\<close>, which are the same function. The hashes by which the program
  tells equal request bodies and equal payloads are taken of this text. How JavaScript prints a number
  is a parameter.
\<close>

section \<open>The serialisation\<close>

fun join :: "string \<Rightarrow> string list \<Rightarrow> string" where
  "join sep [] = []"
| "join sep [x] = x"
| "join sep (x # y # ys) = x @ sep @ join sep (y # ys)"

definition hex_digit :: "nat \<Rightarrow> char" where
  "hex_digit n = ''0123456789abcdef'' ! n"

text \<open>\<open>JSON.stringify\<close> of a string.\<close>

definition json_escape :: "char \<Rightarrow> string" where
  "json_escape c =
     (if c = CHR 0x22 then [CHR 0x5C, CHR 0x22]
      else if c = CHR 0x5C then [CHR 0x5C, CHR 0x5C]
      else if c = CHR 0x08 then [CHR 0x5C, CHR ''b'']
      else if c = CHR 0x0C then [CHR 0x5C, CHR ''f'']
      else if c = CHR 0x0A then [CHR 0x5C, CHR ''n'']
      else if c = CHR 0x0D then [CHR 0x5C, CHR ''r'']
      else if c = CHR 0x09 then [CHR 0x5C, CHR ''t'']
      else if of_char c < (32::nat)
      then [CHR 0x5C, CHR ''u'', CHR ''0'', CHR ''0'', hex_digit (of_char c div 16), hex_digit (of_char c mod 16)]
      else [c])"

definition json_quote :: "string \<Rightarrow> string" where
  "json_quote s = [CHR 0x22] @ concat (map json_escape s) @ [CHR 0x22]"

fun stableJson :: "(rat \<Rightarrow> string) \<Rightarrow> json \<Rightarrow> string" where
  "stableJson num JNull = ''null''"
| "stableJson num (JBool b) = (if b then ''true'' else ''false'')"
| "stableJson num (JNum q) = num q"
| "stableJson num (JStr s) = json_quote s"
| "stableJson num (JArr xs) = ''['' @ join '','' (map (stableJson num) xs) @ '']''"
| "stableJson num (JObj fs) = ''{'' @ join '','' (map (\<lambda>(k, t). json_quote k @ '':'' @ t)
     (sort_key fst (map (\<lambda>(k, v). (k, stableJson num v)) fs))) @ ''}''"

section \<open>Values up to the order of their keys\<close>

fun normal :: "json \<Rightarrow> json" where
  "normal (JArr xs) = JArr (map normal xs)"
| "normal (JObj fs) = JObj (sort_key fst (map (\<lambda>(k, v). (k, normal v)) fs))"
| "normal v = v"

fun render :: "(rat \<Rightarrow> string) \<Rightarrow> json \<Rightarrow> string" where
  "render num JNull = ''null''"
| "render num (JBool b) = (if b then ''true'' else ''false'')"
| "render num (JNum q) = num q"
| "render num (JStr s) = json_quote s"
| "render num (JArr xs) = ''['' @ join '','' (map (render num) xs) @ '']''"
| "render num (JObj fs) = ''{'' @ join '','' (map (\<lambda>(k, v). json_quote k @ '':'' @ render num v) fs) @ ''}''"

lemma insort_map_snd:
  "insort_key fst (k, f v) (map (\<lambda>(k, v). (k, f v)) xs) = map (\<lambda>(k, v). (k, f v)) (insort_key fst (k, v) xs)"
  by (induction xs) auto

lemma sort_map_snd:
  "sort_key fst (map (\<lambda>(k, v). (k, f v)) fs) = map (\<lambda>(k, v). (k, f v)) (sort_key fst fs)"
  by (induction fs) (auto simp: insort_map_snd)

lemma stable_render: "stableJson num v = render num (normal v)"
proof (induction v)
  case (JArr xs)
  then show ?case by (simp add: comp_def cong: map_cong)
next
  case (JObj fs)
  then have "map (\<lambda>(k, v). (k, stableJson num v)) fs = map (\<lambda>(k, v). (k, render num (normal v))) fs"
    by (auto simp: in_set_conv_nth)
  also have "\<dots> = map (\<lambda>(k, v). (k, render num v)) (map (\<lambda>(k, v). (k, normal v)) fs)"
    by (auto simp: comp_def)
  finally have texts: "map (\<lambda>(k, v). (k, stableJson num v)) fs
      = map (\<lambda>(k, v). (k, render num v)) (map (\<lambda>(k, v). (k, normal v)) fs)" .
  have "stableJson num (JObj fs) = ''{'' @ join '','' (map (\<lambda>(k, t). json_quote k @ '':'' @ t)
      (map (\<lambda>(k, v). (k, render num v)) (sort_key fst (map (\<lambda>(k, v). (k, normal v)) fs)))) @ ''}''"
    by (simp only: stableJson.simps texts sort_map_snd)
  then show ?case by (simp add: comp_def case_prod_unfold)
qed auto

section \<open>Reading a text back\<close>

text \<open>
  What the text of a value is followed by, inside an array or an object or at its end. The printer of
  numbers prints different numbers differently, with the characters of a number only.
\<close>

definition number_char :: "char \<Rightarrow> bool" where
  "number_char c \<longleftrightarrow> c \<in> set ''0123456789+-.e''"

definition ends_value :: "string \<Rightarrow> bool" where
  "ends_value r \<longleftrightarrow> r = [] \<or> hd r \<in> set '',]}''"

definition prints_numbers :: "(rat \<Rightarrow> string) \<Rightarrow> bool" where
  "prints_numbers num \<longleftrightarrow> inj num \<and> (\<forall>q. num q \<noteq> [] \<and> list_all number_char (num q))"

definition unhex :: "char \<Rightarrow> nat" where
  "unhex c = (if of_char c < (58::nat) then of_char c - 48 else of_char c - 87)"

text \<open>One character of a quoted string, read back.\<close>

fun unescape :: "string \<Rightarrow> (char \<times> string) option" where
  "unescape [] = None"
| "unescape (c # r) = (if c \<noteq> CHR 0x5C then Some (c, r) else
     (case r of
        [] \<Rightarrow> None
      | x # u \<Rightarrow>
          if x = CHR ''b'' then Some (CHR 0x08, u) else if x = CHR ''f'' then Some (CHR 0x0C, u)
          else if x = CHR ''n'' then Some (CHR 0x0A, u) else if x = CHR ''r'' then Some (CHR 0x0D, u)
          else if x = CHR ''t'' then Some (CHR 0x09, u)
          else if x = CHR ''u''
          then (case u of _ # _ # h # l # v \<Rightarrow> Some (char_of (16 * unhex h + unhex l), v) | _ \<Rightarrow> None)
          else Some (x, u)))"

lemma unhex_hex: "n < 16 \<Longrightarrow> unhex (hex_digit n) = n"
proof -
  assume "n < 16"
  then have "n \<in> set [0..<16]" by simp
  moreover have "\<forall>m \<in> set [0..<16]. unhex (hex_digit m) = m" by code_simp
  ultimately show ?thesis by blast
qed

lemma unescape_escape: "unescape (json_escape c @ r) = Some (c, r)"
proof (cases "of_char c < (32::nat)")
  case True
  then have "(of_char c div 16 :: nat) < 16" "(of_char c mod 16 :: nat) < 16" by auto
  then have "char_of (16 * unhex (hex_digit (of_char c div 16)) + unhex (hex_digit (of_char c mod 16))) = c"
    by (simp add: unhex_hex)
  then show ?thesis by (simp add: json_escape_def)
next
  case False
  then show ?thesis by (simp add: json_escape_def)
qed

lemma escape_unique:
  assumes "json_escape c @ r = json_escape d @ r'"
  shows "c = d \<and> r = r'"
proof -
  have "Some (c, r) = Some (d, r')"
    using unescape_escape [of c r] unescape_escape [of d r'] unfolding assms by (rule trans [OF sym])
  then show ?thesis by simp
qed

lemma escape_not_quote: "json_escape c @ r \<noteq> CHR 0x22 # r'"
  by (simp add: json_escape_def)

lemma quote_unique: "json_quote s @ r = json_quote t @ r' \<Longrightarrow> s = t \<and> r = r'"
proof -
  have "concat (map json_escape s) @ CHR 0x22 # r = concat (map json_escape t) @ CHR 0x22 # r' \<Longrightarrow> s = t \<and> r = r'"
  proof (induction s arbitrary: t)
    case Nil
    then show ?case by (cases t) (auto simp: escape_not_quote [symmetric])
  next
    case (Cons c s)
    show ?case
    proof (cases t)
      case Nil
      with Cons.prems show ?thesis by (simp add: escape_not_quote)
    next
      case (Cons d u)
      with Cons.prems have "json_escape c @ (concat (map json_escape s) @ CHR 0x22 # r)
          = json_escape d @ (concat (map json_escape u) @ CHR 0x22 # r')" by simp
      from escape_unique [OF this] Cons.IH [of u] Cons show ?thesis by auto
    qed
  qed
  then show "json_quote s @ r = json_quote t @ r' \<Longrightarrow> s = t \<and> r = r'"
    by (simp add: json_quote_def)
qed

lemma number_unique:
  assumes "prints_numbers num" and "num p @ r = num q @ r'" and "ends_value r" and "ends_value r'"
  shows "p = q \<and> r = r'"
proof -
  have stop: "takeWhile number_char (xs @ u) = xs" if "list_all number_char xs" "ends_value u" for xs u
    using that by (cases u) (auto simp: takeWhile_append list_all_iff ends_value_def number_char_def)
  have "num p = num q"
    using assms stop [of "num p" r] stop [of "num q" r'] by (simp add: prints_numbers_def)
  with assms show ?thesis by (auto simp: prints_numbers_def dest: injD)
qed

lemma join_Cons: "join '','' (x # xs) = x @ concat (map (\<lambda>y. CHR '','' # y) xs)"
  by (induction xs arbitrary: x) auto

lemma tail_unique:
  assumes uniq: "\<And>x y u u'. x \<in> set xs \<Longrightarrow> ends_value u \<Longrightarrow> ends_value u' \<Longrightarrow> f x @ u = f y @ u' \<Longrightarrow> x = y \<and> u = u'"
    and c: "c \<in> set '']}''"
    and eq: "concat (map (\<lambda>x. CHR '','' # f x) xs) @ c # r = concat (map (\<lambda>y. CHR '','' # f y) ys) @ c # r'"
  shows "xs = ys \<and> r = r'"
  using uniq eq
proof (induction xs arbitrary: ys)
  case Nil
  then show ?case using c by (cases ys) auto
next
  case (Cons x xs)
  show ?case
  proof (cases ys)
    case Nil
    with Cons.prems(2) c show ?thesis by auto
  next
    case (Cons y zs)
    let ?u = "concat (map (\<lambda>x. CHR '','' # f x) xs) @ c # r"
    let ?v = "concat (map (\<lambda>x. CHR '','' # f x) zs) @ c # r'"
    have ends: "ends_value ?u" "ends_value ?v" using c by (cases xs; cases zs; auto simp: ends_value_def)+
    have "f x @ ?u = f y @ ?v" using Cons.prems(2) Cons by simp
    with Cons.prems(1) ends have "x = y \<and> ?u = ?v" by (metis list.set_intros(1))
    moreover have "xs = zs \<and> r = r'"
      by (rule Cons.IH) (use Cons.prems(1) calculation in auto)
    ultimately show ?thesis using Cons by simp
  qed
qed

lemma join_unique:
  assumes uniq: "\<And>x y u u'. x \<in> set xs \<Longrightarrow> ends_value u \<Longrightarrow> ends_value u' \<Longrightarrow> f x @ u = f y @ u' \<Longrightarrow> x = y \<and> u = u'"
    and c: "c \<in> set '']}''" and start: "\<And>y. f y \<noteq> [] \<and> hd (f y) \<noteq> c"
    and eq: "join '','' (map f xs) @ c # r = join '','' (map f ys) @ c # r'"
  shows "xs = ys \<and> r = r'"
proof (cases xs)
  case Nil
  show ?thesis
  proof (cases ys)
    case (Cons y zs)
    have "hd (f y @ concat (map (\<lambda>x. CHR '','' # f x) zs) @ c # r') = c"
      using eq Nil Cons by (simp add: join_Cons comp_def) (metis list.sel(1))
    with start [of y] show ?thesis by simp
  qed (use eq Nil in simp)
next
  case (Cons x us)
  show ?thesis
  proof (cases ys)
    case Nil
    have "hd (f x @ concat (map (\<lambda>x. CHR '','' # f x) us) @ c # r) = c"
      using eq Nil Cons by (simp add: join_Cons comp_def)
    with start [of x] show ?thesis by simp
  next
    case Cons2: (Cons y zs)
    have "concat (map (\<lambda>x. CHR '','' # f x) xs) @ c # r = concat (map (\<lambda>y. CHR '','' # f y) ys) @ c # r'"
      using eq Cons Cons2 by (simp add: join_Cons comp_def)
    then show ?thesis using tail_unique [of xs f c r ys r'] uniq c by blast
  qed
qed

text \<open>The first character tells the kind of a value.\<close>

lemma number_start: "prints_numbers num \<Longrightarrow> \<exists>d u. num q = d # u \<and> number_char d"
  by (cases "num q") (auto simp: prints_numbers_def list_all_iff dest: spec [of _ q])

lemma render_start:
  assumes "prints_numbers num"
  shows "render num v \<noteq> [] \<and> hd (render num v) \<noteq> CHR '']''"
proof (cases v)
  case (JNum q)
  with number_start [OF assms, of q] show ?thesis by (auto simp: number_char_def)
qed (auto simp: json_quote_def)

definition kind :: "json \<Rightarrow> nat" where
  "kind v = (case v of JNull \<Rightarrow> 0 | JBool b \<Rightarrow> if b then 1 else 2 | JNum q \<Rightarrow> 3 | JStr s \<Rightarrow> 4
     | JArr xs \<Rightarrow> 5 | JObj fs \<Rightarrow> 6)"

definition first_kind :: "char \<Rightarrow> nat" where
  "first_kind c = (if c = CHR ''n'' then 0 else if c = CHR ''t'' then 1 else if c = CHR ''f'' then 2
     else if c = CHR 0x22 then 4 else if c = CHR ''['' then 5 else if c = CHR ''{'' then 6 else 3)"

lemma kind_by_first:
  assumes "prints_numbers num"
  shows "first_kind (hd (render num v @ r)) = kind v"
proof (cases v)
  case (JNum q)
  obtain d u where d: "num q = d # u" "number_char d" using number_start [OF assms] by blast
  then have "first_kind d = 3" by (auto simp: first_kind_def number_char_def)
  with d JNum show ?thesis by (simp add: kind_def)
qed (auto simp: kind_def first_kind_def json_quote_def)

lemma render_unique:
  assumes num: "prints_numbers num"
  shows "ends_value r \<Longrightarrow> ends_value r' \<Longrightarrow> render num v @ r = render num w @ r' \<Longrightarrow> v = w \<and> r = r'"
proof (induction v arbitrary: w r r')
  case JNull
  then have "kind w = 0" using kind_by_first [OF num, of w r'] kind_by_first [OF num, of JNull r]
    by (simp add: kind_def)
  with JNull show ?case by (cases w) (auto simp: kind_def split: if_splits)
next
  case (JBool b)
  then have "kind w = kind (JBool b)" using kind_by_first [OF num, of w r'] kind_by_first [OF num, of "JBool b" r]
    by simp
  with JBool show ?case by (cases w) (auto simp: kind_def split: if_splits)
next
  case (JNum q)
  then have "kind w = 3" using kind_by_first [OF num, of w r'] kind_by_first [OF num, of "JNum q" r]
    by (simp add: kind_def)
  with JNum number_unique [OF num _ JNum.prems(1,2)] show ?case
    by (cases w) (auto simp: kind_def split: if_splits)
next
  case (JStr s)
  then have "kind w = 4" using kind_by_first [OF num, of w r'] kind_by_first [OF num, of "JStr s" r]
    by (simp add: kind_def)
  with JStr quote_unique [of s r _ r'] show ?case
    by (cases w) (auto simp: kind_def split: if_splits)
next
  case (JArr xs)
  then have "kind w = 5" using kind_by_first [OF num, of w r'] kind_by_first [OF num, of "JArr xs" r]
    by (simp add: kind_def)
  then obtain ys where w: "w = JArr ys" by (cases w) (auto simp: kind_def split: if_splits)
  have "xs = ys \<and> r = r'"
  proof (rule join_unique [where f = "render num" and c = "CHR '']''"])
    show "x = y \<and> u = u'" if "x \<in> set xs" "ends_value u" "ends_value u'"
        "render num x @ u = render num y @ u'" for x y u u'
      using JArr.IH [OF that] .
    show "render num y \<noteq> [] \<and> hd (render num y) \<noteq> CHR '']''" for y by (rule render_start [OF num])
    show "join '','' (map (render num) xs) @ CHR '']'' # r = join '','' (map (render num) ys) @ CHR '']'' # r'"
      using JArr.prems(3) w by simp
  qed simp
  with w show ?case by simp
next
  case (JObj fs)
  then have "kind w = 6" using kind_by_first [OF num, of w r'] kind_by_first [OF num, of "JObj fs" r]
    by (simp add: kind_def)
  then obtain gs where w: "w = JObj gs" by (cases w) (auto simp: kind_def split: if_splits)
  let ?member = "\<lambda>p. json_quote (fst p) @ CHR '':'' # render num (snd p)"
  have "fs = gs \<and> r = r'"
  proof (rule join_unique [where f = ?member and c = "CHR ''}''"])
    show "x = y \<and> u = u'" if x: "x \<in> set fs" "ends_value u" "ends_value u'" "?member x @ u = ?member y @ u'" for x y u u'
    proof -
      from x(4) have "json_quote (fst x) @ CHR '':'' # render num (snd x) @ u
          = json_quote (fst y) @ CHR '':'' # render num (snd y) @ u'" by simp
      from quote_unique [OF this] have k: "fst x = fst y" and v: "render num (snd x) @ u = render num (snd y) @ u'"
        by auto
      have "snd x = snd y \<and> u = u'" by (rule JObj.IH [OF x(1) _ x(2,3) v]) (simp add: snds.simps)
      with k show ?thesis by (simp add: prod_eq_iff)
    qed
    show "?member y \<noteq> [] \<and> hd (?member y) \<noteq> CHR ''}''" for y by (simp add: json_quote_def)
    show "join '','' (map ?member fs) @ CHR ''}'' # r = join '','' (map ?member gs) @ CHR ''}'' # r'"
      using JObj.prems(3) w by (simp add: case_prod_unfold)
  qed simp
  with w show ?case by simp
qed

lemma canonical_text:
  assumes "prints_numbers num"
  shows "stableJson num v = stableJson num w \<longleftrightarrow> normal v = normal w"
proof
  assume "stableJson num v = stableJson num w"
  then have "render num (normal v) @ [] = render num (normal w) @ []" by (simp add: stable_render)
  then show "normal v = normal w"
    using render_unique [OF assms, of "[]" "[]" "normal v" "normal w"] by (simp add: ends_value_def)
next
  assume "normal v = normal w"
  then show "stableJson num v = stableJson num w" by (simp add: stable_render)
qed

text \<open>
  C15. The canonical text of a JSON value says which value it is, up to the order of the keys of its
  objects, and nothing more: two values have one text exactly when they are equal after their keys are
  sorted. So the hash that decides whether a repeated request has the same body compares the bodies
  themselves, as far as SHA-256 has no collision; neither escapes nor nesting make two bodies alike.
\<close>

theorem canonical_text_identifies:
  assumes "prints_numbers num"
  shows "stableJson num v = stableJson num w \<longleftrightarrow> normal v = normal w"
  using canonical_text [OF assms] .

text \<open>A printer for the witness: a fraction as its numerator, an \<open>e\<close> and its denominator, in unary.\<close>

definition unary :: "rat \<Rightarrow> string" where
  "unary q = (case quotient_of q of (a, b) \<Rightarrow>
     (if a < 0 then ''-'' else ''+'') @ replicate (nat \<bar>a\<bar>) (CHR ''1'') @ ''e'' @ replicate (nat b) (CHR ''1''))"

lemma ones_unique:
  assumes "replicate m (CHR ''1'') @ CHR ''e'' # u = replicate n (CHR ''1'') @ CHR ''e'' # v"
  shows "m = n \<and> u = v"
  using assms
proof (induction m arbitrary: n)
  case 0
  then show ?case by (cases n) auto
next
  case (Suc m)
  then show ?case by (cases n) auto
qed

lemma unary_prints: "prints_numbers unary"
proof -
  have "p = q" if "unary p = unary q" for p q
  proof -
    obtain a b where p: "quotient_of p = (a, b)" by (cases "quotient_of p")
    obtain c d where q: "quotient_of q = (c, d)" by (cases "quotient_of q")
    have pos: "0 < b" "0 < d" using p q quotient_of_denom_pos by blast+
    from that have sgn: "(a < 0) = (c < 0)"
      and rest: "replicate (nat \<bar>a\<bar>) (CHR ''1'') @ CHR ''e'' # replicate (nat b) (CHR ''1'')
        = replicate (nat \<bar>c\<bar>) (CHR ''1'') @ CHR ''e'' # replicate (nat d) (CHR ''1'')"
      by (auto simp: unary_def p q split: if_splits)
    from ones_unique [OF rest] have "nat \<bar>a\<bar> = nat \<bar>c\<bar>" "nat b = nat d" by auto
    with sgn pos have "a = c" "b = d" by linarith+
    then show "p = q" using p q quotient_of_inject by metis
  qed
  then have "inj unary" by (rule injI)
  then show ?thesis
    by (auto simp: prints_numbers_def unary_def number_char_def list_all_iff split: prod.splits)
qed

lemma canonical_text_identifies_witness:
  "stableJson unary (JObj [(''b'', JArr [JNull]), (''a'', JStr ''x'')])
     = stableJson unary (JObj [(''a'', JStr ''x''), (''b'', JArr [JNull])])
   \<and> stableJson unary (JStr ''a'') \<noteq> stableJson unary (JStr ''b'')"
  using canonical_text_identifies [OF unary_prints, of "JObj [(''b'', JArr [JNull]), (''a'', JStr ''x'')]"
      "JObj [(''a'', JStr ''x''), (''b'', JArr [JNull])]"]
    canonical_text_identifies [OF unary_prints, of "JStr ''a''" "JStr ''b''"]
  by (simp add: less_list_code)

end
