(* ===== verification/Services.thy ===== *)
theory Services
  imports Table_Safety Event_Runs Identifiers Canonical_Json Iso_Time
begin

text \<open>
  What the application services of \<open>packages/application/src/index.ts\<close> are given to work with
  (\<open>EventIngestionDependencies\<close>, \<open>RoutingDependencies\<close> and the others), the hashes they take, and the
  first of them, \<open>EventIngestionService\<close>. In the running system every repository they are given is the
  one \<open>DynamoPersistence\<close>, so a service has a database client and the shard count in their place; its other
  dependencies are the fields of \<open>services\<close>. Counting metrics (\<open>telemetry.count\<close>) is left out.
\<close>

section \<open>Dependencies\<close>

text \<open>
  \<open>sv_next\<close> is \<open>ids.next\<close>, \<open>sv_now\<close> is \<open>clock.now\<close>; \<open>sv_sha256\<close> is the digest of \<open>node:crypto\<close>, \<open>sv_number\<close>
  prints a number as \<open>JSON.stringify\<close> does, \<open>sv_url path base\<close> is \<open>new URL(path, base).toString()\<close>, which throws on an
  invalid URL, and \<open>sv_execute\<close> the injected \<open>execute\<close> of a transformation, which returns the output and its hash.
\<close>

record 'w services =
  sv_db :: "'w dynamo"
  sv_shards :: nat
  sv_next :: "string \<Rightarrow> ('w, string) op"
  sv_now :: "'w \<Rightarrow> instant"
  sv_traceparent :: "'w \<Rightarrow> string option"
  sv_sha256 :: "string \<Rightarrow> 8 word list"
  sv_number :: "rat \<Rightarrow> string"
  sv_url :: "string \<Rightarrow> string \<Rightarrow> js_error + string"
  sv_execute :: "json \<Rightarrow> json \<Rightarrow> js_error + (json \<times> string)"
  sv_retentionDays :: int
  sv_supportedEventTypes :: "string list"

section \<open>Hashes\<close>

text \<open>\<open>digest("hex")\<close> and \<open>digest("base64url")\<close>.\<close>

definition hex_byte :: "8 word \<Rightarrow> string" where
  "hex_byte b = [hex_digit (unat b div 16), hex_digit (unat b mod 16)]"

definition hex :: "8 word list \<Rightarrow> string" where
  "hex bytes = concat (map hex_byte bytes)"

definition base64_digit :: "nat \<Rightarrow> char" where
  "base64_digit n = ''ABCDEFGHIJKLMNOPQRSTUVWXYZabcdefghijklmnopqrstuvwxyz0123456789-_'' ! (n mod 64)"

fun base64url :: "8 word list \<Rightarrow> string" where
  "base64url (a # b # c # bytes) =
     (let n = unat a * 65536 + unat b * 256 + unat c
      in map (\<lambda>k. base64_digit (n div k)) [262144, 4096, 64, 1] @ base64url bytes)"
| "base64url [a, b] =
     (let n = unat a * 65536 + unat b * 256 in map (\<lambda>k. base64_digit (n div k)) [262144, 4096, 64])"
| "base64url [a] = (let n = unat a * 65536 in map (\<lambda>k. base64_digit (n div k)) [262144, 4096])"
| "base64url [] = []"

definition canonicalJsonHash :: "('w, 'z) services_scheme \<Rightarrow> json \<Rightarrow> string" where
  "canonicalJsonHash S v = hex (sv_sha256 S (stableJson (sv_number S) v))"

lemma hex_digit_inj: "hex_digit m = hex_digit n \<Longrightarrow> m < 16 \<Longrightarrow> n < 16 \<Longrightarrow> m = n"
  by (metis unhex_hex)

lemma hex_byte_inj:
  assumes "hex_byte a = hex_byte b"
  shows "a = b"
proof -
  have bound: "unat x div 16 < 16" "unat x mod 16 < 16" for x :: "8 word"
    using unsigned_less [of x] by (simp_all add: div_less_iff_less_mult)
  have "hex_digit (unat a div 16) = hex_digit (unat b div 16)" "hex_digit (unat a mod 16) = hex_digit (unat b mod 16)"
    using assms by (simp_all only: hex_byte_def list.inject)
  then have "unat a div 16 = unat b div 16" "unat a mod 16 = unat b mod 16"
    using bound by (blast intro: hex_digit_inj)+
  then have "unat a = unat b" by (metis div_mult_mod_eq)
  then show "a = b" by (simp only: word_unat_eq_iff)
qed

lemma hex_inj: "hex xs = hex ys \<Longrightarrow> xs = ys"
proof (induction xs arbitrary: ys)
  case Nil
  then show ?case by (cases ys) (simp_all add: hex_def hex_byte_def)
next
  case (Cons x xs)
  then obtain y zs where ys: "ys = y # zs" by (cases ys) (auto simp: hex_def hex_byte_def)
  with Cons.prems have "hex_byte x @ hex xs = hex_byte y @ hex zs" by (simp add: hex_def)
  then have "hex_byte x = hex_byte y" "hex xs = hex zs" by (simp_all add: hex_byte_def)
  with Cons.IH ys show ?case by (auto dest: hex_byte_inj)
qed

section \<open>Accepting an event\<close>

record ingest_input =
  in_eventType :: string
  in_occurredAt :: string
  in_subject :: "string \<times> string"
  in_data :: json
  in_metadata :: json
  in_idempotencyKey :: string

definition subject_json :: "string \<times> string \<Rightarrow> json" where
  "subject_json s = JObj [(''type'', JStr (fst s)), (''id'', JStr (snd s))]"

definition canonicalInput :: "ingest_input \<Rightarrow> json" where
  "canonicalInput inp = JObj
     [(''eventType'', JStr (in_eventType inp)), (''occurredAt'', JStr (in_occurredAt inp)),
      (''subject'', subject_json (in_subject inp)), (''data'', in_data inp), (''metadata'', in_metadata inp)]"

definition no_outcome :: outcome_counters where
  "no_outcome = \<lparr>oc_routingComplete = False, oc_totalDeliveries = 0, oc_terminalDeliveries = 0,
     oc_successfulDeliveries = 0, oc_failedTerminalDeliveries = 0, oc_deadLetteredDeliveries = 0\<rparr>"

definition ingestedEvent ::
    "('w, 'z) services_scheme \<Rightarrow> tenant_context \<Rightarrow> ingest_input \<Rightarrow> instant \<Rightarrow> string \<Rightarrow> string \<Rightarrow> canonical_event" where
  "ingestedEvent S cx inp now eventId correlationId =
     \<lparr>ev_eventId = eventId, ev_tenantId = cx_tenantId cx, ev_producerClientId = cx_actorId cx,
      ev_correlationId = correlationId, ev_eventType = in_eventType inp, ev_occurredAt = in_occurredAt inp,
      ev_acceptedAt = now, ev_subject = in_subject inp, ev_data = in_data inp, ev_metadata = in_metadata inp,
      ev_payloadHash = canonicalJsonHash S (canonicalInput inp), ev_status = Ev_Accepted,
      ev_outcome = no_outcome, ev_version = 1, ev_expiresAt = Iso (now + days (sv_retentionDays S))\<rparr>"

definition ingestionOutbox ::
    "tenant_context \<Rightarrow> instant \<Rightarrow> string \<Rightarrow> string \<Rightarrow> string \<Rightarrow> string option \<Rightarrow> outbox_record" where
  "ingestionOutbox cx now eventId correlationId outboxId trace =
     \<lparr>ob_outboxId = outboxId, ob_kind = ROUTE_EVENT, ob_tenantId = cx_tenantId cx, ob_aggregateType = EVENT,
      ob_aggregateId = eventId, ob_target = ROUTING_QUEUE,
      ob_payload = \<lparr>pl_eventId = Some eventId, pl_deliveryId = None, pl_destinationId = None,
        pl_correlationId = correlationId, pl_notBefore = None, pl_cause = Some INITIAL\<rparr>,
      ob_createdAt = now, ob_attempts = 0, ob_publishedAt = None, ob_traceparent = trace\<rparr>"

definition ingestionRequest ::
    "('w, 'z) services_scheme \<Rightarrow> tenant_context \<Rightarrow> ingest_input \<Rightarrow> instant \<Rightarrow> string \<Rightarrow> string \<Rightarrow> string
       \<Rightarrow> string option \<Rightarrow> accept_input" where
  "ingestionRequest S cx inp now eventId correlationId outboxId trace =
     \<lparr>ac_context = cx\<lparr>cx_correlationId := correlationId\<rparr>,
      ac_event = ingestedEvent S cx inp now eventId correlationId,
      ac_requestBodyHash = canonicalJsonHash S (canonicalInput inp),
      ac_idempotencyKeyHash = hex (sv_sha256 S (in_idempotencyKey inp)), ac_responseStatus = 202,
      ac_outbox = ingestionOutbox cx now eventId correlationId outboxId trace\<rparr>"

text \<open>What the service makes of the answer: the event, and whether it had been accepted before.\<close>

definition ingestionAnswer :: "accept_result \<Rightarrow> js_error + (canonical_event \<times> bool)" where
  "ingestionAnswer r = (case r of
      Conflict \<Rightarrow> Inl (Error ''IDEMPOTENCY_KEY_REUSED'')
    | Accepted e \<Rightarrow> Inr (e, False)
    | Duplicate e \<Rightarrow> Inr (e, True))"

definition ingest ::
    "('w, 'z) services_scheme \<Rightarrow> tenant_context \<Rightarrow> ingest_input \<Rightarrow> ('w, canonical_event \<times> bool) op" where
  "ingest S cx inp =
     (if in_eventType inp \<notin> set (sv_supportedEventTypes S) then throwM (Error ''UNSUPPORTED_EVENT_TYPE'')
      else bindM (readM (sv_now S)) (\<lambda>now.
        bindM (sv_next S ''evt'') (\<lambda>eventId.
        bindM (sv_next S ''cor'') (\<lambda>correlationId.
        bindM (sv_next S ''obx'') (\<lambda>outboxId.
        bindM (readM (sv_traceparent S)) (\<lambda>trace.
        bindM (accept (sv_db S) (sv_shards S)
                 (ingestionRequest S cx inp now eventId correlationId outboxId trace))
          (\<lambda>result. liftM (ingestionAnswer result))))))))"

section \<open>What the services rely on\<close>

text \<open>
  A generator of identifiers does not touch the table. \<open>alone_services\<close> adds, for a process that is alone on
  its table, that it answers and takes no time.
\<close>

locale safe_services = safe_table "sv_db S" view
  for S :: "('w, 'z) services_scheme" and view :: "'w \<Rightarrow> dtable" +
  assumes next_law: "sv_next S p w = (r, w') \<Longrightarrow> view w' = view w"
begin

lemma hoare_next: "(\<And>a u. P u \<Longrightarrow> Q a u) \<Longrightarrow> (\<And>u. P u \<Longrightarrow> E u) \<Longrightarrow> hoare view P (sv_next S p) Q E"
  by (rule hoareI) (auto dest: next_law split: sum.split)

lemma next_then:
  "(\<And>a. hoare view P (f a) Q E) \<Longrightarrow> (\<And>u. P u \<Longrightarrow> E u) \<Longrightarrow> hoare view P (bindM (sv_next S p) f) Q E"
  by (rule hoare_bind [where R = "\<lambda>_. P"]) (auto intro: hoare_next)

lemma readM_then: "(\<And>a. hoare view P (f a) Q E) \<Longrightarrow> hoare view P (bindM (readM g) f) Q E"
  by (rule hoare_bind [where R = "\<lambda>_. P"]) (auto intro: hoare_read_world)

lemma ingest_keeps: "hoare view (since s0) (ingest S cx inp) (\<lambda>_. since s0) (since s0)"
proof -
  have request: "fresh_event (ac_event (ingestionRequest S cx inp now eventId correlationId outboxId trace))"
    "ev_tenantId (ac_event (ingestionRequest S cx inp now eventId correlationId outboxId trace))
       = cx_tenantId (ac_context (ingestionRequest S cx inp now eventId correlationId outboxId trace))"
    for now eventId correlationId outboxId trace
    by (simp_all add: fresh_event_def ingestionRequest_def ingestedEvent_def no_outcome_def)
  show ?thesis
    unfolding ingest_def
    by (auto intro!: throw_keeps readM_then next_then hoare_bind [OF accept_keeps [OF request]] hoare_lift)
qed

end

text \<open>No other client writes, but calls may fail; and then a service that always answers.\<close>

locale quiet_services = dynamo_table "sv_db S" view "(=)"
  for S :: "('w, 'z) services_scheme" and view :: "'w \<Rightarrow> dtable" +
  assumes next_quiet: "sv_next S p w = (r, w') \<Longrightarrow> view w' = view w"
begin

lemma stable_quiet [simp]: "stable (=) P"
  by (simp add: stable_def)

lemma next_quiet_then:
  "(\<And>a. hoare view P (f a) Q E) \<Longrightarrow> (\<And>u. P u \<Longrightarrow> E u) \<Longrightarrow> hoare view P (bindM (sv_next S p) f) Q E"
  by (rule hoare_bind [where R = "\<lambda>_. P"]) (auto intro!: hoareI dest: next_quiet split: sum.split)

lemma readM_quiet_then: "(\<And>a. hoare view P (f a) Q E) \<Longrightarrow> hoare view P (bindM (readM g) f) Q E"
  by (rule hoare_bind [where R = "\<lambda>_. P"]) (auto intro: hoare_read_world)

text \<open>A read returns what is there, or nothing if that has expired.\<close>

lemma quiet_core_then:
  assumes "\<And>x now. hoare view (\<lambda>u. P u \<and> u k = x) (g (f (live_item x now))) Q E" and "\<And>u. P u \<Longrightarrow> E u"
  shows "hoare view P (bindM (mapM f (getCore (sv_db S) k)) g) Q E"
proof (rule hoare_bind [where R = "\<lambda>r u. \<exists>x now. r = f (live_item x now) \<and> P u \<and> u k = x"])
  show "hoare view P (mapM f (getCore (sv_db S) k)) (\<lambda>r u. \<exists>x now. r = f (live_item x now) \<and> P u \<and> u k = x) E"
  proof (rule hoareI)
    fix w r w'
    assume P: "P (view w)" and run: "mapM f (getCore (sv_db S) k) w = (r, w')"
    obtain g w1 where g: "db_get (sv_db S) k w = (g, w1)" by (cases "db_get (sv_db S) k w")
    from get_law [OF g] P run g assms(2)
    show "case r of Inr r \<Rightarrow> \<exists>x now. r = f (live_item x now) \<and> P (view w') \<and> view w' k = x | Inl e \<Rightarrow> E (view w')"
      by (cases g) (auto simp: mapM_def getCore_def bindM_def returnM_def)
  qed
  show "hoare view (\<lambda>u. \<exists>x now. r = f (live_item x now) \<and> P u \<and> u k = x) (g r) Q E" for r
    by (intro hoare_ex hoare_conj_pure) (simp add: assms(1))
qed

lemma quiet_write:
  assumes "\<And>u. P u \<Longrightarrow> tx_ok ops u \<Longrightarrow> Q True (tx_apply ops u)" "\<And>u. P u \<Longrightarrow> Q False u"
    and "\<And>u. P u \<Longrightarrow> E u" "\<And>u. P u \<Longrightarrow> tx_ok ops u \<Longrightarrow> E (tx_apply ops u)"
  shows "hoare view P (db_write (sv_db S) ops) Q E"
  using assms by (intro hoare_write) simp_all

end

locale alone_services = dynamo_alone "sv_db S" view
  for S :: "('w, 'z) services_scheme" and view :: "'w \<Rightarrow> dtable" +
  assumes next_alone: "\<exists>x w'. sv_next S p w = (Inr x, w') \<and> view w' = view w
      \<and> db_now (sv_db S) w' = db_now (sv_db S) w"
begin

lemma next_run:
  obtains x where "yields (sv_db S) view (sv_next S p) w (Inr x) (view w)"
proof -
  obtain x w' where "sv_next S p w = (Inr x, w')" "view w' = view w" "db_now (sv_db S) w' = db_now (sv_db S) w"
    using next_alone by blast
  then have "yields (sv_db S) view (sv_next S p) w (Inr x) (view w)" by (simp add: yields_def)
  then show thesis by (rule that)
qed

text \<open>What \<open>ingest\<close> answers and writes is what \<open>accept\<close> does with some request for the input.\<close>

lemma ingest_run:
  assumes "in_eventType inp \<in> set (sv_supportedEventTypes S)"
  obtains now e c b tr w1 where "view w1 = view w" "db_now (sv_db S) w1 = db_now (sv_db S) w"
    and "ingest S cx inp w = bindM (accept (sv_db S) (sv_shards S) (ingestionRequest S cx inp now e c b tr))
      (\<lambda>result. liftM (ingestionAnswer result)) w1"
proof -
  obtain e w1 where 1: "sv_next S ''evt'' w = (Inr e, w1)" "view w1 = view w" "db_now (sv_db S) w1 = db_now (sv_db S) w"
    using next_alone by blast
  obtain c w2 where 2: "sv_next S ''cor'' w1 = (Inr c, w2)" "view w2 = view w1" "db_now (sv_db S) w2 = db_now (sv_db S) w1"
    using next_alone by blast
  obtain b w3 where 3: "sv_next S ''obx'' w2 = (Inr b, w3)" "view w3 = view w2" "db_now (sv_db S) w3 = db_now (sv_db S) w2"
    using next_alone by blast
  have "ingest S cx inp w = bindM (accept (sv_db S) (sv_shards S)
      (ingestionRequest S cx inp (sv_now S w) e c b (sv_traceparent S w3)))
      (\<lambda>result. liftM (ingestionAnswer result)) w3"
    using assms 1 2 3 by (simp add: ingest_def bindM_def readM_def)
  moreover have "view w3 = view w" "db_now (sv_db S) w3 = db_now (sv_db S) w" using 1 2 3 by simp_all
  ultimately show thesis using that by blast
qed

end

sublocale alone_services \<subseteq> quiet_services S view
proof
  show "view w' = view w" if "sv_next S p w = (r, w')" for p w r w'
    using next_alone [of p w] that by auto
qed

section \<open>A request is accepted once\<close>

lemma canonical_hash_identifies:
  assumes "prints_numbers (sv_number S)"
    and "sv_sha256 S (stableJson (sv_number S) v) = sv_sha256 S (stableJson (sv_number S) u)
       \<Longrightarrow> stableJson (sv_number S) v = stableJson (sv_number S) u"
  shows "canonicalJsonHash S v = canonicalJsonHash S u \<longleftrightarrow> normal v = normal u"
proof -
  have "canonicalJsonHash S v = canonicalJsonHash S u
      \<longleftrightarrow> stableJson (sv_number S) v = stableJson (sv_number S) u"
    using assms(2) by (auto simp: canonicalJsonHash_def dest: hex_inj)
  also have "\<dots> \<longleftrightarrow> normal v = normal u"
    using canonical_text [OF assms(1)] .
  finally show ?thesis .
qed

text \<open>
  C8. A request is accepted once. When an event was accepted, its row is in the table, and a second request of
  the same producer with the same idempotency key within the seven days that the guard lives, the guard row
  being as the first request left it and everything else as it may be by then, changes nothing in the table. If its event
  type, time, subject, data and metadata are the same up to the order of the keys of JSON objects, it gets the
  event as its row is by then, marked as accepted before, whatever new identifiers were drawn for it; otherwise,
  or when the row of the event has expired or gone, it is refused with \<open>IDEMPOTENCY_KEY_REUSED\<close>. Each of the two
  requests is alone on the table while it runs, so its reads are exact. The hypothesis on SHA-256 is that the two
  canonical texts do not collide.
\<close>

theorem ingestion_once:
  assumes "alone_services S view" and "prints_numbers (sv_number S)"
    and "ingest S cx inp w = (Inr (e, False), w1)"
    and "view w2 (K_Idempotency (cx_tenantId cx) (cx_actorId cx) (hex (sv_sha256 S (in_idempotencyKey inp))))
      = view w1 (K_Idempotency (cx_tenantId cx) (cx_actorId cx) (hex (sv_sha256 S (in_idempotencyKey inp))))"
    and "db_now (sv_db S) w2 + 1000 \<le> db_now (sv_db S) w + days 7"
    and "cx_tenantId cx2 = cx_tenantId cx" "cx_actorId cx2 = cx_actorId cx"
    and "in_idempotencyKey inp2 = in_idempotencyKey inp" "in_eventType inp2 \<in> set (sv_supportedEventTypes S)"
    and "sv_sha256 S (stableJson (sv_number S) (canonicalInput inp2))
           = sv_sha256 S (stableJson (sv_number S) (canonicalInput inp))
         \<Longrightarrow> stableJson (sv_number S) (canonicalInput inp2) = stableJson (sv_number S) (canonicalInput inp)"
  shows "view w1 (K_Event (cx_tenantId cx) (ev_eventId e)) = Some (stored_event e)
    \<and> fst (ingest S cx2 inp2 w2) =
      (case as_event (live_item (view w2 (K_Event (cx_tenantId cx) (ev_eventId e))) (db_now (sv_db S) w2)) of
         None \<Rightarrow> Inl (Error ''IDEMPOTENCY_KEY_REUSED'')
       | Some e2 \<Rightarrow> if normal (canonicalInput inp2) = normal (canonicalInput inp)
           then Inr (e2, True) else Inl (Error ''IDEMPOTENCY_KEY_REUSED''))
    \<and> view (snd (ingest S cx2 inp2 w2)) = view w2"
proof -
  note alone = alone_services.axioms(1) [OF assms(1)]
  let ?accept = "accept (sv_db S) (sv_shards S)"
  have "in_eventType inp \<in> set (sv_supportedEventTypes S)"
    using assms(3) by (auto simp: ingest_def throwM_def split: if_splits)
  then obtain now ei co ob tr v1 where v1: "view v1 = view w" "db_now (sv_db S) v1 = db_now (sv_db S) w"
    and run1: "ingest S cx inp w = bindM (?accept (ingestionRequest S cx inp now ei co ob tr))
      (\<lambda>result. liftM (ingestionAnswer result)) v1"
    by (rule alone_services.ingest_run [OF assms(1)])
  let ?one = "ingestionRequest S cx inp now ei co ob tr"
  have first: "?accept ?one v1 = (Inr (Accepted e), w1)"
    using assms(3) unfolding run1
    by (auto simp: bindM_def liftM_def ingestionAnswer_def split: prod.splits sum.splits accept_result.splits)
  obtain now2 ei2 co2 ob2 tr2 v2 where v2: "view v2 = view w2" "db_now (sv_db S) v2 = db_now (sv_db S) w2"
    and run2: "ingest S cx2 inp2 w2 = bindM (?accept (ingestionRequest S cx2 inp2 now2 ei2 co2 ob2 tr2))
      (\<lambda>result. liftM (ingestionAnswer result)) v2"
    by (rule alone_services.ingest_run [OF assms(1,9)])
  let ?two = "ingestionRequest S cx2 inp2 now2 ei2 co2 ob2 tr2"
  have key: "guardKey ?one = K_Idempotency (cx_tenantId cx) (cx_actorId cx) (hex (sv_sha256 S (in_idempotencyKey inp)))"
    by (simp add: guardKey_def ingestionRequest_def ingestedEvent_def)
  have same: "guardKey ?two = guardKey ?one" "cx_tenantId (ac_context ?two) = cx_tenantId (ac_context ?one)"
    and tenant: "cx_tenantId (ac_context ?one) = cx_tenantId cx"
    using assms(6-8) by (simp_all add: guardKey_def ingestionRequest_def ingestedEvent_def)
  have body: "ac_requestBodyHash ?two = ac_requestBodyHash ?one
      \<longleftrightarrow> normal (canonicalInput inp2) = normal (canonicalInput inp)"
    using canonical_hash_identifies [OF assms(2,10)] by (simp add: ingestionRequest_def)
  have "view v2 (guardKey ?one) = view w1 (guardKey ?one)"
    and "db_now (sv_db S) v2 + 1000 \<le> db_now (sv_db S) v1 + days 7"
    using assms(4,5) v1 v2 by (simp_all add: key)
  from accept_again [OF alone first this same, where ?shards2.0 = "sv_shards S"] show ?thesis
    unfolding run2 body v2 tenant
    by (cases "?accept ?two v2")
       (auto simp: bindM_def liftM_def ingestionAnswer_def v2 split: sum.splits if_splits option.splits)
qed

text \<open>
  A service in memory for the witnesses: identifiers are numbered by the number of keys of a list, digests are
  the first 32 characters of the text, filled up.
\<close>

definition sample_sha256 :: "string \<Rightarrow> 8 word list" where
  "sample_sha256 s = map (\<lambda>c. of_nat (of_char c)) s"

definition sample_services :: "mem dynamo \<Rightarrow> mem services" where
  "sample_services db = \<lparr>sv_db = db, sv_shards = 4, sv_next = (\<lambda>p. returnM (p @ ''_1'')), sv_now = mem_clock,
     sv_traceparent = (\<lambda>_. None), sv_sha256 = sample_sha256, sv_number = unary,
     sv_url = (\<lambda>path base. Inr (base @ path)), sv_execute = (\<lambda>definition input. Inr (definition, ''h'')),
     sv_retentionDays = 30, sv_supportedEventTypes = [''order.created'']\<rparr>"

interpretation mem_services: alone_services "sample_services (mem_db ks (=))" mem_table for ks
proof -
  have "dynamo_alone (sv_db (sample_services (mem_db ks (=)))) mem_table"
    using mem_is_alone by (simp add: sample_services_def)
  then show "alone_services (sample_services (mem_db ks (=))) mem_table"
    by (simp add: alone_services_def alone_services_axioms_def sample_services_def returnM_def)
qed

interpretation mem_safe_services: safe_services "sample_services (mem_db ks safe)" mem_table for ks
proof -
  have "safe_table (sv_db (sample_services (mem_db ks safe))) mem_table"
    using mem_is_safe by (simp add: sample_services_def)
  then show "safe_services (sample_services (mem_db ks safe)) mem_table"
    by (simp add: safe_services_def safe_services_axioms_def sample_services_def returnM_def)
qed

definition sample_ingest :: ingest_input where
  "sample_ingest = \<lparr>in_eventType = ''order.created'', in_occurredAt = ''2026-01-01T00:00:00.000Z'',
     in_subject = (''order'', ''o1''), in_data = JObj [(''b'', JNull), (''a'', JBool True)], in_metadata = JObj [],
     in_idempotencyKey = ''key-1''\<rparr>"

definition sample_reordered :: ingest_input where
  "sample_reordered = sample_ingest\<lparr>in_data := JObj [(''a'', JBool True), (''b'', JNull)]\<rparr>"

lemma sample_sha256_inj: "sample_sha256 s = sample_sha256 t \<Longrightarrow> s = t"
proof -
  have "of_char c < (2::nat) ^ LENGTH(8)" for c :: char by simp
  then have "unat (of_nat (of_char c) :: 8 word) = of_char c" for c :: char
    by (simp add: unsigned_of_nat take_bit_nat_eq_self)
  then have "inj (\<lambda>c. of_nat (of_char c) :: 8 word)" by (metis (mono_tags) injI of_char_eq_iff)
  then show "sample_sha256 s = sample_sha256 t \<Longrightarrow> s = t" by (simp add: sample_sha256_def inj_map_eq_map)
qed

lemma sample_ingest_run:
  "\<exists>e w1. ingest (sample_services (mem_db [] (=))) sample_context sample_ingest (sample_world Map.empty)
       = (Inr (e, False), w1)
     \<and> ev_acceptedAt e = 2000 \<and> ev_expiresAt e = Iso (2000 + days 30) \<and> mem_clock w1 = 2000"
proof -
  let ?r = "ingestionRequest (sample_services (mem_db [] (=))) sample_context sample_ingest 2000 ''evt_1'' ''cor_1'' ''obx_1'' None"
  have now: "db_now (mem_db [] (=)) (sample_world Map.empty) = 2000" by (simp add: mem_db_def sample_world_def)
  have g: "guard_in (mem_table (sample_world Map.empty)) 2000 ?r = None" by (simp add: guard_in_def live_item_def)
  have c: "tx_conditions (acceptTransaction 4 ?r 2000) (mem_table (sample_world Map.empty))"
    by (simp add: acceptTransaction_def Let_def eventIndexPut_def outboxPut_def)
  obtain w1 where w1: "accept (mem_db [] (=)) 4 ?r (sample_world Map.empty) = (Inr (Accepted (ac_event ?r)), w1)"
      "db_now (mem_db [] (=)) w1 = 2000"
    using mem_alone.accept_run [of "[]" 4 ?r "sample_world Map.empty"] g c now by (auto simp: yields_def)
  have "ingest (sample_services (mem_db [] (=))) sample_context sample_ingest (sample_world Map.empty)
      = (Inr (ac_event ?r, False), w1)"
    using w1 by (simp add: ingest_def sample_services_def sample_ingest_def bindM_def returnM_def readM_def
        sample_world_def liftM_def ingestionAnswer_def)
  then show ?thesis using w1(2) by (simp add: ingestionRequest_def ingestedEvent_def sample_services_def mem_db_def)
qed

text \<open>
  Between the two requests the event may have been routed: here its row has another status, and the guard row is
  all that is left of the first request beside it.
\<close>

theorem ingestion_once_witness:
  "\<exists>e w1. ingest (sample_services (mem_db [] (=))) sample_context sample_ingest (sample_world Map.empty)
       = (Inr (e, False), w1)
     \<and> (let w2 = w1\<lparr>mem_table := (\<lambda>k. case k of
            K_Idempotency _ _ _ \<Rightarrow> mem_table w1 k
          | K_Event _ _ \<Rightarrow> Some (It_Event (e\<lparr>ev_status := Ev_Processing\<rparr>)) | _ \<Rightarrow> None)\<rparr> in
         fst (ingest (sample_services (mem_db [] (=))) sample_context sample_reordered w2)
           = Inr (e\<lparr>ev_status := Ev_Processing\<rparr>, True)
       \<and> fst (ingest (sample_services (mem_db [] (=))) sample_context (sample_ingest\<lparr>in_data := JObj []\<rparr>) w2)
           = Inl (Error ''IDEMPOTENCY_KEY_REUSED''))"
proof -
  let ?S = "sample_services (mem_db [] (=))"
  obtain e w1 where run: "ingest ?S sample_context sample_ingest (sample_world Map.empty) = (Inr (e, False), w1)"
    and e: "ev_expiresAt e = Iso (2000 + days 30)" and clock: "mem_clock w1 = 2000"
    using sample_ingest_run by blast
  let ?w2 = "w1\<lparr>mem_table := (\<lambda>k. case k of
            K_Idempotency _ _ _ \<Rightarrow> mem_table w1 k
          | K_Event _ _ \<Rightarrow> Some (It_Event (e\<lparr>ev_status := Ev_Processing\<rparr>)) | _ \<Rightarrow> None)\<rparr>"
  have now: "db_now (sv_db ?S) ?w2 = 2000" "db_now (sv_db ?S) (sample_world Map.empty) = 2000"
    using clock by (simp_all add: sample_services_def mem_db_def sample_world_def)
  have time: "db_now (sv_db ?S) ?w2 + 1000 \<le> db_now (sv_db ?S) (sample_world Map.empty) + days 7"
    unfolding now by (simp add: days_def)
  have live: "live_item (mem_table ?w2 (K_Event (cx_tenantId sample_context) (ev_eventId e))) (db_now (sv_db ?S) ?w2)
      = Some (It_Event (e\<lparr>ev_status := Ev_Processing\<rparr>))"
    unfolding now using e by (simp add: live_item_def isExpired_def days_def)
  have n: "prints_numbers (sv_number ?S)" by (simp add: sample_services_def unary_prints)
  have sha: "sv_sha256 ?S s = sv_sha256 ?S t \<Longrightarrow> s = t" for s t
    by (simp add: sample_services_def sample_sha256_inj)
  have more: "in_idempotencyKey sample_reordered = in_idempotencyKey sample_ingest"
      "in_eventType sample_reordered \<in> set (sv_supportedEventTypes ?S)"
      "in_eventType (sample_ingest\<lparr>in_data := JObj []\<rparr>) \<in> set (sv_supportedEventTypes ?S)"
      "normal (canonicalInput sample_reordered) = normal (canonicalInput sample_ingest)"
      "normal (canonicalInput (sample_ingest\<lparr>in_data := JObj []\<rparr>)) \<noteq> normal (canonicalInput sample_ingest)"
    by (simp_all add: sample_reordered_def sample_ingest_def sample_services_def canonicalInput_def subject_json_def
        less_list_code)
  have guard: "mem_table ?w2 (K_Idempotency (cx_tenantId sample_context) (cx_actorId sample_context)
        (hex (sv_sha256 ?S (in_idempotencyKey sample_ingest))))
      = mem_table w1 (K_Idempotency (cx_tenantId sample_context) (cx_actorId sample_context)
        (hex (sv_sha256 ?S (in_idempotencyKey sample_ingest))))"
    by simp
  note once = ingestion_once [OF mem_services.alone_services_axioms n run guard time refl refl]
  have "fst (ingest ?S sample_context sample_reordered ?w2) = Inr (e\<lparr>ev_status := Ev_Processing\<rparr>, True)"
    using once [of sample_reordered] more(1,2,4) sha unfolding live by auto
  moreover have "fst (ingest ?S sample_context (sample_ingest\<lparr>in_data := JObj []\<rparr>) ?w2)
      = Inl (Error ''IDEMPOTENCY_KEY_REUSED'')"
    using once [of "sample_ingest\<lparr>in_data := JObj []\<rparr>"] more(3,5) sha unfolding live by auto
  ultimately show ?thesis using run by (metis (no_types, lifting))
qed

end
