(* ===== verification/Routing.thy ===== *)
theory Routing
  imports Services Control_Store Outbox_Store
begin

text \<open>
  \<open>RoutingService\<close> of \<open>packages/application/src/index.ts\<close>: a routed event gets one delivery per enabled
  subscription whose destination and partner are enabled, with the configuration of the destination frozen
  in it, and a message for the delivery queue; a delivery whose transformation fails is created as failed.
\<close>

section \<open>What a delivery is made of\<close>

definition routingContext :: "string \<Rightarrow> string \<Rightarrow> tenant_context" where
  "routingContext tenantId correlationId =
     \<lparr>cx_tenantId = tenantId, cx_actorType = System_Actor, cx_actorId = ''router-worker'', cx_role = None,
      cx_requestId = ''router-worker'', cx_correlationId = correlationId\<rparr>"

definition lines_of :: "string list \<Rightarrow> string" where
  "lines_of parts = join [CHR 0x0A] parts"

definition originalDeliveryId :: "('w, 'z) services_scheme \<Rightarrow> canonical_event \<Rightarrow> string \<Rightarrow> string" where
  "originalDeliveryId S ev destinationId =
     deterministicIdentifier (sv_sha256 S) ''dlv''
       (lines_of [ev_tenantId ev, ev_eventId ev, destinationId, ''ORIGINAL''])"

definition partnerKey :: "('w, 'z) services_scheme \<Rightarrow> canonical_event \<Rightarrow> string \<Rightarrow> string \<Rightarrow> string" where
  "partnerKey S ev destinationId deliveryId =
     base64url (sv_sha256 S (lines_of [ev_tenantId ev, ev_eventId ev, destinationId, deliveryId]))"

definition policyId :: "destination \<Rightarrow> string" where
  "policyId dest = de_destinationId dest @ '':v'' @ js_int (de_version dest)"

fun json_string :: "json option \<Rightarrow> string option" where
  "json_string (Some (JStr s)) = Some s"
| "json_string _ = None"

definition routedSnapshot :: "destination \<Rightarrow> transformation_version \<Rightarrow> string \<Rightarrow> config_snapshot" where
  "routedSnapshot dest tf url =
     \<lparr>cs_destinationVersion = de_version dest, cs_url = url, cs_timeoutMs = de_timeoutMs dest,
      cs_retryPolicy = de_retryPolicy dest, cs_rateLimitPolicyId = policyId dest,
      cs_circuitBreakerPolicyId = policyId dest, cs_authType = de_authType dest,
      cs_authConfiguration = de_authConfiguration dest, cs_secretReferenceNames = de_secretReferences dest,
      cs_transformationId = tf_transformationId tf, cs_transformationVersion = tf_version tf,
      cs_redactionPaths = de_sensitiveResponseJsonPaths dest,
      cs_idempotencyHeader = json_string (json_get (de_authConfiguration dest) ''idempotencyHeader'')\<rparr>"

text \<open>
  The event as the transformation sees it: the item of the table, which carries the keys and the entity
  type beside the event.
\<close>

definition outcome_json :: "outcome_counters \<Rightarrow> json" where
  "outcome_json c = JObj
     [(''routingComplete'', JBool (oc_routingComplete c)),
      (''totalDeliveries'', JNum (of_int (oc_totalDeliveries c))),
      (''terminalDeliveries'', JNum (of_int (oc_terminalDeliveries c))),
      (''successfulDeliveries'', JNum (of_int (oc_successfulDeliveries c))),
      (''failedTerminalDeliveries'', JNum (of_int (oc_failedTerminalDeliveries c))),
      (''deadLetteredDeliveries'', JNum (of_int (oc_deadLetteredDeliveries c)))]"

fun expiry_json :: "expiry \<Rightarrow> json" where
  "expiry_json (Epoch s) = JNum (of_int s)"
| "expiry_json (Iso ms) = JStr (isoString ms)"

definition event_json :: "string \<Rightarrow> canonical_event \<Rightarrow> json" where
  "event_json tenant ev = JObj
     [(''PK'', JStr (''TENANT#'' @ tenant @ ''#EVENT#'' @ ev_eventId ev)), (''SK'', JStr ''META''),
      (''entityType'', JStr ''EVENT''),
      (''eventId'', JStr (ev_eventId ev)), (''tenantId'', JStr (ev_tenantId ev)),
      (''producerClientId'', JStr (ev_producerClientId ev)), (''correlationId'', JStr (ev_correlationId ev)),
      (''eventType'', JStr (ev_eventType ev)), (''occurredAt'', JStr (ev_occurredAt ev)),
      (''acceptedAt'', JStr (isoString (ev_acceptedAt ev))), (''subject'', subject_json (ev_subject ev)),
      (''data'', ev_data ev), (''metadata'', ev_metadata ev), (''payloadHash'', JStr (ev_payloadHash ev)),
      (''status'', JStr (event_status_name (ev_status ev))), (''outcome'', outcome_json (ev_outcome ev)),
      (''version'', JNum (of_int (ev_version ev))), (''expiresAt'', expiry_json (ev_expiresAt ev))]"

text \<open>The delivery that is scheduled, and what the failed one has instead.\<close>

definition routedDelivery ::
    "('w, 'z) services_scheme \<Rightarrow> canonical_event \<Rightarrow> destination \<Rightarrow> config_snapshot \<Rightarrow> json \<times> string \<Rightarrow> instant \<Rightarrow> instant
       \<Rightarrow> delivery" where
  "routedDelivery S ev dest snapshot transformed at_ms now =
     \<lparr>d_deliveryId = originalDeliveryId S ev (de_destinationId dest), d_eventId = ev_eventId ev,
      d_correlationId = ev_correlationId ev, d_tenantId = ev_tenantId ev, d_partnerId = de_partnerId dest,
      d_destinationId = de_destinationId dest, d_executionType = ORIGINAL, d_originalDeliveryId = None,
      d_replayId = None, d_state = Scheduled, d_blockedReason = None, d_attemptCount = 0,
      d_maxAttempts = rp_maxAttempts (de_retryPolicy dest), d_activeAttemptId = None,
      d_nextEligibleAt = Some at_ms, d_leaseOwner = None, d_leaseToken = None, d_leaseAcquiredAt = None,
      d_leaseExpiresAt = None, d_configSnapshot = snapshot, d_transformedPayload = fst transformed,
      d_transformedPayloadHash = snd transformed,
      d_partnerIdempotencyKey =
        partnerKey S ev (de_destinationId dest) (originalDeliveryId S ev (de_destinationId dest)),
      d_lastFailureCategory = None, d_createdAt = at_ms, d_updatedAt = at_ms, d_terminalAt = None,
      d_version = 1, d_expiresAt = Iso (now + days (sv_retentionDays S))\<rparr>"

definition failedDelivery ::
    "('w, 'z) services_scheme \<Rightarrow> canonical_event \<Rightarrow> destination \<Rightarrow> config_snapshot \<Rightarrow> instant \<Rightarrow> instant \<Rightarrow> delivery" where
  "failedDelivery S ev dest snapshot at_ms now =
     (routedDelivery S ev dest snapshot (JObj [], hex (sv_sha256 S ''{}'')) at_ms now)
       \<lparr>d_state := Failed_Terminal, d_blockedReason := Some TRANSFORMATION_ERROR, d_nextEligibleAt := None,
        d_terminalAt := Some at_ms\<rparr>"

definition createdHistory :: "string \<Rightarrow> delivery \<Rightarrow> instant \<Rightarrow> history_entry" where
  "createdHistory historyId d at_ms =
     \<lparr>hi_historyId = historyId, hi_deliveryId = d_deliveryId d, hi_tenantId = d_tenantId d,
      hi_correlationId = d_correlationId d, hi_type = Hi_Created, hi_occurredAt = at_ms,
      hi_summary = ''Delivery created and scheduled.'', hi_metadata = [], hi_expiresAt = d_expiresAt d\<rparr>"

definition failedHistory :: "string \<Rightarrow> delivery \<Rightarrow> instant \<Rightarrow> history_entry" where
  "failedHistory historyId d at_ms =
     (createdHistory historyId d at_ms)\<lparr>hi_type := Hi_State_Transition, hi_summary := ''Transformation failed.'',
        hi_metadata := [(''failureCategory'', Meta_Category TRANSFORMATION_ERROR)]\<rparr>"

definition deliverOutbox ::
    "('w, 'z) services_scheme \<Rightarrow> canonical_event \<Rightarrow> string \<Rightarrow> instant \<Rightarrow> string option \<Rightarrow> outbox_record" where
  "deliverOutbox S ev deliveryId at_ms trace =
     \<lparr>ob_outboxId = deterministicIdentifier (sv_sha256 S) ''obx'' (lines_of [''DELIVER'', deliveryId]),
      ob_kind = DELIVER, ob_tenantId = ev_tenantId ev, ob_aggregateType = DELIVERY, ob_aggregateId = deliveryId,
      ob_target = DELIVERY_QUEUE,
      ob_payload = \<lparr>pl_eventId = Some (ev_eventId ev), pl_deliveryId = Some deliveryId, pl_destinationId = None,
        pl_correlationId = ev_correlationId ev, pl_notBefore = None, pl_cause = Some INITIAL\<rparr>,
      ob_createdAt = at_ms, ob_attempts = 0, ob_publishedAt = None, ob_traceparent = trace\<rparr>"

section \<open>Routing\<close>

text \<open>The body of \<open>try\<close>: the transformation, the creation of the scheduled delivery and everything between.\<close>

definition routeScheduled ::
    "('w, 'z) services_scheme \<Rightarrow> tenant_context \<Rightarrow> canonical_event \<Rightarrow> destination \<Rightarrow> transformation_version
       \<Rightarrow> config_snapshot \<Rightarrow> instant \<Rightarrow> ('w, create_result) op" where
  "routeScheduled S cx ev dest tf snapshot at_ms =
     bindM (liftM (sv_execute S (tf_definition tf) (event_json (cx_tenantId cx) ev))) (\<lambda>transformed.
     bindM (readM (sv_now S)) (\<lambda>now.
       (let d = routedDelivery S ev dest snapshot transformed at_ms now in
        bindM (sv_next S ''req'') (\<lambda>historyId.
        bindM (readM (sv_traceparent S)) (\<lambda>trace.
          createDelivery (sv_db S) (sv_shards S)
            \<lparr>cr_context = cx, cr_delivery = d, cr_history = createdHistory historyId d at_ms,
             cr_outbox = Some (deliverOutbox S ev (d_deliveryId d) at_ms trace)\<rparr>)))))"

text \<open>The body of \<open>catch\<close>.\<close>

definition routeFailed ::
    "('w, 'z) services_scheme \<Rightarrow> tenant_context \<Rightarrow> canonical_event \<Rightarrow> destination \<Rightarrow> config_snapshot \<Rightarrow> instant
       \<Rightarrow> ('w, create_result) op" where
  "routeFailed S cx ev dest snapshot at_ms =
     bindM (readM (sv_now S)) (\<lambda>now.
       (let d = failedDelivery S ev dest snapshot at_ms now in
        bindM (sv_next S ''req'') (\<lambda>historyId.
          createDelivery (sv_db S) (sv_shards S)
            \<lparr>cr_context = cx, cr_delivery = d, cr_history = failedHistory historyId d at_ms,
             cr_outbox = None\<rparr>)))"

text \<open>The number of created deliveries is counted for the metrics only; a failed one is not counted.\<close>

definition routeTo ::
    "('w, 'z) services_scheme \<Rightarrow> tenant_context \<Rightarrow> canonical_event \<Rightarrow> destination \<Rightarrow> transformation_version
       \<Rightarrow> nat \<Rightarrow> ('w, nat) op" where
  "routeTo S cx ev dest tf created =
     bindM (readM (sv_now S)) (\<lambda>at_ms.
     bindM (liftM (sv_url S (de_path dest) (de_baseUrl dest))) (\<lambda>url.
       (let snapshot = routedSnapshot dest tf url in
        catchM
          (bindM (routeScheduled S cx ev dest tf snapshot at_ms) (\<lambda>result.
             returnM (if result = Created then created + 1 else created)))
          (\<lambda>_. bindM (routeFailed S cx ev dest snapshot at_ms) (\<lambda>_. returnM created)))))"

definition routeSubscription ::
    "('w, 'z) services_scheme \<Rightarrow> tenant_context \<Rightarrow> canonical_event \<Rightarrow> subscription \<Rightarrow> nat \<Rightarrow> ('w, nat) op" where
  "routeSubscription S cx ev sub created =
     bindM (getDestination (sv_db S) (cx_tenantId cx) (su_destinationId sub)) (\<lambda>found.
       case found of None \<Rightarrow> returnM created
       | Some dest \<Rightarrow> if \<not> de_enabled dest then returnM created else
     bindM (getPartner (sv_db S) (cx_tenantId cx) (de_partnerId dest)) (\<lambda>owner.
       case owner of None \<Rightarrow> returnM created
       | Some partner \<Rightarrow> if \<not> pa_enabled partner then returnM created else
     bindM (getTransformationVersion (sv_db S) (cx_tenantId cx) (de_transformationId dest)
              (de_activeTransformationVersion dest)) (\<lambda>version.
       case version of None \<Rightarrow> returnM created
       | Some tf \<Rightarrow> routeTo S cx ev dest tf created)))"

definition route :: "('w, 'z) services_scheme \<Rightarrow> string \<Rightarrow> string \<Rightarrow> string \<Rightarrow> ('w, unit) op" where
  "route S tenantId eventId correlationId =
     (let cx = routingContext tenantId correlationId in
      bindM (getEvent (sv_db S) tenantId eventId) (\<lambda>found.
        case found of None \<Rightarrow> returnM ()
        | Some ev \<Rightarrow>
            bindM (listSubscriptions (sv_db S) tenantId (ev_eventType ev)) (\<lambda>subscriptions.
            bindM (foldM (routeSubscription S cx ev) (filter su_enabled subscriptions) 0) (\<lambda>_.
              completeRouting (sv_db S) tenantId (ev_eventId ev)))))"

section \<open>Routing is safe\<close>

lemma seen_event_tenant:
  assumes "seen u (K_Event t e) (It_Event ev)" and "table_inv u"
  shows "ev_tenantId ev = t"
proof -
  from assms(1) obtain s where s: "safe s u" "s (K_Event t e) = Some (It_Event ev)"
    by (auto simp: seen_def)
  from safe_inv_back [OF s(1) assms(2)] s(2) show ?thesis
    using table_inv_event [of s t e] by (auto simp: event_ok_def)
qed

lemma routed_creatable:
  "creatable (routedDelivery S ev dest snapshot transformed at_ms now)"
  "creatable (failedDelivery S ev dest snapshot at_ms now)"
  by (simp_all add: creatable_def lease_wf_def routedDelivery_def failedDelivery_def)

lemma routed_identity [simp]:
  "d_tenantId (routedDelivery S ev dest snapshot transformed at_ms now) = ev_tenantId ev"
  "d_tenantId (failedDelivery S ev dest snapshot at_ms now) = ev_tenantId ev"
  "d_executionType (routedDelivery S ev dest snapshot transformed at_ms now) = ORIGINAL"
  "d_executionType (failedDelivery S ev dest snapshot at_ms now) = ORIGINAL"
  "d_eventId (routedDelivery S ev dest snapshot transformed at_ms now) = ev_eventId ev"
  "d_eventId (failedDelivery S ev dest snapshot at_ms now) = ev_eventId ev"
  "d_deliveryId (routedDelivery S ev dest snapshot transformed at_ms now) = originalDeliveryId S ev (de_destinationId dest)"
  "d_deliveryId (failedDelivery S ev dest snapshot at_ms now) = originalDeliveryId S ev (de_destinationId dest)"
  "d_destinationId (routedDelivery S ev dest snapshot transformed at_ms now) = de_destinationId dest"
  "d_destinationId (failedDelivery S ev dest snapshot at_ms now) = de_destinationId dest"
  by (simp_all add: routedDelivery_def failedDelivery_def)

context safe_services
begin

lemma plain_read_then:
  assumes "\<And>r. hoare view (since s0) (g r) (\<lambda>_. since s0) (since s0)"
  shows "hoare view (since s0) (bindM (mapM f (getCore (sv_db S) k)) g) (\<lambda>_. since s0) (since s0)"
  by (rule hoare_bind [OF hoare_read [OF stable_since] assms])

lemma routeTo_keeps:
  assumes "ev_tenantId ev = cx_tenantId cx"
  shows "hoare view (since s0) (routeTo S cx ev dest tf n) (\<lambda>_. since s0) (since s0)"
proof -
  have scheduled: "hoare view (since s0) (routeScheduled S cx ev dest tf snapshot at_ms) (\<lambda>_. since s0) (since s0)"
    for snapshot at_ms
    unfolding routeScheduled_def Let_def
    by (auto intro!: lift_then readM_then next_then createDelivery_keeps simp: routed_creatable assms)
  have failed: "hoare view (since s0) (routeFailed S cx ev dest snapshot at_ms) (\<lambda>_. since s0) (since s0)"
    for snapshot at_ms
    unfolding routeFailed_def Let_def
    by (auto intro!: readM_then next_then createDelivery_keeps simp: routed_creatable assms)
  show ?thesis
    unfolding routeTo_def Let_def
    by (intro readM_then lift_then hoare_catch [where R = "since s0"] hoare_bind [OF scheduled]
        hoare_bind [OF failed] return_keeps)
qed

lemma routeSubscription_keeps:
  assumes "ev_tenantId ev = cx_tenantId cx"
  shows "hoare view (since s0) (routeSubscription S cx ev sub n) (\<lambda>_. since s0) (since s0)"
  unfolding routeSubscription_def getDestination_def getPartner_def getTransformationVersion_def
  by (auto intro!: plain_read_then return_keeps routeTo_keeps [OF assms] split: option.split)

lemma listSubscriptions_keeps:
  "hoare view (since s0) (listSubscriptions (sv_db S) t eventType) (\<lambda>_. since s0) (since s0)"
  unfolding listSubscriptions_def
proof (rule hoare_bind [where R = "\<lambda>_. since s0"])
  show "hoare view (since s0) (db_query (sv_db S) (subscription_of_type t eventType) None) (\<lambda>_. since s0) (since s0)"
    by (rule hoare_weaken [OF hoare_query [OF stable_since]]) auto
qed (auto intro!: hoare_withNow return_keeps)

lemma route_keeps: "hoare view (since s0) (route S t e c) (\<lambda>_. since s0) (since s0)"
proof -
  have routed: "hoare view (\<lambda>u. since s0 u \<and> seen u (K_Event t e) (It_Event ev))
      (bindM (listSubscriptions (sv_db S) t (ev_eventType ev)) (\<lambda>subscriptions.
       bindM (foldM (routeSubscription S (routingContext t c) ev) (filter su_enabled subscriptions) 0) (\<lambda>_.
         completeRouting (sv_db S) t (ev_eventId ev)))) (\<lambda>_. since s0) (since s0)" for ev
  proof (cases "ev_tenantId ev = t")
    case True
    then have "ev_tenantId ev = cx_tenantId (routingContext t c)" by (simp add: routingContext_def)
    note one = routeSubscription_keeps [OF this]
    have "hoare view (since s0)
      (bindM (listSubscriptions (sv_db S) t (ev_eventType ev)) (\<lambda>subscriptions.
       bindM (foldM (routeSubscription S (routingContext t c) ev) (filter su_enabled subscriptions) 0) (\<lambda>_.
         completeRouting (sv_db S) t (ev_eventId ev)))) (\<lambda>_. since s0) (since s0)"
      by (intro hoare_bind [OF listSubscriptions_keeps] hoare_bind [OF hoare_fold [OF one]] completeRouting_keeps)
    then show ?thesis by (rule hoare_weaken) auto
  next
    case False
    then show ?thesis by (auto simp: hoare_def dest: seen_event_tenant since_inv)
  qed
  show ?thesis
    unfolding route_def Let_def
    by (intro event_then stable_since) (auto intro!: return_keeps routed)
qed

end

section \<open>What routing adds\<close>

text \<open>
  The rows that routing adds beside index rows: for a destination, one delivery under the identifier derived
  from event and destination, and its lookup row. Everything else it leaves, but for the event itself.
\<close>

definition routed_row :: "('w, 'z) services_scheme \<Rightarrow> string \<Rightarrow> canonical_event \<Rightarrow> dtable \<Rightarrow> dkey \<Rightarrow> bool" where
  "routed_row S t ev u k \<longleftrightarrow>
     (\<exists>x i. i = originalDeliveryId S ev (d_destinationId x) \<and> u (K_Delivery t (ev_eventId ev) i) = Some (It_Delivery x)
        \<and> d_executionType x = ORIGINAL \<and> d_version x = 1
        \<and> (d_state x = Scheduled \<or> d_state x = Failed_Terminal \<and> d_blockedReason x = Some TRANSFORMATION_ERROR)
        \<and> (k = K_Delivery t (ev_eventId ev) i \<or> k = K_Lookup t LK_Delivery i))"

definition routed_from :: "('w, 'z) services_scheme \<Rightarrow> string \<Rightarrow> canonical_event \<Rightarrow> dtable \<Rightarrow> dtable \<Rightarrow> bool" where
  "routed_from S t ev s u \<longleftrightarrow>
     (\<forall>k. \<not> is_index_key k \<longrightarrow> k \<noteq> K_Event t (ev_eventId ev) \<longrightarrow>
        (if s k = None then u k = None \<or> routed_row S t ev u k else u k = s k))
     \<and> (\<forall>e. u (K_Event t (ev_eventId ev)) = Some (It_Event e) \<longrightarrow> ev_eventId e = ev_eventId ev)"

lemma create_touches:
  assumes "\<not> is_index_key k" and "k \<noteq> K_Event t (ev_eventId updated)"
    and "t = cx_tenantId (cr_context inp)" and "d = cr_delivery inp"
    and "k \<noteq> K_Delivery t (d_eventId d) (d_deliveryId d)" and "k \<noteq> K_Lookup t LK_Delivery (d_deliveryId d)"
  shows "tx_apply (createTransaction shards inp event updated) s k = s k"
proof (rule tx_apply_other)
  have "only_index (createRollups t d)" by (simp add: createRollups_def Let_def)
  then have "only_index (indexPutsNew d @ statusIndexOps t event updated
      @ (case cr_outbox inp of None \<Rightarrow> [] | Some b \<Rightarrow> [outboxPut shards b]) @ createRollups t d)"
    by (simp split: option.split)
  then show "k \<notin> op_key ` set (createTransaction shards inp event updated)"
    using assms by (auto simp: createTransaction_def Let_def only_index_def eventPut_def split: option.splits)
qed

lemma create_puts:
  assumes "tx_ok (createTransaction shards inp event updated) s"
    and "t = cx_tenantId (cr_context inp)" and "d = cr_delivery inp"
  shows "tx_apply (createTransaction shards inp event updated) s (K_Delivery t (d_eventId d) (d_deliveryId d))
      = Some (stored_delivery d)"
    and "tx_apply (createTransaction shards inp event updated) s (K_Lookup t LK_Delivery (d_deliveryId d))
      = Some (It_Lookup (d_eventId d))"
    and "tx_apply (createTransaction shards inp event updated) s (K_Event t (ev_eventId updated))
      = Some (stored_event updated)"
    and "s (K_Delivery t (d_eventId d) (d_deliveryId d)) = None" "s (K_Lookup t LK_Delivery (d_deliveryId d)) = None"
proof -
  let ?ops = "createTransaction shards inp event updated"
  have dist: "tx_distinct ?ops" and cond: "tx_conditions ?ops s" using assms(1) by (simp_all add: tx_ok_def)
  have ops: "put_new (K_Delivery t (d_eventId d) (d_deliveryId d)) (stored_delivery d) \<in> set ?ops"
      "put_new (K_Lookup t LK_Delivery (d_deliveryId d)) (It_Lookup (d_eventId d)) \<in> set ?ops"
      "eventPut t event updated \<in> set ?ops"
    using assms(2,3) by (simp_all add: createTransaction_def Let_def)
  from tx_apply_at [OF ops(1) dist, of s] tx_apply_at [OF ops(2) dist, of s] tx_apply_at [OF ops(3) dist, of s]
    tx_conditionsD [OF cond ops(1)] tx_conditionsD [OF cond ops(2)]
  show "tx_apply ?ops s (K_Delivery t (d_eventId d) (d_deliveryId d)) = Some (stored_delivery d)"
    "tx_apply ?ops s (K_Lookup t LK_Delivery (d_deliveryId d)) = Some (It_Lookup (d_eventId d))"
    "tx_apply ?ops s (K_Event t (ev_eventId updated)) = Some (stored_event updated)"
    "s (K_Delivery t (d_eventId d) (d_deliveryId d)) = None" "s (K_Lookup t LK_Delivery (d_deliveryId d)) = None"
    by (simp_all add: eventPut_def)
qed

definition routable :: "('w, 'z) services_scheme \<Rightarrow> canonical_event \<Rightarrow> delivery \<Rightarrow> bool" where
  "routable S ev d \<longleftrightarrow> d_eventId d = ev_eventId ev \<and> d_deliveryId d = originalDeliveryId S ev (d_destinationId d)
     \<and> d_executionType d = ORIGINAL \<and> d_version d = 1
     \<and> (d_state d = Scheduled \<or> d_state d = Failed_Terminal \<and> d_blockedReason d = Some TRANSFORMATION_ERROR)"

lemma routed_routable:
  "routable S ev (routedDelivery S ev dest snapshot transformed at_ms now)"
  "routable S ev (failedDelivery S ev dest snapshot at_ms now)"
  by (simp_all add: routable_def routedDelivery_def failedDelivery_def)

lemma routed_commit:
  assumes u: "routed_from S t ev s u" and ok: "tx_ok (createTransaction shards inp event updated) u"
    and inp: "cx_tenantId (cr_context inp) = t" "cr_delivery inp = d" and d: "routable S ev d"
    and id: "ev_eventId updated = ev_eventId ev"
  shows "routed_from S t ev s (tx_apply (createTransaction shards inp event updated) u)"
proof -
  let ?u = "tx_apply (createTransaction shards inp event updated) u"
  let ?e = "ev_eventId ev" and ?i = "d_deliveryId d"
  have e: "d_eventId d = ?e" using d by (simp add: routable_def)
  note puts = create_puts [OF ok inp [symmetric], unfolded e]
  have row: "?u k = u k" if "\<not> is_index_key k" "k \<noteq> K_Event t ?e" "k \<noteq> K_Delivery t ?e ?i" "k \<noteq> K_Lookup t LK_Delivery ?i" for k
    using create_touches [OF that(1) _ inp [symmetric]] that id e by simp
  have kept: "routed_row S t ev ?u k" if k: "routed_row S t ev u k" for k
  proof -
    from k obtain x j where x: "j = originalDeliveryId S ev (d_destinationId x)"
        "u (K_Delivery t ?e j) = Some (It_Delivery x)" "k = K_Delivery t ?e j \<or> k = K_Lookup t LK_Delivery j"
      and rest: "d_executionType x = ORIGINAL" "d_version x = 1"
        "d_state x = Scheduled \<or> d_state x = Failed_Terminal \<and> d_blockedReason x = Some TRANSFORMATION_ERROR"
      unfolding routed_row_def by blast
    have "j \<noteq> ?i" using x(2) puts(4) by auto
    then have "?u (K_Delivery t ?e j) = Some (It_Delivery x)" using row [of "K_Delivery t ?e j"] x(2) by simp
    with x rest show ?thesis unfolding routed_row_def by blast
  qed
  have new: "routed_row S t ev ?u k" if "k = K_Delivery t ?e ?i \<or> k = K_Lookup t LK_Delivery ?i" for k
    unfolding routed_row_def
    using d that puts(1) by (intro exI [of _ "d\<lparr>d_expiresAt := to_epoch (d_expiresAt d)\<rparr>"])
      (auto simp: routable_def stored_delivery_def)
  show ?thesis
    unfolding routed_from_def
  proof (intro conjI allI impI)
    fix k
    assume k: "\<not> is_index_key k" "k \<noteq> K_Event t ?e"
    show "if s k = None then ?u k = None \<or> routed_row S t ev ?u k else ?u k = s k"
    proof (cases "k = K_Delivery t ?e ?i \<or> k = K_Lookup t LK_Delivery ?i")
      case True
      then have "u k = None" using puts(4,5) by auto
      with u k have "s k = None" unfolding routed_from_def by (metis option.distinct(1))
      with new [OF True] show ?thesis by simp
    next
      case False
      with row k have "?u k = u k" by simp
      with u k kept [of k] show ?thesis unfolding routed_from_def by metis
    qed
  next
    fix e'
    assume "?u (K_Event t ?e) = Some (It_Event e')"
    with puts(3) id show "ev_eventId e' = ?e" by (simp add: stored_event_def)
  qed
qed

lemma complete_touches:
  "\<not> is_index_key k \<Longrightarrow> k \<noteq> K_Event t (ev_eventId updated) \<Longrightarrow> tx_apply (completeTransaction t event updated) s k = s k"
proof (rule tx_apply_other)
  assume "\<not> is_index_key k" "k \<noteq> K_Event t (ev_eventId updated)"
  moreover have "only_index (statusIndexOps t event updated)" by simp
  ultimately show "k \<notin> op_key ` set (completeTransaction t event updated)"
    by (auto simp: completeTransaction_def only_index_def eventPut_def)
qed

lemma routed_complete:
  assumes u: "routed_from S t ev s u" and ok: "tx_ok (completeTransaction t event updated) u"
    and id: "ev_eventId updated = ev_eventId ev"
  shows "routed_from S t ev s (tx_apply (completeTransaction t event updated) u)"
proof -
  let ?u = "tx_apply (completeTransaction t event updated) u"
  have row: "?u k = u k" if "\<not> is_index_key k" "k \<noteq> K_Event t (ev_eventId ev)" for k
    using complete_touches [of k t updated event u] that id by simp
  have "eventPut t event updated \<in> set (completeTransaction t event updated)" by (simp add: completeTransaction_def)
  from tx_apply_at [OF this, of u] ok id have "?u (K_Event t (ev_eventId ev)) = Some (stored_event updated)"
    by (simp add: tx_ok_def eventPut_def)
  then have event: "ev_eventId e' = ev_eventId ev" if "?u (K_Event t (ev_eventId ev)) = Some (It_Event e')" for e'
    using that id by (simp add: stored_event_def)
  have same: "routed_row S t ev ?u k = routed_row S t ev u k" for k
    unfolding routed_row_def by (simp add: row)
  have "if s k = None then ?u k = None \<or> routed_row S t ev ?u k else ?u k = s k"
    if "\<not> is_index_key k" "k \<noteq> K_Event t (ev_eventId ev)" for k
    unfolding same row [OF that] using u that unfolding routed_from_def by blast
  with event show ?thesis unfolding routed_from_def by blast
qed

context quiet_services
begin

lemma createDelivery_adds:
  assumes inp: "cx_tenantId (cr_context inp) = t" "cr_delivery inp = d" and d: "routable S ev d"
    and P: "\<And>u. P u \<Longrightarrow> routed_from S t ev s u"
    and commit: "\<And>u event updated. P u \<Longrightarrow> tx_ok (createTransaction (sv_shards S) inp event updated) u
      \<Longrightarrow> ev_eventId updated = ev_eventId ev \<Longrightarrow> P (tx_apply (createTransaction (sv_shards S) inp event updated) u)"
  shows "hoare view P (createDelivery (sv_db S) (sv_shards S) inp)
    (\<lambda>r u. P u \<and> u (K_Lookup t LK_Delivery (d_deliveryId d)) \<noteq> None
       \<and> (r = Created \<longrightarrow> u (K_Delivery t (ev_eventId ev) (d_deliveryId d)) = Some (stored_delivery d))) P"
    (is "hoare view P _ ?Q P")
  unfolding createDelivery_def
proof (rule hoare_retry)
  have e: "d_eventId d = ev_eventId ev" using d by (simp add: routable_def)
  have commits: "hoare view (\<lambda>u. (P u \<and> u (K_Lookup t LK_Delivery (d_deliveryId d)) = x) \<and> u (K_Event t (ev_eventId ev)) = Some (It_Event event))
     (bindM (db_write (sv_db S) (createTransaction (sv_shards S) inp event (withOutcome event oc st)))
        (\<lambda>ok. returnM (if ok then Some Created else None)))
     (\<lambda>r u. case r of None \<Rightarrow> P u | Some a \<Rightarrow> ?Q a u) P" for event oc st x
  proof (rule hoare_bind [where R = "\<lambda>ok u. P u \<and> (ok \<longrightarrow> ?Q Created u)"], rule quiet_write)
    fix u
    assume u: "(P u \<and> u (K_Lookup t LK_Delivery (d_deliveryId d)) = x) \<and> u (K_Event t (ev_eventId ev)) = Some (It_Event event)"
    then have id: "ev_eventId (withOutcome event oc st) = ev_eventId ev"
      using P [of u] unfolding routed_from_def by (auto simp: withOutcome_def)
    assume ok: "tx_ok (createTransaction (sv_shards S) inp event (withOutcome event oc st)) u"
    from commit [OF _ ok id] u
    show "P (tx_apply (createTransaction (sv_shards S) inp event (withOutcome event oc st)) u)" by blast
    then show "P (tx_apply (createTransaction (sv_shards S) inp event (withOutcome event oc st)) u)
       \<and> (True \<longrightarrow> ?Q Created (tx_apply (createTransaction (sv_shards S) inp event (withOutcome event oc st)) u))"
      using create_puts [OF ok inp [symmetric]] e by simp
  qed (auto intro!: hoare_return)
  have event: "hoare view (\<lambda>u. (P u \<and> u (K_Lookup t LK_Delivery (d_deliveryId d)) = x) \<and> u (K_Event t (ev_eventId ev)) = y)
     (case as_event (live_item y now) of None \<Rightarrow> throwM (Error ''EVENT_NOT_FOUND'')
      | Some event \<Rightarrow>
          (let outcome = countCreated (ev_outcome event) (d_state d) in
           bindM (liftM (deriveEventStatus outcome)) (\<lambda>status.
           bindM (db_write (sv_db S) (createTransaction (sv_shards S) inp event (withOutcome event outcome status)))
             (\<lambda>ok. returnM (if ok then Some Created else None)))))
     (\<lambda>r u. case r of None \<Rightarrow> P u | Some a \<Rightarrow> ?Q a u) P" for x y now
  proof (cases "as_event (live_item y now)")
    case None
    then show ?thesis by (auto intro: hoare_throw)
  next
    case (Some event)
    then have "y = Some (It_Event event)" by (auto simp: as_event_Some live_item_Some)
    with Some commits [of x event] show ?thesis by (auto simp: Let_def intro!: hoare_lift_bind)
  qed
  show "hoare view P (createDeliveryRound (sv_db S) (sv_shards S) inp)
     (\<lambda>r u. case r of None \<Rightarrow> P u | Some a \<Rightarrow> ?Q a u) P"
    unfolding createDeliveryRound_def Let_def inp e
  proof (rule quiet_core_then)
    fix x now
    show "hoare view (\<lambda>u. P u \<and> u (K_Lookup t LK_Delivery (d_deliveryId d)) = x)
       (if as_lookup (live_item x now) \<noteq> None then returnM (Some Already_There)
        else bindM (getEvent (sv_db S) t (ev_eventId ev)) (\<lambda>found. case found of
            None \<Rightarrow> throwM (Error ''EVENT_NOT_FOUND'')
          | Some event \<Rightarrow>
            bindM (liftM (deriveEventStatus (countCreated (ev_outcome event) (d_state d)))) (\<lambda>status.
            bindM (db_write (sv_db S) (createTransaction (sv_shards S) inp event
                (withOutcome event (countCreated (ev_outcome event) (d_state d)) status)))
              (\<lambda>ok. returnM (if ok then Some Created else None)))))
       (\<lambda>r u. case r of None \<Rightarrow> P u | Some a \<Rightarrow> ?Q a u) P"
    proof (cases "as_lookup (live_item x now)")
      case None
      then show ?thesis
        unfolding getEvent_def using event [unfolded Let_def] by (auto intro!: quiet_core_then)
    next
      case (Some i)
      then have "x \<noteq> None" by (auto simp: as_lookup_Some live_item_Some)
      with Some show ?thesis by (auto intro!: hoare_return)
    qed
  qed
qed (auto intro: hoare_throw)

end

text \<open>Which destination a subscription routes to, in a table.\<close>

definition route_target :: "dtable \<Rightarrow> string \<Rightarrow> subscription \<Rightarrow> destination option" where
  "route_target s t sub = (case as_destination (s (K_Destination t (su_destinationId sub))) of
      None \<Rightarrow> None
    | Some dest \<Rightarrow> if \<not> de_enabled dest then None
        else (case as_partner (s (K_Partner t (de_partnerId dest))) of
            None \<Rightarrow> None
          | Some partner \<Rightarrow> if \<not> pa_enabled partner then None
              else (case as_transformation (s (K_Transformation t (de_transformationId dest)
                             (de_activeTransformationVersion dest))) of
                  None \<Rightarrow> None | Some tf \<Rightarrow> Some dest)))"

lemma config_reads:
  "as_destination (live_item x now) = as_destination x"
  "as_partner (live_item x now) = as_partner x"
  "as_transformation (live_item x now) = as_transformation x"
  by (cases x; cases "the x"; simp add: live_item_def isExpired_def)+

lemma config_some:
  "as_destination x = Some d \<longleftrightarrow> x = Some (It_Destination d)"
  "as_partner x = Some p \<longleftrightarrow> x = Some (It_Partner p)"
  "as_transformation x = Some v \<longleftrightarrow> x = Some (It_Transformation v)"
  by (cases x; cases "the x"; simp)+

definition reached :: "('w, 'z) services_scheme \<Rightarrow> string \<Rightarrow> canonical_event \<Rightarrow> dtable \<Rightarrow> subscription \<Rightarrow> dtable \<Rightarrow> bool" where
  "reached S t ev s sub u \<longleftrightarrow> (case route_target s t sub of None \<Rightarrow> True
     | Some dest \<Rightarrow> u (K_Lookup t LK_Delivery (originalDeliveryId S ev (de_destinationId dest))) \<noteq> None)"

definition routed_all ::
    "('w, 'z) services_scheme \<Rightarrow> string \<Rightarrow> canonical_event \<Rightarrow> dtable \<Rightarrow> subscription set \<Rightarrow> dtable \<Rightarrow> bool" where
  "routed_all S t ev s Y u \<longleftrightarrow> routed_from S t ev s u \<and> (\<forall>sub \<in> Y. reached S t ev s sub u)"

lemma reached_create:
  assumes "reached S t ev s sub u" and "tx_ok (createTransaction shards inp event updated) u"
    and "cx_tenantId (cr_context inp) = t"
  shows "reached S t ev s sub (tx_apply (createTransaction shards inp event updated) u)"
proof -
  let ?d = "cr_delivery inp"
  have "tx_apply (createTransaction shards inp event updated) u (K_Lookup t LK_Delivery i) \<noteq> None"
    if "u (K_Lookup t LK_Delivery i) \<noteq> None" for i
  proof (cases "i = d_deliveryId ?d")
    case True
    with create_puts(2) [OF assms(2) assms(3) [symmetric] refl] show ?thesis by simp
  next
    case False
    then have "tx_apply (createTransaction shards inp event updated) u (K_Lookup t LK_Delivery i) = u (K_Lookup t LK_Delivery i)"
      by (intro create_touches [OF _ _ assms(3) [symmetric] refl]) simp_all
    with that show ?thesis by metis
  qed
  with assms(1) show ?thesis unfolding reached_def by (cases "route_target s t sub") (simp_all only: option.case)
qed

lemma config_kept:
  assumes "routed_from S t ev s u" and "s k = Some it" and "\<not> is_index_key k" "k \<noteq> K_Event t (ev_eventId ev)"
  shows "u k = Some it"
  using assms unfolding routed_from_def by (metis option.distinct(1))

lemma target_kept:
  assumes from_s: "routed_from S t ev s u" and some: "route_target s t sub = Some dest"
  shows "route_target u t sub = Some dest"
proof -
  let ?kd = "K_Destination t (su_destinationId sub)" and ?kp = "K_Partner t (de_partnerId dest)"
    and ?kt = "K_Transformation t (de_transformationId dest) (de_activeTransformationVersion dest)"
  obtain p tf where rows: "s ?kd = Some (It_Destination dest)" "s ?kp = Some (It_Partner p)" "s ?kt = Some (It_Transformation tf)"
    and on: "de_enabled dest" "pa_enabled p"
    using some by (auto simp: route_target_def config_some split: option.splits if_splits)
  have "u ?kd = Some (It_Destination dest)" "u ?kp = Some (It_Partner p)" "u ?kt = Some (It_Transformation tf)"
    using rows by (auto intro: config_kept [OF from_s])
  with on show ?thesis by (simp add: route_target_def)
qed

context quiet_services
begin

lemma createDelivery_reaches:
  assumes "cx_tenantId (cr_context inp) = t" "cr_delivery inp = d" and "routable S ev d" and i: "d_deliveryId d = i"
  shows "hoare view (routed_all S t ev s Y) (createDelivery (sv_db S) (sv_shards S) inp)
    (\<lambda>r u. routed_all S t ev s Y u \<and> u (K_Lookup t LK_Delivery i) \<noteq> None) (routed_all S t ev s Y)"
  unfolding i [symmetric]
  by (rule hoare_weaken [OF createDelivery_adds [OF assms(1-3), where P = "routed_all S t ev s Y" and s = s]])
     (auto simp: routed_all_def assms(1) intro!: routed_commit [OF _ _ assms(1-3)] reached_create)

lemma routeTo_reaches:
  assumes "cx_tenantId cx = t"
  shows "hoare view (routed_all S t ev s Y) (routeTo S cx ev dest tf n)
    (\<lambda>_ u. routed_all S t ev s Y u \<and> u (K_Lookup t LK_Delivery (originalDeliveryId S ev (de_destinationId dest))) \<noteq> None)
    (routed_all S t ev s Y)"
proof -
  let ?Q = "\<lambda>u. routed_all S t ev s Y u \<and> u (K_Lookup t LK_Delivery (originalDeliveryId S ev (de_destinationId dest))) \<noteq> None"
  have scheduled: "hoare view (routed_all S t ev s Y) (routeScheduled S cx ev dest tf snapshot at_ms) (\<lambda>_. ?Q)
      (routed_all S t ev s Y)" for snapshot at_ms
    unfolding routeScheduled_def Let_def
    by (intro hoare_lift_bind readM_quiet_then next_quiet_then createDelivery_reaches [OF _ refl])
       (simp_all add: routed_routable assms)
  have failed: "hoare view (routed_all S t ev s Y) (routeFailed S cx ev dest snapshot at_ms) (\<lambda>_. ?Q)
      (routed_all S t ev s Y)" for snapshot at_ms
    unfolding routeFailed_def Let_def
    by (intro readM_quiet_then next_quiet_then createDelivery_reaches [OF _ refl])
       (simp_all add: routed_routable assms)
  show ?thesis
    unfolding routeTo_def Let_def
    by (intro readM_quiet_then hoare_lift_bind hoare_catch [where R = "routed_all S t ev s Y"]
        hoare_bind [OF scheduled] hoare_bind [OF failed] hoare_return) auto
qed

lemma routeSubscription_reaches:
  assumes "cx_tenantId cx = t"
  shows "hoare view (routed_all S t ev s Y) (routeSubscription S cx ev sub n)
    (\<lambda>_. routed_all S t ev s (insert sub Y)) (routed_all S t ev s Y)"
proof -
  let ?P = "routed_all S t ev s Y" and ?R = "\<lambda>_. routed_all S t ev s (insert sub Y)"
  have skip: "hoare view C (returnM n) ?R ?P" if "\<And>u. C u \<Longrightarrow> ?P u \<and> route_target u t sub = None" for C
  proof (rule hoare_return)
    fix u
    assume "C u"
    then have P: "?P u" and none: "route_target u t sub = None" using that by auto
    have "route_target s t sub = None"
    proof (cases "route_target s t sub")
      case (Some dest)
      with P have "route_target u t sub = Some dest" by (auto simp: routed_all_def intro: target_kept)
      with none show ?thesis by simp
    qed simp
    with P show "?R n u" by (simp add: routed_all_def reached_def)
  qed
  have go: "hoare view C (routeTo S cx ev dest tf n) ?R ?P"
    if "\<And>u. C u \<Longrightarrow> ?P u \<and> route_target u t sub = Some dest" for C dest tf
  proof (cases "route_target s t sub = None \<or> route_target s t sub = Some dest")
    case True
    show ?thesis
      by (rule hoare_weaken [OF routeTo_reaches [OF assms, where s = s and Y = Y and ev = ev]])
         (use that True in \<open>auto simp: routed_all_def reached_def\<close>)
  next
    case False
    have "\<not> C u" for u
    proof
      assume "C u"
      with that have u: "?P u" "route_target u t sub = Some dest" by auto
      from False obtain other where "route_target s t sub = Some other" "other \<noteq> dest" by auto
      with u target_kept [of S t ev s u sub other] show False by (simp add: routed_all_def)
    qed
    then show ?thesis by (simp add: hoare_def)
  qed
  show ?thesis
    unfolding routeSubscription_def getDestination_def getPartner_def getTransformationVersion_def assms
    by (intro quiet_core_then, unfold config_reads)
       (auto intro!: quiet_core_then skip go simp: config_reads route_target_def split: option.split)
qed

lemma routing_loop:
  assumes "cx_tenantId cx = t"
  shows "hoare view (routed_all S t ev s Y) (foldM (routeSubscription S cx ev) subs n)
    (\<lambda>_. routed_all S t ev s (Y \<union> set subs)) (routed_from S t ev s)"
proof (induction subs arbitrary: Y n)
  case Nil
  then show ?case by (auto intro: hoare_return)
next
  case (Cons sub subs)
  show ?case
  proof (simp, rule hoare_bind)
    show "hoare view (routed_all S t ev s Y) (routeSubscription S cx ev sub n)
        (\<lambda>_. routed_all S t ev s (insert sub Y)) (routed_from S t ev s)"
      by (rule hoare_weaken [OF routeSubscription_reaches [OF assms]]) (auto simp: routed_all_def)
  qed (use Cons.IH [of "insert sub Y"] in simp)
qed

lemma completeRouting_adds:
  "hoare view (routed_all S t ev s Y) (completeRouting (sv_db S) t (ev_eventId ev))
    (\<lambda>_. routed_all S t ev s Y) (routed_from S t ev s)"
  unfolding completeRouting_def
proof (rule hoare_retry)
  let ?P = "routed_all S t ev s Y"
  let ?done = "\<lambda>event. (ev_outcome event)\<lparr>oc_routingComplete := True\<rparr>"
  have kept: "?P (tx_apply (completeTransaction t event (withOutcome event oc st)) u)"
    if u: "?P u" "u (K_Event t (ev_eventId ev)) = Some (It_Event event)"
      and ok: "tx_ok (completeTransaction t event (withOutcome event oc st)) u" for u event oc st
  proof -
    have id: "ev_eventId (withOutcome event oc st) = ev_eventId ev"
      using u unfolding routed_all_def routed_from_def by (auto simp: withOutcome_def)
    have "tx_apply (completeTransaction t event (withOutcome event oc st)) u (K_Lookup t LK_Delivery i)
        = u (K_Lookup t LK_Delivery i)" for i
      by (rule complete_touches) simp_all
    then have "reached S t ev s sub (tx_apply (completeTransaction t event (withOutcome event oc st)) u)
        = reached S t ev s sub u" for sub
      by (cases "route_target s t sub") (simp_all add: reached_def)
    then show ?thesis
      using u(1) routed_complete [OF _ ok id] unfolding routed_all_def by blast
  qed
  have round: "hoare view (\<lambda>u. ?P u \<and> u (K_Event t (ev_eventId ev)) = x)
     (case as_event (live_item x now) of None \<Rightarrow> returnM (Some ())
      | Some event \<Rightarrow> if oc_routingComplete (ev_outcome event) then returnM (Some ())
          else bindM (liftM (deriveEventStatus (?done event))) (\<lambda>status.
               bindM (db_write (sv_db S) (completeTransaction t event (withOutcome event (?done event) status)))
                 (\<lambda>ok. returnM (if ok then Some () else None))))
     (\<lambda>r u. case r of None \<Rightarrow> ?P u | Some a \<Rightarrow> ?P u) (routed_from S t ev s)" for x now
  proof (cases "as_event (live_item x now)")
    case None
    then show ?thesis by (auto intro: hoare_return)
  next
    case (Some event)
    then have x: "x = Some (It_Event event)" by (auto simp: as_event_Some live_item_Some)
    have writes: "hoare view (\<lambda>u. ?P u \<and> u (K_Event t (ev_eventId ev)) = x)
        (bindM (db_write (sv_db S) (completeTransaction t event (withOutcome event (?done event) status)))
          (\<lambda>ok. returnM (if ok then Some () else None)))
        (\<lambda>r u. case r of None \<Rightarrow> ?P u | Some a \<Rightarrow> ?P u) (routed_from S t ev s)" for status
      by (rule hoare_bind [where R = "\<lambda>_. ?P"], rule quiet_write)
         (use kept x in \<open>auto simp: routed_all_def intro!: hoare_return\<close>)
    show ?thesis
      using Some writes by (auto simp: routed_all_def intro!: hoare_return hoare_lift_bind)
  qed
  show "hoare view ?P (completeRoutingRound (sv_db S) t (ev_eventId ev))
      (\<lambda>r u. case r of None \<Rightarrow> ?P u | Some a \<Rightarrow> ?P u) (routed_from S t ev s)"
    unfolding completeRoutingRound_def getEvent_def Let_def
    by (intro quiet_core_then round) (simp add: routed_all_def)
qed (auto simp: routed_all_def intro: hoare_throw)

lemma listed_then:
  assumes "\<And>subs. (\<forall>sub \<in> Y. su_enabled sub \<longrightarrow> sub \<in> set subs) \<Longrightarrow> hoare view (\<lambda>u. u = s) (g subs) Q E" and "E s"
    and complete: "\<And>v rows sub. view v = s \<Longrightarrow> sub \<in> Y
      \<Longrightarrow> fst (db_query (sv_db S) (subscription_of_type t eventType) None v) = Inr rows
      \<Longrightarrow> \<exists>k. (k, It_Subscription sub) \<in> set rows"
  shows "hoare view (\<lambda>u. u = s) (bindM (listSubscriptions (sv_db S) t eventType) g) Q E"
proof (rule hoare_bind)
  show "hoare view (\<lambda>u. u = s) (listSubscriptions (sv_db S) t eventType)
      (\<lambda>subs u. (\<forall>sub \<in> Y. su_enabled sub \<longrightarrow> sub \<in> set subs) \<and> u = s) E"
  proof (rule hoareI)
    fix w r w'
    assume w: "view w = s" and run: "listSubscriptions (sv_db S) t eventType w = (r, w')"
    obtain q w1 where q: "db_query (sv_db S) (subscription_of_type t eventType) None w = (q, w1)"
      by (cases "db_query (sv_db S) (subscription_of_type t eventType) None w")
    have w1: "view w1 = s" using query_law [OF q] w by simp
    show "case r of Inr subs \<Rightarrow> (\<forall>sub \<in> Y. su_enabled sub \<longrightarrow> sub \<in> set subs) \<and> view w' = s | Inl e \<Rightarrow> E (view w')"
    proof (cases q)
      case (Inl e)
      with run q w1 assms(2) show ?thesis by (auto simp: listSubscriptions_def bindM_def)
    next
      case (Inr rows)
      let ?f = "\<lambda>(k, it). if isExpired it (db_now (sv_db S) w1) then None else as_subscription (Some it)"
      have r: "r = Inr (List.map_filter ?f rows)" "w' = w1"
        using run q Inr by (auto simp: listSubscriptions_def bindM_def withNow_def returnM_def)
      have "sub \<in> set (List.map_filter ?f rows)" if Y: "sub \<in> Y" for sub
      proof -
        obtain k where "(k, It_Subscription sub) \<in> set rows" using complete [OF w Y] q Inr by auto
        moreover have "?f (k, It_Subscription sub) = Some sub" by (simp add: isExpired_def)
        ultimately show ?thesis unfolding map_filter_def by force
      qed
      with r w1 show ?thesis by simp
    qed
  qed
  show "hoare view (\<lambda>u. (\<forall>sub \<in> Y. su_enabled sub \<longrightarrow> sub \<in> set subs) \<and> u = s) (g subs) Q E" for subs
    using assms(1) by (rule hoare_conj_pure)
qed

lemma route_from_event:
  assumes complete: "\<And>v rows sub. view v = s \<Longrightarrow> sub \<in> Y
      \<Longrightarrow> fst (db_query (sv_db S) (subscription_of_type t (ev_eventType ev)) None v) = Inr rows
      \<Longrightarrow> \<exists>k. (k, It_Subscription sub) \<in> set rows"
    and here: "s (K_Event t (ev_eventId ev)) = Some (It_Event ev)" and cx: "cx_tenantId cx = t"
  shows "hoare view (\<lambda>u. u = s)
    (bindM (listSubscriptions (sv_db S) t (ev_eventType ev)) (\<lambda>subs.
     bindM (foldM (routeSubscription S cx ev) (filter su_enabled subs) 0) (\<lambda>_.
       completeRouting (sv_db S) t (ev_eventId ev))))
    (\<lambda>_. routed_all S t ev s {sub \<in> Y. su_enabled sub}) (routed_from S t ev s)"
proof (rule listed_then [OF _ _ complete])
  have start: "routed_from S t ev s s" using here by (simp add: routed_from_def)
  then show "routed_from S t ev s s" .
  fix subs
  assume subs: "\<forall>sub \<in> Y. su_enabled sub \<longrightarrow> sub \<in> set subs"
  have "hoare view (routed_all S t ev s {})
      (bindM (foldM (routeSubscription S cx ev) (filter su_enabled subs) 0) (\<lambda>_. completeRouting (sv_db S) t (ev_eventId ev)))
      (\<lambda>_. routed_all S t ev s ({} \<union> set (filter su_enabled subs))) (routed_from S t ev s)"
    by (rule hoare_bind [OF routing_loop [OF cx] completeRouting_adds])
  then show "hoare view (\<lambda>u. u = s)
      (bindM (foldM (routeSubscription S cx ev) (filter su_enabled subs) 0) (\<lambda>_. completeRouting (sv_db S) t (ev_eventId ev)))
      (\<lambda>_. routed_all S t ev s {sub \<in> Y. su_enabled sub}) (routed_from S t ev s)"
    by (rule hoare_weaken) (use start subs in \<open>auto simp: routed_all_def\<close>)
qed

lemma route_result:
  assumes here: "view w (K_Event t e) = Some (It_Event ev)" "ev_eventId ev = e"
    and complete: "\<And>v rows. view v = view w
      \<Longrightarrow> fst (db_query (sv_db S) (subscription_of_type t (ev_eventType ev)) None v) = Inr rows
      \<Longrightarrow> \<exists>k. (k, It_Subscription sub) \<in> set rows"
    and run: "route S t e c w = (r, w1)"
  shows "routed_from S t ev (view w) (view w1)
    \<and> (r = Inr () \<longrightarrow> su_enabled sub
        \<longrightarrow> \<not> isExpired (It_Event ev) (db_now (sv_db S) (snd (db_get (sv_db S) (K_Event t e) w)))
        \<longrightarrow> reached S t ev (view w) sub (view w1))"
proof -
  obtain g v where g: "db_get (sv_db S) (K_Event t e) w = (g, v)" by (cases "db_get (sv_db S) (K_Event t e) w")
  have v: "view v = view w" and x: "\<And>x. g = Inr x \<Longrightarrow> x = Some (It_Event ev)"
    using get_law [OF g] here by auto
  have start: "routed_from S t ev (view w) (view w)" using here by (simp add: routed_from_def)
  let ?rest = "bindM (listSubscriptions (sv_db S) t (ev_eventType ev)) (\<lambda>subs.
     bindM (foldM (routeSubscription S (routingContext t c) ev) (filter su_enabled subs) 0) (\<lambda>_.
       completeRouting (sv_db S) t (ev_eventId ev)))"
  consider (failed) err where "g = Inl err" | (expired) "isExpired (It_Event ev) (db_now (sv_db S) v)" "g = Inr (Some (It_Event ev))"
    | (found) "\<not> isExpired (It_Event ev) (db_now (sv_db S) v)" "g = Inr (Some (It_Event ev))"
    using x by (cases g) auto
  then show ?thesis
  proof cases
    case failed
    then have "r = Inl err" "w1 = v"
      using run g by (simp_all add: route_def getEvent_def mapM_def getCore_def bindM_def)
    with start v show ?thesis by simp
  next
    case expired
    then have "w1 = v"
      using run g by (simp add: route_def getEvent_def mapM_def getCore_def bindM_def returnM_def live_item_def)
    with start v g expired show ?thesis by simp
  next
    case found
    then have "?rest v = (r, w1)"
      using run g by (simp add: route_def getEvent_def mapM_def getCore_def bindM_def returnM_def live_item_def)
    moreover have "hoare view (\<lambda>u. u = view w) ?rest
        (\<lambda>_. routed_all S t ev (view w) {s \<in> {sub}. su_enabled s}) (routed_from S t ev (view w))"
      using here complete by (intro route_from_event) (auto simp: routingContext_def)
    ultimately show ?thesis
      using v by (auto dest!: hoareD simp: routed_all_def split: sum.splits)
  qed
qed

end

end
