(* ===== verification/Routing_Runs.thy ===== *)
theory Routing_Runs
  imports Routing Outbox_Publisher
begin

text \<open>
  The properties of \<open>RoutingService\<close>: routing is safe beside other clients, it adds at most one delivery per
  destination and one for every routable subscription, and it blames the transformation for any failure.
\<close>

section \<open>Creating a delivery, alone\<close>

lemma event_status_name_inj: "event_status_name a = event_status_name b \<Longrightarrow> a = b"
  by (cases a; cases b) simp_all

lemma create_distinct: "tx_distinct (createTransaction shards inp event (withOutcome event oc st))"
proof -
  let ?updated = "withOutcome event oc st" and ?t = "cx_tenantId (cr_context inp)"
  have idx: "k \<notin> op_key ` set (indexPutsNew (cr_delivery inp))" if "\<And>t c a i. k \<noteq> K_DeliveryIndex t c a i" for k
    using that by (auto simp: index_ops_keys deliveryIndexKey_def)
  have status: "distinct (map op_key (statusIndexOps ?t event ?updated))"
    by (auto simp: statusIndexOps_def eventStatusKey_def withOutcome_def dest: event_status_name_inj)
  have other: "k \<notin> op_key ` set (statusIndexOps ?t event ?updated)" if "\<And>t c a i. k \<noteq> K_EventIndex t c a i" for k
    using that by (auto simp: statusIndexOps_def eventStatusKey_def)
  have apart: "op_key ` set (indexPutsNew (cr_delivery inp)) \<inter> op_key ` set (statusIndexOps ?t event ?updated) = {}"
    by (auto simp: index_ops_keys deliveryIndexKey_def statusIndexOps_def eventStatusKey_def)
  let ?rollups = "createRollups ?t (cr_delivery inp)"
  have rolls: "k \<notin> op_key ` set ?rollups" if "\<And>t h n. k \<noteq> K_Rollup t h n" "\<And>t h n. k \<noteq> K_DestinationRollup t h n" for k
    unfolding createRollups_def Let_def
    by (cases "isTerminalDeliveryState (d_state (cr_delivery inp)) \<and> d_executionType (cr_delivery inp) = ORIGINAL")
       (simp_all only: if_True if_False that image_insert image_empty op_sel list.set insert_iff empty_iff simp_thms)
  have rolls_apart: "op_key ` set (indexPutsNew (cr_delivery inp)) \<inter> op_key ` set ?rollups = {}"
      "op_key ` set (statusIndexOps ?t event ?updated) \<inter> op_key ` set ?rollups = {}" "distinct (map op_key ?rollups)"
    by (auto simp: index_ops_keys deliveryIndexKey_def statusIndexOps_def eventStatusKey_def createRollups_def Let_def)
  show ?thesis
    using status apart rolls_apart
    by (cases "cr_outbox inp")
       (simp_all add: createTransaction_def Let_def tx_distinct_def outboxPut_def eventPut_def idx other rolls
          Int_Un_distrib)
qed

context dynamo_alone
begin

lemma createDelivery_run:
  fixes inp
  defines "t \<equiv> cx_tenantId (cr_context inp)" and "d \<equiv> cr_delivery inp"
  assumes "view w (K_Lookup t LK_Delivery (d_deliveryId d)) = None"
    and "view w (K_Event t (d_eventId d)) = Some (It_Event ev)" "\<not> isExpired (It_Event ev) (db_now db w)"
    and "deriveEventStatus (countCreated (ev_outcome ev) (d_state d)) = Inr st"
    and "tx_conditions (createTransaction shards inp ev (withOutcome ev (countCreated (ev_outcome ev) (d_state d)) st)) (view w)"
  shows "yields db view (createDelivery db shards inp) w (Inr Created)
    (tx_apply (createTransaction shards inp ev (withOutcome ev (countCreated (ev_outcome ev) (d_state d)) st)) (view w))"
proof -
  let ?ops = "createTransaction shards inp ev (withOutcome ev (countCreated (ev_outcome ev) (d_state d)) st)"
  have "yields db view (createDeliveryRound db shards inp) w (Inr (Some Created)) (tx_apply ?ops (view w))"
    unfolding createDeliveryRound_def Let_def t_def [symmetric] d_def [symmetric]
  proof (rule yields_bind [OF yields_core])
    fix w1
    assume w1: "view w1 = view w" "db_now db w1 = db_now db w"
    have event: "yields db view (getEvent db t (d_eventId d)) w1 (Inr (Some ev)) (view w)"
      using yields_event [of w1 t "d_eventId d" ev] assms(4,5) w1 by simp
    have "yields db view (bindM (db_write db ?ops) (\<lambda>ok. returnM (if ok then Some Created else None))) w2
        (Inr (Some Created)) (tx_apply ?ops (view w))" if "view w2 = view w" for w2
      by (rule yields_bind [OF yields_commit [OF create_distinct, of shards inp ev _ st w2, unfolded that, OF assms(7)]])
         (simp add: yields_return)
    then show "yields db view
        (if as_lookup (live_item (view w (K_Lookup t LK_Delivery (d_deliveryId d))) (db_now db w)) \<noteq> None
         then returnM (Some Already_There)
         else bindM (getEvent db t (d_eventId d)) (\<lambda>found. case found of
            None \<Rightarrow> throwM (Error ''EVENT_NOT_FOUND'')
          | Some event \<Rightarrow>
            bindM (liftM (deriveEventStatus (countCreated (ev_outcome event) (d_state d)))) (\<lambda>status.
            bindM (db_write db (createTransaction shards inp event
                (withOutcome event (countCreated (ev_outcome event) (d_state d)) status)))
              (\<lambda>ok. returnM (if ok then Some Created else None))))) w1
        (Inr (Some Created)) (tx_apply ?ops (view w))"
      using assms(3,6) by (auto simp: live_item_def intro!: yields_bind [OF event])
  qed
  then show ?thesis
    unfolding createDelivery_def by (simp add: numeral_eq_Suc yields_retry_done del: retryM.simps)
qed

end

section \<open>A tenant with one destination\<close>

definition sample_partner :: partner where
  "sample_partner = \<lparr>pa_partnerId = ''ptr_1'', pa_tenantId = ''t1'', pa_name = ''Alpha'', pa_externalKey = ''alpha'',
     pa_description = None, pa_enabled = True, pa_createdAt = 100, pa_updatedAt = 100, pa_version = 1\<rparr>"

definition sample_destination :: destination where
  "sample_destination = \<lparr>de_destinationId = ''dst_1'', de_partnerId = ''ptr_1'', de_tenantId = ''t1'', de_name = ''Orders'',
     de_externalKey = ''orders'', de_baseUrl = ''https://p.test'', de_path = ''/orders'', de_enabled = True,
     de_authType = Api_Key, de_authConfiguration = JObj [], de_secretReferences = [''alpha-key''], de_timeoutMs = 5000,
     de_retryPolicy = sample_policy,
     de_rateLimitPolicy = \<lparr>rl_requestsPerInterval = 10, rl_intervalSeconds = 1, rl_burstCapacity = 5, rl_safetyFactor = 1\<rparr>,
     de_circuitBreakerPolicy = \<lparr>cb_failureThreshold = 3, cb_cooldownSeconds = 30, cb_probeLeaseSeconds = 10\<rparr>,
     de_transformationId = ''trf_1'', de_activeTransformationVersion = 1, de_sensitiveResponseJsonPaths = [],
     de_version = 1\<rparr>"

definition sample_transformation :: transformation_version where
  "sample_transformation = \<lparr>tf_transformationId = ''trf_1'', tf_externalKey = ''orders'', tf_tenantId = ''t1'', tf_version = 1,
     tf_definition = JObj [(''order'', JStr ''o1'')], tf_createdAt = 100, tf_createdBy = ''usr_1''\<rparr>"

text \<open>An event without deliveries; for short runs its routing counts as complete from the start.\<close>

definition unrouted_event :: canonical_event where
  "unrouted_event = sample_event\<lparr>ev_status := Ev_No_Destinations, ev_outcome := no_outcome\<lparr>oc_routingComplete := True\<rparr>\<rparr>"

definition routing_table :: dtable where
  "routing_table = [K_Event ''t1'' ''evt_1'' \<mapsto> It_Event unrouted_event,
     K_Subscription ''t1'' ''order.created'' ''dst_1'' \<mapsto> It_Subscription sample_subscription,
     K_Destination ''t1'' ''dst_1'' \<mapsto> It_Destination sample_destination,
     K_Partner ''t1'' ''ptr_1'' \<mapsto> It_Partner sample_partner,
     K_Transformation ''t1'' ''trf_1'' 1 \<mapsto> It_Transformation sample_transformation]"

lemma routing_table_inv: "table_inv routing_table"
proof -
  have "originals routing_table ''t1'' ''evt_1'' P = {}" for P by (auto simp: originals_def routing_table_def)
  then have "event_ok routing_table ''t1'' ''evt_1'' unrouted_event"
    by (simp add: event_ok_def tally_def observed_counters_def unrouted_event_def sample_event_def no_outcome_def
        deriveEventStatus_def counters_inconsistent_def throw_if_def)
  then show ?thesis by (auto simp: table_inv_def routing_table_def split: if_splits)
qed

lemma routing_target: "route_target routing_table ''t1'' sample_subscription = Some sample_destination"
  by (simp add: route_target_def routing_table_def sample_subscription_def sample_destination_def sample_partner_def)

section \<open>Routing is safe\<close>

text \<open>
  C5. Routing an event is safe as a whole, beside any other safe clients: whatever they do between its
  reads and writes, and wherever it fails, the counters and the status of every event stay those of its
  deliveries; this includes the creation of the deliveries, the handler that creates a failed delivery after
  an exception, and the completion of the routing.
\<close>

theorem route_safe:
  assumes "safe_services S view" and "table_inv (view w)"
  shows "safe (view w) (view (snd (route S t e c w))) \<and> table_inv (view (snd (route S t e c w)))"
  using assms(2)
  by (rule safe_table.plain_operation_safe [OF safe_services.axioms(1) [OF assms(1)] safe_services.route_keeps [OF assms(1)]])

lemma route_safe_witness:
  "table_inv (mem_table (snd (route (sample_services (mem_db [K_Subscription ''t1'' ''order.created'' ''dst_1''] safe))
     ''t1'' ''evt_1'' ''cor_1'' (sample_world routing_table))))"
  using route_safe [OF mem_safe_services.safe_services_axioms, where w = "sample_world routing_table"] routing_table_inv
  by simp

section \<open>Every routable subscription is reached, once\<close>

text \<open>
  C16. Routing without interference: the services do not touch the table, nobody else writes and no call is
  cancelled half-way. Whether it returns or throws, the rows it has added are index rows and,
  for a destination, one delivery under the identifier derived from event and destination with its lookup
  row; it has changed the event and nothing else, so routing an event again adds nothing for a destination
  that has its delivery. And when it returns for an event that has not expired, every enabled subscription that
  the query lists and whose destination, partner and transformation are there and enabled has its delivery in
  the table: an original one that is scheduled or has failed in its transformation. Where a lookup row of its
  identifier was there before, that row and the row of the delivery, if there is one, are what they were.
\<close>

theorem routing_reaches:
  assumes "quiet_services S view"
    and "view w (K_Event t e) = Some (It_Event ev)" "ev_eventId ev = e"
    and "\<And>v rows. view v = view w \<Longrightarrow> fst (db_query (sv_db S) (subscription_of_type t (ev_eventType ev)) None v) = Inr rows
      \<Longrightarrow> \<exists>k. (k, It_Subscription sub) \<in> set rows"
    and "route S t e c w = (r, w1)"
  shows "routed_from S t ev (view w) (view w1)
    \<and> (r = Inr () \<longrightarrow> su_enabled sub \<longrightarrow> route_target (view w) t sub = Some dest
        \<longrightarrow> \<not> isExpired (It_Event ev) (db_now (sv_db S) (snd (db_get (sv_db S) (K_Event t e) w)))
        \<longrightarrow> (let i = originalDeliveryId S ev (de_destinationId dest) in
             if view w (K_Lookup t LK_Delivery i) = None
             then (\<exists>d. view w1 (K_Delivery t e i) = Some (It_Delivery d) \<and> d_executionType d = ORIGINAL
                \<and> originalDeliveryId S ev (d_destinationId d) = i \<and> d_version d = 1
                \<and> (d_state d = Scheduled
                   \<or> d_state d = Failed_Terminal \<and> d_blockedReason d = Some TRANSFORMATION_ERROR))
             else view w1 (K_Lookup t LK_Delivery i) = view w (K_Lookup t LK_Delivery i)
               \<and> (view w (K_Delivery t e i) \<noteq> None \<longrightarrow> view w1 (K_Delivery t e i) = view w (K_Delivery t e i))))"
proof -
  have both: "routed_from S t ev (view w) (view w1)
    \<and> (r = Inr () \<longrightarrow> su_enabled sub
        \<longrightarrow> \<not> isExpired (It_Event ev) (db_now (sv_db S) (snd (db_get (sv_db S) (K_Event t e) w)))
        \<longrightarrow> reached S t ev (view w) sub (view w1))"
    by (rule quiet_services.route_result [OF assms(1-3) _ assms(5)]) (rule assms(4))
  then have "if view w k = None then view w1 k = None \<or> routed_row S t ev (view w1) k else view w1 k = view w k"
    if "\<not> is_index_key k" "k \<noteq> K_Event t e" for k
    using that assms(3) unfolding routed_from_def by blast
  from this [of "K_Lookup t LK_Delivery (originalDeliveryId S ev (de_destinationId dest))"]
    this [of "K_Delivery t e (originalDeliveryId S ev (de_destinationId dest))"] both assms(3) show ?thesis
    by (auto simp: reached_def Let_def routed_row_def)
qed

text \<open>The routing of the sample event, step by step.\<close>

lemma routing_rows [simp]:
  "routing_table (K_Event ''t1'' ''evt_1'') = Some (It_Event unrouted_event)"
  "routing_table (K_Subscription ''t1'' ''order.created'' ''dst_1'') = Some (It_Subscription sample_subscription)"
  "routing_table (K_Destination ''t1'' ''dst_1'') = Some (It_Destination sample_destination)"
  "routing_table (K_Partner ''t1'' ''ptr_1'') = Some (It_Partner sample_partner)"
  "routing_table (K_Transformation ''t1'' ''trf_1'' 1) = Some (It_Transformation sample_transformation)"
  "routing_table (K_Lookup t l i) = None" "routing_table (K_Delivery t e i) = None"
  "routing_table (K_History t e i n h) = None" "routing_table (K_DeliveryIndex t c n i) = None"
  "routing_table (K_EventIndex t c n i) = None" "routing_table (K_Outbox sh n i) = None"
  by (simp_all add: routing_table_def)

lemma unrouted_fields [simp]:
  "ev_eventId unrouted_event = ''evt_1''" "ev_tenantId unrouted_event = ''t1''"
  "ev_eventType unrouted_event = ''order.created''" "ev_version unrouted_event = 2"
  "ev_outcome unrouted_event = no_outcome\<lparr>oc_routingComplete := True\<rparr>"
  "ev_expiresAt unrouted_event = Epoch 9000"
  by (simp_all add: unrouted_event_def sample_event_def)

lemma yields_catch: "yields db view m w (Inr a) s \<Longrightarrow> yields db view (catchM m h) w (Inr a) s"
  by (auto simp: yields_def catchM_def)

lemma yields_read: "view w = s \<Longrightarrow> yields db view (readM f) w (Inr (f w)) s"
  by (simp add: yields_def readM_def)

definition routing_counted :: outcome_counters where
  "routing_counted = countCreated (no_outcome\<lparr>oc_routingComplete := True\<rparr>) Scheduled"

lemma routing_status: "deriveEventStatus routing_counted = Inr Ev_Processing"
  by (simp add: routing_counted_def countCreated_def one_if_def no_outcome_def deriveEventStatus_def
      counters_inconsistent_def throw_if_def)

lemma routing_conditions:
  assumes "cx_tenantId (cr_context inp) = ''t1''" and "d_eventId (cr_delivery inp) = ''evt_1''"
  shows "tx_conditions (createTransaction shards inp unrouted_event (withOutcome unrouted_event oc st)) routing_table"
proof -
  have "tx_conditions (createRollups t d) routing_table" for t d
    by (simp add: createRollups_def Let_def)
  moreover have "tx_conditions (statusIndexOps t e u) routing_table" for t e u
    by (simp add: statusIndexOps_def)
  moreover have "tx_conditions (indexPutsNew d) routing_table" for d
    by (auto simp: tx_conditions_def list_all_iff indexPutsNew_def deliveryIndexKey_def)
  ultimately show ?thesis
    using assms
    by (simp add: createTransaction_def Let_def eventPut_def withOutcome_def version_is_def outboxPut_def split: option.split)
qed

lemma routing_creates:
  fixes ks inp
  assumes "mem_table w = routing_table" and "mem_clock w = 2000" and "cx_tenantId (cr_context inp) = ''t1''"
    and "d_eventId (cr_delivery inp) = ''evt_1''" "d_state (cr_delivery inp) = Scheduled"
  shows "yields (mem_db ks (=)) mem_table (createDelivery (mem_db ks (=)) 4 inp) w (Inr Created)
    (tx_apply (createTransaction 4 inp unrouted_event (withOutcome unrouted_event routing_counted Ev_Processing)) routing_table)"
proof -
  have "\<not> isExpired (It_Event unrouted_event) 2000" by (simp add: isExpired_def)
  then show ?thesis
    using mem_alone.createDelivery_run [where w = w and inp = inp and ev = unrouted_event and st = Ev_Processing
        and shards = 4 and ks = ks] assms routing_conditions [OF assms(3,4)] routing_status
    by (simp add: mem_db_def routing_counted_def)
qed

text \<open>After the creation the event is still complete, so that completing its routing does nothing.\<close>

lemma routing_to_sample:
  fixes ks
  assumes w: "mem_table w = routing_table" "mem_clock w = 2000"
  shows "\<exists>s. yields (mem_db ks (=)) mem_table (routeTo (sample_services (mem_db ks (=))) (routingContext ''t1'' c)
       unrouted_event sample_destination sample_transformation 0) w (Inr 1) s
     \<and> s (K_Event ''t1'' ''evt_1'') = Some (stored_event (withOutcome unrouted_event routing_counted Ev_Processing))"
proof -
  let ?S = "sample_services (mem_db ks (=))" and ?cx = "routingContext ''t1'' c"
  let ?snapshot = "routedSnapshot sample_destination sample_transformation (de_baseUrl sample_destination @ de_path sample_destination)"
  let ?d = "routedDelivery ?S unrouted_event sample_destination ?snapshot (tf_definition sample_transformation, ''h'') 2000 2000"
  let ?inp = "\<lparr>cr_context = ?cx, cr_delivery = ?d, cr_history = createdHistory ''req_1'' ?d 2000,
     cr_outbox = Some (deliverOutbox ?S unrouted_event (d_deliveryId ?d) 2000 None)\<rparr>"
  let ?ops = "createTransaction 4 ?inp unrouted_event (withOutcome unrouted_event routing_counted Ev_Processing)"
  have inp: "cx_tenantId (cr_context ?inp) = ''t1''" "d_eventId (cr_delivery ?inp) = ''evt_1''"
      "d_state (cr_delivery ?inp) = Scheduled"
    by (simp_all add: routingContext_def routedDelivery_def)
  have created: "yields (mem_db ks (=)) mem_table (createDelivery (mem_db ks (=)) 4 ?inp) w (Inr Created) (tx_apply ?ops routing_table)"
    by (rule routing_creates [OF w inp])
  have "tx_ok ?ops routing_table"
    using create_distinct routing_conditions [OF inp(1,2)] by (simp add: tx_ok_def)
  from create_puts(3) [OF this inp(1) [symmetric] refl]
  have row: "tx_apply ?ops routing_table (K_Event ''t1'' ''evt_1'')
      = Some (stored_event (withOutcome unrouted_event routing_counted Ev_Processing))"
    by (simp add: withOutcome_def)
  have scheduled: "yields (mem_db ks (=)) mem_table
      (routeScheduled ?S ?cx unrouted_event sample_destination sample_transformation ?snapshot 2000) w (Inr Created)
      (tx_apply ?ops routing_table)"
    using created w
    by (simp add: routeScheduled_def sample_services_def bindM_def readM_def returnM_def liftM_def yields_def Let_def)
  have "yields (mem_db ks (=)) mem_table (routeTo ?S ?cx unrouted_event sample_destination sample_transformation 0) w (Inr 1)
      (tx_apply ?ops routing_table)"
    using scheduled w
    by (auto simp: routeTo_def Let_def sample_services_def bindM_def readM_def returnM_def liftM_def yields_def catchM_def)
  with row show ?thesis by blast
qed

lemma routing_run_sample:
  "\<exists>w1. route (sample_services (mem_db [K_Subscription ''t1'' ''order.created'' ''dst_1''] (=))) ''t1'' ''evt_1'' ''cor_1''
     (sample_world routing_table) = (Inr (), w1)"
proof -
  let ?ks = "[K_Subscription ''t1'' ''order.created'' ''dst_1'']"
  let ?S = "sample_services (mem_db ?ks (=))" and ?db = "mem_db ?ks (=)" and ?w = "sample_world routing_table"
  let ?cx = "routingContext ''t1'' ''cor_1''"
  have now: "db_now ?db w = mem_clock w" for w by (simp add: mem_db_def)
  have S: "sv_db ?S = ?db" by (simp add: sample_services_def)
  have clock: "mem_clock ?w = 2000" by (simp add: sample_world_def)
  have live: "\<not> isExpired (It_Event unrouted_event) 2000" by (simp add: isExpired_def)
  have event: "yields ?db mem_table (getEvent ?db ''t1'' ''evt_1'') ?w (Inr (Some unrouted_event)) routing_table"
    using mem_alone.yields_event [where w = ?w and t = "''t1''" and e = "''evt_1''" and ev = unrouted_event and ks = ?ks]
      live clock by (simp add: now)
  have listed: "yields ?db mem_table (listSubscriptions ?db ''t1'' ''order.created'') w (Inr [sample_subscription]) routing_table"
    if "mem_table w = routing_table" for w
    using that
    by (simp add: yields_def listSubscriptions_def bindM_def withNow_def returnM_def mem_db_def mem_query_def Let_def
        map_filter_def isExpired_def)
  let ?s' = "\<lambda>s. s (K_Event ''t1'' ''evt_1'') = Some (stored_event (withOutcome unrouted_event routing_counted Ev_Processing))"
  have one: "\<exists>s. yields ?db mem_table (routeSubscription ?S ?cx unrouted_event sample_subscription 0) w (Inr 1) s \<and> ?s' s"
    if w: "mem_table w = routing_table" "mem_clock w = 2000" for w
  proof -
    note core = mem_alone.yields_core [where ks = ?ks]
    have kd: "K_Destination ''t1'' (su_destinationId sample_subscription) = K_Destination ''t1'' ''dst_1''"
      and kp: "K_Partner ''t1'' (de_partnerId sample_destination) = K_Partner ''t1'' ''ptr_1''"
      and kt: "K_Transformation ''t1'' (de_transformationId sample_destination) (de_activeTransformationVersion sample_destination)
         = K_Transformation ''t1'' ''trf_1'' 1"
      by (simp_all add: sample_subscription_def sample_destination_def)
    have on: "de_enabled sample_destination" "pa_enabled sample_partner"
      by (simp_all add: sample_destination_def sample_partner_def)
    obtain w1 where w1: "mapM as_destination (getCore ?db (K_Destination ''t1'' ''dst_1'')) w = (Inr (Some sample_destination), w1)"
        "mem_table w1 = routing_table" "mem_clock w1 = 2000"
      using core [of as_destination "K_Destination ''t1'' ''dst_1''" w] w by (auto simp: yields_def config_reads now)
    obtain w2 where w2: "mapM as_partner (getCore ?db (K_Partner ''t1'' ''ptr_1'')) w1 = (Inr (Some sample_partner), w2)"
        "mem_table w2 = routing_table" "mem_clock w2 = 2000"
      using core [of as_partner "K_Partner ''t1'' ''ptr_1''" w1] w1 by (auto simp: yields_def config_reads now)
    obtain w3 where w3: "mapM as_transformation (getCore ?db (K_Transformation ''t1'' ''trf_1'' 1)) w2
        = (Inr (Some sample_transformation), w3)" "mem_table w3 = routing_table" "mem_clock w3 = 2000"
      using core [of as_transformation "K_Transformation ''t1'' ''trf_1'' 1" w2] w2 by (auto simp: yields_def config_reads now)
    obtain s where "yields ?db mem_table (routeTo ?S ?cx unrouted_event sample_destination sample_transformation 0) w3 (Inr 1) s" "?s' s"
      using routing_to_sample [OF w3(2,3), where ks = ?ks] by blast
    moreover have "routeSubscription ?S ?cx unrouted_event sample_subscription 0 w
        = routeTo ?S ?cx unrouted_event sample_destination sample_transformation 0 w3"
      using w1 w2 w3 on
      by (simp add: routeSubscription_def S routingContext_def getDestination_def getPartner_def getTransformationVersion_def
          kd kp kt bindM_def)
    ultimately show ?thesis using w w3 by (auto simp: yields_def now)
  qed
  have complete: "yields ?db mem_table (completeRouting ?db ''t1'' ''evt_1'') w (Inr ()) s"
    if "mem_table w = s" "mem_clock w = 2000" "?s' s" for w s
  proof -
    let ?ev = "withOutcome unrouted_event routing_counted Ev_Processing"
    have "yields ?db mem_table (getEvent ?db ''t1'' ''evt_1'') w (Inr (Some (?ev\<lparr>ev_expiresAt := to_epoch (ev_expiresAt ?ev)\<rparr>))) s"
      using that mem_alone.yields_event [where w = w and t = "''t1''" and e = "''evt_1''" and ks = ?ks
          and ev = "?ev\<lparr>ev_expiresAt := to_epoch (ev_expiresAt ?ev)\<rparr>"]
      by (simp add: stored_event_def now isExpired_def withOutcome_def to_epoch_def)
    then have "yields ?db mem_table (completeRoutingRound ?db ''t1'' ''evt_1'') w (Inr (Some ())) s"
      unfolding completeRoutingRound_def
      by (rule yields_bind)
         (simp add: withOutcome_def routing_counted_def countCreated_def yields_return)
    then show ?thesis
      unfolding completeRouting_def by (simp add: numeral_eq_Suc yields_retry_done del: retryM.simps)
  qed
  obtain w1 where w1: "getEvent ?db ''t1'' ''evt_1'' ?w = (Inr (Some unrouted_event), w1)" "mem_table w1 = routing_table"
      "mem_clock w1 = 2000"
    using event clock by (auto simp: yields_def now)
  obtain w2 where w2: "listSubscriptions ?db ''t1'' ''order.created'' w1 = (Inr [sample_subscription], w2)"
      "mem_table w2 = routing_table" "mem_clock w2 = 2000"
    using listed [OF w1(2)] w1(3) by (auto simp: yields_def now)
  obtain w3 where w3: "routeSubscription ?S ?cx unrouted_event sample_subscription 0 w2 = (Inr 1, w3)" "?s' (mem_table w3)"
      "mem_clock w3 = 2000"
    using one [OF w2(2,3)] w2(3) by (auto simp: yields_def now)
  obtain w4 where "completeRouting ?db ''t1'' ''evt_1'' w3 = (Inr (), w4)"
    using complete [OF refl w3(3,2)] by (auto simp: yields_def)
  moreover have "su_enabled sample_subscription" by (simp add: sample_subscription_def)
  ultimately show ?thesis
    using w1 w2 w3 by (simp add: route_def Let_def S bindM_def returnM_def)
qed

lemma routing_reaches_witness:
  "\<exists>w1. route (sample_services (mem_db [K_Subscription ''t1'' ''order.created'' ''dst_1''] (=))) ''t1'' ''evt_1'' ''cor_1''
      (sample_world routing_table) = (Inr (), w1)
    \<and> (\<exists>d. mem_table w1 (K_Delivery ''t1'' ''evt_1'' (originalDeliveryId (sample_services
         (mem_db [K_Subscription ''t1'' ''order.created'' ''dst_1''] (=))) unrouted_event ''dst_1'')) = Some (It_Delivery d)
       \<and> d_version d = 1)"
proof -
  let ?S = "sample_services (mem_db [K_Subscription ''t1'' ''order.created'' ''dst_1''] (=))" and ?w = "sample_world routing_table"
  obtain w1 where run: "route ?S ''t1'' ''evt_1'' ''cor_1'' ?w = (Inr (), w1)" using routing_run_sample by blast
  have listed: "\<exists>k. (k, It_Subscription sample_subscription) \<in> set rows"
    if "mem_table v = mem_table ?w"
      "fst (db_query (sv_db ?S) (subscription_of_type ''t1'' (ev_eventType unrouted_event)) None v) = Inr rows" for v rows
    using that by (auto simp: sample_services_def mem_db_def mem_query_def Let_def)
  have live: "\<not> isExpired (It_Event unrouted_event) (db_now (sv_db ?S) (snd (db_get (sv_db ?S) (K_Event ''t1'' ''evt_1'') ?w)))"
    by (simp add: sample_services_def mem_db_def mem_get_def sample_world_def interfere_def isExpired_def)
  from routing_reaches [OF mem_services.quiet_services_axioms, where w = ?w and t = "''t1''" and e = "''evt_1''"
      and ev = unrouted_event and sub = sample_subscription and dest = sample_destination, OF _ _ listed run]
  have "\<exists>d. mem_table w1 (K_Delivery ''t1'' ''evt_1'' (originalDeliveryId ?S unrouted_event (de_destinationId sample_destination)))
      = Some (It_Delivery d) \<and> d_executionType d = ORIGINAL
      \<and> originalDeliveryId ?S unrouted_event (d_destinationId d)
          = originalDeliveryId ?S unrouted_event (de_destinationId sample_destination) \<and> d_version d = 1
      \<and> (d_state d = Scheduled \<or> d_state d = Failed_Terminal \<and> d_blockedReason d = Some TRANSFORMATION_ERROR)"
    using live routing_target by (simp add: sample_subscription_def Let_def)
  then have "\<exists>d. mem_table w1 (K_Delivery ''t1'' ''evt_1'' (originalDeliveryId ?S unrouted_event (de_destinationId sample_destination)))
      = Some (It_Delivery d) \<and> d_version d = 1" by blast
  with run show ?thesis by (simp add: sample_destination_def)
qed

section \<open>Any failure is taken for a failed transformation\<close>

lemma failed_fields [simp]:
  "d_state (failedDelivery S ev dest snapshot at_ms now) = Failed_Terminal"
  "d_blockedReason (failedDelivery S ev dest snapshot at_ms now) = Some TRANSFORMATION_ERROR"
  "d_lastFailureCategory (failedDelivery S ev dest snapshot at_ms now) = None"
  by (simp_all add: failedDelivery_def routedDelivery_def)

text \<open>
  C17. The handler of \<open>route\<close> surrounds the creation of the delivery as well as the transformation. When the
  transformation succeeds and anything after it throws (here, whatever makes the scheduled delivery fail), the
  router goes on and, if the second creation succeeds, stores a terminally failed delivery that blames the
  transformation, without a message for the delivery queue; such a delivery carries no failure category, so it
  can never be replayed, not even with a confirmed correction.
\<close>

theorem persistence_failure_blames_transformation:
  assumes "quiet_services S view" and "cx_tenantId cx = t" and "ev_eventId ev = e"
    and "view w (K_Event t e) = Some (It_Event ev)"
    and "sv_url S (de_path dest) (de_baseUrl dest) = Inr url"
    and "sv_execute S (tf_definition tf) (event_json t ev) = Inr transformed"
    and "routeScheduled S cx ev dest tf (routedSnapshot dest tf url) (sv_now S w) w = (Inl err, w1)"
    and "routeFailed S cx ev dest (routedSnapshot dest tf url) (sv_now S w) w1 = (Inr Created, w2)"
  shows "routeTo S cx ev dest tf n w = (Inr n, w2)
    \<and> (\<exists>x. view w2 (K_Delivery t e (originalDeliveryId S ev (de_destinationId dest))) = Some (It_Delivery x)
         \<and> d_state x = Failed_Terminal \<and> d_blockedReason x = Some TRANSFORMATION_ERROR
         \<and> (\<forall>confirmed. \<not> el_eligible (replayEligibility (d_state x) (d_lastFailureCategory x) confirmed)))"
proof -
  let ?id = "originalDeliveryId S ev (de_destinationId dest)" and ?snapshot = "routedSnapshot dest tf url"
  have run: "routeTo S cx ev dest tf n w = (Inr n, w2)"
    using assms(5,7,8) by (simp add: routeTo_def Let_def bindM_def readM_def liftM_def catchM_def returnM_def)
  have start: "routed_from S t ev (view w) (view w)" using assms(3,4) by (simp add: routed_from_def)
  let ?P = "routed_from S t ev (view w)"
  let ?failed = "\<lambda>u. \<exists>x. u (K_Delivery t e ?id) = Some (It_Delivery x) \<and> d_state x = Failed_Terminal
      \<and> d_blockedReason x = Some TRANSFORMATION_ERROR \<and> d_lastFailureCategory x = None"
  have create: "hoare view ?P (createDelivery (sv_db S) (sv_shards S) inp) (\<lambda>r u. r = Created \<longrightarrow> ?failed u) ?P"
    if "cx_tenantId (cr_context inp) = t" "cr_delivery inp = failedDelivery S ev dest ?snapshot (sv_now S w) now" for inp now
  proof -
    have "hoare view ?P (createDelivery (sv_db S) (sv_shards S) inp)
      (\<lambda>r u. ?P u \<and> u (K_Lookup t LK_Delivery (d_deliveryId (failedDelivery S ev dest ?snapshot (sv_now S w) now))) \<noteq> None
        \<and> (r = Created \<longrightarrow> u (K_Delivery t (ev_eventId ev) (d_deliveryId (failedDelivery S ev dest ?snapshot (sv_now S w) now)))
             = Some (stored_delivery (failedDelivery S ev dest ?snapshot (sv_now S w) now)))) ?P"
      by (rule quiet_services.createDelivery_adds [OF assms(1) that routed_routable(2), where P = ?P and s = "view w"])
         (assumption | rule routed_commit [OF _ _ that routed_routable(2)])+
    then show ?thesis by (rule hoare_weaken) (auto simp: stored_delivery_def assms(3))
  qed
  have failed: "hoare view ?P (routeFailed S cx ev dest ?snapshot (sv_now S w)) (\<lambda>r u. r = Created \<longrightarrow> ?failed u) ?P"
    unfolding routeFailed_def Let_def
    by (intro quiet_services.readM_quiet_then [OF assms(1)] quiet_services.next_quiet_then [OF assms(1)] create)
       (simp_all add: assms(2))
  have scheduled: "hoare view ?P (routeScheduled S cx ev dest tf ?snapshot (sv_now S w)) (\<lambda>_. ?P) ?P"
    unfolding routeScheduled_def Let_def
    by (intro hoare_lift_bind quiet_services.readM_quiet_then [OF assms(1)] quiet_services.next_quiet_then [OF assms(1)]
        hoare_weaken [OF quiet_services.createDelivery_adds [OF assms(1) _ refl, where ev = ev and P = ?P and s = "view w"]])
       (auto simp: routed_routable assms(2) intro!: routed_commit [OF _ _ _ refl])
  from hoareD [OF scheduled start assms(7)] have "?P (view w1)" by simp
  from hoareD [OF failed this assms(8)] obtain x where
    "view w2 (K_Delivery t e ?id) = Some (It_Delivery x)" "d_state x = Failed_Terminal"
    "d_blockedReason x = Some TRANSFORMATION_ERROR" "d_lastFailureCategory x = None" by auto
  then have "view w2 (K_Delivery t e ?id) = Some (It_Delivery x) \<and> d_state x = Failed_Terminal
      \<and> d_blockedReason x = Some TRANSFORMATION_ERROR
      \<and> (\<forall>confirmed. \<not> el_eligible (replayEligibility (d_state x) (d_lastFailureCategory x) confirmed))"
    by (simp add: replayEligibility_def)
  with run show ?thesis by blast
qed

text \<open>A database in memory whose first calls to write fail; the number of these is part of the world.\<close>

definition flaky_db :: "(mem \<times> nat) dynamo" where
  "flaky_db = (beside_db (mem_db [] (=)))\<lparr>db_write := (\<lambda>ops w. case snd w of
      0 \<Rightarrow> beside (db_write (mem_db [] (=)) ops) w
    | Suc n \<Rightarrow> (Inl (ServiceError ''InternalServerError''), (fst w, n)))\<rparr>"

definition flaky_services :: "(mem \<times> nat) services" where
  "flaky_services = \<lparr>sv_db = flaky_db, sv_shards = 4, sv_next = (\<lambda>p. returnM (p @ ''_1'')), sv_now = mem_clock \<circ> fst,
     sv_traceparent = (\<lambda>_. None), sv_sha256 = sample_sha256, sv_number = unary,
     sv_url = (\<lambda>path base. Inr (base @ path)), sv_execute = (\<lambda>definition input. Inr (definition, ''h'')),
     sv_retentionDays = 30, sv_supportedEventTypes = []\<rparr>"

lemma flaky_sel:
  "db_get flaky_db = db_get (beside_db (mem_db [] (=)))" "db_query flaky_db = db_query (beside_db (mem_db [] (=)))"
  "db_index flaky_db = db_index (beside_db (mem_db [] (=)))" "db_now flaky_db = db_now (beside_db (mem_db [] (=)))"
  by (simp_all add: flaky_db_def)

lemma flaky_write: "db_write flaky_db ops w = (case snd w of
      0 \<Rightarrow> db_write (beside_db (mem_db [] (=))) ops w
    | Suc n \<Rightarrow> (Inl (ServiceError ''InternalServerError''), (fst w, n)))"
  by (simp add: flaky_db_def beside_db_def split: nat.split)

interpretation flaky: quiet_services flaky_services "mem_table \<circ> fst"
proof -
  have base: "dynamo_table (beside_db (mem_db [] (=))) (mem_table \<circ> fst) (=)"
    by (rule beside_table) (rule mem_alone.dynamo_table_axioms)
  have "dynamo_table flaky_db (mem_table \<circ> fst) (=)"
  proof
    show "\<exists>s. (mem_table \<circ> fst) w = s \<and> (case r of Inr True \<Rightarrow> tx_ok ops s \<and> (mem_table \<circ> fst) w' = tx_apply ops s
       | Inr False \<Rightarrow> (mem_table \<circ> fst) w' = s
       | Inl e \<Rightarrow> (mem_table \<circ> fst) w' = s \<or> (tx_ok ops s \<and> (mem_table \<circ> fst) w' = tx_apply ops s))"
      if run: "db_write flaky_db ops w = (r, w')" for ops w r w'
    proof (cases "snd w")
      case 0
      with run dynamo_table.write_law [OF base, of ops w r w'] show ?thesis by (simp add: flaky_write)
    next
      case (Suc n)
      with run show ?thesis by (auto simp: flaky_write)
    qed
  next
    fix k w r w'
    assume "db_get flaky_db k w = (r, w')"
    then show "(mem_table \<circ> fst) w = (mem_table \<circ> fst) w'
        \<and> (\<forall>x. r = Inr x \<longrightarrow> (\<exists>s. s = (mem_table \<circ> fst) w' \<and> x = s k))"
      unfolding flaky_sel by (rule dynamo_table.get_law [OF base])
  next
    fix P n w r w'
    assume "db_query flaky_db P n w = (r, w')"
    then show "(mem_table \<circ> fst) w = (mem_table \<circ> fst) w' \<and> (\<forall>xs. r = Inr xs \<longrightarrow>
        (\<forall>(k, it) \<in> set xs. P k \<and> (\<exists>s. s = (mem_table \<circ> fst) w' \<and> s k = Some it)))"
      unfolding flaky_sel by (rule dynamo_table.query_law [OF base])
  next
    fix A n w r w'
    assume "db_index flaky_db A n w = (r, w')"
    then show "(mem_table \<circ> fst) w = (mem_table \<circ> fst) w' \<and> (\<forall>xs. r = Inr xs \<longrightarrow>
        (\<forall>(k, it) \<in> set xs. A it \<and> (\<exists>s. s = (mem_table \<circ> fst) w' \<and> s k = Some it)))"
      unfolding flaky_sel by (rule dynamo_table.index_law [OF base])
  qed auto
  then show "quiet_services flaky_services (mem_table \<circ> fst)"
    by (simp add: quiet_services_def quiet_services_axioms_def flaky_services_def returnM_def)
qed

lemma flaky_core: "mapM f (getCore flaky_db k) (sample_world s, n) = (Inr (f (live_item (s k) 2000)), (sample_world s, n))"
  by (simp add: mapM_def getCore_def bindM_def returnM_def flaky_sel beside_db_def beside_def mem_db_def mem_get_def
      interfere_def sample_world_def)

lemma flaky_create:
  assumes "cx_tenantId (cr_context inp) = ''t1''" "d_eventId (cr_delivery inp) = ''evt_1''"
    and "deriveEventStatus (countCreated (ev_outcome unrouted_event) (d_state (cr_delivery inp))) = Inr st"
  shows "createDelivery flaky_db 4 inp (sample_world routing_table, Suc 0)
      = (Inl (ServiceError ''InternalServerError''), (sample_world routing_table, 0))"
    and "\<exists>w1. createDelivery flaky_db 4 inp (sample_world routing_table, 0) = (Inr Created, w1)"
proof -
  let ?ops = "createTransaction 4 inp unrouted_event (withOutcome unrouted_event (countCreated (ev_outcome unrouted_event)
      (d_state (cr_delivery inp))) st)"
  have live: "live_item (Some (It_Event unrouted_event)) 2000 = Some (It_Event unrouted_event)"
    by (simp add: live_item_def isExpired_def)
  have none: "live_item None 2000 = None" by (simp add: live_item_def)
  have ok: "tx_distinct ?ops" "tx_conditions ?ops routing_table"
    using create_distinct routing_conditions [OF assms(1,2)] by blast+
  have round: "createDeliveryRound flaky_db 4 inp (sample_world routing_table, n)
      = bindM (db_write flaky_db ?ops) (\<lambda>ok. returnM (if ok then Some Created else None)) (sample_world routing_table, n)" for n
    using assms
    by (simp add: createDeliveryRound_def Let_def getEvent_def bindM_def flaky_core live none liftM_def)
  have retry: "createDelivery flaky_db 4 inp = bindM (createDeliveryRound flaky_db 4 inp)
      (\<lambda>r. case r of None \<Rightarrow> retryM 7 (createDeliveryRound flaky_db 4 inp) (throwM (Error ''ROUTING_CONFLICT'')) | Some a \<Rightarrow> returnM a)"
    using retryM.simps(2) [of 7 "createDeliveryRound flaky_db 4 inp"] by (simp add: createDelivery_def del: retryM.simps)
  show "createDelivery flaky_db 4 inp (sample_world routing_table, Suc 0)
      = (Inl (ServiceError ''InternalServerError''), (sample_world routing_table, 0))"
    unfolding retry by (simp add: bindM_def round flaky_write del: retryM.simps)
  have "db_write flaky_db ?ops (sample_world routing_table, 0)
      = (Inr True, ((sample_world routing_table)\<lparr>mem_table := tx_apply ?ops routing_table\<rparr>, 0))"
    using ok by (simp add: flaky_write beside_db_def beside_def mem_db_def mem_write_def interfere_def sample_world_def)
  then show "\<exists>w1. createDelivery flaky_db 4 inp (sample_world routing_table, 0) = (Inr Created, w1)"
    unfolding retry by (simp add: bindM_def round returnM_def del: retryM.simps)
qed

lemma persistence_failure_blames_transformation_witness:
  "\<exists>w2 x. routeTo flaky_services (routingContext ''t1'' ''cor_1'') unrouted_event sample_destination sample_transformation 0
       (sample_world routing_table, 1) = (Inr 0, w2)
     \<and> mem_table (fst w2) (K_Delivery ''t1'' ''evt_1'' (originalDeliveryId flaky_services unrouted_event ''dst_1''))
         = Some (It_Delivery x)
     \<and> d_blockedReason x = Some TRANSFORMATION_ERROR"
proof -
  let ?S = flaky_services and ?cx = "routingContext ''t1'' ''cor_1''" and ?w = "sample_world routing_table"
  let ?snapshot = "routedSnapshot sample_destination sample_transformation (de_baseUrl sample_destination @ de_path sample_destination)"
  have failed_status: "deriveEventStatus (countCreated (ev_outcome unrouted_event) Failed_Terminal) = Inr Ev_Failed"
    by (simp add: countCreated_def one_if_def no_outcome_def deriveEventStatus_def counters_inconsistent_def throw_if_def)
  have clock: "mem_clock ?w = 2000" by (simp add: sample_world_def)
  have "routeScheduled ?S ?cx unrouted_event sample_destination sample_transformation ?snapshot (sv_now ?S (?w, 1)) (?w, 1)
      = (Inl (ServiceError ''InternalServerError''), (?w, 0))"
    by (simp add: routeScheduled_def Let_def bindM_def liftM_def readM_def returnM_def flaky_services_def clock
        flaky_create(1) [where st = Ev_Processing] routing_status [unfolded routing_counted_def]
        routingContext_def routedDelivery_def)
  moreover have "\<exists>w2. routeFailed ?S ?cx unrouted_event sample_destination ?snapshot (sv_now ?S (?w, 1)) (?w, 0) = (Inr Created, w2)"
    using flaky_create(2) [where st = Ev_Failed] failed_status
    by (simp add: routeFailed_def Let_def bindM_def liftM_def readM_def returnM_def flaky_services_def routingContext_def)
  then obtain w2 where
    "routeFailed ?S ?cx unrouted_event sample_destination ?snapshot (sv_now ?S (?w, 1)) (?w, 0) = (Inr Created, w2)" by blast
  ultimately have "routeTo ?S ?cx unrouted_event sample_destination sample_transformation 0 (?w, 1) = (Inr 0, w2)
    \<and> (\<exists>x. (mem_table \<circ> fst) w2 (K_Delivery ''t1'' ''evt_1'' (originalDeliveryId ?S unrouted_event (de_destinationId sample_destination)))
           = Some (It_Delivery x)
         \<and> d_state x = Failed_Terminal \<and> d_blockedReason x = Some TRANSFORMATION_ERROR
         \<and> (\<forall>confirmed. \<not> el_eligible (replayEligibility (d_state x) (d_lastFailureCategory x) confirmed)))"
    by (intro persistence_failure_blames_transformation [OF flaky.quiet_services_axioms])
       (simp_all add: routingContext_def flaky_services_def)
  then show ?thesis by (auto simp: sample_destination_def)
qed

end
