(* ===== verification/Js_Text.thy ===== *)
theory Js_Text
  imports Prelude "HOL-Library.Sublist"
begin

text \<open>
  Operations of JavaScript on strings and on the own properties of objects that several components use, by their definitions for ASCII
  characters. The size of a string is counted in the model's characters.
\<close>

section \<open>Characters\<close>

definition is_digit :: "char \<Rightarrow> bool" where
  "is_digit c \<longleftrightarrow> 48 \<le> (of_char c :: nat) \<and> (of_char c :: nat) \<le> 57"

definition is_upper :: "char \<Rightarrow> bool" where
  "is_upper c \<longleftrightarrow> 65 \<le> (of_char c :: nat) \<and> (of_char c :: nat) \<le> 90"

definition is_lower :: "char \<Rightarrow> bool" where
  "is_lower c \<longleftrightarrow> 97 \<le> (of_char c :: nat) \<and> (of_char c :: nat) \<le> 122"

definition lower_char :: "char \<Rightarrow> char" where
  "lower_char c = (let n = of_char c :: nat in if 65 \<le> n \<and> n \<le> 90 then char_of (n + 32) else c)"

definition upper_char :: "char \<Rightarrow> char" where
  "upper_char c = (let n = of_char c :: nat in if 97 \<le> n \<and> n \<le> 122 then char_of (n - 32) else c)"

section \<open>Strings\<close>

definition toLower :: "string \<Rightarrow> string" where
  "toLower s = map lower_char s"

definition toUpper :: "string \<Rightarrow> string" where
  "toUpper s = map upper_char s"

text \<open>A regular expression that is a substring.\<close>

definition contains :: "string \<Rightarrow> string \<Rightarrow> bool" where
  "contains sub s = sublist sub s"

fun split_on :: "char \<Rightarrow> string \<Rightarrow> string list" where
  "split_on c [] = [[]]"
| "split_on c (x # xs) = (if x = c then [] # split_on c xs
     else (case split_on c xs of [] \<Rightarrow> [[x]] | p # ps \<Rightarrow> (x # p) # ps))"

section \<open>Objects\<close>

text \<open>An assignment to an own property of an object, which keeps its place among the properties.\<close>

fun js_put :: "'k \<Rightarrow> 'v \<Rightarrow> ('k \<times> 'v) list \<Rightarrow> ('k \<times> 'v) list" where
  "js_put k v [] = [(k, v)]"
| "js_put k v ((k', v') # fs) = (if k' = k then (k, v) # fs else (k', v') # js_put k v fs)"

section \<open>Facts\<close>

lemma split_not_empty [simp]: "split_on c s \<noteq> []"
  by (induction s) (auto split: list.split)

lemma map_of_js_put [simp]: "map_of (js_put k v fs) = (map_of fs)(k \<mapsto> v)"
  by (induction fs) auto

lemma toLower_idem [simp]: "toLower (toLower s) = toLower s"
proof -
  have "lower_char (lower_char c) = lower_char c" for c
    by (auto simp: lower_char_def Let_def of_char_of)
  then show ?thesis by (simp add: toLower_def)
qed

lemma upper_char_not_lower: "\<not> is_lower (upper_char c)"
  by (auto simp: is_lower_def upper_char_def Let_def)

lemma upper_char_id: "\<not> is_lower c \<Longrightarrow> upper_char c = c"
  by (auto simp: is_lower_def upper_char_def Let_def)

text \<open>Splitting at a separator and putting it back.\<close>

lemma split_on_hit: "c \<notin> set t \<Longrightarrow> split_on c (t @ c # r) = t # split_on c r"
  by (induction t) auto

lemma split_on_miss: "c \<notin> set t \<Longrightarrow> split_on c t = [t]"
  by (induction t) auto

lemma split_on_append: "split_on c (s @ c # t) = split_on c s @ split_on c t"
  by (induction s) (auto split: list.split)

lemma split_on_inj: "split_on c s = split_on c t \<Longrightarrow> s = t"
proof (induction s arbitrary: t)
  case Nil
  then show ?case by (cases t) (auto split: list.splits if_splits)
next
  case (Cons x s)
  obtain p ps where p: "split_on c s = p # ps" by (cases "split_on c s") auto
  show ?case
  proof (cases t)
    case Nil
    with Cons.prems p show ?thesis by (auto split: if_splits)
  next
    case t: (Cons y u)
    obtain q qs where q: "split_on c u = q # qs" by (cases "split_on c u") auto
    show ?thesis using Cons.prems Cons.IH [of u] p q t by (auto split: if_splits)
  qed
qed

section \<open>Numbers\<close>

definition decimal_value :: "string \<Rightarrow> nat" where
  "decimal_value s = foldl (\<lambda>n c. 10 * n + (of_char c - 48)) 0 s"

lemma decimal_digits [simp]: "decimal_value (digits n) = n"
proof (induction n rule: digits.induct)
  case (1 n)
  show ?case
  proof (cases "n < 10")
    case True
    then show ?thesis by (subst digits.simps) (simp add: decimal_value_def)
  next
    case False
    with 1 show ?thesis by (subst digits.simps) (simp add: decimal_value_def)
  qed
qed

lemma digits_only: "c \<in> set (digits n) \<Longrightarrow> 48 \<le> (of_char c :: nat) \<and> (of_char c :: nat) < 58"
proof (induction n rule: digits.induct)
  case (1 n)
  then show ?case
    by (subst (asm) (2) digits.simps) (auto split: if_splits)
qed

end
