(* ===== verification/Evidence.thy ===== *)
theory Evidence
  imports Services Js_Text
begin

text \<open>
  The evidence that \<open>packages/application/src/index.ts\<close> keeps of an attempt: the request headers with the
  credentials replaced, and of the response the headers that are safe to keep, an excerpt of the body with the
  configured paths replaced and the hash of the body.
\<close>

section \<open>Headers\<close>

type_synonym headers = "(string \<times> string) list"

definition redacted :: string where
  "redacted = ''[REDACTED]''"

definition redactedHeaders :: "headers \<Rightarrow> headers" where
  "redactedHeaders hs = map (\<lambda>(name, v).
     (name, if contains ''authorization'' (toLower name) \<or> contains ''api-key'' (toLower name)
            then redacted else v)) hs"

definition safe_headers :: "string list" where
  "safe_headers = [''content-type'', ''content-length'', ''retry-after'', ''x-request-id'']"

definition safeHeaders :: "headers \<Rightarrow> headers" where
  "safeHeaders hs = fold (\<lambda>(name, v) safe.
     if toLower name \<in> set safe_headers then js_put (toLower name) v safe else safe) hs []"

section \<open>Redaction of a JSON body\<close>

text \<open>
  A key that is in every object without being its own: the names of the prototype of objects. The
  assignment of a string to \<open>__proto__\<close> does nothing. A path through an inherited \<open>__proto__\<close> names a prototype, and one that
  goes on to a member of it changes nothing in the text of the body; what all other objects of the process then see of the prototype is
  not followed. The length of the prototype of arrays cannot be a text either: the assignment throws.
\<close>

definition object_prototype :: "string list" where
  "object_prototype = [''constructor'', ''hasOwnProperty'', ''isPrototypeOf'', ''propertyIsEnumerable'',
     ''toLocaleString'', ''toString'', ''valueOf'', ''__defineGetter__'', ''__defineSetter__'',
     ''__lookupGetter__'', ''__lookupSetter__'', ''__proto__'']"

definition array_index :: "string \<Rightarrow> 'a list \<Rightarrow> nat option" where
  "array_index k vs = find (\<lambda>i. js_int (int i) = k) [0..<length vs]"

fun is_container :: "json \<Rightarrow> bool" where
  "is_container (JArr _) = True"
| "is_container (JObj _) = True"
| "is_container _ = False"

text \<open>\<open>if (final in target) target[final] = "[REDACTED]"\<close>; \<open>in\<close> throws on what is not an object.\<close>

fun redact_final :: "string \<Rightarrow> json \<Rightarrow> js_error + json" where
  "redact_final final (JObj fs) = Inr (JObj
     (if final \<in> fst ` set fs then js_put final (JStr redacted) fs
      else if final \<in> set object_prototype \<and> final \<noteq> ''__proto__'' then js_put final (JStr redacted) fs
      else fs))"
| "redact_final final (JArr vs) = (case array_index final vs of
      Some i \<Rightarrow> Inr (JArr (vs[i := JStr redacted]))
    | None \<Rightarrow> if final = ''length'' then Inl (Error ''Invalid array length'') else Inr (JArr vs))"
| "redact_final final _ = Inl (Error ''Cannot search for a key in a value that is not an object'')"

text \<open>
  The walk along the parts of a path; \<open>typeof target[part]\<close> throws on \<open>null\<close>, which only the whole body
  can be, and gives nothing for the other values that are not objects, functions among them.
\<close>

fun redact_at :: "string list \<Rightarrow> json \<Rightarrow> js_error + json" where
  "redact_at [] v = Inr v"
| "redact_at [final] v = redact_final final v"
| "redact_at (p # q # rest) (JObj fs) = (case map_of fs p of
      None \<Rightarrow> Inr (JObj fs)
    | Some w \<Rightarrow> if is_container w
        then (case redact_at (q # rest) w of Inl e \<Rightarrow> Inl e | Inr w' \<Rightarrow> Inr (JObj (js_put p w' fs)))
        else Inr (JObj fs))"
| "redact_at (p # q # rest) (JArr vs) = (case array_index p vs of
      None \<Rightarrow> if p = ''__proto__'' \<and> q # rest = [''length''] then Inl (Error ''Invalid array length'') else Inr (JArr vs)
    | Some i \<Rightarrow> if is_container (vs ! i)
        then (case redact_at (q # rest) (vs ! i) of Inl e \<Rightarrow> Inl e | Inr w' \<Rightarrow> Inr (JArr (vs[i := w'])))
        else Inr (JArr vs))"
| "redact_at (p # q # rest) JNull = Inl (Error ''Cannot read properties of null'')"
| "redact_at (p # q # rest) v = Inr v"

definition path_parts :: "string \<Rightarrow> string list" where
  "path_parts path = split_on CHR ''.'' (if take 2 path = ''$.'' then drop 2 path else path)"

fun redact_paths :: "string list \<Rightarrow> json \<Rightarrow> js_error + json" where
  "redact_paths [] v = Inr v"
| "redact_paths (path # paths) v =
     (case redact_at (path_parts path) v of Inl e \<Rightarrow> Inl e | Inr v' \<Rightarrow> redact_paths paths v')"

record evidence =
  ee_headers :: headers
  ee_bodyExcerpt :: string
  ee_bodyHash :: string

text \<open>\<open>parse\<close> is \<open>JSON.parse\<close>, \<open>None\<close> where that throws.\<close>

definition bodyExcerpt :: "(rat \<Rightarrow> string) \<Rightarrow> (string \<Rightarrow> json option) \<Rightarrow> string \<Rightarrow> string list \<Rightarrow> string" where
  "bodyExcerpt num parse body paths =
     (let excerpt = take 16384 body in
      case parse excerpt of
        None \<Rightarrow> excerpt
      | Some v \<Rightarrow> (case redact_paths paths v of Inl _ \<Rightarrow> excerpt | Inr v' \<Rightarrow> render num v'))"

definition responseEvidence ::
    "('w, 'z) services_scheme \<Rightarrow> (string \<Rightarrow> json option) \<Rightarrow> headers \<Rightarrow> string \<Rightarrow> string list \<Rightarrow> evidence" where
  "responseEvidence S parse hs body paths =
     \<lparr>ee_headers = safeHeaders hs, ee_bodyExcerpt = bodyExcerpt (sv_number S) parse body paths,
      ee_bodyHash = hex (sv_sha256 S body)\<rparr>"

section \<open>What a path hides\<close>

text \<open>The value at a path of own keys and indexes.\<close>

fun json_at :: "string list \<Rightarrow> json \<Rightarrow> json option" where
  "json_at [] v = Some v"
| "json_at (p # ps) (JObj fs) = (case map_of fs p of None \<Rightarrow> None | Some w \<Rightarrow> json_at ps w)"
| "json_at (p # ps) (JArr vs) = (case array_index p vs of None \<Rightarrow> None | Some i \<Rightarrow> json_at ps (vs ! i))"
| "json_at (p # ps) v = None"

definition hidden :: "string list \<Rightarrow> json \<Rightarrow> bool" where
  "hidden ps v \<longleftrightarrow> json_at ps v \<in> {None, Some (JStr redacted)}"

lemma array_index_update [simp]: "array_index k (vs[i := v]) = array_index k vs"
  by (simp add: array_index_def)

lemma array_index_bound: "array_index k vs = Some i \<Longrightarrow> i < length vs"
  by (auto simp: array_index_def find_Some_iff)

lemma array_index_get [simp]: "array_index k vs = Some i \<Longrightarrow> vs[i := v] ! i = v"
  by (simp add: array_index_bound)

lemma json_at_leaf: "\<not> is_container v \<Longrightarrow> ps \<noteq> [] \<Longrightarrow> json_at ps v = None"
  by (cases ps; cases v) auto

lemma json_at_redacted: "json_at ps (JStr redacted) \<in> {None, Some (JStr redacted)}"
  by (cases ps) auto

lemma redact_at_object:
  assumes "redact_at (p # q # rest) (JObj fs) = Inr v'"
  obtains (kept) "v' = JObj fs" "\<And>w. map_of fs p = Some w \<Longrightarrow> \<not> is_container w"
  | (deeper) w w' where "map_of fs p = Some w" "is_container w" "redact_at (q # rest) w = Inr w'"
      "v' = JObj (js_put p w' fs)"
  using assms by (auto split: option.splits if_splits sum.splits)

lemma redact_at_array:
  assumes "redact_at (p # q # rest) (JArr vs) = Inr v'"
  obtains (kept) "v' = JArr vs" "\<And>i. array_index p vs = Some i \<Longrightarrow> \<not> is_container (vs ! i)"
  | (deeper) i w' where "array_index p vs = Some i" "is_container (vs ! i)" "redact_at (q # rest) (vs ! i) = Inr w'"
      "v' = JArr (vs[i := w'])"
  using assms by (auto split: option.splits if_splits sum.splits)

lemma hidden_object: "hidden (p # ps) (JObj fs) \<longleftrightarrow> (\<forall>w. map_of fs p = Some w \<longrightarrow> hidden ps w)"
  by (auto simp: hidden_def split: option.split)

lemma hidden_array: "hidden (p # ps) (JArr vs) \<longleftrightarrow> (\<forall>i. array_index p vs = Some i \<longrightarrow> hidden ps (vs ! i))"
  by (auto simp: hidden_def split: option.split)

lemma hidden_leaf: "\<not> is_container v \<Longrightarrow> ps \<noteq> [] \<Longrightarrow> hidden ps v"
  by (simp add: hidden_def json_at_leaf)

lemma redact_at_hides: "redact_at ps v = Inr v' \<Longrightarrow> ps \<noteq> [] \<Longrightarrow> hidden ps v'"
proof (induction ps v arbitrary: v' rule: redact_at.induct)
  case (2 final v)
  then show ?case
    by (cases v) (auto simp: hidden_def image_iff map_of_eq_None_iff split: option.splits if_splits)
next
  case (3 p q rest fs)
  from "3.prems"(1) show ?case
  proof (cases rule: redact_at_object)
    case kept
    then show ?thesis by (simp add: hidden_object hidden_leaf)
  next
    case (deeper w w')
    with "3.IH" [OF deeper(1-3)] show ?thesis by (simp add: hidden_object)
  qed
next
  case (4 p q rest vs)
  from "4.prems"(1) show ?case
  proof (cases rule: redact_at_array)
    case kept
    then show ?thesis by (simp add: hidden_array hidden_leaf)
  next
    case (deeper i w')
    with "4.IH" [OF deeper(1-3)] show ?thesis by (simp add: hidden_array)
  qed
qed (auto simp: hidden_def)

lemma redact_final_keeps:
  assumes "redact_final f v = Inr v'" and "hidden ps v"
  shows "hidden ps v'"
proof (cases ps)
  case Nil
  with assms show ?thesis by (cases v) (auto simp: hidden_def)
next
  case (Cons p qs)
  have leaf: "json_at qs (JStr redacted) = None \<or> json_at qs (JStr redacted) = Some (JStr redacted)"
    using json_at_redacted [of qs] by simp
  show ?thesis
    using assms leaf Cons
    by (cases v) (auto simp: hidden_def nth_list_update dest: array_index_bound split: option.splits if_splits)
qed

lemma redact_at_keeps: "redact_at qs v = Inr v' \<Longrightarrow> hidden ps v \<Longrightarrow> hidden ps v'"
proof (induction qs v arbitrary: v' ps rule: redact_at.induct)
  case (2 final v)
  then show ?case by (auto intro: redact_final_keeps)
next
  case (3 p q rest fs)
  from "3.prems"(1) show ?case
  proof (cases rule: redact_at_object)
    case (deeper w w')
    have "\<not> hidden [] (JObj fs)" by (simp add: hidden_def)
    with deeper "3.prems"(2) "3.IH" [OF deeper(1-3)] show ?thesis by (cases ps) (auto simp: hidden_object)
  qed (use "3.prems" in simp)
next
  case (4 p q rest vs)
  from "4.prems"(1) show ?case
  proof (cases rule: redact_at_array)
    case (deeper i w')
    have "\<not> hidden [] (JArr vs)" by (simp add: hidden_def)
    with deeper "4.prems"(2) "4.IH" [OF deeper(1-3)] show ?thesis
      by (cases ps) (auto simp: hidden_array nth_list_update dest: array_index_bound)
  qed (use "4.prems" in simp)
qed auto

lemma redact_paths_hide:
  assumes "redact_paths paths v = Inr v'"
  shows "(path \<in> set paths \<longrightarrow> hidden (path_parts path) v') \<and> (hidden ps v \<longrightarrow> hidden ps v')"
  using assms
proof (induction paths arbitrary: v ps)
  case (Cons a paths)
  then obtain v1 where 1: "redact_at (path_parts a) v = Inr v1" and rest: "redact_paths paths v1 = Inr v'"
    by (auto split: sum.splits)
  have "path_parts a \<noteq> []" by (simp add: path_parts_def)
  with 1 have "hidden (path_parts a) v1" by (rule redact_at_hides)
  with Cons.IH [OF rest, of "path_parts a"] Cons.IH [OF rest, of ps] redact_at_keeps [OF 1] show ?case by auto
qed simp

text \<open>Only the length of an array makes the redaction of an object or array throw.\<close>

lemma redact_at_throws:
  "redact_at ps v = Inl e \<Longrightarrow> is_container v \<Longrightarrow> ps \<noteq> [] \<and> last ps = ''length''"
  by (induction ps v rule: redact_at.induct)
     (auto split: option.splits if_splits sum.splits elim!: redact_final.elims)

lemma redact_at_container: "redact_at ps v = Inr v' \<Longrightarrow> is_container v \<Longrightarrow> is_container v'"
  by (induction ps v rule: redact_at.induct)
     (auto split: option.splits if_splits sum.splits elim!: redact_final.elims)

lemma redact_paths_total:
  assumes "is_container v" and "\<And>path. path \<in> set paths \<Longrightarrow> last (path_parts path) \<noteq> ''length''"
  obtains v' where "redact_paths paths v = Inr v'"
  using assms
proof (induction paths arbitrary: v thesis)
  case (Cons a paths)
  show ?case
  proof (cases "redact_at (path_parts a) v")
    case (Inl e)
    with redact_at_throws [OF Inl] Cons.prems show ?thesis by auto
  next
    case (Inr v1)
    with redact_at_container [OF Inr] Cons show ?thesis by auto
  qed
qed simp

text \<open>The headers that are kept are the safe ones.\<close>

lemma js_put_keys: "fst ` set (js_put k v fs) = insert k (fst ` set fs)"
proof (induction fs)
  case (Cons f fs)
  then show ?case by (cases f) auto
qed simp

lemma safeHeaders_names: "fst ` set (safeHeaders hs) \<subseteq> set safe_headers"
proof -
  let ?f = "\<lambda>(name, v) safe. if toLower name \<in> set safe_headers then js_put (toLower name) v safe else safe"
  have "fst ` set (fold ?f hs safe) \<subseteq> set safe_headers" if "fst ` set safe \<subseteq> set safe_headers" for safe
    using that by (induction hs arbitrary: safe) (auto simp: js_put_keys split: prod.split)
  from this [of "[]"] show ?thesis by (simp add: safeHeaders_def)
qed



end
