(* ===== verification/Delivery_Service.thy ===== *)
theory Delivery_Service
  imports Routing Evidence Permits
begin

text \<open>
  \<open>DeliveryService\<close> of \<open>packages/application/src/index.ts\<close>: one message of the delivery queue. The worker
  takes the lease of the delivery, defers it while the destination is disabled, its circuit open or its rate
  used up, records the start of an attempt, sends the request, and finalizes the attempt with what came back.
\<close>

section \<open>Dependencies\<close>

record http_request =
  hq_url :: string
  hq_headers :: headers
  hq_body :: string
  hq_timeoutMs :: int
  hq_correlationId :: string

record http_response =
  hr_status :: int
  hr_headers :: headers
  hr_body :: string

record oauth_request =
  oq_destinationId :: string
  oq_tokenUrl :: string
  oq_clientId :: string
  oq_clientSecret :: string
  oq_scopes :: "string list"
  oq_authenticationStyle :: string
  oq_correlationId :: string

text \<open>
  \<open>dl_random\<close> is \<open>Math.random\<close> or the injected generator, \<open>dl_secret\<close> is \<open>secrets.resolve\<close>, \<open>dl_oauth\<close> \<open>oauth.get\<close>,
  \<open>dl_send\<close> \<open>http.send\<close>; \<open>dl_numberOf\<close>, \<open>dl_dateParse\<close> and \<open>dl_parse\<close> are \<open>Number\<close>, \<open>Date.parse\<close> and \<open>JSON.parse\<close>.
\<close>

record 'w delivery_services = "'w services" +
  dl_random :: "('w, rat) op"
  dl_secret :: "tenant_context \<Rightarrow> string \<Rightarrow> ('w, string) op"
  dl_oauth :: "oauth_request \<Rightarrow> ('w, string) op"
  dl_send :: "http_request \<Rightarrow> ('w, http_response) op"
  dl_traceId :: "'w \<Rightarrow> string option"
  dl_numberOf :: "string \<Rightarrow> js_number"
  dl_dateParse :: "string \<Rightarrow> instant option"
  dl_parse :: "string \<Rightarrow> json option"

record deliver_input =
  dv_tenantId :: string
  dv_eventId :: string
  dv_deliveryId :: string
  dv_correlationId :: string
  dv_owner :: string

text \<open>What the worker tells the queue: to drop the message, or to show it again after a delay.\<close>

datatype verdict = Acknowledge | Delay int

section \<open>Deferring\<close>

definition deferralTransition ::
    "delivery \<Rightarrow> string \<Rightarrow> delivery_state \<Rightarrow> failure_category \<Rightarrow> instant \<Rightarrow> instant \<Rightarrow> delivery_transition" where
  "deferralTransition leased token to category at_ms now =
     \<lparr>tr_to = to, tr_at = now, tr_expectedVersion = d_version leased,
      tr_leaseToken = Some (option_or (d_leaseToken leased) token), tr_nextEligibleAt = Some at_ms,
      tr_blockedReason = Some category, tr_lease = None\<rparr>"

definition scheduleOutbox ::
    "delivery \<Rightarrow> string \<Rightarrow> instant \<Rightarrow> instant \<Rightarrow> cause \<Rightarrow> string option \<Rightarrow> outbox_record" where
  "scheduleOutbox d outboxId at_ms now why trace =
     \<lparr>ob_outboxId = outboxId, ob_kind = SCHEDULE_DELIVERY, ob_tenantId = d_tenantId d,
      ob_aggregateType = DELIVERY, ob_aggregateId = d_deliveryId d, ob_target = SCHEDULER,
      ob_payload = \<lparr>pl_eventId = Some (d_eventId d), pl_deliveryId = Some (d_deliveryId d),
        pl_destinationId = None, pl_correlationId = d_correlationId d, pl_notBefore = Some at_ms,
        pl_cause = Some why\<rparr>,
      ob_createdAt = now, ob_attempts = 0, ob_publishedAt = None, ob_traceparent = trace\<rparr>"

definition deferralHistory ::
    "delivery \<Rightarrow> string \<Rightarrow> failure_category \<Rightarrow> instant \<Rightarrow> instant \<Rightarrow> string \<Rightarrow> history_entry" where
  "deferralHistory leased historyId category at_ms now summary =
     \<lparr>hi_historyId = historyId, hi_deliveryId = d_deliveryId leased, hi_tenantId = d_tenantId leased,
      hi_correlationId = d_correlationId leased,
      hi_type = (if category = RATE_LIMITED then Hi_Rate_Limited
        else if category = CIRCUIT_OPEN then Hi_Circuit_Open else Hi_Destination_Disabled),
      hi_occurredAt = now, hi_summary = summary,
      hi_metadata = [(''failureCategory'', Meta_Category category), (''nextEligibleAt'', Meta_Instant at_ms)],
      hi_expiresAt = d_expiresAt leased\<rparr>"

definition deferralInput ::
    "string \<Rightarrow> delivery \<Rightarrow> string \<Rightarrow> delivery \<Rightarrow> history_entry \<Rightarrow> outbox_record \<Rightarrow> defer_input" where
  "deferralInput tenantId leased token nxt history outbox =
     \<lparr>df_tenantId = tenantId, df_eventId = d_eventId leased, df_delivery = nxt,
      df_expectedVersion = d_version leased, df_leaseToken = option_or (d_leaseToken leased) token,
      df_history = history, df_outbox = outbox\<rparr>"

text \<open>The answer of the repository is not looked at.\<close>

definition postpone ::
    "('w, 'z) services_scheme \<Rightarrow> string \<Rightarrow> delivery \<Rightarrow> string \<Rightarrow> instant \<Rightarrow> delivery_state \<Rightarrow> failure_category
       \<Rightarrow> instant \<Rightarrow> string \<Rightarrow> ('w, verdict) op" where
  "postpone S tenantId leased token now to category at_ms summary =
     bindM (liftM (transitionDelivery leased (deferralTransition leased token to category at_ms now))) (\<lambda>nxt.
     bindM (sv_next S ''obx'') (\<lambda>outboxId.
     bindM (readM (sv_traceparent S)) (\<lambda>trace.
     bindM (sv_next S ''req'') (\<lambda>historyId.
     bindM (defer_delivery (sv_db S) (sv_shards S)
              (deferralInput tenantId leased token nxt
                (deferralHistory leased historyId category at_ms now summary)
                (scheduleOutbox leased outboxId at_ms now RESUME trace))) (\<lambda>_.
       returnM Acknowledge)))))"

section \<open>The request\<close>

definition newAttempt ::
    "('w, 'z) services_scheme \<Rightarrow> delivery \<Rightarrow> string \<Rightarrow> instant \<Rightarrow> string option \<Rightarrow> delivery_attempt" where
  "newAttempt S leased attemptId started trace =
     \<lparr>at_attemptId = attemptId, at_attemptNumber = d_attemptCount leased + 1,
      at_deliveryId = d_deliveryId leased, at_correlationId = d_correlationId leased, at_startedAt = started,
      at_completedAt = None, at_durationMs = None, at_requestUrl = cs_url (d_configSnapshot leased),
      at_requestHeadersRedacted = [],
      at_requestBodyHash = hex (sv_sha256 S (render (sv_number S) (d_transformedPayload leased))),
      at_responseStatus = None, at_responseHeadersRedacted = None, at_responseBodyExcerptRedacted = None,
      at_responseBodyHash = None, at_outcome = At_Started, at_failureCategory = None, at_retryable = None,
      at_traceId = trace, at_expiresAt = d_expiresAt leased\<rparr>"

definition base_headers :: headers where
  "base_headers = [(''content-type'', ''application/json'')]"

fun json_strings :: "json option \<Rightarrow> string list option" where
  "json_strings (Some (JArr vs)) = Some (List.map_filter (\<lambda>v. json_string (Some v)) vs)"
| "json_strings _ = None"

text \<open>The headers with the credential, as far as the delivery names one that can be had.\<close>

definition apiKeyHeaders :: "delivery \<Rightarrow> string \<Rightarrow> js_error + headers" where
  "apiKeyHeaders d secret =
     (case json_string (json_get (cs_authConfiguration (d_configSnapshot d)) ''headerName'') of
        None \<Rightarrow> Inl (Error ''INVALID_DESTINATION'')
      | Some name \<Rightarrow>
          (let hs = js_put name secret base_headers in
           Inr (case cs_idempotencyHeader (d_configSnapshot d) of
                  None \<Rightarrow> hs
                | Some h \<Rightarrow> js_put h (d_partnerIdempotencyKey d) hs)))"

definition oauthRequest :: "delivery \<Rightarrow> string \<Rightarrow> js_error + oauth_request" where
  "oauthRequest d secret =
     (let conf = cs_authConfiguration (d_configSnapshot d) in
      case (json_string (json_get conf ''tokenUrl''), json_string (json_get conf ''clientId''),
            json_string (json_get conf ''authenticationStyle''), json_strings (json_get conf ''scopes'')) of
        (Some tokenUrl, Some clientId, Some style, Some scopes) \<Rightarrow>
          throw_if (style \<noteq> ''basic'' \<and> style \<noteq> ''body'') (Error ''INVALID_DESTINATION'')
            (Inr \<lparr>oq_destinationId = d_destinationId d, oq_tokenUrl = tokenUrl, oq_clientId = clientId,
               oq_clientSecret = secret, oq_scopes = scopes, oq_authenticationStyle = style,
               oq_correlationId = d_correlationId d\<rparr>)
      | _ \<Rightarrow> Inl (Error ''INVALID_DESTINATION''))"

definition credentialHeaders ::
    "('w, 'z) delivery_services_scheme \<Rightarrow> tenant_context \<Rightarrow> delivery \<Rightarrow> ('w, headers) op" where
  "credentialHeaders S cx d =
     (case cs_secretReferenceNames (d_configSnapshot d) of
        [] \<Rightarrow> throwM (Error ''SECRET_NOT_FOUND'')
      | secretName # _ \<Rightarrow>
          bindM (dl_secret S cx secretName) (\<lambda>secret.
            if cs_authType (d_configSnapshot d) = Api_Key then liftM (apiKeyHeaders d secret)
            else bindM (liftM (oauthRequest d secret)) (\<lambda>request.
                 bindM (dl_oauth S request) (\<lambda>token.
                 returnM (js_put ''x-delivery-key'' (d_partnerIdempotencyKey d)
                   (js_put ''authorization'' (''Bearer '' @ token) base_headers))))))"

definition partnerRequest :: "('w, 'z) services_scheme \<Rightarrow> delivery \<Rightarrow> headers \<Rightarrow> http_request" where
  "partnerRequest S d hs =
     \<lparr>hq_url = cs_url (d_configSnapshot d), hq_headers = hs,
      hq_body = render (sv_number S) (d_transformedPayload d),
      hq_timeoutMs = cs_timeoutMs (d_configSnapshot d), hq_correlationId = d_correlationId d\<rparr>"

definition tryM :: "('w, 'a) op \<Rightarrow> ('w, js_error + 'a) op" where
  "tryM m w = (case m w of (r, w') \<Rightarrow> (Inr r, w'))"

text \<open>The headers as they were when the request was sent or given up, and the response or the error.\<close>

definition sendRequest ::
    "('w, 'z) delivery_services_scheme \<Rightarrow> tenant_context \<Rightarrow> delivery
       \<Rightarrow> ('w, headers \<times> (js_error + http_response)) op" where
  "sendRequest S cx d =
     bindM (tryM (credentialHeaders S cx d)) (\<lambda>prepared.
       case prepared of
         Inl e \<Rightarrow> returnM (base_headers, Inl e)
       | Inr hs \<Rightarrow> bindM (tryM (dl_send S (partnerRequest S d hs))) (\<lambda>answer. returnM (hs, answer)))"

section \<open>The result\<close>

fun error_message :: "js_error \<Rightarrow> string" where
  "error_message (Error m) = m"
| "error_message (DomainError c m) = m"
| "error_message (ServiceError m) = m"
| "error_message (UnsafeDestinationError c m) = m"
| "error_message (AuthenticationError s) = ''Authentication failed.''"

text \<open>The tests of the message in their order; the first that matches gives the code.\<close>

definition error_tests :: "(string list \<times> string) list" where
  "error_tests =
     [([''TIMEOUT''], ''TIMEOUT''), ([''DNS'', ''ENOTFOUND'', ''EAI_AGAIN''], ''DNS_ERROR''),
      ([''ECONN'', ''CONNECTION''], ''CONNECTION_ERROR''), ([''TLS'', ''CERT''], ''TLS_ERROR''),
      ([''RESPONSE_TOO_LARGE''], ''RESPONSE_TOO_LARGE''),
      ([''INVALID_'', ''UNSAFE'', ''REDIRECT'', ''ENCODED''], ''RESPONSE_CONTRACT_ERROR''),
      ([''SECRET_NOT_FOUND''], ''SECRET_NOT_FOUND''), ([''OAUTH''], ''OAUTH_TOKEN_ERROR'')]"

definition errorCode :: "js_error \<Rightarrow> string" where
  "errorCode e = (case find (\<lambda>(subs, _). list_ex (\<lambda>s. contains s (error_message e)) subs) error_tests of
      None \<Rightarrow> ''UNKNOWN'' | Some (_, code) \<Rightarrow> code)"

definition resultOf :: "js_error + http_response \<Rightarrow> classification" where
  "resultOf answer = (case answer of
      Inl e \<Rightarrow> classifyDeliveryResult None (Some (errorCode e))
    | Inr response \<Rightarrow> classifyDeliveryResult (Some (hr_status response)) None)"

definition retryAfterOf ::
    "('w, 'z) delivery_services_scheme \<Rightarrow> js_error + http_response \<Rightarrow> instant \<Rightarrow> rat option" where
  "retryAfterOf S answer completed = (case answer of
      Inl e \<Rightarrow> None
    | Inr response \<Rightarrow> parseRetryAfter (dl_numberOf S) (dl_dateParse S)
        (map_of (hr_headers response) ''retry-after'') completed)"

definition resultState :: "classification \<Rightarrow> delivery \<Rightarrow> delivery_state" where
  "resultState k d = (if cl_success k then Succeeded
     else if cl_retryable k \<and> d_attemptCount d \<ge> d_maxAttempts d then Dead_Lettered
     else if cl_retryable k then Retry_Scheduled else Failed_Terminal)"

definition resultTransition ::
    "delivery \<Rightarrow> string \<Rightarrow> classification \<Rightarrow> instant option \<Rightarrow> instant \<Rightarrow> delivery_transition" where
  "resultTransition d token k nextAt completed =
     \<lparr>tr_to = resultState k d, tr_at = completed, tr_expectedVersion = d_version d,
      tr_leaseToken = Some (option_or (d_leaseToken d) token), tr_nextEligibleAt = nextAt,
      tr_blockedReason = cl_failureCategory k, tr_lease = None\<rparr>"

definition completedAttempt ::
    "('w, 'z) delivery_services_scheme \<Rightarrow> delivery \<Rightarrow> delivery_attempt \<Rightarrow> headers \<Rightarrow> js_error + http_response
       \<Rightarrow> classification \<Rightarrow> instant \<Rightarrow> delivery_attempt" where
  "completedAttempt S d attempt hs answer k completed =
     (let evidence = (case answer of Inl e \<Rightarrow> None
            | Inr response \<Rightarrow> Some (responseEvidence S (dl_parse S) (hr_headers response) (hr_body response)
                (cs_redactionPaths (d_configSnapshot d)))) in
      attempt\<lparr>at_completedAt := Some completed, at_durationMs := Some (completed - at_startedAt attempt),
        at_requestHeadersRedacted := redactedHeaders hs,
        at_responseStatus := (case answer of Inl e \<Rightarrow> None | Inr response \<Rightarrow> Some (hr_status response)),
        at_responseHeadersRedacted := map_option ee_headers evidence,
        at_responseBodyExcerptRedacted := map_option ee_bodyExcerpt evidence,
        at_responseBodyHash := map_option ee_bodyHash evidence,
        at_outcome := (if cl_success k then At_Succeeded else At_Failed),
        at_failureCategory := cl_failureCategory k, at_retryable := Some (cl_retryable k)\<rparr>)"

definition resultHistory ::
    "delivery \<Rightarrow> string \<Rightarrow> classification \<Rightarrow> instant option \<Rightarrow> instant \<Rightarrow> history_entry" where
  "resultHistory d historyId k nextAt completed =
     (let state = resultState k d in
      \<lparr>hi_historyId = historyId, hi_deliveryId = d_deliveryId d, hi_tenantId = d_tenantId d,
       hi_correlationId = d_correlationId d,
       hi_type = (if state = Dead_Lettered then Hi_Dead_Lettered
         else if state = Retry_Scheduled then Hi_Retry_Scheduled else Hi_State_Transition),
       hi_occurredAt = completed,
       hi_summary = (if cl_success k then ''Delivery succeeded.''
         else if state = Dead_Lettered then ''Delivery retries exhausted.''
         else if cl_retryable k then ''Delivery retry scheduled.'' else ''Delivery failed terminally.''),
       hi_metadata = (''state'', Meta_State state)
         # (''failureCategory'', Meta_Category (option_or (cl_failureCategory k) UNKNOWN))
         # (case nextAt of None \<Rightarrow> [] | Some n \<Rightarrow> [(''nextEligibleAt'', Meta_Instant n)]),
       hi_expiresAt = d_expiresAt d\<rparr>)"

definition resultInput ::
    "string \<Rightarrow> delivery \<Rightarrow> string \<Rightarrow> delivery \<Rightarrow> delivery_attempt \<Rightarrow> history_entry \<Rightarrow> outbox_record option
       \<Rightarrow> circuit_state \<Rightarrow> finalize_input" where
  "resultInput tenantId d token final attempt history outbox circuit =
     \<lparr>fi_tenantId = tenantId, fi_eventId = d_eventId d, fi_delivery = final,
      fi_expectedVersion = d_version d, fi_leaseToken = option_or (d_leaseToken d) token,
      fi_attempt = attempt, fi_history = history, fi_outbox = outbox, fi_circuit = Some circuit\<rparr>"

definition circuitAfter ::
    "circuit_permit \<Rightarrow> circuit_breaker_policy \<Rightarrow> instant \<Rightarrow> classification \<Rightarrow> circuit_state" where
  "circuitAfter circuit policy completed k = circuitAfterAttempt
     \<lparr>ai_current = cp_state circuit, ai_policy = policy, ai_now = completed, ai_success = cl_success k,
      ai_countsTowardCircuit = cl_countsTowardCircuit k, ai_probe = cp_probe circuit\<rparr>"

text \<open>The moment of the next attempt; a delivery whose retries are exhausted gets one as well.\<close>

definition nextAttemptAt ::
    "('w, 'z) delivery_services_scheme \<Rightarrow> delivery \<Rightarrow> js_error + http_response \<Rightarrow> instant
       \<Rightarrow> ('w, instant option) op" where
  "nextAttemptAt S d answer completed =
     (if cl_retryable (resultOf answer)
      then bindM (dl_random S) (\<lambda>random. returnM (Some (retry_at completed
             (retryDelaySeconds (cs_retryPolicy (d_configSnapshot d)) (d_attemptCount d) random
               (retryAfterOf S answer completed)))))
      else returnM None)"

definition finishAttempt ::
    "('w, 'z) delivery_services_scheme \<Rightarrow> string \<Rightarrow> delivery \<Rightarrow> string \<Rightarrow> delivery_attempt \<Rightarrow> headers
       \<Rightarrow> js_error + http_response \<Rightarrow> circuit_permit \<Rightarrow> circuit_breaker_policy \<Rightarrow> ('w, verdict) op" where
  "finishAttempt S tenantId d token attempt hs answer circuit policy =
     bindM (readM (sv_now S)) (\<lambda>completed.
     bindM (nextAttemptAt S d answer completed) (\<lambda>nextAt.
       (let k = resultOf answer in
     bindM (liftM (transitionDelivery d (resultTransition d token k nextAt completed))) (\<lambda>final.
     bindM (case nextAt of
              None \<Rightarrow> returnM None
            | Some n \<Rightarrow> bindM (sv_next S ''obx'') (\<lambda>outboxId.
                bindM (readM (sv_traceparent S)) (\<lambda>trace.
                returnM (Some (scheduleOutbox d outboxId n completed RETRY trace))))) (\<lambda>outbox.
     bindM (sv_next S ''req'') (\<lambda>historyId.
     bindM (finalizeAttempt (sv_db S) (sv_shards S)
              (resultInput tenantId d token final (completedAttempt S d attempt hs answer k completed)
                (resultHistory d historyId k nextAt completed) outbox (circuitAfter circuit policy completed k)))
       (\<lambda>finalized. if finalized then returnM Acknowledge
          else throwM (Error ''DELIVERY_FINALIZATION_CONFLICT''))))))))"

section \<open>Delivering\<close>

text \<open>From the permits on: the attempt is recorded before the request is sent.\<close>

definition attemptDelivery ::
    "('w, 'z) delivery_services_scheme \<Rightarrow> tenant_context \<Rightarrow> delivery \<Rightarrow> string \<Rightarrow> circuit_permit
       \<Rightarrow> circuit_breaker_policy \<Rightarrow> ('w, verdict) op" where
  "attemptDelivery S cx leased token circuit policy =
     bindM (readM (sv_now S)) (\<lambda>started.
     bindM (sv_next S ''att'') (\<lambda>attemptId.
     bindM (readM (dl_traceId S)) (\<lambda>trace.
       (let attempt = newAttempt S leased attemptId started trace in
     bindM (startAttempt (sv_db S)
              \<lparr>st_tenantId = cx_tenantId cx, st_eventId = d_eventId leased, st_delivery = leased,
               st_expectedVersion = d_version leased, st_attempt = attempt\<rparr>) (\<lambda>begun.
       case begun of None \<Rightarrow> returnM Acknowledge
       | Some d \<Rightarrow>
     bindM (sendRequest S cx d) (\<lambda>(hs, answer).
       finishAttempt S (cx_tenantId cx) d token attempt hs answer circuit policy))))))"

definition deliverLeased ::
    "('w, 'z) delivery_services_scheme \<Rightarrow> tenant_context \<Rightarrow> deliver_input \<Rightarrow> delivery \<Rightarrow> string \<Rightarrow> instant
       \<Rightarrow> ('w, verdict) op" where
  "deliverLeased S cx inp leased token now =
     (let t = cx_tenantId cx; later = postpone S t leased token now in
      bindM (getDestination (sv_db S) t (d_destinationId leased)) (\<lambda>found.
        case found of
          None \<Rightarrow> later Scheduled DESTINATION_DISABLED (now + 300000) ''Destination is disabled; delivery deferred.''
        | Some dest \<Rightarrow>
            if \<not> de_enabled dest
            then later Scheduled DESTINATION_DISABLED (now + 300000) ''Destination is disabled; delivery deferred.''
            else
      bindM (acquireCircuitPermit (sv_db S)
               \<lparr>qi_tenantId = t, qi_destinationId = d_destinationId leased,
                qi_policy = de_circuitBreakerPolicy dest, qi_owner = dv_owner inp, qi_now = now\<rparr>) (\<lambda>circuit.
        if \<not> cp_allowed circuit
        then later Scheduled CIRCUIT_OPEN (option_or (cp_nextEligibleAt circuit) (now + 5000))
               ''Circuit is open; delivery deferred.''
        else
      bindM (acquireRatePermit (sv_db S)
               \<lparr>ri_tenantId = t, ri_destinationId = d_destinationId leased,
                ri_policy = de_rateLimitPolicy dest, ri_now = now\<rparr>) (\<lambda>rate.
        if \<not> rt_permitted rate
        then later Rate_Limited RATE_LIMITED (rt_nextEligibleAt rate) ''Destination rate limit deferred delivery.''
        else attemptDelivery S cx leased token circuit (de_circuitBreakerPolicy dest)))))"

definition not_yet :: "instant \<Rightarrow> delivery \<Rightarrow> int option" where
  "not_yet now d = (case d_nextEligibleAt d of
      None \<Rightarrow> None
    | Some n \<Rightarrow> if n > now then Some (max 1 \<lceil>of_int (n - now) / (1000 :: rat)\<rceil>) else None)"

definition deliverFound ::
    "('w, 'z) delivery_services_scheme \<Rightarrow> tenant_context \<Rightarrow> deliver_input \<Rightarrow> delivery \<Rightarrow> ('w, verdict) op" where
  "deliverFound S cx inp initial =
     bindM (readM (sv_now S)) (\<lambda>now.
       if lease_expired now initial
       then bindM (dl_random S) (\<lambda>random.
            bindM (recoverExpired (sv_db S) (sv_shards S)
                     \<lparr>re_tenantId = dv_tenantId inp, re_eventId = dv_eventId inp,
                      re_deliveryId = dv_deliveryId inp, re_now = now, re_random = random\<rparr>) (\<lambda>_.
            returnM Acknowledge))
       else case not_yet now initial of
         Some seconds \<Rightarrow> returnM (Delay seconds)
       | None \<Rightarrow>
     bindM (sv_next S ''lease'') (\<lambda>token.
     bindM (acquireLease (sv_db S)
              \<lparr>lq_tenantId = dv_tenantId inp, lq_eventId = dv_eventId inp, lq_deliveryId = dv_deliveryId inp,
               lq_expectedVersion = d_version initial, lq_owner = dv_owner inp, lq_token = token,
               lq_expiresAt = now + cs_timeoutMs (d_configSnapshot initial) + 5000\<rparr>) (\<lambda>leased.
       case leased of None \<Rightarrow> returnM Acknowledge
       | Some d \<Rightarrow> if d_leaseToken d \<noteq> Some token then returnM Acknowledge
           else deliverLeased S cx inp d token now)))"

definition deliver :: "('w, 'z) delivery_services_scheme \<Rightarrow> deliver_input \<Rightarrow> ('w, verdict) op" where
  "deliver S inp =
     bindM (getDelivery (sv_db S) (dv_tenantId inp) (dv_deliveryId inp)) (\<lambda>found.
       case found of None \<Rightarrow> returnM Acknowledge
       | Some initial \<Rightarrow> if isTerminalDeliveryState (d_state initial) then returnM Acknowledge
           else deliverFound S (routingContext (dv_tenantId inp) (dv_correlationId inp)) inp initial)"

end
