(* ===== verification/Delivery_Safety.thy ===== *)
theory Delivery_Safety
  imports Delivery_Service
begin

text \<open>
  \<open>deliver\<close> is safe as a whole, whatever safe clients do meanwhile, the time of the request included.
\<close>

section \<open>Dependencies that leave the table to others\<close>

text \<open>
  The random numbers do not touch the table. A secret store, a token endpoint and a partner take time, in which
  other clients may do what is safe.
\<close>

locale safe_delivery = safe_services S view
  for S :: "('w, 'z) delivery_services_scheme" and view :: "'w \<Rightarrow> dtable" +
  assumes random_law: "dl_random S w = (x, w') \<Longrightarrow> view w' = view w"
    and secret_law: "dl_secret S cx n w = (r, w') \<Longrightarrow> safe (view w) (view w')"
    and oauth_law: "dl_oauth S oq w = (r, w') \<Longrightarrow> safe (view w) (view w')"
    and send_law: "dl_send S hq w = (hr, w') \<Longrightarrow> safe (view w) (view w')"

definition external :: "('w \<Rightarrow> dtable) \<Rightarrow> ('w, 'a) op \<Rightarrow> bool" where
  "external view m \<longleftrightarrow> (\<forall>w. safe (view w) (view (snd (m w))))"

lemma external_return: "external view (returnM a)"
  by (simp add: external_def returnM_def safe_refl)

lemma external_throw: "external view (throwM e)"
  by (simp add: external_def throwM_def safe_refl)

lemma external_lift: "external view (liftM r)"
  by (cases r) (simp_all add: external_def liftM_def safe_refl)

lemma external_bind:
  assumes "external view m" and "\<And>a. external view (f a)"
  shows "external view (bindM m f)"
  unfolding external_def
proof
  fix w
  obtain r w1 where m: "m w = (r, w1)" by (cases "m w")
  have 1: "safe (view w) (view w1)" using assms(1) m unfolding external_def by (metis snd_conv)
  show "safe (view w) (view (snd (bindM m f w)))"
  proof (cases r)
    case (Inl e)
    with m 1 show ?thesis by (simp add: bindM_def)
  next
    case (Inr a)
    have "safe (view w1) (view (snd (f a w1)))" using assms(2) by (simp add: external_def)
    with 1 m Inr show ?thesis by (auto simp: bindM_def intro: safe_trans)
  qed
qed

lemma external_try: "external view m \<Longrightarrow> external view (tryM m)"
  by (simp add: external_def tryM_def case_prod_beta)


section \<open>The delivery that a lease or a start returns\<close>

context safe_table
begin

lemma delivery_written:
  assumes R: "stable safe R" and core: "core_writes ops = [put_op k c (stored_delivery d)]" "is_core k"
    and commit: "\<And>u. R u \<Longrightarrow> tx_ok ops u \<Longrightarrow> safe u (tx_apply ops u)"
    and stored: "\<And>u. R u \<Longrightarrow> stored_delivery d = It_Delivery d"
  shows "hoare view R (db_write db ops) (\<lambda>b u. R u \<and> (b \<longrightarrow> seen u k (It_Delivery d))) R"
proof (rule hoare_write [OF R])
  fix u
  assume u: "R u" and ok: "tx_ok ops u"
  from R u commit [OF u ok] have after: "R (tx_apply ops u)" by (rule stableD)
  then show "R (tx_apply ops u)" .
  have "tx_apply ops u k = Some (It_Delivery d)"
    using commit_core [OF core] stored [OF u] by simp
  with after show "R (tx_apply ops u) \<and> (True \<longrightarrow> seen (tx_apply ops u) k (It_Delivery d))"
    by (simp add: seen_now)
qed auto

text \<open>A lease gives a delivery that the table has had, in progress.\<close>

definition leased_from :: "dtable \<Rightarrow> lease_request \<Rightarrow> delivery \<Rightarrow> dtable \<Rightarrow> bool" where
  "leased_from s0 q d u \<longleftrightarrow> since s0 u \<and> d_deliveryId d = lq_deliveryId q \<and> d_eventId d = lq_eventId q
     \<and> d_state d = In_Progress
     \<and> seen u (K_Delivery (lq_tenantId q) (lq_eventId q) (lq_deliveryId q)) (It_Delivery d)"

lemma lease_write:
  assumes le: "leasable q now x" and tr: "transitionDelivery x (leaseTransition q now) = Inr leased"
  shows "hoare view (\<lambda>u. since s0 u \<and> seen u (K_Delivery (lq_tenantId q) (lq_eventId q) (lq_deliveryId q)) (It_Delivery x))
    (db_write db (leaseTransaction q now x leased)) (\<lambda>b u. since s0 u \<and> (b \<longrightarrow> leased_from s0 q leased u)) (since s0)"
proof -
  let ?k = "K_Delivery (lq_tenantId q) (lq_eventId q) (lq_deliveryId q)"
  let ?R = "\<lambda>u. since s0 u \<and> seen u ?k (It_Delivery x)"
  have adv: "advances x leased"
    by (rule transition_advances [OF tr]) (simp add: leaseTransition_def program_transition_def)
  have ok: "delivery_ok (lq_tenantId q) (lq_eventId q) (lq_deliveryId q) leased \<and> stored_delivery leased = It_Delivery leased"
    if "?R u" for u
    using seen_delivery_ok [OF conjunct2 [OF that] since_inv [OF conjunct1 [OF that]]] advances_ok [OF adv] by simp
  have commit: "safe u (tx_apply (leaseTransaction q now x leased) u)"
    if u: "?R u" and tx: "tx_ok (leaseTransaction q now x leased) u" for u
  proof (rule delivery_commit_checked [OF conjunct1 [OF u] conjunct2 [OF u] tx])
    show "\<not> updatesOriginalEvent leased"
      using tr by (auto simp: transitionDelivery_Inr leaseTransition_def updatesOriginalEvent_def)
  qed (use le adv in \<open>auto simp: core_lease leasable_def\<close>)
  have state: "d_state leased = In_Progress"
    using tr by (auto simp: transitionDelivery_Inr leaseTransition_def)
  have "hoare view ?R (db_write db (leaseTransaction q now x leased))
      (\<lambda>b u. ?R u \<and> (b \<longrightarrow> seen u ?k (It_Delivery leased))) ?R"
    by (rule delivery_written [OF _ core_lease _ commit conjunct2 [OF ok]])
       (simp_all add: stable_conj stable_since stable_seen)
  then show ?thesis
    by (rule hoare_weaken) (use ok state in \<open>auto simp: leased_from_def delivery_ok_def\<close>)
qed

lemma lease_gives:
  "hoare view (since s0) (acquireLease db q)
     (\<lambda>r u. since s0 u \<and> (\<forall>d. r = Some d \<longrightarrow> leased_from s0 q d u)) (since s0)"
proof -
  have "hoare view (\<lambda>u. since s0 u \<and> seen u (K_Delivery (lq_tenantId q) (lq_eventId q) (lq_deliveryId q)) (It_Delivery x))
      (if \<not> leasable q now x then returnM None
       else bindM (liftM (transitionDelivery x (leaseTransition q now))) (\<lambda>leased.
            bindM (db_write db (leaseTransaction q now x leased)) (\<lambda>ok. returnM (if ok then Some leased else None))))
      (\<lambda>r u. since s0 u \<and> (\<forall>d. r = Some d \<longrightarrow> leased_from s0 q d u)) (since s0)" for x now
    by (auto intro!: hoare_return hoare_lift_bind hoare_bind [OF lease_write] split: if_splits)
  then show ?thesis
    unfolding acquireLease_def
    by (intro delivery_then [OF stable_since]) (auto intro!: hoare_return hoare_withNow)
qed

text \<open>So does the start of an attempt.\<close>

lemma start_gives:
  assumes x: "st_delivery inp = x" "d_version x = st_expectedVersion inp"
    and k: "k = K_Delivery (st_tenantId inp) (st_eventId inp) (d_deliveryId x)"
  shows "hoare view (\<lambda>u. since s0 u \<and> seen u k (It_Delivery x)) (startAttempt db inp)
    (\<lambda>r u. since s0 u \<and> (\<forall>d. r = Some d \<longrightarrow> d = startedDelivery inp \<and> seen u k (It_Delivery d))) (since s0)"
proof (cases "d_leaseToken x")
  case None
  then show ?thesis by (auto simp: startAttempt_def x(1) intro: hoare_throw)
next
  case (Some token)
  let ?R = "\<lambda>u. since s0 u \<and> seen u k (It_Delivery x)" and ?d = "startedDelivery inp"
  have adv: "advances x ?d \<and> \<not> updatesOriginalEvent ?d \<and> stored_delivery ?d = It_Delivery ?d" if u: "?R u" for u
  proof -
    have ok: "delivery_ok (st_tenantId inp) (st_eventId inp) (d_deliveryId x) x"
      using seen_delivery_ok [OF _ since_inv [OF conjunct1 [OF u]]] u k by blast
    then have "lease_wf x" and "d_state x = In_Progress"
      using Some by (auto simp: delivery_ok_def lease_wf_def)
    then have "advances x ?d" "\<not> updatesOriginalEvent ?d"
      using x by (auto simp: advances_def startedDelivery_def same_identity_def lease_wf_def updatesOriginalEvent_def)
    with advances_ok [OF _ ok] show ?thesis by blast
  qed
  have commit: "safe u (tx_apply (startTransaction inp token) u)"
    if u: "?R u" and tx: "tx_ok (startTransaction inp token) u" for u
    using u x k adv [OF u] core_start [of inp token]
    by (intro delivery_commit_checked [OF conjunct1 [OF u] _ tx]) auto
  have "hoare view ?R (db_write db (startTransaction inp token)) (\<lambda>b u. ?R u \<and> (b \<longrightarrow> seen u k (It_Delivery ?d))) ?R"
    using x k core_start [of inp token]
    by (intro delivery_written [OF _ _ _ commit conjunct2 [OF conjunct2 [OF adv]]] stable_conj stable_since stable_seen)
       (simp_all add: startedDelivery_def)
  then have "hoare view ?R (db_write db (startTransaction inp token)) (\<lambda>b u. ?R u \<and> (b \<longrightarrow> seen u k (It_Delivery ?d))) (since s0)"
    by (rule hoare_weaken) auto
  then show ?thesis using Some by (auto simp: startAttempt_def x(1) intro!: hoare_bind hoare_return split: if_splits)
qed

lemma external_keeps:
  assumes "external view m" and "stable safe R"
  shows "hoare view R m (\<lambda>_. R) R"
proof (rule hoareI)
  fix w r w'
  assume "R (view w)" and "m w = (r, w')"
  moreover from this assms(1) have "safe (view w) (view w')" unfolding external_def by (metis snd_conv)
  ultimately have "R (view w')" using assms(2) stableD by blast
  then show "case r of Inr a \<Rightarrow> R (view w') | Inl e \<Rightarrow> R (view w')" by (simp split: sum.split)
qed

lemma external_then:
  assumes "external view m" and "stable safe R" and "\<And>u. R u \<Longrightarrow> P u" and "\<And>a. hoare view R (g a) (\<lambda>_. P) P"
  shows "hoare view R (bindM m g) (\<lambda>_. P) P"
  by (rule hoare_bind [where R = "\<lambda>_. R", OF _ assms(4)])
     (rule hoare_weaken [OF external_keeps [OF assms(1,2)]], simp_all add: assms(3))

end

section \<open>Delivering is safe\<close>

text \<open>What is known between the lease and the end: the table has had the delivery as the worker holds it.\<close>

context safe_table
begin

definition held :: "string \<Rightarrow> delivery \<Rightarrow> dtable \<Rightarrow> dtable \<Rightarrow> bool" where
  "held t d s0 u \<longleftrightarrow> since s0 u \<and> seen u (K_Delivery t (d_eventId d) (d_deliveryId d)) (It_Delivery d)"

lemma stable_held: "stable safe (held t d s0)"
  unfolding held_def by (intro stable_conj stable_since stable_seen)

lemma held_since: "held t d s0 u \<Longrightarrow> since s0 u"
  by (simp add: held_def)

end

context safe_delivery
begin

lemma random_external: "external view (dl_random S)"
  unfolding external_def using random_law [OF prod.collapse [symmetric]] safe_refl by metis

lemma next_external: "external view (sv_next S p)"
  unfolding external_def using next_law [OF prod.collapse [symmetric]] safe_refl by metis

lemma read_external: "external view (readM f)"
  by (simp add: external_def readM_def safe_refl)

lemma partner_external:
  "external view (dl_secret S cx n)" "external view (dl_oauth S oq)" "external view (dl_send S hq)"
  by (auto simp: external_def intro: secret_law oauth_law send_law prod.collapse [symmetric])

lemmas external_rules = external_return external_throw external_lift external_bind external_try random_external
  next_external read_external partner_external

lemma sendRequest_external: "external view (sendRequest S cx d)"
  unfolding sendRequest_def credentialHeaders_def
  by (auto intro!: external_rules split: list.split sum.split)

lemma postpone_keeps:
  assumes "d_state d = In_Progress" and "\<not> isTerminalDeliveryState to" and "to \<noteq> In_Progress"
  shows "hoare view (held t d s0) (postpone S t d token now to category at_ms summary) (\<lambda>_. since s0) (since s0)"
proof -
  have deferred: "hoare view (held t d s0)
      (bindM (defer_delivery (sv_db S) (sv_shards S) (deferralInput t d token nxt history outbox)) (\<lambda>_. returnM Acknowledge))
      (\<lambda>_. since s0) (since s0)"
    if tr: "transitionDelivery d (deferralTransition d token to category at_ms now) = Inr nxt" for nxt history outbox
  proof -
    have adv: "advances d nxt"
      by (rule transition_advances [OF tr]) (use assms in \<open>simp add: deferralTransition_def program_transition_def\<close>)
    have "\<not> updatesOriginalEvent nxt"
      using tr assms(2) by (auto simp: transitionDelivery_Inr deferralTransition_def updatesOriginalEvent_def)
    with adv same_identity_keys [of d nxt] advances_def [of d nxt]
    have "hoare view (held t d s0) (defer_delivery (sv_db S) (sv_shards S) (deferralInput t d token nxt history outbox))
        (\<lambda>_. held t d s0) (held t d s0)"
      unfolding held_def by (intro defer_keeps) (auto simp: deferralInput_def)
    then have "hoare view (held t d s0) (defer_delivery (sv_db S) (sv_shards S) (deferralInput t d token nxt history outbox))
        (\<lambda>_. since s0) (since s0)"
      by (rule hoare_weaken) (auto dest: held_since)
    then show ?thesis by (rule hoare_bind) (simp add: hoare_return)
  qed
  show ?thesis
    unfolding postpone_def
    by (intro lift_then external_then [OF next_external stable_held] external_then [OF read_external stable_held] deferred)
       (auto dest: held_since)
qed

lemma finishAttempt_keeps:
  "hoare view (held t d s0) (finishAttempt S t d token attempt hs answer circuit policy) (\<lambda>_. since s0) (since s0)"
proof -
  have final: "hoare view (held t d s0)
      (bindM (finalizeAttempt (sv_db S) (sv_shards S) (resultInput t d token final a h ob c))
         (\<lambda>finalized. if finalized then returnM Acknowledge else throwM (Error ''DELIVERY_FINALIZATION_CONFLICT'')))
      (\<lambda>_. since s0) (since s0)"
    if tr: "transitionDelivery d (resultTransition d token k nextAt completed) = Inr final" for final k nextAt completed a h ob c
  proof -
    have adv: "advances d final"
      by (rule transition_advances [OF tr]) (auto simp: resultTransition_def program_transition_def resultState_def)
    with same_identity_keys [of d final] advances_def [of d final]
    have "hoare view (held t d s0) (finalizeAttempt (sv_db S) (sv_shards S) (resultInput t d token final a h ob c))
        (\<lambda>_. held t d s0) (held t d s0)"
      unfolding held_def by (intro finalizeAttempt_keeps) (auto simp: resultInput_def)
    then have "hoare view (held t d s0) (finalizeAttempt (sv_db S) (sv_shards S) (resultInput t d token final a h ob c))
        (\<lambda>_. since s0) (since s0)"
      by (rule hoare_weaken) (auto dest: held_since)
    then show ?thesis by (rule hoare_bind) (simp add: hoare_return hoare_throw)
  qed
  have next_at: "external view (nextAttemptAt S d answer completed)" for completed
    unfolding nextAttemptAt_def by (simp add: external_rules)
  have outbox: "external view (case nextAt of None \<Rightarrow> returnM None
      | Some n \<Rightarrow> bindM (sv_next S ''obx'') (\<lambda>outboxId. bindM (readM (sv_traceparent S)) (\<lambda>trace.
          returnM (Some (scheduleOutbox d outboxId n completed RETRY trace)))))" for nextAt completed
    by (auto intro!: external_rules split: option.split)
  show ?thesis
    unfolding finishAttempt_def Let_def
    by (intro lift_then external_then [OF next_external stable_held] external_then [OF read_external stable_held]
        external_then [OF next_at stable_held] external_then [OF outbox stable_held] final)
       (auto dest: held_since)
qed

lemma attemptDelivery_keeps:
  assumes "cx_tenantId cx = t"
  shows "hoare view (held t d s0) (attemptDelivery S cx d token circuit policy) (\<lambda>_. since s0) (since s0)"
proof -
  have begun: "hoare view (held t d s0)
      (bindM (startAttempt (sv_db S) inp) (\<lambda>begun. case begun of None \<Rightarrow> returnM Acknowledge
         | Some x \<Rightarrow> bindM (sendRequest S cx x) (\<lambda>(hs, answer). finishAttempt S t x token attempt hs answer circuit policy)))
      (\<lambda>_. since s0) (since s0)"
    if inp: "inp = \<lparr>st_tenantId = t, st_eventId = d_eventId d, st_delivery = d, st_expectedVersion = d_version d, st_attempt = attempt\<rparr>"
    for inp attempt
  proof -
    let ?x = "startedDelivery inp"
    have keys: "d_eventId ?x = d_eventId d" "d_deliveryId ?x = d_deliveryId d" by (simp_all add: startedDelivery_def inp)
    have send: "hoare view (held t ?x s0)
        (bindM (sendRequest S cx ?x) (\<lambda>(hs, answer). finishAttempt S t ?x token attempt hs answer circuit policy))
        (\<lambda>_. since s0) (since s0)"
      by (rule external_then [OF sendRequest_external stable_held held_since]) (auto intro: finishAttempt_keeps)
    then have some: "hoare view (\<lambda>u. since s0 u \<and> seen u (K_Delivery t (d_eventId d) (d_deliveryId d)) (It_Delivery ?x))
        (bindM (sendRequest S cx ?x) (\<lambda>(hs, answer). finishAttempt S t ?x token attempt hs answer circuit policy))
        (\<lambda>_. since s0) (since s0)"
      unfolding held_def keys .
    have given: "hoare view (held t d s0) (startAttempt (sv_db S) inp)
        (\<lambda>r u. since s0 u \<and> (\<forall>x. r = Some x \<longrightarrow> x = ?x
           \<and> seen u (K_Delivery t (d_eventId d) (d_deliveryId d)) (It_Delivery x))) (since s0)"
      unfolding held_def by (rule start_gives) (simp_all add: inp)
    show ?thesis
    proof (rule hoare_bind [OF given])
      show "hoare view (\<lambda>u. since s0 u \<and> (\<forall>x. begun = Some x \<longrightarrow> x = ?x
          \<and> seen u (K_Delivery t (d_eventId d) (d_deliveryId d)) (It_Delivery x)))
        (case begun of None \<Rightarrow> returnM Acknowledge
         | Some x \<Rightarrow> bindM (sendRequest S cx x) (\<lambda>(hs, answer). finishAttempt S t x token attempt hs answer circuit policy))
        (\<lambda>_. since s0) (since s0)" for begun
      proof (cases begun)
        case (Some x)
        show ?thesis
        proof (cases "x = ?x")
          case True
          with some Some show ?thesis by (auto intro: hoare_weaken)
        qed (simp add: Some hoare_def)
      qed (auto intro: hoare_return)
    qed
  qed
  show ?thesis
    unfolding attemptDelivery_def Let_def assms
    by (intro external_then [OF next_external stable_held] external_then [OF read_external stable_held] begun)
       (auto dest: held_since)
qed

end

text \<open>A transaction on the runtime state of a destination changes no event and no delivery.\<close>

lemma same_core_safe:
  assumes "table_inv s" and same: "\<And>k. is_core k \<Longrightarrow> u k = s k"
  shows "safe s u"
proof (rule safeI [OF assms(1)])
  have "originals u t e P = originals s t e P" for t e P by (simp add: originals_def same)
  then have "event_ok u t e ev \<longleftrightarrow> event_ok s t e ev" for t e ev
    by (simp add: event_ok_def observed_counters_def tally_def)
  with assms(1) show "table_inv u" by (simp add: table_inv_def same)
  show "evolves s u" by (simp add: evolves_def same)
qed

context safe_delivery
begin

lemma runtime_write:
  assumes "core_writes ops = []"
  shows "hoare view (held t d s0) (db_write (sv_db S) ops) (\<lambda>_. held t d s0) (held t d s0)"
  by (rule last_write [OF stable_held])
     (auto intro!: same_core_safe dest: held_since since_inv simp: commit_core [OF assms])

lemma runtime_read:
  fixes f :: "item option \<Rightarrow> 'b option"
  shows "hoare view (held t d s0) (mapM f (getCore (sv_db S) k)) (\<lambda>_. held t d s0) (held t d s0)"
  by (rule hoare_weaken [OF hoare_core [OF stable_held]]) auto

lemma circuit_keeps:
  "hoare view (held t d s0) (acquireCircuitPermit (sv_db S) inp) (\<lambda>_. held t d s0) (held t d s0)"
proof -
  have "core_writes [probePut inp c] = []" for c by (simp add: probePut_def circuitKey_def)
  from runtime_write [OF this]
  have "hoare view (held t d s0) (circuitPermitRound (sv_db S) inp) (\<lambda>_. held t d s0) (held t d s0)"
    unfolding circuitPermitRound_def Let_def
    by (auto intro!: hoare_bind [OF runtime_read] hoare_return hoare_bind [where m = "db_write _ _"] split: option.split)
  then show ?thesis
    unfolding acquireCircuitPermit_def by (rule retry_keeps) (simp add: hoare_return)
qed

lemma rate_keeps:
  "hoare view (held t d s0) (acquireRatePermit (sv_db S) inp) (\<lambda>_. held t d s0) (held t d s0)"
proof -
  have "core_writes [ratePut inp c] = []" for c by (simp add: ratePut_def rateKey_def)
  from runtime_write [OF this]
  have "hoare view (held t d s0) (ratePermitRound (sv_db S) inp) (\<lambda>_. held t d s0) (held t d s0)"
    unfolding ratePermitRound_def Let_def
    by (auto intro!: hoare_bind [OF runtime_read] hoare_return hoare_bind [where m = "db_write _ _"])
  then show ?thesis
    unfolding acquireRatePermit_def by (rule retry_keeps) (simp add: hoare_return)
qed

lemma held_then:
  assumes "hoare view (held t d s0) m (\<lambda>_. held t d s0) (held t d s0)"
    and "\<And>a. hoare view (held t d s0) (g a) (\<lambda>_. since s0) (since s0)"
  shows "hoare view (held t d s0) (bindM m g) (\<lambda>_. since s0) (since s0)"
  by (rule hoare_bind [OF hoare_weaken [OF assms(1)] assms(2)]) (auto dest: held_since)

lemma deliverLeased_keeps:
  assumes "cx_tenantId cx = t" and "d_state d = In_Progress"
  shows "hoare view (held t d s0) (deliverLeased S cx inp d token now) (\<lambda>_. since s0) (since s0)"
  unfolding deliverLeased_def Let_def assms(1) getDestination_def
  by (auto intro!: held_then [OF runtime_read] held_then [OF circuit_keeps] held_then [OF rate_keeps]
      postpone_keeps assms attemptDelivery_keeps split: option.split)

lemma deliver_keeps: "hoare view (since s0) (deliver S inp) (\<lambda>_. since s0) (since s0)"
proof -
  let ?t = "dv_tenantId inp"
  have leased: "hoare view (since s0)
      (bindM (acquireLease (sv_db S) q) (\<lambda>leased. case leased of None \<Rightarrow> returnM Acknowledge
         | Some d \<Rightarrow> if d_leaseToken d \<noteq> Some token then returnM Acknowledge
             else deliverLeased S (routingContext ?t (dv_correlationId inp)) inp d token now))
      (\<lambda>_. since s0) (since s0)" if "lq_tenantId q = ?t" for q token now
  proof (rule hoare_bind [OF lease_gives])
    show "hoare view (\<lambda>u. since s0 u \<and> (\<forall>d. r = Some d \<longrightarrow> leased_from s0 q d u))
       (case r of None \<Rightarrow> returnM Acknowledge
         | Some d \<Rightarrow> if d_leaseToken d \<noteq> Some token then returnM Acknowledge
             else deliverLeased S (routingContext ?t (dv_correlationId inp)) inp d token now) (\<lambda>_. since s0) (since s0)" for r
    proof (cases r)
      case (Some d)
      show ?thesis
      proof (cases "d_state d = In_Progress \<and> d_leaseToken d = Some token")
        case True
        have keeps: "hoare view (held ?t d s0) (deliverLeased S (routingContext ?t (dv_correlationId inp)) inp d token now)
            (\<lambda>_. since s0) (since s0)"
          using True by (intro deliverLeased_keeps) (simp_all add: routingContext_def)
        have step: "(case r of None \<Rightarrow> returnM Acknowledge
           | Some d \<Rightarrow> if d_leaseToken d \<noteq> Some token then returnM Acknowledge
               else deliverLeased S (routingContext ?t (dv_correlationId inp)) inp d token now)
          = deliverLeased S (routingContext ?t (dv_correlationId inp)) inp d token now"
          using True Some by simp
        show ?thesis
          unfolding step by (rule hoare_weaken [OF keeps]) (use Some that in \<open>auto simp: held_def leased_from_def\<close>)
      qed (auto simp: Some leased_from_def hoare_def returnM_def)
    qed (auto intro: hoare_return)
  qed
  have found: "hoare view (since s0) (deliverFound S (routingContext ?t (dv_correlationId inp)) inp initial)
      (\<lambda>_. since s0) (since s0)" for initial
    unfolding deliverFound_def
    by (auto intro!: readM_then next_then return_keeps leased external_then [OF random_external stable_since]
        hoare_bind [OF recoverExpired_keeps] split: option.split)
  show ?thesis
    unfolding deliver_def
  proof (rule find_delivery_then [OF stable_since _ since_inv])
    show "hoare view (\<lambda>u. since s0 u \<and> seen u (K_Delivery ?t (d_eventId x) (dv_deliveryId inp)) (It_Delivery x))
      (case Some x of None \<Rightarrow> returnM Acknowledge
       | Some initial \<Rightarrow> if isTerminalDeliveryState (d_state initial) then returnM Acknowledge
           else deliverFound S (routingContext ?t (dv_correlationId inp)) inp initial) (\<lambda>_. since s0) (since s0)" for x
      by (cases "isTerminalDeliveryState (d_state x)")
         (auto simp only: option.case if_True if_False not_False_eq_True
           intro!: return_keeps hoare_weaken [OF found [of x]])
  qed (auto intro: return_keeps)
qed

end

section \<open>Whole runs\<close>

text \<open>
  C3. Delivering is safe as a whole, beside any safe clients and whatever happens while a request is under way:
  from a table with the invariant, every message of the delivery queue leaves one with the invariant, however
  the secret store, the token endpoint, the partner and the database answer or fail.
\<close>

theorem deliver_safe:
  assumes "safe_delivery S view" and "table_inv (view w)"
  shows "safe (view w) (view (snd (deliver S inp w))) \<and> table_inv (view (snd (deliver S inp w)))"
proof -
  have "safe_table (sv_db S) view"
    using assms(1) by (simp add: safe_delivery_def safe_services_def)
  from safe_table.plain_operation_safe [OF this safe_delivery.deliver_keeps [OF assms(1)] assms(2)]
  show ?thesis .
qed

text \<open>The services in memory, with a partner that answers as it is told.\<close>

definition sample_deliver_services :: "mem dynamo \<Rightarrow> js_error + http_response \<Rightarrow> mem delivery_services" where
  "sample_deliver_services db answer = services.extend (sample_services db)
     (delivery_services.fields (returnM (1 / 2)) (\<lambda>cx n. returnM ''secret'') (\<lambda>oq. returnM ''token'')
        (\<lambda>hq. liftM answer) (\<lambda>_. None) (\<lambda>s. Not_A_Number) (\<lambda>s. None) (\<lambda>s. None))"

lemma sample_deliver_sel [simp]:
  "sv_db (sample_deliver_services db answer) = db" "sv_shards (sample_deliver_services db answer) = 4"
  "sv_next (sample_deliver_services db answer) = (\<lambda>p. returnM (p @ ''_1''))"
  "sv_now (sample_deliver_services db answer) = mem_clock"
  "sv_traceparent (sample_deliver_services db answer) = (\<lambda>_. None)"
  "dl_random (sample_deliver_services db answer) = returnM (1 / 2)"
  "dl_secret (sample_deliver_services db answer) = (\<lambda>cx n. returnM ''secret'')"
  "dl_oauth (sample_deliver_services db answer) = (\<lambda>oq. returnM ''token'')"
  "dl_send (sample_deliver_services db answer) = (\<lambda>hq. liftM answer)"
  "dl_traceId (sample_deliver_services db answer) = (\<lambda>_. None)"
  "dl_numberOf (sample_deliver_services db answer) = (\<lambda>s. Not_A_Number)"
  "dl_dateParse (sample_deliver_services db answer) = (\<lambda>s. None)"
  "dl_parse (sample_deliver_services db answer) = (\<lambda>s. None)"
  by (simp_all add: sample_deliver_services_def services.defs delivery_services.defs sample_services_def)

interpretation mem_deliver: safe_delivery "sample_deliver_services (mem_db ks safe) answer" mem_table for ks answer
proof -
  have "safe_services (sample_deliver_services (mem_db ks safe) answer) mem_table"
    using mem_is_safe by (simp add: safe_services_def safe_services_axioms_def returnM_def)
  then show "safe_delivery (sample_deliver_services (mem_db ks safe) answer) mem_table"
    by (simp add: safe_delivery_def safe_delivery_axioms_def returnM_def liftM_def safe_refl split: sum.split)
qed

definition sample_message :: deliver_input where
  "sample_message = \<lparr>dv_tenantId = ''t1'', dv_eventId = ''evt_1'', dv_deliveryId = ''dlv_1'',
     dv_correlationId = ''cor_1'', dv_owner = ''worker-1''\<rparr>"

definition sample_ok :: http_response where
  "sample_ok = \<lparr>hr_status = 200, hr_headers = [], hr_body = []\<rparr>"

lemma deliver_safe_witness:
  "table_inv (mem_table (snd (deliver (sample_deliver_services (mem_db [] safe) (Inr sample_ok)) sample_message
     (sample_world (sample_table sample_delivery)))))"
  using deliver_safe [OF mem_deliver.safe_delivery_axioms, where w = "sample_world (sample_table sample_delivery)"]
    sample_inv(1) by simp

end
