(* ===== verification/Delivery_Journal.thy ===== *)
theory Delivery_Journal
  imports Delivery_Safety
begin

text \<open>
  What a run of \<open>deliver\<close> does, in the order in which it does it: the services are given a journal of the
  transactions that the table acknowledged and of the requests that were handed to the HTTP client. The journal
  changes nothing of the run, and in it a request directly follows the transaction that records its attempt.
\<close>

section \<open>The journal\<close>

datatype journal_entry = Committed "tx_op list" | Sent http_request

type_synonym 'w journal_world = "'w \<times> journal_entry list"

text \<open>An operation on the world, and one that enters what it did at the end of the journal.\<close>

definition entering :: "('a \<Rightarrow> journal_entry list) \<Rightarrow> ('w, 'a) op \<Rightarrow> ('w journal_world, 'a) op" where
  "entering f m w = (case m (fst w) of (r, w') \<Rightarrow>
     (r, (w', snd w @ (case r of Inl e \<Rightarrow> [] | Inr a \<Rightarrow> f a))))"

definition silently :: "('w, 'a) op \<Rightarrow> ('w journal_world, 'a) op" where
  "silently = entering (\<lambda>_. [])"

definition journalled_db :: "'w dynamo \<Rightarrow> 'w journal_world dynamo" where
  "journalled_db db = \<lparr>db_get = (\<lambda>k. silently (db_get db k)),
     db_write = (\<lambda>ops. entering (\<lambda>ok. if ok then [Committed ops] else []) (db_write db ops)),
     db_query = (\<lambda>P n. silently (db_query db P n)), db_index = (\<lambda>A n. silently (db_index db A n)),
     db_now = (\<lambda>w. db_now db (fst w))\<rparr>"

text \<open>A request is entered when it is handed over, whether or not it is answered.\<close>

definition sending :: "(http_request \<Rightarrow> ('w, 'a) op) \<Rightarrow> http_request \<Rightarrow> ('w journal_world, 'a) op" where
  "sending send q w = (case send q (fst w) of (r, w') \<Rightarrow> (r, (w', snd w @ [Sent q])))"

definition journalled :: "('w, 'z) delivery_services_scheme \<Rightarrow> 'w journal_world delivery_services" where
  "journalled S = services.extend
     \<lparr>sv_db = journalled_db (sv_db S), sv_shards = sv_shards S, sv_next = (\<lambda>p. silently (sv_next S p)),
      sv_now = (\<lambda>w. sv_now S (fst w)), sv_traceparent = (\<lambda>w. sv_traceparent S (fst w)),
      sv_sha256 = sv_sha256 S, sv_number = sv_number S, sv_url = sv_url S, sv_execute = sv_execute S,
      sv_retentionDays = sv_retentionDays S, sv_supportedEventTypes = sv_supportedEventTypes S\<rparr>
     (delivery_services.fields (silently (dl_random S)) (\<lambda>cx n. silently (dl_secret S cx n))
        (\<lambda>oq. silently (dl_oauth S oq)) (sending (dl_send S)) (\<lambda>w. dl_traceId S (fst w))
        (dl_numberOf S) (dl_dateParse S) (dl_parse S))"

lemma journalled_sel [simp]:
  "sv_db (journalled S) = journalled_db (sv_db S)" "sv_shards (journalled S) = sv_shards S"
  "sv_next (journalled S) p = silently (sv_next S p)" "sv_now (journalled S) = (\<lambda>w. sv_now S (fst w))"
  "sv_traceparent (journalled S) = (\<lambda>w. sv_traceparent S (fst w))"
  "sv_sha256 (journalled S) = sv_sha256 S" "sv_number (journalled S) = sv_number S"
  "dl_random (journalled S) = silently (dl_random S)" "dl_secret (journalled S) cx n = silently (dl_secret S cx n)"
  "dl_oauth (journalled S) oq = silently (dl_oauth S oq)" "dl_send (journalled S) = sending (dl_send S)"
  "dl_traceId (journalled S) = (\<lambda>w. dl_traceId S (fst w))" "dl_numberOf (journalled S) = dl_numberOf S"
  "dl_dateParse (journalled S) = dl_dateParse S" "dl_parse (journalled S) = dl_parse S"
  by (simp_all add: journalled_def services.defs delivery_services.defs)

lemma journalled_pure [simp]:
  "partnerRequest (journalled S) = partnerRequest S"
  "newAttempt (journalled S) = newAttempt S"
  "retryAfterOf (journalled S) = retryAfterOf S"
  "completedAttempt (journalled S) = completedAttempt S"
  by (simp_all add: fun_eq_iff partnerRequest_def newAttempt_def retryAfterOf_def completedAttempt_def
      responseEvidence_def Let_def cong: list.case_cong if_cong sum.case_cong)

definition unsent :: "journal_entry list \<Rightarrow> bool" where
  "unsent = list_all (\<lambda>e. case e of Committed ops \<Rightarrow> True | Sent q \<Rightarrow> False)"

lemma unsent_simps [simp]:
  "unsent []" "unsent (as @ bs) \<longleftrightarrow> unsent as \<and> unsent bs" "unsent (Committed ops # as) \<longleftrightarrow> unsent as"
  "\<not> unsent (Sent q # as)"
  by (simp_all add: unsent_def)

section \<open>Runs with a journal\<close>

text \<open>
  \<open>logs m m' R\<close>: \<open>m'\<close> does to the world and returns what \<open>m\<close> does, and the entries that it makes are related by
  \<open>R\<close> to what it returns.
\<close>

definition logs :: "('w, 'a) op \<Rightarrow> ('w journal_world, 'a) op \<Rightarrow> (js_error + 'a \<Rightarrow> journal_entry list \<Rightarrow> bool) \<Rightarrow> bool" where
  "logs m m' R \<longleftrightarrow> (\<forall>w js. \<exists>es. m' (w, js) = (fst (m w), (snd (m w), js @ es)) \<and> R (fst (m w)) es)"

lemma logs_weaken: "logs m m' R \<Longrightarrow> (\<And>r es. R r es \<Longrightarrow> R' r es) \<Longrightarrow> logs m m' R'"
  unfolding logs_def by metis

lemma logs_bind:
  assumes "logs m m' R" and "\<And>a. logs (f a) (f' a) (R' a)"
    and "\<And>a es es' r. R (Inr a) es \<Longrightarrow> R' a r es' \<Longrightarrow> T r (es @ es')"
    and "\<And>e es. R (Inl e) es \<Longrightarrow> T (Inl e) es"
  shows "logs (bindM m f) (bindM m' f') T"
  unfolding logs_def
proof (intro allI)
  fix w js
  obtain r w1 where m: "m w = (r, w1)" by (cases "m w")
  obtain es where es: "m' (w, js) = (r, (w1, js @ es))" "R r es"
    using assms(1) m unfolding logs_def by (metis fst_conv snd_conv)
  show "\<exists>es. bindM m' f' (w, js) = (fst (bindM m f w), (snd (bindM m f w), js @ es)) \<and> T (fst (bindM m f w)) es"
  proof (cases r)
    case (Inl e)
    with es m assms(4) show ?thesis by (auto simp: bindM_def)
  next
    case (Inr a)
    obtain es' where "f' a (w1, js @ es) = (fst (f a w1), (snd (f a w1), (js @ es) @ es'))" "R' a (fst (f a w1)) es'"
      using assms(2) [of a] unfolding logs_def by blast
    with es m Inr assms(3) show ?thesis by (auto simp: bindM_def)
  qed
qed

abbreviation quietly :: "('w, 'a) op \<Rightarrow> ('w journal_world, 'a) op \<Rightarrow> bool" where
  "quietly m m' \<equiv> logs m m' (\<lambda>_. unsent)"

lemma quietly_bind: "quietly m m' \<Longrightarrow> (\<And>a. quietly (f a) (f' a)) \<Longrightarrow> quietly (bindM m f) (bindM m' f')"
  by (rule logs_bind) auto

lemma quietly_silent: "quietly m (silently m)"
  by (auto simp: logs_def silently_def entering_def split: prod.split sum.split)

lemma quietly_return: "quietly (returnM a) (returnM a)"
  by (auto simp: logs_def returnM_def)

lemma quietly_throw: "quietly (throwM e) (throwM e)"
  by (auto simp: logs_def throwM_def)

lemma quietly_lift: "quietly (liftM r) (liftM r)"
  by (auto simp: logs_def liftM_def)

lemma quietly_read: "quietly (readM f) (readM (\<lambda>w. f (fst w)))"
  by (auto simp: logs_def readM_def)

lemma quietly_write: "quietly (db_write db ops) (db_write (journalled_db db) ops)"
  by (auto simp: logs_def journalled_db_def entering_def split: prod.split sum.split)

lemma quietly_core: "quietly (getCore db k) (getCore (journalled_db db) k)"
  unfolding getCore_def
  by (rule quietly_bind) (auto simp: journalled_db_def quietly_silent, auto simp: logs_def)

lemma quietly_map: "quietly m m' \<Longrightarrow> quietly (mapM f m) (mapM f m')"
  unfolding mapM_def by (rule quietly_bind) (auto intro: quietly_return)

lemma quietly_now: "(\<And>n. quietly (m n) (m' n)) \<Longrightarrow> quietly (withNow db m) (withNow (journalled_db db) m')"
  by (simp add: logs_def withNow_def journalled_db_def)

lemma quietly_retry:
  "quietly m m' \<Longrightarrow> quietly f f' \<Longrightarrow> quietly (retryM n m f) (retryM n m' f')"
  by (induction n) (auto intro!: quietly_bind quietly_return split: option.split)

lemmas quiet_rules = quietly_bind quietly_silent quietly_return quietly_throw quietly_lift quietly_read
  quietly_write quietly_core quietly_map quietly_now

text \<open>What enters nothing at all.\<close>

abbreviation mutely :: "('w, 'a) op \<Rightarrow> ('w journal_world, 'a) op \<Rightarrow> bool" where
  "mutely m m' \<equiv> logs m m' (\<lambda>_ es. es = [])"

lemma mutely_bind: "mutely m m' \<Longrightarrow> (\<And>a. mutely (f a) (f' a)) \<Longrightarrow> mutely (bindM m f) (bindM m' f')"
  by (rule logs_bind) auto

lemma mutely_rules:
  "mutely m (silently m)" "mutely (returnM a) (returnM a)" "mutely (throwM e) (throwM e)" "mutely (liftM r) (liftM r)"
  by (auto simp: logs_def silently_def entering_def returnM_def throwM_def liftM_def split: prod.split sum.split)

lemma mutely_read: "mutely (readM f) (readM (\<lambda>w. f (fst w)))"
  by (auto simp: logs_def readM_def)

lemma mutely_then:
  "mutely m m' \<Longrightarrow> (\<And>a. logs (f a) (f' a) T) \<Longrightarrow> (\<And>e. T (Inl e) []) \<Longrightarrow> logs (bindM m f) (bindM m' f') T"
  by (rule logs_bind [where R = "\<lambda>_ es. es = []" and R' = "\<lambda>_. T"]) auto

lemma committed_write:
  "logs (db_write db ops) (db_write (journalled_db db) ops) (\<lambda>r es. es = (if r = Inr True then [Committed ops] else []))"
  by (auto simp: logs_def journalled_db_def entering_def split: prod.split sum.split)


section \<open>The operations of the repository\<close>

lemma quietly_delivery: "quietly (getDelivery db t d) (getDelivery (journalled_db db) t d)"
  unfolding getDelivery_def by (auto intro!: quiet_rules split: option.split)

lemma quietly_defer: "quietly (defer_delivery db n inp) (defer_delivery (journalled_db db) n inp)"
  unfolding defer_delivery_def getDeliveryAt_def by (auto intro!: quiet_rules split: option.split)

lemma quietly_finalize: "quietly (finalizeAttempt db n inp) (finalizeAttempt (journalled_db db) n inp)"
  unfolding finalizeAttempt_def finalizeAttemptRound_def Let_def getDeliveryAt_def getEvent_def
  by (rule quietly_retry) (auto intro!: quiet_rules split: option.split)

lemma quietly_recover: "quietly (recoverExpired db n inp) (recoverExpired (journalled_db db) n inp)"
  unfolding recoverExpired_def recoverStarted_def
  by (auto intro!: quiet_rules quietly_delivery quietly_finalize quietly_defer split: option.split)

lemma quietly_circuit: "quietly (acquireCircuitPermit db inp) (acquireCircuitPermit (journalled_db db) inp)"
  unfolding acquireCircuitPermit_def circuitPermitRound_def Let_def
  by (rule quietly_retry) (auto intro!: quiet_rules split: option.split)

lemma quietly_rate: "quietly (acquireRatePermit db inp) (acquireRatePermit (journalled_db db) inp)"
  unfolding acquireRatePermit_def ratePermitRound_def Let_def
  by (rule quietly_retry) (auto intro!: quiet_rules split: option.split)

lemma quietly_destination: "quietly (getDestination db t d) (getDestination (journalled_db db) t d)"
  unfolding getDestination_def by (intro quiet_rules)

lemma quietly_postpone:
  "quietly (postpone S t d token now st c at_ms why) (postpone (journalled S) t d token now st c at_ms why)"
  unfolding postpone_def by (auto intro!: quiet_rules quietly_defer)

lemma mutely_credentials: "mutely (credentialHeaders S cx d) (credentialHeaders (journalled S) cx d)"
  unfolding credentialHeaders_def by (auto intro!: mutely_bind mutely_rules split: list.split)

lemma quietly_finish:
  "quietly (finishAttempt S t d token a hs answer circuit policy)
     (finishAttempt (journalled S) t d token a hs answer circuit policy)"
  unfolding finishAttempt_def nextAttemptAt_def Let_def journalled_sel journalled_pure
  by (auto intro!: quiet_rules quietly_finalize split: option.split)

section \<open>What is sent\<close>

text \<open>
  The request for a delivery: its URL, its payload and the key by which the partner tells repetitions apart,
  under the name that the configuration gives.
\<close>

definition carries_key :: "delivery \<Rightarrow> headers \<Rightarrow> bool" where
  "carries_key d hs \<longleftrightarrow>
     (case cs_authType (d_configSnapshot d) of
        Api_Key \<Rightarrow> (\<forall>h. cs_idempotencyHeader (d_configSnapshot d) = Some h
          \<longrightarrow> map_of hs h = Some (d_partnerIdempotencyKey d))
      | Oauth_Client_Credentials \<Rightarrow> map_of hs ''x-delivery-key'' = Some (d_partnerIdempotencyKey d))"

lemma credential_key: "credentialHeaders S cx d w = (Inr hs, w') \<Longrightarrow> carries_key d hs"
  by (auto simp: credentialHeaders_def apiKeyHeaders_def carries_key_def bindM_def liftM_def throwM_def returnM_def
      Let_def split: list.splits prod.splits sum.splits option.splits auth_type.splits if_splits)

lemma logs_credentials:
  "logs (tryM (credentialHeaders S cx d)) (tryM (credentialHeaders (journalled S) cx d))
     (\<lambda>r es. es = [] \<and> (\<forall>hs. r = Inr (Inr hs) \<longrightarrow> carries_key d hs))"
  unfolding logs_def
proof (intro allI)
  fix w js
  obtain r w1 where m: "credentialHeaders S cx d w = (r, w1)" by (cases "credentialHeaders S cx d w")
  have "credentialHeaders (journalled S) cx d (w, js) = (r, (w1, js))"
    using mutely_credentials [of S cx d] m unfolding logs_def by (metis append_Nil2 fst_conv snd_conv)
  with m show "\<exists>es. tryM (credentialHeaders (journalled S) cx d) (w, js)
      = (fst (tryM (credentialHeaders S cx d) w), (snd (tryM (credentialHeaders S cx d) w), js @ es))
    \<and> es = [] \<and> (\<forall>hs. fst (tryM (credentialHeaders S cx d) w) = Inr (Inr hs) \<longrightarrow> carries_key d hs)"
    by (auto simp: tryM_def credential_key)
qed

text \<open>Nothing, or the one request of an attempt, which carries the key of the delivery.\<close>

definition one_request :: "('w, 'z) services_scheme \<Rightarrow> delivery \<Rightarrow> journal_entry list \<Rightarrow> bool" where
  "one_request S d es \<longleftrightarrow> (\<exists>hs bs. es = Sent (partnerRequest S d hs) # bs \<and> carries_key d hs \<and> unsent bs)"

lemma logs_send:
  "logs (tryM (dl_send S q)) (tryM (dl_send (journalled S) q)) (\<lambda>r es. es = [Sent q])"
  by (auto simp: logs_def tryM_def sending_def split: prod.split)

lemma logs_sendRequest:
  "logs (sendRequest S cx d) (sendRequest (journalled S) cx d) (\<lambda>r es. es = [] \<or> one_request S d es)"
proof -
  have sent: "logs (case r of Inl e \<Rightarrow> returnM (base_headers, Inl e)
       | Inr hs \<Rightarrow> bindM (tryM (dl_send S (partnerRequest S d hs))) (\<lambda>answer. returnM (hs, answer)))
     (case r of Inl e \<Rightarrow> returnM (base_headers, Inl e)
       | Inr hs \<Rightarrow> bindM (tryM (dl_send (journalled S) (partnerRequest S d hs))) (\<lambda>answer. returnM (hs, answer)))
     (\<lambda>_ es. case r of Inl e \<Rightarrow> es = [] | Inr hs \<Rightarrow> es = [Sent (partnerRequest S d hs)])" for r
  proof (cases r)
    case (Inr hs)
    show ?thesis
      unfolding Inr sum.case by (rule logs_bind [OF logs_send mutely_rules(2)]) auto
  qed (simp add: mutely_rules)
  show ?thesis
    unfolding sendRequest_def journalled_pure
    by (rule logs_bind [OF logs_credentials sent]) (auto simp: one_request_def split: sum.splits)
qed

text \<open>The start of an attempt of the leased delivery, as \<open>attemptDelivery\<close> hands it to the repository.\<close>

definition attemptStart :: "('w, 'z) services_scheme \<Rightarrow> string \<Rightarrow> delivery \<Rightarrow> string \<Rightarrow> instant \<Rightarrow> string option \<Rightarrow> start_input" where
  "attemptStart S t leased attemptId started trace =
     \<lparr>st_tenantId = t, st_eventId = d_eventId leased, st_delivery = leased,
      st_expectedVersion = d_version leased, st_attempt = newAttempt S leased attemptId started trace\<rparr>"

text \<open>
  The journal of an attempt: first the transaction that puts the attempt, and the delivery with the attempt as
  its active one, then the request, if there is one.
\<close>

definition attempt_journal :: "('w, 'z) services_scheme \<Rightarrow> string \<Rightarrow> delivery \<Rightarrow> journal_entry list \<Rightarrow> bool" where
  "attempt_journal S t leased es \<longleftrightarrow> (\<exists>attemptId started trace token es'.
     d_leaseToken leased = Some token
     \<and> es = Committed (startTransaction (attemptStart S t leased attemptId started trace) token) # es'
     \<and> one_request S (startedDelivery (attemptStart S t leased attemptId started trace)) es')"

lemma logs_start:
  "logs (startAttempt db inp) (startAttempt (journalled_db db) inp)
     (\<lambda>r es. case r of Inr (Some d) \<Rightarrow> d = startedDelivery inp
         \<and> (\<exists>token. d_leaseToken (st_delivery inp) = Some token \<and> es = [Committed (startTransaction inp token)])
       | _ \<Rightarrow> es = [])"
proof (cases "d_leaseToken (st_delivery inp)")
  case None
  then show ?thesis by (auto simp: startAttempt_def intro: logs_weaken [OF mutely_rules(3)]) (auto simp: logs_def throwM_def)
next
  case (Some token)
  show ?thesis
    unfolding startAttempt_def Some option.case
    by (rule logs_bind [OF committed_write, where R' = "\<lambda>ok r es. es = [] \<and> r = Inr (if ok then Some (startedDelivery inp) else None)"])
       (auto simp: logs_def returnM_def)
qed

lemma logs_attempt:
  "logs (attemptDelivery S cx leased token circuit policy) (attemptDelivery (journalled S) cx leased token circuit policy)
     (\<lambda>r es. unsent es \<or> attempt_journal S (cx_tenantId cx) leased es)"
proof -
  let ?T = "\<lambda>r es. unsent es \<or> attempt_journal S (cx_tenantId cx) leased es"
  have after: "logs (bindM (sendRequest S cx d) (\<lambda>(hs, answer). finishAttempt S t d token a hs answer circuit policy))
      (bindM (sendRequest (journalled S) cx d) (\<lambda>(hs, answer). finishAttempt (journalled S) t d token a hs answer circuit policy))
      (\<lambda>r es. unsent es \<or> one_request S d es)" for d t a
    by (rule logs_bind [OF logs_sendRequest, where R' = "\<lambda>_ _. unsent"])
       (auto simp: one_request_def intro: quietly_finish)
  have begun: "logs (bindM (startAttempt (sv_db S) inp) (\<lambda>begun. case begun of None \<Rightarrow> returnM Acknowledge
         | Some d \<Rightarrow> bindM (sendRequest S cx d) (\<lambda>(hs, answer). finishAttempt S (cx_tenantId cx) d token a hs answer circuit policy)))
      (bindM (startAttempt (sv_db (journalled S)) inp) (\<lambda>begun. case begun of None \<Rightarrow> returnM Acknowledge
         | Some d \<Rightarrow> bindM (sendRequest (journalled S) cx d) (\<lambda>(hs, answer). finishAttempt (journalled S) (cx_tenantId cx) d token a hs answer circuit policy)))
      ?T" if "inp = attemptStart S (cx_tenantId cx) leased i n x" for inp a i n x
    unfolding journalled_sel
    by (rule logs_bind [OF logs_start, where R' = "\<lambda>b r es. case b of None \<Rightarrow> es = [] | Some d \<Rightarrow> unsent es \<or> one_request S d es"])
       (use that in \<open>auto simp: attempt_journal_def attemptStart_def intro: mutely_rules after split: option.splits\<close>)
  show ?thesis
    unfolding attemptDelivery_def Let_def journalled_pure journalled_sel(3,4,12)
    by (intro mutely_then [OF mutely_read] mutely_then [OF mutely_rules(1)] begun)
       (simp_all add: attemptStart_def)
qed


lemma logs_leased:
  "logs (deliverLeased S cx inp leased token now) (deliverLeased (journalled S) cx inp leased token now)
     (\<lambda>r es. unsent es \<or> (\<exists>as bs. es = as @ bs \<and> unsent as \<and> attempt_journal S (cx_tenantId cx) leased bs))"
    (is "logs _ _ (\<lambda>r es. ?T es)")
proof -
  have quiet: "logs m m' (\<lambda>r. ?T)" if "quietly m m'" for m :: "('a, verdict) op" and m'
    using that by (rule logs_weaken) simp
  have first: "logs (bindM m f) (bindM m' f') (\<lambda>r. ?T)"
    if "quietly m m'" "\<And>a. logs (f a) (f' a) (\<lambda>r. ?T)"
    for m :: "('a, 'c) op" and m' and f :: "'c \<Rightarrow> ('a, verdict) op" and f'
    by (rule logs_bind [OF that(1), where R' = "\<lambda>_ _. ?T"]) (use that in \<open>auto, metis append_assoc unsent_simps(2)\<close>)
  have attempt: "logs (attemptDelivery S cx leased token circuit policy)
      (attemptDelivery (journalled S) cx leased token circuit policy) (\<lambda>r. ?T)" for circuit policy
    by (rule logs_weaken [OF logs_attempt]) (metis append_Nil unsent_simps(1))
  show ?thesis
    unfolding deliverLeased_def Let_def journalled_sel(1)
    by (auto intro!: first [OF quietly_destination] first [OF quietly_circuit] first [OF quietly_rate] attempt
        quiet [OF quietly_postpone] split: option.split)
qed

text \<open>The lease that this run takes for the delivery that the message names.\<close>

definition leased_by :: "deliver_input \<Rightarrow> lease_request \<Rightarrow> instant \<Rightarrow> delivery \<Rightarrow> delivery \<Rightarrow> bool" where
  "leased_by inp q now current leased \<longleftrightarrow>
     lq_tenantId q = dv_tenantId inp \<and> lq_eventId q = dv_eventId inp \<and> lq_deliveryId q = dv_deliveryId inp
     \<and> lq_owner q = dv_owner inp \<and> transitionDelivery current (leaseTransition q now) = Inr leased"

lemma mutely_core: "mutely (getCore db k) (getCore (journalled_db db) k)"
  unfolding getCore_def
  by (rule mutely_bind) (auto simp: journalled_db_def mutely_rules, auto simp: logs_def)

lemma mutely_map: "mutely m m' \<Longrightarrow> mutely (mapM f m) (mapM f m')"
  unfolding mapM_def by (intro mutely_bind mutely_rules)

lemma mutely_delivery: "mutely (getDelivery db t d) (getDelivery (journalled_db db) t d)"
  unfolding getDelivery_def by (auto intro!: mutely_bind mutely_map mutely_core mutely_rules split: option.split)

lemma bind_lift_Inr: "bindM (liftM (Inr a)) f = f a"
  by (rule ext) (simp add: bindM_def liftM_def)

definition lease_entry :: "lease_request \<Rightarrow> js_error + delivery option \<Rightarrow> journal_entry list \<Rightarrow> bool" where
  "lease_entry q r es \<longleftrightarrow> (case r of
       Inr (Some leased) \<Rightarrow> (\<exists>now current. es = [Committed (leaseTransaction q now current leased)]
           \<and> transitionDelivery current (leaseTransition q now) = Inr leased)
     | _ \<Rightarrow> es = [])"

lemma logs_lease: "logs (acquireLease db q) (acquireLease (journalled_db db) q) (lease_entry q)"
    (is "logs _ _ ?T")
proof -
  have read: "mutely (getDeliveryAt db t e d) (getDeliveryAt (journalled_db db) t e d)" for t e d
    unfolding getDeliveryAt_def by (intro mutely_map mutely_core)
  have none: "logs (returnM None) (returnM None) ?T"
    by (auto simp: logs_def returnM_def lease_entry_def)
  have writes: "logs (bindM (liftM (transitionDelivery current (leaseTransition q now))) (\<lambda>leased.
        bindM (db_write db (leaseTransaction q now current leased)) (\<lambda>ok. returnM (if ok then Some leased else None))))
      (bindM (liftM (transitionDelivery current (leaseTransition q now))) (\<lambda>leased.
        bindM (db_write (journalled_db db) (leaseTransaction q now current leased)) (\<lambda>ok.
          returnM (if ok then Some leased else None)))) ?T" for now current
  proof (cases "transitionDelivery current (leaseTransition q now)")
    case (Inl e)
    then show ?thesis by (auto simp: logs_def bindM_def liftM_def throwM_def lease_entry_def)
  next
    case (Inr leased)
    have "logs (bindM (db_write db (leaseTransaction q now current leased)) (\<lambda>ok. returnM (if ok then Some leased else None)))
      (bindM (db_write (journalled_db db) (leaseTransaction q now current leased)) (\<lambda>ok. returnM (if ok then Some leased else None)))
      ?T"
      by (rule logs_bind [OF committed_write, where R' = "\<lambda>ok r es. es = [] \<and> r = Inr (if ok then Some leased else None)"])
         (use Inr in \<open>auto simp: logs_def returnM_def lease_entry_def split: if_splits\<close>)
    then show ?thesis by (simp only: Inr bind_lift_Inr)
  qed
  have clock: "logs (withNow db m) (withNow (journalled_db db) m') ?T" if "\<And>n. logs (m n) (m' n) ?T" for m m'
    using that by (simp add: logs_def withNow_def journalled_db_def)
  show ?thesis
    unfolding acquireLease_def
    by (rule mutely_then [OF read]) (auto simp: lease_entry_def [of _ "Inl _"] intro!: none clock writes split: option.split)
qed


definition delivery_journal :: "('w, 'z) services_scheme \<Rightarrow> deliver_input \<Rightarrow> journal_entry list \<Rightarrow> bool" where
  "delivery_journal S inp es \<longleftrightarrow> (\<exists>q now current leased as bs.
     leased_by inp q now current leased
     \<and> es = Committed (leaseTransaction q now current leased) # as @ bs
     \<and> unsent as \<and> attempt_journal S (dv_tenantId inp) leased bs)"

lemma delivery_journalI:
  "leased_by inp q now current leased \<Longrightarrow> unsent as \<Longrightarrow> attempt_journal S (dv_tenantId inp) leased bs
    \<Longrightarrow> delivery_journal S inp (Committed (leaseTransaction q now current leased) # as @ bs)"
  unfolding delivery_journal_def by blast

lemma logs_deliver:
  "logs (deliver S inp) (deliver (journalled S) inp) (\<lambda>r es. unsent es \<or> delivery_journal S inp es)"
    (is "logs _ _ (\<lambda>r es. ?T es)")
proof -
  let ?t = "dv_tenantId inp"
  let ?cx = "routingContext ?t (dv_correlationId inp)"
  have quiet: "logs m m' (\<lambda>r. ?T)" if "quietly m m'" for m :: "('a, verdict) op" and m'
    using that by (rule logs_weaken) simp
  have lease: "logs (bindM (acquireLease (sv_db S) q) (\<lambda>leased. case leased of None \<Rightarrow> returnM Acknowledge
         | Some d \<Rightarrow> if d_leaseToken d \<noteq> Some token then returnM Acknowledge else deliverLeased S ?cx inp d token now))
      (bindM (acquireLease (journalled_db (sv_db S)) q) (\<lambda>leased. case leased of None \<Rightarrow> returnM Acknowledge
         | Some d \<Rightarrow> if d_leaseToken d \<noteq> Some token then returnM Acknowledge else deliverLeased (journalled S) ?cx inp d token now))
      (\<lambda>r. ?T)"
    if q: "lq_tenantId q = ?t" "lq_eventId q = dv_eventId inp" "lq_deliveryId q = dv_deliveryId inp"
      "lq_owner q = dv_owner inp" for q token now
  proof -
    have journal_of: "delivery_journal S inp (Committed (leaseTransaction q m current leased) # as @ bs)"
      if "transitionDelivery current (leaseTransition q m) = Inr leased" "unsent as" "attempt_journal S ?t leased bs"
      for m current leased as bs
      by (rule delivery_journalI) (use that q in \<open>simp_all add: leased_by_def\<close>)
    show ?thesis
    by (rule logs_bind [OF logs_lease, where R' = "\<lambda>l r es. case l of None \<Rightarrow> es = [] | Some leased \<Rightarrow>
          unsent es \<or> (\<exists>as bs. es = as @ bs \<and> unsent as \<and> attempt_journal S ?t leased bs)"])
       (auto simp: mutely_rules journal_of q routingContext_def lease_entry_def
          intro: logs_weaken [OF logs_leased] logs_weaken [OF quietly_return] split: option.splits)
  qed
  have found: "logs (deliverFound S ?cx inp initial) (deliverFound (journalled S) ?cx inp initial) (\<lambda>r. ?T)" for initial
  proof -
    have recovered: "quietly (bindM (dl_random S) (\<lambda>random. bindM (recoverExpired (sv_db S) (sv_shards S) (f random))
          (\<lambda>_. returnM Acknowledge)))
        (bindM (silently (dl_random S)) (\<lambda>random. bindM (recoverExpired (journalled_db (sv_db S)) (sv_shards S) (f random))
          (\<lambda>_. returnM Acknowledge)))" for f
      by (intro quiet_rules quietly_recover)
    show ?thesis
      unfolding deliverFound_def journalled_sel
      by (rule mutely_then [OF mutely_read])
         (auto intro!: quiet [OF recovered] quiet [OF quietly_return] mutely_then [OF mutely_rules(1)] lease
           split: option.split)
  qed
  show ?thesis
    unfolding deliver_def journalled_sel
    by (rule mutely_then [OF mutely_delivery])
       (auto intro: quiet [OF quietly_return] found split: option.split)
qed


text \<open>
  C4. What is sent. Keeping a journal of the acknowledged transactions and of the requests changes nothing of a
  run of \<open>deliver\<close>. In the journal there is no request; or its first entry is the lease that this run takes for
  the delivery of its message, and there is one request, which directly follows the acknowledgement of the
  transaction that stores the next attempt of the leased delivery, conditionally on the lease and on there being
  no active attempt, and makes it the active one. The request has the URL and the payload stored with the delivery
  and the delivery's own idempotency key under the configured name, which are the same for every attempt. Nothing
  is assumed of the table, the other clients, the partner, the secret store or the token endpoint.
\<close>

theorem sends_only_recorded_requests:
  "\<exists>es. deliver (journalled S) inp (w, js) = (fst (deliver S inp w), (snd (deliver S inp w), js @ es))
    \<and> (unsent es \<or> (\<exists>q now current leased as attemptId started trace token hs bs.
         leased_by inp q now current leased \<and> d_leaseToken leased = Some token
         \<and> es = Committed (leaseTransaction q now current leased) # as
             @ [Committed (startTransaction (attemptStart S (dv_tenantId inp) leased attemptId started trace) token),
                Sent (partnerRequest S leased hs)] @ bs
         \<and> carries_key leased hs \<and> unsent as \<and> unsent bs))"
proof -
  obtain es where run: "deliver (journalled S) inp (w, js) = (fst (deliver S inp w), (snd (deliver S inp w), js @ es))"
    and es: "unsent es \<or> delivery_journal S inp es"
    using logs_deliver [of S inp] unfolding logs_def by blast
  have "partnerRequest S (startedDelivery st) = partnerRequest S (st_delivery st)"
    "carries_key (startedDelivery st) = carries_key (st_delivery st)" for st
    by (simp_all add: fun_eq_iff partnerRequest_def carries_key_def startedDelivery_def cong: auth_type.case_cong)
  with es have "unsent es \<or> (\<exists>q now current leased as attemptId started trace token hs bs.
         leased_by inp q now current leased \<and> d_leaseToken leased = Some token
         \<and> es = Committed (leaseTransaction q now current leased) # as
             @ [Committed (startTransaction (attemptStart S (dv_tenantId inp) leased attemptId started trace) token),
                Sent (partnerRequest S leased hs)] @ bs
         \<and> carries_key leased hs \<and> unsent as \<and> unsent bs)"
    unfolding delivery_journal_def attempt_journal_def one_request_def by (fastforce simp: attemptStart_def)
  with run show ?thesis by blast
qed

end
