(* ===== verification/Partner_Http.thy ===== *)
theory Partner_Http
  imports Delivery_Safety Js_Text "HOL-Library.Word"
begin

text \<open>
  The HTTP client of \<open>packages/partner-http/src/index.ts\<close>: it resolves the host of a destination, refuses private
  addresses, connects to the very address it has looked at, and reads a bounded response. Parsing of URLs,
  name resolution and sockets are parameters.
\<close>

section \<open>Addresses\<close>

definition octet :: "string \<Rightarrow> nat option" where
  "octet s = find (\<lambda>n. js_int (int n) = s) [0..<256]"

text \<open>\<open>net.isIP(value) === 4\<close>, with the numbers of the four parts.\<close>

definition ipv4 :: "string \<Rightarrow> (nat \<times> nat \<times> nat \<times> nat) option" where
  "ipv4 v = (case map octet (split_on CHR ''.'' v) of
      [Some a, Some b, Some c, Some d] \<Rightarrow> Some (a, b, c, d) | _ \<Rightarrow> None)"

definition starts_with :: "string \<Rightarrow> string \<Rightarrow> bool" where
  "starts_with p s \<longleftrightarrow> take (length p) s = p"

definition privateIp :: "string \<Rightarrow> bool" where
  "privateIp v = (case ipv4 v of
      Some (a, b, _, _) \<Rightarrow>
        a = 0 \<or> a = 10 \<or> a = 127 \<or> a \<ge> 224 \<or> (a = 169 \<and> b = 254) \<or> (a = 172 \<and> b \<ge> 16 \<and> b \<le> 31)
        \<or> (a = 192 \<and> b = 168) \<or> (a = 100 \<and> b \<ge> 64 \<and> b \<le> 127)
    | None \<Rightarrow>
        (let normalized = toLower v in
         normalized = ''::1'' \<or> normalized = ''::'' \<or> starts_with ''fe80:'' normalized
         \<or> starts_with ''fc'' normalized \<or> starts_with ''fd'' normalized \<or> starts_with ''ff'' normalized))"

section \<open>Destinations\<close>

record url =
  ur_protocol :: string
  ur_username :: string
  ur_password :: string
  ur_hash :: string
  ur_hostname :: string
  ur_host :: string
  ur_port :: string
  ur_pathname :: string
  ur_search :: string

record connection =
  cn_protocol :: string
  cn_address :: string
  cn_servername :: string
  cn_port :: "string option"
  cn_path :: string
  cn_timeoutMs :: int
  cn_headers :: headers
  cn_body :: string

datatype header_value = One string | Many "string list"

text \<open>
  What becomes of a connection: nothing before it is interrupted, or a response whose body arrives in pieces until
  it ends or is interrupted. \<open>Timed_Out\<close> is the event \<open>timeout\<close> of the socket.
\<close>

datatype interruption = Timed_Out | Broken js_error

datatype exchange =
    No_Response interruption
  | Response "int option" "(string \<times> header_value) list" "string list" "interruption option"

text \<open>
  The configuration of the client and what it uses of Node: \<open>ph_url\<close> is \<open>new URL\<close> (\<open>None\<close> where it throws), \<open>ph_ipv6\<close> is
  \<open>net.isIP(value) === 6\<close>, \<open>ph_resolve\<close> the resolver, \<open>ph_connect\<close> \<open>transport.request\<close>, \<open>ph_utf8\<close> decodes a body.
\<close>

record 'w partner_http =
  ph_local :: bool
  ph_localHttpHostnames :: "string list"
  ph_maxResponseBytes :: nat
  ph_url :: "string \<Rightarrow> url option"
  ph_ipv6 :: "string \<Rightarrow> bool"
  ph_resolve :: "string \<Rightarrow> ('w, string list) op"
  ph_connect :: "connection \<Rightarrow> ('w, exchange) op"
  ph_utf8 :: "string \<Rightarrow> string"
  ph_traceparent :: "'w \<Rightarrow> string option"

definition is_local :: "'w partner_http \<Rightarrow> url \<Rightarrow> bool" where
  "is_local C u \<longleftrightarrow> ph_local C \<and> ur_protocol u = ''http:'' \<and> ur_hostname u \<in> set (ph_localHttpHostnames C)"

definition checkAddresses :: "'w partner_http \<Rightarrow> url \<Rightarrow> string list \<Rightarrow> js_error + unit" where
  "checkAddresses C u addresses =
     throw_if (addresses = [] \<or> list_ex (\<lambda>a. privateIp a \<and> \<not> is_local C u) addresses)
       (UnsafeDestinationError ''UNSAFE_ADDRESS'' ''Destination address is not allowed.'') (Inr ())"

definition checkUrl :: "'w partner_http \<Rightarrow> string \<Rightarrow> js_error + url" where
  "checkUrl C input = (case ph_url C input of
      None \<Rightarrow> Inl (UnsafeDestinationError ''INVALID_URL'' ''Destination URL is invalid.'')
    | Some u \<Rightarrow>
        throw_if (ur_username u \<noteq> [] \<or> ur_password u \<noteq> [] \<or> ur_hash u \<noteq> []
            \<or> ipv4 (ur_hostname u) \<noteq> None \<or> ph_ipv6 C (ur_hostname u))
          (UnsafeDestinationError ''INVALID_URL'' ''Destination URL is unsafe.'')
       (throw_if (ur_protocol u \<noteq> ''https:'' \<and> \<not> is_local C u)
          (UnsafeDestinationError ''INVALID_SCHEME'' ''Destination scheme is not allowed.'')
          (Inr u)))"

definition validateUrl :: "'w partner_http \<Rightarrow> string \<Rightarrow> ('w, url) op" where
  "validateUrl C input =
     bindM (liftM (checkUrl C input)) (\<lambda>u.
     bindM (ph_resolve C (ur_hostname u)) (\<lambda>addresses.
     bindM (liftM (checkAddresses C u addresses)) (\<lambda>_. returnM u)))"

section \<open>Requests\<close>

definition connectionTo :: "url \<Rightarrow> string \<Rightarrow> http_request \<Rightarrow> string option \<Rightarrow> connection" where
  "connectionTo u address q trace =
     \<lparr>cn_protocol = ur_protocol u, cn_address = address, cn_servername = ur_hostname u,
      cn_port = (if ur_port u = [] then None else Some (ur_port u)), cn_path = ur_pathname u @ ur_search u,
      cn_timeoutMs = hq_timeoutMs q,
      cn_headers = fold (\<lambda>(k, v). js_put k v)
        ([(''host'', ur_host u), (''accept-encoding'', ''identity''), (''user-agent'', ''pirh/0.1''),
          (''x-correlation-id'', hq_correlationId q)]
         @ (case trace of None \<Rightarrow> [] | Some p \<Rightarrow> [(''traceparent'', p)])) (hq_headers q),
      cn_body = hq_body q\<rparr>"

fun interrupted :: "interruption \<Rightarrow> js_error" where
  "interrupted Timed_Out = UnsafeDestinationError ''TIMEOUT'' ''Partner request timed out.''"
| "interrupted (Broken e) = e"

text \<open>The handler of \<open>data\<close>, with the size so far and the pieces kept.\<close>

fun receive :: "nat \<Rightarrow> nat \<Rightarrow> string \<Rightarrow> string list \<Rightarrow> interruption option \<Rightarrow> js_error + string" where
  "receive limit n kept (chunk # chunks) stop =
     (let size = n + length chunk in
      if size > limit
      then Inl (UnsafeDestinationError ''RESPONSE_TOO_LARGE'' ''Partner response exceeds the limit.'')
      else receive limit size (kept @ chunk) chunks stop)"
| "receive limit n kept [] None = Inr kept"
| "receive limit n kept [] (Some i) = Inl (interrupted i)"

definition single_headers :: "(string \<times> header_value) list \<Rightarrow> headers" where
  "single_headers hs = fold (\<lambda>(k, h) kept. case h of One v \<Rightarrow> js_put k v kept | Many _ \<Rightarrow> kept) hs []"

definition readResponse :: "'w partner_http \<Rightarrow> exchange \<Rightarrow> js_error + http_response" where
  "readResponse C x = (case x of
      No_Response i \<Rightarrow> Inl (interrupted i)
    | Response status hs chunks stop \<Rightarrow>
        throw_if (case status of None \<Rightarrow> False | Some s \<Rightarrow> s \<ge> 300 \<and> s < 400)
          (UnsafeDestinationError ''REDIRECT'' ''Partner redirects are not allowed.'')
       (throw_if (map_of hs ''content-encoding'' \<notin> {None, Some (One ''identity'')})
          (UnsafeDestinationError ''ENCODED_RESPONSE'' ''Encoded partner responses are not allowed.'')
          (case receive (ph_maxResponseBytes C) 0 [] chunks stop of
             Inl e \<Rightarrow> Inl e
           | Inr bytes \<Rightarrow> Inr \<lparr>hr_status = option_or status 0, hr_headers = single_headers hs,
               hr_body = ph_utf8 C bytes\<rparr>)))"

definition send :: "'w partner_http \<Rightarrow> http_request \<Rightarrow> ('w, http_response) op" where
  "send C q =
     bindM (validateUrl C (hq_url q)) (\<lambda>u.
     bindM (ph_resolve C (ur_hostname u)) (\<lambda>addresses.
     bindM (liftM (checkAddresses C u addresses)) (\<lambda>_.
     bindM (readM (ph_traceparent C)) (\<lambda>trace.
     bindM (ph_connect C (connectionTo u (hd addresses) q trace)) (\<lambda>x.
       liftM (readResponse C x))))))"

section \<open>Where the client connects to\<close>

text \<open>A connection that the client may open: encrypted and to a public address, or to a host of the local setup.\<close>

definition vetted :: "'w partner_http \<Rightarrow> connection \<Rightarrow> bool" where
  "vetted C c \<longleftrightarrow>
     (cn_protocol c = ''https:'' \<and> \<not> privateIp (cn_address c))
     \<or> (ph_local C \<and> cn_protocol c = ''http:'' \<and> cn_servername c \<in> set (ph_localHttpHostnames C))"

lemma checkUrl_scheme: "checkUrl C input = Inr u \<Longrightarrow> ur_protocol u = ''https:'' \<or> is_local C u"
  by (auto simp: checkUrl_def split: option.splits)

lemma checked_vetted:
  assumes "ur_protocol u = ''https:'' \<or> is_local C u" and "checkAddresses C u addresses = Inr x"
  shows "vetted C (connectionTo u (hd addresses) q trace)"
  using assms by (auto simp: vetted_def connectionTo_def is_local_def checkAddresses_def list_ex_iff)

text \<open>
  C19. No request of a destination reaches a private address. Whatever the resolver answers, at either of the two
  times it is asked, \<open>send\<close> opens only connections that are encrypted and to an address that \<open>privateIp\<close> has
  passed, or, in local mode alone, plain ones to the hosts listed for it: it behaves the same whatever any
  other connection would do.
\<close>

theorem connects_only_vetted:
  assumes "\<And>c v. vetted C c \<Longrightarrow> connect c v = ph_connect C c v"
  shows "send (C\<lparr>ph_connect := connect\<rparr>) q w = send C q w"
proof -
  let ?C = "C\<lparr>ph_connect := connect\<rparr>"
  have same: "is_local ?C = is_local C" "readResponse ?C = readResponse C"
    by (simp_all add: fun_eq_iff is_local_def readResponse_def cong: exchange.case_cong sum.case_cong)
  then have check: "checkAddresses ?C = checkAddresses C" "checkUrl ?C = checkUrl C"
    by (simp_all add: fun_eq_iff checkAddresses_def checkUrl_def split: option.split)
  have connect: "connect (connectionTo u (hd addresses) q trace) v = ph_connect C (connectionTo u (hd addresses) q trace) v"
    if "checkUrl C input = Inr u" "checkAddresses C u addresses = Inr x" for input u addresses x trace v
    using checked_vetted [OF checkUrl_scheme [OF that(1)] that(2)] by (rule assms)
  show ?thesis
    by (auto simp: send_def validateUrl_def check same bindM_def liftM_def readM_def returnM_def connect
        split: sum.splits prod.splits)
qed

text \<open>A client in memory, and a destination with a public address.\<close>

definition sample_url :: url where
  "sample_url = \<lparr>ur_protocol = ''https:'', ur_username = [], ur_password = [], ur_hash = [],
     ur_hostname = ''p.test'', ur_host = ''p.test'', ur_port = [], ur_pathname = ''/x'', ur_search = []\<rparr>"

definition sample_http :: "string list \<Rightarrow> exchange \<Rightarrow> 'w partner_http" where
  "sample_http addresses x = \<lparr>ph_local = False, ph_localHttpHostnames = [], ph_maxResponseBytes = 65536,
     ph_url = (\<lambda>_. Some sample_url), ph_ipv6 = (\<lambda>_. False), ph_resolve = (\<lambda>_. returnM addresses),
     ph_connect = (\<lambda>_. returnM x), ph_utf8 = id, ph_traceparent = (\<lambda>_. None)\<rparr>"

definition sample_http_request :: http_request where
  "sample_http_request = \<lparr>hq_url = ''https://p.test/x'', hq_headers = base_headers, hq_body = ''{}'',
     hq_timeoutMs = 1000, hq_correlationId = ''cor_1''\<rparr>"

lemma connects_only_vetted_witness:
  "send ((sample_http [''10.0.0.1''] (Response (Some 200) [] [] None))\<lparr>ph_connect := (\<lambda>c v.
       if vetted (sample_http [''10.0.0.1''] (Response (Some 200) [] [] None) :: unit partner_http) c
       then (Inr (Response (Some 200) [] [] None), v) else (Inl (Error ''connected''), v))\<rparr>) sample_http_request ()
   = send (sample_http [''10.0.0.1''] (Response (Some 200) [] [] None)) sample_http_request ()"
  by (rule connects_only_vetted) (simp add: sample_http_def returnM_def)

text \<open>With this client, whose resolver and sockets leave the table to others, the delivery worker has what it relies on.\<close>

lemma send_external:
  assumes "\<And>h. external view (ph_resolve C h)" and "\<And>c. external view (ph_connect C c)"
  shows "external view (send C q)"
  using assms unfolding send_def validateUrl_def
  by (intro external_bind external_lift external_return) (simp_all add: external_def readM_def safe_refl)

interpretation http_deliver:
  safe_delivery "(sample_deliver_services (mem_db ks safe) answer)\<lparr>dl_send := send (sample_http addresses x)\<rparr>" mem_table
  for ks answer addresses x
proof -
  let ?S = "(sample_deliver_services (mem_db ks safe) answer)\<lparr>dl_send := send (sample_http addresses x)\<rparr>"
  have "safe_services ?S mem_table"
    using mem_is_safe by (simp add: safe_services_def safe_services_axioms_def returnM_def)
  moreover have "external mem_table (send (sample_http addresses x) q)" for q
    by (rule send_external) (simp_all add: sample_http_def external_return)
  then have "safe (mem_table w) (mem_table w')" if "send (sample_http addresses x) q w = (r, w')" for q w r w'
    using that unfolding external_def by (metis snd_conv)
  ultimately show "safe_delivery ?S mem_table"
    by (simp add: safe_delivery_def safe_delivery_axioms_def returnM_def safe_refl) blast
qed

section \<open>Private addresses\<close>

text \<open>The dotted text of an address, and the blocks, as the leading bits of their addresses.\<close>

definition dotted :: "32 word \<Rightarrow> string" where
  "dotted w = (let n = unat w; part = (\<lambda>k. js_int (int (n div k mod 256))) in
     part (2 ^ 24) @ ''.'' @ part (2 ^ 16) @ ''.'' @ part (2 ^ 8) @ ''.'' @ part 1)"

definition in_block :: "32 word \<Rightarrow> nat \<times> nat \<times> nat \<times> nat \<Rightarrow> nat \<Rightarrow> bool" where
  "in_block w base len = (case base of (a, b, c, d) \<Rightarrow>
     unat w div 2 ^ (32 - len) = (((a * 256 + b) * 256 + c) * 256 + d) div 2 ^ (32 - len))"

lemma js_int_digits: "c \<in> set (js_int (int n)) \<Longrightarrow> 48 \<le> (of_char c :: nat) \<and> (of_char c :: nat) < 58"
  using digits_only [of c n] by (simp add: js_int_def)

lemma js_int_no_dot: "CHR ''.'' \<notin> set (js_int (int n))"
  using js_int_digits [of "CHR ''.''" n] by auto

lemma octet_int: "n < 256 \<Longrightarrow> octet (js_int (int n)) = Some n"
proof -
  assume n: "n < 256"
  have inj: "js_int (int m) = js_int (int n) \<longleftrightarrow> m = n" for m
    using decimal_digits by (metis js_int_def nat_int of_nat_less_0_iff)
  have "find (\<lambda>m. m = n) [0..<256] = Some n"
    using n by (simp add: find_Some_iff) (rule exI [of _ n], simp)
  then show ?thesis by (simp add: octet_def inj)
qed

lemma split_on_part: "c \<notin> set x \<Longrightarrow> split_on c (x @ c # rest) = x # split_on c rest"
  by (induction x) auto

lemma split_on_last: "c \<notin> set x \<Longrightarrow> split_on c x = [x]"
  by (induction x) auto

lemma ipv4_dotted:
  "ipv4 (dotted w) = Some (unat w div 2 ^ 24 mod 256, unat w div 2 ^ 16 mod 256, unat w div 2 ^ 8 mod 256, unat w mod 256)"
proof -
  have "split_on CHR ''.'' (dotted w) = map (\<lambda>k. js_int (int (unat w div k mod 256))) [2 ^ 24, 2 ^ 16, 2 ^ 8, 1]"
    by (simp add: dotted_def Let_def split_on_part split_on_last js_int_no_dot del: power_numeral)
  then show ?thesis by (simp add: ipv4_def octet_int)
qed

text \<open>The first two numbers of an address, and the blocks.\<close>

lemma div_is_iff: "0 < k \<Longrightarrow> m div k = c \<longleftrightarrow> c * k \<le> m \<and> m < Suc c * k" for m k c :: nat
  by (metis div_nat_eqI div_times_less_eq_dividend dividend_less_times_div mult.commute mult_Suc)

lemma block_arith:
  fixes m :: nat
  assumes "m < 65536"
  shows "224 \<le> m div 256 \<longleftrightarrow> m div 8192 = 7"
    and "m div 256 = 169 \<and> m mod 256 = 254 \<longleftrightarrow> m = 43518"
    and "m div 256 = 172 \<and> m mod 256 \<ge> 16 \<and> m mod 256 \<le> 31 \<longleftrightarrow> m div 16 = 2753"
    and "m div 256 = 192 \<and> m mod 256 = 168 \<longleftrightarrow> m = 49320"
    and "m div 256 = 100 \<and> m mod 256 \<ge> 64 \<and> m mod 256 \<le> 127 \<longleftrightarrow> m div 64 = 401"
proof -
  define q r where "q = m div 256" and "r = m mod 256"
  have m: "m = 256 * q + r" "r < 256" by (simp_all add: q_def r_def)
  note parts = q_def [symmetric] r_def [symmetric]
  show "224 \<le> m div 256 \<longleftrightarrow> m div 8192 = 7"
    using m assms unfolding parts by (subst div_is_iff) (simp, simp, presburger)
  show "m div 256 = 169 \<and> m mod 256 = 254 \<longleftrightarrow> m = 43518"
    using m unfolding parts by presburger
  show "m div 256 = 172 \<and> m mod 256 \<ge> 16 \<and> m mod 256 \<le> 31 \<longleftrightarrow> m div 16 = 2753"
    using m unfolding parts by (subst div_is_iff) (simp, simp, presburger)
  show "m div 256 = 192 \<and> m mod 256 = 168 \<longleftrightarrow> m = 49320"
    using m unfolding parts by presburger
  show "m div 256 = 100 \<and> m mod 256 \<ge> 64 \<and> m mod 256 \<le> 127 \<longleftrightarrow> m div 64 = 401"
    using m unfolding parts by (subst div_is_iff) (simp, simp, presburger)
qed

lemma private_dotted:
  "privateIp (dotted w) \<longleftrightarrow>
      in_block w (0, 0, 0, 0) 8 \<or> in_block w (10, 0, 0, 0) 8 \<or> in_block w (127, 0, 0, 0) 8 \<or> in_block w (224, 0, 0, 0) 3
      \<or> in_block w (169, 254, 0, 0) 16 \<or> in_block w (172, 16, 0, 0) 12 \<or> in_block w (192, 168, 0, 0) 16
      \<or> in_block w (100, 64, 0, 0) 10"
proof -
  define m where "m = unat w div 65536"
  have m: "m < 65536" using unsigned_less [of w] by (simp add: m_def div_less_iff_less_mult)
  have parts: "unat w div 16777216 = m div 256" "unat w div 65536 = m"
    "unat w div 1048576 = m div 16" "unat w div 4194304 = m div 64" "unat w div 536870912 = m div 8192"
    by (simp_all add: m_def div_mult2_eq [symmetric])
  have "m div 256 < 256" using m by (simp add: div_less_iff_less_mult)
  then have ip: "ipv4 (dotted w) = Some (m div 256, m mod 256, unat w div 256 mod 256, unat w mod 256)"
    using ipv4_dotted [of w] by (simp add: parts)
  have "privateIp (dotted w) \<longleftrightarrow> m div 256 = 0 \<or> m div 256 = 10 \<or> m div 256 = 127 \<or> m div 8192 = 7
      \<or> m = 43518 \<or> m div 16 = 2753 \<or> m = 49320 \<or> m div 64 = 401"
    unfolding privateIp_def ip option.case prod.case block_arith [OF m, symmetric] by (rule refl)
  then show ?thesis by (simp add: in_block_def parts)
qed

text \<open>
  Which addresses are private. For an IPv4 address the test of the first two numbers is membership in the
  eight blocks 0/8, 10/8, 127/8, 224/3, 169.254/16, 172.16/12, 192.168/16 and 100.64/10. But the same address
  written as an IPv4-mapped IPv6 address, which reaches the same host and which a resolver may well answer, is
  never private, the loopback and the link-local metadata address included.
\<close>

theorem private_addresses:
  "(privateIp (dotted w) \<longleftrightarrow>
      in_block w (0, 0, 0, 0) 8 \<or> in_block w (10, 0, 0, 0) 8 \<or> in_block w (127, 0, 0, 0) 8 \<or> in_block w (224, 0, 0, 0) 3
      \<or> in_block w (169, 254, 0, 0) 16 \<or> in_block w (172, 16, 0, 0) 12 \<or> in_block w (192, 168, 0, 0) 16
      \<or> in_block w (100, 64, 0, 0) 10)
   \<and> \<not> privateIp (''::ffff:'' @ dotted w)"
proof
  show "privateIp (dotted w) \<longleftrightarrow>
      in_block w (0, 0, 0, 0) 8 \<or> in_block w (10, 0, 0, 0) 8 \<or> in_block w (127, 0, 0, 0) 8 \<or> in_block w (224, 0, 0, 0) 3
      \<or> in_block w (169, 254, 0, 0) 16 \<or> in_block w (172, 16, 0, 0) 12 \<or> in_block w (192, 168, 0, 0) 16
      \<or> in_block w (100, 64, 0, 0) 10"
    by (rule private_dotted)
next
  let ?v = "''::ffff:'' @ dotted w"
  have "split_on CHR ''.'' ?v = (''::ffff:'' @ hd (split_on CHR ''.'' (dotted w))) # tl (split_on CHR ''.'' (dotted w))"
    by (cases "split_on CHR ''.'' (dotted w)") simp_all
  moreover have "octet (''::ffff:'' @ s) = None" for s
  proof -
    have "js_int (int n) \<noteq> CHR '':'' # s'" for n s'
      using js_int_digits [of "CHR '':''" n] by auto
    then show ?thesis by (simp add: octet_def find_None_iff)
  qed
  ultimately have "ipv4 ?v = None" by (simp add: ipv4_def split: list.split option.split)
  then show "\<not> privateIp ?v"
    by (simp add: privateIp_def starts_with_def toLower_def lower_char_def)
qed

section \<open>Errors of the client\<close>

text \<open>An exchange that fails by a rule of the client rather than by an error of the socket.\<close>

fun own_failure :: "exchange \<Rightarrow> bool" where
  "own_failure (No_Response i) \<longleftrightarrow> i = Timed_Out"
| "own_failure (Response _ _ _ stop) \<longleftrightarrow> stop = None \<or> stop = Some Timed_Out"

definition client_errors :: "(string \<times> string) list" where
  "client_errors = [(''TIMEOUT'', ''Partner request timed out.''),
     (''RESPONSE_TOO_LARGE'', ''Partner response exceeds the limit.''),
     (''REDIRECT'', ''Partner redirects are not allowed.''),
     (''ENCODED_RESPONSE'', ''Encoded partner responses are not allowed.'')]"

lemma receive_error:
  "receive limit n kept chunks stop = Inl e \<Longrightarrow> stop = None \<or> stop = Some Timed_Out \<Longrightarrow>
     \<exists>p \<in> set client_errors. e = UnsafeDestinationError (fst p) (snd p)"
  by (induction limit n kept chunks stop rule: receive.induct)
     (auto simp: client_errors_def Let_def split: if_splits)

lemma own_failure_error:
  "readResponse C x = Inl e \<Longrightarrow> own_failure x \<Longrightarrow> \<exists>p \<in> set client_errors. e = UnsafeDestinationError (fst p) (snd p)"
  by (cases x) (auto simp: readResponse_def client_errors_def throw_if_Inl dest!: receive_error split: sum.splits option.splits)

lemma client_error_codes:
  "list_all (\<lambda>(code, msg). errorCode (Error code) \<noteq> ''UNKNOWN''
     \<and> errorCode (UnsafeDestinationError code msg) = ''UNKNOWN'') client_errors"
  by code_simp

text \<open>
  The errors of the client lose their code. \<open>deliver\<close> reads the code of an error from its message, but
  \<open>UnsafeDestinationError\<close> has it in a field of its own and a sentence as its message. So when the client gives
  up by a rule of its own (the request times out, the response is too large, encoded or a redirect), the delivery
  fails terminally as \<open>UNKNOWN\<close>, at the first attempt, without counting toward the circuit, although the code of
  the error stands for a category, and that of a timeout for one that is retried.
\<close>

theorem client_errors_are_terminal:
  assumes "readResponse C x = Inl e" and "own_failure x"
  shows "resultOf (Inl e) = final_failure UNKNOWN \<and> resultState (resultOf (Inl e)) d = Failed_Terminal
    \<and> (\<exists>code msg. e = UnsafeDestinationError code msg \<and> errorCode (Error code) \<noteq> ''UNKNOWN'')
    \<and> cl_retryable (classifyDeliveryResult None (Some (errorCode (Error ''TIMEOUT''))))"
proof -
  obtain p where p: "p \<in> set client_errors" "e = UnsafeDestinationError (fst p) (snd p)"
    using own_failure_error [OF assms] by blast
  then have code: "errorCode (Error (fst p)) \<noteq> ''UNKNOWN''" "errorCode e = ''UNKNOWN''"
    using client_error_codes by (auto simp: list_all_iff)
  have "classifyDeliveryResult None (Some ''UNKNOWN'') = final_failure UNKNOWN" by code_simp
  then have result: "resultOf (Inl e) = final_failure UNKNOWN" using code(2) by (simp add: resultOf_def)
  then have "resultState (resultOf (Inl e)) d = Failed_Terminal" by (simp add: resultState_def final_failure_def)
  moreover have "cl_retryable (classifyDeliveryResult None (Some (errorCode (Error ''TIMEOUT''))))" by code_simp
  ultimately show ?thesis using result p(2) code(1) by blast
qed

lemma client_errors_are_terminal_witness:
  "resultState (resultOf (readResponse (sample_http [''8.8.8.8''] (No_Response Timed_Out) :: unit partner_http) (No_Response Timed_Out)))
     sample_delivery = Failed_Terminal"
proof -
  have run: "readResponse (sample_http [''8.8.8.8''] (No_Response Timed_Out) :: unit partner_http) (No_Response Timed_Out)
      = Inl (UnsafeDestinationError ''TIMEOUT'' ''Partner request timed out.'')"
    by (simp add: readResponse_def)
  have "own_failure (No_Response Timed_Out)" by simp
  from client_errors_are_terminal [OF run this, of sample_delivery] show ?thesis unfolding run by blast
qed

end
