(* ===== verification/Auth.thy ===== *)
theory Auth
  imports Services Js_Text Outbox_Store
begin

text \<open>
  The package \<open>packages/auth\<close> and the hooks of \<open>apps/api/src/auth.ts\<close>: console users are identified by an access token,
  producers by a signed request. The token library \<open>jose\<close>, SHA-256, HMAC, the base64 decoder of \<open>Buffer\<close> and the secret
  store are fields of \<open>auth_services\<close>; the repositories are the one \<open>DynamoPersistence\<close>. A body is the string of its bytes.
\<close>

section \<open>Dependencies\<close>

text \<open>
  \<open>au_jwtVerify token issuer algorithms\<close> is \<open>jwtVerify\<close>, which returns the payload of the token, \<open>au_resolve\<close> the
  \<open>value\<close> that \<open>secrets.resolve\<close> returns, \<open>au_now\<close> the clock.
\<close>

record 'w auth_services =
  au_db :: "'w dynamo"
  au_now :: "'w \<Rightarrow> instant"
  au_jwtVerify :: "string \<Rightarrow> string \<Rightarrow> string list \<Rightarrow> ('w, json) op"
  au_resolve :: "tenant_context \<Rightarrow> secret_reference \<Rightarrow> ('w, string) op"
  au_sha256 :: "string \<Rightarrow> 8 word list"
  au_hmac :: "string \<Rightarrow> string \<Rightarrow> 8 word list"
  au_base64 :: "string \<Rightarrow> 8 word list"

definition unauthorized :: js_error where
  "unauthorized = AuthenticationError 401"

section \<open>Access tokens\<close>

record verified_token =
  vt_issuer :: string
  vt_subject :: string
  vt_roles :: "string list"

record oidc_config =
  od_issuer :: string
  od_audience :: string
  od_allowedAlgorithms :: "string list"
  od_tokenUseClaim :: "string option"
  od_tokenUseValue :: "string option"
  od_roleClaim :: "string option"
  od_audienceClaim :: "string option"

fun as_string :: "json \<Rightarrow> string option" where
  "as_string (JStr s) = Some s"
| "as_string _ = None"

definition stringArray :: "json option \<Rightarrow> string list" where
  "stringArray v = (case v of Some (JArr xs) \<Rightarrow> List.map_filter as_string xs | _ \<Rightarrow> [])"

definition token_audiences :: "json option \<Rightarrow> string list" where
  "token_audiences v = (case v of Some (JStr s) \<Rightarrow> [s] | _ \<Rightarrow> stringArray v)"

definition claim_name :: "string option \<Rightarrow> string \<Rightarrow> string" where
  "claim_name c d = (case c of None \<Rightarrow> d | Some n \<Rightarrow> n)"

definition checkPayload :: "oidc_config \<Rightarrow> json \<Rightarrow> js_error + verified_token" where
  "checkPayload cfg payload =
     throw_if (od_audience cfg \<notin> set (token_audiences (json_get payload (claim_name (od_audienceClaim cfg) ''aud''))))
       unauthorized
     (throw_if (case od_tokenUseClaim cfg of None \<Rightarrow> False
        | Some c \<Rightarrow> json_get payload c \<noteq> map_option JStr (od_tokenUseValue cfg)) unauthorized
     (case json_get payload ''sub'' of
        Some (JStr s) \<Rightarrow> throw_if (s = []) unauthorized
          (Inr \<lparr>vt_issuer = od_issuer cfg, vt_subject = s,
            vt_roles = stringArray (json_get payload (claim_name (od_roleClaim cfg) ''roles''))\<rparr>)
      | _ \<Rightarrow> Inl unauthorized))"

definition verifyAccessToken ::
    "('w, 'z) auth_services_scheme \<Rightarrow> oidc_config \<Rightarrow> string \<Rightarrow> ('w, verified_token) op" where
  "verifyAccessToken S cfg token =
     catchM (bindM (au_jwtVerify S token (od_issuer cfg) (od_allowedAlgorithms cfg))
               (\<lambda>payload. liftM (checkPayload cfg payload)))
       (\<lambda>e. throwM (case e of AuthenticationError c \<Rightarrow> e | _ \<Rightarrow> unauthorized))"

fun as_identity :: "item option \<Rightarrow> user_identity option" where
  "as_identity (Some (It_Identity u)) = Some u"
| "as_identity _ = None"

definition findVerifiedIdentity :: "'w dynamo \<Rightarrow> string \<Rightarrow> string \<Rightarrow> ('w, user_identity option) op" where
  "findVerifiedIdentity db issuer subject = mapM as_identity (getCore db (K_Identity issuer subject))"

definition console_context :: "user_identity \<Rightarrow> string \<Rightarrow> string \<Rightarrow> tenant_context" where
  "console_context u requestId correlationId =
     \<lparr>cx_tenantId = ui_tenantId u, cx_actorType = Console_User, cx_actorId = ui_userId u,
      cx_role = Some (ui_role u), cx_requestId = requestId, cx_correlationId = correlationId\<rparr>"

definition authenticateConsole ::
    "('w, 'z) auth_services_scheme \<Rightarrow> oidc_config \<Rightarrow> string \<Rightarrow> string \<Rightarrow> string \<Rightarrow> ('w, tenant_context) op" where
  "authenticateConsole S cfg token requestId correlationId =
     bindM (verifyAccessToken S cfg token) (\<lambda>verified.
     bindM (findVerifiedIdentity (au_db S) (vt_issuer verified) (vt_subject verified)) (\<lambda>mapping.
       case mapping of
         None \<Rightarrow> throwM unauthorized
       | Some u \<Rightarrow> if ui_status u \<noteq> Active_Account then throwM unauthorized
           else returnM (console_context u requestId correlationId)))"

section \<open>Signed requests\<close>

record producer_input =
  pi_method :: string
  pi_path :: string
  pi_rawBody :: string
  pi_clientId :: string
  pi_timestamp :: string
  pi_nonce :: string
  pi_signature :: string
  pi_requiredScope :: string
  pi_requestId :: string
  pi_correlationId :: string

definition canonicalRequest ::
    "('w, 'z) auth_services_scheme \<Rightarrow> string \<Rightarrow> string \<Rightarrow> string \<Rightarrow> string \<Rightarrow> string \<Rightarrow> string" where
  "canonicalRequest S method path timestamp nonce rawBody =
     join [char_of (10 :: nat)] [toUpper method, path, timestamp, nonce, hex (au_sha256 S rawBody)]"

definition digits_value :: "string \<Rightarrow> int" where
  "digits_value s = foldl (\<lambda>n c. n * 10 + (of_char c - 48)) 0 s"

text \<open>
  \<open>/^[0-9]{1,12}$/\<close>; the twelve digits keep the number a safe integer and the date valid, so that the
  test of \<open>Number.isSafeInteger\<close> never fails.
\<close>

definition decodeTimestamp :: "string \<Rightarrow> instant \<Rightarrow> int \<Rightarrow> js_error + instant" where
  "decodeTimestamp value now maxSkewSeconds =
     throw_if (\<not> (list_all is_digit value \<and> 1 \<le> length value \<and> length value \<le> 12)) unauthorized
     (let parsed = digits_value value * 1000
      in throw_if (digits_value value > 9007199254740991 \<or> \<bar>now - parsed\<bar> > maxSkewSeconds * 1000) unauthorized
         (Inr parsed))"

definition hmacSignature :: "('w, 'z) auth_services_scheme \<Rightarrow> string \<Rightarrow> string \<Rightarrow> string" where
  "hmacSignature S secret canonical = base64url (au_hmac S secret canonical)"

definition signaturesMatch :: "('w, 'z) auth_services_scheme \<Rightarrow> string \<Rightarrow> string \<Rightarrow> bool" where
  "signaturesMatch S expected received =
     (let expectedBuffer = au_base64 S expected;
          receivedBuffer = au_base64 S received;
          sameLength = length expectedBuffer = length receivedBuffer;
          padded = if sameLength then receivedBuffer else replicate (length expectedBuffer) 0
      in expectedBuffer = padded \<and> sameLength)"

fun as_locator :: "item option \<Rightarrow> string option" where
  "as_locator (Some (It_ClientLocator t)) = Some t"
| "as_locator _ = None"

fun as_client :: "item option \<Rightarrow> api_client option" where
  "as_client (Some (It_ApiClient c)) = Some c"
| "as_client _ = None"

definition locateClient :: "'w dynamo \<Rightarrow> string \<Rightarrow> ('w, string option) op" where
  "locateClient db clientId = mapM as_locator (getCore db (K_ApiClientLocator clientId))"

definition getClient :: "'w dynamo \<Rightarrow> string \<Rightarrow> string \<Rightarrow> ('w, api_client option) op" where
  "getClient db tenant clientId = mapM as_client (getCore db (K_ApiClient tenant clientId))"

definition provisional :: "producer_input \<Rightarrow> string \<Rightarrow> tenant_context" where
  "provisional inp tenant =
     \<lparr>cx_tenantId = tenant, cx_actorType = Api_Client, cx_actorId = pi_clientId inp, cx_role = None,
      cx_requestId = pi_requestId inp, cx_correlationId = pi_correlationId inp\<rparr>"

definition usable_version :: "instant \<Rightarrow> api_client_secret_version \<Rightarrow> bool" where
  "usable_version now v \<longleftrightarrow> \<not> (av_state v = Grace_Secret
     \<and> (case av_graceExpiresAt v of None \<Rightarrow> True | Some t \<Rightarrow> t \<le> now))"

definition input_canonical :: "('w, 'z) auth_services_scheme \<Rightarrow> producer_input \<Rightarrow> string" where
  "input_canonical S inp =
     canonicalRequest S (pi_method inp) (pi_path inp) (pi_timestamp inp) (pi_nonce inp) (pi_rawBody inp)"

text \<open>One round of the loop over the secret versions; a version that does not resolve is passed over.\<close>

definition tryVersion ::
    "('w, 'z) auth_services_scheme \<Rightarrow> producer_input \<Rightarrow> string \<Rightarrow> api_client_secret_version \<Rightarrow> bool \<Rightarrow> ('w, bool) op" where
  "tryVersion S inp tenant v valid =
     bindM (readM (au_now S)) (\<lambda>now.
       if \<not> usable_version now v then returnM valid
       else catchM (bindM (au_resolve S (provisional inp tenant) (av_reference v)) (\<lambda>value.
              returnM (signaturesMatch S (hmacSignature S value (input_canonical S inp)) (pi_signature inp) \<or> valid)))
            (\<lambda>_. returnM valid))"

definition nonceHash :: "('w, 'z) auth_services_scheme \<Rightarrow> producer_input \<Rightarrow> string" where
  "nonceHash S inp = hex (au_sha256 S (pi_nonce inp))"

definition takeNonce :: "('w, 'z) auth_services_scheme \<Rightarrow> producer_input \<Rightarrow> string \<Rightarrow> ('w, tenant_context) op" where
  "takeNonce S inp tenant =
     bindM (readM (au_now S)) (\<lambda>now.
     bindM (putIfAbsent (au_db S) tenant (pi_clientId inp) (nonceHash S inp) (now + 300000)) (\<lambda>inserted.
       if inserted then returnM (provisional inp tenant) else throwM unauthorized))"

definition checkClient :: "('w, 'z) auth_services_scheme \<Rightarrow> producer_input \<Rightarrow> string \<Rightarrow> ('w, tenant_context) op" where
  "checkClient S inp tenant =
     bindM (getClient (au_db S) tenant (pi_clientId inp)) (\<lambda>client.
       case client of
         None \<Rightarrow> throwM unauthorized
       | Some c \<Rightarrow>
           if ap_status c \<noteq> Active_Account \<or> pi_requiredScope inp \<notin> set (ap_scopes c) then throwM unauthorized
           else bindM (foldM (tryVersion S inp tenant) (ap_secretVersions c) False) (\<lambda>valid.
             if \<not> valid then throwM unauthorized else takeNonce S inp tenant))"

definition authenticateProducer ::
    "('w, 'z) auth_services_scheme \<Rightarrow> producer_input \<Rightarrow> ('w, tenant_context) op" where
  "authenticateProducer S inp =
     bindM (readM (au_now S)) (\<lambda>now.
     bindM (liftM (decodeTimestamp (pi_timestamp inp) now 300)) (\<lambda>_.
     bindM (locateClient (au_db S) (pi_clientId inp)) (\<lambda>locator.
       case locator of None \<Rightarrow> throwM unauthorized | Some tenant \<Rightarrow> checkClient S inp tenant)))"

section \<open>Roles\<close>

fun role_rank :: "actor_role \<Rightarrow> nat" where
  "role_rank Viewer = 1"
| "role_rank Operator = 2"
| "role_rank Admin = 3"

definition requireRole :: "tenant_context \<Rightarrow> actor_role \<Rightarrow> js_error + unit" where
  "requireRole cx required =
     throw_if (cx_actorType cx \<noteq> Console_User
       \<or> (case cx_role cx of None \<Rightarrow> True | Some r \<Rightarrow> role_rank r < role_rank required))
       (AuthenticationError 403) (Inr ())"

section \<open>The hooks of the API\<close>

text \<open>A header is absent, one value, or several; the URL of a request is cut at its first question mark.\<close>

datatype header_value = One_Value string | Many_Values "string list"

record http_request =
  rq_id :: string
  rq_method :: string
  rq_url :: string
  rq_headers :: "string \<Rightarrow> header_value option"
  rq_rawBody :: "string option"

definition bearer :: "http_request \<Rightarrow> js_error + string" where
  "bearer q = (case rq_headers q ''authorization'' of
      Some (One_Value v) \<Rightarrow> throw_if (take 7 v \<noteq> ''Bearer '') unauthorized (Inr (drop 7 v))
    | _ \<Rightarrow> Inl unauthorized)"

definition singleHeader :: "http_request \<Rightarrow> string \<Rightarrow> js_error + string" where
  "singleHeader q name = (case rq_headers q name of
      Some (One_Value v) \<Rightarrow> throw_if (v = []) unauthorized (Inr v)
    | _ \<Rightarrow> Inl unauthorized)"

definition request_correlation :: "http_request \<Rightarrow> string" where
  "request_correlation q = ''cor_'' @ drop 4 (rq_id q)"

definition request_path :: "http_request \<Rightarrow> string" where
  "request_path q = takeWhile (\<lambda>c. c \<noteq> CHR ''?'') (rq_url q)"

definition consoleAuthenticationHook ::
    "('w, 'z) auth_services_scheme \<Rightarrow> oidc_config \<Rightarrow> http_request \<Rightarrow> ('w, tenant_context) op" where
  "consoleAuthenticationHook S cfg q =
     bindM (liftM (bearer q)) (\<lambda>token. authenticateConsole S cfg token (rq_id q) (request_correlation q))"

definition producerAuthenticationHook ::
    "('w, 'z) auth_services_scheme \<Rightarrow> string \<Rightarrow> http_request \<Rightarrow> ('w, tenant_context) op" where
  "producerAuthenticationHook S requiredScope q =
     bindM (liftM (singleHeader q ''x-client-id'')) (\<lambda>clientId.
     bindM (liftM (singleHeader q ''x-timestamp'')) (\<lambda>timestamp.
     bindM (liftM (singleHeader q ''x-nonce'')) (\<lambda>nonce.
     bindM (liftM (singleHeader q ''x-signature'')) (\<lambda>signature.
       authenticateProducer S
         \<lparr>pi_method = rq_method q, pi_path = request_path q,
          pi_rawBody = (case rq_rawBody q of None \<Rightarrow> [] | Some b \<Rightarrow> b), pi_clientId = clientId,
          pi_timestamp = timestamp, pi_nonce = nonce, pi_signature = signature, pi_requiredScope = requiredScope,
          pi_requestId = rq_id q, pi_correlationId = request_correlation q\<rparr>))))"

text \<open>The answer to a failed authentication: its status and code; other errors are thrown on.\<close>

definition authenticationErrorHandler :: "js_error \<Rightarrow> js_error + (int \<times> string)" where
  "authenticationErrorHandler e = (case e of
      AuthenticationError s \<Rightarrow> Inr (s, if s = 403 then ''FORBIDDEN'' else ''UNAUTHORIZED'')
    | _ \<Rightarrow> Inl e)"


section \<open>Facts about the parts\<close>

lemma requireRole_iff:
  "requireRole cx required = Inr () \<longleftrightarrow> cx_actorType cx = Console_User
     \<and> (\<exists>r. cx_role cx = Some r \<and> role_rank required \<le> role_rank r)"
  by (auto simp: requireRole_def throw_if_def split: option.splits)

lemma producers_have_no_role: "requireRole (provisional inp tenant) required = Inl (AuthenticationError 403)"
  by (simp add: requireRole_def provisional_def throw_if_def)

lemma signaturesMatch_iff: "signaturesMatch S expected received \<longleftrightarrow> au_base64 S expected = au_base64 S received"
  by (auto simp: signaturesMatch_def Let_def)

text \<open>The clock has passed the timestamp, or will reach it, within five minutes.\<close>

lemma decodeTimestamp_iff:
  "decodeTimestamp value now skew = Inr t \<longleftrightarrow> list_all is_digit value \<and> 1 \<le> length value \<and> length value \<le> 12
     \<and> digits_value value \<le> 9007199254740991 \<and> t = digits_value value * 1000
     \<and> now - skew * 1000 \<le> t \<and> t \<le> now + skew * 1000"
  by (auto simp: decodeTimestamp_def throw_if_def Let_def abs_le_iff)

lemma decodeTimestamp_error: "decodeTimestamp value now skew = Inl e \<Longrightarrow> e = unauthorized"
  by (auto simp: decodeTimestamp_def throw_if_def Let_def split: if_splits)

text \<open>The last test of \<open>decodeTimestamp\<close> is never the one that fails.\<close>

lemma digits_value_bound: "list_all is_digit s \<Longrightarrow> 0 \<le> digits_value s \<and> digits_value s < 10 ^ length s"
proof (induction s rule: rev_induct)
  case Nil
  then show ?case by (simp add: digits_value_def)
next
  case (snoc c s)
  define k where "k = (of_char c :: int) - 48"
  have c: "is_digit c" and s: "list_all is_digit s" using snoc.prems by simp_all
  have "(of_char c :: int) = int (of_char c :: nat)" by (simp add: of_char_def)
  with c have "0 \<le> k" "k \<le> 9" by (auto simp: k_def is_digit_def)
  moreover have "0 \<le> digits_value s" "digits_value s + 1 \<le> 10 ^ length s" using snoc.IH [OF s] by auto
  moreover have "digits_value (s @ [c]) = digits_value s * 10 + k" by (simp add: digits_value_def k_def)
  ultimately show ?case by simp
qed

lemma timestamp_is_safe:
  assumes "list_all is_digit value" and "length value \<le> 12"
  shows "digits_value value \<le> 9007199254740991"
proof -
  have "(10::int) ^ length value \<le> 10 ^ 12" using assms(2) by (rule power_increasing) simp
  with digits_value_bound [OF assms(1)] show ?thesis by simp
qed

section \<open>Admission\<close>

text \<open>What decides on a signed request, of a table, a clock and the secrets that resolve.\<close>

definition version_signs ::
    "('w, 'z) auth_services_scheme \<Rightarrow> (secret_reference \<Rightarrow> js_error + string) \<Rightarrow> instant \<Rightarrow> producer_input
       \<Rightarrow> api_client_secret_version \<Rightarrow> bool" where
  "version_signs S secret now inp v \<longleftrightarrow> usable_version now v
     \<and> (case secret (av_reference v) of
          Inl e \<Rightarrow> False
        | Inr value \<Rightarrow> au_base64 S (pi_signature inp) = au_base64 S (hmacSignature S value (input_canonical S inp)))"

definition client_admits ::
    "('w, 'z) auth_services_scheme \<Rightarrow> (secret_reference \<Rightarrow> js_error + string) \<Rightarrow> instant \<Rightarrow> producer_input \<Rightarrow> api_client \<Rightarrow> bool" where
  "client_admits S secret now inp c \<longleftrightarrow> ap_status c = Active_Account \<and> pi_requiredScope inp \<in> set (ap_scopes c)
     \<and> (\<exists>v \<in> set (ap_secretVersions c). version_signs S secret now inp v)"

definition nonceKey :: "('w, 'z) auth_services_scheme \<Rightarrow> producer_input \<Rightarrow> string \<Rightarrow> dkey" where
  "nonceKey S inp tenant = K_Nonce tenant (pi_clientId inp) (nonceHash S inp)"

definition admitted_tenant ::
    "('w, 'z) auth_services_scheme \<Rightarrow> (secret_reference \<Rightarrow> js_error + string) \<Rightarrow> dtable \<Rightarrow> instant \<Rightarrow> producer_input
       \<Rightarrow> string option" where
  "admitted_tenant S secret u now inp =
     (if \<bar>now - digits_value (pi_timestamp inp) * 1000\<bar> > 300000
         \<or> \<not> list_all is_digit (pi_timestamp inp) \<or> pi_timestamp inp = [] \<or> length (pi_timestamp inp) > 12 then None
      else case as_locator (live_item (u (K_ApiClientLocator (pi_clientId inp))) now) of
        None \<Rightarrow> None
      | Some t \<Rightarrow> (case as_client (live_item (u (K_ApiClient t (pi_clientId inp))) now) of
          None \<Rightarrow> None
        | Some c \<Rightarrow> if client_admits S secret now inp c \<and> u (nonceKey S inp t) = None then Some t else None))"

locale alone_auth = dynamo_alone "au_db S" view
  for S :: "('w, 'z) auth_services_scheme" and view :: "'w \<Rightarrow> dtable" +
  fixes secret :: "secret_reference \<Rightarrow> js_error + string"
  assumes clock_law: "au_now S w = db_now (au_db S) w"
    and resolve_alone: "\<exists>w'. au_resolve S cx ref w = (secret ref, w') \<and> view w' = view w
       \<and> db_now (au_db S) w' = db_now (au_db S) w"
begin

lemma yields_resolve: "yields (au_db S) view (au_resolve S cx ref) w (secret ref) (view w)"
  using resolve_alone [of cx ref w] by (auto simp: yields_def)

lemma yields_clock:
  assumes "yields (au_db S) view (f (db_now (au_db S) w)) w r u"
  shows "yields (au_db S) view (bindM (readM (au_now S)) f) w r u"
  using assms by (simp add: yields_def bindM_def readM_def clock_law)

lemma tryVersion_run:
  "yields (au_db S) view (tryVersion S inp t v valid) w
     (Inr (valid \<or> version_signs S secret (db_now (au_db S) w) inp v)) (view w)"
proof -
  obtain w1 where r: "au_resolve S (provisional inp t) (av_reference v) w = (secret (av_reference v), w1)"
    and w1: "view w1 = view w" "db_now (au_db S) w1 = db_now (au_db S) w"
    using resolve_alone by blast
  show ?thesis
    unfolding tryVersion_def
    by (rule yields_clock)
       (use r w1 in \<open>auto simp: yields_def version_signs_def catchM_def bindM_def returnM_def signaturesMatch_iff
          split: sum.splits\<close>)
qed

lemma versions_run:
  "yields (au_db S) view (foldM (tryVersion S inp t) vs valid) w
     (Inr (valid \<or> (\<exists>v \<in> set vs. version_signs S secret (db_now (au_db S) w) inp v))) (view w)"
proof (induction vs arbitrary: valid w)
  case Nil
  then show ?case by (simp add: yields_return)
next
  case (Cons v vs)
  show ?case
    unfolding foldM.simps
  proof (rule yields_bind [OF tryVersion_run])
    fix w1
    assume "view w1 = view w" "db_now (au_db S) w1 = db_now (au_db S) w"
    with Cons.IH [of "valid \<or> version_signs S secret (db_now (au_db S) w) inp v" w1]
    show "yields (au_db S) view (foldM (tryVersion S inp t) vs (valid \<or> version_signs S secret (db_now (au_db S) w) inp v)) w1
        (Inr (valid \<or> (\<exists>v \<in> set (v # vs). version_signs S secret (db_now (au_db S) w) inp v))) (view w)"
      by (simp add: disj_assoc)
  qed
qed

lemma nonce_run:
  "yields (au_db S) view (takeNonce S inp t) w
     (if view w (nonceKey S inp t) = None then Inr (provisional inp t) else Inl unauthorized)
     (if view w (nonceKey S inp t) = None
      then (view w)(nonceKey S inp t \<mapsto> It_Nonce (Epoch ((db_now (au_db S) w + 300000) div 1000))) else view w)"
proof -
  let ?ops = "[put_new (nonceKey S inp t) (It_Nonce (Epoch ((db_now (au_db S) w + 300000) div 1000)))]"
  have "tx_distinct ?ops" by (simp add: tx_distinct_def)
  from yields_write [OF this, of w] show ?thesis
    unfolding takeNonce_def
    by (intro yields_clock)
       (auto simp: putIfAbsent_def nonceKey_def [symmetric] to_epoch_def yields_def bindM_def returnM_def throwM_def)
qed

lemma client_run:
  assumes "as_client (live_item (view w (K_ApiClient t (pi_clientId inp))) (db_now (au_db S) w)) = copt"
  defines "ok \<equiv> (case copt of None \<Rightarrow> False | Some c \<Rightarrow> client_admits S secret (db_now (au_db S) w) inp c)
     \<and> view w (nonceKey S inp t) = None"
  shows "yields (au_db S) view (checkClient S inp t) w
     (if ok then Inr (provisional inp t) else Inl unauthorized)
     (if ok then (view w)(nonceKey S inp t \<mapsto> It_Nonce (Epoch ((db_now (au_db S) w + 300000) div 1000))) else view w)"
  unfolding checkClient_def
proof (rule yields_bind)
  show "yields (au_db S) view (getClient (au_db S) t (pi_clientId inp)) w (Inr copt) (view w)"
    using yields_core [of as_client "K_ApiClient t (pi_clientId inp)" w] assms(1) by (simp add: getClient_def)
  fix w1
  assume w1: "view w1 = view w" "db_now (au_db S) w1 = db_now (au_db S) w"
  show "yields (au_db S) view (case copt of
         None \<Rightarrow> throwM unauthorized
       | Some c \<Rightarrow>
           if ap_status c \<noteq> Active_Account \<or> pi_requiredScope inp \<notin> set (ap_scopes c) then throwM unauthorized
           else bindM (foldM (tryVersion S inp t) (ap_secretVersions c) False) (\<lambda>valid.
             if \<not> valid then throwM unauthorized else takeNonce S inp t)) w1
     (if ok then Inr (provisional inp t) else Inl unauthorized)
     (if ok then (view w)(nonceKey S inp t \<mapsto> It_Nonce (Epoch ((db_now (au_db S) w + 300000) div 1000))) else view w)"
  proof (cases copt)
    case None
    then show ?thesis using w1 by (simp add: ok_def yields_throw)
  next
    case c: (Some c)
    show ?thesis
    proof (cases "ap_status c \<noteq> Active_Account \<or> pi_requiredScope inp \<notin> set (ap_scopes c)")
      case True
      then show ?thesis using c w1 by (auto simp: ok_def client_admits_def yields_throw)
    next
      case False
      define signed where "signed = (\<exists>v \<in> set (ap_secretVersions c). version_signs S secret (db_now (au_db S) w) inp v)"
      have ok: "ok \<longleftrightarrow> signed \<and> view w (nonceKey S inp t) = None"
        using c False by (simp add: ok_def client_admits_def signed_def)
      have "yields (au_db S) view (bindM (foldM (tryVersion S inp t) (ap_secretVersions c) False) (\<lambda>valid.
             if \<not> valid then throwM unauthorized else takeNonce S inp t)) w1
         (if ok then Inr (provisional inp t) else Inl unauthorized)
         (if ok then (view w)(nonceKey S inp t \<mapsto> It_Nonce (Epoch ((db_now (au_db S) w + 300000) div 1000))) else view w)"
      proof (rule yields_bind)
        show "yields (au_db S) view (foldM (tryVersion S inp t) (ap_secretVersions c) False) w1 (Inr signed) (view w)"
          using versions_run [of inp t "ap_secretVersions c" False w1] w1 by (simp add: signed_def)
        fix w2
        assume "view w2 = view w" "db_now (au_db S) w2 = db_now (au_db S) w1"
        then show "yields (au_db S) view (if \<not> signed then throwM unauthorized else takeNonce S inp t) w2
            (if ok then Inr (provisional inp t) else Inl unauthorized)
            (if ok then (view w)(nonceKey S inp t \<mapsto> It_Nonce (Epoch ((db_now (au_db S) w + 300000) div 1000))) else view w)"
          using nonce_run [of inp t w2] w1 by (auto simp: ok yields_throw)
      qed
      then show ?thesis using c False by simp
    qed
  qed
qed

lemma timestamp_cases:
  "(\<exists>t. decodeTimestamp ts now 300 = Inr t) \<longleftrightarrow> \<not> (\<bar>now - digits_value ts * 1000\<bar> > 300000
     \<or> \<not> list_all is_digit ts \<or> ts = [] \<or> length ts > 12)"
  unfolding decodeTimestamp_iff using timestamp_is_safe [of ts]
  by (auto simp: abs_le_iff Suc_le_eq abs_less_iff not_less)

lemma authenticate_run:
  defines "verdict w inp \<equiv> admitted_tenant S secret (view w) (db_now (au_db S) w) inp"
  shows "yields (au_db S) view (authenticateProducer S inp) w
     (case verdict w inp of None \<Rightarrow> Inl unauthorized | Some t \<Rightarrow> Inr (provisional inp t))
     (case verdict w inp of None \<Rightarrow> view w
      | Some t \<Rightarrow> (view w)(nonceKey S inp t \<mapsto> It_Nonce (Epoch ((db_now (au_db S) w + 300000) div 1000))))"
  unfolding authenticateProducer_def
proof (rule yields_clock, cases "decodeTimestamp (pi_timestamp inp) (db_now (au_db S) w) 300")
  case (Inl e)
  then have "verdict w inp = None" "e = unauthorized"
    using timestamp_cases [of "pi_timestamp inp" "db_now (au_db S) w"] decodeTimestamp_error [OF Inl]
    by (auto simp: verdict_def admitted_tenant_def)
  with Inl show "yields (au_db S) view (bindM (liftM (decodeTimestamp (pi_timestamp inp) (db_now (au_db S) w) 300))
      (\<lambda>_. bindM (locateClient (au_db S) (pi_clientId inp)) (case_option (throwM unauthorized) (checkClient S inp)))) w
     (case verdict w inp of None \<Rightarrow> Inl unauthorized | Some t \<Rightarrow> Inr (provisional inp t))
     (case verdict w inp of None \<Rightarrow> view w
      | Some t \<Rightarrow> (view w)(nonceKey S inp t \<mapsto> It_Nonce (Epoch ((db_now (au_db S) w + 300000) div 1000))))"
    by (simp add: yields_throw)
next
  case (Inr t0)
  let ?loc = "as_locator (live_item (view w (K_ApiClientLocator (pi_clientId inp))) (db_now (au_db S) w))"
  have verdict: "verdict w inp = (case ?loc of None \<Rightarrow> None
      | Some t \<Rightarrow> (case as_client (live_item (view w (K_ApiClient t (pi_clientId inp))) (db_now (au_db S) w)) of
          None \<Rightarrow> None
        | Some c \<Rightarrow> if client_admits S secret (db_now (au_db S) w) inp c \<and> view w (nonceKey S inp t) = None
            then Some t else None))"
    using timestamp_cases [of "pi_timestamp inp" "db_now (au_db S) w"] Inr by (auto simp: verdict_def admitted_tenant_def)
  have "yields (au_db S) view (bindM (locateClient (au_db S) (pi_clientId inp))
      (case_option (throwM unauthorized) (checkClient S inp))) w
     (case verdict w inp of None \<Rightarrow> Inl unauthorized | Some t \<Rightarrow> Inr (provisional inp t))
     (case verdict w inp of None \<Rightarrow> view w
      | Some t \<Rightarrow> (view w)(nonceKey S inp t \<mapsto> It_Nonce (Epoch ((db_now (au_db S) w + 300000) div 1000))))"
  proof (rule yields_bind)
    show "yields (au_db S) view (locateClient (au_db S) (pi_clientId inp)) w (Inr ?loc) (view w)"
      using yields_core [of as_locator] by (simp add: locateClient_def)
    fix w1
    assume w1: "view w1 = view w" "db_now (au_db S) w1 = db_now (au_db S) w"
    show "yields (au_db S) view (case ?loc of None \<Rightarrow> throwM unauthorized | Some t \<Rightarrow> checkClient S inp t) w1
     (case verdict w inp of None \<Rightarrow> Inl unauthorized | Some t \<Rightarrow> Inr (provisional inp t))
     (case verdict w inp of None \<Rightarrow> view w
      | Some t \<Rightarrow> (view w)(nonceKey S inp t \<mapsto> It_Nonce (Epoch ((db_now (au_db S) w + 300000) div 1000))))"
    proof (cases ?loc)
      case None
      with w1 show ?thesis by (simp add: verdict yields_throw)
    next
      case (Some t)
      define copt where "copt = as_client (live_item (view w (K_ApiClient t (pi_clientId inp))) (db_now (au_db S) w))"
      have "as_client (live_item (view w1 (K_ApiClient t (pi_clientId inp))) (db_now (au_db S) w1)) = copt"
        using w1 by (simp add: copt_def)
      from client_run [OF this] show ?thesis
        unfolding verdict copt_def [symmetric] Some w1 by (auto simp: Some copt_def [symmetric] split: option.split)
    qed
  qed
  with Inr show "yields (au_db S) view (bindM (liftM (decodeTimestamp (pi_timestamp inp) (db_now (au_db S) w) 300))
      (\<lambda>_. bindM (locateClient (au_db S) (pi_clientId inp)) (case_option (throwM unauthorized) (checkClient S inp)))) w
     (case verdict w inp of None \<Rightarrow> Inl unauthorized | Some t \<Rightarrow> Inr (provisional inp t))
     (case verdict w inp of None \<Rightarrow> view w
      | Some t \<Rightarrow> (view w)(nonceKey S inp t \<mapsto> It_Nonce (Epoch ((db_now (au_db S) w + 300000) div 1000))))"
    by simp
qed

end

section \<open>Nonces among other clients of the table\<close>

text \<open>The other clients may do what they like, except to remove nonces; a secret store may call anyone.\<close>

definition keeps_nonces :: "dtable \<Rightarrow> dtable \<Rightarrow> bool" where
  "keeps_nonces s u \<longleftrightarrow> (\<forall>t c h. s (K_Nonce t c h) \<noteq> None \<longrightarrow> u (K_Nonce t c h) \<noteq> None)"

locale shared_auth = dynamo_table "au_db S" view keeps_nonces
  for S :: "('w, 'z) auth_services_scheme" and view :: "'w \<Rightarrow> dtable" +
  assumes resolve_shared: "au_resolve S cx ref w = (r, w') \<Longrightarrow> keeps_nonces (view w) (view w')"
begin

definition spent :: "producer_input \<Rightarrow> string \<Rightarrow> dtable \<Rightarrow> bool" where
  "spent inp t u \<longleftrightarrow> u (nonceKey S inp t) \<noteq> None"

lemma stable_spent: "stable keeps_nonces (spent inp t)"
  unfolding stable_def spent_def nonceKey_def keeps_nonces_def by blast

lemma stable_always: "stable keeps_nonces (\<lambda>_. True)"
  by (simp add: stable_def)

lemma core_then:
  assumes "stable keeps_nonces P" and "\<And>x. hoare view P (f x) Q (\<lambda>_. True)"
  shows "hoare view P (bindM (mapM g (getCore (au_db S) k)) f) Q (\<lambda>_. True)"
proof (rule hoare_bind [where R = "\<lambda>_. P"])
  show "hoare view P (mapM g (getCore (au_db S) k)) (\<lambda>_. P) (\<lambda>_. True)"
  proof (rule hoareI)
    fix w r w'
    assume P: "P (view w)" and run: "mapM g (getCore (au_db S) k) w = (r, w')"
    obtain x w1 where x: "db_get (au_db S) k w = (x, w1)" by (cases "db_get (au_db S) k w")
    from get_law [OF x] have "keeps_nonces (view w) (view w1)" by simp
    with assms(1) P have "P (view w1)" by (rule stableD)
    moreover have "w' = w1" using run x by (auto simp: mapM_def getCore_def bindM_def returnM_def split: sum.splits)
    ultimately show "case r of Inr a \<Rightarrow> P (view w') | Inl e \<Rightarrow> True" by (simp split: sum.split)
  qed
qed (rule assms(2))

lemma versions_then:
  assumes "stable keeps_nonces P"
  shows "hoare view P (foldM (tryVersion S inp t) vs valid) (\<lambda>_. P) P"
proof (rule hoare_fold)
  fix v a
  show "hoare view P (tryVersion S inp t v a) (\<lambda>_. P) P"
  proof (rule hoareI)
    fix w r w'
    assume P: "P (view w)" and run: "tryVersion S inp t v a w = (r, w')"
    obtain x w1 where x: "au_resolve S (provisional inp t) (av_reference v) w = (x, w1)"
      by (cases "au_resolve S (provisional inp t) (av_reference v) w")
    from assms P resolve_shared [OF x] have "P (view w1)" by (rule stableD)
    moreover have "w' = w \<or> w' = w1"
      using run x by (auto simp: tryVersion_def bindM_def readM_def catchM_def returnM_def split: sum.splits if_splits)
    ultimately show "case r of Inr a \<Rightarrow> P (view w') | Inl e \<Rightarrow> P (view w')" using P by (auto split: sum.split)
  qed
qed

lemma takeNonce_then:
  assumes "stable keeps_nonces P"
    and "\<And>u u'. P u \<Longrightarrow> u (nonceKey S inp t) = None \<Longrightarrow> spent inp t u' \<Longrightarrow> Q (provisional inp t) u'"
  shows "hoare view P (takeNonce S inp t) Q (\<lambda>_. True)"
  unfolding takeNonce_def
proof (rule hoare_bind [where R = "\<lambda>_. P"])
  show "hoare view P (readM (au_now S)) (\<lambda>_. P) (\<lambda>_. True)" by (rule hoare_read_world)
  show "hoare view P (bindM (putIfAbsent (au_db S) t (pi_clientId inp) (nonceHash S inp) (now + 300000))
      (\<lambda>inserted. if inserted then returnM (provisional inp t) else throwM unauthorized)) Q (\<lambda>_. True)" for now
  proof (rule hoare_bind [where R = "\<lambda>ok u. ok \<longrightarrow> Q (provisional inp t) u"])
    show "hoare view P (putIfAbsent (au_db S) t (pi_clientId inp) (nonceHash S inp) (now + 300000))
        (\<lambda>ok u. ok \<longrightarrow> Q (provisional inp t) u) (\<lambda>_. True)"
      unfolding putIfAbsent_def
    proof (rule hoare_write [OF assms(1)])
      fix u
      assume "P u" and "tx_ok [put_new (K_Nonce t (pi_clientId inp) (nonceHash S inp))
        (It_Nonce (to_epoch (Iso (now + 300000))))] u"
      then show "True \<longrightarrow> Q (provisional inp t) (tx_apply [put_new (K_Nonce t (pi_clientId inp) (nonceHash S inp))
          (It_Nonce (to_epoch (Iso (now + 300000))))] u)"
        using assms(2) [of u "tx_apply [put_new (K_Nonce t (pi_clientId inp) (nonceHash S inp))
          (It_Nonce (to_epoch (Iso (now + 300000))))] u"]
        by (simp add: tx_ok_def nonceKey_def spent_def)
    qed simp_all
  qed (auto intro: hoare_return hoare_throw)
qed

lemma authenticate_then:
  assumes "stable keeps_nonces P"
    and "\<And>t u u'. P u \<Longrightarrow> u (nonceKey S inp t) = None \<Longrightarrow> spent inp t u' \<Longrightarrow> Q (provisional inp t) u'"
  shows "hoare view P (authenticateProducer S inp) Q (\<lambda>_. True)"
proof -
  have nonce: "hoare view P (takeNonce S inp t) Q (\<lambda>_. True)" for t
    using assms by (intro takeNonce_then) blast+
  have client: "hoare view P (checkClient S inp t) Q (\<lambda>_. True)" for t
    unfolding checkClient_def getClient_def
    by (rule core_then [OF assms(1)])
       (auto intro!: hoare_throw nonce hoare_bind [where R = "\<lambda>_. P"]
          hoare_weaken [OF versions_then [OF assms(1)]] split: option.split)
  show ?thesis
    unfolding authenticateProducer_def locateClient_def
    by (rule hoare_bind [where R = "\<lambda>_. P"])
       (auto intro!: hoare_read_world hoare_lift_bind core_then [OF assms(1)] hoare_throw client split: option.split)
qed

end

section \<open>Requests that overlap\<close>

text \<open>
  A request is its checks, which only read, and then the conditional put of its nonce. \<open>checkedProducer\<close> is the
  part before the put.
\<close>

definition checkedProducer :: "('w, 'z) auth_services_scheme \<Rightarrow> producer_input \<Rightarrow> ('w, string) op" where
  "checkedProducer S inp =
     bindM (readM (au_now S)) (\<lambda>now.
     bindM (liftM (decodeTimestamp (pi_timestamp inp) now 300)) (\<lambda>_.
     bindM (locateClient (au_db S) (pi_clientId inp)) (\<lambda>locator.
       case locator of None \<Rightarrow> throwM unauthorized
       | Some tenant \<Rightarrow> bindM (getClient (au_db S) tenant (pi_clientId inp)) (\<lambda>client.
           case client of
             None \<Rightarrow> throwM unauthorized
           | Some c \<Rightarrow>
               if ap_status c \<noteq> Active_Account \<or> pi_requiredScope inp \<notin> set (ap_scopes c) then throwM unauthorized
               else bindM (foldM (tryVersion S inp tenant) (ap_secretVersions c) False) (\<lambda>valid.
                 if \<not> valid then throwM unauthorized else returnM tenant)))))"

lemma authenticate_split: "authenticateProducer S inp = bindM (checkedProducer S inp) (takeNonce S inp)"
proof -
  have client: "checkClient S inp t = bindM (bindM (getClient (au_db S) t (pi_clientId inp)) (\<lambda>client.
           case client of
             None \<Rightarrow> throwM unauthorized
           | Some c \<Rightarrow>
               if ap_status c \<noteq> Active_Account \<or> pi_requiredScope inp \<notin> set (ap_scopes c) then throwM unauthorized
               else bindM (foldM (tryVersion S inp t) (ap_secretVersions c) False) (\<lambda>valid.
                 if \<not> valid then throwM unauthorized else returnM t))) (takeNonce S inp)" for t
    unfolding checkClient_def op_bind_assoc
    by (intro arg_cong2 [where f = bindM] refl ext)
       (auto simp: op_bind_assoc op_bind_throw op_bind_return op_bind_if split: option.split cong: if_cong)
  show ?thesis
    unfolding authenticateProducer_def checkedProducer_def op_bind_assoc
    by (intro arg_cong2 [where f = bindM] refl ext)
       (simp only: client op_bind_throw option.case simp_thms option.distinct option.inject split: option.split, blast)
qed

text \<open>
  The requests of all processes of the API in any interleaving. A state is a world and the requests that have been
  admitted, the last one first. A request whose checks have passed, in whatever worlds they ran, makes its put in the
  world of the moment; between the puts the other clients of the table do what they may.
\<close>

inductive admission_step ::
    "('w, 'z) auth_services_scheme \<Rightarrow> ('w \<Rightarrow> dtable) \<Rightarrow> 'w \<times> (producer_input \<times> tenant_context) list
       \<Rightarrow> 'w \<times> (producer_input \<times> tenant_context) list \<Rightarrow> bool" for S view where
  admit: "checkedProducer S inp v = (Inr t, v') \<Longrightarrow> takeNonce S inp t w = (Inr c, u)
    \<Longrightarrow> admission_step S view (w, adm) (u, (inp, c) # adm)"
| refuse: "takeNonce S inp t w = (Inl e, u) \<Longrightarrow> admission_step S view (w, adm) (u, adm)"
| others: "keeps_nonces (view w) (view u) \<Longrightarrow> admission_step S view (w, adm) (u, adm)"

definition admitted_as :: "producer_input \<times> tenant_context \<Rightarrow> string \<times> string \<times> string" where
  "admitted_as = (\<lambda>(inp, c). (cx_tenantId c, pi_clientId inp, pi_nonce inp))"

text \<open>The nonces of the admitted requests are in the table, and no two of them are the same.\<close>

definition rows_taken :: "('w, 'z) auth_services_scheme \<Rightarrow> (producer_input \<times> tenant_context) list \<Rightarrow> dtable \<Rightarrow> bool" where
  "rows_taken S adm s \<longleftrightarrow> (\<forall>p \<in> set adm. s (nonceKey S (fst p) (cx_tenantId (snd p))) \<noteq> None)"

lemma rows_taken_kept: "rows_taken S adm s \<Longrightarrow> keeps_nonces s u \<Longrightarrow> rows_taken S adm u"
  unfolding rows_taken_def keeps_nonces_def nonceKey_def by blast

lemma rows_taken_stable: "stable keeps_nonces (rows_taken S adm)"
  unfolding stable_def by (blast intro: rows_taken_kept)

lemma not_taken:
  assumes "rows_taken S adm s" and "s (nonceKey S inp (cx_tenantId c)) = None"
  shows "admitted_as (inp, c) \<notin> admitted_as ` set adm"
proof
  assume "admitted_as (inp, c) \<in> admitted_as ` set adm"
  then obtain p where p: "p \<in> set adm" "admitted_as (inp, c) = admitted_as p" by blast
  then have "nonceKey S (fst p) (cx_tenantId (snd p)) = nonceKey S inp (cx_tenantId c)"
    by (auto simp: admitted_as_def nonceKey_def nonceHash_def split: prod.splits)
  with p assms show False unfolding rows_taken_def by metis
qed

definition nonces_taken :: "('w, 'z) auth_services_scheme \<Rightarrow> ('w \<Rightarrow> dtable) \<Rightarrow> 'w \<times> (producer_input \<times> tenant_context) list \<Rightarrow> bool" where
  "nonces_taken S view st \<longleftrightarrow> (case st of (w, adm) \<Rightarrow> distinct (map admitted_as adm)
     \<and> rows_taken S adm (view w))"

context shared_auth
begin

lemma put_keeps:
  assumes "takeNonce S inp t w = (r, u)"
  shows "keeps_nonces (view w) (view u)"
proof -
  have "hoare view (\<lambda>s. keeps_nonces (view w) s) (takeNonce S inp t) (\<lambda>_ s. keeps_nonces (view w) s)
      (\<lambda>s. keeps_nonces (view w) s)"
    unfolding takeNonce_def putIfAbsent_def
  proof (intro hoare_bind [where R = "\<lambda>_ s. keeps_nonces (view w) s"] hoare_read_world)
    fix now
    show "hoare view (\<lambda>s. keeps_nonces (view w) s)
        (db_write (au_db S) [put_new (K_Nonce t (pi_clientId inp) (nonceHash S inp)) (It_Nonce (to_epoch (Iso (now + 300000))))])
        (\<lambda>_ s. keeps_nonces (view w) s) (\<lambda>s. keeps_nonces (view w) s)"
      by (rule hoare_write) (auto simp: stable_def keeps_nonces_def intro: rely_trans)
  qed (auto intro: hoare_return hoare_throw)
  from hoareD [OF this rely_refl assms] show ?thesis by (auto split: sum.splits)
qed

lemma put_takes:
  assumes "takeNonce S inp t w = (Inr c, u)" and "P (view w)" and "stable keeps_nonces P"
  shows "c = provisional inp t \<and> view u (nonceKey S inp t) \<noteq> None \<and> (\<exists>s. P s \<and> s (nonceKey S inp t) = None)"
proof -
  have "hoare view P (takeNonce S inp t)
      (\<lambda>c s. c = provisional inp t \<and> spent inp t s \<and> (\<exists>s. P s \<and> s (nonceKey S inp t) = None)) (\<lambda>_. True)"
    by (rule takeNonce_then [OF assms(3)]) blast
  from hoareD [OF this assms(2,1)] show ?thesis by (simp add: spent_def)
qed

lemma admission_keeps:
  assumes "admission_step S view st st'" and "nonces_taken S view st"
  shows "nonces_taken S view st'"
  using assms
proof (induction rule: admission_step.cases)
  case (admit inp v t v' w c u adm)
  have taken: "rows_taken S adm (view w)" and d: "distinct (map admitted_as adm)"
    using admit by (auto simp: nonces_taken_def)
  from put_takes [OF admit(4) taken rows_taken_stable] obtain s where c: "c = provisional inp t"
      "view u (nonceKey S inp t) \<noteq> None" and s: "rows_taken S adm s" "s (nonceKey S inp t) = None" by blast
  have t: "cx_tenantId c = t" by (simp add: c provisional_def)
  have "admitted_as (inp, c) \<notin> admitted_as ` set adm"
    using not_taken [OF s(1), of inp c] s(2) t by simp
  moreover have "rows_taken S adm (view u)" by (rule rows_taken_kept [OF taken put_keeps [OF admit(4)]])
  then have "rows_taken S ((inp, c) # adm) (view u)" using c(2) t by (simp add: rows_taken_def)
  ultimately show ?case using admit d by (simp add: nonces_taken_def)
next
  case (refuse inp t w e u adm)
  then show ?case
    using rows_taken_kept [OF _ put_keeps [OF refuse(3)]] by (auto simp: nonces_taken_def)
next
  case (others w u adm)
  then show ?case using rows_taken_kept by (auto simp: nonces_taken_def)
qed

lemma admissions_keep: "(admission_step S view)\<^sup>*\<^sup>* st st' \<Longrightarrow> nonces_taken S view st \<Longrightarrow> nonces_taken S view st'"
  by (induction rule: rtranclp_induct) (auto intro: admission_keeps)

end

section \<open>Properties\<close>

text \<open>A client whose secrets resolve, alone on a table in memory; signatures are compared undecoded.\<close>

definition sample_secret :: "secret_reference \<Rightarrow> js_error + string" where
  "sample_secret ref = (if ref = (''signing'', Some ''v2'') then Inr ''hush'' else Inl (Error ''SECRET_NOT_FOUND''))"

definition sample_auth :: "(dtable \<Rightarrow> dtable \<Rightarrow> bool) \<Rightarrow> mem auth_services" where
  "sample_auth rely = \<lparr>au_db = mem_db [] rely, au_now = mem_clock,
     au_jwtVerify = (\<lambda>token issuer algorithms. returnM (JObj [(''aud'', JStr ''hub''), (''sub'', JStr token)])),
     au_resolve = (\<lambda>cx ref. liftM (sample_secret ref)), au_sha256 = sample_sha256,
     au_hmac = (\<lambda>k m. sample_sha256 (k @ m)), au_base64 = sample_sha256\<rparr>"

definition sample_version :: api_client_secret_version where
  "sample_version = \<lparr>av_reference = (''signing'', Some ''v2''), av_state = Active_Secret, av_activatedAt = 0,
     av_graceExpiresAt = None\<rparr>"

definition sample_client :: api_client where
  "sample_client = \<lparr>ap_clientId = ''cli_1'', ap_tenantId = ''t1'', ap_name = ''shop'', ap_status = Active_Account,
     ap_scopes = [''events:write''],
     ap_secretVersions = [sample_version\<lparr>av_state := Grace_Secret, av_graceExpiresAt := Some 1000\<rparr>,
       sample_version\<lparr>av_reference := (''signing'', None)\<rparr>, sample_version],
     ap_createdAt = 0, ap_version = 1\<rparr>"

definition unsigned_input :: producer_input where
  "unsigned_input = \<lparr>pi_method = ''post'', pi_path = ''/v1/events'', pi_rawBody = ''{}'', pi_clientId = ''cli_1'',
     pi_timestamp = ''300'', pi_nonce = ''n1'', pi_signature = [], pi_requiredScope = ''events:write'',
     pi_requestId = ''req_1'', pi_correlationId = ''cor_1''\<rparr>"

definition sample_input :: producer_input where
  "sample_input = unsigned_input\<lparr>pi_signature :=
     base64url (sample_sha256 (''hush'' @ input_canonical (sample_auth (=)) unsigned_input))\<rparr>"

definition sample_directory :: dtable where
  "sample_directory = [K_ApiClientLocator ''cli_1'' \<mapsto> It_ClientLocator ''t1'',
     K_ApiClient ''t1'' ''cli_1'' \<mapsto> It_ApiClient sample_client]"

definition auth_world :: "dtable \<Rightarrow> instant \<Rightarrow> mem" where
  "auth_world u now = \<lparr>mem_table = u, mem_clock = now, mem_others = []\<rparr>"

interpretation mem_auth: alone_auth "sample_auth (=)" mem_table sample_secret
proof -
  have "dynamo_alone (au_db (sample_auth (=))) mem_table"
    using mem_is_alone by (simp add: sample_auth_def)
  then show "alone_auth (sample_auth (=)) mem_table sample_secret"
    by (simp add: alone_auth_def alone_auth_axioms_def sample_auth_def liftM_def mem_db_def)
qed

lemma keeps_nonces_laws: "keeps_nonces s s" "keeps_nonces s u \<Longrightarrow> keeps_nonces u v \<Longrightarrow> keeps_nonces s v"
  by (auto simp: keeps_nonces_def)

interpretation mem_shared_auth: shared_auth "sample_auth keeps_nonces" mem_table
proof -
  have "dynamo_table (mem_db [] keeps_nonces) mem_table keeps_nonces"
    by (rule mem_db_laws) (blast intro: keeps_nonces_laws)+
  then show "shared_auth (sample_auth keeps_nonces) mem_table"
    by (simp add: shared_auth_def shared_auth_axioms_def sample_auth_def liftM_def keeps_nonces_laws)
qed

lemma sample_signs: "version_signs (sample_auth (=)) sample_secret now sample_input sample_version"
  by (simp add: version_signs_def usable_version_def sample_version_def sample_secret_def sample_input_def
      input_canonical_def unsigned_input_def hmacSignature_def sample_auth_def)

lemma sample_admits: "client_admits (sample_auth (=)) sample_secret now sample_input sample_client"
proof -
  have "sample_version \<in> set (ap_secretVersions sample_client)" by (simp add: sample_client_def)
  then have "\<exists>v \<in> set (ap_secretVersions sample_client). version_signs (sample_auth (=)) sample_secret now sample_input v"
    using sample_signs by blast
  then show ?thesis by (simp add: client_admits_def sample_client_def sample_input_def unsigned_input_def)
qed

lemma sample_admitted:
  "admitted_tenant (sample_auth (=)) sample_secret sample_directory 2000 sample_input = Some ''t1''"
  by (simp add: admitted_tenant_def sample_admits sample_directory_def live_item_def isExpired_def nonceKey_def)
     (simp add: sample_input_def unsigned_input_def is_digit_def digits_value_def)

text \<open>
  C20. A producer is admitted exactly when its timestamp is at most five minutes from the clock, its client is known and
  active and has the scope, one of its secrets that is active, or in a grace period that has not ended, signs the method,
  path, timestamp, nonce and body, and the nonce of the client is not in the table. It then acts for the tenant of
  the client, and the nonce is kept for five minutes; every other request gets the same error and changes nothing.
\<close>

theorem producer_admission:
  assumes "alone_auth S view secret"
  shows "case admitted_tenant S secret (view w) (db_now (au_db S) w) inp of
      None \<Rightarrow> yields (au_db S) view (authenticateProducer S inp) w (Inl unauthorized) (view w)
    | Some t \<Rightarrow> yields (au_db S) view (authenticateProducer S inp) w (Inr (provisional inp t))
        ((view w)(nonceKey S inp t \<mapsto> It_Nonce (Epoch ((db_now (au_db S) w + 300000) div 1000))))"
  using alone_auth.authenticate_run [OF assms, of inp w] by (simp split: option.splits)

theorem producer_admission_witness:
  "fst (authenticateProducer (sample_auth (=)) sample_input (auth_world sample_directory 2000))
     = Inr (provisional sample_input ''t1'')
   \<and> fst (authenticateProducer (sample_auth (=)) unsigned_input (auth_world Map.empty 2000)) = Inl unauthorized"
proof -
  have now: "db_now (au_db (sample_auth (=))) (auth_world u 2000) = 2000" for u
    by (simp add: sample_auth_def mem_db_def auth_world_def)
  have "admitted_tenant (sample_auth (=)) sample_secret Map.empty 2000 unsigned_input = None"
    by (simp add: admitted_tenant_def live_item_def)
  then show ?thesis
    using producer_admission [OF mem_auth.alone_auth_axioms, of sample_input "auth_world sample_directory 2000"]
      producer_admission [OF mem_auth.alone_auth_axioms, of unsigned_input "auth_world Map.empty 2000"]
      sample_admitted now by (simp add: auth_world_def yields_fst)
qed

text \<open>
  C21. A nonce is accepted once, however the requests overlap. Authenticating a producer is its checks followed by the
  conditional put of the nonce. In every interleaving of the puts of requests whose checks have passed, at whatever
  times and over whatever tables they ran, with refused puts and with steps of other clients that remove no nonce, no
  two admitted requests have the same tenant, client and nonce, whatever else they contain; and when a whole request is
  admitted at any point of it, no admitted one before it had its tenant, client and nonce.
\<close>

theorem nonce_accepted_once:
  assumes "shared_auth S view"
    and "(admission_step S view)\<^sup>*\<^sup>* (w0, []) (w, adm)"
  shows "authenticateProducer S inp = bindM (checkedProducer S inp) (takeNonce S inp)
    \<and> distinct (map (\<lambda>(inp, c). (cx_tenantId c, pi_clientId inp, pi_nonce inp)) adm)
    \<and> (\<forall>c u. authenticateProducer S inp w = (Inr c, u)
         \<longrightarrow> (cx_tenantId c, pi_clientId inp, pi_nonce inp)
            \<notin> (\<lambda>(inp, c). (cx_tenantId c, pi_clientId inp, pi_nonce inp)) ` set adm)"
proof -
  have "nonces_taken S view (w0, [])" by (simp add: nonces_taken_def rows_taken_def)
  from shared_auth.admissions_keep [OF assms this] have taken: "distinct (map admitted_as adm)" "rows_taken S adm (view w)"
    by (simp_all add: nonces_taken_def)
  have "admitted_as (inp, c) \<notin> admitted_as ` set adm"
    if run: "authenticateProducer S inp w = (Inr c, u)" for c u
  proof -
    have "hoare view (rows_taken S adm) (authenticateProducer S inp)
        (\<lambda>c _. \<exists>s. rows_taken S adm s \<and> s (nonceKey S inp (cx_tenantId c)) = None) (\<lambda>_. True)"
      by (rule shared_auth.authenticate_then [OF assms(1) rows_taken_stable]) (auto simp: provisional_def)
    from hoareD [OF this taken(2) run] obtain s where "rows_taken S adm s" "s (nonceKey S inp (cx_tenantId c)) = None"
      by auto
    then show ?thesis by (rule not_taken)
  qed
  then show ?thesis
    using taken(1) authenticate_split [of S inp] by (simp add: admitted_as_def)
qed

text \<open>
  C22. The nonce of a request that is dated ahead of the clock expires before the request does: when the table has
  removed the row, as it may five minutes after the request came, and the client is still active, the request that was
  admitted before is admitted again.
\<close>

theorem early_request_replays:
  assumes auth: "alone_auth S view secret"
    and first: "admitted_tenant S secret (view w) (db_now (au_db S) w) inp = Some t"
    and removed: "view w2 = (view (snd (authenticateProducer S inp w)))(nonceKey S inp t := None)"
    and later: "db_now (au_db S) w + 300000 \<le> db_now (au_db S) w2"
    and ahead: "db_now (au_db S) w2 \<le> digits_value (pi_timestamp inp) * 1000 + 300000"
    and row: "as_locator (live_item (view w (K_ApiClientLocator (pi_clientId inp))) (db_now (au_db S) w2)) = Some t"
    and client: "as_client (live_item (view w (K_ApiClient t (pi_clientId inp))) (db_now (au_db S) w2)) = Some c"
    and admits: "client_admits S secret (db_now (au_db S) w2) inp c"
  shows "isExpired (the (view (snd (authenticateProducer S inp w)) (nonceKey S inp t))) (db_now (au_db S) w2)
    \<and> fst (authenticateProducer S inp w2) = Inr (provisional inp t)"
proof -
  have u: "view (snd (authenticateProducer S inp w))
      = (view w)(nonceKey S inp t \<mapsto> It_Nonce (Epoch ((db_now (au_db S) w + 300000) div 1000)))"
    using yields_view [OF alone_auth.authenticate_run [OF auth, of inp w]] first by simp
  have "digits_value (pi_timestamp inp) * 1000 \<le> db_now (au_db S) w2 + 300000"
    using first later by (auto simp: admitted_tenant_def split: if_splits)
  then have "admitted_tenant S secret (view w2) (db_now (au_db S) w2) inp = Some t"
    using first row client admits ahead removed u
    by (auto simp: admitted_tenant_def nonceKey_def split: if_splits)
  then have "fst (authenticateProducer S inp w2) = Inr (provisional inp t)"
    using yields_fst [OF alone_auth.authenticate_run [OF auth, of inp w2]] by simp
  moreover have "(db_now (au_db S) w + 300000) div 1000 \<le> db_now (au_db S) w2 div 1000"
    using later by (rule zdiv_mono1) simp
  ultimately show ?thesis by (simp add: u isExpired_def)
qed

theorem early_request_replays_witness:
  "fst (authenticateProducer (sample_auth (=)) sample_input (auth_world sample_directory 2000))
     = Inr (provisional sample_input ''t1'')
   \<and> fst (authenticateProducer (sample_auth (=)) sample_input (auth_world sample_directory 400000))
       = Inr (provisional sample_input ''t1'')"
proof -
  let ?S = "sample_auth (=)" and ?w = "auth_world sample_directory 2000" and ?w2 = "auth_world sample_directory 400000"
  have now: "db_now (au_db ?S) (auth_world u n) = n" "mem_table (auth_world u n) = u" for u n
    by (simp_all add: sample_auth_def mem_db_def auth_world_def)
  have run: "yields (au_db ?S) mem_table (authenticateProducer ?S sample_input) ?w (Inr (provisional sample_input ''t1''))
      (sample_directory(nonceKey ?S sample_input ''t1'' \<mapsto> It_Nonce (Epoch 302)))"
    using mem_auth.authenticate_run [of sample_input ?w] sample_admitted now by simp
  have "sample_directory (nonceKey ?S sample_input ''t1'') = None" by (simp add: sample_directory_def nonceKey_def)
  with yields_view [OF run] now have removed: "mem_table ?w2
      = (mem_table (snd (authenticateProducer ?S sample_input ?w)))(nonceKey ?S sample_input ''t1'' := None)"
    by (simp add: fun_upd_idem)
  have input: "digits_value (pi_timestamp sample_input) = 300" "pi_clientId sample_input = ''cli_1''"
    by (simp_all add: sample_input_def unsigned_input_def digits_value_def)
  have rows: "as_locator (live_item (sample_directory (K_ApiClientLocator ''cli_1'')) 400000) = Some ''t1''"
    "as_client (live_item (sample_directory (K_ApiClient ''t1'' ''cli_1'')) 400000) = Some sample_client"
    by (simp_all add: sample_directory_def live_item_def isExpired_def)
  have "fst (authenticateProducer ?S sample_input ?w2) = Inr (provisional sample_input ''t1'')"
    by (rule early_request_replays [OF mem_auth.alone_auth_axioms _ removed, THEN conjunct2])
       (use sample_admitted sample_admits now input rows in simp_all)
  then show ?thesis using yields_fst [OF run] by simp
qed

lemma sample_signing:
  "version_signs (sample_auth rely) sample_secret now inp v = version_signs (sample_auth (=)) sample_secret now inp v"
  by (simp add: version_signs_def sample_auth_def hmacSignature_def input_canonical_def canonicalRequest_def
      split: sum.split)

lemma try_sample:
  "tryVersion (sample_auth rely) inp t v valid w
     = (Inr (valid \<or> version_signs (sample_auth rely) sample_secret (mem_clock w) inp v), w)"
  by (auto simp: tryVersion_def version_signs_def catchM_def bindM_def readM_def returnM_def liftM_def signaturesMatch_iff
      sample_auth_def split: sum.split)

lemma versions_sample:
  "foldM (tryVersion (sample_auth rely) inp t) vs valid w
     = (Inr (valid \<or> (\<exists>v \<in> set vs. version_signs (sample_auth rely) sample_secret (mem_clock w) inp v)), w)"
  by (induction vs arbitrary: valid) (simp_all add: returnM_def bindM_def try_sample disj_assoc)

lemma sample_run:
  assumes "client_admits (sample_auth rely) sample_secret 2000 inp sample_client" and "pi_clientId inp = ''cli_1''"
    and "pi_timestamp inp = ''300''"
  shows "authenticateProducer (sample_auth rely) inp (auth_world sample_directory 2000)
     = (Inr (provisional inp ''t1''),
        auth_world (sample_directory(nonceKey (sample_auth rely) inp ''t1'' \<mapsto> It_Nonce (Epoch 302))) 2000)"
proof -
  let ?S = "sample_auth rely" and ?w = "auth_world sample_directory 2000"
  have get: "db_get (au_db ?S) k ?w = (Inr (sample_directory k), ?w)" for k
    by (simp add: sample_auth_def mem_db_def mem_get_def interfere_def auth_world_def)
  have row: "sample_directory (nonceKey ?S inp ''t1'') = None" by (simp add: sample_directory_def nonceKey_def)
  have now: "db_now (au_db ?S) ?w = 2000" "au_now ?S ?w = 2000" "mem_clock ?w = 2000"
    by (simp_all add: sample_auth_def mem_db_def auth_world_def)
  have put: "db_write (au_db ?S) [put_new (nonceKey ?S inp ''t1'') (It_Nonce (Epoch 302))] ?w
      = (Inr True, auth_world (sample_directory(nonceKey ?S inp ''t1'' \<mapsto> It_Nonce (Epoch 302))) 2000)"
    using row by (simp add: sample_auth_def mem_db_def mem_write_def interfere_def auth_world_def tx_distinct_def)
  have nonce: "takeNonce ?S inp ''t1'' ?w = (Inr (provisional inp ''t1''),
        auth_world (sample_directory(nonceKey ?S inp ''t1'' \<mapsto> It_Nonce (Epoch 302))) 2000)"
    using put by (simp add: takeNonce_def putIfAbsent_def bindM_def readM_def returnM_def now to_epoch_def assms(2)
        nonceKey_def)
  have dir: "sample_directory (K_ApiClient ''t1'' ''cli_1'') = Some (It_ApiClient sample_client)"
      "sample_directory (K_ApiClientLocator ''cli_1'') = Some (It_ClientLocator ''t1'')"
    by (simp_all add: sample_directory_def)
  have live: "live_item (Some (It_ApiClient c)) n = Some (It_ApiClient c)"
      "live_item (Some (It_ClientLocator t)) n = Some (It_ClientLocator t)" for c t n
    by (simp_all add: live_item_def isExpired_def)
  have c: "ap_status sample_client = Active_Account" "pi_requiredScope inp \<in> set (ap_scopes sample_client)"
      "\<exists>v \<in> set (ap_secretVersions sample_client). version_signs ?S sample_secret 2000 inp v"
    using assms(1) by (auto simp: client_admits_def)
  have signed: "foldM (tryVersion ?S inp ''t1'') (ap_secretVersions sample_client) False ?w = (Inr True, ?w)"
    using c(3) by (simp add: versions_sample now)
  have client: "checkClient ?S inp ''t1'' ?w = takeNonce ?S inp ''t1'' ?w"
    by (simp add: checkClient_def getClient_def mapM_def getCore_def bindM_def returnM_def get dir live now
        signed c(1,2) assms(2))
  have ts: "decodeTimestamp ''300'' 2000 300 = Inr 300000"
    by (simp add: decodeTimestamp_def throw_if_def is_digit_def digits_value_def)
  show ?thesis
    by (simp add: authenticateProducer_def locateClient_def mapM_def getCore_def bindM_def returnM_def readM_def liftM_def
        get dir live now assms(2,3) ts client nonce)
qed

lemma sample_checks:
  assumes "client_admits (sample_auth rely) sample_secret 2000 inp sample_client" and "pi_clientId inp = ''cli_1''"
    and "pi_timestamp inp = ''300''"
  shows "checkedProducer (sample_auth rely) inp (auth_world sample_directory 2000)
     = (Inr ''t1'', auth_world sample_directory 2000)"
proof -
  let ?S = "sample_auth rely" and ?w = "auth_world sample_directory 2000"
  have get: "db_get (au_db ?S) k ?w = (Inr (sample_directory k), ?w)" for k
    by (simp add: sample_auth_def mem_db_def mem_get_def interfere_def auth_world_def)
  have now: "db_now (au_db ?S) ?w = 2000" "au_now ?S ?w = 2000" "mem_clock ?w = 2000"
    by (simp_all add: sample_auth_def mem_db_def auth_world_def)
  have dir: "sample_directory (K_ApiClient ''t1'' ''cli_1'') = Some (It_ApiClient sample_client)"
      "sample_directory (K_ApiClientLocator ''cli_1'') = Some (It_ClientLocator ''t1'')"
    by (simp_all add: sample_directory_def)
  have live: "live_item (Some (It_ApiClient c)) n = Some (It_ApiClient c)"
      "live_item (Some (It_ClientLocator t)) n = Some (It_ClientLocator t)" for c t n
    by (simp_all add: live_item_def isExpired_def)
  have c: "ap_status sample_client = Active_Account" "pi_requiredScope inp \<in> set (ap_scopes sample_client)"
      "\<exists>v \<in> set (ap_secretVersions sample_client). version_signs ?S sample_secret 2000 inp v"
    using assms(1) by (auto simp: client_admits_def)
  have signed: "foldM (tryVersion ?S inp ''t1'') (ap_secretVersions sample_client) False ?w = (Inr True, ?w)"
    using c(3) by (simp add: versions_sample now)
  have ts: "decodeTimestamp ''300'' 2000 300 = Inr 300000"
    by (simp add: decodeTimestamp_def throw_if_def is_digit_def digits_value_def)
  show ?thesis
    by (simp add: checkedProducer_def locateClient_def getClient_def mapM_def getCore_def bindM_def returnM_def readM_def
        liftM_def get dir live now assms(2,3) ts signed c(1,2))
qed

text \<open>
  Two copies of a signed request overlap: the checks of both pass before the nonce is in the table, the put of one
  admits it, and then the put of the other admits nothing.
\<close>

theorem nonce_accepted_once_witness:
  "\<exists>u. checkedProducer (sample_auth keeps_nonces) sample_input (auth_world sample_directory 2000)
       = (Inr ''t1'', auth_world sample_directory 2000)
     \<and> takeNonce (sample_auth keeps_nonces) sample_input ''t1'' (auth_world sample_directory 2000)
       = (Inr (provisional sample_input ''t1''), u)
     \<and> \<not> (\<exists>c v. takeNonce (sample_auth keeps_nonces) sample_input ''t1'' u = (Inr c, v))"
proof -
  let ?S = "sample_auth keeps_nonces" and ?w = "auth_world sample_directory 2000"
  have admits: "client_admits ?S sample_secret 2000 sample_input sample_client"
    using sample_admits [of 2000] by (simp add: client_admits_def sample_signing [of keeps_nonces])
  have input: "pi_clientId sample_input = ''cli_1''" "pi_timestamp sample_input = ''300''"
    by (simp_all add: sample_input_def unsigned_input_def)
  note checks = sample_checks [OF admits input]
  from sample_run [OF admits input] checks obtain u
    where first: "takeNonce ?S sample_input ''t1'' ?w = (Inr (provisional sample_input ''t1''), u)"
    by (auto simp: authenticate_split bindM_def)
  have "False" if second: "takeNonce ?S sample_input ''t1'' u = (Inr c, v)" for c v
  proof -
    have "admission_step ?S mem_table (?w, []) (u, [(sample_input, provisional sample_input ''t1'')])"
      using checks first by (rule admission_step.admit)
    moreover have "admission_step ?S mem_table (u, [(sample_input, provisional sample_input ''t1'')])
        (v, [(sample_input, c), (sample_input, provisional sample_input ''t1'')])"
      using checks second by (rule admission_step.admit)
    ultimately have "(admission_step ?S mem_table)\<^sup>*\<^sup>* (?w, [])
        (v, [(sample_input, c), (sample_input, provisional sample_input ''t1'')])" by auto
    from nonce_accepted_once [OF mem_shared_auth.shared_auth_axioms this, of sample_input]
    have "cx_tenantId c \<noteq> cx_tenantId (provisional sample_input ''t1'')" by auto
    moreover have "c = provisional sample_input ''t1''"
      using second by (auto simp: takeNonce_def bindM_def readM_def returnM_def throwM_def split: prod.splits sum.splits if_splits)
    ultimately show False by simp
  qed
  with checks first show ?thesis by blast
qed

text \<open>
  The roles in a token do not matter. Of two tokens that the library verifies, which may differ in every claim but
  the audience, the use and the subject, both or neither are accepted, and the user acts in the role of the row of
  the identity table that has the issuer and the subject, when that row is active.
\<close>

theorem token_roles_cannot_elevate:
  assumes "au_jwtVerify S token (od_issuer cfg) (od_allowedAlgorithms cfg) w = (Inr p, w1)"
    and "au_jwtVerify S token' (od_issuer cfg) (od_allowedAlgorithms cfg) w = (Inr q, w1)"
    and "\<And>c. c \<in> {''sub'', claim_name (od_audienceClaim cfg) ''aud''} \<union> set_option (od_tokenUseClaim cfg)
       \<Longrightarrow> json_get p c = json_get q c"
  shows "authenticateConsole S cfg token r k w = authenticateConsole S cfg token' r k w
    \<and> (\<forall>cx u. authenticateConsole S cfg token r k w = (Inr cx, u)
         \<longrightarrow> (\<exists>s m. json_get p ''sub'' = Some (JStr s)
               \<and> fst (db_get (au_db S) (K_Identity (od_issuer cfg) s) w1) = Inr (Some (It_Identity m))
               \<and> ui_status m = Active_Account \<and> cx_tenantId cx = ui_tenantId m \<and> cx_role cx = Some (ui_role m)))"
proof -
  have gets: "json_get p ''sub'' = json_get q ''sub''"
    "json_get p (claim_name (od_audienceClaim cfg) ''aud'') = json_get q (claim_name (od_audienceClaim cfg) ''aud'')"
    "od_tokenUseClaim cfg = Some c \<Longrightarrow> json_get p c = json_get q c" for c
    by (rule assms(3), simp)+
  have same: "checkPayload cfg p = Inl e \<longleftrightarrow> checkPayload cfg q = Inl e"
    "checkPayload cfg p = Inr v \<Longrightarrow> \<exists>v'. checkPayload cfg q = Inr v' \<and> vt_issuer v' = vt_issuer v \<and> vt_subject v' = vt_subject v"
    for e v
    by (auto simp: checkPayload_def throw_if_def gets split: option.splits json.splits if_splits)
  have subject: "json_get p ''sub'' = Some (JStr (vt_subject v)) \<and> vt_issuer v = od_issuer cfg"
    if "checkPayload cfg p = Inr v" for v
    using that by (auto simp: checkPayload_def split: option.splits json.splits)
  show ?thesis
  proof (cases "checkPayload cfg p")
    case (Inl e)
    with same(1) have "checkPayload cfg q = Inl e" by blast
    with Inl assms(1,2) show ?thesis
      by (simp add: authenticateConsole_def verifyAccessToken_def bindM_def catchM_def liftM_def throwM_def)
  next
    case (Inr v)
    from same(2) [OF Inr] obtain v' where v': "checkPayload cfg q = Inr v'" "vt_issuer v' = vt_issuer v"
      "vt_subject v' = vt_subject v" by blast
    have run: "authenticateConsole S cfg x r k w = (case db_get (au_db S) (K_Identity (od_issuer cfg) (vt_subject v)) w1 of
        (Inl e, u) \<Rightarrow> (Inl e, u)
      | (Inr it, u) \<Rightarrow> (case as_identity (live_item it (db_now (au_db S) u)) of
            None \<Rightarrow> (Inl unauthorized, u)
          | Some m \<Rightarrow> if ui_status m \<noteq> Active_Account then (Inl unauthorized, u)
              else (Inr (console_context m r k), u)))"
      if "au_jwtVerify S x (od_issuer cfg) (od_allowedAlgorithms cfg) w = (Inr y, w1)" and "checkPayload cfg y = Inr z"
        and "vt_issuer z = od_issuer cfg" and "vt_subject z = vt_subject v" for x y z
    proof -
      have "verifyAccessToken S cfg x w = (Inr z, w1)"
        using that(1,2) by (simp add: verifyAccessToken_def bindM_def catchM_def liftM_def)
      then show ?thesis using that(3,4)
        by (cases "db_get (au_db S) (K_Identity (od_issuer cfg) (vt_subject v)) w1";
            cases "fst (db_get (au_db S) (K_Identity (od_issuer cfg) (vt_subject v)) w1)")
           (auto simp: authenticateConsole_def bindM_def findVerifiedIdentity_def mapM_def getCore_def returnM_def
             throwM_def withNow_def split: option.split)
    qed
    note p_run = run [OF assms(1) Inr] and q_run = run [OF assms(2) v'(1)]
    have "\<exists>m. fst (db_get (au_db S) (K_Identity (od_issuer cfg) (vt_subject v)) w1) = Inr (Some (It_Identity m))
        \<and> ui_status m = Active_Account \<and> cx_tenantId cx = ui_tenantId m \<and> cx_role cx = Some (ui_role m)"
      if "authenticateConsole S cfg token r k w = (Inr cx, u)" for cx u
      using that subject [OF Inr] p_run
      by (auto simp: live_item_def console_context_def split: prod.splits sum.splits option.splits if_splits
          elim!: as_identity.elims)
    with p_run q_run v'(2,3) subject [OF Inr] show ?thesis by simp
  qed
qed

definition sample_oidc :: oidc_config where
  "sample_oidc = \<lparr>od_issuer = ''iss'', od_audience = ''hub'', od_allowedAlgorithms = [''RS256''], od_tokenUseClaim = None,
     od_tokenUseValue = None, od_roleClaim = None, od_audienceClaim = None\<rparr>"

definition admin_token :: "mem auth_services" where
  "admin_token = (sample_auth (=))\<lparr>au_jwtVerify := (\<lambda>token issuer algorithms. returnM (JObj
     ([(''aud'', JStr ''hub''), (''sub'', JStr ''u1'')]
      @ (if token = ''forged'' then [(''roles'', JArr [JStr ''admin''])] else []))))\<rparr>"

definition sample_identity :: user_identity where
  "sample_identity = \<lparr>ui_issuer = ''iss'', ui_subject = ''u1'', ui_tenantId = ''t1'', ui_status = Active_Account,
     ui_role = Viewer, ui_userId = ''usr_1''\<rparr>"

theorem token_roles_cannot_elevate_witness:
  "authenticateConsole admin_token sample_oidc ''forged'' ''r'' ''k'' (auth_world [K_Identity ''iss'' ''u1'' \<mapsto> It_Identity sample_identity] 0)
     = authenticateConsole admin_token sample_oidc ''plain'' ''r'' ''k'' (auth_world [K_Identity ''iss'' ''u1'' \<mapsto> It_Identity sample_identity] 0)"
proof -
  let ?w = "auth_world [K_Identity ''iss'' ''u1'' \<mapsto> It_Identity sample_identity] 0"
  have "au_jwtVerify admin_token ''forged'' (od_issuer sample_oidc) (od_allowedAlgorithms sample_oidc) ?w
      = (Inr (JObj [(''aud'', JStr ''hub''), (''sub'', JStr ''u1''), (''roles'', JArr [JStr ''admin''])]), ?w)"
    "au_jwtVerify admin_token ''plain'' (od_issuer sample_oidc) (od_allowedAlgorithms sample_oidc) ?w
      = (Inr (JObj [(''aud'', JStr ''hub''), (''sub'', JStr ''u1'')]), ?w)"
    by (simp_all add: admin_token_def returnM_def)
  then show ?thesis
    by (rule token_roles_cannot_elevate [THEN conjunct1]) (auto simp: sample_oidc_def claim_name_def)
qed

end
