(* ===== verification/Recovery.thy ===== *)
theory Recovery
  imports Services Evidence
begin

text \<open>
  The package \<open>packages/recovery\<close>: a snapshot of a tenant's rows of two tables as compressed files with a manifest, and
  its restoration into two empty tables. The database client, the file system, \<open>gzip\<close>, \<open>path\<close>, \<open>JSON.parse\<close> and
  \<open>localeCompare\<close> are fields of \<open>recovery_services\<close>. An item is the JSON object of its attributes; a file is the string
  of its bytes.
\<close>

section \<open>Dependencies\<close>

text \<open>
  \<open>rc_scan table start\<close> is a \<open>ScanCommand\<close>, which returns the items of a page and the \<open>LastEvaluatedKey\<close>,
  \<open>rc_scanLimit1\<close> one with \<open>Limit: 1\<close>, \<open>rc_batchWrite table items\<close> a \<open>BatchWriteCommand\<close> of puts, which returns
  those it did not process, \<open>rc_precedes s t\<close> is \<open>s.localeCompare(t) <= 0\<close>.
\<close>

record 'w recovery_services =
  rc_scan :: "string \<Rightarrow> json option \<Rightarrow> ('w, json list \<times> json option) op"
  rc_scanLimit1 :: "string \<Rightarrow> ('w, json list) op"
  rc_batchWrite :: "string \<Rightarrow> json list \<Rightarrow> ('w, json list) op"
  rc_readFile :: "string \<Rightarrow> ('w, string) op"
  rc_writeFile :: "string \<Rightarrow> string \<Rightarrow> ('w, unit) op"
  rc_mkdir :: "string \<Rightarrow> ('w, unit) op"
  rc_now :: "'w \<Rightarrow> instant"
  rc_join :: "string \<Rightarrow> string \<Rightarrow> string"
  rc_dirname :: "string \<Rightarrow> string"
  rc_gzip :: "string \<Rightarrow> string"
  rc_gunzip :: "string \<Rightarrow> js_error + string"
  rc_sha256 :: "string \<Rightarrow> 8 word list"
  rc_number :: "rat \<Rightarrow> string"
  rc_parse :: "string \<Rightarrow> js_error + json"
  rc_precedes :: "string \<Rightarrow> string \<Rightarrow> bool"

section \<open>What a snapshot may hold\<close>

text \<open>The two regular expressions, which are not anchored and ignore the case of the ASCII letters.\<close>

definition credentialKey :: "string \<Rightarrow> bool" where
  "credentialKey k = list_ex (\<lambda>w. contains w (toLower k))
     [''secret'', ''password'', ''accesstoken'', ''access_token'', ''access-token'', ''refreshtoken'', ''refresh_token'',
      ''refresh-token'', ''privatekey'', ''private_key'', ''private-key'', ''apikey'', ''api_key'', ''api-key'']"

definition referenceKey :: "string \<Rightarrow> bool" where
  "referenceKey k = list_ex (\<lambda>w. contains w (toLower k))
     [''secretreference'', ''secretreferencenames'', ''secretname'', ''secretid'', ''secretversion'', ''parametername'']"

fun hasOnlyRedactedSensitiveHeaders :: "json \<Rightarrow> bool" where
  "hasOnlyRedactedSensitiveHeaders (JObj fs) = list_all (\<lambda>(name, v). case v of
      JStr s \<Rightarrow> \<not> credentialKey name \<or> s = ''[REDACTED]'' | _ \<Rightarrow> False) fs"
| "hasOnlyRedactedSensitiveHeaders _ = False"

fun is_string :: "json option \<Rightarrow> bool" where
  "is_string (Some (JStr s)) = True"
| "is_string _ = False"

definition only_keys :: "string list \<Rightarrow> (string \<times> json) list \<Rightarrow> bool" where
  "only_keys ks fs = list_all (\<lambda>(k, v). k \<in> set ks) fs"

fun logicalSecretVersion :: "json \<Rightarrow> bool" where
  "logicalSecretVersion (JObj fs) \<longleftrightarrow> (case map_of fs ''reference'' of
      Some (JObj rs) \<Rightarrow>
        only_keys [''reference'', ''state'', ''activatedAt'', ''graceExpiresAt''] fs
        \<and> only_keys [''name'', ''version''] rs
        \<and> is_string (map_of rs ''name'') \<and> is_string (map_of rs ''version'')
        \<and> map_of fs ''state'' \<in> {Some (JStr ''active''), Some (JStr ''grace'')}
        \<and> is_string (map_of fs ''activatedAt'')
        \<and> (map_of fs ''graceExpiresAt'' = None \<or> is_string (map_of fs ''graceExpiresAt''))
    | _ \<Rightarrow> False)"
| "logicalSecretVersion _ \<longleftrightarrow> False"

fun hasOnlyLogicalSecretVersions :: "json \<Rightarrow> bool" where
  "hasOnlyLogicalSecretVersions (JArr xs) = list_all logicalSecretVersion xs"
| "hasOnlyLogicalSecretVersions _ = False"

definition redacted_headers_field :: "string \<Rightarrow> json \<Rightarrow> bool" where
  "redacted_headers_field k v \<longleftrightarrow> toLower k = ''requestheadersredacted'' \<and> hasOnlyRedactedSensitiveHeaders v"

definition secret_versions_key :: "string \<Rightarrow> bool" where
  "secret_versions_key k \<longleftrightarrow> toLower k = ''secretversion'' \<or> toLower k = ''secretversions''"

text \<open>The walk over a value, its entries in order; the path is for the message.\<close>

fun assertSnapshotSafe :: "json \<Rightarrow> string \<Rightarrow> js_error + unit"
  and assertEntriesSafe :: "json list \<Rightarrow> nat \<Rightarrow> string \<Rightarrow> js_error + unit"
  and assertFieldsSafe :: "(string \<times> json) list \<Rightarrow> string \<Rightarrow> js_error + unit" where
  "assertSnapshotSafe (JArr xs) path = assertEntriesSafe xs 0 path"
| "assertSnapshotSafe (JObj fs) path = assertFieldsSafe fs path"
| "assertSnapshotSafe _ path = Inr ()"
| "assertEntriesSafe [] i path = Inr ()"
| "assertEntriesSafe (x # xs) i path = (case assertSnapshotSafe x (path @ ''['' @ js_int (int i) @ '']'') of
      Inl e \<Rightarrow> Inl e
    | Inr _ \<Rightarrow> assertEntriesSafe xs (Suc i) path)"
| "assertFieldsSafe [] path = Inr ()"
| "assertFieldsSafe ((k, v) # fs) path =
     (if redacted_headers_field k v then assertFieldsSafe fs path
      else if secret_versions_key k then
        (if hasOnlyLogicalSecretVersions v then assertFieldsSafe fs path
         else Inl (Error (''Recovery snapshot refused malformed logical secret versions at '' @ path @ ''.'' @ k @ ''.'')))
      else if credentialKey k \<and> \<not> referenceKey k
      then Inl (Error (''Recovery snapshot refused credential-shaped field '' @ path @ ''.'' @ k @ ''.''))
      else (case assertSnapshotSafe v (path @ ''.'' @ k) of
          Inl e \<Rightarrow> Inl e
        | Inr _ \<Rightarrow> assertFieldsSafe fs path))"

text \<open>\<open>String(value)\<close>, of a value that may be \<open>undefined\<close>.\<close>

fun js_String :: "(rat \<Rightarrow> string) \<Rightarrow> json \<Rightarrow> string" where
  "js_String num JNull = ''null''"
| "js_String num (JBool b) = (if b then ''true'' else ''false'')"
| "js_String num (JNum q) = num q"
| "js_String num (JStr s) = s"
| "js_String num (JArr xs) = join '','' (map (\<lambda>x. if x = JNull then [] else js_String num x) xs)"
| "js_String num (JObj fs) = ''[object Object]''"

definition js_String_of :: "(rat \<Rightarrow> string) \<Rightarrow> json option \<Rightarrow> string" where
  "js_String_of num v = (case v of None \<Rightarrow> ''undefined'' | Some x \<Rightarrow> js_String num x)"

text \<open>\<open>${value ?? ""}\<close>.\<close>

definition or_empty :: "(rat \<Rightarrow> string) \<Rightarrow> json option \<Rightarrow> string" where
  "or_empty num v = (case v of None \<Rightarrow> [] | Some JNull \<Rightarrow> [] | Some x \<Rightarrow> js_String num x)"

definition isLocalSecret :: "('w, 'z) recovery_services_scheme \<Rightarrow> json \<Rightarrow> bool" where
  "isLocalSecret S item \<longleftrightarrow>
     js_String_of (rc_number S) (json_get item ''entityType'') \<in> {''LOCAL_SECRET'', ''LOCAL_SECRET_HEAD''}"

text \<open>\<open>===\<close> of two JSON values that are not the same object.\<close>

fun strictly_equal :: "json \<Rightarrow> json \<Rightarrow> bool" where
  "strictly_equal (JArr _) _ = False"
| "strictly_equal (JObj _) _ = False"
| "strictly_equal v u = (v = u)"

definition belongsToTenant :: "('w, 'z) recovery_services_scheme \<Rightarrow> json \<Rightarrow> json \<Rightarrow> bool" where
  "belongsToTenant S item tenant \<longleftrightarrow>
     (case json_get item ''tenantId'' of None \<Rightarrow> False | Some v \<Rightarrow> strictly_equal v tenant)
     \<or> prefix (''TENANT#'' @ js_String (rc_number S) tenant @ ''#'') (or_empty (rc_number S) (json_get item ''PK''))"

section \<open>The files of a snapshot\<close>

text \<open>\<open>sort\<close> keeps the order of items that compare as equal.\<close>

definition sort_text :: "('w, 'z) recovery_services_scheme \<Rightarrow> json \<Rightarrow> string" where
  "sort_text S item = or_empty (rc_number S) (json_get item ''PK'') @ [CHR 0x00]
     @ or_empty (rc_number S) (json_get item ''SK'')"

fun insert_item :: "('w, 'z) recovery_services_scheme \<Rightarrow> json \<Rightarrow> json list \<Rightarrow> json list" where
  "insert_item S x [] = [x]"
| "insert_item S x (y # ys) =
     (if rc_precedes S (sort_text S x) (sort_text S y) then x # y # ys else y # insert_item S x ys)"

definition sorted_items :: "('w, 'z) recovery_services_scheme \<Rightarrow> json list \<Rightarrow> json list" where
  "sorted_items S items = foldr (insert_item S) items []"

definition newline :: char where
  "newline = CHR 0x0A"

definition deterministicLines :: "('w, 'z) recovery_services_scheme \<Rightarrow> json list \<Rightarrow> string" where
  "deterministicLines S items =
     (let lines = join [newline] (map (stableJson (rc_number S)) (sorted_items S items))
      in if lines = [] then [] else lines @ [newline])"

definition checksum :: "('w, 'z) recovery_services_scheme \<Rightarrow> string \<Rightarrow> string" where
  "checksum S bytes = hex (rc_sha256 S bytes)"

definition last_segment :: "string \<Rightarrow> string" where
  "last_segment path = last (split_on CHR ''/'' path)"

definition backupFile :: "string \<Rightarrow> nat \<Rightarrow> string \<Rightarrow> json" where
  "backupFile file count sha = JObj
     [(''file'', JStr file), (''recordCount'', JNum (of_nat count)), (''sha256'', JStr sha)]"

definition writeGzip :: "('w, 'z) recovery_services_scheme \<Rightarrow> string \<Rightarrow> json list \<Rightarrow> ('w, json) op" where
  "writeGzip S file items =
     (let compressed = rc_gzip S (deterministicLines S items)
      in bindM (rc_writeFile S file compressed) (\<lambda>_.
           returnM (backupFile (last_segment file) (length items) (checksum S compressed))))"

section \<open>Backup\<close>

text \<open>The items of a page that belong to the tenant; the first one that is not safe stops the backup.\<close>

fun keepItems :: "('w, 'z) recovery_services_scheme \<Rightarrow> string \<Rightarrow> json list \<Rightarrow> js_error + json list" where
  "keepItems S tenant [] = Inr []"
| "keepItems S tenant (item # items) =
     (if \<not> belongsToTenant S item (JStr tenant) \<or> isLocalSecret S item then keepItems S tenant items
      else (case assertSnapshotSafe item ''$'' of
          Inl e \<Rightarrow> Inl e
        | Inr _ \<Rightarrow> (case keepItems S tenant items of Inl e \<Rightarrow> Inl e | Inr kept \<Rightarrow> Inr (item # kept))))"

text \<open>The \<open>do ... while\<close> over the pages of a table; \<open>None\<close> is a scan that never ends.\<close>

partial_function (option) scanPages ::
    "('w, 'z) recovery_services_scheme \<Rightarrow> string \<Rightarrow> string \<Rightarrow> json option \<Rightarrow> json list \<Rightarrow> 'w
       \<Rightarrow> ((js_error + json list) \<times> 'w) option" where
  "scanPages S table tenant lastKey items w =
     (case rc_scan S table lastKey w of
        (Inl e, w') \<Rightarrow> Some (Inl e, w')
      | (Inr (page, key), w') \<Rightarrow> (case keepItems S tenant page of
          Inl e \<Rightarrow> Some (Inl e, w')
        | Inr kept \<Rightarrow> (case key of
            None \<Rightarrow> Some (Inr (items @ kept), w')
          | Some k \<Rightarrow> scanPages S table tenant (Some k) (items @ kept) w')))"

definition scanTenant ::
    "('w, 'z) recovery_services_scheme \<Rightarrow> string \<Rightarrow> string \<Rightarrow> 'w \<Rightarrow> ((js_error + json list) \<times> 'w) option" where
  "scanTenant S table tenant = scanPages S table tenant None []"

record backup_input =
  bi_environment :: string
  bi_tenantId :: string
  bi_outputDirectory :: string
  bi_coreTableName :: string
  bi_auditTableName :: string
  bi_now :: "instant option"

definition backupManifest :: "backup_input \<Rightarrow> instant \<Rightarrow> json \<Rightarrow> json \<Rightarrow> json" where
  "backupManifest inp now core audit = JObj
     [(''version'', JNum 1), (''kind'', JStr ''pirh-recovery-snapshot''), (''environment'', JStr (bi_environment inp)),
      (''tenantId'', JStr (bi_tenantId inp)), (''createdAt'', JStr (isoString now)),
      (''files'', JObj [(''core'', core), (''audit'', audit)])]"

definition writeSnapshot ::
    "('w, 'z) recovery_services_scheme \<Rightarrow> backup_input \<Rightarrow> json list \<Rightarrow> json list \<Rightarrow> ('w, string \<times> json) op" where
  "writeSnapshot S inp core audit =
     bindM (writeGzip S (rc_join S (bi_outputDirectory inp) ''core.ndjson.gz'') core) (\<lambda>coreFile.
     bindM (writeGzip S (rc_join S (bi_outputDirectory inp) ''audit.ndjson.gz'') audit) (\<lambda>auditFile.
     bindM (readM (\<lambda>w. case bi_now inp of None \<Rightarrow> rc_now S w | Some t \<Rightarrow> t)) (\<lambda>now.
       let manifest = backupManifest inp now coreFile auditFile;
           manifestPath = rc_join S (bi_outputDirectory inp) ''manifest.v1.json''
       in bindM (rc_writeFile S manifestPath (stableJson (rc_number S) manifest @ [newline])) (\<lambda>_.
            returnM (manifestPath, manifest)))))"

text \<open>
  \<open>Promise.all\<close> runs its two scans, and then its two writes, together. The scans only read, and the two files are
  different ones, so the model has one after the other.
\<close>

definition createBackup ::
    "('w, 'z) recovery_services_scheme \<Rightarrow> backup_input \<Rightarrow> 'w \<Rightarrow> ((js_error + string \<times> json) \<times> 'w) option" where
  "createBackup S inp w = (case rc_mkdir S (bi_outputDirectory inp) w of
      (Inl e, w1) \<Rightarrow> Some (Inl e, w1)
    | (Inr _, w1) \<Rightarrow> (case scanTenant S (bi_coreTableName inp) (bi_tenantId inp) w1 of
        None \<Rightarrow> None
      | Some (Inl e, w2) \<Rightarrow> Some (Inl e, w2)
      | Some (Inr core, w2) \<Rightarrow> (case scanTenant S (bi_auditTableName inp) (bi_tenantId inp) w2 of
          None \<Rightarrow> None
        | Some (Inl e, w3) \<Rightarrow> Some (Inl e, w3)
        | Some (Inr audit, w3) \<Rightarrow> Some (writeSnapshot S inp core audit w3))))"

section \<open>Restoration\<close>

fun truthy :: "json option \<Rightarrow> bool" where
  "truthy (Some (JStr s)) = (s \<noteq> [])"
| "truthy (Some (JNum q)) = (q \<noteq> 0)"
| "truthy (Some (JBool b)) = b"
| "truthy (Some (JArr _)) = True"
| "truthy (Some (JObj _)) = True"
| "truthy _ = False"

definition get_in :: "json option \<Rightarrow> string \<Rightarrow> json option" where
  "get_in v k = Option.bind v (\<lambda>x. json_get x k)"

definition parseManifest :: "json \<Rightarrow> js_error + json" where
  "parseManifest v =
     throw_if (json_get v ''version'' \<noteq> Some (JNum 1)
         \<or> json_get v ''kind'' \<noteq> Some (JStr ''pirh-recovery-snapshot''))
       (Error ''Recovery manifest is not BackupManifestV1.'')
     (throw_if (\<not> truthy (json_get v ''tenantId'') \<or> \<not> truthy (get_in (json_get v ''files'') ''core'')
         \<or> \<not> truthy (get_in (json_get v ''files'') ''audit''))
       (Error ''Recovery manifest is incomplete.'') (Inr v))"

text \<open>\<open>trimEnd\<close>: the white space and line terminators among the bytes.\<close>

definition is_white :: "char \<Rightarrow> bool" where
  "is_white c \<longleftrightarrow> c \<in> set [CHR 0x09, CHR 0x0A, CHR 0x0B, CHR 0x0C, CHR 0x0D, CHR '' '']"

definition trimEnd :: "string \<Rightarrow> string" where
  "trimEnd s = rev (dropWhile is_white (rev s))"

fun parseLines :: "('w, 'z) recovery_services_scheme \<Rightarrow> string list \<Rightarrow> js_error + json list" where
  "parseLines S [] = Inr []"
| "parseLines S (line # lines) = (case rc_parse S line of
      Inl e \<Rightarrow> Inl e
    | Inr item \<Rightarrow> throw_if (isLocalSecret S item) (Error ''Recovery input contains a local secret record.'')
        (case assertSnapshotSafe item ''$'' of
          Inl e \<Rightarrow> Inl e
        | Inr _ \<Rightarrow> (case parseLines S lines of Inl e \<Rightarrow> Inl e | Inr items \<Rightarrow> Inr (item # items))))"

definition readSnapshotFile ::
    "('w, 'z) recovery_services_scheme \<Rightarrow> string \<Rightarrow> json option \<Rightarrow> ('w, json list) op" where
  "readSnapshotFile S path expected =
     bindM (rc_readFile S path) (\<lambda>compressed.
       let file = js_String_of (rc_number S) (get_in expected ''file'')
       in if get_in expected ''sha256'' \<noteq> Some (JStr (checksum S compressed))
          then throwM (Error (''Checksum mismatch for '' @ file @ ''.''))
          else bindM (liftM (rc_gunzip S compressed)) (\<lambda>content.
            let lines = (if content = [] then [] else split_on newline (trimEnd content))
            in if get_in expected ''recordCount'' \<noteq> Some (JNum (of_nat (length lines)))
               then throwM (Error (''Record count mismatch for '' @ file @ ''.''))
               else liftM (parseLines S lines)))"

definition assertEmpty :: "('w, 'z) recovery_services_scheme \<Rightarrow> string \<Rightarrow> ('w, unit) op" where
  "assertEmpty S table =
     bindM (rc_scanLimit1 S table) (\<lambda>items.
       if items \<noteq> [] then throwM (Error (''Restore target '' @ table @ '' is not empty.'')) else returnM ())"

text \<open>
  The puts of one batch: up to eight calls, each with what the last one left. \<open>left\<close> counts the calls that remain; the
  pauses between them do not change the state.
\<close>

primrec sendBatch ::
    "('w, 'z) recovery_services_scheme \<Rightarrow> string \<Rightarrow> nat \<Rightarrow> json list \<Rightarrow> ('w, json list) op" where
  "sendBatch S table 0 pending = returnM pending"
| "sendBatch S table (Suc left) pending =
     (if pending = [] then returnM pending
      else bindM (rc_batchWrite S table pending) (sendBatch S table left))"

function batchWrite :: "('w, 'z) recovery_services_scheme \<Rightarrow> string \<Rightarrow> json list \<Rightarrow> ('w, unit) op" where
  "batchWrite S table [] = returnM ()"
| "batchWrite S table (x # xs) =
     bindM (sendBatch S table 8 (take 25 (x # xs))) (\<lambda>pending.
       if pending \<noteq> [] then throwM (Error (''Restore left unprocessed records in '' @ table @ ''.''))
       else batchWrite S table (drop 25 (x # xs)))"
  by pat_completeness auto
termination
  by (relation "measure (\<lambda>(S, table, items). length items)") auto

record restore_input =
  ri_manifestPath :: string
  ri_targetEnvironment :: string
  ri_coreTableName :: string
  ri_auditTableName :: string
  ri_allowRestore :: bool

definition restore_checks :: "restore_input \<Rightarrow> js_error + unit" where
  "restore_checks inp =
     throw_if (\<not> ri_allowRestore inp) (Error ''Restore requires --allow-restore.'')
     (throw_if (ri_targetEnvironment inp \<noteq> ''restore-test'')
       (Error ''Restore target environment must be exactly restore-test.'')
     (throw_if (\<not> prefix ''pirh-restore-'' (ri_coreTableName inp))
       (Error (''Restore target '' @ ri_coreTableName inp @ '' must use the pirh-restore- prefix.''))
     (throw_if (\<not> prefix ''pirh-restore-'' (ri_auditTableName inp))
       (Error (''Restore target '' @ ri_auditTableName inp @ '' must use the pirh-restore- prefix.'')) (Inr ()))))"

text \<open>\<open>join\<close> throws when the manifest has no string as the name of the file.\<close>

definition snapshotPath :: "('w, 'z) recovery_services_scheme \<Rightarrow> string \<Rightarrow> json option \<Rightarrow> js_error + string" where
  "snapshotPath S base expected = (case get_in expected ''file'' of
      Some (JStr file) \<Rightarrow> Inr (rc_join S base file)
    | _ \<Rightarrow> Inl (ServiceError ''ERR_INVALID_ARG_TYPE''))"

definition tenant_of :: "json \<Rightarrow> json" where
  "tenant_of manifest = (case json_get manifest ''tenantId'' of None \<Rightarrow> JNull | Some t \<Rightarrow> t)"

definition restoreItems ::
    "('w, 'z) recovery_services_scheme \<Rightarrow> restore_input \<Rightarrow> json \<Rightarrow> json list \<Rightarrow> json list \<Rightarrow> ('w, json) op" where
  "restoreItems S inp manifest core audit =
     (if \<not> list_all (\<lambda>item. belongsToTenant S item (tenant_of manifest)) (core @ audit)
      then throwM (Error ''Recovery input contains a record for another tenant.'')
      else bindM (assertEmpty S (ri_coreTableName inp)) (\<lambda>_.
           bindM (assertEmpty S (ri_auditTableName inp)) (\<lambda>_.
           bindM (batchWrite S (ri_coreTableName inp) core) (\<lambda>_.
           bindM (batchWrite S (ri_auditTableName inp) audit) (\<lambda>_. returnM manifest)))))"

definition restoreBackup :: "('w, 'z) recovery_services_scheme \<Rightarrow> restore_input \<Rightarrow> ('w, json) op" where
  "restoreBackup S inp =
     bindM (liftM (restore_checks inp)) (\<lambda>_.
     bindM (rc_readFile S (ri_manifestPath inp)) (\<lambda>text.
     bindM (liftM (rc_parse S text)) (\<lambda>v.
     bindM (liftM (parseManifest v)) (\<lambda>manifest.
       if ri_coreTableName inp = ri_auditTableName inp
       then throwM (Error ''Core and audit restore targets must be different tables.'')
       else
         let base = rc_dirname S (ri_manifestPath inp);
             coreFile = get_in (json_get manifest ''files'') ''core'';
             auditFile = get_in (json_get manifest ''files'') ''audit''
         in bindM (liftM (snapshotPath S base coreFile)) (\<lambda>corePath.
            bindM (liftM (snapshotPath S base auditFile)) (\<lambda>auditPath.
            bindM (readSnapshotFile S corePath coreFile) (\<lambda>core.
            bindM (readSnapshotFile S auditPath auditFile) (\<lambda>audit.
              restoreItems S inp manifest core audit))))))))"

end
