(* ===== verification/Json_Reader.thy ===== *)
theory Json_Reader
  imports Canonical_Json
begin

text \<open>
  A reader of canonical JSON texts, which gives back the value that was printed: that \<open>JSON.parse\<close> does so is what the
  program relies on where it reads its own files. The reader knows no white space and only the escapes that \<open>JSON.stringify\<close>
  prints; the reading of numbers is a parameter like their printing.
\<close>

section \<open>Strings\<close>

lemma unescape_shorter: "unescape s = Some (c, u) \<Longrightarrow> length u < length s"
  by (cases s) (auto split: if_splits list.splits)

function read_string :: "string \<Rightarrow> (string \<times> string) option" where
  "read_string s = (if s \<noteq> [] \<and> hd s = CHR 0x22 then Some ([], tl s)
     else (case unescape s of
        None \<Rightarrow> None
      | Some (c, u) \<Rightarrow> map_option (\<lambda>(t, r). (c # t, r)) (read_string u)))"
  by pat_completeness auto
termination
  by (relation "measure length") (auto dest: unescape_shorter)

declare read_string.simps [simp del]

lemma read_string_quoted: "read_string (concat (map json_escape t) @ CHR 0x22 # r) = Some (t, r)"
proof (induction t)
  case Nil
  then show ?case by (simp add: read_string.simps)
next
  case (Cons c t)
  let ?u = "concat (map json_escape t) @ CHR 0x22 # r"
  have "\<not> (json_escape c @ ?u \<noteq> [] \<and> hd (json_escape c @ ?u) = CHR 0x22)"
    using escape_not_quote [of c ?u] by (metis list.collapse)
  then show ?case using Cons.IH unescape_escape [of c ?u] by (subst read_string.simps) simp
qed

section \<open>Values\<close>

text \<open>The first argument reads a number, the second bounds the depth of the calls.\<close>

definition expect :: "char \<Rightarrow> string \<Rightarrow> string option" where
  "expect c s = (case s of [] \<Rightarrow> None | x # u \<Rightarrow> if x = c then Some u else None)"

lemma expect_Cons [simp]: "expect c (c # u) = Some u" "x \<noteq> c \<Longrightarrow> expect c (x # u) = None"
  by (simp_all add: expect_def)

fun read_value :: "(string \<Rightarrow> rat option) \<Rightarrow> nat \<Rightarrow> string \<Rightarrow> (json \<times> string) option"
  and read_entries :: "(string \<Rightarrow> rat option) \<Rightarrow> nat \<Rightarrow> string \<Rightarrow> (json list \<times> string) option"
  and read_fields :: "(string \<Rightarrow> rat option) \<Rightarrow> nat \<Rightarrow> string \<Rightarrow> ((string \<times> json) list \<times> string) option" where
  "read_value num 0 s = None"
| "read_value num (Suc n) s = (case s of
      [] \<Rightarrow> None
    | c # u \<Rightarrow>
        if c = CHR 0x22 then map_option (\<lambda>(t, r). (JStr t, r)) (read_string u)
        else if c = CHR ''['' then (case expect CHR '']'' u of
            Some r \<Rightarrow> Some (JArr [], r)
          | None \<Rightarrow> map_option (\<lambda>(xs, r). (JArr xs, r)) (read_entries num n u))
        else if c = CHR ''{'' then (case expect CHR ''}'' u of
            Some r \<Rightarrow> Some (JObj [], r)
          | None \<Rightarrow> map_option (\<lambda>(fs, r). (JObj fs, r)) (read_fields num n u))
        else if take 4 s = ''null'' then Some (JNull, drop 4 s)
        else if take 4 s = ''true'' then Some (JBool True, drop 4 s)
        else if take 5 s = ''false'' then Some (JBool False, drop 5 s)
        else map_option (\<lambda>q. (JNum q, dropWhile number_char s)) (num (takeWhile number_char s)))"
| "read_entries num 0 s = None"
| "read_entries num (Suc n) s = (case read_value num n s of
      None \<Rightarrow> None
    | Some (x, u) \<Rightarrow> (case expect CHR '']'' u of
        Some r \<Rightarrow> Some ([x], r)
      | None \<Rightarrow> (case expect CHR '','' u of
          None \<Rightarrow> None
        | Some r \<Rightarrow> map_option (\<lambda>(xs, t). (x # xs, t)) (read_entries num n r))))"
| "read_fields num 0 s = None"
| "read_fields num (Suc n) s = (case Option.bind (expect CHR 0x22 s) read_string of
      None \<Rightarrow> None
    | Some (k, u) \<Rightarrow> (case Option.bind (expect CHR '':'' u) (read_value num n) of
        None \<Rightarrow> None
      | Some (v, u) \<Rightarrow> (case expect CHR ''}'' u of
          Some r \<Rightarrow> Some ([(k, v)], r)
        | None \<Rightarrow> (case expect CHR '','' u of
            None \<Rightarrow> None
          | Some r \<Rightarrow> map_option (\<lambda>(fs, t). ((k, v) # fs, t)) (read_fields num n r)))))"

definition read_json :: "(string \<Rightarrow> rat option) \<Rightarrow> string \<Rightarrow> json option" where
  "read_json num s = (case read_value num (2 * length s) s of
      Some (v, []) \<Rightarrow> Some v
    | _ \<Rightarrow> None)"

section \<open>What was printed is read\<close>

definition reads_numbers :: "(rat \<Rightarrow> string) \<Rightarrow> (string \<Rightarrow> rat option) \<Rightarrow> bool" where
  "reads_numbers num unnum \<longleftrightarrow> prints_numbers num \<and> (\<forall>q. unnum (num q) = Some q)"

lemma number_stops:
  assumes "list_all number_char t" and "ends_value r"
  shows "takeWhile number_char (t @ r) = t \<and> dropWhile number_char (t @ r) = r"
proof -
  have "takeWhile number_char r = [] \<and> dropWhile number_char r = r"
    using assms(2) by (cases r) (auto simp: ends_value_def number_char_def)
  with assms(1) show ?thesis by (simp add: list_all_iff)
qed

lemma read_number:
  assumes "reads_numbers num unnum" and "ends_value r"
  shows "read_value unnum (Suc n) (num q @ r) = Some (JNum q, r)"
proof -
  have chars: "list_all number_char (num q)" "unnum (num q) = Some q" "prints_numbers num"
    using assms(1) by (auto simp: reads_numbers_def prints_numbers_def)
  obtain d u where d: "num q = d # u" "number_char d" using number_start [OF chars(3)] by blast
  then have first: "d \<noteq> CHR 0x22 \<and> d \<noteq> CHR ''['' \<and> d \<noteq> CHR ''{'' \<and> d \<noteq> CHR ''n'' \<and> d \<noteq> CHR ''t'' \<and> d \<noteq> CHR ''f''"
    by (auto simp: number_char_def)
  then have "take 4 (num q @ r) \<noteq> ''null''" "take 4 (num q @ r) \<noteq> ''true''" "take 5 (num q @ r) \<noteq> ''false''"
    by (auto simp: d(1))
  then show ?thesis
    using number_stops [OF chars(1) assms(2)] chars(2) first d(1) by simp
qed

lemma read_entries_printed:
  assumes "\<And>x n r. x \<in> set (x0 # xs) \<Longrightarrow> 2 * length (f x) \<le> n \<Longrightarrow> ends_value r \<Longrightarrow> read_value num n (f x @ r) = Some (x, r)"
    and "2 * length (join '','' (map f (x0 # xs))) < n"
  shows "read_entries num n (join '','' (map f (x0 # xs)) @ CHR '']'' # r) = Some (x0 # xs, r)"
  using assms
proof (induction xs arbitrary: x0 n)
  case Nil
  then obtain k where n: "n = Suc k" and k: "2 * length (f x0) \<le> k" by (cases n) auto
  have "read_value num k (f x0 @ CHR '']'' # r) = Some (x0, CHR '']'' # r)"
    using Nil.prems(1) [of x0 k] k by (simp add: ends_value_def)
  then show ?case by (simp add: n)
next
  case (Cons x1 xs)
  then obtain k where n: "n = Suc k" and k: "2 * length (f x0) \<le> k" "2 * length (join '','' (map f (x1 # xs))) < k"
    by (cases n) auto
  let ?u = "join '','' (map f (x1 # xs)) @ CHR '']'' # r"
  have "read_value num k (f x0 @ CHR '','' # ?u) = Some (x0, CHR '','' # ?u)"
    using Cons.prems(1) [of x0 k] k by (simp add: ends_value_def)
  moreover have "read_entries num k ?u = Some (x1 # xs, r)"
    by (rule Cons.IH) (use Cons.prems(1) k in auto)
  ultimately show ?case by (simp add: n)
qed

lemma read_fields_printed:
  assumes "\<And>p n r. p \<in> set (p0 # ps) \<Longrightarrow> 2 * length (f (snd p)) \<le> n \<Longrightarrow> ends_value r
      \<Longrightarrow> read_value num n (f (snd p) @ r) = Some (snd p, r)"
    and "2 * length (join '','' (map (\<lambda>p. json_quote (fst p) @ '':'' @ f (snd p)) (p0 # ps))) < n"
  shows "read_fields num n (join '','' (map (\<lambda>p. json_quote (fst p) @ '':'' @ f (snd p)) (p0 # ps)) @ CHR ''}'' # r)
     = Some (p0 # ps, r)"
  using assms
proof (induction ps arbitrary: p0 n)
  case Nil
  then obtain k where n: "n = Suc k" and k: "2 * length (f (snd p0)) \<le> k" by (cases n) auto
  have "read_value num k (f (snd p0) @ CHR ''}'' # r) = Some (snd p0, CHR ''}'' # r)"
    using Nil.prems(1) [of p0 k] k by (simp add: ends_value_def)
  then show ?case by (simp add: n json_quote_def read_string_quoted)
next
  case (Cons p1 ps)
  let ?g = "\<lambda>p. json_quote (fst p) @ '':'' @ f (snd p)"
  from Cons obtain k where n: "n = Suc k" and k: "2 * length (f (snd p0)) \<le> k" "2 * length (join '','' (map ?g (p1 # ps))) < k"
    by (cases n) auto
  let ?u = "join '','' (map ?g (p1 # ps)) @ CHR ''}'' # r"
  have "read_value num k (f (snd p0) @ CHR '','' # ?u) = Some (snd p0, CHR '','' # ?u)"
    using Cons.prems(1) [of p0 k] k by (simp add: ends_value_def)
  moreover have "read_fields num k ?u = Some (p1 # ps, r)"
    by (rule Cons.IH) (use Cons.prems(1) k in auto)
  moreover have "join '','' (map ?g (p0 # p1 # ps)) @ CHR ''}'' # r
      = CHR 0x22 # concat (map json_escape (fst p0)) @ CHR 0x22 # CHR '':'' # f (snd p0) @ CHR '','' # ?u"
    by (simp add: json_quote_def)
  ultimately show ?case by (simp only: n read_fields.simps) (simp add: read_string_quoted)
qed

lemma read_render:
  assumes num: "reads_numbers num unnum"
  shows "2 * length (render num v) \<le> n \<Longrightarrow> ends_value r \<Longrightarrow> read_value unnum n (render num v @ r) = Some (v, r)"
proof (induction v arbitrary: n r)
  case (JNum q)
  have "num q \<noteq> []" using num by (simp add: reads_numbers_def prints_numbers_def)
  with JNum obtain k where "n = Suc k" by (cases n) auto
  with read_number [OF num JNum.prems(2)] show ?case by simp
next
  case (JStr s)
  then obtain k where "n = Suc k" by (cases n) (auto simp: json_quote_def)
  then show ?case by (simp add: json_quote_def read_string_quoted)
next
  case (JArr xs)
  then obtain k where n: "n = Suc k" by (cases n) auto
  show ?case
  proof (cases xs)
    case Nil
    then show ?thesis by (simp add: n)
  next
    case (Cons x0 ys)
    have start: "render num x0 \<noteq> [] \<and> hd (render num x0) \<noteq> CHR '']''"
      using num by (intro render_start) (simp add: reads_numbers_def)
    have "read_entries unnum k (join '','' (map (render num) (x0 # ys)) @ CHR '']'' # r) = Some (x0 # ys, r)"
      by (rule read_entries_printed) (use JArr Cons n in auto)
    moreover have "expect CHR '']'' (join '','' (map (render num) (x0 # ys)) @ CHR '']'' # r) = None"
      using start by (cases "render num x0"; cases ys) auto
    ultimately show ?thesis by (simp add: n Cons)
  qed
next
  case (JObj fs)
  then obtain k where n: "n = Suc k" by (cases n) auto
  show ?case
  proof (cases fs)
    case Nil
    then show ?thesis by (simp add: n)
  next
    case (Cons p0 ps)
    let ?g = "\<lambda>p. json_quote (fst p) @ '':'' @ render num (snd p)"
    have printed: "render num (JObj fs) = ''{'' @ join '','' (map ?g (p0 # ps)) @ ''}''"
      by (simp add: Cons case_prod_unfold)
    have "read_fields unnum k (join '','' (map ?g (p0 # ps)) @ CHR ''}'' # r) = Some (p0 # ps, r)"
    proof (rule read_fields_printed)
      fix p :: "string \<times> json" and m t
      assume p: "p \<in> set (p0 # ps)" and "2 * length (render num (snd p)) \<le> m" and "ends_value t"
      then show "read_value unnum m (render num (snd p) @ t) = Some (snd p, t)"
        using JObj.IH [of p "snd p"] Cons by (simp add: snds.simps)
    next
      show "2 * length (join '','' (map ?g (p0 # ps))) < k" using JObj.prems(1) n unfolding printed by simp
    qed
    moreover have "expect CHR ''}'' (join '','' (map ?g (p0 # ps)) @ CHR ''}'' # r) = None"
      by (cases ps) (simp_all add: json_quote_def)
    ultimately show ?thesis unfolding printed by (simp add: n Cons)
  qed
next
  case JNull
  then obtain k where "n = Suc k" by (cases n) auto
  then show ?case by simp
next
  case (JBool b)
  then obtain k where "n = Suc k" by (cases n) (auto split: if_splits)
  then show ?case by simp
qed

lemma read_stable:
  assumes "reads_numbers num unnum"
  shows "read_json unnum (stableJson num v) = Some (normal v)"
  using read_render [OF assms, of "normal v" "2 * length (stableJson num v)" "[]"]
  by (simp add: read_json_def stable_render ends_value_def)

section \<open>The printer of the examples\<close>

definition count_ones :: "string \<Rightarrow> nat" where
  "count_ones s = length (takeWhile (\<lambda>c. c = CHR ''1'') s)"

definition read_unary :: "string \<Rightarrow> rat option" where
  "read_unary s = (case s of
      [] \<Rightarrow> None
    | c # u \<Rightarrow> let n = count_ones u; d = count_ones (drop (Suc n) u)
        in Some (of_int ((if c = CHR ''-'' then -1 else 1) * int n) / of_nat d))"

lemma unary_reads: "reads_numbers unary read_unary"
proof -
  have ones: "count_ones (replicate n CHR ''1'' @ CHR ''e'' # u) = n" "count_ones (replicate n CHR ''1'') = n" for n u
    by (simp_all add: count_ones_def takeWhile_append)
  have "read_unary (unary q) = Some q" for q
  proof -
    obtain a b where q: "quotient_of q = (a, b)" by (cases "quotient_of q")
    have b: "0 < b" "of_int a / of_int b = q"
      using quotient_of_denom_pos [OF q] quotient_of_div [OF q] by simp_all
    have "read_unary (unary q) = Some (of_int a / of_int b)"
      using b(1) by (simp add: unary_def q read_unary_def ones Let_def)
    with b(2) show ?thesis by simp
  qed
  then show ?thesis by (simp add: reads_numbers_def unary_prints)
qed

end
