(* ===== verification/Recovery_Runs.thy ===== *)
theory Recovery_Runs
  imports Recovery Json_Reader "HOL-Library.Multiset"
begin

text \<open>
  What a backup writes and a restoration makes of it: the scan of a table ends, a snapshot of safe rows is restored row
  by row, and nothing that looks like a credential is in it.
\<close>

section \<open>Values up to the order of their keys\<close>

fun distinct_keys :: "json \<Rightarrow> bool" where
  "distinct_keys (JArr xs) = list_all distinct_keys xs"
| "distinct_keys (JObj fs) \<longleftrightarrow> distinct (map fst fs) \<and> list_all (\<lambda>(k, v). distinct_keys v) fs"
| "distinct_keys _ = True"

lemma map_of_first: "map_of ys k = (case filter (\<lambda>y. fst y = k) ys of [] \<Rightarrow> None | y # _ \<Rightarrow> Some (snd y))"
  by (induction ys) auto

lemma map_of_sort_key: "map_of (sort_key fst xs) k = map_of xs k"
  using sort_key_stable [of fst k xs] by (simp add: map_of_first)

lemma json_get_normal: "json_get (normal v) k = map_option normal (json_get v k)"
proof (cases v)
  case (JObj fs)
  have "map_of (map (\<lambda>(k, v). (k, normal v)) fs) k = map_option normal (map_of fs k)"
    by (induction fs) auto
  with JObj show ?thesis by (simp add: map_of_sort_key)
qed simp_all

lemma normal_JStr [simp]: "normal v = JStr s \<longleftrightarrow> v = JStr s" "normal v = JNum q \<longleftrightarrow> v = JNum q" "normal v = JNull \<longleftrightarrow> v = JNull"
  by (cases v; simp)+

lemma is_string_normal [simp]: "is_string (map_option normal x) = is_string x"
  by (cases x rule: is_string.cases) auto

lemma list_all_normal: "list_all P (sort_key fst (map (\<lambda>(k, v). (k, normal v)) fs)) = list_all (\<lambda>(k, v). P (k, normal v)) fs"
  by (auto simp: list_all_iff)

lemma headers_normal: "hasOnlyRedactedSensitiveHeaders (normal v) = hasOnlyRedactedSensitiveHeaders v"
proof (cases v)
  case (JObj fs)
  have "(case normal x of JStr s \<Rightarrow> P s | _ \<Rightarrow> False) = (case x of JStr s \<Rightarrow> P s | _ \<Rightarrow> False)" for x P
    by (cases x) simp_all
  then show ?thesis by (simp add: JObj list_all_normal)
qed simp_all

lemma version_normal: "logicalSecretVersion (normal v) = logicalSecretVersion v"
proof (cases v)
  case (JObj fs)
  have get: "map_of (sort_key fst (map (\<lambda>(k, v). (k, normal v)) gs)) k = map_option normal (map_of gs k)"
    for gs :: "(string \<times> json) list" and k
    using json_get_normal [of "JObj gs" k] by simp
  have keys: "only_keys ks (sort_key fst (map (\<lambda>(k, v). (k, normal v)) gs)) = only_keys ks gs" for ks gs
    by (simp add: only_keys_def list_all_normal)
  have state: "map_option normal x \<in> {Some (JStr a), Some (JStr b)} \<longleftrightarrow> x \<in> {Some (JStr a), Some (JStr b)}" for x a b
    by (cases x) auto
  show ?thesis
  proof (cases "map_of fs ''reference''")
    case None
    then show ?thesis by (simp add: JObj get)
  next
    case (Some x)
    then show ?thesis
      by (cases x) (simp_all add: JObj get keys state del: insert_iff)
  qed
qed simp_all

lemma versions_normal: "hasOnlyLogicalSecretVersions (normal v) = hasOnlyLogicalSecretVersions v"
  by (cases v) (simp_all add: list_all_iff version_normal)

section \<open>Safe values\<close>

definition safe_field :: "string \<Rightarrow> json \<Rightarrow> bool \<Rightarrow> bool" where
  "safe_field k v inside \<longleftrightarrow> redacted_headers_field k v
     \<or> (if secret_versions_key k then hasOnlyLogicalSecretVersions v
        else (credentialKey k \<longrightarrow> referenceKey k) \<and> inside)"

fun safe_value :: "json \<Rightarrow> bool" where
  "safe_value (JArr xs) = list_all safe_value xs"
| "safe_value (JObj fs) = list_all (\<lambda>(k, v). safe_field k v (safe_value v)) fs"
| "safe_value _ = True"

lemma safe_field_simps:
  "redacted_headers_field k v \<Longrightarrow> safe_field k v b"
  "\<not> redacted_headers_field k v \<Longrightarrow> secret_versions_key k \<Longrightarrow> safe_field k v b = hasOnlyLogicalSecretVersions v"
  "\<not> redacted_headers_field k v \<Longrightarrow> \<not> secret_versions_key k
     \<Longrightarrow> safe_field k v b \<longleftrightarrow> (credentialKey k \<longrightarrow> referenceKey k) \<and> b"
  by (simp_all add: safe_field_def)

lemma assert_iff:
  "assertSnapshotSafe v p = Inr () \<longleftrightarrow> safe_value v"
  "assertEntriesSafe xs i p = Inr () \<longleftrightarrow> list_all safe_value xs"
  "assertFieldsSafe fs p = Inr () \<longleftrightarrow> safe_value (JObj fs)"
  by (induction v p and xs i p and fs p rule: assertSnapshotSafe_assertEntriesSafe_assertFieldsSafe.induct)
     (auto simp: safe_field_simps split: sum.splits)

lemma safe_normal: "safe_value (normal v) = safe_value v"
proof (induction v)
  case (JArr xs)
  then show ?case by (auto simp: list_all_iff)
next
  case (JObj fs)
  then have "safe_value (normal x) = safe_value x" if "(k, x) \<in> set fs" for k x
    using that by (auto simp: snds.simps)
  then show ?case
    by (auto simp: list_all_normal list_all_iff safe_field_def redacted_headers_field_def headers_normal versions_normal)
qed simp_all

lemma js_String_normal: "js_String num (normal v) = js_String num v"
proof (induction v)
  case (JArr xs)
  then show ?case by (simp add: comp_def cong: map_cong if_cong)
qed simp_all

lemma strictly_equal_normal: "strictly_equal (normal v) (JStr t) = strictly_equal v (JStr t)"
  by (cases v) simp_all

definition same_value :: "json \<Rightarrow> json \<Rightarrow> bool" where
  "same_value u v \<longleftrightarrow> normal u = normal v"

lemma same_safe: "same_value u v \<Longrightarrow> safe_value u = safe_value v"
  using safe_normal [of u] safe_normal [of v] by (simp add: same_value_def)

lemma same_get: "same_value u v \<Longrightarrow> map_option normal (json_get u k) = map_option normal (json_get v k)"
  using json_get_normal [of u k] json_get_normal [of v k] by (simp add: same_value_def)

lemma same_string: "same_value u v \<Longrightarrow> js_String_of num (json_get u k) = js_String_of num (json_get v k)"
  using same_get [of u v k] js_String_normal
  by (cases "json_get u k"; cases "json_get v k") (auto simp: js_String_of_def, metis)

lemma same_or_empty: "same_value u v \<Longrightarrow> or_empty num (json_get u k) = or_empty num (json_get v k)"
proof -
  have some: "or_empty num (Some x) = (if x = JNull then [] else js_String num x)" for x
    by (cases x) (simp_all add: or_empty_def)
  have norm: "or_empty num (map_option normal x) = or_empty num x" for x
    using some js_String_normal by (cases x) (auto simp: or_empty_def [of num None])
  assume "same_value u v"
  from same_get [OF this, of k] show ?thesis by (metis norm)
qed

lemma same_local: "same_value u v \<Longrightarrow> isLocalSecret S u = isLocalSecret S v"
  by (simp add: isLocalSecret_def same_string)

lemma same_tenant: "same_value u v \<Longrightarrow> belongsToTenant S u (JStr t) = belongsToTenant S v (JStr t)"
proof -
  assume same: "same_value u v"
  have norm: "(case map_option normal x of None \<Rightarrow> False | Some y \<Rightarrow> strictly_equal y (JStr t))
      = (case x of None \<Rightarrow> False | Some y \<Rightarrow> strictly_equal y (JStr t))" for x
    by (cases x) (simp_all add: strictly_equal_normal)
  show ?thesis
    using same_get [OF same, of "''tenantId''"] same_or_empty [OF same, of "rc_number S" "''PK''"]
    by (simp add: belongsToTenant_def) (metis norm)
qed


section \<open>The lines of a file\<close>

lemma set_join: "set (join sep ts) \<subseteq> set sep \<union> (\<Union>t \<in> set ts. set t)"
  by (induction sep ts rule: join.induct) auto

lemma hex_digit_not_newline: "n < 16 \<Longrightarrow> hex_digit n \<noteq> newline"
proof -
  have "\<forall>m \<in> set [0..<16]. hex_digit m \<noteq> newline" by code_simp
  then show "n < 16 \<Longrightarrow> hex_digit n \<noteq> newline" by simp
qed

lemma escape_no_newline: "newline \<notin> set (json_escape c)"
proof (cases "of_char c < (32::nat)")
  case True
  then have "(of_char c div 16 :: nat) < 16" "(of_char c mod 16 :: nat) < 16" by auto
  note hex = hex_digit_not_newline [OF this(1)] hex_digit_not_newline [OF this(2)]
  show ?thesis
    unfolding json_escape_def using hex by (simp add: newline_def)
next
  case False
  then have "c \<noteq> newline" by (auto simp: newline_def)
  with False show ?thesis by (simp add: json_escape_def newline_def)
qed

lemma quote_no_newline: "newline \<notin> set (json_quote s)"
proof -
  have "newline \<noteq> CHR 0x22" by (simp add: newline_def)
  then show ?thesis using escape_no_newline by (simp add: json_quote_def)
qed

lemma render_no_newline:
  assumes "prints_numbers num"
  shows "newline \<notin> set (render num v)"
proof (induction v)
  case (JNum q)
  have "list_all number_char (num q)" using assms by (simp add: prints_numbers_def)
  moreover have "\<not> number_char newline" by (simp add: number_char_def newline_def)
  ultimately show ?case by (auto simp: list_all_iff)
next
  case (JStr s)
  then show ?case by (simp add: quote_no_newline)
next
  case (JArr xs)
  then show ?case using set_join [of "'',''" "map (render num) xs"] by (auto simp: newline_def)
next
  case (JObj fs)
  then have "newline \<notin> set (json_quote k @ '':'' @ render num v)" if "(k, v) \<in> set fs" for k v
    using that quote_no_newline [of k] by (auto simp: snds.simps newline_def)
  then show ?case using set_join [of "'',''" "map (\<lambda>(k, v). json_quote k @ '':'' @ render num v) fs"]
    by (fastforce simp: newline_def)
qed (auto simp: newline_def)

lemma render_last:
  assumes "prints_numbers num"
  shows "render num v \<noteq> [] \<and> \<not> is_white (last (render num v))"
proof (cases v)
  case (JNum q)
  have "list_all number_char (num q)" "num q \<noteq> []" using assms by (simp_all add: prints_numbers_def)
  then have "number_char (last (num q))" by (simp add: list_all_iff)
  then show ?thesis using JNum \<open>num q \<noteq> []\<close> by (auto simp: number_char_def is_white_def)
qed (auto simp: is_white_def json_quote_def)

lemma split_join: "ts \<noteq> [] \<Longrightarrow> (\<And>t. t \<in> set ts \<Longrightarrow> c \<notin> set t) \<Longrightarrow> split_on c (join [c] ts) = ts"
proof (induction "[c]" ts rule: join.induct)
  case (3 x y ys)
  then show ?case by (simp add: split_on_hit)
qed (simp_all add: split_on_miss)

lemma trimEnd_newline: "t \<noteq> [] \<Longrightarrow> \<not> is_white (last t) \<Longrightarrow> trimEnd (t @ [newline]) = t"
  by (cases t rule: rev_cases) (simp_all add: trimEnd_def is_white_def newline_def)

lemma join_last: "ts \<noteq> [] \<Longrightarrow> last ts \<noteq> [] \<Longrightarrow> join sep ts \<noteq> [] \<and> last (join sep ts) = last (last ts)"
proof (induction sep ts rule: join.induct)
  case (3 sep x y ys)
  then show ?case by (cases "join sep (y # ys)") auto
qed simp_all

lemma mset_insert_item: "mset (insert_item S x xs) = add_mset x (mset xs)"
  by (induction xs) auto

lemma mset_sorted_items [simp]: "mset (sorted_items S xs) = mset xs"
  unfolding sorted_items_def by (induction xs) (simp_all add: mset_insert_item)

lemma set_sorted_items [simp]: "set (sorted_items S xs) = set xs"
  using mset_sorted_items [of S xs] by (metis set_mset_mset)

lemma length_sorted_items [simp]: "length (sorted_items S xs) = length xs"
  using mset_sorted_items [of S xs] by (metis size_mset)

lemma lines_back:
  assumes "prints_numbers (rc_number S)"
  shows "(if deterministicLines S xs = [] then [] else split_on newline (trimEnd (deterministicLines S xs)))
     = map (stableJson (rc_number S)) (sorted_items S xs)"
proof (cases "xs = []")
  case True
  then show ?thesis by (simp add: deterministicLines_def sorted_items_def)
next
  case False
  define ts where "ts = map (stableJson (rc_number S)) (sorted_items S xs)"
  have "ts \<noteq> []" using False length_sorted_items [of S xs] by (auto simp: ts_def simp del: length_sorted_items)
  then have "last ts \<in> set ts" by simp
  have line: "t \<noteq> [] \<and> \<not> is_white (last t) \<and> newline \<notin> set t" if "t \<in> set ts" for t
    using that render_last [OF assms] render_no_newline [OF assms] by (auto simp: ts_def stable_render)
  have join: "join [newline] ts \<noteq> []" "last (join [newline] ts) = last (last ts)"
    using join_last [of ts "[newline]"] \<open>ts \<noteq> []\<close> line [OF \<open>last ts \<in> set ts\<close>] by auto
  have "deterministicLines S xs = join [newline] ts @ [newline]"
    using join(1) by (simp add: deterministicLines_def ts_def [symmetric])
  moreover have "trimEnd (join [newline] ts @ [newline]) = join [newline] ts"
    using join line [OF \<open>last ts \<in> set ts\<close>] by (simp add: trimEnd_newline)
  moreover have "split_on newline (join [newline] ts) = ts"
    using \<open>ts \<noteq> []\<close> line by (intro split_join) auto
  ultimately show ?thesis by (simp add: ts_def)
qed

section \<open>The scan of a table\<close>

definition in_snapshot :: "('w, 'z) recovery_services_scheme \<Rightarrow> string \<Rightarrow> json \<Rightarrow> bool" where
  "in_snapshot S tenant item \<longleftrightarrow> belongsToTenant S item (JStr tenant) \<and> \<not> isLocalSecret S item"

lemma keepItems_Inr:
  "keepItems S tenant page = Inr kept \<longleftrightarrow>
     kept = filter (in_snapshot S tenant) page \<and> (\<forall>x \<in> set kept. safe_value x)"
proof (induction page arbitrary: kept)
  case (Cons x page)
  show ?case
  proof (cases "in_snapshot S tenant x")
    case False
    then have "keepItems S tenant (x # page) = keepItems S tenant page" by (auto simp: in_snapshot_def)
    with Cons False show ?thesis by simp
  next
    case True
    then have "keepItems S tenant (x # page) = (case assertSnapshotSafe x ''$'' of
          Inl e \<Rightarrow> Inl e
        | Inr _ \<Rightarrow> (case keepItems S tenant page of Inl e \<Rightarrow> Inl e | Inr kept \<Rightarrow> Inr (x # kept)))"
      by (auto simp: in_snapshot_def)
    then show ?thesis
      using Cons.IH True assert_iff(1) [of x "''$''"] by (auto split: sum.splits)
  qed
qed auto

text \<open>
  \<open>rows w t\<close> are the items of a table in the order of the scan, \<open>after xs k\<close> those that come after the key \<open>k\<close>, and
  every page leaves less of the table (\<open>left\<close>).
\<close>

locale paged_tables =
  fixes S :: "('w, 'z) recovery_services_scheme"
    and rows :: "'w \<Rightarrow> string \<Rightarrow> json list"
    and files :: "'w \<Rightarrow> string \<Rightarrow> string option"
    and after :: "json list \<Rightarrow> json option \<Rightarrow> json list"
    and left :: "json list \<Rightarrow> json option \<Rightarrow> nat"
  assumes after_None: "after xs None = xs"
    and scan_law: "rc_scan S t k w = (r, w') \<Longrightarrow> rows w' = rows w \<and> files w' = files w
      \<and> (\<forall>page key. r = Inr (page, key) \<longrightarrow>
           after (rows w t) k = page @ (case key of None \<Rightarrow> [] | Some k' \<Rightarrow> after (rows w t) (Some k'))
           \<and> (\<forall>k'. key = Some k' \<longrightarrow> left (rows w t) (Some k') < left (rows w t) k))"
    and mkdir_law: "rc_mkdir S d w = (u, w') \<Longrightarrow> rows w' = rows w \<and> files w' = files w"
begin

lemma scan_pages_end:
  "\<exists>r w'. scanPages S t tenant k items w = Some (r, w') \<and> rows w' = rows w \<and> files w' = files w
     \<and> (\<forall>xs. r = Inr xs \<longrightarrow> xs = items @ filter (in_snapshot S tenant) (after (rows w t) k)
          \<and> (\<forall>x \<in> set (after (rows w t) k). in_snapshot S tenant x \<longrightarrow> safe_value x))"
proof (induction "left (rows w t) k" arbitrary: k items w rule: less_induct)
  case less
  obtain r w1 where run: "rc_scan S t k w = (r, w1)" by (cases "rc_scan S t k w")
  note law = scan_law [OF run]
  show ?case
  proof (cases r)
    case (Inl e)
    then show ?thesis using law by (simp add: scanPages.simps run)
  next
    case (Inr pk)
    then obtain page key where r: "r = Inr (page, key)" by (cases pk) auto
    show ?thesis
    proof (cases "keepItems S tenant page")
      case (Inl e)
      then show ?thesis using law by (simp add: scanPages.simps [of S t tenant k] run r)
    next
      case kept: (Inr kept)
      then have k: "kept = filter (in_snapshot S tenant) page" "\<forall>x \<in> set kept. safe_value x"
        by (simp_all add: keepItems_Inr)
      show ?thesis
      proof (cases key)
        case None
        then show ?thesis using law r kept k by (auto simp: scanPages.simps [of S t tenant k] run)
      next
        case (Some k')
        have step: "scanPages S t tenant k items w = scanPages S t tenant (Some k') (items @ kept) w1"
          using r kept Some by (simp add: scanPages.simps [of S t tenant k] run)
        have "left (rows w1 t) (Some k') < left (rows w t) k" using law r Some by simp
        from less [OF this, of "items @ kept"] show ?thesis
          using law r k Some unfolding step by fastforce
      qed
    qed
  qed
qed

lemma scan_ends:
  obtains r w' where "scanTenant S t tenant w = Some (r, w')" and "rows w' = rows w" and "files w' = files w"
    and "\<And>xs. r = Inr xs \<Longrightarrow> xs = filter (in_snapshot S tenant) (rows w t)
       \<and> (\<forall>x \<in> set (rows w t). in_snapshot S tenant x \<longrightarrow> safe_value x)"
  using scan_pages_end [of t tenant None "[]" w] that by (auto simp: scanTenant_def after_None)

lemma backup_ends:
  "\<exists>r w'. createBackup S inp w = Some (r, w')
     \<and> (\<forall>m. r = Inr m \<longrightarrow> (\<forall>t \<in> {bi_coreTableName inp, bi_auditTableName inp}. \<forall>x \<in> set (rows w t).
          in_snapshot S (bi_tenantId inp) x \<longrightarrow> safe_value x))"
proof -
  obtain u w1 where d: "rc_mkdir S (bi_outputDirectory inp) w = (u, w1)" by (cases "rc_mkdir S (bi_outputDirectory inp) w")
  obtain c w2 where c: "scanTenant S (bi_coreTableName inp) (bi_tenantId inp) w1 = Some (c, w2)" "rows w2 = rows w1"
    "\<And>xs. c = Inr xs \<Longrightarrow> (\<forall>x \<in> set (rows w1 (bi_coreTableName inp)). in_snapshot S (bi_tenantId inp) x \<longrightarrow> safe_value x)"
    by (rule scan_ends [of "bi_coreTableName inp" "bi_tenantId inp" w1]) blast
  obtain a w3 where a: "scanTenant S (bi_auditTableName inp) (bi_tenantId inp) w2 = Some (a, w3)"
    "\<And>xs. a = Inr xs \<Longrightarrow> (\<forall>x \<in> set (rows w2 (bi_auditTableName inp)). in_snapshot S (bi_tenantId inp) x \<longrightarrow> safe_value x)"
    by (rule scan_ends [of "bi_auditTableName inp" "bi_tenantId inp" w2]) blast
  show ?thesis
  proof (cases "\<exists>y ys zs. u = Inr y \<and> c = Inr ys \<and> a = Inr zs")
    case True
    then obtain y ys zs where ok: "u = Inr y" "c = Inr ys" "a = Inr zs" by blast
    obtain r w4 where "writeSnapshot S inp ys zs w3 = (r, w4)" by (cases "writeSnapshot S inp ys zs w3")
    then have "createBackup S inp w = Some (r, w4)" using d c(1) a(1) ok by (simp add: createBackup_def)
    then show ?thesis using mkdir_law [OF d] c(2) c(3) [OF ok(2)] a(2) [OF ok(3)] by auto
  next
    case False
    then show ?thesis using d c(1) a(1) by (cases u; cases c; cases a) (auto simp: createBackup_def)
  qed
qed

end


section \<open>A host that answers\<close>

definition item_key :: "json \<Rightarrow> json option \<times> json option" where
  "item_key v = (map_option normal (json_get v ''PK''), map_option normal (json_get v ''SK''))"

lemma same_item_key: "same_value u v \<Longrightarrow> item_key u = item_key v"
  by (simp add: item_key_def same_get)

definition fresh_items :: "json list \<Rightarrow> json list \<Rightarrow> bool" where
  "fresh_items old items \<longleftrightarrow> distinct (map item_key (old @ items))"

definition simple_name :: "string \<Rightarrow> bool" where
  "simple_name f \<longleftrightarrow> f \<noteq> [] \<and> CHR ''/'' \<notin> set f \<and> f \<noteq> ''.'' \<and> f \<noteq> ''..''"

text \<open>
  What a restoration needs of its surroundings, beside the scan: files hold what was written, \<open>gunzip\<close> undoes \<open>gzip\<close>,
  \<open>JSON.parse\<close> reads what \<open>stable\<close> prints, and of a batch of at most 25 new items a call that returns has written what
  it does not report as unprocessed. How many items a call takes, and that it returns, is not a law: \<open>takes_four\<close>
  says it where it is needed.
\<close>

definition takes_four :: "('w, 'z) recovery_services_scheme \<Rightarrow> ('w \<Rightarrow> string \<Rightarrow> json list) \<Rightarrow> bool" where
  "takes_four S rows \<longleftrightarrow> (\<forall>t items w. items \<noteq> [] \<and> length items \<le> 25 \<and> fresh_items (rows w t) items
     \<longrightarrow> (\<exists>un w'. rc_batchWrite S t items w = (Inr un, w') \<and> length un \<le> length items - 4))"

locale recovery_host = paged_tables S rows files after left
  for S :: "('w, 'z) recovery_services_scheme" and rows files after left +
  assumes scan_answers: "\<exists>x w'. rc_scan S t k w = (Inr x, w')"
    and mkdir_answers: "\<exists>w'. rc_mkdir S d w = (Inr (), w')"
    and write_law: "\<exists>w'. rc_writeFile S f c w = (Inr (), w') \<and> rows w' = rows w \<and> files w' = (files w)(f \<mapsto> c)"
    and read_law: "files w f = Some c \<Longrightarrow> \<exists>w'. rc_readFile S f w = (Inr c, w') \<and> rows w' = rows w \<and> files w' = files w"
    and limit1_law: "\<exists>w'. rc_scanLimit1 S t w = (Inr (take 1 (rows w t)), w') \<and> rows w' = rows w \<and> files w' = files w"
    and batch_law: "items \<noteq> [] \<Longrightarrow> length items \<le> 25 \<Longrightarrow> fresh_items (rows w t) items
       \<Longrightarrow> rc_batchWrite S t items w = (Inr un, w')
       \<Longrightarrow> mset un \<subseteq># mset items \<and> mset (rows w' t @ un) = mset (rows w t @ items) \<and> (\<forall>u. u \<noteq> t \<longrightarrow> rows w' u = rows w u)"
    and gunzip_law: "rc_gunzip S (rc_gzip S s) = Inr s"
    and dirname_law: "simple_name f \<Longrightarrow> rc_join S (rc_dirname S (rc_join S d f)) g = rc_join S d g"
    and segment_law: "simple_name f \<Longrightarrow> last_segment (rc_join S d f) = f"
    and number_law: "prints_numbers (rc_number S)"
    and parse_law: "distinct_keys v \<Longrightarrow> u \<in> {[], [newline]}
       \<Longrightarrow> \<exists>x. rc_parse S (stableJson (rc_number S) v @ u) = Inr x \<and> same_value x v"
begin

lemma scan_pages_answer:
  assumes "\<forall>x \<in> set (rows w t). in_snapshot S tenant x \<longrightarrow> safe_value x"
    and "set (after (rows w t) k) \<subseteq> set (rows w t)"
  shows "\<exists>xs w'. scanPages S t tenant k items w = Some (Inr xs, w')"
  using assms
proof (induction "left (rows w t) k" arbitrary: k items w rule: less_induct)
  case less
  obtain page key w1 where run: "rc_scan S t k w = (Inr (page, key), w1)" using scan_answers [of t k w] by fastforce
  note law = scan_law [OF run]
  then have sub: "set page \<subseteq> set (rows w t)" "\<And>k'. key = Some k' \<Longrightarrow> set (after (rows w t) (Some k')) \<subseteq> set (rows w t)"
    using less.prems(2) by auto
  have kept: "keepItems S tenant page = Inr (filter (in_snapshot S tenant) page)"
    using sub(1) less.prems(1) by (auto simp: keepItems_Inr)
  show ?case
  proof (cases key)
    case None
    then show ?thesis by (simp add: scanPages.simps [of S t tenant k] run kept)
  next
    case (Some k')
    have "left (rows w1 t) (Some k') < left (rows w t) k" "rows w1 = rows w" using law Some by simp_all
    with less.hyps [of w1 "Some k'"] less.prems(1) sub(2) [OF Some] show ?thesis
      by (simp add: scanPages.simps [of S t tenant k] run kept Some)
  qed
qed

lemma scan_answer:
  assumes "\<forall>x \<in> set (rows w t). in_snapshot S tenant x \<longrightarrow> safe_value x"
  obtains w' where "scanTenant S t tenant w = Some (Inr (filter (in_snapshot S tenant) (rows w t)), w')"
    and "rows w' = rows w" and "files w' = files w"
proof -
  obtain r w' where s: "scanTenant S t tenant w = Some (r, w')" "rows w' = rows w" "files w' = files w"
    "\<And>xs. r = Inr xs \<Longrightarrow> xs = filter (in_snapshot S tenant) (rows w t)"
    by (rule scan_ends [of t tenant w]) blast
  moreover obtain xs where "r = Inr xs"
    using scan_pages_answer [OF assms, of None "[]"] s(1) by (auto simp: scanTenant_def after_None)
  ultimately show thesis using that by simp
qed

text \<open>One batch: what is not reported at the end is written, and eight calls that take four each are enough for 25.\<close>

lemma batch_fresh: "fresh_items old items \<Longrightarrow> mset (old' @ un) = mset (old @ items) \<Longrightarrow> fresh_items old' un"
  unfolding fresh_items_def by (metis mset_eq_imp_distinct_iff mset_map)

lemma batch_length:
  assumes "rc_batchWrite S t items w = (Inr un, w')" "items \<noteq> []" "length items \<le> 25" "fresh_items (rows w t) items"
    and "mset (rows w' t @ un) = mset (rows w t @ items)" and "takes_four S rows"
  shows "length un \<le> length items - 4"
  using assms unfolding takes_four_def by (metis Pair_inject sum.inject(2))

lemma sendBatch_law:
  assumes "length items \<le> 25" and "fresh_items (rows w t) items" and "sendBatch S t n items w = (r, w')"
  shows "(\<forall>un. r = Inr un \<longrightarrow> mset (rows w' t @ un) = mset (rows w t @ items) \<and> (\<forall>u. u \<noteq> t \<longrightarrow> rows w' u = rows w u)
      \<and> (takes_four S rows \<longrightarrow> length un \<le> length items - 4 * n)) \<and> (takes_four S rows \<longrightarrow> (\<exists>un. r = Inr un))"
  using assms
proof (induction n arbitrary: items w)
  case 0
  then show ?case by (auto simp: returnM_def)
next
  case (Suc n)
  show ?case
  proof (cases "items = []")
    case True
    with Suc.prems show ?thesis by (auto simp: returnM_def)
  next
    case False
    obtain x w1 where run: "rc_batchWrite S t items w = (x, w1)" by (cases "rc_batchWrite S t items w")
    show ?thesis
    proof (cases x)
      case (Inl e)
      with run Suc.prems False have "\<not> takes_four S rows" unfolding takes_four_def by (metis Inl_Inr_False Pair_inject)
      with Inl run Suc.prems(3) False show ?thesis by (auto simp: bindM_def)
    next
      case (Inr un)
      note run' = run [unfolded Inr]
      note law = batch_law [OF False Suc.prems(1,2) run']
      have "length un \<le> length items" using law size_mset_mono [of "mset un" "mset items"] by simp
      then have len: "length un \<le> 25" using Suc.prems(1) by simp
      have step: "sendBatch S t n un w1 = (r, w')" using Suc.prems(3) run' False by (simp add: bindM_def)
      have fresh: "fresh_items (rows w1 t) un" using batch_fresh [OF Suc.prems(2)] law by blast
      have four: "takes_four S rows \<Longrightarrow> length un \<le> length items - 4"
        using batch_length [OF run' False Suc.prems(1,2)] law by blast
      show ?thesis
        using Suc.IH [OF len fresh step] law four by (auto simp del: mset_append)
    qed
  qed
qed

lemma batchWrite_law:
  assumes "fresh_items (rows w t) items" and "batchWrite S t items w = (r, w')"
  shows "(r = Inr () \<longrightarrow> mset (rows w' t) = mset (rows w t @ items) \<and> (\<forall>u. u \<noteq> t \<longrightarrow> rows w' u = rows w u))
      \<and> (takes_four S rows \<longrightarrow> r = Inr ())"
  using assms
proof (induction "length items" arbitrary: items w rule: less_induct)
  case less
  show ?case
  proof (cases items)
    case Nil
    with less.prems show ?thesis by (auto simp: returnM_def)
  next
    case (Cons x xs)
    let ?now = "take 25 items" and ?then = "drop 25 items"
    have fresh: "fresh_items (rows w t) ?now"
      using less.prems(1) distinct_take [of "map item_key items" 25] set_take_subset [of 25 items]
      by (auto simp: fresh_items_def take_map)
    obtain y w1 where run: "sendBatch S t 8 ?now w = (y, w1)" by (cases "sendBatch S t 8 ?now w")
    have "length ?now \<le> 25" by simp
    note law = sendBatch_law [OF this fresh run]
    show ?thesis
    proof (cases "y = Inr []")
      case True
      have all: "mset (rows w1 t @ ?then) = mset (rows w t @ items)"
        using law True by (metis append.assoc append_Nil2 append_take_drop_id mset_append)
      have "fresh_items (rows w1 t) ?then" using batch_fresh [OF less.prems(1)] all by blast
      moreover have "batchWrite S t ?then w1 = (r, w')" using less.prems(2) Cons run True by (simp add: bindM_def)
      moreover have "length ?then < length items" using Cons by simp
      ultimately have "(r = Inr () \<longrightarrow> mset (rows w' t) = mset (rows w1 t @ ?then) \<and> (\<forall>u. u \<noteq> t \<longrightarrow> rows w' u = rows w1 u))
        \<and> (takes_four S rows \<longrightarrow> r = Inr ())"
        using less.hyps by blast
      with all law True show ?thesis by (simp del: mset_append)
    next
      case False
      with law have "\<not> takes_four S rows" by auto
      moreover have "r \<noteq> Inr ()"
        using less.prems(2) Cons run False by (auto simp: bindM_def throwM_def split: sum.splits if_splits)
      ultimately show ?thesis by blast
    qed
  qed
qed

lemma parseLines_run:
  assumes "\<forall>x \<in> set xs. safe_value x \<and> \<not> isLocalSecret S x \<and> distinct_keys x"
  shows "\<exists>us. parseLines S (map (stableJson (rc_number S)) xs) = Inr us \<and> list_all2 same_value us xs"
  using assms
proof (induction xs)
  case (Cons x xs)
  obtain u where u: "rc_parse S (stableJson (rc_number S) x) = Inr u" "same_value u x"
    using parse_law [of x "[]"] Cons.prems by auto
  have "\<not> isLocalSecret S u" "assertSnapshotSafe u ''$'' = Inr ()"
    using Cons.prems same_local [OF u(2), of S] same_safe [OF u(2)] by (simp_all add: assert_iff)
  with u Cons show ?case by (auto simp: throw_if_def)
qed simp

lemma readSnapshotFile_run:
  assumes stored: "files w path = Some (rc_gzip S (deterministicLines S xs))"
    and sha: "get_in expected ''sha256'' = Some (JStr (checksum S (rc_gzip S (deterministicLines S xs))))"
    and count: "get_in expected ''recordCount'' = Some (JNum (of_nat (length xs)))"
    and xs: "\<forall>x \<in> set xs. safe_value x \<and> \<not> isLocalSecret S x \<and> distinct_keys x"
  shows "\<exists>us w'. readSnapshotFile S path expected w = (Inr us, w') \<and> rows w' = rows w \<and> files w' = files w
     \<and> list_all2 same_value us (sorted_items S xs)"
proof -
  obtain w1 where r: "rc_readFile S path w = (Inr (rc_gzip S (deterministicLines S xs)), w1)" "rows w1 = rows w"
    "files w1 = files w" using read_law [OF stored] by blast
  obtain us where us: "parseLines S (map (stableJson (rc_number S)) (sorted_items S xs)) = Inr us"
    "list_all2 same_value us (sorted_items S xs)"
    using parseLines_run [of "sorted_items S xs"] xs by auto
  show ?thesis
    using r us sha count lines_back [OF number_law, of xs]
    by (simp add: readSnapshotFile_def bindM_def liftM_def gunzip_law Let_def split: if_splits)
qed

lemma assertEmpty_run:
  "rows w t = [] \<Longrightarrow> \<exists>w'. assertEmpty S t w = (Inr (), w') \<and> rows w' = rows w \<and> files w' = files w"
  using limit1_law [of t w] by (auto simp: assertEmpty_def bindM_def returnM_def)

definition snapshot_of :: "string \<Rightarrow> json list \<Rightarrow> json list" where
  "snapshot_of tenant xs = filter (in_snapshot S tenant) xs"

definition holds_snapshot :: "backup_input \<Rightarrow> json list \<Rightarrow> json list \<Rightarrow> instant \<Rightarrow> (string \<Rightarrow> string option) \<Rightarrow> bool" where
  "holds_snapshot inp core audit now fs \<longleftrightarrow>
     fs (rc_join S (bi_outputDirectory inp) ''core.ndjson.gz'') = Some (rc_gzip S (deterministicLines S core))
     \<and> fs (rc_join S (bi_outputDirectory inp) ''audit.ndjson.gz'') = Some (rc_gzip S (deterministicLines S audit))
     \<and> fs (rc_join S (bi_outputDirectory inp) ''manifest.v1.json'') = Some (stableJson (rc_number S) (backupManifest inp now
          (backupFile ''core.ndjson.gz'' (length core) (checksum S (rc_gzip S (deterministicLines S core))))
          (backupFile ''audit.ndjson.gz'' (length audit) (checksum S (rc_gzip S (deterministicLines S audit))))) @ [newline])"

lemma names: "simple_name ''core.ndjson.gz''" "simple_name ''audit.ndjson.gz''" "simple_name ''manifest.v1.json''"
  by (simp_all add: simple_name_def)

lemma paths_differ: "simple_name f \<Longrightarrow> simple_name g \<Longrightarrow> f \<noteq> g \<Longrightarrow> rc_join S d f \<noteq> rc_join S d g"
  by (metis segment_law)

lemma writeGzip_run:
  assumes "simple_name f"
  shows "\<exists>w'. writeGzip S (rc_join S d f) xs w
       = (Inr (backupFile f (length xs) (checksum S (rc_gzip S (deterministicLines S xs)))), w')
     \<and> rows w' = rows w \<and> files w' = (files w)(rc_join S d f \<mapsto> rc_gzip S (deterministicLines S xs))"
  using write_law [of "rc_join S d f" "rc_gzip S (deterministicLines S xs)" w] segment_law [OF assms, of d]
  by (auto simp: writeGzip_def bindM_def returnM_def Let_def)

lemma writeSnapshot_run:
  "\<exists>m now w'. writeSnapshot S inp core audit w = (Inr (rc_join S (bi_outputDirectory inp) ''manifest.v1.json'', m), w')
     \<and> rows w' = rows w \<and> holds_snapshot inp core audit now (files w')"
proof -
  let ?d = "bi_outputDirectory inp"
  obtain w1 where c: "writeGzip S (rc_join S ?d ''core.ndjson.gz'') core w
      = (Inr (backupFile ''core.ndjson.gz'' (length core) (checksum S (rc_gzip S (deterministicLines S core)))), w1)"
    "rows w1 = rows w" "files w1 = (files w)(rc_join S ?d ''core.ndjson.gz'' \<mapsto> rc_gzip S (deterministicLines S core))"
    using writeGzip_run [OF names(1)] by blast
  obtain w2 where a: "writeGzip S (rc_join S ?d ''audit.ndjson.gz'') audit w1
      = (Inr (backupFile ''audit.ndjson.gz'' (length audit) (checksum S (rc_gzip S (deterministicLines S audit)))), w2)"
    "rows w2 = rows w1" "files w2 = (files w1)(rc_join S ?d ''audit.ndjson.gz'' \<mapsto> rc_gzip S (deterministicLines S audit))"
    using writeGzip_run [OF names(2)] by blast
  define now where "now = (case bi_now inp of None \<Rightarrow> rc_now S w2 | Some t \<Rightarrow> t)"
  define text_of where "text_of = stableJson (rc_number S) (backupManifest inp now
          (backupFile ''core.ndjson.gz'' (length core) (checksum S (rc_gzip S (deterministicLines S core))))
          (backupFile ''audit.ndjson.gz'' (length audit) (checksum S (rc_gzip S (deterministicLines S audit))))) @ [newline]"
  obtain w3 where m: "rc_writeFile S (rc_join S ?d ''manifest.v1.json'') text_of w2 = (Inr (), w3)" "rows w3 = rows w2"
    "files w3 = (files w2)(rc_join S ?d ''manifest.v1.json'' \<mapsto> text_of)"
    using write_law by blast
  have "rc_join S ?d ''core.ndjson.gz'' \<noteq> rc_join S ?d ''audit.ndjson.gz''"
    "rc_join S ?d ''core.ndjson.gz'' \<noteq> rc_join S ?d ''manifest.v1.json''"
    "rc_join S ?d ''audit.ndjson.gz'' \<noteq> rc_join S ?d ''manifest.v1.json''"
    by (intro paths_differ names; simp)+
  with c a m have "holds_snapshot inp core audit now (files w3)" by (simp add: holds_snapshot_def text_of_def)
  moreover have "\<exists>mf. writeSnapshot S inp core audit w = (Inr (rc_join S ?d ''manifest.v1.json'', mf), w3)"
    using c(1) a(1) m(1) by (simp add: writeSnapshot_def bindM_def readM_def returnM_def Let_def now_def text_of_def)
  moreover have "rows w3 = rows w" using c a m by simp
  ultimately show ?thesis by blast
qed

lemma same_field:
  assumes "same_value u v" and "json_get v k = Some x"
  obtains y where "json_get u k = Some y" and "same_value y x"
  using same_get [OF assms(1), of k] assms(2) that by (cases "json_get u k") (auto simp: same_value_def)

lemma same_leaf [simp]: "same_value y (JStr s) \<longleftrightarrow> y = JStr s" "same_value y (JNum q) \<longleftrightarrow> y = JNum q"
  by (simp_all add: same_value_def)

lemma restore_file:
  assumes f: "simple_name f" and "same_value e (backupFile f (length xs) (checksum S (rc_gzip S (deterministicLines S xs))))"
    and "files w (rc_join S d f) = Some (rc_gzip S (deterministicLines S xs))"
    and "\<forall>x \<in> set xs. safe_value x \<and> in_snapshot S tenant x \<and> distinct_keys x" and m: "simple_name m"
  shows "snapshotPath S (rc_dirname S (rc_join S d m)) (Some e) = Inr (rc_join S d f)"
    and "\<exists>us w'. readSnapshotFile S (rc_join S d f) (Some e) w = (Inr us, w') \<and> rows w' = rows w \<and> files w' = files w
     \<and> list_all2 same_value us (sorted_items S xs)"
proof -
  let ?b = "backupFile f (length xs) (checksum S (rc_gzip S (deterministicLines S xs)))"
  have b: "json_get ?b ''file'' = Some (JStr f)" "json_get ?b ''recordCount'' = Some (JNum (of_nat (length xs)))"
    "json_get ?b ''sha256'' = Some (JStr (checksum S (rc_gzip S (deterministicLines S xs))))"
    by (simp_all add: backupFile_def)
  have e: "get_in (Some e) ''file'' = Some (JStr f)" "get_in (Some e) ''recordCount'' = Some (JNum (of_nat (length xs)))"
    "get_in (Some e) ''sha256'' = Some (JStr (checksum S (rc_gzip S (deterministicLines S xs))))"
    using same_field [OF assms(2) b(1)] same_field [OF assms(2) b(2)] same_field [OF assms(2) b(3)]
    by (auto simp: get_in_def)
  show "snapshotPath S (rc_dirname S (rc_join S d m)) (Some e) = Inr (rc_join S d f)"
    by (simp add: snapshotPath_def e dirname_law [OF m])
  show "\<exists>us w'. readSnapshotFile S (rc_join S d f) (Some e) w = (Inr us, w') \<and> rows w' = rows w \<and> files w' = files w
     \<and> list_all2 same_value us (sorted_items S xs)"
    by (rule readSnapshotFile_run [OF assms(3) e(3,2)]) (use assms(4) in \<open>auto simp: in_snapshot_def\<close>)
qed

lemma list_all2_left: "list_all2 P xs ys \<Longrightarrow> x \<in> set xs \<Longrightarrow> \<exists>y \<in> set ys. P x y"
  by (induction xs ys rule: list_all2_induct) auto

lemma restored_rows:
  assumes "list_all2 same_value us (sorted_items S xs)" and "distinct (map item_key xs)"
  shows "fresh_items [] us" and "mset (map normal us) = mset (map normal xs)"
proof -
  have "map item_key us = map item_key (sorted_items S xs)"
    using assms(1) by (auto simp: list_all2_conv_all_nth same_item_key intro!: nth_equalityI)
  then have "mset (map item_key us) = mset (map item_key xs)" by simp
  with assms(2) show "fresh_items [] us" by (metis append_Nil fresh_items_def mset_eq_imp_distinct_iff)
  have "map normal us = map normal (sorted_items S xs)"
    using assms(1) by (auto simp: list_all2_conv_all_nth same_value_def intro!: nth_equalityI)
  then show "mset (map normal us) = mset (map normal xs)" by simp
qed

lemma restoreItems_run:
  assumes "ri_coreTableName ri \<noteq> ri_auditTableName ri"
    and "rows w (ri_coreTableName ri) = []" and "rows w (ri_auditTableName ri) = []"
    and "\<forall>x \<in> set (core @ audit). belongsToTenant S x (tenant_of m)"
    and "fresh_items [] core" and "fresh_items [] audit"
  shows "\<exists>r w'. restoreItems S ri m core audit w = (r, w')
     \<and> (\<forall>x. r = Inr x \<longrightarrow> mset (rows w' (ri_coreTableName ri)) = mset core \<and> mset (rows w' (ri_auditTableName ri)) = mset audit)
     \<and> (takes_four S rows \<longrightarrow> r = Inr m)"
proof -
  obtain w1 where 1: "assertEmpty S (ri_coreTableName ri) w = (Inr (), w1)" "rows w1 = rows w"
    using assertEmpty_run [OF assms(2)] by blast
  obtain w2 where 2: "assertEmpty S (ri_auditTableName ri) w1 = (Inr (), w2)" "rows w2 = rows w1"
    using assertEmpty_run [of w1 "ri_auditTableName ri"] 1(2) assms(3) by auto
  obtain x w3 where 3: "batchWrite S (ri_coreTableName ri) core w2 = (x, w3)"
    by (cases "batchWrite S (ri_coreTableName ri) core w2")
  have core_law: "(x = Inr () \<longrightarrow> mset (rows w3 (ri_coreTableName ri)) = mset core \<and> rows w3 (ri_auditTableName ri) = [])
      \<and> (takes_four S rows \<longrightarrow> x = Inr ())"
    using batchWrite_law [OF _ 3] 1 2 assms by auto
  obtain y w4 where 4: "batchWrite S (ri_auditTableName ri) audit w3 = (y, w4)"
    by (cases "batchWrite S (ri_auditTableName ri) audit w3")
  have audit_law: "(y = Inr () \<longrightarrow> mset (rows w4 (ri_auditTableName ri)) = mset audit
        \<and> rows w4 (ri_coreTableName ri) = rows w3 (ri_coreTableName ri)) \<and> (takes_four S rows \<longrightarrow> y = Inr ())" if "x = Inr ()"
    using batchWrite_law [OF _ 4] that core_law assms by auto
  have "list_all (\<lambda>x. belongsToTenant S x (tenant_of m)) (core @ audit)" using assms(4) by (simp add: list_all_iff)
  then show ?thesis
    using 1 2 3 core_law 4 audit_law by (auto simp: restoreItems_def bindM_def returnM_def split: sum.splits)
qed

lemma restore_run:
  assumes held: "holds_snapshot inp core audit now (files w)"
    and tenant: "bi_tenantId inp \<noteq> []"
    and items: "\<forall>x \<in> set (core @ audit). safe_value x \<and> in_snapshot S (bi_tenantId inp) x \<and> distinct_keys x"
    and keys: "distinct (map item_key core)" "distinct (map item_key audit)"
    and checks: "restore_checks ri = Inr ()" "ri_coreTableName ri \<noteq> ri_auditTableName ri"
    and path: "ri_manifestPath ri = rc_join S (bi_outputDirectory inp) ''manifest.v1.json''"
    and empty: "rows w (ri_coreTableName ri) = []" "rows w (ri_auditTableName ri) = []"
  shows "\<exists>r w'. restoreBackup S ri w = (r, w')
     \<and> (\<forall>m. r = Inr m \<longrightarrow> mset (map normal (rows w' (ri_coreTableName ri))) = mset (map normal core)
          \<and> mset (map normal (rows w' (ri_auditTableName ri))) = mset (map normal audit))
     \<and> (takes_four S rows \<longrightarrow> (\<exists>m. r = Inr m))"
proof -
  let ?d = "bi_outputDirectory inp"
  let ?c = "backupFile ''core.ndjson.gz'' (length core) (checksum S (rc_gzip S (deterministicLines S core)))"
  let ?a = "backupFile ''audit.ndjson.gz'' (length audit) (checksum S (rc_gzip S (deterministicLines S audit)))"
  let ?m = "backupManifest inp now ?c ?a"
  have "distinct_keys ?m" by (simp add: backupManifest_def backupFile_def)
  then obtain m where m: "rc_parse S (stableJson (rc_number S) ?m @ [newline]) = Inr m" "same_value m ?m"
    using parse_law by blast
  obtain w1 where w1: "rc_readFile S (ri_manifestPath ri) w = (Inr (stableJson (rc_number S) ?m @ [newline]), w1)"
    "rows w1 = rows w" "files w1 = files w"
    using held read_law unfolding path holds_snapshot_def by blast
  have fields: "json_get ?m ''version'' = Some (JNum 1)" "json_get ?m ''kind'' = Some (JStr ''pirh-recovery-snapshot'')"
    "json_get ?m ''tenantId'' = Some (JStr (bi_tenantId inp))"
    "json_get ?m ''files'' = Some (JObj [(''core'', ?c), (''audit'', ?a)])"
    by (simp_all add: backupManifest_def)
  obtain fs where fs: "json_get m ''files'' = Some fs" "same_value fs (JObj [(''core'', ?c), (''audit'', ?a)])"
    by (rule same_field [OF m(2) fields(4)])
  have inner: "json_get (JObj [(''core'', ?c), (''audit'', ?a)]) ''core'' = Some ?c"
    "json_get (JObj [(''core'', ?c), (''audit'', ?a)]) ''audit'' = Some ?a" by simp_all
  obtain c where c: "json_get fs ''core'' = Some c" "same_value c ?c" by (rule same_field [OF fs(2) inner(1)])
  obtain a where a: "json_get fs ''audit'' = Some a" "same_value a ?a" by (rule same_field [OF fs(2) inner(2)])
  have objects: "\<exists>gs. y = JObj gs" if "same_value y (backupFile f n h)" for y f n h
    using that by (cases y) (auto simp: same_value_def backupFile_def)
  have m_fields: "json_get m ''version'' = Some (JNum 1)" "json_get m ''kind'' = Some (JStr ''pirh-recovery-snapshot'')"
    "json_get m ''tenantId'' = Some (JStr (bi_tenantId inp))"
    using same_field [OF m(2) fields(1)] same_field [OF m(2) fields(2)] same_field [OF m(2) fields(3)] by auto
  have parsed: "parseManifest m = Inr m"
    using m_fields fs(1) c(1) a(1) objects [OF c(2)] objects [OF a(2)] tenant
    by (auto simp: parseManifest_def throw_if_def get_in_def)
  have held_files: "files w1 (rc_join S ?d ''core.ndjson.gz'') = Some (rc_gzip S (deterministicLines S core))"
    "files w1 (rc_join S ?d ''audit.ndjson.gz'') = Some (rc_gzip S (deterministicLines S audit))"
    using held w1(3) by (simp_all add: holds_snapshot_def)
  have good: "\<forall>x \<in> set core. safe_value x \<and> in_snapshot S (bi_tenantId inp) x \<and> distinct_keys x"
    "\<forall>x \<in> set audit. safe_value x \<and> in_snapshot S (bi_tenantId inp) x \<and> distinct_keys x"
    using items by simp_all
  note core_file = restore_file [OF names(1) c(2) held_files(1) good(1) names(3)]
  from core_file(2) obtain us w2 where us: "readSnapshotFile S (rc_join S ?d ''core.ndjson.gz'') (Some c) w1 = (Inr us, w2)"
    "rows w2 = rows w1" "files w2 = files w1" "list_all2 same_value us (sorted_items S core)" by blast
  have "files w2 (rc_join S ?d ''audit.ndjson.gz'') = Some (rc_gzip S (deterministicLines S audit))"
    using held_files(2) us(3) by simp
  note audit_file = restore_file [OF names(2) a(2) this good(2) names(3)]
  from audit_file(2) obtain vs w3 where vs: "readSnapshotFile S (rc_join S ?d ''audit.ndjson.gz'') (Some a) w2 = (Inr vs, w3)"
    "rows w3 = rows w2" "list_all2 same_value vs (sorted_items S audit)" by blast
  have belongs: "\<forall>x \<in> set ys. belongsToTenant S x (tenant_of m)"
    if "list_all2 same_value ys (sorted_items S xs)" "\<forall>x \<in> set xs. in_snapshot S (bi_tenantId inp) x" for ys xs
  proof
    fix x
    assume "x \<in> set ys"
    with that(1) obtain y where "y \<in> set (sorted_items S xs)" "same_value x y"
      by (rule list_all2_left [THEN bexE])
    then show "belongsToTenant S x (tenant_of m)"
      using that(2) same_tenant [of x y S "bi_tenantId inp"] m_fields(3) by (simp add: tenant_of_def in_snapshot_def)
  qed
  have "\<forall>x \<in> set (us @ vs). belongsToTenant S x (tenant_of m)"
    using belongs [OF us(4)] belongs [OF vs(3)] good by auto
  from restoreItems_run [where w = w3, OF checks(2) _ _ this restored_rows(1) [OF us(4) keys(1)] restored_rows(1) [OF vs(3) keys(2)]]
  obtain r w4 where w4: "restoreItems S ri m us vs w3 = (r, w4)"
    "\<forall>x. r = Inr x \<longrightarrow> mset (rows w4 (ri_coreTableName ri)) = mset us \<and> mset (rows w4 (ri_auditTableName ri)) = mset vs"
    "takes_four S rows \<longrightarrow> r = Inr m"
    using empty vs(2) us(2) w1(2) by auto
  have "restoreBackup S ri w = (r, w4)"
    using checks w1(1) m(1) parsed us(1) vs(1) w4(1) core_file(1) audit_file(1) fs(1) c(1) a(1)
    by (simp add: restoreBackup_def bindM_def liftM_def Let_def get_in_def path)
  moreover have "mset (map normal (rows w4 (ri_coreTableName ri))) = mset (map normal core)
      \<and> mset (map normal (rows w4 (ri_auditTableName ri))) = mset (map normal audit)" if "r = Inr x" for x
    using w4(2) that restored_rows(2) [OF us(4) keys(1)] restored_rows(2) [OF vs(3) keys(2)] by simp
  ultimately show ?thesis using w4(3) by blast
qed

lemma backup_run:
  assumes "\<forall>t \<in> {bi_coreTableName inp, bi_auditTableName inp}. \<forall>x \<in> set (rows w t).
     in_snapshot S (bi_tenantId inp) x \<longrightarrow> safe_value x"
  shows "\<exists>m now w'. createBackup S inp w = Some (Inr (rc_join S (bi_outputDirectory inp) ''manifest.v1.json'', m), w')
     \<and> rows w' = rows w
     \<and> holds_snapshot inp (filter (in_snapshot S (bi_tenantId inp)) (rows w (bi_coreTableName inp)))
          (filter (in_snapshot S (bi_tenantId inp)) (rows w (bi_auditTableName inp))) now (files w')"
proof -
  obtain w1 where 1: "rc_mkdir S (bi_outputDirectory inp) w = (Inr (), w1)" "rows w1 = rows w"
    using mkdir_answers mkdir_law by blast
  obtain w2 where 2: "scanTenant S (bi_coreTableName inp) (bi_tenantId inp) w1
      = Some (Inr (filter (in_snapshot S (bi_tenantId inp)) (rows w (bi_coreTableName inp))), w2)" "rows w2 = rows w"
    by (rule scan_answer [of w1 "bi_coreTableName inp"]) (use assms 1(2) in auto)
  obtain w3 where 3: "scanTenant S (bi_auditTableName inp) (bi_tenantId inp) w2
      = Some (Inr (filter (in_snapshot S (bi_tenantId inp)) (rows w (bi_auditTableName inp))), w3)" "rows w3 = rows w"
    by (rule scan_answer [of w2 "bi_auditTableName inp"]) (use assms 2(2) in auto)
  show ?thesis
    using writeSnapshot_run [of inp "filter (in_snapshot S (bi_tenantId inp)) (rows w (bi_coreTableName inp))"
        "filter (in_snapshot S (bi_tenantId inp)) (rows w (bi_auditTableName inp))" w3] 1 2 3
    by (auto simp: createBackup_def)
qed

end

section \<open>A host in memory\<close>

text \<open>
  Tables and files in memory: pages of two items, batches of which four items are taken, files kept uncompressed, numbers
  in unary.
\<close>

record rec_world =
  rw_tables :: "string \<Rightarrow> json list"
  rw_files :: "string \<Rightarrow> string option"

definition start_index :: "json option \<Rightarrow> nat" where
  "start_index k = (case k of Some (JNum q) \<Rightarrow> nat \<lfloor>q\<rfloor> | _ \<Rightarrow> 0)"

definition mem_scan :: "string \<Rightarrow> json option \<Rightarrow> (rec_world, json list \<times> json option) op" where
  "mem_scan t k w = (let n = start_index k; xs = rw_tables w t
     in (Inr (take 2 (drop n xs), if n + 2 < length xs then Some (JNum (of_nat (n + 2))) else None), w))"

definition mem_batch :: "string \<Rightarrow> json list \<Rightarrow> (rec_world, json list) op" where
  "mem_batch t items w = (Inr (drop 4 items), w\<lparr>rw_tables := (rw_tables w)(t := rw_tables w t @ take 4 items)\<rparr>)"

definition mem_read :: "string \<Rightarrow> (rec_world, string) op" where
  "mem_read f w = ((case rw_files w f of None \<Rightarrow> Inl (ServiceError ''ENOENT'') | Some c \<Rightarrow> Inr c), w)"

definition mem_write_file :: "string \<Rightarrow> string \<Rightarrow> (rec_world, unit) op" where
  "mem_write_file f c w = (Inr (), w\<lparr>rw_files := (rw_files w)(f \<mapsto> c)\<rparr>)"

definition path_join :: "string \<Rightarrow> string \<Rightarrow> string" where
  "path_join d f = d @ ''/'' @ f"

definition path_dirname :: "string \<Rightarrow> string" where
  "path_dirname p = rev (drop 1 (dropWhile (\<lambda>c. c \<noteq> CHR ''/'') (rev p)))"

definition mem_parse :: "string \<Rightarrow> js_error + json" where
  "mem_parse s = (case read_json read_unary (if s \<noteq> [] \<and> last s = newline then butlast s else s) of
      None \<Rightarrow> Inl (ServiceError ''SyntaxError'')
    | Some v \<Rightarrow> Inr v)"

definition mem_recovery :: "rec_world recovery_services" where
  "mem_recovery = \<lparr>rc_scan = mem_scan, rc_scanLimit1 = (\<lambda>t w. (Inr (take 1 (rw_tables w t)), w)),
     rc_batchWrite = mem_batch, rc_readFile = mem_read, rc_writeFile = mem_write_file, rc_mkdir = (\<lambda>d. returnM ()),
     rc_now = (\<lambda>w. 0), rc_join = path_join, rc_dirname = path_dirname, rc_gzip = (\<lambda>s. s), rc_gunzip = Inr,
     rc_sha256 = sample_sha256, rc_number = unary, rc_parse = mem_parse, rc_precedes = (\<le>)\<rparr>"

lemma sort_key_idem: "sort_key fst (sort_key fst (xs :: (string \<times> 'v) list)) = sort_key fst xs"
  by (rule sort_key_id_if_sorted) simp

lemma normal_idem: "normal (normal v) = normal v"
proof (induction v)
  case (JArr xs)
  then show ?case by simp
next
  case (JObj fs)
  then have "map (\<lambda>(k, v). (k, normal v)) (map (\<lambda>(k, v). (k, normal v)) fs) = map (\<lambda>(k, v). (k, normal v)) fs"
    by (auto simp: snds.simps)
  then show ?case by (simp only: normal.simps sort_map_snd [symmetric] sort_key_idem)
qed simp_all

lemma mem_parse_stable:
  assumes "u \<in> {[], [newline]}"
  shows "mem_parse (stableJson unary v @ u) = Inr (normal v)"
proof -
  have last: "stableJson unary v \<noteq> []" "last (stableJson unary v) \<noteq> newline"
    using render_last [OF unary_prints, of "normal v"] by (auto simp: stable_render is_white_def newline_def)
  have "read_json read_unary (stableJson unary v) = Some (normal v)" by (rule read_stable [OF unary_reads])
  with assms last show ?thesis by (auto simp: mem_parse_def)
qed

lemma dirname_join: "simple_name f \<Longrightarrow> path_dirname (path_join d f) = d"
proof -
  assume "simple_name f"
  then have "\<forall>c \<in> set (rev f). c \<noteq> CHR ''/''" by (auto simp: simple_name_def)
  then have "dropWhile (\<lambda>c. c \<noteq> CHR ''/'') (rev f @ CHR ''/'' # rev d) = CHR ''/'' # rev d"
    by (subst dropWhile_append2) auto
  then show ?thesis by (simp add: path_dirname_def path_join_def)
qed

lemma last_split: "CHR ''/'' \<notin> set f \<Longrightarrow> last (split_on CHR ''/'' (d @ CHR ''/'' # f)) = f"
proof (induction d)
  case Nil
  then show ?case by (simp add: split_on_miss)
next
  case (Cons c d)
  obtain p ps where "split_on CHR ''/'' (d @ CHR ''/'' # f) = p # ps" by (cases "split_on CHR ''/'' (d @ CHR ''/'' # f)") auto
  moreover have "length (split_on CHR ''/'' (d @ CHR ''/'' # f)) \<ge> 2"
    by (induction d) (auto split: list.split simp: Suc_le_eq)
  ultimately show ?case using Cons by (auto split: list.split)
qed

interpretation mem_host: recovery_host mem_recovery rw_tables rw_files
    "\<lambda>xs k. drop (start_index k) xs" "\<lambda>xs k. length xs - start_index k"
proof
  show "drop (start_index None) xs = xs" for xs by (simp add: start_index_def)
  show "rw_tables w' = rw_tables w \<and> rw_files w' = rw_files w
      \<and> (\<forall>page key. r = Inr (page, key) \<longrightarrow>
          drop (start_index k) (rw_tables w t) = page @ (case key of None \<Rightarrow> []
            | Some k' \<Rightarrow> drop (start_index (Some k')) (rw_tables w t))
          \<and> (\<forall>k'. key = Some k' \<longrightarrow> length (rw_tables w t) - start_index (Some k') < length (rw_tables w t) - start_index k))"
    if "rc_scan mem_recovery t k w = (r, w')" for t k w r w'
  proof -
    define n where "n = start_index k"
    have "start_index (Some (JNum (of_nat (n + 2)))) = n + 2" by (simp add: start_index_def)
    moreover have "drop n xs = take 2 (drop n xs) @ drop (n + 2) xs" for xs :: "json list"
      by (metis append_take_drop_id drop_drop add.commute)
    ultimately show ?thesis using that
      by (auto simp: mem_recovery_def mem_scan_def Let_def n_def [symmetric] split: if_splits)
  qed
  show "rw_tables w' = rw_tables w \<and> rw_files w' = rw_files w" if "rc_mkdir mem_recovery d w = (u, w')" for d w u w'
    using that by (simp add: mem_recovery_def returnM_def)
  show "\<exists>x w'. rc_scan mem_recovery t k w = (Inr x, w')" for t k w
    by (simp add: mem_recovery_def mem_scan_def Let_def)
  show "\<exists>w'. rc_mkdir mem_recovery d w = (Inr (), w')" for d w by (simp add: mem_recovery_def returnM_def)
  show "\<exists>w'. rc_writeFile mem_recovery f c w = (Inr (), w') \<and> rw_tables w' = rw_tables w
      \<and> rw_files w' = (rw_files w)(f \<mapsto> c)" for f c w
    by (simp add: mem_recovery_def mem_write_file_def)
  show "\<exists>w'. rc_readFile mem_recovery f w = (Inr c, w') \<and> rw_tables w' = rw_tables w \<and> rw_files w' = rw_files w"
    if "rw_files w f = Some c" for f c w
    using that by (simp add: mem_recovery_def mem_read_def)
  show "\<exists>w'. rc_scanLimit1 mem_recovery t w = (Inr (take 1 (rw_tables w t)), w') \<and> rw_tables w' = rw_tables w
      \<and> rw_files w' = rw_files w" for t w
    by (simp add: mem_recovery_def)
  show "mset un \<subseteq># mset items \<and> mset (rw_tables w' t @ un) = mset (rw_tables w t @ items)
      \<and> (\<forall>u. u \<noteq> t \<longrightarrow> rw_tables w' u = rw_tables w u)"
    if "rc_batchWrite mem_recovery t items w = (Inr un, w')" for items un t w w'
  proof -
    have un: "un = drop 4 items" "rw_tables w' = (rw_tables w)(t := rw_tables w t @ take 4 items)"
      using that by (auto simp: mem_recovery_def mem_batch_def)
    have "mset items = mset (take 4 items) + mset (drop 4 items)" by (metis append_take_drop_id mset_append)
    then show ?thesis by (simp add: un)
  qed
  show "rc_gunzip mem_recovery (rc_gzip mem_recovery s) = Inr s" for s by (simp add: mem_recovery_def)
  show "rc_join mem_recovery (rc_dirname mem_recovery (rc_join mem_recovery d f)) g = rc_join mem_recovery d g"
    if "simple_name f" for d f g
    using that by (simp add: mem_recovery_def dirname_join)
  show "last_segment (rc_join mem_recovery d f) = f" if "simple_name f" for d f
    using that by (simp add: mem_recovery_def last_segment_def path_join_def last_split simple_name_def)
  show "prints_numbers (rc_number mem_recovery)" by (simp add: mem_recovery_def unary_prints)
  show "\<exists>x. rc_parse mem_recovery (stableJson (rc_number mem_recovery) v @ u) = Inr x \<and> same_value x v"
    if "u \<in> {[], [newline]}" for u v
    using mem_parse_stable [OF that] by (simp add: mem_recovery_def same_value_def normal_idem)
qed

lemma mem_takes_four: "takes_four mem_recovery rw_tables"
  by (auto simp: takes_four_def mem_recovery_def mem_batch_def)

section \<open>Credentials\<close>

text \<open>The scalars of a value with the keys on the way to them.\<close>

fun leaves :: "json \<Rightarrow> (string list \<times> json) list" where
  "leaves (JArr xs) = concat (map leaves xs)"
| "leaves (JObj fs) = concat (map (\<lambda>(k, v). map (\<lambda>(p, s). (k # p, s)) (leaves v)) fs)"
| "leaves v = [([], v)]"

lemma leaves_field:
  "(p, s) \<in> set (leaves (JObj fs)) \<longleftrightarrow> (\<exists>k v q. (k, v) \<in> set fs \<and> p = k # q \<and> (q, s) \<in> set (leaves v))"
  by (auto split: prod.splits) force+

lemma plain_keys:
  "list_all (\<lambda>k. \<not> credentialKey k)
     [''requestheadersredacted'', ''reference'', ''state'', ''activatedAt'', ''graceExpiresAt'', ''name'', ''version'']"
  "list_all referenceKey [''secretversion'', ''secretversions'']"
  by code_simp+

lemma key_case: "credentialKey (toLower k) = credentialKey k" "referenceKey (toLower k) = referenceKey k"
  by (simp_all add: credentialKey_def referenceKey_def)

lemma headers_leaf:
  assumes "hasOnlyRedactedSensitiveHeaders v" and "(p, s) \<in> set (leaves v)" and "k \<in> set p" and "credentialKey k"
  shows "s = JStr ''[REDACTED]''"
proof -
  obtain fs where v: "v = JObj fs" using assms(1) by (cases v) auto
  obtain n u q where f: "(n, u) \<in> set fs" "p = n # q" "(q, s) \<in> set (leaves u)"
    using assms(2) unfolding v leaves_field by blast
  from assms(1) f(1) v obtain h where h: "u = JStr h" "\<not> credentialKey n \<or> h = ''[REDACTED]''"
    by (auto simp: list_all_iff split: json.splits)
  with f assms(3,4) show ?thesis by auto
qed

lemma string_leaf: "is_string (Some u) \<Longrightarrow> (q, s) \<in> set (leaves u) \<Longrightarrow> q = []"
  by (cases u) auto

lemma version_leaf:
  assumes "logicalSecretVersion v" and "distinct_keys v" and "(p, s) \<in> set (leaves v)" and "k \<in> set p"
  shows "\<not> credentialKey k"
proof -
  have plain: "\<not> credentialKey n" if "n \<in> {''reference'', ''state'', ''activatedAt'', ''graceExpiresAt'', ''name'', ''version''}" for n
    using that plain_keys(1) by auto
  obtain fs where v: "v = JObj fs" using assms(1) by (cases v) auto
  from assms(1) v obtain rs where rs: "map_of fs ''reference'' = Some (JObj rs)"
    and keys: "only_keys [''reference'', ''state'', ''activatedAt'', ''graceExpiresAt''] fs" "only_keys [''name'', ''version''] rs"
    and names: "is_string (map_of rs ''name'')" "is_string (map_of rs ''version'')"
    and others: "map_of fs ''state'' \<in> {Some (JStr ''active''), Some (JStr ''grace'')}" "is_string (map_of fs ''activatedAt'')"
      "map_of fs ''graceExpiresAt'' = None \<or> is_string (map_of fs ''graceExpiresAt'')"
    by (auto split: option.splits json.splits)
  obtain n u q where f: "(n, u) \<in> set fs" "p = n # q" "(q, s) \<in> set (leaves u)"
    using assms(3) unfolding v leaves_field by blast
  have n: "n \<in> {''reference'', ''state'', ''activatedAt'', ''graceExpiresAt''}"
    using keys(1) f(1) by (auto simp: only_keys_def list_all_iff)
  have u: "map_of fs n = Some u" using assms(2) f(1) v by simp
  show ?thesis
  proof (cases "n = ''reference''")
    case False
    with n u others have "is_string (Some u)" by auto
    then have "q = []" using f(3) by (rule string_leaf)
    with f(2) assms(4) plain n show ?thesis by auto
  next
    case True
    with u rs have ur: "u = JObj rs" by simp
    obtain m x r where g: "(m, x) \<in> set rs" "q = m # r" "(r, s) \<in> set (leaves x)"
      using f(3) unfolding ur leaves_field by blast
    have m: "m \<in> {''name'', ''version''}" using keys(2) g(1) by (auto simp: only_keys_def list_all_iff)
    have "list_all (\<lambda>(k, v). distinct_keys v) fs" using assms(2) v by simp
    then have "distinct_keys u" using f(1) by (auto simp: list_all_iff)
    then have "map_of rs m = Some x" using g(1) ur by simp
    with m names have "is_string (Some x)" by auto
    then have "r = []" using g(3) by (rule string_leaf)
    with f(2) g(2) assms(4) plain n m show ?thesis by auto
  qed
qed

lemma safe_leaf:
  assumes "safe_value v" and "distinct_keys v" and "(p, s) \<in> set (leaves v)" and "k \<in> set p"
    and "credentialKey k" and "\<not> referenceKey k"
  shows "s = JStr ''[REDACTED]''"
  using assms(1-4)
proof (induction v arbitrary: p)
  case (JArr xs)
  then show ?case by (auto simp: list_all_iff)
next
  case (JObj fs)
  obtain n u q where f: "(n, u) \<in> set fs" "p = n # q" "(q, s) \<in> set (leaves u)"
    using JObj.prems(3) unfolding leaves_field by blast
  have "list_all (\<lambda>(k, v). distinct_keys v) fs" using JObj.prems(2) by simp
  then have dist: "distinct_keys u" using f(1) by (auto simp: list_all_iff)
  have field: "safe_field n u (safe_value u)" using JObj.prems(1) f(1) by (auto simp: list_all_iff)
  consider (headers) "redacted_headers_field n u" | (versions) "\<not> redacted_headers_field n u" "secret_versions_key n"
    | (other) "\<not> redacted_headers_field n u" "\<not> secret_versions_key n" by blast
  then show ?case
  proof cases
    case headers
    then have "\<not> credentialKey n"
      using plain_keys(1) key_case(1) [of n] by (auto simp: redacted_headers_field_def)
    with headers f JObj.prems(4) assms(5) show ?thesis
      using headers_leaf [of u q s k] by (auto simp: redacted_headers_field_def)
  next
    case versions
    then have "referenceKey n" using plain_keys(2) key_case(2) [of n] by (auto simp: secret_versions_key_def)
    then have "k \<in> set q" using f(2) JObj.prems(4) assms(6) by auto
    moreover have "hasOnlyLogicalSecretVersions u" using field versions by (simp add: safe_field_simps)
    ultimately show ?thesis
      using f(3) version_leaf [of _ q s k] dist assms(5) by (cases u) (auto simp: list_all_iff)
  next
    case other
    then have "credentialKey n \<longrightarrow> referenceKey n" "safe_value u" using field by (simp_all add: safe_field_simps)
    then have "k \<in> set q" using f(2) JObj.prems(4) assms(5,6) by auto
    then show ?thesis using JObj.IH [of "(n, u)" u q] f dist \<open>safe_value u\<close> by (simp add: snds.simps)
  qed
qed auto

section \<open>Properties\<close>

definition sample_event_row :: json where
  "sample_event_row = JObj [(''SK'', JStr ''ATTEMPT#1''), (''PK'', JStr ''TENANT#t1#EVENT#e1''), (''tenantId'', JStr ''t1''),
     (''entityType'', JStr ''ATTEMPT''), (''responseStatus'', JNum 200),
     (''requestHeadersRedacted'', JObj [(''X-Api-Key'', JStr ''[REDACTED]''), (''content-type'', JStr ''json'')])]"

definition sample_rows :: "json list" where
  "sample_rows = [sample_event_row,
     JObj [(''PK'', JStr ''TENANT#t1#SECRET#a''), (''SK'', JStr ''V1''), (''entityType'', JStr ''LOCAL_SECRET''), (''value'', JStr ''hush'')],
     JObj [(''PK'', JStr ''TENANT#t2#EVENT#e2''), (''SK'', JStr ''EVENT''), (''tenantId'', JStr ''t2''), (''apiKey'', JStr ''k'')]]"

definition sample_backup :: backup_input where
  "sample_backup = \<lparr>bi_environment = ''local'', bi_tenantId = ''t1'', bi_outputDirectory = ''out'', bi_coreTableName = ''core'',
     bi_auditTableName = ''audit'', bi_now = Some 0\<rparr>"

definition sample_rec_world :: rec_world where
  "sample_rec_world = \<lparr>rw_tables = (\<lambda>t. if t = ''core'' then sample_rows else []), rw_files = Map.empty\<rparr>"

definition sample_restore :: restore_input where
  "sample_restore = \<lparr>ri_manifestPath = ''out/manifest.v1.json'', ri_targetEnvironment = ''restore-test'',
     ri_coreTableName = ''pirh-restore-core'', ri_auditTableName = ''pirh-restore-audit'', ri_allowRestore = True\<rparr>"

lemma sample_snapshot: "filter (in_snapshot mem_recovery ''t1'') sample_rows = [sample_event_row]"
  by (simp add: sample_rows_def sample_event_row_def in_snapshot_def belongsToTenant_def isLocalSecret_def js_String_of_def
      or_empty_def mem_recovery_def)

lemma sample_safe: "safe_value sample_event_row" "distinct_keys sample_event_row"
  by code_simp+

lemma sample_rows_safe:
  "\<forall>t \<in> {bi_coreTableName sample_backup, bi_auditTableName sample_backup}. \<forall>x \<in> set (rw_tables sample_rec_world t).
     in_snapshot mem_recovery (bi_tenantId sample_backup) x \<longrightarrow> safe_value x \<and> distinct_keys x"
proof -
  have "set (filter (in_snapshot mem_recovery ''t1'') sample_rows) = {sample_event_row}" by (simp add: sample_snapshot)
  then have "in_snapshot mem_recovery ''t1'' x \<Longrightarrow> x \<in> set sample_rows \<Longrightarrow> x = sample_event_row" for x by auto
  then show ?thesis using sample_safe by (auto simp: sample_backup_def sample_rec_world_def)
qed

text \<open>
  C23. A backup ends. When every page of a scan leaves less of the table to read, the loop over the pages of the two tables
  returns or throws, whatever rows there are, and so does the backup; and when it succeeds, every row of the tenant was safe.
\<close>

theorem backup_terminates:
  assumes "paged_tables S rows files after left"
  shows "\<exists>r w'. createBackup S inp w = Some (r, w')
     \<and> (r \<in> range Inr \<longrightarrow> (\<forall>t \<in> {bi_coreTableName inp, bi_auditTableName inp}. \<forall>x \<in> set (rows w t).
          in_snapshot S (bi_tenantId inp) x \<longrightarrow> safe_value x))"
  using paged_tables.backup_ends [OF assms, of inp w] by blast

theorem backup_terminates_witness:
  "\<exists>r w'. createBackup mem_recovery sample_backup sample_rec_world = Some (r, w')"
  using backup_terminates [OF mem_host.paged_tables_axioms, of sample_backup sample_rec_world] by blast

text \<open>
  No credential is in a snapshot. When a backup succeeds, a scalar of a row of the snapshot that lies anywhere below a
  key that looks like a credential, and not like a reference to one, is the text \<open>[REDACTED]\<close>.
\<close>

theorem snapshot_hides_credentials:
  assumes "paged_tables S rows files after left" and "createBackup S inp w = Some (Inr m, w')"
    and "t \<in> {bi_coreTableName inp, bi_auditTableName inp}"
    and "x \<in> set (filter (in_snapshot S (bi_tenantId inp)) (rows w t))" and "distinct_keys x"
    and "(p, v) \<in> set (leaves x)" and "k \<in> set p" and "credentialKey k" and "\<not> referenceKey k"
  shows "v = JStr ''[REDACTED]''"
proof -
  have "safe_value x"
    using paged_tables.backup_ends [OF assms(1), of inp w] assms(2-4) by auto
  then show ?thesis using assms(5-9) by (rule safe_leaf)
qed

theorem snapshot_hides_credentials_witness:
  "\<exists>m w'. createBackup mem_recovery sample_backup sample_rec_world = Some (Inr m, w')
     \<and> list_all (\<lambda>(p, v). if list_ex (\<lambda>k. credentialKey k \<and> \<not> referenceKey k) p then v = JStr ''[REDACTED]'' else True)
         (leaves sample_event_row)"
proof -
  obtain m w' where run: "createBackup mem_recovery sample_backup sample_rec_world = Some (Inr m, w')"
    using mem_host.backup_run [of sample_backup sample_rec_world] sample_rows_safe by blast
  have row: "sample_event_row \<in> set (filter (in_snapshot mem_recovery (bi_tenantId sample_backup)) (rw_tables sample_rec_world ''core''))"
    by (simp add: sample_backup_def sample_rec_world_def sample_snapshot del: set_filter)
  have "v = JStr ''[REDACTED]''"
    if "(p, v) \<in> set (leaves sample_event_row)" "k \<in> set p" "credentialKey k" "\<not> referenceKey k" for p v k
    by (rule snapshot_hides_credentials [OF mem_host.paged_tables_axioms run _ row sample_safe(2) that])
       (simp add: sample_backup_def)
  with run show ?thesis by (auto simp: list_all_iff list_ex_iff)
qed

text \<open>
  C24. What is backed up can be restored. When the rows of the tenant are safe, with distinct keys, the backup succeeds; and
  a restoration from its three files into two different empty tables of permitted names that returns has left in them
  exactly the rows of the tenant that are not local secrets, each with the value it had, up to the order of the keys of
  objects. It does return when every call of \<open>BatchWrite\<close> returns and takes at least four of the items that are sent, or
  all of them, so that the eight calls of a batch of 25 are enough; with fewer the restoration may throw.
\<close>

theorem snapshot_restores:
  assumes host: "recovery_host S rows files after left" and tenant: "bi_tenantId inp \<noteq> []"
    and safe: "\<forall>t \<in> {bi_coreTableName inp, bi_auditTableName inp}. \<forall>x \<in> set (rows w t).
      in_snapshot S (bi_tenantId inp) x \<longrightarrow> safe_value x \<and> distinct_keys x"
    and keys: "\<forall>t \<in> {bi_coreTableName inp, bi_auditTableName inp}.
      distinct (map item_key (filter (in_snapshot S (bi_tenantId inp)) (rows w t)))"
  shows "\<exists>path m w1. createBackup S inp w = Some (Inr (path, m), w1)
    \<and> (\<forall>ri w2. files w2 = files w1 \<and> ri_manifestPath ri = path \<and> restore_checks ri = Inr ()
         \<and> ri_coreTableName ri \<noteq> ri_auditTableName ri
         \<and> rows w2 (ri_coreTableName ri) = [] \<and> rows w2 (ri_auditTableName ri) = []
       \<longrightarrow> (\<exists>r w3. restoreBackup S ri w2 = (r, w3)
         \<and> (\<forall>m'. r = Inr m' \<longrightarrow>
             mset (map normal (rows w3 (ri_coreTableName ri)))
               = mset (map normal (filter (in_snapshot S (bi_tenantId inp)) (rows w (bi_coreTableName inp))))
             \<and> mset (map normal (rows w3 (ri_auditTableName ri)))
               = mset (map normal (filter (in_snapshot S (bi_tenantId inp)) (rows w (bi_auditTableName inp)))))
         \<and> (takes_four S rows \<longrightarrow> (\<exists>m'. r = Inr m'))))"
proof -
  from recovery_host.backup_run [OF host, of inp w] safe obtain m now w1
    where run: "createBackup S inp w = Some (Inr (rc_join S (bi_outputDirectory inp) ''manifest.v1.json'', m), w1)"
      and held: "recovery_host.holds_snapshot S inp
        (filter (in_snapshot S (bi_tenantId inp)) (rows w (bi_coreTableName inp)))
        (filter (in_snapshot S (bi_tenantId inp)) (rows w (bi_auditTableName inp))) now (files w1)"
    by blast
  have items: "\<forall>x \<in> set (filter (in_snapshot S (bi_tenantId inp)) (rows w (bi_coreTableName inp))
      @ filter (in_snapshot S (bi_tenantId inp)) (rows w (bi_auditTableName inp))).
      safe_value x \<and> in_snapshot S (bi_tenantId inp) x \<and> distinct_keys x"
    using safe by auto
  show ?thesis
    using run recovery_host.restore_run [OF host _ tenant items] held keys by fastforce
qed

theorem snapshot_restores_witness:
  "\<exists>path m w1 m' w3. createBackup mem_recovery sample_backup sample_rec_world = Some (Inr (path, m), w1)
     \<and> restoreBackup mem_recovery (sample_restore\<lparr>ri_manifestPath := path\<rparr>) (w1\<lparr>rw_tables := (\<lambda>t. [])\<rparr>) = (Inr m', w3)
     \<and> mset (map normal (rw_tables w3 ''pirh-restore-core'')) = {#normal sample_event_row#}
     \<and> rw_tables w3 ''pirh-restore-audit'' = []"
proof -
  have rows: "rw_tables sample_rec_world (bi_coreTableName sample_backup) = sample_rows"
    "rw_tables sample_rec_world (bi_auditTableName sample_backup) = []" "bi_tenantId sample_backup = ''t1''"
    by (simp_all add: sample_rec_world_def sample_backup_def)
  have "\<forall>t \<in> {bi_coreTableName sample_backup, bi_auditTableName sample_backup}.
      distinct (map item_key (filter (in_snapshot mem_recovery (bi_tenantId sample_backup)) (rw_tables sample_rec_world t)))"
    by (simp add: rows sample_snapshot)
  from snapshot_restores [where inp = sample_backup and w = sample_rec_world,
      OF mem_host.recovery_host_axioms _ sample_rows_safe this]
  obtain path m w1 where run: "createBackup mem_recovery sample_backup sample_rec_world = Some (Inr (path, m), w1)"
    and restores: "\<And>ri w2. rw_files w2 = rw_files w1 \<Longrightarrow> ri_manifestPath ri = path \<Longrightarrow> restore_checks ri = Inr ()
       \<Longrightarrow> ri_coreTableName ri \<noteq> ri_auditTableName ri \<Longrightarrow> rw_tables w2 (ri_coreTableName ri) = []
       \<Longrightarrow> rw_tables w2 (ri_auditTableName ri) = []
       \<Longrightarrow> \<exists>m' w3. restoreBackup mem_recovery ri w2 = (Inr m', w3)
         \<and> mset (map normal (rw_tables w3 (ri_coreTableName ri))) = mset (map normal [sample_event_row])
         \<and> mset (map normal (rw_tables w3 (ri_auditTableName ri))) = {#}"
    using mem_takes_four unfolding rows sample_snapshot by (fastforce simp: sample_backup_def)
  have "\<exists>m' w3. restoreBackup mem_recovery (sample_restore\<lparr>ri_manifestPath := path\<rparr>) (w1\<lparr>rw_tables := (\<lambda>t. [])\<rparr>) = (Inr m', w3)
         \<and> mset (map normal (rw_tables w3 ''pirh-restore-core'')) = mset (map normal [sample_event_row])
         \<and> mset (map normal (rw_tables w3 ''pirh-restore-audit'')) = {#}"
    using restores [of "w1\<lparr>rw_tables := (\<lambda>t. [])\<rparr>" "sample_restore\<lparr>ri_manifestPath := path\<rparr>"]
    by (simp add: sample_restore_def restore_checks_def throw_if_def)
  with run show ?thesis by auto
qed

text \<open>
  A batch gets through. When every call takes at least four of the items that are sent, or all of them, the eight calls
  that a batch of 25 has are enough: the write of any number of new items succeeds, and the table then has them all.
\<close>

theorem restore_writes_complete:
  assumes "recovery_host S rows files after left" and "takes_four S rows" and "distinct (map item_key (rows w t @ items))"
  shows "\<exists>w'. batchWrite S t items w = (Inr (), w') \<and> mset (rows w' t) = mset (rows w t @ items)"
proof -
  obtain r w' where run: "batchWrite S t items w = (r, w')" by (cases "batchWrite S t items w")
  have "fresh_items (rows w t) items" using assms(3) by (simp add: fresh_items_def)
  from recovery_host.batchWrite_law [OF assms(1) this run] assms(2) run show ?thesis by auto
qed

definition many_items :: "json list" where
  "many_items = map (\<lambda>n. JObj [(''PK'', JStr (replicate n CHR ''x''))]) [0..<60]"

theorem restore_writes_complete_witness:
  "\<exists>w'. batchWrite mem_recovery ''audit'' many_items sample_rec_world = (Inr (), w') \<and> length (rw_tables w' ''audit'') = 60"
proof -
  have "inj_on (\<lambda>n. item_key (JObj [(''PK'', JStr (replicate n CHR ''x''))])) {0..<60}"
    by (auto simp: inj_on_def item_key_def dest: arg_cong [where f = length])
  then have "distinct (map item_key (rw_tables sample_rec_world ''audit'' @ many_items))"
    by (simp add: many_items_def sample_rec_world_def distinct_map comp_def)
  from restore_writes_complete [where t = "''audit''" and w = sample_rec_world and items = many_items,
      OF mem_host.recovery_host_axioms mem_takes_four this]
  obtain w' where w': "batchWrite mem_recovery ''audit'' many_items sample_rec_world = (Inr (), w')"
    and m: "mset (rw_tables w' ''audit'') = mset (rw_tables sample_rec_world ''audit'' @ many_items)" by blast
  have "length (rw_tables w' ''audit'') = length many_items"
    using arg_cong [OF m, of size] by (simp add: sample_rec_world_def)
  with w' show ?thesis by (simp add: many_items_def)
qed

end
