(* ===== verification/Transformation.thy ===== *)
theory Transformation
  imports Services Js_Text
begin

text \<open>
  The package \<open>packages/transformation\<close> with the schema of a definition in \<open>packages/contracts\<close>: a definition is a list of
  mappings, each of which computes a value of the event and assigns it to a path of the output. A property that an object does
  not have is looked up in \<open>Object.prototype\<close>, so that the values of a run are JSON values and, beside them, the functions that
  all objects inherit and \<open>Object.prototype\<close> itself. A run that changes the prototype of an object or a member of
  \<open>Object.prototype\<close> is followed up to that assignment (\<open>Changes_Prototype\<close>), and not what all other objects see of it.
\<close>

section \<open>Definitions\<close>

datatype transform_kind = UPPERCASE | LOWERCASE | UPPER_SNAKE | ISO_DATE

record operand =
  pd_source :: "string option"
  pd_literal :: "json option"

record enum_map =
  em_values :: "(string \<times> json) list"
  em_default :: "json option"

datatype mapping_rule =
    Direct operand "transform_kind option"
  | Concat "operand list" "string option"
  | Enum_Map string enum_map

record mapping =
  mp_target :: string
  mp_required :: bool
  mp_rule :: mapping_rule

text \<open>\<open>/^\$\.[A-Za-z0-9_.]+$/\<close>\<close>

definition is_alnum :: "char \<Rightarrow> bool" where
  "is_alnum c \<longleftrightarrow> is_digit c \<or> is_upper c \<or> is_lower c"

definition jsonPath :: "string \<Rightarrow> bool" where
  "jsonPath s \<longleftrightarrow> take 2 s = ''$.'' \<and> drop 2 s \<noteq> []
     \<and> list_all (\<lambda>c. is_alnum c \<or> c = CHR ''_'' \<or> c = CHR ''.'') (drop 2 s)"

text \<open>
  The schemas. A field of the wrong shape makes the object fail (\<open>None\<close>); a strict object has no other fields. Every JSON value
  passes \<open>jsonValueSchema\<close>, whose \<open>z.record\<close> leaves properties of the name \<open>__proto__\<close> out of the copy it makes.
\<close>

fun json_value :: "json \<Rightarrow> json" where
  "json_value (JArr xs) = JArr (map json_value xs)"
| "json_value (JObj fs) = JObj (filter (\<lambda>(k, v). k \<noteq> ''__proto__'') (map (\<lambda>(k, v). (k, json_value v)) fs))"
| "json_value v = v"

definition strict_fields :: "string list \<Rightarrow> (string \<times> json) list \<Rightarrow> bool" where
  "strict_fields ks fs = list_all (\<lambda>(k, v). k \<in> set ks) fs"

definition optional :: "(json \<Rightarrow> 'a option) \<Rightarrow> json option \<Rightarrow> 'a option option" where
  "optional f v = (case v of None \<Rightarrow> Some None | Some x \<Rightarrow> map_option Some (f x))"

fun path_value :: "json \<Rightarrow> string option" where
  "path_value (JStr s) = (if jsonPath s then Some s else None)"
| "path_value _ = None"

fun bool_value :: "json \<Rightarrow> bool option" where
  "bool_value (JBool b) = Some b"
| "bool_value _ = None"

fun kind_value :: "json \<Rightarrow> transform_kind option" where
  "kind_value (JStr s) =
     (if s = ''UPPERCASE'' then Some UPPERCASE else if s = ''LOWERCASE'' then Some LOWERCASE
      else if s = ''UPPER_SNAKE'' then Some UPPER_SNAKE else if s = ''ISO_DATE'' then Some ISO_DATE else None)"
| "kind_value _ = None"

fun text_value :: "nat \<Rightarrow> json \<Rightarrow> string option" where
  "text_value n (JStr s) = (if length s \<le> n then Some s else None)"
| "text_value n _ = None"

fun list_values :: "(json \<Rightarrow> 'a option) \<Rightarrow> json list \<Rightarrow> 'a list option" where
  "list_values f [] = Some []"
| "list_values f (x # xs) = (case f x of
      None \<Rightarrow> None
    | Some a \<Rightarrow> map_option (\<lambda>as. a # as) (list_values f xs))"

definition some_operand :: "string option \<Rightarrow> json option \<Rightarrow> operand option" where
  "some_operand source literal =
     (if source = None \<and> literal = None then None else Some \<lparr>pd_source = source, pd_literal = literal\<rparr>)"

fun operand_value :: "json \<Rightarrow> operand option" where
  "operand_value (JObj fs) =
     (if strict_fields [''source'', ''literal''] fs
      then Option.bind (optional path_value (map_of fs ''source''))
             (\<lambda>source. some_operand source (map_option json_value (map_of fs ''literal'')))
      else None)"
| "operand_value _ = None"

definition base_mapping :: "(string \<times> json) list \<Rightarrow> (string \<times> bool) option" where
  "base_mapping fs = Option.bind (Option.bind (map_of fs ''target'') path_value) (\<lambda>target.
     Option.bind (optional bool_value (map_of fs ''required'')) (\<lambda>required.
       Some (target, required = Some True)))"

definition directMapping :: "(string \<times> json) list \<Rightarrow> mapping option" where
  "directMapping fs =
     (if \<not> strict_fields [''target'', ''required'', ''source'', ''literal'', ''transform''] fs then None
      else Option.bind (base_mapping fs) (\<lambda>(target, required).
           Option.bind (optional path_value (map_of fs ''source'')) (\<lambda>source.
           Option.bind (optional kind_value (map_of fs ''transform'')) (\<lambda>how.
           Option.bind (some_operand source (map_option json_value (map_of fs ''literal''))) (\<lambda>operand.
             Some \<lparr>mp_target = target, mp_required = required, mp_rule = Direct operand how\<rparr>)))))"

definition concatMapping :: "(string \<times> json) list \<Rightarrow> mapping option" where
  "concatMapping fs =
     (if \<not> strict_fields [''target'', ''required'', ''transform'', ''parts'', ''separator''] fs
         \<or> map_of fs ''transform'' \<noteq> Some (JStr ''CONCAT'') then None
      else Option.bind (base_mapping fs) (\<lambda>(target, required).
           Option.bind (optional (text_value 256) (map_of fs ''separator'')) (\<lambda>separator.
           (case map_of fs ''parts'' of
              Some (JArr ps) \<Rightarrow> if ps = [] \<or> length ps > 10 then None
                else Option.bind (list_values operand_value ps) (\<lambda>parts.
                  Some \<lparr>mp_target = target, mp_required = required, mp_rule = Concat parts separator\<rparr>)
            | _ \<Rightarrow> None))))"

definition enumMapping :: "(string \<times> json) list \<Rightarrow> mapping option" where
  "enumMapping fs =
     (if \<not> strict_fields [''target'', ''required'', ''source'', ''transform'', ''values'', ''default''] fs
         \<or> map_of fs ''transform'' \<noteq> Some (JStr ''ENUM_MAP'') then None
      else Option.bind (base_mapping fs) (\<lambda>(target, required).
           Option.bind (Option.bind (map_of fs ''source'') path_value) (\<lambda>source.
           (case map_of fs ''values'' of
              Some (JObj vs) \<Rightarrow> Some \<lparr>mp_target = target, mp_required = required,
                mp_rule = Enum_Map source
                  \<lparr>em_values = filter (\<lambda>(k, v). k \<noteq> ''__proto__'') (map (\<lambda>(k, v). (k, json_value v)) vs),
                   em_default = map_option json_value (map_of fs ''default'')\<rparr>\<rparr>
            | _ \<Rightarrow> None))))"

text \<open>\<open>z.union\<close>: the first schema that fits.\<close>

fun mapping_value :: "json \<Rightarrow> mapping option" where
  "mapping_value (JObj fs) = (case directMapping fs of
      Some m \<Rightarrow> Some m
    | None \<Rightarrow> (case concatMapping fs of Some m \<Rightarrow> Some m | None \<Rightarrow> enumMapping fs))"
| "mapping_value _ = None"

text \<open>The refinement: no target is another one or lies below another one.\<close>

definition clashes :: "string \<Rightarrow> string \<Rightarrow> bool" where
  "clashes target other \<longleftrightarrow> target = other \<or> prefix (other @ ''.'') target \<or> prefix (target @ ''.'') other"

fun unique_targets :: "string list \<Rightarrow> string list \<Rightarrow> bool" where
  "unique_targets earlier [] = True"
| "unique_targets earlier (t # ts) = (\<not> list_ex (\<lambda>s. clashes s t) earlier \<and> unique_targets (t # earlier) ts)"

fun parseDefinition :: "json \<Rightarrow> mapping list option" where
  "parseDefinition (JObj fs) =
     (if \<not> strict_fields [''schemaVersion'', ''contentType'', ''mappings''] fs
         \<or> map_of fs ''schemaVersion'' \<noteq> Some (JNum 1)
         \<or> map_of fs ''contentType'' \<noteq> Some (JStr ''application/json'') then None
      else (case map_of fs ''mappings'' of
          Some (JArr ms) \<Rightarrow> if ms = [] \<or> length ms > 100 then None
            else Option.bind (list_values mapping_value ms) (\<lambda>mappings.
              if unique_targets [] (map mp_target mappings) then Some mappings else None)
        | _ \<Rightarrow> None))"
| "parseDefinition _ = None"

section \<open>Values and errors\<close>

text \<open>
  An object is a list of its own properties; \<open>Inherited f\<close> is the function \<open>f\<close> of \<open>Object.prototype\<close> and \<open>Root\<close> that object;
  every other JSON value is \<open>Plain\<close>, an array with all that is in it.
\<close>

datatype js_value = Plain json | Object "(string \<times> js_value) list" | Inherited string | Root

fun embed :: "json \<Rightarrow> js_value" where
  "embed (JObj fs) = Object (map (\<lambda>(k, v). (k, embed v)) fs)"
| "embed v = Plain v"

datatype transform_error =
    Invalid_Definition
  | Transformation_Error string
  | Changes_Prototype string

section \<open>Paths\<close>

text \<open>The members that every object inherits: functions, but for \<open>__proto__\<close>, which gives the prototype of an object.\<close>

definition object_members :: "string list" where
  "object_members = [''constructor'', ''__defineGetter__'', ''__defineSetter__'', ''hasOwnProperty'', ''__lookupGetter__'',
     ''__lookupSetter__'', ''isPrototypeOf'', ''propertyIsEnumerable'', ''toString'', ''valueOf'', ''__proto__'',
     ''toLocaleString'']"

definition pathSegments :: "string \<Rightarrow> string list" where
  "pathSegments path = split_on CHR ''.'' (drop 2 path)"

text \<open>\<open>object[name]\<close>, \<open>None\<close> for \<open>undefined\<close>; the prototype of \<open>Object.prototype\<close> is \<open>null\<close>.\<close>

definition member :: "(string \<times> js_value) list \<Rightarrow> string \<Rightarrow> js_value option" where
  "member fs name = (case map_of fs name of
      Some v \<Rightarrow> Some v
    | None \<Rightarrow> if name = ''__proto__'' then Some Root
        else if name \<in> set object_members then Some (Inherited name) else None)"

definition root_member :: "string \<Rightarrow> js_value option" where
  "root_member name =
     (if name = ''__proto__'' then Some (Plain JNull)
      else if name \<in> set object_members then Some (Inherited name) else None)"

text \<open>The walk ends with \<open>undefined\<close> at what is no object: \<open>typeof\<close> a function is \<open>function\<close>.\<close>

fun readPath :: "js_value \<Rightarrow> string list \<Rightarrow> js_value option" where
  "readPath v [] = Some v"
| "readPath (Object fs) (s # ss) = (case member fs s of None \<Rightarrow> None | Some v \<Rightarrow> readPath v ss)"
| "readPath Root (s # ss) = (case root_member s of None \<Rightarrow> None | Some v \<Rightarrow> readPath v ss)"
| "readPath (Plain v) (s # ss) = None"
| "readPath (Inherited f) (s # ss) = None"

definition conflict :: "string \<Rightarrow> transform_error" where
  "conflict path = Transformation_Error (''Target '' @ path @ '' conflicts with an existing value.'')"

fun is_scalar :: "js_value \<Rightarrow> bool" where
  "is_scalar (Plain (JArr _)) = False"
| "is_scalar (Plain _) = True"
| "is_scalar _ = False"

text \<open>
  An assignment below \<open>Object.prototype\<close>: a member of it is changed or made, on the way or at the end, unless the walk meets
  one of its functions or the \<open>null\<close> at \<open>__proto__\<close>, or a scalar is assigned to \<open>__proto__\<close>, which does nothing.
\<close>

fun writeRoot :: "string \<Rightarrow> string list \<Rightarrow> js_value \<Rightarrow> transform_error + unit" where
  "writeRoot path (s # t # ss) v = Inl (if root_member s = None then Changes_Prototype s else conflict path)"
| "writeRoot path [s] v = (if s = ''__proto__'' \<and> is_scalar v then Inr () else Inl (Changes_Prototype s))"
| "writeRoot path [] v = Inr ()"

text \<open>
  The walk makes the missing objects on the way. An object without an own property \<open>__proto__\<close> inherits its setter: a scalar
  is ignored, \<open>Object.prototype\<close> is what the prototype is already, and any other value becomes the prototype.
\<close>

fun writePath :: "string \<Rightarrow> (string \<times> js_value) list \<Rightarrow> string list \<Rightarrow> js_value
    \<Rightarrow> transform_error + (string \<times> js_value) list" where
  "writePath path fs [] v = Inr (js_put [] v fs)"
| "writePath path fs [s] v =
     (if s = ''__proto__'' \<and> map_of fs s = None
      then (if is_scalar v \<or> v = Root then Inr fs else Inl (Changes_Prototype s))
      else Inr (js_put s v fs))"
| "writePath path fs (s # t # ss) v = (case member fs s of
      None \<Rightarrow> (case writePath path [] (t # ss) v of Inl e \<Rightarrow> Inl e | Inr sub \<Rightarrow> Inr (js_put s (Object sub) fs))
    | Some existing \<Rightarrow> (case existing of
        Object sub \<Rightarrow>
          (case writePath path sub (t # ss) v of Inl e \<Rightarrow> Inl e | Inr sub' \<Rightarrow> Inr (js_put s (Object sub') fs))
      | Root \<Rightarrow> (case writeRoot path (t # ss) v of Inl e \<Rightarrow> Inl e | Inr _ \<Rightarrow> Inr fs)
      | _ \<Rightarrow> Inl (conflict path)))"

section \<open>Values\<close>

text \<open>
  The parts of the standard library that depend on Unicode or on the grammar of dates: \<open>toUpperCase\<close>, \<open>toLowerCase\<close> and the time of
  \<open>new Date(text)\<close>; the printing of numbers and SHA-256.
\<close>

record transform_env =
  te_upper :: "string \<Rightarrow> string"
  te_lower :: "string \<Rightarrow> string"
  te_time :: "string \<Rightarrow> instant option"
  te_number :: "rat \<Rightarrow> string"
  te_sha256 :: "string \<Rightarrow> 8 word list"

fun primitiveString :: "js_value \<Rightarrow> string \<Rightarrow> transform_error + string" where
  "primitiveString (Plain (JStr s)) operation = Inr s"
| "primitiveString _ operation = Inl (Transformation_Error (operation @ '' requires a string value.''))"

text \<open>
  The serialisation \<open>stable\<close>: of a function \<open>JSON.stringify\<close> gives \<open>undefined\<close>, and \<open>Object.prototype\<close> has no
  enumerable properties.
\<close>

fun js_stable :: "(rat \<Rightarrow> string) \<Rightarrow> js_value \<Rightarrow> string" where
  "js_stable num (Plain v) = stableJson num v"
| "js_stable num (Object fs) = ''{'' @ join '','' (map (\<lambda>(k, t). json_quote k @ '':'' @ t)
     (sort_key fst (map (\<lambda>(k, v). (k, js_stable num v)) fs))) @ ''}''"
| "js_stable num (Inherited f) = ''undefined''"
| "js_stable num Root = ''{}''"

text \<open>The four replacements of \<open>upperSnake\<close>: of word boundaries, of runs of other characters, of underscores at the ends, of case.\<close>

fun mark_words :: "string \<Rightarrow> string" where
  "mark_words (a # b # s) =
     (if (is_lower a \<or> is_digit a) \<and> is_upper b then a # CHR ''_'' # mark_words (b # s) else a # mark_words (b # s))"
| "mark_words s = s"

function join_others :: "string \<Rightarrow> string" where
  "join_others [] = []"
| "join_others (c # s) = (if is_alnum c then c # join_others s
     else CHR ''_'' # join_others (dropWhile (\<lambda>d. \<not> is_alnum d) s))"
  by pat_completeness auto
termination
  by (relation "measure length") (auto simp: le_imp_less_Suc length_dropWhile_le)

definition strip_underscores :: "string \<Rightarrow> string" where
  "strip_underscores s = (let drop_left = dropWhile (\<lambda>c. c = CHR ''_'') in rev (drop_left (rev (drop_left s))))"

definition upperSnake :: "string \<Rightarrow> string" where
  "upperSnake s = toUpper (strip_underscores (join_others (mark_words s)))"

definition date_shape :: "string \<Rightarrow> bool" where
  "date_shape s \<longleftrightarrow> length s = 10 \<and> s ! 4 = CHR ''-'' \<and> s ! 7 = CHR ''-''
     \<and> list_all (\<lambda>i. is_digit (s ! i)) [0, 1, 2, 3, 5, 6, 8, 9]"

definition isoDateOf :: "transform_env \<Rightarrow> string \<Rightarrow> transform_error + string" where
  "isoDateOf E s =
     (if date_shape s \<and> te_time E (s @ ''T00:00:00.000Z'') \<noteq> None then Inr s
      else (case te_time E s of
          None \<Rightarrow> Inl (Transformation_Error ''ISO_DATE requires an ISO date or timestamp.'')
        | Some t \<Rightarrow> Inr (take 10 (isoString t))))"

definition operand :: "json \<Rightarrow> operand \<Rightarrow> js_value option" where
  "operand input p = (case pd_source p of
      None \<Rightarrow> map_option embed (pd_literal p)
    | Some path \<Rightarrow> readPath (embed input) (pathSegments path))"

definition absent :: "js_value option \<Rightarrow> bool" where
  "absent v \<longleftrightarrow> v = None \<or> v = Some (Plain JNull)"

fun concat_strings :: "js_value list \<Rightarrow> transform_error + string list" where
  "concat_strings [] = Inr []"
| "concat_strings (v # vs) = (case primitiveString v ''CONCAT'' of
      Inl e \<Rightarrow> Inl e
    | Inr s \<Rightarrow> (case concat_strings vs of Inl e \<Rightarrow> Inl e | Inr ss \<Rightarrow> Inr (s # ss)))"

definition mapString ::
    "(string \<Rightarrow> transform_error + string) \<Rightarrow> string \<Rightarrow> js_value \<Rightarrow> transform_error + js_value option" where
  "mapString f operation v = (case primitiveString v operation of
      Inl e \<Rightarrow> Inl e
    | Inr s \<Rightarrow> (case f s of Inl e \<Rightarrow> Inl e | Inr t \<Rightarrow> Inr (Some (Plain (JStr t)))))"

definition applyKind :: "transform_env \<Rightarrow> transform_kind option \<Rightarrow> js_value \<Rightarrow> transform_error + js_value option" where
  "applyKind E how v = (case how of
      None \<Rightarrow> Inr (Some v)
    | Some UPPERCASE \<Rightarrow> mapString (\<lambda>s. Inr (te_upper E s)) ''UPPERCASE'' v
    | Some LOWERCASE \<Rightarrow> mapString (\<lambda>s. Inr (te_lower E s)) ''LOWERCASE'' v
    | Some UPPER_SNAKE \<Rightarrow> mapString (\<lambda>s. Inr (upperSnake s)) ''UPPER_SNAKE'' v
    | Some ISO_DATE \<Rightarrow> mapString (isoDateOf E) ''ISO_DATE'' v)"

text \<open>\<open>mapping.values[key] ?? mapping.default\<close>; the map inherits like every object.\<close>

definition enumKey :: "transform_env \<Rightarrow> js_value \<Rightarrow> string" where
  "enumKey E v = (case v of Plain (JStr s) \<Rightarrow> s | _ \<Rightarrow> js_stable (te_number E) v)"

definition applyEnum :: "transform_env \<Rightarrow> enum_map \<Rightarrow> js_value \<Rightarrow> transform_error + js_value option" where
  "applyEnum E m v =
     (let found = member (map (\<lambda>(k, x). (k, embed x)) (em_values m)) (enumKey E v)
      in case (if absent found then map_option embed (em_default m) else found) of
           None \<Rightarrow> Inl (Transformation_Error (''ENUM_MAP has no value for '' @ enumKey E v @ ''.''))
         | Some x \<Rightarrow> Inr (Some x))"

definition mappedValue :: "transform_env \<Rightarrow> json \<Rightarrow> mapping_rule \<Rightarrow> transform_error + js_value option" where
  "mappedValue E input rule = (case rule of
      Concat parts separator \<Rightarrow>
        (let vs = map (operand input) parts in
         if list_ex absent vs then Inr None
         else (case concat_strings (map the vs) of
             Inl e \<Rightarrow> Inl e
           | Inr ss \<Rightarrow> Inr (Some (Plain (JStr (join (case separator of None \<Rightarrow> [] | Some s \<Rightarrow> s) ss))))))
    | Direct p how \<Rightarrow>
        (let v = operand input p in if absent v then Inr v else applyKind E how (the v))
    | Enum_Map source m \<Rightarrow>
        (let v = readPath (embed input) (pathSegments source) in if absent v then Inr v else applyEnum E m (the v)))"

section \<open>Execution\<close>

definition applyMapping ::
    "transform_env \<Rightarrow> json \<Rightarrow> mapping \<Rightarrow> (string \<times> js_value) list \<Rightarrow> transform_error + (string \<times> js_value) list" where
  "applyMapping E input m fs = (case mappedValue E input (mp_rule m) of
      Inl e \<Rightarrow> Inl e
    | Inr v \<Rightarrow>
        if absent v then
          (if mp_required m then Inl (Transformation_Error (''Required source for '' @ mp_target m @ '' is missing.''))
           else Inr fs)
        else writePath (mp_target m) fs (pathSegments (mp_target m)) (the v))"

fun applyMappings ::
    "transform_env \<Rightarrow> json \<Rightarrow> mapping list \<Rightarrow> (string \<times> js_value) list \<Rightarrow> transform_error + (string \<times> js_value) list" where
  "applyMappings E input [] fs = Inr fs"
| "applyMappings E input (m # ms) fs = (case applyMapping E input m fs of
      Inl e \<Rightarrow> Inl e
    | Inr fs' \<Rightarrow> applyMappings E input ms fs')"

record transform_result =
  tr_output :: js_value
  tr_serialized :: string
  tr_hash :: string

definition executeTransformation :: "transform_env \<Rightarrow> json \<Rightarrow> json \<Rightarrow> transform_error + transform_result" where
  "executeTransformation E definition input = (case parseDefinition definition of
      None \<Rightarrow> Inl Invalid_Definition
    | Some mappings \<Rightarrow> (case applyMappings E input mappings [] of
          Inl e \<Rightarrow> Inl e
        | Inr fs \<Rightarrow> (let serialized = js_stable (te_number E) (Object fs)
            in if length serialized > 128 * 1024
               then Inl (Transformation_Error ''Transformed payload must not exceed 128 KiB.'')
               else Inr \<lparr>tr_output = Object fs, tr_serialized = serialized,
                 tr_hash = hex (te_sha256 E serialized)\<rparr>)))"

end
