(* ===== verification/Transformation_Runs.thy ===== *)
theory Transformation_Runs
  imports Transformation
begin

text \<open>
  What a transformation computes: the assignments of a validated definition do not get into each other's way, and the output holds
  the value of every mapping at its target and nothing else; what the inherited members of objects make of it.
\<close>

section \<open>Looking up a path\<close>

text \<open>The own properties along a path.\<close>

fun look :: "(string \<times> js_value) list \<Rightarrow> string list \<Rightarrow> js_value option" where
  "look fs [] = None"
| "look fs [s] = map_of fs s"
| "look fs (s # t # ss) = (case map_of fs s of Some (Object sub) \<Rightarrow> look sub (t # ss) | _ \<Rightarrow> None)"

definition apart :: "string list \<Rightarrow> string list \<Rightarrow> bool" where
  "apart p q \<longleftrightarrow> \<not> prefix p q \<and> \<not> prefix q p"

lemma apart_Cons [simp]: "apart (a # p) (b # q) \<longleftrightarrow> a \<noteq> b \<or> apart p q"
  by (auto simp: apart_def)

lemma apart_Nil [simp]: "\<not> apart [] q" "\<not> apart p []"
  by (simp_all add: apart_def)

lemma look_empty [simp]: "look [] p = None"
  by (cases "([] :: (string \<times> js_value) list, p)" rule: look.cases) auto

lemma look_Cons: "q \<noteq> [] \<Longrightarrow> look fs (s # q) = (case map_of fs s of Some (Object sub) \<Rightarrow> look sub q | _ \<Rightarrow> None)"
  by (cases q) auto

text \<open>A target that is assigned as an own property: no inherited name on the way, and not \<open>__proto__\<close> at the end.\<close>

definition inherited_on_way :: "string list \<Rightarrow> bool" where
  "inherited_on_way p \<longleftrightarrow> (\<exists>s \<in> set (butlast p). s \<in> set object_members)"

definition own_target :: "string list \<Rightarrow> bool" where
  "own_target p \<longleftrightarrow> \<not> inherited_on_way p \<and> last p \<noteq> ''__proto__''"

lemma own_Cons: "own_target (s # t # ss) \<longleftrightarrow> s \<notin> set object_members \<and> own_target (t # ss)"
  by (auto simp: own_target_def inherited_on_way_def)

lemma proto_member: "''__proto__'' \<in> set object_members"
  by (simp add: object_members_def)

lemma member_own: "s \<notin> set object_members \<Longrightarrow> member fs s = map_of fs s"
  using proto_member by (auto simp: member_def split: option.split)

lemma write_there:
  "p \<noteq> [] \<Longrightarrow> own_target p \<Longrightarrow> writePath t fs p v = Inr gs \<Longrightarrow> look gs p = Some v"
proof (induction t fs p v arbitrary: gs rule: writePath.induct)
  case (2 t fs s v)
  then show ?case by (auto simp: own_target_def)
next
  case (3 t fs s u ss v)
  from "3.prems" have own: "own_target (u # ss)" and m: "member fs s = map_of fs s" by (simp_all add: own_Cons member_own)
  show ?case
  proof (cases "map_of fs s")
    case None
    then obtain sub where "writePath t [] (u # ss) v = Inr sub" "gs = js_put s (Object sub) fs"
      using "3.prems"(3) m by (auto split: sum.splits)
    with "3.IH"(1) [OF m [unfolded None] _ own] show ?thesis by simp
  next
    case (Some x)
    show ?thesis
    proof (cases x)
      case (Object os)
      then obtain sub where "writePath t os (u # ss) v = Inr sub" "gs = js_put s (Object sub) fs"
        using "3.prems"(3) m Some by (auto split: sum.splits)
      with "3.IH"(2) [OF m [unfolded Some] Object _ own] show ?thesis by simp
    next
      case Root
      have "writeRoot t (u # ss) v \<noteq> Inr ()"
        using own by (cases ss) (auto simp: own_target_def)
      with Root "3.prems"(3) m Some show ?thesis by (auto split: sum.splits)
    qed (use "3.prems"(3) m Some in auto)
  qed
qed simp


lemma write_elsewhere:
  "p \<noteq> [] \<Longrightarrow> writePath t fs p v = Inr gs \<Longrightarrow> apart q p \<Longrightarrow> look gs q = look fs q"
proof (induction t fs p v arbitrary: gs q rule: writePath.induct)
  case (2 t fs s v)
  then show ?case by (cases "(fs, q)" rule: look.cases) (auto split: if_splits)
next
  case (3 t fs s u ss v)
  obtain a q' where q: "q = a # q'" using "3.prems"(3) by (cases q) auto
  show ?case
  proof (cases "member fs s")
    case None
    then obtain sub where sub: "writePath t [] (u # ss) v = Inr sub" "gs = js_put s (Object sub) fs"
      using "3.prems"(2) by (auto split: sum.splits)
    have own: "map_of fs s = None" using None by (auto simp: member_def split: option.splits)
    show ?thesis
    proof (cases "a = s")
      case True
      then have a: "apart q' (u # ss)" using "3.prems"(3) q by simp
      then have "q' \<noteq> []" by auto
      with "3.IH"(1) [OF None _ sub(1) a] True q own sub(2) show ?thesis by (simp add: look_Cons)
    next
      case False
      with q sub(2) show ?thesis by (cases q') auto
    qed
  next
    case (Some x)
    show ?thesis
    proof (cases x)
      case (Object os)
      then obtain sub where sub: "writePath t os (u # ss) v = Inr sub" "gs = js_put s (Object sub) fs"
        using "3.prems"(2) Some by (auto split: sum.splits)
      have own: "map_of fs s = Some (Object os)" using Some Object by (auto simp: member_def split: option.splits if_splits)
      show ?thesis
      proof (cases "a = s")
        case True
        then have a: "apart q' (u # ss)" using "3.prems"(3) q by simp
        then have "q' \<noteq> []" by auto
        with "3.IH"(2) [OF Some Object _ sub(1) a] True q own sub(2) show ?thesis by (simp add: look_Cons)
      next
        case False
        with q sub(2) show ?thesis by (cases q') auto
      qed
    next
      case Root
      with "3.prems"(2) Some show ?thesis by (auto split: sum.splits)
    qed (use "3.prems"(2) Some in auto)
  qed
qed simp

text \<open>Above a written path there are objects, or what was there before.\<close>

lemma write_above:
  "p \<noteq> [] \<Longrightarrow> writePath t fs p v = Inr gs \<Longrightarrow> strict_prefix q p \<Longrightarrow> q \<noteq> []
    \<Longrightarrow> look gs q = look fs q \<or> (\<exists>sub. look gs q = Some (Object sub))"
proof (induction t fs p v arbitrary: gs q rule: writePath.induct)
  case (2 t fs s v)
  then show ?case by (auto simp: strict_prefix_def prefix_Cons)
next
  case (3 t fs s u ss v)
  obtain q' where q: "q = s # q'" "strict_prefix q' (u # ss)"
    using "3.prems"(3,4) by (cases q) (auto simp: strict_prefix_def)
  show ?case
  proof (cases "member fs s")
    case None
    then obtain sub where sub: "writePath t [] (u # ss) v = Inr sub" "gs = js_put s (Object sub) fs"
      using "3.prems"(2) by (auto split: sum.splits)
    have own: "map_of fs s = None" using None by (auto simp: member_def split: option.splits)
    show ?thesis
    proof (cases "q' = []")
      case False
      with "3.IH"(1) [OF None _ sub(1) q(2)] q sub(2) own show ?thesis by (auto simp: look_Cons)
    qed (use q sub in simp)
  next
    case (Some x)
    show ?thesis
    proof (cases x)
      case (Object os)
      then obtain sub where sub: "writePath t os (u # ss) v = Inr sub" "gs = js_put s (Object sub) fs"
        using "3.prems"(2) Some by (auto split: sum.splits)
      have own: "map_of fs s = Some (Object os)" using Some Object by (auto simp: member_def split: option.splits if_splits)
      show ?thesis
      proof (cases "q' = []")
        case False
        with "3.IH"(2) [OF Some Object _ sub(1) q(2)] q sub(2) own show ?thesis by (auto simp: look_Cons)
      qed (use q sub in simp)
    next
      case Root
      with "3.prems"(2) Some show ?thesis by (auto split: sum.splits)
    qed (use "3.prems"(2) Some in auto)
  qed
qed simp

definition about_target :: "transform_error \<Rightarrow> bool" where
  "about_target e \<longleftrightarrow> (case e of Transformation_Error m \<Rightarrow> take 7 m = ''Target '' | _ \<Rightarrow> False)"

lemma about_simps [simp]:
  "about_target (Transformation_Error m) \<longleftrightarrow> take 7 m = ''Target ''" "\<not> about_target Invalid_Definition"
  "\<not> about_target (Changes_Prototype s)"
  by (simp_all add: about_target_def)

lemma writeRoot_about: "writeRoot t p v = Inl e \<Longrightarrow> about_target e \<Longrightarrow> e = conflict t"
  by (cases "(t, p, v)" rule: writeRoot.cases) (auto split: if_splits)

text \<open>An assignment conflicts only on account of an inherited name on its way, or of a value above it.\<close>

lemma write_conflict:
  "p \<noteq> [] \<Longrightarrow> (\<And>q. strict_prefix q p \<Longrightarrow> q \<noteq> [] \<Longrightarrow> look fs q = None \<or> (\<exists>sub. look fs q = Some (Object sub)))
    \<Longrightarrow> writePath t fs p v = Inl e \<Longrightarrow> about_target e \<Longrightarrow> e = conflict t \<and> inherited_on_way p"
proof (induction t fs p v rule: writePath.induct)
  case (3 t fs s u ss v)
  have below: "strict_prefix (s # q) (s # u # ss)" if "strict_prefix q (u # ss)" for q
    using that by (auto simp: strict_prefix_def)
  have here: "map_of fs s = None \<or> (\<exists>sub. map_of fs s = Some (Object sub))"
    using "3.prems"(2) [of "[s]"] by (simp add: strict_prefix_def)
  have way: "inherited_on_way (s # u # ss) \<longleftrightarrow> s \<in> set object_members \<or> inherited_on_way (u # ss)"
    by (auto simp: inherited_on_way_def)
  show ?case
  proof (cases "map_of fs s")
    case None
    show ?thesis
    proof (cases "s \<in> set object_members")
      case True
      with None "3.prems"(3,4) way show ?thesis
        by (auto simp: member_def dest: writeRoot_about split: if_splits sum.splits)
    next
      case False
      with None have m: "member fs s = None" by (simp add: member_own)
      then have "writePath t [] (u # ss) v = Inl e" using "3.prems"(3) by (auto split: sum.splits)
      from "3.IH"(1) [OF m _ _ this "3.prems"(4)] way show ?thesis by simp
    qed
  next
    case (Some x)
    with here obtain os where x: "x = Object os" by auto
    have m: "member fs s = Some (Object os)" using Some x by (simp add: member_def)
    have "look os q = None \<or> (\<exists>sub. look os q = Some (Object sub))" if "strict_prefix q (u # ss)" "q \<noteq> []" for q
      using "3.prems"(2) [OF below [OF that(1)]] Some x that(2) by (simp add: look_Cons)
    moreover have "writePath t os (u # ss) v = Inl e" using "3.prems"(3) m by (auto split: sum.splits)
    ultimately show ?thesis using "3.IH"(2) [OF m refl _ _ _ "3.prems"(4)] way by simp
  qed
qed (auto split: if_splits)

section \<open>Targets\<close>

lemma join_split: "join [c] (split_on c s) = s"
proof (induction s)
  case (Cons x s)
  obtain p ps where p: "split_on c s = p # ps" by (cases "split_on c s") auto
  with Cons show ?case by (cases ps) auto
qed simp

lemma join_append: "xs \<noteq> [] \<Longrightarrow> ys \<noteq> [] \<Longrightarrow> join sep (xs @ ys) = join sep xs @ sep @ join sep ys"
proof (induction sep xs rule: join.induct)
  case (2 sep x)
  then show ?case by (cases ys) auto
qed auto

lemma split_extends:
  assumes "split_on c b = split_on c a @ r" and "r \<noteq> []"
  shows "\<exists>u. b = a @ c # u"
proof -
  have "b = join [c] (split_on c a @ r)" using join_split [of c b] assms(1) by simp
  also have "\<dots> = a @ c # join [c] r" using assms(2) join_split [of c a] by (simp add: join_append)
  finally show ?thesis by blast
qed

lemma clash_prefix:
  assumes "jsonPath s" and "jsonPath t" and "\<not> clashes s t"
  shows "apart (pathSegments s) (pathSegments t)"
proof -
  have dollar: "x = ''$.'' @ drop 2 x" if "jsonPath x" for x
    using that append_take_drop_id [of 2 x] by (simp add: jsonPath_def)
  have one: "clashes a b" if ab: "jsonPath a" "jsonPath b" "prefix (pathSegments a) (pathSegments b)" for a b
  proof -
    obtain r where r: "split_on CHR ''.'' (drop 2 b) = split_on CHR ''.'' (drop 2 a) @ r"
      using ab(3) by (auto simp: pathSegments_def prefix_def)
    show ?thesis
    proof (cases "r = []")
      case True
      with r have "drop 2 b = drop 2 a" by (intro split_on_inj [of "CHR ''.''"]) simp
      with dollar [OF ab(1)] dollar [OF ab(2)] show ?thesis by (simp add: clashes_def)
    next
      case False
      obtain u where u: "drop 2 b = drop 2 a @ CHR ''.'' # u" using split_extends [OF r False] by blast
      have "b = ''$.'' @ drop 2 a @ CHR ''.'' # u" using dollar [OF ab(2)] u by simp
      also have "\<dots> = (''$.'' @ drop 2 a) @ ''.'' @ u" by simp
      finally have "b = a @ ''.'' @ u" using dollar [OF ab(1)] by simp
      then have "prefix (a @ ''.'') b" by simp
      then show ?thesis by (simp add: clashes_def)
    qed
  qed
  then show ?thesis
    using assms one [of s t] one [of t s] by (auto simp: apart_def clashes_def)
qed

text \<open>The targets of a parsed definition are paths, pairwise apart.\<close>

lemma list_values_all: "list_values f xs = Some ys \<Longrightarrow> (\<And>x y. f x = Some y \<Longrightarrow> P y) \<Longrightarrow> list_all P ys"
  by (induction xs arbitrary: ys) (auto split: option.splits)

lemma path_mappedSome: "path_value v = Some s \<Longrightarrow> jsonPath s"
  by (cases v) (auto split: if_splits)

lemma base_mapping_path: "base_mapping fs = Some (t, r) \<Longrightarrow> jsonPath t"
  by (auto simp: base_mapping_def bind_eq_Some_conv dest: path_mappedSome)

lemma directMapping_path: "directMapping fs = Some m \<Longrightarrow> jsonPath (mp_target m)"
  by (auto simp: directMapping_def bind_eq_Some_conv base_mapping_path split: if_splits)

lemma concatMapping_path:
  assumes "concatMapping fs = Some m"
  shows "jsonPath (mp_target m)"
proof -
  obtain t r where b: "base_mapping fs = Some (t, r)"
    using assms by (cases "base_mapping fs") (auto simp: concatMapping_def split: if_splits)
  then have "mp_target m = t"
    using assms by (cases "map_of fs ''parts''"; cases "the (map_of fs ''parts'')")
      (simp_all add: concatMapping_def bind_eq_Some_conv split: if_splits, auto)
  with b show ?thesis by (simp add: base_mapping_path)
qed

lemma enumMapping_path:
  assumes "enumMapping fs = Some m"
  shows "jsonPath (mp_target m)"
proof -
  obtain t r where b: "base_mapping fs = Some (t, r)"
    using assms by (cases "base_mapping fs") (auto simp: enumMapping_def split: if_splits)
  then have "mp_target m = t"
    using assms by (cases "map_of fs ''values''"; cases "the (map_of fs ''values'')")
      (simp_all add: enumMapping_def bind_eq_Some_conv split: if_splits, auto)
  with b show ?thesis by (simp add: base_mapping_path)
qed

lemma mapping_mappedpath: "mapping_value v = Some m \<Longrightarrow> jsonPath (mp_target m)"
  by (cases v) (auto dest: directMapping_path concatMapping_path enumMapping_path split: option.splits)

definition segments_of :: "mapping list \<Rightarrow> string list list" where
  "segments_of ms = map (\<lambda>m. pathSegments (mp_target m)) ms"

fun all_apart :: "string list list \<Rightarrow> bool" where
  "all_apart [] = True"
| "all_apart (p # ps) = ((\<forall>q \<in> set ps. apart p q) \<and> all_apart ps)"

lemma apart_sym: "apart p q \<Longrightarrow> apart q p"
  by (simp add: apart_def)

lemma unique_apart:
  assumes "unique_targets earlier ts" and "list_all jsonPath ts" and "list_all jsonPath earlier"
  shows "all_apart (map pathSegments ts) \<and> (\<forall>t \<in> set ts. \<forall>s \<in> set earlier. apart (pathSegments s) (pathSegments t))"
  using assms
proof (induction ts arbitrary: earlier)
  case (Cons t ts)
  then have ih: "all_apart (map pathSegments ts)"
    "\<forall>u \<in> set ts. \<forall>s \<in> set (t # earlier). apart (pathSegments s) (pathSegments u)"
    using Cons.IH [of "t # earlier"] by auto
  have "apart (pathSegments s) (pathSegments t)" if "s \<in> set earlier" for s
    using that Cons.prems by (intro clash_prefix) (auto simp: list_all_iff list_ex_iff)
  with ih show ?case by auto
qed simp

lemma parsed_targets:
  assumes "parseDefinition d = Some ms"
  shows "all_apart (segments_of ms)"
proof -
  obtain fs xs where d: "d = JObj fs" "map_of fs ''mappings'' = Some (JArr xs)" "list_values mapping_value xs = Some ms"
    "unique_targets [] (map mp_target ms)"
    using assms by (cases d) (auto simp: bind_eq_Some_conv split: if_splits option.splits json.splits)
  have "list_all (\<lambda>m. jsonPath (mp_target m)) ms"
    using d(3) mapping_mappedpath by (rule list_values_all)
  then show ?thesis
    using unique_apart [OF d(4)] by (simp add: segments_of_def list_all_iff comp_def)
qed

section \<open>The output\<close>

text \<open>
  What is known of the output when the values of \<open>assigned\<close> have been assigned: those of own targets are there, nothing is at a
  path that is apart from all of them, and at a path that none of them is a prefix of there is nothing or an object.
\<close>

definition holds_values :: "(string \<times> js_value) list \<Rightarrow> (string list \<times> js_value) list \<Rightarrow> bool" where
  "holds_values fs assigned \<longleftrightarrow>
     (\<forall>(p, v) \<in> set assigned. own_target p \<longrightarrow> look fs p = Some v)
     \<and> (\<forall>q. (\<forall>(p, v) \<in> set assigned. apart q p) \<longrightarrow> look fs q = None)
     \<and> (\<forall>q. (\<forall>(p, v) \<in> set assigned. \<not> prefix p q) \<longrightarrow> look fs q = None \<or> (\<exists>sub. look fs q = Some (Object sub)))"

lemma holds_empty: "holds_values [] []"
  by (simp add: holds_values_def)

lemma holds_write:
  assumes "holds_values fs assigned" and "p \<noteq> []" and "\<forall>(q, v) \<in> set assigned. apart q p"
  shows "writePath t fs p v = Inl e \<Longrightarrow> about_target e \<Longrightarrow> e = conflict t \<and> inherited_on_way p"
    and "writePath t fs p v = Inr gs \<Longrightarrow> holds_values gs (assigned @ [(p, v)])"
proof -
  have "look fs q = None \<or> (\<exists>sub. look fs q = Some (Object sub))" if q: "strict_prefix q p" for q
  proof -
    have "\<forall>(r, u) \<in> set assigned. \<not> prefix r q"
      using assms(3) q by (auto simp: apart_def strict_prefix_def dest: prefix_order.trans)
    with assms(1) show ?thesis by (auto simp: holds_values_def)
  qed
  then show "writePath t fs p v = Inl e \<Longrightarrow> about_target e \<Longrightarrow> e = conflict t \<and> inherited_on_way p"
    using write_conflict [OF assms(2)] by blast
  assume run: "writePath t fs p v = Inr gs"
  have old: "look gs r = Some u" if r: "(r, u) \<in> set assigned" "own_target r" for r u
  proof -
    have "apart r p" using assms(3) r(1) by auto
    moreover have "look fs r = Some u" using assms(1) r unfolding holds_values_def by blast
    ultimately show ?thesis using write_elsewhere [OF assms(2) run] by simp
  qed
  have new: "own_target p \<Longrightarrow> look gs p = Some v" using write_there [OF assms(2) _ run] .
  have none: "look gs q = None" if "\<forall>(r, u) \<in> set (assigned @ [(p, v)]). apart q r" for q
  proof -
    have "apart q p" "\<forall>(r, u) \<in> set assigned. apart q r" using that by auto
    then show ?thesis using write_elsewhere [OF assms(2) run] assms(1) by (simp add: holds_values_def)
  qed
  have object: "look gs q = None \<or> (\<exists>sub. look gs q = Some (Object sub))"
    if "\<forall>(r, u) \<in> set (assigned @ [(p, v)]). \<not> prefix r q" for q
  proof -
    have earlier: "look fs q = None \<or> (\<exists>sub. look fs q = Some (Object sub))"
      using that assms(1) by (auto simp: holds_values_def)
    have "\<not> prefix p q" using that by simp
    then consider "apart q p" | "strict_prefix q p" "q \<noteq> []" | "q = []"
      by (auto simp: apart_def strict_prefix_def)
    then show ?thesis
    proof cases
      case 1
      then show ?thesis using write_elsewhere [OF assms(2) run] earlier by simp
    next
      case 2
      then show ?thesis using write_above [OF assms(2) run 2] earlier by auto
    next
      case 3
      then show ?thesis by simp
    qed
  qed
  show "holds_values gs (assigned @ [(p, v)])"
    unfolding holds_values_def using old new none object by auto
qed

text \<open>The values that the mappings compute, without those that are absent.\<close>

fun assignments :: "transform_env \<Rightarrow> json \<Rightarrow> mapping list \<Rightarrow> (string list \<times> js_value) list" where
  "assignments E input [] = []"
| "assignments E input (m # ms) = (case mappedValue E input (mp_rule m) of
      Inr (Some v) \<Rightarrow> if v = Plain JNull then assignments E input ms
        else (pathSegments (mp_target m), v) # assignments E input ms
    | _ \<Rightarrow> assignments E input ms)"

lemma assigned_segments: "(p, v) \<in> set (assignments E input ms) \<Longrightarrow> p \<in> set (segments_of ms)"
  by (induction ms) (auto simp: segments_of_def split: sum.splits option.splits if_splits)

lemma segments_not_empty: "pathSegments t \<noteq> []"
  by (simp add: pathSegments_def)

text \<open>The errors of the values are not about targets.\<close>

definition operations :: "string list" where
  "operations = [''CONCAT'', ''UPPERCASE'', ''LOWERCASE'', ''UPPER_SNAKE'', ''ISO_DATE'']"

lemma primitive_about: "primitiveString v operation = Inl e \<Longrightarrow> operation \<in> set operations \<Longrightarrow> \<not> about_target e"
  by (cases "(v, operation)" rule: primitiveString.cases) (auto simp: operations_def)

lemma concat_about: "concat_strings vs = Inl e \<Longrightarrow> \<not> about_target e"
  by (induction vs arbitrary: e) (auto simp: primitive_about operations_def split: sum.splits)

lemma mapString_about:
  "mapString f operation v = Inl e \<Longrightarrow> operation \<in> set operations \<Longrightarrow> (\<And>s x. f s = Inl x \<Longrightarrow> \<not> about_target x)
     \<Longrightarrow> \<not> about_target e"
  by (auto simp: mapString_def primitive_about split: sum.splits)

lemma isoDate_about: "isoDateOf E s = Inl e \<Longrightarrow> \<not> about_target e"
  by (auto simp: isoDateOf_def split: option.splits if_splits)

lemma applyKind_about: "applyKind E how v = Inl e \<Longrightarrow> \<not> about_target e"
proof -
  assume run: "applyKind E how v = Inl e"
  obtain f operation where "mapString f operation v = Inl e" "operation \<in> set operations"
    "\<And>s x. f s = Inl x \<Longrightarrow> \<not> about_target x"
    using run isoDate_about
    by (cases how; cases "the how") (auto simp: applyKind_def operations_def)
  then show ?thesis by (rule mapString_about)
qed

lemma applyEnum_about: "applyEnum E m v = Inl e \<Longrightarrow> \<not> about_target e"
  by (auto simp: applyEnum_def Let_def split: option.splits if_splits)

lemma mappedValue_about: "mappedValue E input rule = Inl e \<Longrightarrow> \<not> about_target e"
  by (auto simp: mappedValue_def Let_def concat_about applyKind_about applyEnum_about
      split: mapping_rule.splits sum.splits if_splits)

lemma absent_cases: "absent v \<longleftrightarrow> \<not> (\<exists>x. v = Some x \<and> x \<noteq> Plain JNull)"
  by (cases v) (auto simp: absent_def)

definition output_of :: "transform_env \<Rightarrow> json \<Rightarrow> mapping list \<Rightarrow> (string list \<times> js_value) list \<Rightarrow> (string \<times> js_value) list \<Rightarrow> bool" where
  "output_of E input ms assigned fs \<longleftrightarrow> holds_values fs (assigned @ assignments E input ms)
     \<and> (\<forall>m \<in> set ms. mp_required m \<longrightarrow> (\<exists>v. (pathSegments (mp_target m), v) \<in> set (assignments E input ms)))
     \<and> (\<forall>m \<in> set ms. \<exists>v. mappedValue E input (mp_rule m) = Inr v)"

definition conflicting :: "mapping list \<Rightarrow> transform_error \<Rightarrow> bool" where
  "conflicting ms e \<longleftrightarrow> (\<exists>m \<in> set ms. e = conflict (mp_target m) \<and> inherited_on_way (pathSegments (mp_target m)))"

lemma applyMappings_run:
  assumes "holds_values fs assigned" and "all_apart (segments_of ms)"
    and "\<forall>(p, v) \<in> set assigned. \<forall>q \<in> set (segments_of ms). apart p q"
  shows "case applyMappings E input ms fs of
      Inl e \<Rightarrow> about_target e \<longrightarrow> conflicting ms e | Inr gs \<Rightarrow> output_of E input ms assigned gs"
  using assms
proof (induction ms arbitrary: fs assigned)
  case Nil
  then show ?case by (simp add: output_of_def)
next
  case (Cons m ms)
  let ?p = "pathSegments (mp_target m)"
  have apart: "all_apart (segments_of ms)" "\<forall>q \<in> set (segments_of ms). apart ?p q"
    "\<forall>(q, v) \<in> set assigned. apart q ?p" "\<forall>(p, v) \<in> set assigned. \<forall>q \<in> set (segments_of ms). apart p q"
    using Cons.prems(2,3) by (auto simp: segments_of_def)
  have more_conflicts: "conflicting ms e \<Longrightarrow> conflicting (m # ms) e" for e by (auto simp: conflicting_def)
  show ?case
  proof (cases "mappedValue E input (mp_rule m)")
    case (Inl e)
    then show ?thesis using mappedValue_about by (simp add: applyMapping_def)
  next
    case (Inr v)
    show ?thesis
    proof (cases "absent v")
      case True
      then have same: "assignments E input (m # ms) = assignments E input ms"
        using Inr by (auto simp: absent_def)
      show ?thesis
        using Cons.IH [OF Cons.prems(1) apart(1,4)] True Inr more_conflicts
        by (auto simp: applyMapping_def output_of_def same simp del: assignments.simps split: sum.splits)
    next
      case False
      then obtain x where x: "v = Some x" "x \<noteq> Plain JNull" by (auto simp: absent_cases)
      note put = holds_write [OF Cons.prems(1) segments_not_empty apart(3), of "mp_target m" x]
      have more: "assignments E input (m # ms) = (?p, x) # assignments E input ms" using Inr x by simp
      show ?thesis
      proof (cases "writePath (mp_target m) fs ?p x")
        case e: (Inl e)
        then have "about_target e \<longrightarrow> conflicting (m # ms) e" using put(1) by (auto simp: conflicting_def)
        then show ?thesis using e Inr x by (simp add: applyMapping_def absent_def)
      next
        case hs: (Inr hs)
        have rest: "\<forall>(p, v) \<in> set (assigned @ [(?p, x)]). \<forall>q \<in> set (segments_of ms). apart p q"
          using apart(2,4) by auto
        show ?thesis
          using Cons.IH [OF put(2) [OF hs] apart(1) rest] hs Inr x more_conflicts
          by (auto simp: applyMapping_def absent_def output_of_def more simp del: assignments.simps split: sum.splits)
      qed
    qed
  qed
qed


section \<open>Text\<close>

text \<open>A JSON value prints the same with the values of a run, and contains none of the functions.\<close>

lemma stable_embed: "js_stable num (embed v) = stableJson num v"
proof (induction v)
  case (JObj fs)
  then have "map (\<lambda>p. (fst p, js_stable num (embed (snd p)))) fs = map (\<lambda>p. (fst p, stableJson num (snd p))) fs"
    by (auto simp: in_set_conv_nth)
  moreover have "map (\<lambda>(k, v). (k, js_stable num v)) (map (\<lambda>(k, v). (k, embed v)) fs)
      = map (\<lambda>p. (fst p, js_stable num (embed (snd p)))) fs"
    by (simp add: comp_def case_prod_unfold)
  moreover have "map (\<lambda>(k, v). (k, stableJson num v)) fs = map (\<lambda>p. (fst p, stableJson num (snd p))) fs"
    by (simp add: case_prod_unfold)
  ultimately show ?case by (simp only: embed.simps js_stable.simps stableJson.simps)
qed simp_all

lemma look_embed: "look (map (\<lambda>(k, v). (k, embed v)) fs) p \<noteq> Some (Inherited f)"
proof (induction p arbitrary: fs)
  case (Cons s p)
  have own: "map_of (map (\<lambda>(k, v). (k, embed v)) fs) s = map_option embed (map_of fs s)"
    by (simp add: map_of_map)
  have plain: "embed v \<noteq> Inherited f" for v by (cases v) auto
  show ?case
  proof (cases "p = []")
    case True
    with own plain show ?thesis by auto
  next
    case False
    have "look os p \<noteq> Some (Inherited f)" if "embed v = Object os" for v os
      using that Cons.IH by (cases v) auto
    then show ?thesis by (auto simp: look_Cons [OF False] own split: option.split js_value.split)
  qed
qed simp

lemma join_infix: "t \<in> set ts \<Longrightarrow> \<exists>a b. join sep ts = a @ t @ b"
proof (induction sep ts rule: join.induct)
  case (2 sep x)
  then show ?case by (auto intro: exI [of _ "[]"])
next
  case (3 sep x y ys)
  show ?case
  proof (cases "t = x")
    case True
    then have "join sep (x # y # ys) = [] @ t @ (sep @ join sep (y # ys))" by simp
    then show ?thesis by blast
  next
    case False
    with 3 obtain a b where "join sep (y # ys) = a @ t @ b" by auto
    then have "join sep (x # y # ys) = (x @ sep @ a) @ t @ b" by simp
    then show ?thesis by blast
  qed
qed auto

lemma stable_field:
  assumes "map_of fs k = Some v"
  shows "\<exists>a b. js_stable num (Object fs) = a @ '':'' @ js_stable num v @ b"
proof -
  let ?xs = "sort_key fst (map (\<lambda>(k, v). (k, js_stable num v)) fs)"
  have "(k, js_stable num v) \<in> set ?xs" using map_of_SomeD [OF assms] by force
  then have "json_quote k @ '':'' @ js_stable num v \<in> set (map (\<lambda>(k, t). json_quote k @ '':'' @ t) ?xs)" by force
  then obtain a b where "join '','' (map (\<lambda>(k, t). json_quote k @ '':'' @ t) ?xs)
      = a @ (json_quote k @ '':'' @ js_stable num v) @ b"
    using join_infix by blast
  then have "js_stable num (Object fs) = (''{'' @ a @ json_quote k) @ '':'' @ js_stable num v @ (b @ ''}'')" by simp
  then show ?thesis by blast
qed

lemma stable_look: "look fs p = Some v \<Longrightarrow> \<exists>a b. js_stable num (Object fs) = a @ '':'' @ js_stable num v @ b"
proof (induction p arbitrary: fs)
  case (Cons s p)
  show ?case
  proof (cases "p = []")
    case True
    with Cons.prems have "map_of fs s = Some v" by simp
    then show ?thesis by (rule stable_field)
  next
    case False
    with Cons.prems obtain sub where sub: "map_of fs s = Some (Object sub)" "look sub p = Some v"
      by (auto simp: look_Cons split: option.splits js_value.splits)
    obtain a b where 1: "js_stable num (Object sub) = a @ '':'' @ js_stable num v @ b" using Cons.IH [OF sub(2)] by blast
    obtain c d where 2: "js_stable num (Object fs) = c @ '':'' @ js_stable num (Object sub) @ d"
      using stable_field [OF sub(1)] by blast
    have "js_stable num (Object fs) = (c @ '':'' @ a) @ '':'' @ js_stable num v @ (b @ d)"
      unfolding 2 1 by simp
    then show ?thesis by blast
  qed
qed simp

lemma assigned_value:
  "m \<in> set ms \<Longrightarrow> mappedValue E input (mp_rule m) = Inr (Some x) \<Longrightarrow> x \<noteq> Plain JNull
    \<Longrightarrow> (pathSegments (mp_target m), x) \<in> set (assignments E input ms)"
  by (induction ms) (auto split: sum.split option.split)

section \<open>Properties\<close>

lemma execute_run:
  assumes "executeTransformation E definition input = Inr r"
  obtains ms fs where "parseDefinition definition = Some ms" "tr_output r = Object fs" "output_of E input ms [] fs"
    "tr_serialized r = js_stable (te_number E) (Object fs)" "length (js_stable (te_number E) (Object fs)) \<le> 131072"
    "tr_hash r = hex (te_sha256 E (js_stable (te_number E) (Object fs)))"
proof -
  obtain ms fs where ms: "parseDefinition definition = Some ms" "applyMappings E input ms [] = Inr fs"
    "r = \<lparr>tr_output = Object fs, tr_serialized = js_stable (te_number E) (Object fs),
       tr_hash = hex (te_sha256 E (js_stable (te_number E) (Object fs)))\<rparr>"
    "length (js_stable (te_number E) (Object fs)) \<le> 128 * 1024"
    using assms by (auto simp: executeTransformation_def Let_def simp del: js_stable.simps split: option.splits sum.splits if_splits)
  have "output_of E input ms [] fs"
    using applyMappings_run [OF holds_empty parsed_targets [OF ms(1)], of E input] ms(2) by simp
  with ms that show thesis by (simp del: js_stable.simps)
qed


definition sample_env :: transform_env where
  "sample_env = \<lparr>te_upper = toUpper, te_lower = toLower, te_time = (\<lambda>s. None), te_number = unary,
     te_sha256 = sample_sha256\<rparr>"

definition sample_conflict :: json where
  "sample_conflict = JObj [(''schemaVersion'', JNum 1), (''contentType'', JStr ''application/json''),
     (''mappings'', JArr [JObj [(''target'', JStr ''$.constructor.x''), (''literal'', JStr ''v'')]])]"




text \<open>A definition with one nested target, one direct mapping and one over a finite map of states.\<close>

definition sample_mapping :: json where
  "sample_mapping = JObj [(''schemaVersion'', JNum 1), (''contentType'', JStr ''application/json''),
     (''mappings'', JArr
       [JObj [(''target'', JStr ''$.order.id''), (''source'', JStr ''$.id''), (''required'', JBool True), (''transform'', JStr ''UPPERCASE'')],
        JObj [(''target'', JStr ''$.order.state''), (''source'', JStr ''$.state''), (''transform'', JStr ''ENUM_MAP''),
          (''values'', JObj [(''new'', JStr ''N'')]), (''default'', JStr ''?'')]])]"

definition sample_rules :: "mapping list" where
  "sample_rules =
     [\<lparr>mp_target = ''$.order.id'', mp_required = True,
        mp_rule = Direct \<lparr>pd_source = Some ''$.id'', pd_literal = None\<rparr> (Some UPPERCASE)\<rparr>,
      \<lparr>mp_target = ''$.order.state'', mp_required = False,
        mp_rule = Enum_Map ''$.state'' \<lparr>em_values = [(''new'', JStr ''N'')], em_default = Some (JStr ''?'')\<rparr>\<rparr>]"

lemma sample_parsed: "parseDefinition sample_mapping = Some sample_rules"
  by code_simp

lemma own_sample: "own_target [''order'', ''id'']" "own_target [''order'', ''state'']"
  by (simp_all add: own_target_def inherited_on_way_def object_members_def)


text \<open>
  C27. A value of the event that is the name of a member that all objects inherit is found in every map of states that has no
  entry of this name: instead of the default or the error, the mapping gives the inherited function, or \<open>Object.prototype\<close> for the name
  \<open>__proto__\<close>. When the execution returns, for an own target, that is what the output has there: with a function it is not the
  JSON value it is taken for, and its text, of which the hash is taken, has the word \<open>undefined\<close> for it.
\<close>

theorem inherited_member_escapes:
  assumes "executeTransformation E definition input = Inr r"
    and "parseDefinition definition = Some ms" and "m \<in> set ms" and "own_target (pathSegments (mp_target m))"
    and "mp_rule m = Enum_Map source em" and "readPath (embed input) (pathSegments source) = Some (Plain (JStr name))"
    and "name \<in> set object_members" and "map_of (em_values em) name = None"
  shows "\<exists>fs. tr_output r = Object fs
    \<and> look fs (pathSegments (mp_target m)) = Some (if name = ''__proto__'' then Root else Inherited name)
    \<and> (name \<noteq> ''__proto__'' \<longrightarrow> (\<forall>v. tr_output r \<noteq> embed v) \<and> (\<exists>a b. tr_serialized r = a @ '':undefined'' @ b))"
proof -
  obtain fs where fs: "tr_output r = Object fs" "output_of E input ms [] fs" "tr_serialized r = js_stable (te_number E) (Object fs)"
    using assms(2) by (auto intro: execute_run [OF assms(1)])
  let ?x = "if name = ''__proto__'' then Root else Inherited name"
  have mapped: "mappedValue E input (mp_rule m) = Inr (Some ?x)"
    using assms(6-8)
    by (simp add: assms(5) mappedValue_def absent_def applyEnum_def enumKey_def member_def map_of_map)
  have "(pathSegments (mp_target m), ?x) \<in> set (assignments E input ms)"
    using assigned_value [OF assms(3) mapped] by simp
  with fs(2) assms(4) have look: "look fs (pathSegments (mp_target m)) = Some ?x"
    unfolding output_of_def holds_values_def by auto
  have "tr_output r \<noteq> embed v" if "name \<noteq> ''__proto__''" for v
    using look that fs(1) look_embed by (cases v) auto
  moreover have "\<exists>a b. tr_serialized r = a @ '':undefined'' @ b" if "name \<noteq> ''__proto__''"
    using stable_look [OF look, of "te_number E"] that fs(3) by (simp del: js_stable.simps(2))
  ultimately show ?thesis using fs(1) look by blast
qed

theorem inherited_member_escapes_witness:
  "\<exists>r. executeTransformation sample_env sample_mapping (JObj [(''id'', JStr ''a1''), (''state'', JStr ''constructor'')]) = Inr r
     \<and> (\<forall>v. tr_output r \<noteq> embed v) \<and> (\<exists>a b. tr_serialized r = a @ '':undefined'' @ b)"
proof -
  let ?in = "JObj [(''id'', JStr ''a1''), (''state'', JStr ''constructor'')]"
  define out where "out = [(''order'', Object [(''id'', Plain (JStr ''A1'')), (''state'', Inherited ''constructor'')])]"
  have "applyMappings sample_env ?in sample_rules [] = Inr out" unfolding out_def by code_simp
  moreover have "length (js_stable (te_number sample_env) (Object out)) < 100" unfolding out_def by code_simp
  ultimately obtain r where r: "executeTransformation sample_env sample_mapping ?in = Inr r"
    by (simp add: executeTransformation_def sample_parsed Let_def del: js_stable.simps)
  let ?m = "sample_rules ! 1" and ?em = "\<lparr>em_values = [(''new'', JStr ''N'')], em_default = Some (JStr ''?'')\<rparr>"
  have m: "?m \<in> set sample_rules" "mp_rule ?m = Enum_Map ''$.state'' ?em" "mp_target ?m = ''$.order.state''"
    by (simp_all add: sample_rules_def)
  have segments: "pathSegments ''$.order.state'' = [''order'', ''state'']" by (simp add: pathSegments_def)
  have name: "readPath (embed ?in) (pathSegments ''$.state'') = Some (Plain (JStr ''constructor''))"
    "''constructor'' \<in> set object_members" "map_of (em_values ?em) ''constructor'' = None" "''constructor'' \<noteq> ''__proto__''"
    by code_simp+
  have own: "own_target (pathSegments (mp_target ?m))" unfolding m(3) segments by (rule own_sample(2))
  from inherited_member_escapes [OF r sample_parsed m(1) own m(2) name(1-3)] name(4) r show ?thesis by blast
qed

end
