(* ===== verification/Worker_Tokens.thy ===== *)
theory Worker_Tokens
  imports Delivery_Service Identifiers
begin

text \<open>
  What \<open>apps/delivery-worker/src/index.ts\<close> gives to its delivery service: the provider of access tokens with its cache,
  and the generator of identifiers; beside it the generator of \<open>apps/router-worker\<close>. Cached tokens are fresh, but the cache
  does not know the credentials they were issued for, and identifiers of one millisecond can be the same.
\<close>

section \<open>Access tokens\<close>

record token_entry =
  te_value :: string
  te_expiresAt :: rat

type_synonym token_cache = "string \<rightharpoonup> token_entry"

text \<open>
  \<open>tk_send\<close> is \<open>http.send\<close> with the method POST, \<open>tk_parse\<close> is \<open>JSON.parse\<close>, \<open>tk_form\<close> the text of \<open>URLSearchParams\<close>, \<open>tk_base64\<close> the
  encoding of a \<open>Buffer\<close>; \<open>tk_cache\<close> and \<open>tk_set\<close> read and replace the map of the process.
\<close>

record 'w token_ports =
  tk_now :: "'w \<Rightarrow> instant"
  tk_send :: "http_request \<Rightarrow> ('w, http_response) op"
  tk_parse :: "string \<Rightarrow> json option"
  tk_form :: "(string \<times> string) list \<Rightarrow> string"
  tk_base64 :: "string \<Rightarrow> string"
  tk_cache :: "'w \<Rightarrow> token_cache"
  tk_set :: "token_cache \<Rightarrow> 'w \<Rightarrow> 'w"

definition cacheKey :: "oauth_request \<Rightarrow> string" where
  "cacheKey q = oq_destinationId q @ [CHR 0x0A] @ join '' '' (oq_scopes q)"

definition cachedToken :: "token_cache \<Rightarrow> oauth_request \<Rightarrow> instant \<Rightarrow> string option" where
  "cachedToken c q now = (case c (cacheKey q) of
      None \<Rightarrow> None
    | Some existing \<Rightarrow> if te_expiresAt existing > of_int (now + 5000) then Some (te_value existing) else None)"

definition tokenParams :: "oauth_request \<Rightarrow> (string \<times> string) list" where
  "tokenParams q = [(''grant_type'', ''client_credentials'')]
     @ (if oq_scopes q \<noteq> [] then [(''scope'', join '' '' (oq_scopes q))] else [])
     @ (if oq_authenticationStyle q = ''basic'' then []
        else [(''client_id'', oq_clientId q), (''client_secret'', oq_clientSecret q)])"

definition tokenHeaders :: "'w token_ports \<Rightarrow> oauth_request \<Rightarrow> headers" where
  "tokenHeaders P q = (''content-type'', ''application/x-www-form-urlencoded'')
     # (if oq_authenticationStyle q = ''basic''
        then [(''authorization'', ''Basic '' @ tk_base64 P (oq_clientId q @ '':'' @ oq_clientSecret q))] else [])"

definition tokenRequest :: "'w token_ports \<Rightarrow> oauth_request \<Rightarrow> http_request" where
  "tokenRequest P q = \<lparr>hq_url = oq_tokenUrl q, hq_headers = tokenHeaders P q, hq_body = tk_form P (tokenParams q),
     hq_timeoutMs = 5000, hq_correlationId = oq_correlationId q\<rparr>"

text \<open>The token and its declared lifetime in seconds. The messages of the errors that the engine throws are not modelled.\<close>

definition tokenAnswer :: "'w token_ports \<Rightarrow> http_response \<Rightarrow> js_error + string \<times> rat" where
  "tokenAnswer P response =
     throw_if (hr_status response < 200 \<or> hr_status response \<ge> 300) (Error ''OAUTH_TOKEN_ERROR'')
       (case tk_parse P (hr_body response) of
          None \<Rightarrow> Inl (Error ''SyntaxError'')
        | Some JNull \<Rightarrow> Inl (Error ''TypeError'')
        | Some token \<Rightarrow>
            (case json_string (json_get token ''access_token'') of
               None \<Rightarrow> Inl (Error ''OAUTH_TOKEN_ERROR'')
             | Some value \<Rightarrow> Inr (value, case json_get token ''expires_in'' of Some (JNum n) \<Rightarrow> n | _ \<Rightarrow> 60)))"

definition storeToken :: "oauth_request \<Rightarrow> string \<Rightarrow> rat \<Rightarrow> instant \<Rightarrow> token_cache \<Rightarrow> token_cache" where
  "storeToken q value expiresIn now c =
     c(cacheKey q \<mapsto> \<lparr>te_value = value, te_expiresAt = of_int now + max 1 (expiresIn - 5) * 1000\<rparr>)"

definition keepToken :: "'w token_ports \<Rightarrow> oauth_request \<Rightarrow> string \<Rightarrow> rat \<Rightarrow> ('w, string) op" where
  "keepToken P q value expiresIn w = (Inr value, tk_set P (storeToken q value expiresIn (tk_now P w) (tk_cache P w)) w)"

definition oauthGet :: "'w token_ports \<Rightarrow> oauth_request \<Rightarrow> ('w, string) op" where
  "oauthGet P q =
     bindM (readM (\<lambda>w. cachedToken (tk_cache P w) q (tk_now P w))) (\<lambda>existing.
       case existing of
         Some value \<Rightarrow> returnM value
       | None \<Rightarrow>
           bindM (tk_send P (tokenRequest P q)) (\<lambda>response.
           bindM (liftM (tokenAnswer P response)) (\<lambda>(value, expiresIn). keepToken P q value expiresIn)))"

section \<open>Every cached token was granted\<close>

text \<open>
  The history of a cache: the answers of token endpoints that it was filled from, with the key they were kept under, the
  token, its declared lifetime and the time. Requests of the process run side by side; each keeps its answer in one step.
\<close>

type_synonym grant = "string \<times> string \<times> rat \<times> instant"

inductive granted :: "grant list \<Rightarrow> token_cache \<Rightarrow> instant \<Rightarrow> bool" where
  nothing: "granted [] (\<lambda>_. None) t"
| later: "granted gs c t \<Longrightarrow> t \<le> t' \<Longrightarrow> granted gs c t'"
| kept: "granted gs c t \<Longrightarrow> granted ((cacheKey q, v, e, t) # gs) (storeToken q v e t c) t"

inductive_cases granted_NilE: "granted [] c t"

lemma granted_entry:
  "granted gs c t \<Longrightarrow> c k = Some en \<Longrightarrow>
     \<exists>e t0. map_of gs k = Some (te_value en, e, t0) \<and> t0 \<le> t \<and> te_expiresAt en = of_int t0 + max 1 (e - 5) * 1000"
proof (induction arbitrary: k en rule: granted.induct)
  case (later gs c t t')
  then show ?case by (meson order_trans)
next
  case (kept gs c t q v e)
  then show ?case
  proof (cases "k = cacheKey q")
    case True
    with kept.prems have "en = \<lparr>te_value = v, te_expiresAt = of_int t + max 1 (e - 5) * 1000\<rparr>"
      by (simp add: storeToken_def)
    with True show ?thesis by (intro exI [of _ e] exI [of _ t]) simp
  next
    case False
    with kept.prems kept.IH [of k en] show ?thesis by (auto simp: storeToken_def)
  qed
qed simp

lemma lifetime_left:
  assumes "of_int t0 + max 1 (e - 5) * 1000 > (of_int (t + 5000) :: rat)" and "t0 \<le> t"
  shows "of_int t + 10000 < of_int t0 + e * 1000"
proof -
  have "(of_int t0 :: rat) \<le> of_int t" using assms(2) by simp
  moreover have "(of_int (t + 5000) :: rat) = of_int t + 5000" by simp
  ultimately show ?thesis using assms(1) by (cases "1 \<le> e - 5") (auto simp: max_def algebra_simps)
qed

lemma json_string_Some: "json_string x = Some s \<longleftrightarrow> x = Some (JStr s)"
  by (cases "x" rule: json_string.cases) auto

lemma cached_token_lives:
  assumes "granted gs c t" and "cachedToken c q t = Some v"
  shows "\<exists>e t0. map_of gs (cacheKey q) = Some (v, e, t0) \<and> t0 \<le> t \<and> of_int t + 10000 < of_int t0 + e * 1000"
proof -
  from assms(2) obtain en where en: "c (cacheKey q) = Some en" "te_expiresAt en > of_int (t + 5000)" "te_value en = v"
    by (auto simp: cachedToken_def split: option.splits if_splits)
  from granted_entry [OF assms(1) en(1)] obtain e t0 where
    g: "map_of gs (cacheKey q) = Some (v, e, t0)" "t0 \<le> t" "te_expiresAt en = of_int t0 + max 1 (e - 5) * 1000"
    using en(3) by auto
  have "of_int t + 10000 < of_int t0 + e * 1000"
    using lifetime_left [OF _ g(2), of e] en(2) g(3) by simp
  with g show ?thesis by blast
qed

text \<open>
  What the provider relies on: the map is a variable of the process, and while a request is under way the others only keep
  what they were granted.
\<close>

locale token_process =
  fixes P :: "'w token_ports"
  assumes cache_set: "tk_cache P (tk_set P c w) = c" and now_set: "tk_now P (tk_set P c w) = tk_now P w"
    and send_law: "tk_send P r w = (x, w') \<Longrightarrow> granted gs (tk_cache P w) (tk_now P w)
       \<Longrightarrow> \<exists>gs'. granted (gs' @ gs) (tk_cache P w') (tk_now P w')"
begin

text \<open>A call that is answered from the cache changes nothing; one that is answered by the endpoint keeps what it returns.\<close>

lemma oauth_get_granted:
  assumes gr: "granted gs (tk_cache P w) (tk_now P w)" and run: "oauthGet P q w = (Inr v, w')"
  shows "(w' = w \<and> (\<exists>e t0. map_of gs (cacheKey q) = Some (v, e, t0) \<and> t0 \<le> tk_now P w
        \<and> of_int (tk_now P w) + 10000 < of_int t0 + e * 1000))
    \<or> (\<exists>response e w1 gs'. tk_send P (tokenRequest P q) w = (Inr response, w1) \<and> tokenAnswer P response = Inr (v, e)
        \<and> granted (gs' @ gs) (tk_cache P w1) (tk_now P w1) \<and> tk_now P w' = tk_now P w1
        \<and> tk_cache P w' = storeToken q v e (tk_now P w1) (tk_cache P w1))"
proof (cases "cachedToken (tk_cache P w) q (tk_now P w)")
  case (Some v')
  then have "v' = v" "w' = w" using run by (auto simp: oauthGet_def bindM_def readM_def returnM_def)
  with cached_token_lives [OF gr Some] show ?thesis by blast
next
  case None
  obtain x w1 where send: "tk_send P (tokenRequest P q) w = (x, w1)" by (cases "tk_send P (tokenRequest P q) w")
  from run None send obtain response u e where ok: "x = Inr response" "tokenAnswer P response = Inr (u, e)"
    by (cases x; cases "\<exists>response. x = Inr response \<and> isl (tokenAnswer P response)")
      (auto simp: oauthGet_def bindM_def readM_def liftM_def split: prod.splits sum.splits)
  with run None send have "v = u" "w' = tk_set P (storeToken q v e (tk_now P w1) (tk_cache P w1)) w1"
    by (auto simp: oauthGet_def bindM_def readM_def liftM_def keepToken_def)
  with ok send send_law [OF send gr] show ?thesis by (auto simp: cache_set now_set)
qed

end

section \<open>Identifiers\<close>

definition base32_digit :: "nat \<Rightarrow> char" where
  "base32_digit n = ''0123456789ABCDEFGHIJKLMNOPQRSTUV'' ! n"

text \<open>\<open>n.toString(32).toUpperCase()\<close>\<close>

fun base32 :: "nat \<Rightarrow> string" where
  "base32 n = (if n < 32 then [base32_digit n] else base32 (n div 32) @ [base32_digit (n mod 32)])"

declare base32.simps [simp del]

definition rawId :: "nat \<Rightarrow> nat \<Rightarrow> string" where
  "rawId now sequence = take 26 (padEnd 26 CHR ''0'' (base32 now @ base32 sequence))"

definition foldChar :: "char \<Rightarrow> char" where
  "foldChar c = (if c \<in> set ulid_alphabet then c else CHR ''0'')"

definition deliveryWorkerId :: "string \<Rightarrow> nat \<Rightarrow> nat \<Rightarrow> string" where
  "deliveryWorkerId p now sequence = p @ ''_'' @ map foldChar (rawId now sequence)"

definition routerWorkerId :: "string \<Rightarrow> nat \<Rightarrow> nat \<Rightarrow> string" where
  "routerWorkerId p now sequence = p @ ''_'' @ rawId now sequence"

definition strip :: "'a \<Rightarrow> 'a list \<Rightarrow> 'a list" where
  "strip z s = rev (dropWhile (\<lambda>c. c = z) (rev s))"

text \<open>The digits that are left of a number when four letters are written as 0 and the zeros at its end are dropped.\<close>

definition significant :: "nat \<Rightarrow> string" where
  "significant n = strip CHR ''0'' (map foldChar (base32 n))"

lemma length_rawId [simp]: "length (rawId now n) = 26"
  by (simp add: rawId_def padEnd_def)

lemma foldChar_alphabet: "foldChar c \<in> set ulid_alphabet"
  by (simp add: foldChar_def ulid_alphabet_def)

lemma foldChar_zero [simp]: "foldChar CHR ''0'' = CHR ''0''"
  by (simp add: foldChar_def)

lemma base32_length: "n < 32 ^ Suc k \<Longrightarrow> length (base32 n) \<le> Suc k"
proof (induction k arbitrary: n)
  case 0
  then show ?case by (simp add: base32.simps)
next
  case (Suc k)
  show ?case
  proof (cases "n < 32")
    case True
    then show ?thesis by (simp add: base32.simps)
  next
    case False
    have "n div 32 < 32 ^ Suc k" using Suc.prems by (simp add: less_mult_imp_div_less)
    with Suc.IH False show ?thesis by (subst base32.simps) simp
  qed
qed

lemma strip_padded: "strip z (s @ replicate n z) = strip z s"
proof (induction n)
  case (Suc n)
  have "s @ replicate (Suc n) z = (s @ replicate n z) @ [z]" by (simp add: replicate_append_same)
  moreover have "strip z (t @ [z]) = strip z t" for t by (simp add: strip_def)
  ultimately show ?case using Suc.IH by metis
qed simp

lemma strip_splits: "\<exists>n. s = strip z s @ replicate n z"
proof (induction s rule: rev_induct)
  case (snoc c s)
  then obtain n where n: "strip z s @ replicate n z = s" by metis
  show ?case
  proof (cases "c = z")
    case True
    then have "strip z (s @ [c]) = strip z s" by (simp add: strip_def)
    moreover have "strip z s @ replicate (Suc n) z = s @ [c]"
      unfolding replicate_Suc replicate_append_same [symmetric] append_assoc [symmetric] n True ..
    ultimately show ?thesis by metis
  next
    case False
    then have "strip z (s @ [c]) = s @ [c]" by (simp add: strip_def)
    then show ?thesis by (intro exI [of _ 0]) simp
  qed
qed (simp add: strip_def)

lemma padded_equal_iff:
  assumes "length (x @ replicate a z) = length (y @ replicate b z)"
  shows "x @ replicate a z = y @ replicate b z \<longleftrightarrow> strip z x = strip z y"
proof
  assume "x @ replicate a z = y @ replicate b z"
  then show "strip z x = strip z y" using strip_padded [of z x a] strip_padded [of z y b] by simp
next
  assume eq: "strip z x = strip z y"
  obtain n m where n: "strip z x @ replicate n z = x" and m: "strip z y @ replicate m z = y"
    using strip_splits by metis
  have x: "x @ replicate a z = strip z x @ replicate (n + a) z" by (subst n [symmetric]) (simp add: replicate_add)
  have y: "y @ replicate b z = strip z y @ replicate (m + b) z" by (subst m [symmetric]) (simp add: replicate_add)
  have "n + a = m + b" using assms unfolding x y eq by simp
  then show "x @ replicate a z = y @ replicate b z" unfolding x y eq by simp
qed

section \<open>Properties\<close>

text \<open>A process in memory, whose token endpoint answers with one token.\<close>

record token_world =
  tw_clock :: instant
  tw_cache :: token_cache

definition sample_ports :: "token_world token_ports" where
  "sample_ports = \<lparr>tk_now = tw_clock,
     tk_send = (\<lambda>r. returnM \<lparr>hr_status = 200, hr_headers = [], hr_body = ''granted''\<rparr>),
     tk_parse = (\<lambda>s. Some (JObj [(''access_token'', JStr ''token''), (''expires_in'', JNum 3600)])),
     tk_form = (\<lambda>ps. concat (map (\<lambda>(n, v). n @ v) ps)), tk_base64 = (\<lambda>s. s), tk_cache = tw_cache,
     tk_set = (\<lambda>c w. w\<lparr>tw_cache := c\<rparr>)\<rparr>"

interpretation mem_tokens: token_process sample_ports
proof
  show "tk_send sample_ports r w = (x, w') \<Longrightarrow> granted gs (tk_cache sample_ports w) (tk_now sample_ports w)
      \<Longrightarrow> \<exists>gs'. granted (gs' @ gs) (tk_cache sample_ports w') (tk_now sample_ports w')" for r w x w' gs
    by (auto simp: sample_ports_def returnM_def intro: exI [of _ "[]"])
qed (simp_all add: sample_ports_def)

definition sample_token_request :: oauth_request where
  "sample_token_request = \<lparr>oq_destinationId = ''dst_1'', oq_tokenUrl = ''https://p.test/token'', oq_clientId = ''client'',
     oq_clientSecret = ''secret'', oq_scopes = [''send''], oq_authenticationStyle = ''basic'', oq_correlationId = ''cor_1''\<rparr>"

text \<open>
  C32. A token that the worker uses is alive. Let \<open>gs\<close> be what the endpoints have granted, the latest grant first. When \<open>get\<close>
  returns a token, either nothing was sent or changed, and the token is the latest one granted for the key of the request, with more
  than ten seconds of its lifetime left; or it is the token, with the lifetime, in the answer of the endpoint to the request
  just sent, the only change to the cache after the answer is that it is kept under that key till five seconds before its end, and
  while the endpoint was waited for the other requests of the process only kept what they were granted.
\<close>

theorem tokens_in_use_are_alive:
  assumes "token_process P" and "granted gs (tk_cache P w) (tk_now P w)" and "oauthGet P q w = (Inr v, w')"
  shows "(w' = w \<and> (\<exists>e t0. map_of gs (cacheKey q) = Some (v, e, t0) \<and> t0 \<le> tk_now P w
        \<and> of_int (tk_now P w) + 10000 < of_int t0 + e * 1000))
    \<or> (\<exists>response e w1 gs'. tk_send P (tokenRequest P q) w = (Inr response, w1)
        \<and> 200 \<le> hr_status response \<and> hr_status response < 300
        \<and> (\<exists>token. tk_parse P (hr_body response) = Some token \<and> json_get token ''access_token'' = Some (JStr v)
            \<and> e = (case json_get token ''expires_in'' of Some (JNum n) \<Rightarrow> n | _ \<Rightarrow> 60))
        \<and> granted (gs' @ gs) (tk_cache P w1) (tk_now P w1) \<and> tk_now P w' = tk_now P w1
        \<and> granted ((cacheKey q, v, e, tk_now P w') # gs' @ gs) (tk_cache P w') (tk_now P w')
        \<and> tk_cache P w' = (tk_cache P w1)(cacheKey q
            \<mapsto> \<lparr>te_value = v, te_expiresAt = of_int (tk_now P w') + max 1 (e - 5) * 1000\<rparr>))"
proof -
  have answer: "200 \<le> hr_status a \<and> hr_status a < 300 \<and> (\<exists>token. tk_parse P (hr_body a) = Some token
      \<and> json_get token ''access_token'' = Some (JStr v)
      \<and> e = (case json_get token ''expires_in'' of Some (JNum n) \<Rightarrow> n | _ \<Rightarrow> 60))"
    if "tokenAnswer P a = Inr (v, e)" for a e
    using that by (auto simp: tokenAnswer_def throw_if_def json_string_Some split: if_splits option.splits json.splits)
  have kept: "granted ((cacheKey q, v, e, t) # hs) (storeToken q v e t c) t" if "granted hs c t" for e t c hs
    using that by (rule granted.kept)
  show ?thesis
    using token_process.oauth_get_granted [OF assms]
  proof (elim disjE exE conjE, goal_cases cached sent)
    case (sent response e w1 gs')
    then show ?case
      using answer [OF sent(2)] kept [OF sent(3), of e]
      by (intro disjI2 exI [of _ response] exI [of _ e] exI [of _ w1] exI [of _ gs'] conjI)
        (simp_all add: storeToken_def)
  qed blast
qed

lemma tokens_in_use_are_alive_witness:
  "let c = storeToken sample_token_request ''token'' 3600 1000 (\<lambda>_. None)
   in oauthGet sample_ports sample_token_request \<lparr>tw_clock = 1000, tw_cache = (\<lambda>_. None)\<rparr>
        = (Inr ''token'', \<lparr>tw_clock = 1000, tw_cache = c\<rparr>)
      \<and> oauthGet sample_ports sample_token_request \<lparr>tw_clock = 3000000, tw_cache = c\<rparr>
        = (Inr ''token'', \<lparr>tw_clock = 3000000, tw_cache = c\<rparr>)
      \<and> of_int 3000000 + 10000 < of_int 1000 + (3600 :: rat) * 1000"
proof -
  let ?q = sample_token_request and ?c = "storeToken sample_token_request ''token'' 3600 1000 (\<lambda>_. None)"
  let ?w = "\<lparr>tw_clock = 1000, tw_cache = (\<lambda>_. None)\<rparr>" and ?w' = "\<lparr>tw_clock = 1000, tw_cache = ?c\<rparr>"
  let ?w2 = "\<lparr>tw_clock = 3000000, tw_cache = ?c\<rparr>"
  have run: "oauthGet sample_ports ?q ?w = (Inr ''token'', ?w')"
    by (simp add: oauthGet_def sample_ports_def bindM_def readM_def returnM_def liftM_def cachedToken_def tokenAnswer_def
        throw_if_def keepToken_def)
  have run2: "oauthGet sample_ports ?q ?w2 = (Inr ''token'', ?w2)"
    by (simp add: oauthGet_def sample_ports_def bindM_def readM_def returnM_def cachedToken_def storeToken_def)
  have none: "granted [] (tk_cache sample_ports ?w) (tk_now sample_ports ?w)"
    by (simp add: sample_ports_def granted.nothing)
  have first: "granted [(cacheKey ?q, ''token'', 3600, 1000)] ?c 1000"
    using tokens_in_use_are_alive [OF mem_tokens.token_process_axioms none run]
    by (auto simp: sample_ports_def returnM_def intro: granted.kept [OF granted.nothing, of ?q _ _ 1000])
  then have "granted [(cacheKey ?q, ''token'', 3600, 1000)] (tk_cache sample_ports ?w2) (tk_now sample_ports ?w2)"
    by (simp add: sample_ports_def granted.later)
  from tokens_in_use_are_alive [OF mem_tokens.token_process_axioms this run2] run run2 show ?thesis
    by (simp add: Let_def sample_ports_def returnM_def)
qed

text \<open>
  The cache does not know the credentials. The key of a token is the destination and the scopes: after a token has been
  kept, a request for the same destination and scopes with another client, secret, token URL or style gets the old token,
  without any request, until ten seconds before its lifetime ends. Rotated or corrected credentials are not used till then.
\<close>

theorem token_outlives_its_credentials:
  assumes "tk_cache P w = storeToken q v e t c" and "oq_destinationId q' = oq_destinationId q" and "oq_scopes q' = oq_scopes q"
    and "6 \<le> e" and "of_int (tk_now P w) + 10000 < of_int t + e * 1000"
  shows "oauthGet P q' w = (Inr v, w)"
proof -
  have "max 1 (e - 5) = e - 5" using assms(4) by simp
  then have "of_int (tk_now P w + 5000) < of_int t + max 1 (e - 5) * 1000" using assms(5) by simp
  then have "cachedToken (tk_cache P w) q' (tk_now P w) = Some v"
    using assms(1-3) by (simp add: cachedToken_def storeToken_def cacheKey_def)
  then show ?thesis by (simp add: oauthGet_def bindM_def readM_def returnM_def)
qed

lemma token_outlives_its_credentials_witness:
  "oauthGet sample_ports (sample_token_request\<lparr>oq_clientSecret := ''rotated''\<rparr>)
     \<lparr>tw_clock = 2000, tw_cache = storeToken sample_token_request ''token'' 3600 1000 (\<lambda>_. None)\<rparr>
   = (Inr ''token'', \<lparr>tw_clock = 2000, tw_cache = storeToken sample_token_request ''token'' 3600 1000 (\<lambda>_. None)\<rparr>)"
  by (rule token_outlives_its_credentials [where q = sample_token_request and e = 3600 and t = 1000 and c = "\<lambda>_. None"])
    (simp_all add: sample_ports_def)

text \<open>
  Identifiers of one millisecond. The number of an identifier is padded with zeros on the right, and the letters I, L, O and
  U of base 32 become 0 as well: two identifiers that a delivery worker draws in one millisecond are the same exactly when
  their numbers have the same significant digits, as 18, 21, 24 and 30 have, or 1 and 32.
\<close>

theorem worker_ids_of_a_millisecond:
  assumes "now < 32 ^ 9" and "n < 32 ^ 17" and "k < 32 ^ 17"
  shows "deliveryWorkerId p now n = deliveryWorkerId p now k \<longleftrightarrow> significant n = significant k"
proof -
  have len: "length (base32 now @ base32 x) \<le> 26" if "x < 32 ^ 17" for x
    using base32_length [of now 8] base32_length [of x 16] assms(1) that by simp
  have id: "map foldChar (rawId now x) = map foldChar (base32 now)
      @ (map foldChar (base32 x) @ replicate (26 - length (base32 now @ base32 x)) CHR ''0'')" if "x < 32 ^ 17" for x
    using len [OF that] by (simp add: rawId_def padEnd_def)
  have "length (map foldChar (base32 n) @ replicate (26 - length (base32 now @ base32 n)) CHR ''0'')
      = length (map foldChar (base32 k) @ replicate (26 - length (base32 now @ base32 k)) CHR ''0'')"
    using len [OF assms(2)] len [OF assms(3)] by simp
  from padded_equal_iff [OF this] show ?thesis
    by (simp add: deliveryWorkerId_def id [OF assms(2)] id [OF assms(3)] significant_def)
qed

lemma worker_ids_of_a_millisecond_witness:
  "deliveryWorkerId ''obx'' 1700000000000 18 = deliveryWorkerId ''obx'' 1700000000000 21"
  using worker_ids_of_a_millisecond [of 1700000000000 18 21 "''obx''"]
  by (simp add: significant_def base32.simps base32_digit_def foldChar_def ulid_alphabet_def strip_def)

end
