(* ===== verification/Delivery_Runs.thy ===== *)
theory Delivery_Runs
  imports Delivery_Safety Finalization
begin

text \<open>
  No delivery is lost: what the table holds of a delivery when the worker tells the queue to drop its message. The
  worker is alone on its table but time passes in its calls, so rows may expire under it, and any call may fail.
\<close>

section \<open>What a run gives\<close>

text \<open>\<open>gives P m Q\<close>: a call of \<open>m\<close> in a world with \<open>P\<close> that returns \<open>a\<close>, and does not throw, ends in a world with \<open>Q a\<close>.\<close>

definition gives :: "('w \<Rightarrow> bool) \<Rightarrow> ('w, 'a) op \<Rightarrow> ('a \<Rightarrow> 'w \<Rightarrow> bool) \<Rightarrow> bool" where
  "gives P m Q \<longleftrightarrow> (\<forall>w a w'. P w \<longrightarrow> m w = (Inr a, w') \<longrightarrow> Q a w')"

lemma gives_return: "(\<And>w. P w \<Longrightarrow> Q a w) \<Longrightarrow> gives P (returnM a) Q"
  by (simp add: gives_def returnM_def)

lemma gives_throw: "gives P (throwM e) Q"
  by (simp add: gives_def throwM_def)

lemma gives_bind: "gives P m R \<Longrightarrow> (\<And>a. gives (R a) (f a) Q) \<Longrightarrow> gives P (bindM m f) Q"
  unfolding gives_def bindM_def by (fastforce split: prod.splits sum.splits)

lemma gives_lift: "(\<And>a. r = Inr a \<Longrightarrow> gives P (f a) Q) \<Longrightarrow> gives P (bindM (liftM r) f) Q"
  by (cases r) (simp_all add: gives_throw)

lemma gives_read: "(\<And>a. gives P (f a) Q) \<Longrightarrow> gives P (bindM (readM g) f) Q"
  by (simp add: gives_def bindM_def readM_def)

lemma gives_weaken: "gives P m Q \<Longrightarrow> (\<And>w. P' w \<Longrightarrow> P w) \<Longrightarrow> (\<And>a w. Q a w \<Longrightarrow> Q' a w) \<Longrightarrow> gives P' m Q'"
  unfolding gives_def by blast

lemma gives_retry:
  assumes "gives P body (\<lambda>r w. case r of None \<Rightarrow> P w | Some a \<Rightarrow> Q a w)" and "gives P final Q"
  shows "gives P (retryM n body final) Q"
proof (induction n)
  case 0
  with assms(2) show ?case by simp
next
  case (Suc n)
  have "gives (\<lambda>w. case r of None \<Rightarrow> P w | Some a \<Rightarrow> Q a w)
      (case r of None \<Rightarrow> retryM n body final | Some a \<Rightarrow> returnM a) Q" for r
    using Suc by (cases r) (auto intro: gives_return)
  with assms(1) show ?case by (auto intro: gives_bind)
qed

text \<open>\<open>late db view n T\<close>: the table satisfies \<open>T\<close> and it is \<open>n\<close> or later.\<close>

definition late :: "'w dynamo \<Rightarrow> ('w \<Rightarrow> dtable) \<Rightarrow> instant \<Rightarrow> (dtable \<Rightarrow> bool) \<Rightarrow> 'w \<Rightarrow> bool" where
  "late db view n T w \<longleftrightarrow> T (view w) \<and> n \<le> db_now db w"

section \<open>The worker and its clock\<close>

text \<open>
  No other client writes, so a transaction that is cancelled had a condition that does not hold; no call turns the
  clock back, and the services read the clock of the adapter. Nothing but the database changes the table, and
  every identifier that is generated satisfies \<open>new\<close>.
\<close>

locale clocked_delivery = dynamo_table "sv_db S" view "(=)"
  for S :: "('w, 'z) delivery_services_scheme" and view :: "'w \<Rightarrow> dtable" +
  fixes new_id :: "string \<Rightarrow> bool"
  assumes exact_write: "db_write (sv_db S) ops w = (Inr False, w') \<Longrightarrow> \<not> tx_conditions ops (view w)"
    and get_clock: "db_get (sv_db S) k w = (rg, w') \<Longrightarrow> db_now (sv_db S) w \<le> db_now (sv_db S) w'"
    and write_clock: "db_write (sv_db S) ops w = (rw, w') \<Longrightarrow> db_now (sv_db S) w \<le> db_now (sv_db S) w'"
    and same_clock: "sv_now S w = db_now (sv_db S) w"
    and next_new: "sv_next S p w = (Inr x, w') \<Longrightarrow> new_id x"
    and next_law: "sv_next S p w = (rn, w') \<Longrightarrow> view w' = view w \<and> db_now (sv_db S) w \<le> db_now (sv_db S) w'"
    and random_law: "dl_random S w = (rr, w') \<Longrightarrow> view w' = view w \<and> db_now (sv_db S) w \<le> db_now (sv_db S) w'"
    and secret_law: "dl_secret S cx n w = (rs, w') \<Longrightarrow> view w' = view w \<and> db_now (sv_db S) w \<le> db_now (sv_db S) w'"
    and oauth_law: "dl_oauth S oq w = (ro, w') \<Longrightarrow> view w' = view w \<and> db_now (sv_db S) w \<le> db_now (sv_db S) w'"
    and send_law: "dl_send S hq w = (rh, w') \<Longrightarrow> view w' = view w \<and> db_now (sv_db S) w \<le> db_now (sv_db S) w'"
begin

abbreviation at_time :: "instant \<Rightarrow> (dtable \<Rightarrow> bool) \<Rightarrow> 'w \<Rightarrow> bool" where
  "at_time \<equiv> late (sv_db S) view"

lemma get_then:
  assumes "\<And>x n'. n \<le> n' \<Longrightarrow> gives (at_time n' (\<lambda>u. T u \<and> u k = x)) (g (f (live_item x n'))) Q"
  shows "gives (at_time n T) (bindM (mapM f (getCore (sv_db S) k)) g) Q"
  unfolding gives_def
proof (intro allI impI)
  fix w a w'
  assume P: "at_time n T w" and run: "bindM (mapM f (getCore (sv_db S) k)) g w = (Inr a, w')"
  obtain r w1 where get: "db_get (sv_db S) k w = (r, w1)" by (cases "db_get (sv_db S) k w")
  from get_law [OF get] get_clock [OF get]
  have w1: "view w1 = view w" "db_now (sv_db S) w \<le> db_now (sv_db S) w1"
    and x: "\<And>x. r = Inr x \<Longrightarrow> x = view w k" by auto
  show "Q a w'"
  proof (cases r)
    case (Inl e)
    with run get show ?thesis by (simp add: mapM_def getCore_def bindM_def)
  next
    case (Inr y)
    with run get have go: "g (f (live_item y (db_now (sv_db S) w1))) w1 = (Inr a, w')"
      by (simp add: mapM_def getCore_def bindM_def returnM_def)
    have "at_time (db_now (sv_db S) w1) (\<lambda>u. T u \<and> u k = y) w1"
      using P w1 x [OF Inr] by (simp add: late_def)
    with go assms [of "db_now (sv_db S) w1" y] P w1(2) show ?thesis by (auto simp: late_def gives_def)
  qed
qed

lemma write_then:
  assumes "\<And>u. T u \<Longrightarrow> tx_distinct ops \<Longrightarrow> tx_conditions ops u \<Longrightarrow> T1 (tx_apply ops u)"
    and "gives (at_time n T1) (f True) Q"
    and "gives (at_time n (\<lambda>u. T u \<and> \<not> tx_conditions ops u)) (f False) Q"
  shows "gives (at_time n T) (bindM (db_write (sv_db S) ops) f) Q"
  unfolding gives_def
proof (intro allI impI)
  fix w a w'
  assume P: "at_time n T w" and run: "bindM (db_write (sv_db S) ops) f w = (Inr a, w')"
  obtain r w1 where put: "db_write (sv_db S) ops w = (r, w1)" by (cases "db_write (sv_db S) ops w")
  then obtain b where b: "r = Inr b" and go: "f b w1 = (Inr a, w')"
    using run by (cases r) (auto simp: bindM_def)
  from write_law [OF put [unfolded b]] write_clock [OF put [unfolded b]]
  have w1: "(if b then tx_ok ops (view w) \<and> view w1 = tx_apply ops (view w) else view w1 = view w)"
    "db_now (sv_db S) w \<le> db_now (sv_db S) w1" by (auto split: bool.splits)
  show "Q a w'"
  proof (cases b)
    case True
    with P w1 assms(1) have "at_time n T1 w1" by (auto simp: late_def tx_ok_def)
    with go True assms(2) show ?thesis by (auto simp: gives_def)
  next
    case False
    from put b False have "\<not> tx_conditions ops (view w)" by (intro exact_write [where w' = w1]) simp
    with P w1 False have "at_time n (\<lambda>u. T u \<and> \<not> tx_conditions ops u) w1"
      by (auto simp: late_def)
    with go False assms(3) show ?thesis by (auto simp: gives_def)
  qed
qed

text \<open>A call that leaves the table and does not turn the clock back.\<close>

definition outside :: "('w, 'a) op \<Rightarrow> bool" where
  "outside m \<longleftrightarrow> (\<forall>w r w'. m w = (r, w') \<longrightarrow> view w' = view w \<and> db_now (sv_db S) w \<le> db_now (sv_db S) w')"

lemma outside_then: "outside m \<Longrightarrow> (\<And>a. gives (at_time n T) (f a) Q) \<Longrightarrow> gives (at_time n T) (bindM m f) Q"
  by (rule gives_bind [where R = "\<lambda>_. at_time n T"]) (fastforce simp: outside_def gives_def late_def)+

lemma outside_plain: "outside (returnM a)" "outside (throwM e)" "outside (liftM r)" "outside (readM f)"
  by (cases r) (auto simp: outside_def returnM_def throwM_def liftM_def readM_def)

lemma outside_bind: "outside m \<Longrightarrow> (\<And>a. outside (f a)) \<Longrightarrow> outside (bindM m f)"
  unfolding outside_def bindM_def
  by (auto split: prod.splits sum.splits) (metis order_trans)+

lemma outside_try: "outside m \<Longrightarrow> outside (tryM m)"
  by (auto simp: outside_def tryM_def split: prod.splits)

lemma outside_calls:
  "outside (sv_next S p)" "outside (dl_random S)" "outside (dl_secret S cx n)" "outside (dl_oauth S oq)" "outside (dl_send S hq)"
  using next_law random_law secret_law oauth_law send_law by (fastforce simp: outside_def)+

lemma outside_request: "outside (sendRequest S cx d)"
  by (auto simp: sendRequest_def credentialHeaders_def split: list.split sum.split
      intro!: outside_plain outside_bind outside_try outside_calls)

lemma new_then: "(\<And>x. new_id x \<Longrightarrow> gives (at_time n T) (f x) Q) \<Longrightarrow> gives (at_time n T) (bindM (sv_next S p) f) Q"
  by (rule gives_bind [where R = "\<lambda>x w. at_time n T w \<and> new_id x"])
    (auto simp: gives_def late_def dest: next_law next_new intro: order_trans)

lemma clock_then:
  "(\<And>n'. n \<le> n' \<Longrightarrow> gives (at_time n' T) (f n') Q) \<Longrightarrow> gives (at_time n T) (bindM (readM (sv_now S)) f) Q"
  by (fastforce simp: gives_def bindM_def readM_def late_def same_clock)

end

section \<open>Accounting for a delivery\<close>

definition messageKey :: "deliver_input \<Rightarrow> dkey" where
  "messageKey m = K_Delivery (dv_tenantId m) (dv_eventId m) (dv_deliveryId m)"

text \<open>An unpublished record of the outbox that will bring the delivery back to the queue.\<close>

definition waits_in_outbox :: "deliver_input \<Rightarrow> dtable \<Rightarrow> bool" where
  "waits_in_outbox m u \<longleftrightarrow> (\<exists>sh c x oi. u (K_Outbox sh c x) = Some (It_Outbox oi) \<and> oi_unpublished oi
     \<and> ob_kind (oi_record oi) = SCHEDULE_DELIVERY
     \<and> pl_eventId (ob_payload (oi_record oi)) = Some (dv_eventId m)
     \<and> pl_deliveryId (ob_payload (oi_record oi)) = Some (dv_deliveryId m))"

text \<open>
  The delivery of the message \<open>m\<close> needs that message no more: it is not there or has expired, it is terminal, another
  worker held it when this one looked (the row is the one of the table \<open>s\<close> at the time \<open>start\<close>), or the outbox has it.
\<close>

definition accounted :: "dtable \<Rightarrow> instant \<Rightarrow> deliver_input \<Rightarrow> dtable \<Rightarrow> instant \<Rightarrow> bool" where
  "accounted s start m u now \<longleftrightarrow> (case u (messageKey m) of
      Some (It_Delivery d) \<Rightarrow> isExpired (It_Delivery d) now \<or> isTerminalDeliveryState (d_state d)
        \<or> (u (messageKey m) = s (messageKey m) \<and> d_state d = In_Progress \<and> \<not> lease_expired start d)
        \<or> waits_in_outbox m u
    | _ \<Rightarrow> True)"

text \<open>No row of the outbox or of a history has the identifier.\<close>

definition unused :: "dtable \<Rightarrow> string \<Rightarrow> bool" where
  "unused u x \<longleftrightarrow> (\<forall>sh c. u (K_Outbox sh c x) = None) \<and> (\<forall>t e i c. u (K_History t e i c x) = None)"

text \<open>
  What the program keeps of a delivery in progress, so that an expired lease can be recovered: its token, the row of
  the active attempt and the event, which expire with it; and the rows that a recovery adds are not there yet.
\<close>

definition recoverable :: "deliver_input \<Rightarrow> dtable \<Rightarrow> delivery \<Rightarrow> bool" where
  "recoverable m s d \<longleftrightarrow> d_leaseToken d \<noteq> None \<and> unused s (recoveryId d)
     \<and> unused s (''obx_recovery_'' @ d_deliveryId d @ ''_'' @ js_int (d_version d))
     \<and> (case d_activeAttemptId d of None \<Rightarrow> True | Some active \<Rightarrow>
          (\<exists>a ev. s (K_Attempt (dv_tenantId m) (dv_eventId m) (dv_deliveryId m) (d_attemptCount d)) = Some (It_Attempt a)
             \<and> at_attemptId a = active \<and> at_deliveryId a = dv_deliveryId m \<and> at_attemptNumber a = d_attemptCount d
             \<and> at_outcome a = At_Started \<and> at_expiresAt a = d_expiresAt d
             \<and> s (K_Event (dv_tenantId m) (dv_eventId m)) = Some (It_Event ev) \<and> ev_expiresAt ev = d_expiresAt d))"

text \<open>The rows about the delivery are what the program keeps, and the new identifiers are not in use.\<close>

definition consistent :: "(string \<Rightarrow> bool) \<Rightarrow> deliver_input \<Rightarrow> dtable \<Rightarrow> bool" where
  "consistent new m s \<longleftrightarrow>
     s (K_Lookup (dv_tenantId m) LK_Delivery (dv_deliveryId m)) = Some (It_Lookup (dv_eventId m))
     \<and> (\<forall>x. new x \<longrightarrow> unused s x)
     \<and> (\<forall>d. s (messageKey m) = Some (It_Delivery d) \<longrightarrow>
          d_eventId d = dv_eventId m \<and> d_deliveryId d = dv_deliveryId m \<and> d_state d \<noteq> Pending
          \<and> (if d_state d = In_Progress then recoverable m s d
             else d_activeAttemptId d = None
               \<and> s (K_Attempt (dv_tenantId m) (dv_eventId m) (dv_deliveryId m) (d_attemptCount d + 1)) = None))"

text \<open>The request for the lease of a delivery that has been found.\<close>

definition leaseRequest :: "deliver_input \<Rightarrow> delivery \<Rightarrow> string \<Rightarrow> instant \<Rightarrow> lease_request" where
  "leaseRequest m initial token now =
     \<lparr>lq_tenantId = dv_tenantId m, lq_eventId = dv_eventId m, lq_deliveryId = dv_deliveryId m,
      lq_expectedVersion = d_version initial, lq_owner = dv_owner m, lq_token = token,
      lq_expiresAt = now + cs_timeoutMs (d_configSnapshot initial) + 5000\<rparr>"

lemma leaseRequest_sel [simp]:
  "lq_tenantId (leaseRequest m d token now) = dv_tenantId m" "lq_eventId (leaseRequest m d token now) = dv_eventId m"
  "lq_deliveryId (leaseRequest m d token now) = dv_deliveryId m"
  "lq_expectedVersion (leaseRequest m d token now) = d_version d"
  "lq_owner (leaseRequest m d token now) = dv_owner m" "lq_token (leaseRequest m d token now) = token"
  "leaseKey (leaseRequest m d token now) = messageKey m"
  by (simp_all add: leaseRequest_def leaseKey_def messageKey_def)

lemma accounted_absent: "u (messageKey m) = None \<Longrightarrow> accounted s start m u now"
  by (simp add: accounted_def)

lemma accounted_row:
  assumes "u (messageKey m) = Some (It_Delivery d)"
    and "isExpired (It_Delivery d) now \<or> isTerminalDeliveryState (d_state d) \<or> waits_in_outbox m u"
  shows "accounted s start m u now"
  using assms by (auto simp: accounted_def)

lemma expired_later: "isExpired it n \<Longrightarrow> n \<le> n' \<Longrightarrow> isExpired it n'"
  by (auto simp: isExpired_def split: option.splits expiry.splits intro: order_trans [OF _ zdiv_mono1])

text \<open>The record of a delivery that is put off, once it is there.\<close>

lemma waits_now:
  assumes "u (op_key (outboxPut shards b)) = Some (It_Outbox \<lparr>oi_record = b, oi_expiresAt = x, oi_unpublished = True,
      oi_lastPublicationFailureAt = y\<rparr>)"
    and "ob_kind b = SCHEDULE_DELIVERY" "pl_eventId (ob_payload b) = Some (dv_eventId m)"
    "pl_deliveryId (ob_payload b) = Some (dv_deliveryId m)"
  shows "waits_in_outbox m u"
  using assms by (force simp: waits_in_outbox_def outboxPut_def)

section \<open>Putting a delivery off\<close>

lemma deferralInput_sel [simp]:
  "df_tenantId (deferralInput t leased token nxt h b) = t" "df_eventId (deferralInput t leased token nxt h b) = d_eventId leased"
  "df_delivery (deferralInput t leased token nxt h b) = nxt"
  "df_expectedVersion (deferralInput t leased token nxt h b) = d_version leased"
  "df_leaseToken (deferralInput t leased token nxt h b) = option_or (d_leaseToken leased) token"
  "df_history (deferralInput t leased token nxt h b) = h" "df_outbox (deferralInput t leased token nxt h b) = b"
  by (simp_all add: deferralInput_def)

lemma defer_put_at:
  assumes "tx_distinct (deferTransaction shards inp current)"
  shows "tx_apply (deferTransaction shards inp current) s
      (K_Delivery (df_tenantId inp) (df_eventId inp) (d_deliveryId (df_delivery inp)))
      = Some (stored_delivery (df_delivery inp))"
    and "tx_apply (deferTransaction shards inp current) s (op_key (outboxPut shards (df_outbox inp)))
      = Some (It_Outbox \<lparr>oi_record = df_outbox inp, oi_expiresAt = to_epoch (Iso (ob_createdAt (df_outbox inp) + days 7)),
          oi_unpublished = True, oi_lastPublicationFailureAt = None\<rparr>)"
  using tx_apply_at [of "deliveryPut (df_tenantId inp) (df_eventId inp)
        (delivery_cond (df_expectedVersion inp) (\<lambda>x. d_leaseToken x = Some (df_leaseToken inp))) (df_delivery inp)",
      OF _ assms, of s]
    tx_apply_at [of "outboxPut shards (df_outbox inp)", OF _ assms, of s]
  by (simp_all add: deferTransaction_def deliveryPut_def outboxPut_def)

lemma defer_distinct:
  assumes "d_updatedAt current \<noteq> d_updatedAt (df_delivery inp)"
  shows "tx_distinct (deferTransaction shards inp current)"
proof -
  have dis: "op_key ` set (indexDeletes current) \<inter> op_key ` set (indexPuts (df_delivery inp)) = {}"
    using assms by (rule index_keys_disjoint)
  have idx: "k \<notin> op_key ` set (indexDeletes current)" "k \<notin> op_key ` set (indexPuts (df_delivery inp))"
    if "\<And>t c a i. k \<noteq> K_DeliveryIndex t c a i" for k
    using that by (auto simp: index_ops_keys deliveryIndexKey_def)
  show ?thesis
    using dis by (simp add: deferTransaction_def tx_distinct_def deliveryPut_def historyKey_def outboxPut_def idx Int_commute)
qed

lemma defer_conditions:
  "tx_conditions (deferTransaction shards inp current) s \<longleftrightarrow>
     delivery_cond (df_expectedVersion inp) (\<lambda>x. d_leaseToken x = Some (df_leaseToken inp))
       (s (K_Delivery (df_tenantId inp) (df_eventId inp) (d_deliveryId (df_delivery inp))))
     \<and> s (historyKey (df_tenantId inp) (df_eventId inp) (df_history inp)) = None
     \<and> s (op_key (outboxPut shards (df_outbox inp))) = None"
  by (auto simp: deferTransaction_def deliveryPut_def outboxPut_def)

context clocked_delivery
begin

text \<open>The worker holds the lease: its row is stored, and the identifiers and the attempt to come are not in use.\<close>

definition holds_lease :: "deliver_input \<Rightarrow> delivery \<Rightarrow> dtable \<Rightarrow> bool" where
  "holds_lease m leased u \<longleftrightarrow> u (messageKey m) = Some (stored_delivery leased) \<and> (\<forall>x. new_id x \<longrightarrow> unused u x)
     \<and> u (K_Attempt (dv_tenantId m) (dv_eventId m) (dv_deliveryId m) (d_attemptCount leased + 1)) = None"

definition accounts :: "dtable \<Rightarrow> instant \<Rightarrow> deliver_input \<Rightarrow> verdict \<Rightarrow> 'w \<Rightarrow> bool" where
  "accounts s start m v w \<longleftrightarrow> v = Acknowledge \<longrightarrow> accounted s start m (view w) (db_now (sv_db S) w)"

lemma defer_accounts:
  assumes key: "K_Delivery (df_tenantId inp) (df_eventId inp) (d_deliveryId (df_delivery inp)) = messageKey m"
    and ob: "ob_kind (df_outbox inp) = SCHEDULE_DELIVERY" "pl_eventId (ob_payload (df_outbox inp)) = Some (dv_eventId m)"
      "pl_deliveryId (ob_payload (df_outbox inp)) = Some (dv_deliveryId m)"
    and T: "\<And>u. T u \<Longrightarrow> \<exists>d. u (messageKey m) = Some (It_Delivery d) \<and> d_version d = df_expectedVersion inp
        \<and> d_leaseToken d = Some (df_leaseToken inp)"
      "\<And>u. T u \<Longrightarrow> u (historyKey (df_tenantId inp) (df_eventId inp) (df_history inp)) = None"
      "\<And>u. T u \<Longrightarrow> u (op_key (outboxPut (sv_shards S) (df_outbox inp))) = None"
  shows "gives (at_time n T) (bindM (defer_delivery (sv_db S) (sv_shards S) inp) (\<lambda>_. returnM Acknowledge)) (accounts s start m)"
proof -
  have conds: "tx_conditions (deferTransaction (sv_shards S) inp c) u" if "T u" for c u
    using T [OF that] by (auto simp: defer_conditions key delivery_cond_def version_is_def)
  have put_off: "gives (at_time n' (\<lambda>u. T u \<and> u (messageKey m) = x))
      (bindM (case as_delivery (live_item x n') of None \<Rightarrow> returnM False
         | Some c \<Rightarrow> db_write (sv_db S) (deferTransaction (sv_shards S) inp c)) (\<lambda>_. returnM Acknowledge)) (accounts s start m)"
    for x n'
  proof (cases "as_delivery (live_item x n')")
    case None
    have "accounts s start m Acknowledge w" if "at_time n' (\<lambda>u. T u \<and> u (messageKey m) = x) w" for w
    proof -
      from that T(1) [of "view w"] obtain d where d: "view w (messageKey m) = Some (It_Delivery d)" "x = Some (It_Delivery d)"
        "n' \<le> db_now (sv_db S) w" by (auto simp: late_def)
      with None have "isExpired (It_Delivery d) n'" by (simp add: live_item_def split: if_splits)
      with d show ?thesis by (auto simp: accounts_def intro: accounted_row expired_later)
    qed
    with None show ?thesis by (auto simp: gives_def bindM_def returnM_def)
  next
    case (Some c)
    let ?ops = "deferTransaction (sv_shards S) inp c"
    have "gives (at_time n' (\<lambda>u. T u \<and> u (messageKey m) = x))
        (bindM (db_write (sv_db S) ?ops) (\<lambda>_. returnM Acknowledge)) (accounts s start m)"
    proof (rule write_then [where ?T1.0 = "\<lambda>u. \<exists>y. u (messageKey m) = Some (stored_delivery y) \<and> waits_in_outbox m u"])
      fix u
      assume "tx_distinct ?ops"
      from defer_put_at [OF this, of u] waits_now [where b = "df_outbox inp" and shards = "sv_shards S" and m = m
          and u = "tx_apply ?ops u"] ob key
      show "\<exists>y. tx_apply ?ops u (messageKey m) = Some (stored_delivery y) \<and> waits_in_outbox m (tx_apply ?ops u)" by auto
    next
      show "gives (at_time n' (\<lambda>u. \<exists>y. u (messageKey m) = Some (stored_delivery y) \<and> waits_in_outbox m u))
          (returnM Acknowledge) (accounts s start m)"
        by (auto simp: late_def accounts_def stored_delivery_def intro!: gives_return intro: accounted_row)
      show "gives (at_time n' (\<lambda>u. (T u \<and> u (messageKey m) = x) \<and> \<not> tx_conditions ?ops u)) (returnM Acknowledge)
          (accounts s start m)"
        using conds by (auto simp: late_def intro!: gives_return)
    qed
    with Some show ?thesis by simp
  qed
  show ?thesis
    unfolding defer_delivery_def getDeliveryAt_def key op_bind_assoc
    by (rule get_then) (rule put_off)
qed

lemma postpone_accounts:
  assumes ids: "d_eventId leased = dv_eventId m" "d_deliveryId leased = dv_deliveryId m"
    and tok: "d_leaseToken leased \<noteq> None"
  shows "gives (at_time n (holds_lease m leased))
    (postpone S (dv_tenantId m) leased token now to category at_ms summary) (accounts s start m)"
proof -
  have T: "u (historyKey t e (deferralHistory leased y category at_ms now summary)) = None"
    "u (op_key (outboxPut (sv_shards S) (scheduleOutbox leased x at_ms now RESUME trace))) = None"
    "\<exists>d. u (messageKey m) = Some (It_Delivery d) \<and> d_version d = d_version leased
      \<and> d_leaseToken d = Some (option_or (d_leaseToken leased) token)"
    if "holds_lease m leased u" "new_id y" "new_id x" for u t e x y trace
    using that tok by (auto simp: holds_lease_def unused_def historyKey_def outboxPut_def deferralHistory_def
        scheduleOutbox_def stored_delivery_def option_or_def)
  show ?thesis
    unfolding postpone_def
  proof (intro gives_lift new_then gives_read defer_accounts)
    fix nxt x trace y u
    assume nxt: "transitionDelivery leased (deferralTransition leased token to category at_ms now) = Inr nxt"
      and new: "new_id x" "new_id y"
    let ?inp = "deferralInput (dv_tenantId m) leased token nxt (deferralHistory leased y category at_ms now summary)
        (scheduleOutbox leased x at_ms now RESUME trace)"
    have same: "d_deliveryId nxt = d_deliveryId leased" using nxt by (auto simp: transitionDelivery_Inr)
    show "K_Delivery (df_tenantId ?inp) (df_eventId ?inp) (d_deliveryId (df_delivery ?inp)) = messageKey m"
      using same ids by (simp add: messageKey_def)
    show "ob_kind (df_outbox ?inp) = SCHEDULE_DELIVERY" "pl_eventId (ob_payload (df_outbox ?inp)) = Some (dv_eventId m)"
      "pl_deliveryId (ob_payload (df_outbox ?inp)) = Some (dv_deliveryId m)"
      using ids by (simp_all add: scheduleOutbox_def)
    assume u: "holds_lease m leased u"
    show "\<exists>d. u (messageKey m) = Some (It_Delivery d) \<and> d_version d = df_expectedVersion ?inp
        \<and> d_leaseToken d = Some (df_leaseToken ?inp)"
      "u (historyKey (df_tenantId ?inp) (df_eventId ?inp) (df_history ?inp)) = None"
      "u (op_key (outboxPut (sv_shards S) (df_outbox ?inp))) = None"
      using T [OF u new(2,1)] by simp_all
  qed
qed

section \<open>The permits\<close>

lemma late_weaken: "at_time n' T' w \<Longrightarrow> n \<le> n' \<Longrightarrow> (\<And>u. T' u \<Longrightarrow> T u) \<Longrightarrow> at_time n T w"
  by (auto simp: late_def)

lemma late_weaken_gives: "gives (at_time n T) m Q \<Longrightarrow> n \<le> n' \<Longrightarrow> (\<And>u. T' u \<Longrightarrow> T u) \<Longrightarrow> gives (at_time n' T') m Q"
  by (erule gives_weaken) (auto intro: late_weaken)

lemma runtime_kept:
  assumes "holds_lease m leased u" and "op_key ` set ops \<subseteq> {K_Runtime t d r}"
  shows "holds_lease m leased (tx_apply ops u)"
proof -
  have "tx_apply ops u k = u k" if "k \<noteq> K_Runtime t d r" for k
    using that assms(2) by (intro tx_apply_other) auto
  then show ?thesis using assms(1) by (simp add: holds_lease_def unused_def messageKey_def)
qed

lemma runtime_write:
  assumes "op_key op = K_Runtime t d r"
  shows "gives (at_time n (holds_lease m leased)) (bindM (db_write (sv_db S) [op]) (\<lambda>ok. returnM (g ok)))
    (\<lambda>_. at_time n (holds_lease m leased))"
proof (rule write_then [where ?T1.0 = "holds_lease m leased"])
  show "holds_lease m leased (tx_apply [op] u)" if "holds_lease m leased u" for u
    using that by (rule runtime_kept) (simp add: assms)
qed (auto intro!: gives_return elim: late_weaken)

lemma permit_rounds_keep:
  assumes "\<And>current n. gives (at_time n (holds_lease m leased)) (body current) (\<lambda>_. at_time n (holds_lease m leased))"
  shows "gives (at_time n (holds_lease m leased)) (retryM k (bindM (mapM f (getCore (sv_db S) key)) body) (returnM b))
    (\<lambda>_. at_time n (holds_lease m leased))"
proof (rule gives_retry)
  have "gives (at_time n (holds_lease m leased)) (bindM (mapM f (getCore (sv_db S) key)) body)
      (\<lambda>_. at_time n (holds_lease m leased))"
    by (rule get_then, rule gives_weaken [OF assms]) (auto elim: late_weaken)
  then show "gives (at_time n (holds_lease m leased)) (bindM (mapM f (getCore (sv_db S) key)) body)
      (\<lambda>r w. case r of None \<Rightarrow> at_time n (holds_lease m leased) w | Some a \<Rightarrow> at_time n (holds_lease m leased) w)"
    by (rule gives_weaken) (auto split: option.split)
qed (simp add: gives_return)

lemma circuit_permit_keeps:
  "gives (at_time n (holds_lease m leased)) (acquireCircuitPermit (sv_db S) inp) (\<lambda>_. at_time n (holds_lease m leased))"
  unfolding acquireCircuitPermit_def circuitPermitRound_def
  by (rule permit_rounds_keep) (auto simp: Let_def probePut_def circuitKey_def put_op_def split: option.split
      intro!: gives_return runtime_write)

lemma rate_permit_keeps:
  "gives (at_time n (holds_lease m leased)) (acquireRatePermit (sv_db S) inp) (\<lambda>_. at_time n (holds_lease m leased))"
  unfolding acquireRatePermit_def ratePermitRound_def
  by (rule permit_rounds_keep) (auto simp: Let_def ratePut_def rateKey_def put_op_def intro!: gives_return runtime_write)

section \<open>The result of an attempt\<close>

text \<open>When a finalization says that it succeeded, its transaction has just been committed.\<close>

definition finalized_by :: "finalize_input \<Rightarrow> dtable \<Rightarrow> bool" where
  "finalized_by inp u \<longleftrightarrow> (\<exists>c ev updated u0. tx_distinct (finalizeTransaction (sv_shards S) inp c ev updated)
     \<and> u = tx_apply (finalizeTransaction (sv_shards S) inp c ev updated) u0)"

lemma finalize_gives:
  "gives (at_time n T) (finalizeAttempt (sv_db S) (sv_shards S) inp) (\<lambda>ok w. ok \<longrightarrow> finalized_by inp (view w))"
proof -
  let ?R = "\<lambda>r w. at_time n (\<lambda>_. True) w \<and> (r = Some True \<longrightarrow> finalized_by inp (view w))"
  have put: "gives (at_time n' T') (bindM (db_write (sv_db S) (finalizeTransaction (sv_shards S) inp c ev upd))
      (\<lambda>ok. returnM (if ok then Some True else None))) ?R"
    if "n \<le> n'" for n' T' c ev upd
    by (rule write_then [where ?T1.0 = "finalized_by inp"])
      (use that in \<open>auto simp: finalized_by_def late_def intro!: gives_return\<close>)
  have return: "gives (at_time n' T') (returnM (Some False)) ?R" if "n \<le> n'" for n' T'
    using that by (auto simp: late_def intro!: gives_return)
  have round: "gives (at_time n (\<lambda>_. True)) (finalizeAttemptRound (sv_db S) (sv_shards S) inp) ?R"
    unfolding finalizeAttemptRound_def Let_def getDeliveryAt_def getEvent_def
    by (intro get_then) (auto split: option.split intro!: return gives_lift put)
  show ?thesis
    unfolding finalizeAttempt_def
    by (rule gives_weaken [where P = "at_time n (\<lambda>_. True)" and Q = "\<lambda>ok w. ok \<longrightarrow> finalized_by inp (view w)"],
        rule gives_retry, rule gives_weaken [OF round])
      (auto simp: late_def intro!: gives_return split: option.split)
qed

lemma finish_accounts:
  assumes ids: "d_eventId d = dv_eventId m" "d_deliveryId d = dv_deliveryId m"
  shows "gives (at_time n T) (finishAttempt S (dv_tenantId m) d token attempt hs answer circuit policy) (accounts s start m)"
proof -
  let ?k = "resultOf answer"
  have upcoming: "gives (at_time n' T) (nextAttemptAt S d answer completed)
      (\<lambda>r w. at_time n' T w \<and> (cl_retryable ?k \<longrightarrow> r \<noteq> None))" for n' completed
    by (auto simp: nextAttemptAt_def intro!: gives_return outside_then outside_calls)
  have row: "accounted s start m (view w) (db_now (sv_db S) w)"
    if fin: "finalized_by (resultInput (dv_tenantId m) d token final a h ob c) (view w)"
      and tr: "transitionDelivery d (resultTransition d token ?k nextAt completed) = Inr final"
      and ob: "cl_retryable ?k \<Longrightarrow> \<exists>b. ob = Some b \<and> ob_kind b = SCHEDULE_DELIVERY
          \<and> pl_eventId (ob_payload b) = Some (dv_eventId m) \<and> pl_deliveryId (ob_payload b) = Some (dv_deliveryId m)"
    for w final a h ob c nextAt completed
  proof -
    let ?inp = "resultInput (dv_tenantId m) d token final a h ob c"
    from fin obtain x ev upd u0 where dis: "tx_distinct (finalizeTransaction (sv_shards S) ?inp x ev upd)"
      and u: "view w = tx_apply (finalizeTransaction (sv_shards S) ?inp x ev upd) u0"
      unfolding finalized_by_def by auto
    have fi: "fi_tenantId ?inp = dv_tenantId m" "fi_eventId ?inp = dv_eventId m" "fi_delivery ?inp = final" "fi_outbox ?inp = ob"
      by (simp_all add: resultInput_def ids)
    have state: "d_state final = resultState ?k d" and same: "d_deliveryId final = dv_deliveryId m"
      using tr ids by (auto simp: transitionDelivery_Inr resultTransition_def)
    have k: "view w (messageKey m) = Some (stored_delivery (final\<lparr>d_activeAttemptId := None\<rparr>))"
      using finalize_put_at(1) [OF dis, of u0] by (simp add: u fi same messageKey_def)
    show ?thesis
    proof (cases "isTerminalDeliveryState (d_state final)")
      case True
      with k show ?thesis by (simp add: accounted_def stored_delivery_def)
    next
      case False
      then have "cl_retryable ?k" by (auto simp: state resultState_def split: if_splits)
      from ob [OF this] obtain b where b: "ob = Some b" "ob_kind b = SCHEDULE_DELIVERY"
        "pl_eventId (ob_payload b) = Some (dv_eventId m)" "pl_deliveryId (ob_payload b) = Some (dv_deliveryId m)" by auto
      have "fi_outbox ?inp = Some b" using fi(4) b(1) by (rule trans)
      from finalize_put_at(4) [OF dis this, of u0, folded u]
      have "waits_in_outbox m (view w)" by (rule waits_now) (fact b)+
      with k show ?thesis by (simp add: accounted_def stored_delivery_def)
    qed
  qed
  have last: "gives (at_time n' T) (bindM (finalizeAttempt (sv_db S) (sv_shards S)
      (resultInput (dv_tenantId m) d token final a h ob c))
      (\<lambda>finalized. if finalized then returnM Acknowledge else throwM (Error ''DELIVERY_FINALIZATION_CONFLICT'')))
      (accounts s start m)"
    if "transitionDelivery d (resultTransition d token ?k nextAt completed) = Inr final"
      and "cl_retryable ?k \<Longrightarrow> \<exists>b. ob = Some b \<and> ob_kind b = SCHEDULE_DELIVERY
          \<and> pl_eventId (ob_payload b) = Some (dv_eventId m) \<and> pl_deliveryId (ob_payload b) = Some (dv_deliveryId m)"
    for n' final a h ob c nextAt completed
    by (rule gives_bind [OF finalize_gives]) (use that in \<open>auto simp: accounts_def intro!: gives_return gives_throw row\<close>)
  show ?thesis
    unfolding finishAttempt_def Let_def
  proof (rule clock_then, rule gives_bind [OF upcoming], rule gives_lift)
    fix n' nextAt final
    assume tr: "transitionDelivery d (resultTransition d token ?k nextAt n') = Inr final"
    have ob: "ob_kind (scheduleOutbox d x at_ms now RETRY tr) = SCHEDULE_DELIVERY
        \<and> pl_eventId (ob_payload (scheduleOutbox d x at_ms now RETRY tr)) = Some (dv_eventId m)
        \<and> pl_deliveryId (ob_payload (scheduleOutbox d x at_ms now RETRY tr)) = Some (dv_deliveryId m)" for x at_ms now tr
      by (simp add: scheduleOutbox_def ids)
    have some: "gives (at_time n' T) (bindM (sv_next S p) (\<lambda>historyId.
          bindM (finalizeAttempt (sv_db S) (sv_shards S)
             (resultInput (dv_tenantId m) d token final (completedAttempt S d attempt hs answer ?k n')
               (resultHistory d historyId ?k nextAt n') outbox (circuitAfter circuit policy n' ?k)))
           (\<lambda>finalized. if finalized then returnM Acknowledge
              else throwM (Error ''DELIVERY_FINALIZATION_CONFLICT'')))) (accounts s start m)"
      if "cl_retryable ?k \<Longrightarrow> \<exists>b. outbox = Some b \<and> ob_kind b = SCHEDULE_DELIVERY
          \<and> pl_eventId (ob_payload b) = Some (dv_eventId m) \<and> pl_deliveryId (ob_payload b) = Some (dv_deliveryId m)"
      for outbox p
      using that by (intro new_then last [OF tr])
    show "gives (\<lambda>w. at_time n' T w \<and> (cl_retryable ?k \<longrightarrow> nextAt \<noteq> None))
       (bindM (case nextAt of None \<Rightarrow> returnM None
          | Some next_at \<Rightarrow> bindM (sv_next S ''obx'') (\<lambda>outboxId. bindM (readM (sv_traceparent S)) (\<lambda>trace.
              returnM (Some (scheduleOutbox d outboxId next_at n' RETRY trace)))))
        (\<lambda>outbox. bindM (sv_next S ''req'') (\<lambda>historyId.
          bindM (finalizeAttempt (sv_db S) (sv_shards S)
             (resultInput (dv_tenantId m) d token final (completedAttempt S d attempt hs answer ?k n')
               (resultHistory d historyId ?k nextAt n') outbox (circuitAfter circuit policy n' ?k)))
           (\<lambda>finalized. if finalized then returnM Acknowledge
              else throwM (Error ''DELIVERY_FINALIZATION_CONFLICT''))))) (accounts s start m)"
    proof (cases nextAt)
      case None
      show ?thesis
      proof (cases "cl_retryable ?k")
        case True
        with None show ?thesis by (simp add: gives_def)
      next
        case False
        show ?thesis
          unfolding None option.case op_bind_return
          by (rule gives_weaken [where P = "at_time n' T"], rule some [unfolded None]) (use False in auto)
      qed
    next
      case (Some x)
      show ?thesis
        unfolding Some option.case op_bind_assoc op_bind_return
        by (rule gives_weaken [where P = "at_time n' T"], rule new_then, rule gives_read, rule some [unfolded Some])
          (use ob in auto)
    qed
  qed
qed

section \<open>The run of a message\<close>

lemma attempt_accounts:
  assumes ids: "d_eventId leased = dv_eventId m" "d_deliveryId leased = dv_deliveryId m"
    and tok: "d_leaseToken leased \<noteq> None" "d_activeAttemptId leased = None"
    and cx: "cx_tenantId cx = dv_tenantId m"
  shows "gives (at_time n (holds_lease m leased)) (attemptDelivery S cx leased token circuit policy) (accounts s start m)"
proof -
  obtain lease where lease: "d_leaseToken leased = Some lease" using tok(1) by auto
  have begin_then: "gives (at_time n' (holds_lease m leased)) (bindM (startAttempt (sv_db S)
         \<lparr>st_tenantId = cx_tenantId cx, st_eventId = d_eventId leased, st_delivery = leased,
          st_expectedVersion = d_version leased, st_attempt = a\<rparr>) (\<lambda>begun.
       case begun of None \<Rightarrow> returnM Acknowledge
       | Some d \<Rightarrow> bindM (sendRequest S cx d) (\<lambda>(hs, answer).
           finishAttempt S (cx_tenantId cx) d token a hs answer circuit policy))) (accounts s start m)"
    if a: "at_attemptNumber a = d_attemptCount leased + 1" "at_deliveryId a = d_deliveryId leased" for n' a
  proof -
    let ?in = "\<lparr>st_tenantId = cx_tenantId cx, st_eventId = d_eventId leased, st_delivery = leased,
          st_expectedVersion = d_version leased, st_attempt = a\<rparr>"
    let ?d = "startedDelivery ?in"
    have cond: "tx_conditions (startTransaction ?in lease) u" if "holds_lease m leased u" for u
      using that tok lease ids cx a
      by (auto simp: startTransaction_def holds_lease_def deliveryPut_def delivery_cond_def version_is_def messageKey_def
          attemptKey_def stored_delivery_def startedDelivery_def)
    have go: "gives (at_time n' T) (bindM (sendRequest S cx ?d) (\<lambda>(hs, answer).
           finishAttempt S (cx_tenantId cx) ?d token a hs answer circuit policy)) (accounts s start m)" for T
      by (rule outside_then [OF outside_request])
        (auto simp: cx ids startedDelivery_def split: prod.split intro!: finish_accounts)
    have "gives (at_time n' (holds_lease m leased)) (bindM (db_write (sv_db S) (startTransaction ?in lease)) (\<lambda>ok.
        case (if ok then Some ?d else None) of None \<Rightarrow> returnM Acknowledge
       | Some d \<Rightarrow> bindM (sendRequest S cx d) (\<lambda>(hs, answer).
           finishAttempt S (cx_tenantId cx) d token a hs answer circuit policy))) (accounts s start m)"
      by (rule write_then [where ?T1.0 = "\<lambda>_. True"]) (use cond go in \<open>auto simp: late_def intro!: gives_return\<close>)
    then show ?thesis by (simp add: startAttempt_def lease op_bind_assoc op_bind_return)
  qed
  show ?thesis
    unfolding attemptDelivery_def Let_def
    by (rule clock_then, rule new_then, rule gives_read, rule gives_weaken [OF begin_then])
      (auto simp: newAttempt_def elim: late_weaken)
qed

lemma leased_accounts:
  assumes ids: "d_eventId leased = dv_eventId m" "d_deliveryId leased = dv_deliveryId m"
    and tok: "d_leaseToken leased \<noteq> None" "d_activeAttemptId leased = None"
    and cx: "cx_tenantId cx = dv_tenantId m"
  shows "gives (at_time n (holds_lease m leased)) (deliverLeased S cx m leased token now) (accounts s start m)"
proof -
  note off = postpone_accounts [OF ids tok(1)] and go = attempt_accounts [OF ids tok cx]
  note circuit = gives_bind [OF circuit_permit_keeps] and rate = gives_bind [OF rate_permit_keeps]
  show ?thesis
    unfolding deliverLeased_def Let_def cx getDestination_def
    by (rule get_then, rule gives_weaken [where P = "at_time n (holds_lease m leased)"])
      (auto split: option.split elim: late_weaken intro!: off circuit rate go)
qed

lemma now_then:
  "(\<And>n'. n \<le> n' \<Longrightarrow> gives (at_time n' T) (bindM (f n') g) Q) \<Longrightarrow> gives (at_time n T) (bindM (withNow (sv_db S) f) g) Q"
  by (fastforce simp: gives_def bindM_def withNow_def late_def)

lemma lease_holds:
  assumes con: "consistent new_id m s" "s (messageKey m) = Some (It_Delivery d)" "d_state d \<noteq> In_Progress"
    and tr: "transitionDelivery d (leaseTransition (leaseRequest m d token now) now') = Inr leased"
    and dis: "tx_distinct (leaseTransaction (leaseRequest m d token now) now' d leased)"
  shows "holds_lease m leased (tx_apply (leaseTransaction (leaseRequest m d token now) now' d leased) s)"
proof -
  let ?q = "leaseRequest m d token now"
  let ?ops = "leaseTransaction ?q now' d leased"
  have key: "leaseKey ?q = messageKey m" by (simp add: leaseKey_def leaseRequest_def messageKey_def)
  have keys: "op_key ` set ?ops = insert (messageKey m) (deliveryIndexKey d ` set (deliveryIndexCategories d)
      \<union> deliveryIndexKey leased ` set (deliveryIndexCategories leased))"
    using key by (simp add: leaseTransaction_def leaseKey_def image_Un index_ops_keys)
  have other: "tx_apply ?ops s k = s k" if "k \<noteq> messageKey m" "\<And>t c a i. k \<noteq> K_DeliveryIndex t c a i" for k
    by (rule tx_apply_other) (use that in \<open>auto simp: keys deliveryIndexKey_def\<close>)
  have "d_attemptCount leased = d_attemptCount d"
    using tr by (auto simp: transitionDelivery_Inr)
  with con show ?thesis
    unfolding holds_lease_def consistent_def
    using lease_put_at [OF dis, of s] by (simp add: key unused_def other messageKey_def)
qed

lemma found_accounts:
  assumes con: "consistent new_id m s" "s (messageKey m) = Some (It_Delivery d)"
    and live: "\<not> isTerminalDeliveryState (d_state d)" "d_state d \<noteq> In_Progress"
    and cx: "cx_tenantId cx = dv_tenantId m" and n: "n0 \<le> n"
  shows "gives (at_time n (\<lambda>u. u = s)) (deliverFound S cx m d) (accounts s n0 m)"
proof -
  have ids: "d_eventId d = dv_eventId m" "d_deliveryId d = dv_deliveryId m" "d_state d \<noteq> Pending" "d_activeAttemptId d = None"
    using con live(2) by (auto simp: consistent_def)
  then have leasable_state: "d_state d \<in> set leasable_states"
    using live by (cases "d_state d") (auto simp: leasable_states_def)
  have expired: "accounted s n0 m (view w) (db_now (sv_db S) w)"
    if "at_time n' (\<lambda>u. u = s) w" "isExpired (It_Delivery d) n'" for w n'
    using that con(2) by (auto simp: late_def accounted_def dest: expired_later)
  have lease: "gives (at_time n1 (\<lambda>u. u = s)) (bindM (acquireLease (sv_db S) (leaseRequest m d token now)) (\<lambda>leased.
       case leased of None \<Rightarrow> returnM Acknowledge
       | Some d \<Rightarrow> if d_leaseToken d \<noteq> Some token then returnM Acknowledge
           else deliverLeased S cx m d token now)) (accounts s n0 m)"
    if el: "not_yet now d = None" "now \<le> n1" for token now n1
    unfolding acquireLease_def getDeliveryAt_def op_bind_assoc
  proof (rule get_then)
    let ?q = "leaseRequest m d token now"
    fix x n2
    assume n2: "n1 \<le> n2"
    have key: "K_Delivery (lq_tenantId ?q) (lq_eventId ?q) (lq_deliveryId ?q) = messageKey m"
      by (simp add: leaseRequest_def messageKey_def)
    let ?go = "\<lambda>leased. case leased of None \<Rightarrow> returnM Acknowledge
       | Some d \<Rightarrow> if d_leaseToken d \<noteq> Some token then returnM Acknowledge
           else deliverLeased S cx m d token now"
    have put: "gives (at_time n3 (\<lambda>u. u = s)) (bindM (db_write (sv_db S) (leaseTransaction ?q n4 d leased)) (\<lambda>ok.
        ?go (if ok then Some leased else None))) (accounts s n0 m)"
      if tr: "transitionDelivery d (leaseTransition ?q n4) = Inr leased" and "leasable ?q n4 d" for leased n3 n4
    proof (rule write_then [where ?T1.0 = "holds_lease m leased"])
      have leased: "d_eventId leased = dv_eventId m" "d_deliveryId leased = dv_deliveryId m"
        "d_leaseToken leased = Some token" "d_activeAttemptId leased = None"
        using tr ids by (auto simp: transitionDelivery_Inr leaseTransition_def leaseRequest_def)
      with leased_accounts [OF leased(1,2) _ leased(4) cx]
      show "gives (at_time n3 (holds_lease m leased)) (?go (if True then Some leased else None)) (accounts s n0 m)" by simp
      show "holds_lease m leased (tx_apply (leaseTransaction ?q n4 d leased) u)"
        if "u = s" "tx_distinct (leaseTransaction ?q n4 d leased)" for u
        using lease_holds [OF con live(2) tr that(2)] that(1) by simp
      have "tx_conditions (leaseTransaction ?q n4 d leased) s"
        using con(2) key \<open>leasable ?q n4 d\<close> lease_conditions [of s ?q d n4 leased] by (simp add: leaseKey_def)
      then show "gives (at_time n3 (\<lambda>u. u = s \<and> \<not> tx_conditions (leaseTransaction ?q n4 d leased) u))
          (?go (if False then Some leased else None)) (accounts s n0 m)"
        by (auto simp: late_def gives_def)
    qed
    show "gives (at_time n2 (\<lambda>u. u = s \<and> u (K_Delivery (lq_tenantId ?q) (lq_eventId ?q) (lq_deliveryId ?q)) = x))
      (bindM (case as_delivery (live_item x n2) of None \<Rightarrow> returnM None
        | Some current \<Rightarrow> withNow (sv_db S) (\<lambda>now.
            if \<not> leasable ?q now current then returnM None
            else bindM (liftM (transitionDelivery current (leaseTransition ?q now))) (\<lambda>leased.
                 bindM (db_write (sv_db S) (leaseTransaction ?q now current leased)) (\<lambda>ok.
                 returnM (if ok then Some leased else None))))) ?go) (accounts s n0 m)"
    proof (cases "x = Some (It_Delivery d) \<and> \<not> isExpired (It_Delivery d) n2")
      case False
      show ?thesis
      proof (cases "x = Some (It_Delivery d)")
        case True
        with False have "live_item x n2 = None" by (simp add: live_item_def)
        then show ?thesis
          by (auto simp: op_bind_return accounts_def intro!: gives_return expired [of n2])
             (use False True in \<open>auto elim: late_weaken\<close>)
      next
        case False
        then have "\<not> at_time n2 (\<lambda>u. u = s \<and> u (messageKey m) = x) w" for w
          using con(2) by (auto simp: late_def)
        then show ?thesis unfolding key gives_def by blast
      qed
    next
      case True
      have "leasable ?q n4 d" if "n2 \<le> n4" for n4
        using that n2 el leasable_state
        by (auto simp: leasable_def leaseRequest_def eligible_by_def not_yet_def split: option.splits if_splits)
      then have "gives (at_time n2 (\<lambda>u. u = s)) (bindM (withNow (sv_db S) (\<lambda>now.
            if \<not> leasable ?q now d then returnM None
            else bindM (liftM (transitionDelivery d (leaseTransition ?q now))) (\<lambda>leased.
                 bindM (db_write (sv_db S) (leaseTransaction ?q now d leased)) (\<lambda>ok.
                 returnM (if ok then Some leased else None))))) ?go) (accounts s n0 m)"
        by (intro now_then) (auto simp: op_bind_assoc op_bind_return intro!: gives_lift put)
      then show ?thesis
        using True by (auto simp: live_item_def elim!: gives_weaken late_weaken)
    qed
  qed
  show ?thesis
    unfolding deliverFound_def
  proof (rule clock_then)
    fix now
    assume now: "n \<le> now"
    have "\<not> lease_expired now d" using live(2) by (simp add: lease_expired_def)
    moreover have "accounts s n0 m (Delay k) w" for k w by (simp add: accounts_def)
    ultimately show "gives (at_time now (\<lambda>u. u = s)) (if lease_expired now d
        then bindM (dl_random S) (\<lambda>random.
             bindM (recoverExpired (sv_db S) (sv_shards S)
                     \<lparr>re_tenantId = dv_tenantId m, re_eventId = dv_eventId m,
                      re_deliveryId = dv_deliveryId m, re_now = now, re_random = random\<rparr>) (\<lambda>_.
            returnM Acknowledge))
       else case not_yet now d of
         Some seconds \<Rightarrow> returnM (Delay seconds)
       | None \<Rightarrow>
     bindM (sv_next S ''lease'') (\<lambda>token.
     bindM (acquireLease (sv_db S)
              \<lparr>lq_tenantId = dv_tenantId m, lq_eventId = dv_eventId m, lq_deliveryId = dv_deliveryId m,
               lq_expectedVersion = d_version d, lq_owner = dv_owner m, lq_token = token,
               lq_expiresAt = now + cs_timeoutMs (d_configSnapshot d) + 5000\<rparr>) (\<lambda>leased.
       case leased of None \<Rightarrow> returnM Acknowledge
       | Some d \<Rightarrow> if d_leaseToken d \<noteq> Some token then returnM Acknowledge
           else deliverLeased S cx m d token now))) (accounts s n0 m)"
      using lease [of now now, unfolded leaseRequest_def]
      by (auto split: option.split intro!: gives_return new_then)
  qed
qed

section \<open>A delivery in progress\<close>

lemma missing_accounted:
  assumes "\<And>d. s (messageKey m) = Some (It_Delivery d) \<Longrightarrow> isExpired (It_Delivery d) n" and "at_time n (\<lambda>u. u = s) w"
  shows "accounted s n0 m (view w) (db_now (sv_db S) w)"
  using assms by (auto simp: late_def accounted_def split: option.split item.split dest: expired_later)

lemma find_then:
  assumes con: "consistent new_id m s"
    and none: "\<And>n'. n \<le> n' \<Longrightarrow> (\<And>d. s (messageKey m) = Some (It_Delivery d) \<Longrightarrow> isExpired (It_Delivery d) n')
      \<Longrightarrow> gives (at_time n' (\<lambda>u. u = s)) (g None) Q"
    and some: "\<And>n' d. n \<le> n' \<Longrightarrow> s (messageKey m) = Some (It_Delivery d) \<Longrightarrow> gives (at_time n' (\<lambda>u. u = s)) (g (Some d)) Q"
  shows "gives (at_time n (\<lambda>u. u = s)) (bindM (getDelivery (sv_db S) (dv_tenantId m) (dv_deliveryId m)) g) Q"
  unfolding getDelivery_def op_bind_assoc
proof (rule get_then)
  fix x n1
  assume n1: "n \<le> n1"
  let ?rest = "\<lambda>p. bindM (case p of None \<Rightarrow> returnM None
      | Some eventId \<Rightarrow> mapM as_delivery (getCore (sv_db S) (K_Delivery (dv_tenantId m) eventId (dv_deliveryId m)))) g"
  have look: "s (K_Lookup (dv_tenantId m) LK_Delivery (dv_deliveryId m)) = Some (It_Lookup (dv_eventId m))"
    using con by (simp add: consistent_def)
  have row: "gives (at_time n2 (\<lambda>u. u = s)) (g (as_delivery (live_item (s (messageKey m)) n2))) Q" if "n \<le> n2" for n2
  proof (cases "as_delivery (live_item (s (messageKey m)) n2)")
    case None
    then have "isExpired (It_Delivery d) n2" if "s (messageKey m) = Some (It_Delivery d)" for d
      using that by (simp add: live_item_def split: if_splits)
    from none [OF \<open>n \<le> n2\<close> this] None show ?thesis by simp
  next
    case (Some d)
    then have "s (messageKey m) = Some (It_Delivery d)"
      by (cases "s (messageKey m)") (auto simp: live_item_def split: if_splits elim: as_delivery.elims)
    from some [OF \<open>n \<le> n2\<close> this] Some show ?thesis by simp
  qed
  have "gives (at_time n1 (\<lambda>u. u = s)) (bindM (mapM as_delivery (getCore (sv_db S) (messageKey m))) g) Q"
  proof (rule get_then)
    fix y n2
    assume "n1 \<le> n2"
    with row [of n2] n1 show "gives (at_time n2 (\<lambda>u. u = s \<and> u (messageKey m) = y)) (g (as_delivery (live_item y n2))) Q"
      by (cases "y = s (messageKey m)") (auto simp: late_def gives_def)
  qed
  then have "gives (at_time n1 (\<lambda>u. u = s)) (?rest (Some (dv_eventId m))) Q" by (simp add: messageKey_def)
  then show "gives (at_time n1 (\<lambda>u. u = s \<and> u (K_Lookup (dv_tenantId m) LK_Delivery (dv_deliveryId m)) = x))
      (?rest (as_lookup (live_item x n1))) Q"
    using look by (cases "x = Some (It_Lookup (dv_eventId m))") (auto simp: late_def gives_def live_item_def isExpired_def)
qed

text \<open>A finalization whose conditions hold: it succeeds, unless the delivery has expired.\<close>

lemma finalize_accounts:
  assumes key: "K_Delivery (fi_tenantId inp) (fi_eventId inp) (d_deliveryId (fi_delivery inp)) = messageKey m"
    and d: "s (messageKey m) = Some (It_Delivery d)"
    and ev: "s (K_Event (fi_tenantId inp) (fi_eventId inp)) = Some (It_Event ev)" "ev_expiresAt ev = d_expiresAt d"
    and ok: "claim_holds inp d" "outcome_started (s (attemptKey (fi_tenantId inp) (fi_eventId inp) (fi_attempt inp)))"
      "rows_are_new (sv_shards S) inp s" "circuit_fits inp s"
    and ob: "\<not> isTerminalDeliveryState (d_state (fi_delivery inp)) \<Longrightarrow> \<exists>b. fi_outbox inp = Some b \<and> ob_kind b = SCHEDULE_DELIVERY
          \<and> pl_eventId (ob_payload b) = Some (dv_eventId m) \<and> pl_deliveryId (ob_payload b) = Some (dv_deliveryId m)"
  shows "gives (at_time n (\<lambda>u. u = s)) (bindM (finalizeAttempt (sv_db S) (sv_shards S) inp) (\<lambda>_. returnM Acknowledge))
    (accounts s n0 m)"
proof -
  let ?acc = "\<lambda>w. accounted s n0 m (view w) (db_now (sv_db S) w)"
  have cond: "tx_conditions (finalizeTransaction (sv_shards S) inp d ev updated) s" for updated
    using finalize_conditions [of s inp d ev] d ev(1) ok by (simp add: key)
  have put: "gives (at_time n' (\<lambda>u. u = s)) (bindM (db_write (sv_db S) (finalizeTransaction (sv_shards S) inp d ev updated))
      (\<lambda>ok. returnM (if ok then Some True else None))) (\<lambda>r w. r \<noteq> None \<and> ?acc w)" for n' updated
  proof (rule write_then [where ?T1.0 = "\<lambda>u. \<exists>x. u (messageKey m) = Some (It_Delivery x)
      \<and> (isTerminalDeliveryState (d_state x) \<or> waits_in_outbox m u)"])
    fix u
    assume dis: "tx_distinct (finalizeTransaction (sv_shards S) inp d ev updated)"
    let ?u = "tx_apply (finalizeTransaction (sv_shards S) inp d ev updated) u"
    have row: "?u (messageKey m) = Some (stored_delivery ((fi_delivery inp)\<lparr>d_activeAttemptId := None\<rparr>))"
      using finalize_put_at(1) [OF dis, of u] by (simp add: key)
    have "waits_in_outbox m ?u" if "\<not> isTerminalDeliveryState (d_state (fi_delivery inp))"
    proof -
      from ob [OF that] obtain b where b: "fi_outbox inp = Some b" "ob_kind b = SCHEDULE_DELIVERY"
        "pl_eventId (ob_payload b) = Some (dv_eventId m)" "pl_deliveryId (ob_payload b) = Some (dv_deliveryId m)" by auto
      from finalize_put_at(4) [OF dis b(1), of u] show ?thesis by (rule waits_now) (fact b)+
    qed
    with row show "\<exists>x. ?u (messageKey m) = Some (It_Delivery x) \<and> (isTerminalDeliveryState (d_state x) \<or> waits_in_outbox m ?u)"
      by (auto simp: stored_delivery_def)
  next
    show "gives (at_time n' (\<lambda>u. u = s \<and> \<not> tx_conditions (finalizeTransaction (sv_shards S) inp d ev updated) u))
        (returnM (if False then Some True else None)) (\<lambda>r w. r \<noteq> None \<and> ?acc w)"
      using cond by (auto simp: late_def gives_def)
  qed (auto simp: late_def accounted_def intro!: gives_return)
  have gone: "gives (at_time n' T) (returnM (Some False)) (\<lambda>r w. r \<noteq> None \<and> ?acc w)"
    if "isExpired (It_Delivery d) n'" "\<And>u. T u \<Longrightarrow> u = s" for n' T
  proof (rule gives_return)
    fix w
    assume "at_time n' T w"
    then have "at_time n' (\<lambda>u. u = s) w" using that(2) by (auto simp: late_def)
    with missing_accounted [of s m n' w n0] d that(1) show "Some False \<noteq> None \<and> ?acc w" by simp
  qed
  have ev_exp: "isExpired (It_Event ev) n' \<longleftrightarrow> isExpired (It_Delivery d) n'" for n'
    by (simp add: isExpired_def ev(2))
  have round: "gives (at_time n (\<lambda>u. u = s)) (finalizeAttemptRound (sv_db S) (sv_shards S) inp) (\<lambda>r w. r \<noteq> None \<and> ?acc w)"
    unfolding finalizeAttemptRound_def Let_def getDeliveryAt_def getEvent_def key
  proof (rule get_then, rule get_then)
    fix x n1 y n2
    assume n: "n \<le> n1" "n1 \<le> n2"
    let ?T = "\<lambda>u. (u = s \<and> u (messageKey m) = x) \<and> u (K_Event (fi_tenantId inp) (fi_eventId inp)) = y"
    let ?body = "case (as_delivery (live_item x n1), as_event (live_item y n2)) of
          (Some c, Some ev) \<Rightarrow>
            bindM (liftM (finalizedEvent (fi_delivery inp) ev)) (\<lambda>updated.
            bindM (db_write (sv_db S) (finalizeTransaction (sv_shards S) inp c ev updated)) (\<lambda>ok.
            returnM (if ok then Some True else None)))
        | _ \<Rightarrow> returnM (Some False)"
    show "gives (at_time n2 ?T) ?body (\<lambda>r w. r \<noteq> None \<and> ?acc w)"
    proof (cases "x = Some (It_Delivery d) \<and> y = Some (It_Event ev)")
      case False
      then have "\<not> at_time n2 ?T w" for w using d ev(1) by (auto simp: late_def)
      then show ?thesis unfolding gives_def by blast
    next
      case xy: True
      show ?thesis
      proof (cases "isExpired (It_Delivery d) n2")
        case True
        with xy ev_exp have "?body = returnM (Some False)" by (simp add: live_item_def split: option.split)
        moreover have "gives (at_time n2 ?T) (returnM (Some False)) (\<lambda>r w. r \<noteq> None \<and> ?acc w)"
          using True by (rule gone) simp
        ultimately show ?thesis by simp
      next
        case False
        then have "\<not> isExpired (It_Delivery d) n1" using n(2) by (auto dest: expired_later)
        with False xy ev_exp have "?body = bindM (liftM (finalizedEvent (fi_delivery inp) ev)) (\<lambda>updated.
            bindM (db_write (sv_db S) (finalizeTransaction (sv_shards S) inp d ev updated)) (\<lambda>ok.
            returnM (if ok then Some True else None)))" by (simp add: live_item_def)
        moreover have "gives (at_time n2 ?T) (bindM (liftM (finalizedEvent (fi_delivery inp) ev)) (\<lambda>updated.
            bindM (db_write (sv_db S) (finalizeTransaction (sv_shards S) inp d ev updated)) (\<lambda>ok.
            returnM (if ok then Some True else None)))) (\<lambda>r w. r \<noteq> None \<and> ?acc w)"
          by (intro gives_lift gives_weaken [OF put]) (auto simp: late_def)
        ultimately show ?thesis by simp
      qed
    qed
  qed
  have "gives (at_time n (\<lambda>u. u = s)) (finalizeAttempt (sv_db S) (sv_shards S) inp) (\<lambda>_. ?acc)"
    unfolding finalizeAttempt_def numeral_eq_Suc retryM.simps
    by (rule gives_bind [OF round]) (auto simp: gives_def returnM_def split: option.split)
  then show ?thesis
    by (rule gives_bind) (auto simp: accounts_def intro!: gives_return)
qed

text \<open>The lease of the delivery has expired: it is recovered, as a timeout or by another schedule.\<close>

lemma recover_accounts:
  assumes con: "consistent new_id m s" and d: "s (messageKey m) = Some (It_Delivery d)" "d_state d = In_Progress"
    and inp: "re_tenantId inp = dv_tenantId m" "re_eventId inp = dv_eventId m" "re_deliveryId inp = dv_deliveryId m"
      "lease_expired (re_now inp) d"
  shows "gives (at_time n (\<lambda>u. u = s)) (bindM (recoverExpired (sv_db S) (sv_shards S) inp) (\<lambda>_. returnM Acknowledge))
    (accounts s n0 m)"
proof -
  have ids: "d_eventId d = dv_eventId m" "d_deliveryId d = dv_deliveryId m" and rec: "recoverable m s d"
    using con d by (auto simp: consistent_def)
  obtain token where token: "d_leaseToken d = Some token" using rec by (auto simp: recoverable_def)
  have unused: "unused s (recoveryId d)" "unused s (''obx_recovery_'' @ d_deliveryId d @ ''_'' @ js_int (d_version d))"
    using rec by (auto simp: recoverable_def)
  have rows: "s (historyKey t e (recoveryHistory d ht now su me)) = None" "s (op_key (outboxPut sh (recoveryOutbox d now nb c))) = None"
    for t e ht now su me sh nb c
    using unused by (auto simp: unused_def historyKey_def recoveryHistory_def outboxPut_def recoveryOutbox_def)
  have ack: "gives (at_time n' (\<lambda>u. u = s)) (bindM (returnM False) (\<lambda>_. returnM Acknowledge)) (accounts s n0 m)"
    if "\<And>d. s (messageKey m) = Some (It_Delivery d) \<Longrightarrow> isExpired (It_Delivery d) n'" for n'
    using missing_accounted [OF that] by (auto simp: op_bind_return accounts_def intro!: gives_return)
  have idle: "gives (at_time n' (\<lambda>u. u = s)) (bindM (defer_delivery (sv_db S) (sv_shards S) (rescheduleInput inp d nxt))
      (\<lambda>_. returnM Acknowledge)) (accounts s n0 m)" if "transitionDelivery d (rescheduleTransition inp d) = Inr nxt" for n' nxt
  proof (rule defer_accounts)
    show "K_Delivery (df_tenantId (rescheduleInput inp d nxt)) (df_eventId (rescheduleInput inp d nxt))
        (d_deliveryId (df_delivery (rescheduleInput inp d nxt))) = messageKey m"
      using that ids inp by (auto simp: rescheduleInput_def messageKey_def transitionDelivery_Inr)
  qed (use rows d(1) token ids in \<open>simp_all add: rescheduleInput_def recoveryOutbox_def option_or_def\<close>)
  have started: "gives (at_time n' (\<lambda>u. u = s)) (bindM (recoverStarted (sv_db S) (sv_shards S) inp d active)
      (\<lambda>_. returnM Acknowledge)) (accounts s n0 m)" if active: "d_activeAttemptId d = Some active" for n' active
  proof -
    from rec active obtain a ev where
      a: "s (K_Attempt (dv_tenantId m) (dv_eventId m) (dv_deliveryId m) (d_attemptCount d)) = Some (It_Attempt a)"
        "at_attemptId a = active" "at_deliveryId a = dv_deliveryId m" "at_attemptNumber a = d_attemptCount d"
        "at_outcome a = At_Started" "at_expiresAt a = d_expiresAt d"
      and ev: "s (K_Event (dv_tenantId m) (dv_eventId m)) = Some (It_Event ev)" "ev_expiresAt ev = d_expiresAt d"
      by (auto simp: recoverable_def)
    have fin: "gives (at_time n'' (\<lambda>u. u = s)) (bindM (finalizeAttempt (sv_db S) (sv_shards S) (timeoutInput inp d a final))
        (\<lambda>_. returnM Acknowledge)) (accounts s n0 m)" if tr: "transitionDelivery d (timeoutTransition inp d) = Inr final" for n'' final
    proof (rule finalize_accounts [where d = d and ev = ev])
      let ?in = "timeoutInput inp d a final"
      have f: "d_deliveryId final = dv_deliveryId m" "d_state final = (if exhausted d then Dead_Lettered else Retry_Scheduled)"
        using tr ids by (auto simp: transitionDelivery_Inr timeoutTransition_def)
      have fi: "fi_tenantId ?in = dv_tenantId m" "fi_eventId ?in = dv_eventId m" "fi_delivery ?in = final" "fi_circuit ?in = None"
        by (simp_all add: timeoutInput_def inp ids)
      show "K_Delivery (fi_tenantId ?in) (fi_eventId ?in) (d_deliveryId (fi_delivery ?in)) = messageKey m"
        by (simp add: fi f messageKey_def)
      show "s (K_Event (fi_tenantId ?in) (fi_eventId ?in)) = Some (It_Event ev)" by (simp add: fi ev)
      show "claim_holds ?in d"
        using token active a by (simp add: claim_holds_def timeoutInput_def option_or_def timedOutAttempt_def)
      show "outcome_started (s (attemptKey (fi_tenantId ?in) (fi_eventId ?in) (fi_attempt ?in)))"
        using a by (simp add: timeoutInput_def attemptKey_def timedOutAttempt_def inp ids outcome_started_def)
      show "rows_are_new (sv_shards S) ?in s" using rows by (simp add: rows_are_new_def timeoutInput_def)
      show "circuit_fits ?in s" by (simp add: circuit_fits_def fi)
      show "\<exists>b. fi_outbox ?in = Some b \<and> ob_kind b = SCHEDULE_DELIVERY \<and> pl_eventId (ob_payload b) = Some (dv_eventId m)
          \<and> pl_deliveryId (ob_payload b) = Some (dv_deliveryId m)" if "\<not> isTerminalDeliveryState (d_state (fi_delivery ?in))"
        using that by (simp add: fi f timeoutInput_def recoveryOutbox_def ids split: if_splits)
    qed (fact d(1) ev(2))+
    have exp: "isExpired (It_Attempt a) n'' \<longleftrightarrow> isExpired (It_Delivery d) n''" for n''
      by (simp add: isExpired_def a(6))
    show ?thesis
      unfolding recoverStarted_def op_bind_assoc
    proof (rule get_then)
      fix x n1
      let ?T = "\<lambda>u. u = s \<and> u (K_Attempt (re_tenantId inp) (re_eventId inp) (d_deliveryId d) (d_attemptCount d)) = x"
      let ?body = "bindM (case as_attempt (live_item x n1) of
          None \<Rightarrow> returnM False
        | Some a \<Rightarrow>
            if at_attemptId a \<noteq> active then returnM False
            else bindM (liftM (transitionDelivery d (timeoutTransition inp d))) (\<lambda>final.
                 finalizeAttempt (sv_db S) (sv_shards S) (timeoutInput inp d a final))) (\<lambda>_. returnM Acknowledge)"
      show "gives (at_time n1 ?T) ?body (accounts s n0 m)"
      proof (cases "x = Some (It_Attempt a)")
        case False
        then have "\<not> at_time n1 ?T w" for w using a(1) by (auto simp: late_def inp ids)
        then show ?thesis unfolding gives_def by blast
      next
        case True
        have "gives (at_time n1 (\<lambda>u. u = s)) ?body (accounts s n0 m)"
          using ack [of n1] exp a(2) d(1) fin
          by (auto simp: True live_item_def op_bind_assoc intro!: gives_lift)
        then show ?thesis by (rule gives_weaken) (auto simp: late_def)
      qed
    qed
  qed
  show ?thesis
    unfolding recoverExpired_def op_bind_assoc inp
  proof (rule find_then [OF con])
    show "gives (at_time n' (\<lambda>u. u = s)) (bindM (case Some x of None \<Rightarrow> returnM False
      | Some d \<Rightarrow>
           if \<not> lease_expired (re_now inp) d then returnM False
           else case d_activeAttemptId d of
               Some active \<Rightarrow> recoverStarted (sv_db S) (sv_shards S) inp d active
             | None \<Rightarrow>
                 bindM (liftM (transitionDelivery d (rescheduleTransition inp d))) (\<lambda>nxt.
                 defer_delivery (sv_db S) (sv_shards S) (rescheduleInput inp d nxt))) (\<lambda>_. returnM Acknowledge)) (accounts s n0 m)"
      if "s (messageKey m) = Some (It_Delivery x)" for n' x
      using that d(1) inp(4) idle started
      by (auto simp: op_bind_assoc split: option.split intro!: gives_lift)
  qed (use ack in simp)
qed

lemma in_progress_accounts:
  assumes con: "consistent new_id m s" and d: "s (messageKey m) = Some (It_Delivery d)" "d_state d = In_Progress" and n: "n0 \<le> n"
  shows "gives (at_time n (\<lambda>u. u = s)) (deliverFound S cx m d) (accounts s n0 m)"
  unfolding deliverFound_def
proof (rule clock_then)
  fix now
  assume now: "n \<le> now"
  have none: "gives (at_time n1 (\<lambda>u. u = s)) (bindM (acquireLease (sv_db S) (leaseRequest m d token now)) g) (accounts s n0 m)"
    if "g None = returnM Acknowledge" "\<not> lease_expired now d" for n1 token and g :: "delivery option \<Rightarrow> ('w, verdict) op"
    unfolding acquireLease_def getDeliveryAt_def op_bind_assoc
  proof (rule get_then)
    let ?q = "leaseRequest m d token now"
    fix x n2
    have key: "K_Delivery (lq_tenantId ?q) (lq_eventId ?q) (lq_deliveryId ?q) = messageKey m"
      by (simp add: leaseRequest_def messageKey_def)
    let ?T = "\<lambda>u. u = s \<and> u (K_Delivery (lq_tenantId ?q) (lq_eventId ?q) (lq_deliveryId ?q)) = x"
    let ?body = "bindM (case as_delivery (live_item x n2) of None \<Rightarrow> returnM None
        | Some current \<Rightarrow> withNow (sv_db S) (\<lambda>now.
            if \<not> leasable ?q now current then returnM None
            else bindM (liftM (transitionDelivery current (leaseTransition ?q now))) (\<lambda>leased.
                 bindM (db_write (sv_db S) (leaseTransaction ?q now current leased)) (\<lambda>ok.
                 returnM (if ok then Some leased else None))))) g"
    have "\<not> lease_expired n0 d" using that(2) n now by (auto simp: lease_expired_def split: option.splits)
    then have ack: "gives (at_time n2 (\<lambda>u. u = s)) (returnM Acknowledge) (accounts s n0 m)"
      using d by (auto simp: accounts_def accounted_def late_def intro!: gives_return)
    show "gives (at_time n2 ?T) ?body (accounts s n0 m)"
    proof (cases "x = Some (It_Delivery d)")
      case False
      then have "\<not> at_time n2 ?T w" for w using d(1) by (auto simp: late_def messageKey_def)
      then show ?thesis unfolding gives_def by blast
    next
      case True
      have "\<not> leasable ?q k d" for k using d(2) by (simp add: leasable_def leasable_states_def)
      with True have "?body = bindM (returnM None) g"
        by (auto simp: live_item_def withNow_def bindM_def returnM_def fun_eq_iff)
      with ack that(1) show ?thesis by (auto simp: op_bind_return elim!: gives_weaken late_weaken)
    qed
  qed
  show "gives (at_time now (\<lambda>u. u = s)) (if lease_expired now d
        then bindM (dl_random S) (\<lambda>random.
             bindM (recoverExpired (sv_db S) (sv_shards S)
                     \<lparr>re_tenantId = dv_tenantId m, re_eventId = dv_eventId m,
                      re_deliveryId = dv_deliveryId m, re_now = now, re_random = random\<rparr>) (\<lambda>_.
            returnM Acknowledge))
       else case not_yet now d of
         Some seconds \<Rightarrow> returnM (Delay seconds)
       | None \<Rightarrow>
     bindM (sv_next S ''lease'') (\<lambda>token.
     bindM (acquireLease (sv_db S)
              \<lparr>lq_tenantId = dv_tenantId m, lq_eventId = dv_eventId m, lq_deliveryId = dv_deliveryId m,
               lq_expectedVersion = d_version d, lq_owner = dv_owner m, lq_token = token,
               lq_expiresAt = now + cs_timeoutMs (d_configSnapshot d) + 5000\<rparr>) (\<lambda>leased.
       case leased of None \<Rightarrow> returnM Acknowledge
       | Some d \<Rightarrow> if d_leaseToken d \<noteq> Some token then returnM Acknowledge
           else deliverLeased S cx m d token now))) (accounts s n0 m)"
  proof (cases "lease_expired now d")
    case True
    then show ?thesis
      by (simp only: if_True simp_thms) (rule outside_then [OF outside_calls(2) recover_accounts [OF con d]], simp_all)
  next
    case False
    show ?thesis
    proof (cases "not_yet now d")
      case None
      show ?thesis
        unfolding None option.case if_not_P [OF False]
        by (rule new_then, rule none [unfolded leaseRequest_def]) (simp_all add: False)
    next
      case (Some k)
      with False show ?thesis by (auto simp: accounts_def intro!: gives_return)
    qed
  qed
qed

lemma deliver_accounts:
  assumes con: "consistent new_id m s"
  shows "gives (at_time n0 (\<lambda>u. u = s)) (deliver S m) (accounts s n0 m)"
  unfolding deliver_def
proof (rule find_then [OF con])
  show "gives (at_time n (\<lambda>u. u = s)) (case None of None \<Rightarrow> returnM Acknowledge
      | Some initial \<Rightarrow> if isTerminalDeliveryState (d_state initial) then returnM Acknowledge
          else deliverFound S (routingContext (dv_tenantId m) (dv_correlationId m)) m initial) (accounts s n0 m)"
    if "\<And>d. s (messageKey m) = Some (It_Delivery d) \<Longrightarrow> isExpired (It_Delivery d) n" for n
    using missing_accounted [OF that] by (auto simp: accounts_def intro!: gives_return)
next
  fix n d
  assume n: "n0 \<le> n" and d: "s (messageKey m) = Some (It_Delivery d)"
  have "gives (at_time n (\<lambda>u. u = s)) (returnM Acknowledge) (accounts s n0 m)" if "isTerminalDeliveryState (d_state d)"
    using that d by (auto simp: accounts_def accounted_def late_def intro!: gives_return)
  moreover have "cx_tenantId (routingContext (dv_tenantId m) (dv_correlationId m)) = dv_tenantId m"
    by (simp add: routingContext_def)
  ultimately show "gives (at_time n (\<lambda>u. u = s)) (case Some d of None \<Rightarrow> returnM Acknowledge
      | Some initial \<Rightarrow> if isTerminalDeliveryState (d_state initial) then returnM Acknowledge
          else deliverFound S (routingContext (dv_tenantId m) (dv_correlationId m)) m initial) (accounts s n0 m)"
    using in_progress_accounts [OF con d _ n] found_accounts [OF con d _ _ _ n] by auto
qed

end

section \<open>Properties\<close>


text \<open>A table in memory whose clock goes on with every call.\<close>

definition tick :: "(mem, 'a) op \<Rightarrow> (mem, 'a) op" where
  "tick m w = (case m w of (r, w') \<Rightarrow> (r, w'\<lparr>mem_clock := mem_clock w' + 1\<rparr>))"

definition ticking :: "mem dynamo \<Rightarrow> mem dynamo" where
  "ticking db = db\<lparr>db_get := (\<lambda>k. tick (db_get db k)), db_write := (\<lambda>ops. tick (db_write db ops))\<rparr>"

definition sample_new :: "string \<Rightarrow> bool" where
  "sample_new x \<longleftrightarrow> (\<exists>p. x = p @ ''_1'')"

lemma ticking_sel [simp]:
  "db_get (ticking db) = (\<lambda>k. tick (db_get db k))" "db_write (ticking db) = (\<lambda>ops. tick (db_write db ops))"
  "db_query (ticking db) = db_query db" "db_index (ticking db) = db_index db" "db_now (ticking db) = db_now db"
  by (simp_all add: ticking_def)

lemma ticking_table: "dynamo_table (ticking (mem_db ks (=))) mem_table (=)"
proof
  fix w :: mem
  show "db_get (ticking (mem_db ks (=))) k w = (r, w') \<Longrightarrow>
       mem_table w = mem_table w' \<and> (\<forall>x. r = Inr x \<longrightarrow> (\<exists>s. s = mem_table w' \<and> x = s k))" for k r w'
    by (auto simp: tick_def mem_db_def mem_get_def Let_def)
  show "db_write (ticking (mem_db ks (=))) ops w = (rw, w') \<Longrightarrow>
       \<exists>s. mem_table w = s \<and>
         (case rw of
            Inr True \<Rightarrow> tx_ok ops s \<and> mem_table w' = tx_apply ops s
          | Inr False \<Rightarrow> mem_table w' = s
          | Inl e \<Rightarrow> mem_table w' = s \<or> (tx_ok ops s \<and> mem_table w' = tx_apply ops s))" for ops rw w'
    by (auto simp: tick_def mem_db_def mem_write_def Let_def tx_ok_def split: if_splits)
  show "db_query (ticking (mem_db ks (=))) P n w = (rq, w') \<Longrightarrow>
       mem_table w = mem_table w'
       \<and> (\<forall>xs. rq = Inr xs \<longrightarrow> (\<forall>(k, it) \<in> set xs. P k \<and> (\<exists>s. s = mem_table w' \<and> s k = Some it)))" for P n rq w'
    using mem_alone.query_law [of ks P n w rq w'] by simp
  show "db_index (ticking (mem_db ks (=))) A n w = (rq, w') \<Longrightarrow>
       mem_table w = mem_table w'
       \<and> (\<forall>xs. rq = Inr xs \<longrightarrow> (\<forall>(k, it) \<in> set xs. A it \<and> (\<exists>s. s = mem_table w' \<and> s k = Some it)))" for A n rq w'
    using mem_alone.index_law [of ks A n w rq w'] by simp
qed simp_all

interpretation mem_clocked: clocked_delivery "sample_deliver_services (ticking (mem_db ks (=))) answer" mem_table sample_new
  for ks answer
proof -
  have "clocked_delivery_axioms (sample_deliver_services (ticking (mem_db ks (=))) answer) mem_table sample_new"
    by unfold_locales
      (auto simp: tick_def mem_db_def mem_get_def mem_write_def Let_def returnM_def liftM_def sample_new_def tx_ok_def
        split: if_splits prod.splits)
  then show "clocked_delivery (sample_deliver_services (ticking (mem_db ks (=))) answer) mem_table sample_new"
    using ticking_table by (simp add: clocked_delivery_def)
qed

text \<open>The destination of the delivery is not there: it is scheduled again for later.\<close>

definition sample_moment :: "dtable \<Rightarrow> instant \<Rightarrow> mem" where
  "sample_moment s n = \<lparr>mem_table = s, mem_clock = n, mem_others = []\<rparr>"

lemma moment_run [simp]:
  "mem_table (sample_moment s n) = s" "mem_clock (sample_moment s n) = n"
  "tick (db_get (mem_db ks (=)) k) (sample_moment s n) = (Inr (s k), sample_moment s (n + 1))"
  "tick (db_write (mem_db ks (=)) ops) (sample_moment s n)
     = (if \<not> tx_distinct ops then (Inl (ServiceError ''ValidationException''), sample_moment s (n + 1))
        else if tx_conditions ops s then (Inr True, sample_moment (tx_apply ops s) (n + 1))
        else (Inr False, sample_moment s (n + 1)))"
  "db_now (mem_db ks (=)) (sample_moment s n) = n"
  by (simp_all add: sample_moment_def tick_def mem_db_def mem_get_def mem_write_def interfere_def Let_def)

abbreviation sample_clocked :: "mem delivery_services" where
  "sample_clocked \<equiv> sample_deliver_services (ticking (mem_db [] (=))) (Inr sample_ok)"

lemma sample_find:
  "getDelivery (ticking (mem_db [] (=))) ''t1'' ''dlv_1'' (sample_moment (sample_table sample_delivery) 2000)
     = (Inr (Some sample_delivery), sample_moment (sample_table sample_delivery) 2002)"
  by (simp add: getDelivery_def mapM_def getCore_def bindM_def returnM_def sample_table_def live_item_def
      isExpired_def sample_defs)

definition sample_held :: delivery where
  "sample_held = applyTransition sample_delivery (leaseTransition (leaseRequest sample_message sample_delivery ''lease_1'' 2002) 2003)"

lemma sample_lease:
  "acquireLease (ticking (mem_db [] (=))) (leaseRequest sample_message sample_delivery ''lease_1'' 2002)
      (sample_moment (sample_table sample_delivery) 2002)
     = (Inr (Some sample_held), sample_moment (tx_apply (leaseTransaction (leaseRequest sample_message sample_delivery
          ''lease_1'' 2002) 2003 sample_delivery sample_held) (sample_table sample_delivery)) 2004)"
proof -
  let ?q = "leaseRequest sample_message sample_delivery ''lease_1'' 2002"
  have q: "messageKey sample_message = K_Delivery ''t1'' ''evt_1'' ''dlv_1''" "dv_tenantId sample_message = ''t1''"
    "dv_eventId sample_message = ''evt_1''" "dv_deliveryId sample_message = ''dlv_1''"
    by (simp_all add: messageKey_def sample_message_def)
  have ok: "leasable ?q 2003 sample_delivery" "d_state sample_delivery \<noteq> Rate_Limited"
    "\<not> isExpired (It_Delivery sample_delivery) 2003" "d_updatedAt sample_delivery \<noteq> 2003"
    by (simp_all add: leasable_def leasable_states_def sample_defs eligible_by_def isExpired_def)
  have tr: "transitionDelivery sample_delivery (leaseTransition ?q 2003) = Inr sample_held"
    using lease_transition_ok [OF ok(1,2)] by (simp add: sample_held_def)
  have dis: "tx_distinct (leaseTransaction ?q 2003 sample_delivery sample_held)"
    using lease_distinct [OF sample_held_def] ok(4) by simp
  have cond: "tx_conditions (leaseTransaction ?q 2003 sample_delivery sample_held) (sample_table sample_delivery)"
    using lease_conditions [OF _ ok(1)] q by (simp add: sample_table_def)
  have row: "sample_table sample_delivery (K_Delivery ''t1'' ''evt_1'' ''dlv_1'') = Some (It_Delivery sample_delivery)"
    by (simp add: sample_table_def)
  show ?thesis
    using ok(1,3) tr dis cond
    by (simp add: acquireLease_def getDeliveryAt_def mapM_def getCore_def bindM_def returnM_def withNow_def liftM_def
        live_item_def q row)
qed

text \<open>The table once the lease is taken.\<close>

definition leased_table :: dtable where
  "leased_table = tx_apply (leaseTransaction (leaseRequest sample_message sample_delivery ''lease_1'' 2002) 2003
     sample_delivery sample_held) (sample_table sample_delivery)"

lemma leased_table_rows:
  "leased_table (K_Delivery ''t1'' ''evt_1'' ''dlv_1'') = Some (stored_delivery sample_held)"
  "leased_table (K_Destination ''t1'' ''dst_1'') = None"
proof -
  let ?q = "leaseRequest sample_message sample_delivery ''lease_1'' 2002"
  have key: "messageKey sample_message = K_Delivery ''t1'' ''evt_1'' ''dlv_1''"
    by (simp add: messageKey_def sample_message_def)
  have upd: "d_updatedAt sample_delivery \<noteq> 2003" by (simp add: sample_defs)
  then have dis: "tx_distinct (leaseTransaction ?q 2003 sample_delivery sample_held)"
    using lease_distinct [OF sample_held_def] by simp
  show "leased_table (K_Delivery ''t1'' ''evt_1'' ''dlv_1'') = Some (stored_delivery sample_held)"
    using lease_put_at [OF dis, of "sample_table sample_delivery"] by (simp add: leased_table_def key)
  have "leased_table (K_Destination ''t1'' ''dst_1'') = sample_table sample_delivery (K_Destination ''t1'' ''dst_1'')"
    unfolding leased_table_def
    by (rule tx_apply_other) (auto simp: leaseTransaction_def image_Un index_ops_keys deliveryIndexKey_def)
  then show "leased_table (K_Destination ''t1'' ''dst_1'') = None" by (simp add: sample_table_def)
qed

lemma sample_put_off:
  "fst (deliverLeased sample_clocked (routingContext ''t1'' ''cor_1'') sample_message sample_held ''lease_1'' 2002
     (sample_moment leased_table 2004)) = Inr Acknowledge"
proof -
  let ?cx = "routingContext ''t1'' ''cor_1''"
  have held: "d_destinationId sample_held = ''dst_1''" "d_eventId sample_held = ''evt_1''" "d_deliveryId sample_held = ''dlv_1''"
    "d_updatedAt sample_held = 2003" "d_leaseToken sample_held = Some ''lease_1''" "d_state sample_held = In_Progress"
    "d_version sample_held = 2" "\<not> isExpired (stored_delivery sample_held) n" if "n < 9000000" for n
    using that by (simp_all add: sample_held_def leaseTransition_def sample_defs leaseRequest_def isExpired_def stored_delivery_def to_epoch_def)
  note h = held [of 2005, simplified]
  let ?tr = "deferralTransition sample_held ''lease_1'' Scheduled DESTINATION_DISABLED 302002 2002"
  have tr: "transitionDelivery sample_held ?tr = Inr (applyTransition sample_held ?tr)"
    by (simp add: transitionDelivery_Inr deferralTransition_def h option_or_def deferred_states_def)
  have cx: "cx_tenantId ?cx = ''t1''" by (simp add: routingContext_def)
  have dis: "tx_distinct (deferTransaction 4 (deferralInput ''t1'' sample_held ''lease_1'' (applyTransition sample_held ?tr) hi ob)
      (sample_held\<lparr>d_expiresAt := e\<rparr>))" for hi ob e
    by (rule defer_distinct) (simp add: h deferralTransition_def)
  show ?thesis
    using h(8)
    by (simp add: deliverLeased_def Let_def cx h getDestination_def mapM_def getCore_def bindM_def returnM_def leased_table_rows
        live_item_def postpone_def tr liftM_def readM_def defer_delivery_def getDeliveryAt_def stored_delivery_def dis)
qed

lemma sample_delivery_run:
  "fst (deliver sample_clocked sample_message (sample_moment (sample_table sample_delivery) 2000)) = Inr Acknowledge"
proof -
  have m: "dv_tenantId sample_message = ''t1''" "dv_eventId sample_message = ''evt_1''" "dv_deliveryId sample_message = ''dlv_1''"
    "dv_correlationId sample_message = ''cor_1''" "dv_owner sample_message = ''worker-1''"
    by (simp_all add: sample_message_def)
  have d: "\<not> isTerminalDeliveryState (d_state sample_delivery)" "\<not> lease_expired 2002 sample_delivery"
    "not_yet 2002 sample_delivery = None" "d_version sample_delivery = 1"
    "cs_timeoutMs (d_configSnapshot sample_delivery) = 1000"
    by (simp_all add: sample_defs lease_expired_def not_yet_def)
  have held: "d_leaseToken sample_held = Some ''lease_1''"
    by (simp add: sample_held_def leaseTransition_def)
  show ?thesis
    using sample_put_off
    by (simp add: deliver_def deliverFound_def bindM_def sample_find m d readM_def returnM_def
        sample_lease [unfolded leaseRequest_def m d, simplified] leased_table_def [unfolded leaseRequest_def m d, simplified, symmetric] held)
qed

lemma sample_consistent: "consistent sample_new sample_message (sample_table sample_delivery)"
  by (auto simp: consistent_def sample_table_def sample_message_def messageKey_def unused_def sample_defs)


text \<open>
  C30. A deferral that the database cancels loses the delivery. The service cancels a transaction also when another one
  touches the same row (a conflict, not a condition that fails), and the repository answers false for it, as for a condition.
  \<open>postpone\<close> does not look at the answer: the worker acknowledges its message although nothing has been written, so
  the delivery stays in progress under a lease that nobody will come back for, and the outbox has no record for it.
\<close>

theorem cancelled_deferral_loses_message:
  assumes "dynamo_table (sv_db S) view (=)" and "\<And>p v r v'. sv_next S p v = (r, v') \<Longrightarrow> view v' = view v"
    and "\<And>ops v. db_write (sv_db S) ops v = (Inr False, v)"
    and "view w (messageKey m) = Some (It_Delivery d)" and "d_state d = In_Progress" and "\<not> waits_in_outbox m (view w)"
    and "postpone S t leased token now to category at_ms summary w = (Inr v, w')"
  shows "v = Acknowledge \<and> view w' = view w \<and> view w' (messageKey m) = Some (It_Delivery d) \<and> \<not> waits_in_outbox m (view w')"
proof -
  have get: "view v' = view v" if "db_get (sv_db S) k v = (r, v')" for k r v v'
    using dynamo_table.get_law [OF assms(1) that] by simp
  have deferred: "view v' = view v" if "defer_delivery (sv_db S) (sv_shards S) inp v = (r, v')" for inp r v v'
    using that assms(3) by (auto simp: defer_delivery_def getDeliveryAt_def mapM_def getCore_def bindM_def returnM_def
        dest!: get split: prod.splits sum.splits option.splits)
  show ?thesis
    using assms(4,6,7)
    by (auto simp: postpone_def bindM_def liftM_def readM_def returnM_def dest!: deferred assms(2) split: prod.splits sum.splits)
qed

definition cancelling :: "mem dynamo \<Rightarrow> mem dynamo" where
  "cancelling db = db\<lparr>db_write := (\<lambda>ops w. (Inr False, w))\<rparr>"

lemma cancelling_sel [simp]:
  "db_get (cancelling db) = db_get db" "db_write (cancelling db) = (\<lambda>ops w. (Inr False, w))"
  "db_query (cancelling db) = db_query db" "db_index (cancelling db) = db_index db" "db_now (cancelling db) = db_now db"
  by (simp_all add: cancelling_def)

interpretation mem_cancelling: dynamo_table "cancelling (mem_db ks (=))" mem_table "(=)" for ks
proof
  fix w :: mem
  show "db_get (cancelling (mem_db ks (=))) k w = (r, w') \<Longrightarrow>
       mem_table w = mem_table w' \<and> (\<forall>x. r = Inr x \<longrightarrow> (\<exists>s. s = mem_table w' \<and> x = s k))" for k r w'
    using mem_alone.get_law [of ks k w r w'] by simp
  show "db_query (cancelling (mem_db ks (=))) P n w = (rq, w') \<Longrightarrow>
       mem_table w = mem_table w'
       \<and> (\<forall>xs. rq = Inr xs \<longrightarrow> (\<forall>(k, it) \<in> set xs. P k \<and> (\<exists>s. s = mem_table w' \<and> s k = Some it)))" for P n rq w'
    using mem_alone.query_law [of ks P n w rq w'] by simp
  show "db_index (cancelling (mem_db ks (=))) A n w = (rq, w') \<Longrightarrow>
       mem_table w = mem_table w'
       \<and> (\<forall>xs. rq = Inr xs \<longrightarrow> (\<forall>(k, it) \<in> set xs. A it \<and> (\<exists>s. s = mem_table w' \<and> s k = Some it)))" for A n rq w'
    using mem_alone.index_law [of ks A n w rq w'] by simp
qed auto

lemma leased_table_no_outbox: "\<not> waits_in_outbox m leased_table"
proof -
  have "leased_table (K_Outbox sh c x) = sample_table sample_delivery (K_Outbox sh c x)" for sh c x
    unfolding leased_table_def
    by (rule tx_apply_other) (auto simp: leaseTransaction_def image_Un index_ops_keys deliveryIndexKey_def)
  then show ?thesis by (simp add: waits_in_outbox_def sample_table_def)
qed

lemma cancelled_deferral_loses_message_witness:
  "fst (postpone (sample_deliver_services (cancelling (mem_db [] (=))) (Inr sample_ok)) ''t1'' sample_held ''lease_1'' 2002
      Scheduled DESTINATION_DISABLED 302002 [] (sample_moment leased_table 2004)) = Inr Acknowledge
   \<and> leased_table (messageKey sample_message) = Some (stored_delivery sample_held)
   \<and> \<not> waits_in_outbox sample_message leased_table"
proof -
  let ?S = "sample_deliver_services (cancelling (mem_db [] (=))) (Inr sample_ok)"
  let ?tr = "deferralTransition sample_held ''lease_1'' Scheduled DESTINATION_DISABLED 302002 2002"
  let ?run = "postpone ?S ''t1'' sample_held ''lease_1'' 2002 Scheduled DESTINATION_DISABLED 302002 [] (sample_moment leased_table 2004)"
  have held: "d_eventId sample_held = ''evt_1''" "d_deliveryId sample_held = ''dlv_1''" "d_leaseToken sample_held = Some ''lease_1''"
    "d_state sample_held = In_Progress" "d_version sample_held = 2" "\<not> isExpired (stored_delivery sample_held) 2004"
    by (simp_all add: sample_held_def leaseTransition_def sample_defs leaseRequest_def isExpired_def stored_delivery_def to_epoch_def)
  have tr: "transitionDelivery sample_held ?tr = Inr (applyTransition sample_held ?tr)"
    by (simp add: transitionDelivery_Inr deferralTransition_def held option_or_def deferred_states_def)
  have get: "mem_get (=) k (sample_moment s n) = (Inr (s k), sample_moment s n)" for k s n
    by (simp add: mem_get_def sample_moment_def interfere_def)
  have "\<exists>v w'. ?run = (Inr v, w')"
    using held(6)
    by (simp add: postpone_def tr held bindM_def liftM_def readM_def returnM_def defer_delivery_def getDeliveryAt_def mapM_def
        getCore_def mem_db_def get leased_table_rows live_item_def stored_delivery_def)
  then obtain v w' where run: "?run = (Inr v, w')" by blast
  have key: "messageKey sample_message = K_Delivery ''t1'' ''evt_1'' ''dlv_1''"
    by (simp add: messageKey_def sample_message_def)
  obtain d where d: "stored_delivery sample_held = It_Delivery d" "d_state d = In_Progress"
    by (simp add: stored_delivery_def held)
  have "v = Acknowledge \<and> mem_table w' = leased_table"
    using cancelled_deferral_loses_message [of ?S mem_table "sample_moment leased_table 2004" sample_message d, OF _ _ _ _ d(2) _ run]
      mem_cancelling.dynamo_table_axioms d(1) leased_table_rows(1) key leased_table_no_outbox
    by (simp add: returnM_def)
  with run show ?thesis using key leased_table_rows(1) leased_table_no_outbox by simp
qed

end
