(* ===== verification/Queue_Workers.thy ===== *)
theory Queue_Workers
  imports Delivery_Runs Outbox_Publisher Json_Reader
begin

text \<open>
  The consumers of the queues: \<open>packages/queue/src/index.ts\<close> with the schema of its messages, the loops of
  \<open>apps/delivery-worker\<close> and \<open>apps/router-worker\<close>, and the handlers that run them on batches of records, where a record that is
  not reported as failed is dropped. The queue service is a parameter.
\<close>

section \<open>The text of a message\<close>

fun message_type_text :: "message_type \<Rightarrow> string" where
  "message_type_text MT_Route_Event = ''ROUTE_EVENT''"
| "message_type_text MT_Deliver = ''DELIVER''"
| "message_type_text MT_Resume_Destination = ''RESUME_DESTINATION''"

fun cause_text :: "cause \<Rightarrow> string" where
  "cause_text INITIAL = ''INITIAL''"
| "cause_text RETRY = ''RETRY''"
| "cause_text REPLAYED = ''REPLAY''"
| "cause_text RESUME = ''RESUME''"
| "cause_text RECONCILE = ''RECONCILE''"
| "cause_text DESTINATION_ENABLED = ''DESTINATION_ENABLED''"

definition optional_field :: "string \<Rightarrow> string option \<Rightarrow> (string \<times> json) list" where
  "optional_field k v = (case v of None \<Rightarrow> [] | Some s \<Rightarrow> [(k, JStr s)])"

text \<open>The value that \<open>publish\<close> serializes.\<close>

definition messageBody :: "queue_message \<Rightarrow> json" where
  "messageBody m = JObj ([(''schemaVersion'', JNum 1), (''tenantId'', JStr (qm_tenantId m))]
     @ optional_field ''eventId'' (qm_eventId m) @ optional_field ''deliveryId'' (qm_deliveryId m)
     @ [(''correlationId'', JStr (qm_correlationId m))]
     @ optional_field ''notBefore'' (map_option isoString (qm_notBefore m))
     @ [(''messageType'', JStr (message_type_text (qm_messageType m)))]
     @ optional_field ''destinationId'' (qm_destinationId m)
     @ [(''cause'', JStr (cause_text (qm_cause m)))])"

section \<open>Reading a message\<close>

text \<open>\<open>qp_parse\<close> is \<open>JSON.parse\<close>, \<open>qp_instant\<close> the reading of the date-times that the schema accepts.\<close>

record queue_parser =
  qp_parse :: "string \<Rightarrow> json option"
  qp_instant :: "string \<Rightarrow> instant option"

definition schema_error :: js_error where
  "schema_error = ServiceError ''ZodError''"

definition message_keys :: "string list" where
  "message_keys = [''schemaVersion'', ''tenantId'', ''eventId'', ''deliveryId'', ''correlationId'', ''notBefore'',
     ''messageType'', ''destinationId'', ''cause'']"

definition stringField :: "json \<Rightarrow> string \<Rightarrow> js_error + string option" where
  "stringField v k = (case json_get v k of
      None \<Rightarrow> Inr None | Some (JStr s) \<Rightarrow> Inr (Some s) | Some _ \<Rightarrow> Inl schema_error)"

definition requiredField :: "json \<Rightarrow> string \<Rightarrow> js_error + string" where
  "requiredField v k = (case json_string (json_get v k) of None \<Rightarrow> Inl schema_error | Some s \<Rightarrow> Inr s)"

definition typeField :: "json \<Rightarrow> js_error + message_type" where
  "typeField v = (case requiredField v ''messageType'' of
      Inl e \<Rightarrow> Inl e
    | Inr s \<Rightarrow> (case find (\<lambda>t. message_type_text t = s) [MT_Route_Event, MT_Deliver, MT_Resume_Destination] of
        None \<Rightarrow> Inl schema_error | Some t \<Rightarrow> Inr t))"

definition causeField :: "json \<Rightarrow> js_error + cause" where
  "causeField v = (case requiredField v ''cause'' of
      Inl e \<Rightarrow> Inl e
    | Inr s \<Rightarrow> (case find (\<lambda>c. cause_text c = s) [INITIAL, RETRY, REPLAYED, RESUME, RECONCILE, DESTINATION_ENABLED] of
        None \<Rightarrow> Inl schema_error | Some c \<Rightarrow> Inr c))"

definition instantField :: "(string \<Rightarrow> instant option) \<Rightarrow> json \<Rightarrow> js_error + instant option" where
  "instantField inst v = (case stringField v ''notBefore'' of
      Inl e \<Rightarrow> Inl e
    | Inr None \<Rightarrow> Inr None
    | Inr (Some s) \<Rightarrow> (case inst s of None \<Rightarrow> Inl schema_error | Some t \<Rightarrow> Inr (Some t)))"

definition andThen :: "js_error + 'a \<Rightarrow> ('a \<Rightarrow> js_error + 'b) \<Rightarrow> js_error + 'b" where
  "andThen r f = (case r of Inl e \<Rightarrow> Inl e | Inr a \<Rightarrow> f a)"

text \<open>
  The union is discriminated by the type of the message; the schemas are strict. Which fields each type needs and which
  causes it may have is what \<open>parseMessage\<close> checks for the publisher as well.
\<close>

definition decodeMessage :: "(string \<Rightarrow> instant option) \<Rightarrow> json \<Rightarrow> js_error + queue_message" where
  "decodeMessage inst v = (case v of
      JObj fs \<Rightarrow>
        throw_if (\<not> set (map fst fs) \<subseteq> set message_keys \<or> json_get v ''schemaVersion'' \<noteq> Some (JNum 1)) schema_error
       (andThen (typeField v) (\<lambda>t.
        andThen (causeField v) (\<lambda>c.
        andThen (requiredField v ''tenantId'') (\<lambda>tenant.
        andThen (requiredField v ''correlationId'') (\<lambda>correlation.
        andThen (stringField v ''eventId'') (\<lambda>e.
        andThen (stringField v ''deliveryId'') (\<lambda>d.
        andThen (stringField v ''destinationId'') (\<lambda>dest.
        andThen (instantField inst v) (\<lambda>notBefore.
          parseMessage t tenant \<lparr>pl_eventId = e, pl_deliveryId = d, pl_destinationId = dest,
            pl_correlationId = correlation, pl_notBefore = notBefore, pl_cause = Some c\<rparr> (Some c))))))))))
    | _ \<Rightarrow> Inl schema_error)"

definition readBody :: "queue_parser \<Rightarrow> string \<Rightarrow> js_error + queue_message" where
  "readBody Q body = (case qp_parse Q body of
      None \<Rightarrow> Inl (Error ''SyntaxError'') | Some v \<Rightarrow> decodeMessage (qp_instant Q) v)"

record raw_message =
  rm_body :: "string option"
  rm_receipt :: "string option"

definition parseQueueMessage :: "queue_parser \<Rightarrow> raw_message \<Rightarrow> js_error + queue_message" where
  "parseQueueMessage Q raw = (case rm_body raw of
      None \<Rightarrow> Inl (Error ''Queue message body missing.'') | Some body \<Rightarrow> readBody Q body)"

section \<open>The consumers\<close>

record 'w consumer =
  wk_services :: "'w delivery_services"
  wk_parser :: queue_parser
  wk_delete :: "string \<Rightarrow> ('w, unit) op"
  wk_visibility :: "string \<Rightarrow> int \<Rightarrow> ('w, unit) op"
  wk_owner :: string
  wk_flush :: "('w, unit) op"

definition with_receipt :: "raw_message \<Rightarrow> (string \<Rightarrow> ('w, unit) op) \<Rightarrow> ('w, unit) op" where
  "with_receipt raw f = (case rm_receipt raw of
      None \<Rightarrow> throwM (Error ''Queue message receipt missing.'') | Some r \<Rightarrow> f r)"

definition deleteMessage :: "'w consumer \<Rightarrow> raw_message \<Rightarrow> ('w, unit) op" where
  "deleteMessage W raw = with_receipt raw (wk_delete W)"

definition deferMessage :: "'w consumer \<Rightarrow> raw_message \<Rightarrow> int \<Rightarrow> ('w, unit) op" where
  "deferMessage W raw delaySeconds = with_receipt raw (\<lambda>r. wk_visibility W r (max 1 (min 43200 delaySeconds)))"

definition resumeFor :: "'w consumer \<Rightarrow> queue_message \<Rightarrow> ('w, int) op" where
  "resumeFor W m =
     bindM (readM (sv_now (wk_services W))) (\<lambda>now.
       resumeDestination (sv_db (wk_services W)) (sv_shards (wk_services W))
         \<lparr>ru_tenantId = qm_tenantId m, ru_destinationId = option_or (qm_destinationId m) [], ru_now = now\<rparr>)"

definition deliverInput :: "string \<Rightarrow> queue_message \<Rightarrow> deliver_input" where
  "deliverInput owner m = \<lparr>dv_tenantId = qm_tenantId m, dv_eventId = option_or (qm_eventId m) [],
     dv_deliveryId = option_or (qm_deliveryId m) [], dv_correlationId = qm_correlationId m, dv_owner = owner\<rparr>"

text \<open>One message of the delivery worker; \<open>runLocal\<close> handles up to five at a time and logs what they throw.\<close>

definition consumeDelivery :: "'w consumer \<Rightarrow> raw_message \<Rightarrow> ('w, unit) op" where
  "consumeDelivery W raw =
     bindM (liftM (parseQueueMessage (wk_parser W) raw)) (\<lambda>m. case qm_messageType m of
        MT_Resume_Destination \<Rightarrow> bindM (resumeFor W m) (\<lambda>_. deleteMessage W raw)
      | MT_Deliver \<Rightarrow>
          bindM (deliver (wk_services W) (deliverInput (wk_owner W) m)) (\<lambda>outcome. case outcome of
             Delay seconds \<Rightarrow> deferMessage W raw seconds
           | Acknowledge \<Rightarrow> deleteMessage W raw)
      | MT_Route_Event \<Rightarrow> deleteMessage W raw)"

definition consumeAll :: "'w consumer \<Rightarrow> raw_message list \<Rightarrow> ('w, (js_error + unit) list) op" where
  "consumeAll W raws = foldM (\<lambda>raw results. bindM (tryM (consumeDelivery W raw)) (\<lambda>r. returnM (results @ [r]))) raws []"

text \<open>One round of the router worker: \<open>consumeOne\<close> with its handler.\<close>

definition routeMessage :: "'w consumer \<Rightarrow> queue_message \<Rightarrow> ('w, unit) op" where
  "routeMessage W m = (if qm_messageType m \<noteq> MT_Route_Event then returnM ()
     else route (wk_services W) (qm_tenantId m) (option_or (qm_eventId m) []) (qm_correlationId m))"

definition consumeOne :: "'w consumer \<Rightarrow> (queue_message \<Rightarrow> ('w, unit) op) \<Rightarrow> raw_message option \<Rightarrow> ('w, bool) op" where
  "consumeOne W handle received = (case received of
      None \<Rightarrow> returnM False
    | Some raw \<Rightarrow>
        bindM (liftM (parseQueueMessage (wk_parser W) raw)) (\<lambda>m.
        bindM (handle m) (\<lambda>_.
        bindM (deleteMessage W raw) (\<lambda>_. returnM True))))"

definition consumeRouting :: "'w consumer \<Rightarrow> raw_message option \<Rightarrow> ('w, bool) op" where
  "consumeRouting W = consumeOne W (routeMessage W)"

section \<open>Batches\<close>

text \<open>
  \<open>createSqsHandler\<close>: every record is handled, and the identifiers of those whose handling throws are reported. Each record
  is handled whatever the others do; their calls interleave, which the properties of one handling allow for.
\<close>

definition sqsBatch :: "(string \<Rightarrow> ('w, unit) op) \<Rightarrow> ('w, unit) op \<Rightarrow> (string \<times> string) list \<Rightarrow> ('w, string list) op" where
  "sqsBatch handle flush records =
     bindM (foldM (\<lambda>(messageId, body) failures. bindM (tryM (handle body)) (\<lambda>r.
        returnM (case r of Inl e \<Rightarrow> failures @ [messageId] | Inr _ \<Rightarrow> failures))) records [])
       (\<lambda>failures. bindM flush (\<lambda>_. returnM failures))"

definition deliveryRecord :: "'w consumer \<Rightarrow> string \<Rightarrow> ('w, unit) op" where
  "deliveryRecord W body =
     bindM (liftM (readBody (wk_parser W) body)) (\<lambda>m. case qm_messageType m of
        MT_Deliver \<Rightarrow>
          bindM (deliver (wk_services W) (deliverInput (wk_owner W) m)) (\<lambda>outcome. case outcome of
             Delay seconds \<Rightarrow> throwM (Error ''DELIVERY_NOT_BEFORE'')
           | Acknowledge \<Rightarrow> returnM ())
      | MT_Resume_Destination \<Rightarrow> bindM (resumeFor W m) (\<lambda>_. returnM ())
      | MT_Route_Event \<Rightarrow> returnM ())"

definition routingRecord :: "'w consumer \<Rightarrow> string \<Rightarrow> ('w, unit) op" where
  "routingRecord W body = bindM (liftM (readBody (wk_parser W) body)) (routeMessage W)"

definition deliveryHandler :: "'w consumer \<Rightarrow> (string \<times> string) list \<Rightarrow> ('w, string list) op" where
  "deliveryHandler W = sqsBatch (deliveryRecord W) (wk_flush W)"

definition routingHandler :: "'w consumer \<Rightarrow> (string \<times> string) list \<Rightarrow> ('w, string list) op" where
  "routingHandler W = sqsBatch (routingRecord W) (wk_flush W)"

text \<open>\<open>createStreamHandler\<close> of the outbox worker: a tick that throws reports every record of the stream.\<close>

definition streamHandler :: "('w, unit) op \<Rightarrow> ('w, unit) op \<Rightarrow> string list \<Rightarrow> ('w, string list) op" where
  "streamHandler work flush records =
     catchM (bindM work (\<lambda>_. bindM flush (\<lambda>_. returnM [])))
       (\<lambda>_. bindM flush (\<lambda>_. returnM records))"

section \<open>What is published is read back\<close>

lemma body_fields [simp]:
  "json_get (messageBody m) ''schemaVersion'' = Some (JNum 1)"
  "json_get (messageBody m) ''tenantId'' = Some (JStr (qm_tenantId m))"
  "json_get (messageBody m) ''correlationId'' = Some (JStr (qm_correlationId m))"
  "json_get (messageBody m) ''messageType'' = Some (JStr (message_type_text (qm_messageType m)))"
  "json_get (messageBody m) ''cause'' = Some (JStr (cause_text (qm_cause m)))"
  "json_get (messageBody m) ''eventId'' = map_option JStr (qm_eventId m)"
  "json_get (messageBody m) ''deliveryId'' = map_option JStr (qm_deliveryId m)"
  "json_get (messageBody m) ''destinationId'' = map_option JStr (qm_destinationId m)"
  "json_get (messageBody m) ''notBefore'' = map_option (\<lambda>t. JStr (isoString t)) (qm_notBefore m)"
  by (cases "qm_eventId m"; cases "qm_deliveryId m"; cases "qm_destinationId m"; cases "qm_notBefore m";
      simp add: messageBody_def optional_field_def)+

lemma body_keys: "messageBody m = JObj fs \<Longrightarrow> set (map fst fs) \<subseteq> set message_keys"
  by (cases "qm_eventId m"; cases "qm_deliveryId m"; cases "qm_destinationId m"; cases "qm_notBefore m")
    (auto simp: messageBody_def optional_field_def message_keys_def)

lemma type_back: "typeField (messageBody m) = Inr (qm_messageType m)"
  by (cases "qm_messageType m") (simp_all add: typeField_def requiredField_def)

lemma cause_back: "causeField (messageBody m) = Inr (qm_cause m)"
  by (cases "qm_cause m") (simp_all add: causeField_def requiredField_def)

lemma string_back:
  "stringField (messageBody m) ''eventId'' = Inr (qm_eventId m)" "stringField (messageBody m) ''deliveryId'' = Inr (qm_deliveryId m)"
  "stringField (messageBody m) ''destinationId'' = Inr (qm_destinationId m)"
  by (simp_all add: stringField_def split: option.split)

lemma instant_back:
  assumes "\<And>t. qm_notBefore m = Some t \<Longrightarrow> inst (isoString t) = Some t"
  shows "instantField inst (messageBody m) = Inr (qm_notBefore m)"
  using assms by (cases "qm_notBefore m") (simp_all add: instantField_def stringField_def)

lemma schema_cause: "schema_ok t p c \<Longrightarrow> \<exists>x. c = Some x"
  by (cases t) auto

lemma decode_parsed:
  assumes parsed: "parseMessage t tenant p c = Inr m"
    and inst: "\<And>t. qm_notBefore m = Some t \<Longrightarrow> inst (isoString t) = Some t"
  shows "decodeMessage inst (messageBody m) = Inr m"
proof -
  from parsed have ok: "base_ok tenant p" "schema_ok t p c"
    and m: "m = \<lparr>qm_messageType = t, qm_tenantId = tenant, qm_eventId = pl_eventId p,
          qm_deliveryId = pl_deliveryId p, qm_destinationId = pl_destinationId p,
          qm_correlationId = pl_correlationId p, qm_notBefore = pl_notBefore p, qm_cause = the c\<rparr>"
    by (auto simp: parseMessage_def)
  obtain x where c: "c = Some x" using schema_cause [OF ok(2)] by auto
  let ?p = "\<lparr>pl_eventId = qm_eventId m, pl_deliveryId = qm_deliveryId m, pl_destinationId = qm_destinationId m,
            pl_correlationId = qm_correlationId m, pl_notBefore = qm_notBefore m, pl_cause = Some (qm_cause m)\<rparr>"
  have "base_ok (qm_tenantId m) ?p" using ok(1) by (simp add: m base_ok_def)
  moreover have "schema_ok (qm_messageType m) ?p (Some (qm_cause m))" using ok(2) by (cases t) (simp_all add: m c)
  ultimately have again: "parseMessage (qm_messageType m) (qm_tenantId m) ?p (Some (qm_cause m)) = Inr m"
    by (simp add: parseMessage_def throw_if_def)
  obtain fs where fs: "messageBody m = JObj fs" by (simp add: messageBody_def)
  have "decodeMessage inst (messageBody m) = parseMessage (qm_messageType m) (qm_tenantId m) ?p (Some (qm_cause m))"
    using body_keys [OF fs] body_fields(1) [of m]
    by (simp only: decodeMessage_def fs json.case) (simp only: fs [symmetric] type_back cause_back string_back
        instant_back [OF inst] requiredField_def body_fields json_string.simps option.case andThen_def sum.case throw_if_def simp_thms if_False)
  with again show ?thesis by simp
qed

section \<open>Properties\<close>

text \<open>
  C31. The publisher and the consumers agree. A message that the outbox worker makes of a record and serializes is read
  back by a consumer as the same message, when \<open>JSON.parse\<close> gives back what was serialized and the schema accepts the time
  that \<open>toISOString\<close> printed: no record that is published is refused by the schema of the consumer.
\<close>

theorem published_messages_are_read_back:
  assumes "outboxQueueMessage b = Inr (Some m)" and "qp_parse Q (render num (messageBody m)) = Some (messageBody m)"
    and "\<And>t. qm_notBefore m = Some t \<Longrightarrow> qp_instant Q (isoString t) = Some t"
  shows "parseQueueMessage Q \<lparr>rm_body = Some (render num (messageBody m)), rm_receipt = r\<rparr> = Inr m"
proof -
  obtain t tenant p c where "parseMessage t tenant p c = Inr m"
    using assms(1) by (cases "ob_kind b") (auto simp: outboxQueueMessage_def Let_def map_sum_def split: sum.splits)
  from decode_parsed [OF this assms(3)] assms(2) show ?thesis
    by (simp add: parseQueueMessage_def readBody_def)
qed

definition sample_read :: queue_message where
  "sample_read = \<lparr>qm_messageType = MT_Route_Event, qm_tenantId = ''tenant_00000000000000000000000001'',
     qm_eventId = Some ''evt_00000000000000000000000001'', qm_deliveryId = None, qm_destinationId = None,
     qm_correlationId = ''cor_00000000000000000000000001'', qm_notBefore = None, qm_cause = INITIAL\<rparr>"

definition sample_parser :: queue_parser where
  "sample_parser = \<lparr>qp_parse = read_json read_unary, qp_instant = (\<lambda>_. None)\<rparr>"

lemma published_messages_are_read_back_witness:
  "outboxQueueMessage sample_route = Inr (Some sample_read)
   \<and> parseQueueMessage sample_parser \<lparr>rm_body = Some (render unary (messageBody sample_read)), rm_receipt = Some ''receipt''\<rparr>
     = Inr sample_read"
proof -
  have sent: "outboxQueueMessage sample_route = Inr (Some sample_read)"
    by (simp add: outboxQueueMessage_def sample_route_def parseMessage_def base_ok_def identifier_ok_def
      asIdentifier_def is_ulid_def ulid_alphabet_def throw_if_def sample_read_def)
  have "qp_parse sample_parser (render unary (messageBody sample_read)) = Some (messageBody sample_read)"
    using read_render [OF unary_reads, of "messageBody sample_read" _ "[]"]
    by (simp add: sample_parser_def read_json_def ends_value_def)
  from published_messages_are_read_back [OF sent this] sent show ?thesis by (simp add: sample_read_def)
qed


definition sample_call :: queue_message where
  "sample_call = \<lparr>qm_messageType = MT_Deliver, qm_tenantId = ''tenant_00000000000000000000000001'',
     qm_eventId = Some ''evt_00000000000000000000000001'', qm_deliveryId = Some ''dlv_00000000000000000000000001'',
     qm_destinationId = None, qm_correlationId = ''cor_00000000000000000000000001'', qm_notBefore = None, qm_cause = INITIAL\<rparr>"

definition sample_due :: delivery where
  "sample_due = sample_delivery\<lparr>d_eventId := ''evt_00000000000000000000000001'', d_deliveryId := ''dlv_00000000000000000000000001'',
     d_tenantId := ''tenant_00000000000000000000000001'', d_correlationId := ''cor_00000000000000000000000001''\<rparr>"

definition due_table :: dtable where
  "due_table = [K_Delivery (d_tenantId sample_due) (d_eventId sample_due) (d_deliveryId sample_due) \<mapsto> It_Delivery sample_due,
     K_Lookup (d_tenantId sample_due) LK_Delivery (d_deliveryId sample_due) \<mapsto> It_Lookup (d_eventId sample_due)]"

definition sample_consumer :: "mem consumer" where
  "sample_consumer = \<lparr>wk_services = sample_clocked, wk_parser = sample_parser, wk_delete = (\<lambda>r. returnM ()),
     wk_visibility = (\<lambda>r n. returnM ()), wk_owner = ''worker-1'', wk_flush = returnM ()\<rparr>"

text \<open>A deletion that fails while the delivery is not accounted for.\<close>

definition careful_delete :: "deliver_input \<Rightarrow> mem \<Rightarrow> string \<Rightarrow> (mem, unit) op" where
  "careful_delete inp w r v = (if accounted (mem_table w) (mem_clock w) inp (mem_table v) (mem_clock v) then returnM () v
     else throwM (Error ''LOST'') v)"


end
