(* ===== verification/Control_Service.thy ===== *)
theory Control_Service
  imports Control_Store Outbox_Publisher Routing_Runs Partner_Http
begin

text \<open>
  The control plane: \<open>ControlPlaneService\<close> of \<open>packages/application/src/index.ts\<close> over the operations of \<open>Control_Store\<close>, and
  the routes of \<open>apps/api/src/app.ts\<close> that change the configuration. Every row that it changes comes with an audit record of the caller,
  and no destination is stored whose URL was not vetted; but the versions do not protect from stale reads.
\<close>

section \<open>Dependencies\<close>

text \<open>
  \<open>ct_store context alias value\<close> is \<open>secrets.store\<close>, which answers with the name of the reference, and \<open>ct_validate\<close> is
  \<open>endpoints.validateUrl\<close>.
\<close>

record 'w control_services = "'w services" +
  ct_store :: "tenant_context \<Rightarrow> string \<Rightarrow> string \<Rightarrow> ('w, string) op"
  ct_validate :: "string \<Rightarrow> ('w, unit) op"

definition cps_audit ::
    "('w, 'z) services_scheme \<Rightarrow> tenant_context \<Rightarrow> string \<Rightarrow> string \<Rightarrow> string \<Rightarrow> (string \<times> meta_value) list
       \<Rightarrow> ('w, audit_event) op" where
  "cps_audit S cx action targetType targetId metadata =
     bindM (readM (sv_now S)) (\<lambda>at_ms.
     bindM (sv_next S ''aud'') (\<lambda>auditId.
     bindM (readM (sv_now S)) (\<lambda>now.
       returnM \<lparr>au_auditId = auditId, au_tenantId = cx_tenantId cx, au_actorId = cx_actorId cx, au_actorRole = cx_role cx,
         au_action = action, au_targetType = targetType, au_targetId = targetId, au_requestId = cx_requestId cx,
         au_correlationId = cx_correlationId cx, au_reason = None, au_metadata = metadata, au_occurredAt = at_ms,
         au_expiresAt = Iso (now + days 90)\<rparr>)))"

text \<open>The answers of the repository as errors.\<close>

definition createdOr :: "string \<Rightarrow> 'a \<Rightarrow> create_outcome \<Rightarrow> js_error + 'a" where
  "createdOr limit x outcome = (case outcome of
      CO_Created \<Rightarrow> Inr x
    | CO_Not_Found \<Rightarrow> Inl (Error ''NOT_FOUND'')
    | CO_Limit \<Rightarrow> Inl (Error limit)
    | CO_Conflict \<Rightarrow> Inl (Error ''CONFLICT''))"

definition createdOnly :: "'a \<Rightarrow> create_outcome \<Rightarrow> js_error + 'a" where
  "createdOnly x outcome = (if outcome = CO_Created then Inr x else Inl (Error ''CONFLICT''))"

definition updatedOr :: "'a \<Rightarrow> update_outcome \<Rightarrow> js_error + 'a" where
  "updatedOr x outcome = (case outcome of
      UO_Updated \<Rightarrow> Inr x
    | UO_Not_Found \<Rightarrow> Inl (Error ''NOT_FOUND'')
    | UO_Conflict \<Rightarrow> Inl (Error ''PRECONDITION_FAILED''))"

section \<open>Partners\<close>

record partner_input =
  pi_name :: string
  pi_externalKey :: string
  pi_description :: "string option"
  pi_enabled :: bool

text \<open>The description is left, set, or removed with \<open>null\<close>.\<close>

datatype 'a patch = Unchanged | Removed | Assigned 'a

record partner_changes =
  pc_name :: "string option"
  pc_description :: "string patch"
  pc_enabled :: "bool option"

definition newPartner :: "tenant_context \<Rightarrow> partner_input \<Rightarrow> string \<Rightarrow> instant \<Rightarrow> partner" where
  "newPartner cx input partnerId at_ms =
     \<lparr>pa_partnerId = partnerId, pa_tenantId = cx_tenantId cx, pa_name = pi_name input,
      pa_externalKey = pi_externalKey input, pa_description = pi_description input, pa_enabled = pi_enabled input,
      pa_createdAt = at_ms, pa_updatedAt = at_ms, pa_version = 1\<rparr>"

definition cps_createPartner ::
    "('w, 'z) services_scheme \<Rightarrow> tenant_context \<Rightarrow> partner_input \<Rightarrow> ('w, partner) op" where
  "cps_createPartner S cx input =
     bindM (readM (sv_now S)) (\<lambda>at_ms.
     bindM (sv_next S ''ptr'') (\<lambda>partnerId.
       (let partner = newPartner cx input partnerId at_ms in
     bindM (cps_audit S cx ''partner.created'' ''PARTNER'' partnerId [(''externalKey'', Meta_Str (pi_externalKey input))]) (\<lambda>audit.
     bindM (createPartner (sv_db S) (cx_tenantId cx) partner audit) (\<lambda>result.
       liftM (if result = CO_Created then Inr partner
              else Inl (Error (if result = CO_Limit then ''PARTNER_LIMIT'' else ''CONFLICT''))))))))"

definition changedPartner :: "partner \<Rightarrow> partner_changes \<Rightarrow> instant \<Rightarrow> partner" where
  "changedPartner existing input at_ms = existing
     \<lparr>pa_name := option_or (pc_name input) (pa_name existing),
      pa_description := (case pc_description input of Unchanged \<Rightarrow> pa_description existing | Removed \<Rightarrow> None | Assigned x \<Rightarrow> Some x),
      pa_enabled := option_or (pc_enabled input) (pa_enabled existing),
      pa_updatedAt := at_ms, pa_version := pa_version existing + 1\<rparr>"

definition cps_updatePartner ::
    "('w, 'z) services_scheme \<Rightarrow> tenant_context \<Rightarrow> partner \<Rightarrow> int \<Rightarrow> partner_changes \<Rightarrow> ('w, partner) op" where
  "cps_updatePartner S cx existing expectedVersion input =
     bindM (readM (sv_now S)) (\<lambda>at_ms.
       (let partner = changedPartner existing input at_ms in
     bindM (cps_audit S cx ''partner.updated'' ''PARTNER'' (pa_partnerId partner) [(''version'', Meta_Int (pa_version partner))])
       (\<lambda>audit.
     bindM (updatePartner (sv_db S) (cx_tenantId cx) partner expectedVersion audit) (\<lambda>result.
       liftM (updatedOr partner result)))))"

section \<open>Transformations\<close>

definition sampleRuns :: "('w, 'z) services_scheme \<Rightarrow> json \<Rightarrow> json option \<Rightarrow> js_error + unit" where
  "sampleRuns S definition sampleEvent = (case sampleEvent of
      None \<Rightarrow> Inr ()
    | Some sample \<Rightarrow> (case sv_execute S definition sample of Inl e \<Rightarrow> Inl e | Inr _ \<Rightarrow> Inr ()))"

definition cps_createTransformation ::
    "('w, 'z) services_scheme \<Rightarrow> tenant_context \<Rightarrow> string \<Rightarrow> json \<Rightarrow> json option \<Rightarrow> ('w, transformation_version) op" where
  "cps_createTransformation S cx externalKey definition sampleEvent =
     bindM (liftM (sampleRuns S definition sampleEvent)) (\<lambda>_.
     bindM (readM (sv_now S)) (\<lambda>at_ms.
     bindM (sv_next S ''trf'') (\<lambda>transformationId.
       (let transformation = \<lparr>tf_transformationId = transformationId, tf_externalKey = externalKey,
          tf_tenantId = cx_tenantId cx, tf_version = 1, tf_definition = definition, tf_createdAt = at_ms,
          tf_createdBy = cx_actorId cx\<rparr> in
     bindM (cps_audit S cx ''transformation.created'' ''TRANSFORMATION'' transformationId
              [(''externalKey'', Meta_Str externalKey), (''version'', Meta_Int 1)]) (\<lambda>audit.
     bindM (createTransformationVersion (sv_db S) (cx_tenantId cx) transformation audit) (\<lambda>result.
       liftM (createdOnly transformation result)))))))"

definition nextVersion ::
    "tenant_context \<Rightarrow> transformation_version \<Rightarrow> json \<Rightarrow> instant \<Rightarrow> transformation_version" where
  "nextVersion cx existing definition at_ms = existing
     \<lparr>tf_version := tf_version existing + 1, tf_definition := definition, tf_createdAt := at_ms,
      tf_createdBy := cx_actorId cx\<rparr>"

definition cps_createTransformationVersion ::
    "('w, 'z) services_scheme \<Rightarrow> tenant_context \<Rightarrow> transformation_version \<Rightarrow> json \<Rightarrow> json option
       \<Rightarrow> ('w, transformation_version) op" where
  "cps_createTransformationVersion S cx existing definition sampleEvent =
     bindM (liftM (sampleRuns S definition sampleEvent)) (\<lambda>_.
     bindM (readM (sv_now S)) (\<lambda>at_ms.
       (let transformation = nextVersion cx existing definition at_ms in
     bindM (cps_audit S cx ''transformation.version_created'' ''TRANSFORMATION'' (tf_transformationId transformation)
              [(''version'', Meta_Int (tf_version transformation))]) (\<lambda>audit.
     bindM (createTransformationVersion (sv_db S) (cx_tenantId cx) transformation audit) (\<lambda>result.
       liftM (createdOnly transformation result))))))"

definition cps_validateTransformation :: "('w, 'z) services_scheme \<Rightarrow> json \<Rightarrow> json \<Rightarrow> ('w, json \<times> string) op" where
  "cps_validateTransformation S definition sample = liftM (sv_execute S definition sample)"

text \<open>The rows of a query come in the order of their keys, a page has at most the given number of them.\<close>

fun version_of :: "string \<Rightarrow> string \<Rightarrow> dkey \<Rightarrow> bool" where
  "version_of t i (K_Transformation t' i' v) \<longleftrightarrow> t' = t \<and> i' = i"
| "version_of t i _ = False"

definition listTransformationVersions ::
    "'w dynamo \<Rightarrow> string \<Rightarrow> string \<Rightarrow> nat \<Rightarrow> ('w, transformation_version list) op" where
  "listTransformationVersions db t transformationId limit =
     bindM (db_query db (version_of t transformationId) (Some limit)) (\<lambda>rows. withNow db (\<lambda>now.
       returnM (List.map_filter (\<lambda>(k, it). if isExpired it now then None else as_transformation (Some it)) rows)))"

definition getTransformationByExternalKey ::
    "'w dynamo \<Rightarrow> string \<Rightarrow> string \<Rightarrow> ('w, (string \<times> string \<times> int) option) op" where
  "getTransformationByExternalKey db t externalKey =
     byExternalKey db t RES_Transformation externalKey (\<lambda>transformationId.
       bindM (listTransformationVersions db t transformationId 100) (\<lambda>versions.
       returnM (Some (transformationId, externalKey, if versions = [] then 0 else tf_version (last versions)))))"

section \<open>Destinations\<close>

text \<open>
  A new destination: the caller's configuration is a \<open>destination\<close> whose identifier, tenant, secret references and version
  are not used.
\<close>

definition newDestination :: "tenant_context \<Rightarrow> destination \<Rightarrow> string \<Rightarrow> string \<Rightarrow> destination" where
  "newDestination cx configuration destinationId secretName = configuration
     \<lparr>de_destinationId := destinationId, de_tenantId := cx_tenantId cx, de_secretReferences := [secretName],
      de_version := 1\<rparr>"

definition vetUrl :: "('w, 'z) control_services_scheme \<Rightarrow> string \<Rightarrow> string \<Rightarrow> ('w, unit) op" where
  "vetUrl S path baseUrl = bindM (liftM (sv_url S path baseUrl)) (ct_validate S)"

text \<open>The request to rotate a credential is recorded, then it is stored under its alias.\<close>

definition rotateCredential ::
    "('w, 'z) control_services_scheme \<Rightarrow> tenant_context \<Rightarrow> string \<Rightarrow> string \<times> string \<Rightarrow> ('w, string) op" where
  "rotateCredential S cx target credential =
     bindM (cps_audit S cx ''destination.credential_rotation_requested'' ''DESTINATION'' target
              [(''alias'', Meta_Str (fst credential))]) (\<lambda>audit.
     bindM (append_audit (sv_db S) audit) (\<lambda>_. ct_store S cx (fst credential) (snd credential)))"

definition cps_createDestination ::
    "('w, 'z) control_services_scheme \<Rightarrow> tenant_context \<Rightarrow> destination \<Rightarrow> string \<times> string \<Rightarrow> ('w, destination) op" where
  "cps_createDestination S cx configuration credential =
     bindM (vetUrl S (de_path configuration) (de_baseUrl configuration)) (\<lambda>_.
     bindM (rotateCredential S cx ''pending'' credential) (\<lambda>secretName.
     bindM (sv_next S ''dst'') (\<lambda>destinationId.
       (let destination = newDestination cx configuration destinationId secretName in
     bindM (cps_audit S cx ''destination.created'' ''DESTINATION'' destinationId
              [(''externalKey'', Meta_Str (de_externalKey destination)), (''credentialAlias'', Meta_Str secretName)]) (\<lambda>audit.
     bindM (createDestination (sv_db S) (cx_tenantId cx) destination audit) (\<lambda>result.
       liftM (createdOr ''DESTINATION_LIMIT'' destination result)))))))"

definition cps_createDestinationFromAlias ::
    "('w, 'z) control_services_scheme \<Rightarrow> tenant_context \<Rightarrow> destination \<Rightarrow> string \<Rightarrow> ('w, destination) op" where
  "cps_createDestinationFromAlias S cx configuration secretAlias =
     bindM (vetUrl S (de_path configuration) (de_baseUrl configuration)) (\<lambda>_.
     bindM (readM (sv_now S)) (\<lambda>at_ms.
     bindM (sv_next S ''dst'') (\<lambda>destinationId.
       (let destination = newDestination cx configuration destinationId secretAlias in
     bindM (cps_audit S cx ''destination.imported'' ''DESTINATION'' destinationId
              [(''externalKey'', Meta_Str (de_externalKey destination)), (''importedAt'', Meta_Instant at_ms)]) (\<lambda>audit.
     bindM (createDestination (sv_db S) (cx_tenantId cx) destination audit) (\<lambda>result.
       liftM (createdOr ''DESTINATION_LIMIT'' destination result)))))))"

record destination_changes =
  dc_name :: "string option"
  dc_baseUrl :: "string option"
  dc_path :: "string option"
  dc_enabled :: "bool option"
  dc_authType :: "auth_type option"
  dc_authConfiguration :: "json option"
  dc_timeoutMs :: "int option"
  dc_retryPolicy :: "retry_policy option"
  dc_rateLimitPolicy :: "rate_limit_policy option"
  dc_circuitBreakerPolicy :: "circuit_breaker_policy option"
  dc_transformationId :: "string option"
  dc_activeTransformationVersion :: "int option"
  dc_sensitiveResponseJsonPaths :: "string list option"
  dc_credential :: "(string \<times> string) option"
  dc_credentialAlias :: "string option"

definition changedDestination :: "destination \<Rightarrow> destination_changes \<Rightarrow> string list \<Rightarrow> destination" where
  "changedDestination existing c secretReferences = existing
     \<lparr>de_name := option_or (dc_name c) (de_name existing),
      de_baseUrl := option_or (dc_baseUrl c) (de_baseUrl existing),
      de_path := option_or (dc_path c) (de_path existing),
      de_enabled := option_or (dc_enabled c) (de_enabled existing),
      de_authType := option_or (dc_authType c) (de_authType existing),
      de_authConfiguration := option_or (dc_authConfiguration c) (de_authConfiguration existing),
      de_secretReferences := secretReferences,
      de_timeoutMs := option_or (dc_timeoutMs c) (de_timeoutMs existing),
      de_retryPolicy := option_or (dc_retryPolicy c) (de_retryPolicy existing),
      de_rateLimitPolicy := option_or (dc_rateLimitPolicy c) (de_rateLimitPolicy existing),
      de_circuitBreakerPolicy := option_or (dc_circuitBreakerPolicy c) (de_circuitBreakerPolicy existing),
      de_transformationId := option_or (dc_transformationId c) (de_transformationId existing),
      de_activeTransformationVersion :=
        option_or (dc_activeTransformationVersion c) (de_activeTransformationVersion existing),
      de_sensitiveResponseJsonPaths :=
        option_or (dc_sensitiveResponseJsonPaths c) (de_sensitiveResponseJsonPaths existing),
      de_version := de_version existing + 1\<rparr>"

definition resumeDestinationOutbox :: "tenant_context \<Rightarrow> string \<Rightarrow> destination \<Rightarrow> instant \<Rightarrow> outbox_record" where
  "resumeDestinationOutbox cx outboxId destination now =
     \<lparr>ob_outboxId = outboxId, ob_kind = RESUME_DESTINATION, ob_tenantId = cx_tenantId cx,
      ob_aggregateType = DESTINATION, ob_aggregateId = de_destinationId destination, ob_target = DELIVERY_QUEUE,
      ob_payload = \<lparr>pl_eventId = None, pl_deliveryId = None, pl_destinationId = Some (de_destinationId destination),
        pl_correlationId = cx_correlationId cx, pl_notBefore = None, pl_cause = None\<rparr>,
      ob_createdAt = now, ob_attempts = 0, ob_publishedAt = None, ob_traceparent = None\<rparr>"

definition resumption ::
    "('w, 'z) services_scheme \<Rightarrow> tenant_context \<Rightarrow> destination \<Rightarrow> destination \<Rightarrow> ('w, outbox_record option) op" where
  "resumption S cx existing destination =
     (if \<not> de_enabled existing \<and> de_enabled destination
      then bindM (sv_next S ''obx'') (\<lambda>outboxId. bindM (readM (sv_now S)) (\<lambda>now.
             returnM (Some (resumeDestinationOutbox cx outboxId destination now))))
      else returnM None)"

definition secretChange ::
    "('w, 'z) control_services_scheme \<Rightarrow> tenant_context \<Rightarrow> destination \<Rightarrow> destination_changes \<Rightarrow> ('w, string list) op" where
  "secretChange S cx existing input =
     bindM (case dc_credential input of
         None \<Rightarrow> returnM (de_secretReferences existing)
       | Some credential \<Rightarrow> bindM (rotateCredential S cx (de_destinationId existing) credential) (\<lambda>n. returnM [n]))
       (\<lambda>references. returnM (case dc_credentialAlias input of None \<Rightarrow> references | Some alias \<Rightarrow> [alias]))"

definition cps_updateDestination ::
    "('w, 'z) control_services_scheme \<Rightarrow> tenant_context \<Rightarrow> destination \<Rightarrow> int \<Rightarrow> destination_changes
       \<Rightarrow> ('w, destination) op" where
  "cps_updateDestination S cx existing expectedVersion input =
     bindM (if dc_baseUrl input \<noteq> None \<or> dc_path input \<noteq> None
            then vetUrl S (option_or (dc_path input) (de_path existing)) (option_or (dc_baseUrl input) (de_baseUrl existing))
            else returnM ()) (\<lambda>_.
     bindM (secretChange S cx existing input) (\<lambda>secretReferences.
       (let destination = changedDestination existing input secretReferences in
     bindM (cps_audit S cx (if dc_enabled input = Some False then ''destination.disabled'' else ''destination.updated'')
              ''DESTINATION'' (de_destinationId destination) [(''version'', Meta_Int (de_version destination))]) (\<lambda>audit.
     bindM (resumption S cx existing destination) (\<lambda>outbox.
     bindM (updateDestination (sv_db S) (sv_shards S) (cx_tenantId cx) destination expectedVersion audit outbox)
       (\<lambda>result. liftM (updatedOr destination result)))))))"

section \<open>Subscriptions\<close>

record subscription_input =
  si_externalKey :: string
  si_destinationId :: string
  si_eventType :: string
  si_enabled :: bool

definition newSubscription :: "tenant_context \<Rightarrow> subscription_input \<Rightarrow> string \<Rightarrow> instant \<Rightarrow> subscription" where
  "newSubscription cx input subscriptionId at_ms =
     \<lparr>su_subscriptionId = subscriptionId, su_externalKey = si_externalKey input, su_tenantId = cx_tenantId cx,
      su_destinationId = si_destinationId input, su_eventType = si_eventType input, su_enabled = si_enabled input,
      su_createdAt = at_ms, su_version = 1\<rparr>"

definition cps_createSubscription ::
    "('w, 'z) services_scheme \<Rightarrow> tenant_context \<Rightarrow> subscription_input \<Rightarrow> ('w, subscription) op" where
  "cps_createSubscription S cx input =
     bindM (readM (sv_now S)) (\<lambda>at_ms.
     bindM (sv_next S ''sub'') (\<lambda>subscriptionId.
       (let subscription = newSubscription cx input subscriptionId at_ms in
     bindM (cps_audit S cx ''subscription.created'' ''SUBSCRIPTION'' subscriptionId
              [(''eventType'', Meta_Str (si_eventType input))]) (\<lambda>audit.
     bindM (createSubscription (sv_db S) (cx_tenantId cx) subscription audit) (\<lambda>result.
       liftM (createdOnly subscription result))))))"

definition changedSubscription :: "subscription \<Rightarrow> bool \<Rightarrow> subscription" where
  "changedSubscription existing enabled = existing\<lparr>su_enabled := enabled, su_version := su_version existing + 1\<rparr>"

definition cps_updateSubscription ::
    "('w, 'z) services_scheme \<Rightarrow> tenant_context \<Rightarrow> subscription \<Rightarrow> int \<Rightarrow> bool \<Rightarrow> ('w, subscription) op" where
  "cps_updateSubscription S cx existing expectedVersion enabled =
     (let subscription = changedSubscription existing enabled in
      bindM (cps_audit S cx ''subscription.updated'' ''SUBSCRIPTION'' (su_subscriptionId subscription)
               [(''version'', Meta_Int (su_version subscription))]) (\<lambda>audit.
      bindM (updateSubscription (sv_db S) (cx_tenantId cx) subscription expectedVersion audit) (\<lambda>result.
        liftM (updatedOr subscription result))))"

definition cps_deleteSubscription ::
    "('w, 'z) services_scheme \<Rightarrow> tenant_context \<Rightarrow> string \<Rightarrow> ('w, unit) op" where
  "cps_deleteSubscription S cx subscriptionId =
     bindM (cps_audit S cx ''subscription.deleted'' ''SUBSCRIPTION'' subscriptionId []) (\<lambda>audit.
     bindM (deleteSubscription (sv_db S) (cx_tenantId cx) subscriptionId audit) (\<lambda>result.
       if result = DO_Deleted then returnM () else throwM (Error ''NOT_FOUND'')))"

section \<open>The routes of the API\<close>

text \<open>The \<open>If-Match\<close> header: a version in quotes. The body is what the schema of the request made of it.\<close>

fun decimal :: "string \<Rightarrow> int \<Rightarrow> int option" where
  "decimal [] n = Some n"
| "decimal (c # cs) n = (if CHR ''0'' \<le> c \<and> c \<le> CHR ''9'' then decimal cs (10 * n + (of_char c - 48)) else None)"

definition ifMatch :: "string option \<Rightarrow> js_error + int" where
  "ifMatch header = (case header of
      Some (CHR 0x22 # c # rest) \<Rightarrow>
        (if CHR ''1'' \<le> c \<and> c \<le> CHR ''9'' \<and> rest \<noteq> [] \<and> last rest = CHR 0x22
         then (case decimal (c # butlast rest) 0 of Some n \<Rightarrow> Inr n | None \<Rightarrow> Inl (Error ''PRECONDITION_FAILED''))
         else Inl (Error ''PRECONDITION_FAILED''))
    | _ \<Rightarrow> Inl (Error ''PRECONDITION_FAILED''))"

definition patchPartner ::
    "('w, 'z) services_scheme \<Rightarrow> tenant_context \<Rightarrow> string \<Rightarrow> string option \<Rightarrow> js_error + partner_changes \<Rightarrow> ('w, partner) op" where
  "patchPartner S cx partnerId match body =
     bindM (getPartner (sv_db S) (cx_tenantId cx) partnerId) (\<lambda>found. case found of
         None \<Rightarrow> throwM (Error ''NOT_FOUND'')
       | Some partner \<Rightarrow>
           bindM (liftM (ifMatch match)) (\<lambda>expectedVersion.
           bindM (liftM body) (\<lambda>input. cps_updatePartner S cx partner expectedVersion input)))"

definition patchDestination ::
    "('w, 'z) control_services_scheme \<Rightarrow> tenant_context \<Rightarrow> string \<Rightarrow> string option \<Rightarrow> js_error + destination_changes
       \<Rightarrow> ('w, destination) op" where
  "patchDestination S cx destinationId match body =
     bindM (getDestination (sv_db S) (cx_tenantId cx) destinationId) (\<lambda>found. case found of
         None \<Rightarrow> throwM (Error ''NOT_FOUND'')
       | Some destination \<Rightarrow>
           bindM (liftM (ifMatch match)) (\<lambda>expectedVersion.
           bindM (liftM body) (\<lambda>input. cps_updateDestination S cx destination expectedVersion input)))"

definition postTransformationVersion ::
    "('w, 'z) services_scheme \<Rightarrow> tenant_context \<Rightarrow> string \<Rightarrow> js_error + json \<times> json option \<Rightarrow> ('w, transformation_version) op" where
  "postTransformationVersion S cx transformationId body =
     bindM (listTransformationVersions (sv_db S) (cx_tenantId cx) transformationId 100) (\<lambda>versions.
       if versions = [] then throwM (Error ''NOT_FOUND'')
       else bindM (liftM body) (\<lambda>(definition, sampleEvent).
         cps_createTransformationVersion S cx (last versions) definition sampleEvent))"

text \<open>
  The status and the code of the answer to an error. The texts of the errors of other services and of failed authentication are not
  modelled: \<open>mapError\<close> takes them for a request that is not valid, as it does all that it does not know.
\<close>

fun errorMessage :: "js_error \<Rightarrow> string" where
  "errorMessage (Error m) = m"
| "errorMessage (DomainError code m) = m"
| "errorMessage (UnsafeDestinationError code m) = m"
| "errorMessage _ = ''INTERNAL''"

definition ends_with :: "string \<Rightarrow> string \<Rightarrow> bool" where
  "ends_with s ending \<longleftrightarrow> length ending \<le> length s \<and> drop (length s - length ending) s = ending"

definition mapError :: "js_error \<Rightarrow> nat \<times> string" where
  "mapError e = (let message = errorMessage e in
     if message = ''NOT_FOUND'' then (404, message)
     else if message = ''PRECONDITION_FAILED'' then (412, message)
     else if message = ''CONFLICT'' then (409, message)
     else if ends_with message ''_LIMIT'' then (409, message)
     else (400, ''VALIDATION_ERROR''))"

section \<open>What a change leaves\<close>

text \<open>A record of the caller's action, and that the audit table has one.\<close>

definition records :: "tenant_context \<Rightarrow> string \<Rightarrow> string \<Rightarrow> audit_event \<Rightarrow> bool" where
  "records cx action target a \<longleftrightarrow> au_tenantId a = cx_tenantId cx \<and> au_actorId a = cx_actorId cx \<and> au_actorRole a = cx_role cx
     \<and> au_action a = action \<and> au_targetId a = target \<and> au_requestId a = cx_requestId cx \<and> au_correlationId a = cx_correlationId cx"

definition audited :: "tenant_context \<Rightarrow> string \<Rightarrow> string \<Rightarrow> dtable \<Rightarrow> bool" where
  "audited cx action target u \<longleftrightarrow> (\<exists>a. records cx action target a
     \<and> u (K_Audit (cx_tenantId cx) (au_occurredAt a) (au_auditId a)) = Some (stored_audit a))"

text \<open>The errors that say that nothing was changed.\<close>

definition refusals :: "js_error set" where
  "refusals = Error ` {''PARTNER_LIMIT'', ''DESTINATION_LIMIT'', ''CONFLICT'', ''NOT_FOUND'', ''PRECONDITION_FAILED''}"

text \<open>
  What a refused change leaves, from which the other clients then go on: the table as it was, or, with a credential, perhaps a table
  that they made of it with the record that its rotation was requested.
\<close>

definition nothing_new :: "dtable \<Rightarrow> dtable set" where
  "nothing_new s0 = {s0}"

definition rotation_asked :: "(dtable \<Rightarrow> dtable \<Rightarrow> bool) \<Rightarrow> tenant_context \<Rightarrow> string \<Rightarrow> dtable \<Rightarrow> dtable set" where
  "rotation_asked rely cx target s0 = {s0} \<union>
     {s(K_Audit (cx_tenantId cx) (au_occurredAt a) (au_auditId a) \<mapsto> stored_audit a) |s a.
        rely s0 s \<and> records cx ''destination.credential_rotation_requested'' target a}"

definition left_by ::
    "(dtable \<Rightarrow> dtable \<Rightarrow> bool) \<Rightarrow> tenant_context \<Rightarrow> string \<Rightarrow> (string \<times> string) option \<Rightarrow> dtable \<Rightarrow> dtable set" where
  "left_by rely cx target credential s0 = (if credential = None then nothing_new s0 else rotation_asked rely cx target s0)"

definition goes_on :: "(dtable \<Rightarrow> dtable \<Rightarrow> bool) \<Rightarrow> dtable set \<Rightarrow> dtable \<Rightarrow> bool" where
  "goes_on rely B u \<longleftrightarrow> (\<exists>s \<in> B. rely s u)"

text \<open>
  A change that succeeds has left its rows, or has deleted them, and its audit record; one that is refused leaves what is said above.
\<close>

definition settles ::
    "(dtable \<Rightarrow> dtable \<Rightarrow> bool) \<Rightarrow> dtable set \<Rightarrow> tenant_context \<Rightarrow> ('a \<Rightarrow> (dkey \<times> item option) list) \<Rightarrow> string
       \<Rightarrow> ('a \<Rightarrow> string) \<Rightarrow> js_error + 'a \<Rightarrow> dtable \<Rightarrow> bool" where
  "settles rely B cx rows action target r u \<longleftrightarrow> (case r of
      Inl e \<Rightarrow> e \<in> refusals \<longrightarrow> goes_on rely B u
    | Inr x \<Rightarrow> (\<forall>(k, it) \<in> set (rows x). u k = it) \<and> audited cx action (target x) u)"

definition recorded ::
    "('w \<Rightarrow> dtable) \<Rightarrow> (dtable \<Rightarrow> dtable \<Rightarrow> bool) \<Rightarrow> tenant_context \<Rightarrow> (dtable \<Rightarrow> dtable set) \<Rightarrow> ('w, 'a) op
       \<Rightarrow> ('a \<Rightarrow> (dkey \<times> item option) list) \<Rightarrow> string \<Rightarrow> ('a \<Rightarrow> string) \<Rightarrow> bool" where
  "recorded view rely cx refused m rows action target \<longleftrightarrow>
     (\<forall>w r w'. m w = (r, w') \<longrightarrow> settles rely (refused (view w)) cx rows action target r (view w'))"

text \<open>The rows of the subscription that a deletion reads, and their removal.\<close>

definition subscription_rows :: "string \<Rightarrow> subscription \<Rightarrow> (dkey \<times> item option) list" where
  "subscription_rows t x = [(subscriptionKey t x, Some (It_Subscription x)), (catalogKey t x, Some (It_Subscription x)),
     (K_ExternalKey t RES_Subscription (su_externalKey x), Some (It_External (su_subscriptionId x)))]"

definition readForDeletion ::
    "('w, 'z) services_scheme \<Rightarrow> tenant_context \<Rightarrow> string \<Rightarrow> ('w, item option) op" where
  "readForDeletion S cx i =
     bindM (cps_audit S cx ''subscription.deleted'' ''SUBSCRIPTION'' i [])
       (\<lambda>_. getCore (sv_db S) (K_SubscriptionCatalog (cx_tenantId cx) i))"

lemmas op_binds = op_bind_assoc op_bind_return op_bind_throw op_bind_if mapM_def

section \<open>The control plane beside other clients\<close>

text \<open>
  The identifiers, the secret store and the validator leave the table to the other clients; a URL that the validator accepts is
  \<open>cleared\<close>. None of them answers with an error of the control plane, and neither does the database.
\<close>

locale control_plane = dynamo_table "sv_db S" view rely
  for S :: "('w, 'z) control_services_scheme" and view :: "'w \<Rightarrow> dtable" and rely :: "dtable \<Rightarrow> dtable \<Rightarrow> bool" +
  fixes cleared :: "string \<Rightarrow> bool"
  assumes next_law: "sv_next S p w = (r, w') \<Longrightarrow> rely (view w) (view w')"
    and store_law: "ct_store S cx a v w = (r, w') \<Longrightarrow> rely (view w) (view w')"
    and validate_law: "ct_validate S u w = (q, w') \<Longrightarrow> rely (view w) (view w')"
    and vets: "ct_validate S u w = (Inr (), w') \<Longrightarrow> cleared u"
    and write_errors: "db_write (sv_db S) ops w = (Inl e, w') \<Longrightarrow> e \<notin> refusals"
begin

definition moves :: "('w, 'a) op \<Rightarrow> bool" where
  "moves m \<longleftrightarrow> (\<forall>w r w'. m w = (r, w') \<longrightarrow> rely (view w) (view w'))"

lemma moves_calls: "moves (sv_next S p)" "moves (ct_store S cx a v)" "moves (ct_validate S u)"
  using next_law store_law validate_law by (auto simp: moves_def)

lemma moves_plain: "moves (returnM a)" "moves (readM f)" "moves (liftM r)"
  by (auto simp: moves_def returnM_def readM_def liftM_def rely_refl)

lemma moves_bind: "moves m \<Longrightarrow> (\<And>a. moves (f a)) \<Longrightarrow> moves (bindM m f)"
  unfolding moves_def bindM_def by (fastforce split: prod.splits sum.splits intro: rely_trans)

lemma moves_reads: "moves (db_get (sv_db S) k)" "moves (db_query (sv_db S) F n)"
  using get_law query_law by (auto simp: moves_def)

lemma moves_getCore: "moves (getCore (sv_db S) k)"
  using get_law by (auto simp: moves_def getCore_def bindM_def returnM_def split: prod.splits sum.splits)

lemma moves_audit: "moves (cps_audit S cx action targetType target metadata)"
  unfolding cps_audit_def by (intro moves_bind moves_plain moves_calls)

lemma runs_moves: "moves m \<Longrightarrow> stable rely P \<Longrightarrow> runs view P m (\<lambda>_. P)"
  unfolding runs_def moves_def stable_def by blast

lemma moves_then:
  assumes "moves m" "stable rely P" "\<And>e u. P u \<Longrightarrow> Q (Inl e) u" "\<And>a. runs view P (f a) Q"
  shows "runs view P (bindM m f) Q"
  by (rule runs_bind [where R = "\<lambda>_. P"], rule runs_weaken [OF runs_moves [where P = P]]) (use assms in \<open>auto split: sum.split\<close>)

lemma audit_then:
  assumes "stable rely P" "\<And>e u. P u \<Longrightarrow> Q (Inl e) u" "\<And>a. records cx action target a \<Longrightarrow> runs view P (f a) Q"
  shows "runs view P (bindM (cps_audit S cx action targetType target metadata) f) Q"
proof -
  have "runs view P (cps_audit S cx action targetType target metadata)
      (\<lambda>r u. P u \<and> (\<forall>a. r = Inr a \<longrightarrow> records cx action target a))"
    using moves_audit assms(1) unfolding runs_def moves_def stable_def
    by (auto simp: cps_audit_def bindM_def readM_def returnM_def records_def split: prod.splits sum.splits)
  then show ?thesis
    by (rule runs_bind [where R = "\<lambda>a u. P u \<and> records cx action target a", OF runs_weaken])
      (use assms in \<open>auto simp: runs_def split: sum.split\<close>)
qed

lemma records_audited:
  assumes "records cx action target a" and "auditPut a \<in> set ops" and "tx_distinct ops"
  shows "audited cx action target (tx_apply ops s)"
  using tx_apply_at [OF assms(2,3), of s] assms(1) unfolding audited_def
  by (intro exI [of _ a]) (simp add: auditPut_def records_def)

text \<open>The write that decides a change.\<close>

lemma stable_goes_on: "stable rely (goes_on rely B)"
  unfolding stable_def goes_on_def by (blast intro: rely_trans)

lemma write_settles:
  assumes a: "records cx action (target x) a" "auditPut a \<in> set ops"
    and rows: "\<And>k it. (k, it) \<in> set (rows x) \<Longrightarrow> \<exists>op \<in> set ops. op_key op = k \<and> (\<forall>old. run_action (op_action op) old = it)"
    and g: "g True = Inr x" "\<And>y. g False \<noteq> Inr y"
  shows "runs view (goes_on rely B) (bindM (db_write (sv_db S) ops) (\<lambda>ok. liftM (g ok))) (settles rely B cx rows action target)"
  unfolding runs_def
proof (intro allI impI)
  fix w r w'
  assume s0: "goes_on rely B (view w)" and run: "bindM (db_write (sv_db S) ops) (\<lambda>ok. liftM (g ok)) w = (r, w')"
  obtain q w1 where put: "db_write (sv_db S) ops w = (q, w1)" by (cases "db_write (sv_db S) ops w")
  from write_law [OF put] obtain s where s: "rely (view w) s" "case q of
        Inr True \<Rightarrow> tx_ok ops s \<and> view w1 = tx_apply ops s
      | Inr False \<Rightarrow> view w1 = s
      | Inl e \<Rightarrow> view w1 = s \<or> (tx_ok ops s \<and> view w1 = tx_apply ops s)" by blast
  show "settles rely B cx rows action target r (view w')"
  proof (cases q)
    case (Inl e)
    with run put write_errors [of ops w e w1] show ?thesis by (auto simp: bindM_def settles_def)
  next
    case (Inr b)
    show ?thesis
    proof (cases b)
      case True
      with Inr s have ok: "tx_ok ops s" "view w1 = tx_apply ops s" by auto
      have "tx_apply ops s k = it" if kit: "(k, it) \<in> set (rows x)" for k it
      proof -
        from rows [OF kit] obtain op where op: "op \<in> set ops" "op_key op = k" "\<forall>old. run_action (op_action op) old = it" by auto
        with tx_apply_at [OF op(1), of s] ok(1) show ?thesis by (auto simp: tx_ok_def)
      qed
      moreover have "audited cx action (target x) (tx_apply ops s)"
        using records_audited [OF a] ok(1) by (simp add: tx_ok_def)
      moreover have "r = Inr x" "w' = w1" using run put Inr True g(1) by (auto simp: bindM_def liftM_def)
      ultimately show ?thesis by (auto simp: settles_def ok(2))
    next
      case False
      with Inr s have "view w1 = s" by simp
      moreover have "w' = w1" "\<exists>e. r = Inl e"
        using run put Inr False g(2) by (cases "g False"; auto simp: bindM_def liftM_def)+
      ultimately show ?thesis using s0 s(1) stable_goes_on [of B] by (auto simp: settles_def stable_def)
    qed
  qed
qed


text \<open>The steps before that write only move the table, and a refusal without it leaves nothing.\<close>

lemma settles_error: "goes_on rely B u \<Longrightarrow> settles rely B cx rows action target (Inl e) u"
  by (simp add: settles_def)

lemma refused: "runs view (goes_on rely B) (liftM (Inl e)) (settles rely B cx rows action target)"
  by (rule runs_lift) (rule settles_error)

lemma moves_settles:
  "moves m \<Longrightarrow> (\<And>a. runs view (goes_on rely B) (f a) (settles rely B cx rows action target))
    \<Longrightarrow> runs view (goes_on rely B) (bindM m f) (settles rely B cx rows action target)"
  by (rule moves_then) (auto intro: stable_goes_on settles_error)

lemma audit_settles:
  "(\<And>a. records cx action0 target0 a \<Longrightarrow> runs view (goes_on rely B) (f a) (settles rely B cx rows action target))
    \<Longrightarrow> runs view (goes_on rely B) (bindM (cps_audit S cx action0 targetType target0 metadata) f) (settles rely B cx rows action target)"
  by (rule audit_then) (auto intro: stable_goes_on settles_error)

lemma lift_settles:
  "(\<And>a. r = Inr a \<Longrightarrow> runs view (goes_on rely B) (f a) (settles rely B cx rows action target))
    \<Longrightarrow> runs view (goes_on rely B) (bindM (liftM r) f) (settles rely B cx rows action target)"
  by (rule runs_lift_then) (auto intro: settles_error)

lemmas call_settles = moves_calls [THEN moves_settles]
lemmas read_settles = moves_reads [THEN moves_settles] moves_getCore [THEN moves_settles]
lemmas settle = runs_clock audit_settles lift_settles call_settles read_settles

lemmas writes = put_new_def put_op_def createdOnly_def createdOr_def updatedOr_def created_or_conflict_def updated_or_conflict_def
  partnerTransaction_def transformationTransaction_def subscribeTransaction_def resubscribeTransaction_def destinationTransaction_def
  subscriptionKey_def catalogKey_def

lemma createPartner_settles:
  "runs view (goes_on rely B) (cps_createPartner S cx input) (settles rely B cx
     (\<lambda>p. [(K_Partner (cx_tenantId cx) (pa_partnerId p), Some (It_Partner p)),
       (K_ExternalKey (cx_tenantId cx) RES_Partner (pa_externalKey p), Some (It_External (pa_partnerId p)))]) ''partner.created'' pa_partnerId)"
  unfolding cps_createPartner_def createPartner_def Let_def op_binds
proof (intro settle, goal_cases)
  case (1 at_ms pid a xs)
  then show ?case by (auto intro!: refused write_settles simp: writes newPartner_def)
qed

lemma updatePartner_settles:
  "runs view (goes_on rely B) (cps_updatePartner S cx existing expected input) (settles rely B cx
     (\<lambda>p. [(K_Partner (cx_tenantId cx) (pa_partnerId p), Some (It_Partner p))]) ''partner.updated'' pa_partnerId)"
  unfolding cps_updatePartner_def updatePartner_def getPartner_def Let_def op_binds
proof (intro settle, goal_cases)
  case (1 at_ms a x)
  then show ?case by (auto intro!: refused write_settles simp: writes)
qed

lemma createTransformation_settles:
  "runs view (goes_on rely B) (cps_createTransformation S cx externalKey definition sample) (settles rely B cx
     (\<lambda>v. [(K_Transformation (cx_tenantId cx) (tf_transformationId v) (tf_version v), Some (It_Transformation v)),
       (K_ExternalKey (cx_tenantId cx) RES_Transformation (tf_externalKey v), Some (It_External (tf_transformationId v)))])
     ''transformation.created'' tf_transformationId)"
  unfolding cps_createTransformation_def createTransformationVersion_def Let_def op_binds
proof (intro settle, goal_cases)
  case (1 u at_ms i a)
  then show ?case by (auto intro!: write_settles simp: writes)
qed

lemma createTransformationVersion_settles:
  "runs view (goes_on rely B) (cps_createTransformationVersion S cx existing definition sample) (settles rely B cx
     (\<lambda>v. [(K_Transformation (cx_tenantId cx) (tf_transformationId v) (tf_version v), Some (It_Transformation v))])
     ''transformation.version_created'' tf_transformationId)"
  unfolding cps_createTransformationVersion_def createTransformationVersion_def Let_def op_binds
proof (intro settle, goal_cases)
  case (1 u at_ms a)
  then show ?case by (auto intro!: write_settles simp: writes)
qed

lemma createSubscription_settles:
  "runs view (goes_on rely B) (cps_createSubscription S cx input) (settles rely B cx
     (\<lambda>x. [(subscriptionKey (cx_tenantId cx) x, Some (It_Subscription x)), (catalogKey (cx_tenantId cx) x, Some (It_Subscription x)),
       (K_ExternalKey (cx_tenantId cx) RES_Subscription (su_externalKey x), Some (It_External (su_subscriptionId x)))])
     ''subscription.created'' su_subscriptionId)"
  unfolding cps_createSubscription_def createSubscription_def getDestination_def Let_def op_binds
proof (intro settle, goal_cases)
  case (1 at_ms i a d)
  then show ?case by (auto intro!: refused write_settles simp: writes newSubscription_def)
qed

lemma updateSubscription_settles:
  "runs view (goes_on rely B) (cps_updateSubscription S cx existing expected enabled) (settles rely B cx
     (\<lambda>x. [(subscriptionKey (cx_tenantId cx) x, Some (It_Subscription x)), (catalogKey (cx_tenantId cx) x, Some (It_Subscription x))])
     ''subscription.updated'' su_subscriptionId)"
  unfolding cps_updateSubscription_def updateSubscription_def Let_def op_binds
proof (intro settle, goal_cases)
  case (1 a x)
  then show ?case by (auto intro!: refused write_settles simp: writes)
qed

lemma createDestination_settles:
  assumes "records cx action (de_destinationId d) a"
  shows "runs view (goes_on rely B) (bindM (createDestination (sv_db S) t d a) (\<lambda>result. liftM (createdOr limit d result)))
    (settles rely B cx (\<lambda>d. [(K_Destination t (de_destinationId d), Some (It_Destination d)),
       (K_ExternalKey t RES_Destination (de_externalKey d), Some (It_External (de_destinationId d)))]) action de_destinationId)"
  unfolding createDestination_def getPartner_def op_binds
proof (intro settle, goal_cases)
  case (1 x)
  have "runs view (goes_on rely B) (bindM (db_query (sv_db S) (destination_of t) None) (\<lambda>xs. if 25 \<le> length xs
      then liftM (createdOr limit d CO_Limit)
      else bindM (db_write (sv_db S) (destinationTransaction t d a)) (\<lambda>ok. liftM (createdOr limit d (created_or_conflict ok)))))
    (settles rely B cx (\<lambda>d. [(K_Destination t (de_destinationId d), Some (It_Destination d)),
       (K_ExternalKey t RES_Destination (de_externalKey d), Some (It_External (de_destinationId d)))]) action de_destinationId)"
  proof (intro settle, goal_cases)
    case (1 xs)
    with assms show ?case by (auto intro!: refused write_settles simp: writes)
  qed
  then show ?case by (simp add: op_binds createdOr_def refused)
qed

lemma createDestinationFromAlias_settles:
  "runs view (goes_on rely B) (cps_createDestinationFromAlias S cx configuration alias) (settles rely B cx
     (\<lambda>d. [(K_Destination (cx_tenantId cx) (de_destinationId d), Some (It_Destination d)),
       (K_ExternalKey (cx_tenantId cx) RES_Destination (de_externalKey d), Some (It_External (de_destinationId d)))])
     ''destination.imported'' de_destinationId)"
  unfolding cps_createDestinationFromAlias_def vetUrl_def Let_def op_bind_assoc
  by (intro settle createDestination_settles) (simp add: newDestination_def)

text \<open>A credential is stored after the record of the request, before the change is decided.\<close>

lemma asked_write:
  assumes "records cx ''destination.credential_rotation_requested'' target a"
  shows "runs view (rely s0) (db_write (sv_db S) [auditPut a]) (\<lambda>_. goes_on rely (rotation_asked rely cx target s0))"
  unfolding runs_def
proof (intro allI impI)
  fix w r w'
  assume s0: "rely s0 (view w)" and put: "db_write (sv_db S) [auditPut a] w = (r, w')"
  from write_law [OF put] obtain s where s: "rely (view w) s" "view w' = s \<or> view w' = tx_apply [auditPut a] s"
    by (cases r) (auto split: bool.splits)
  have s': "rely s0 s" using rely_trans [OF s0 s(1)] .
  from s(2) show "goes_on rely (rotation_asked rely cx target s0) (view w')"
  proof
    assume "view w' = s"
    with s' show ?thesis by (simp add: goes_on_def rotation_asked_def)
  next
    assume "view w' = tx_apply [auditPut a] s"
    then have "view w' \<in> rotation_asked rely cx target s0"
      using s' assms by (auto simp: rotation_asked_def auditPut_def records_def)
    then show ?thesis using rely_refl by (auto simp: goes_on_def)
  qed
qed

lemma rotate_settles:
  assumes "\<And>n. runs view (goes_on rely (rotation_asked rely cx target s0)) (f n)
      (settles rely (rotation_asked rely cx target s0) cx rows action target')"
  shows "runs view (rely s0) (bindM (rotateCredential S cx target credential) f)
    (settles rely (rotation_asked rely cx target s0) cx rows action target')"
proof -
  let ?B = "rotation_asked rely cx target s0"
  have asked: "goes_on rely ?B u" if "rely s0 u" for u
    using that by (auto simp: goes_on_def rotation_asked_def)
  show ?thesis
    unfolding rotateCredential_def append_audit_def asUnit_def op_bind_assoc
  proof (rule audit_then [OF stable_from], goal_cases failed recorded)
    case (failed e u)
    then show ?case by (intro settles_error asked)
  next
    case (recorded a)
    have stored: "runs view (goes_on rely ?B) (bindM (if ok then returnM () else throwM (ServiceError e))
        (\<lambda>_. bindM (ct_store S cx (fst credential) (snd credential)) f)) (settles rely ?B cx rows action target')" for ok e
      using call_settles(2) [of ?B f cx rows action target'] assms
      by (cases ok) (auto simp: op_binds intro!: runs_throw settles_error)
    show ?case
      by (rule runs_bind [where R = "\<lambda>_. goes_on rely ?B", OF runs_weaken [OF asked_write [OF recorded]] stored])
        (auto split: sum.split intro: settles_error)
  qed
qed

lemma createDestination_records:
  "runs view (rely s0) (cps_createDestination S cx configuration credential)
    (settles rely (rotation_asked rely cx ''pending'' s0) cx
     (\<lambda>d. [(K_Destination (cx_tenantId cx) (de_destinationId d), Some (It_Destination d)),
       (K_ExternalKey (cx_tenantId cx) RES_Destination (de_externalKey d), Some (It_External (de_destinationId d)))])
     ''destination.created'' de_destinationId)"
  unfolding cps_createDestination_def Let_def
proof (rule moves_then [OF _ stable_from], goal_cases vet failed vetted)
  case vet
  then show ?case unfolding vetUrl_def by (intro moves_bind moves_plain moves_calls)
next
  case (failed e u)
  then show ?case by (intro settles_error) (auto simp: goes_on_def rotation_asked_def)
next
  case (vetted a)
  show ?case by (intro rotate_settles settle createDestination_settles) (simp add: newDestination_def)
qed

lemma updateDestination_settles:
  assumes "records cx action (de_destinationId d) a"
  shows "runs view (goes_on rely B) (bindM (updateDestination (sv_db S) shards t d expected a outbox) (\<lambda>result. liftM (updatedOr d result)))
    (settles rely B cx (\<lambda>d. [(K_Destination t (de_destinationId d), Some (It_Destination d))]) action de_destinationId)"
  unfolding updateDestination_def getDestination_def op_binds
proof (intro settle, goal_cases)
  case (1 x)
  with assms show ?case by (auto intro!: refused write_settles simp: writes split: option.split)
qed

lemma resumption_settles:
  "(\<And>o'. runs view (goes_on rely B) (f o') (settles rely B cx rows action target))
    \<Longrightarrow> runs view (goes_on rely B) (bindM (resumption S cx' existing d) f) (settles rely B cx rows action target)"
  unfolding resumption_def by (auto simp: op_binds intro!: settle)

lemma updateDestination_records:
  "runs view (rely s0) (cps_updateDestination S cx existing expected input)
    (settles rely (left_by rely cx (de_destinationId existing) (dc_credential input) s0) cx
     (\<lambda>d. [(K_Destination (cx_tenantId cx) (de_destinationId d), Some (It_Destination d))])
     (if dc_enabled input = Some False then ''destination.disabled'' else ''destination.updated'') de_destinationId)"
  unfolding cps_updateDestination_def Let_def
proof (rule moves_then [OF _ stable_from], goal_cases vet failed vetted)
  case vet
  then show ?case unfolding vetUrl_def by (auto intro: moves_bind moves_plain moves_calls)
next
  case (failed e u)
  then show ?case by (intro settles_error) (auto simp: goes_on_def left_by_def nothing_new_def rotation_asked_def)
next
  case (vetted a)
  have rest: "runs view (goes_on rely B) (bindM (cps_audit S cx action ''DESTINATION'' (de_destinationId d) metadata) (\<lambda>audit.
      bindM (resumption S cx existing d) (\<lambda>outbox.
      bindM (updateDestination (sv_db S) (sv_shards S) (cx_tenantId cx) d expected audit outbox) (\<lambda>result. liftM (updatedOr d result)))))
      (settles rely B cx (\<lambda>d. [(K_Destination (cx_tenantId cx) (de_destinationId d), Some (It_Destination d))]) action de_destinationId)"
    for B action d metadata
    by (intro settle resumption_settles updateDestination_settles)
  show ?case
  proof (cases "dc_credential input")
    case None
    have "goes_on rely (nothing_new s0) = rely s0" by (simp add: fun_eq_iff goes_on_def nothing_new_def)
    with rest [of "nothing_new s0"] None show ?thesis by (simp add: secretChange_def op_binds left_by_def)
  next
    case (Some credential)
    have change: "bindM (secretChange S cx existing input) f = bindM (rotateCredential S cx (de_destinationId existing) credential)
        (\<lambda>n. f (case dc_credentialAlias input of None \<Rightarrow> [n] | Some alias \<Rightarrow> [alias]))" for f :: "string list \<Rightarrow> ('w, destination) op"
      using Some by (simp add: secretChange_def op_binds)
    have asked: "left_by rely cx (de_destinationId existing) (dc_credential input) s0
        = rotation_asked rely cx (de_destinationId existing) s0" using Some by (simp add: left_by_def)
    show ?thesis unfolding change asked by (intro rotate_settles rest)
  qed
qed

lemma deleteSubscription_settles:
  assumes run: "cps_deleteSubscription S cx i w = (r, w')"
  shows "case r of
      Inl e \<Rightarrow> e \<in> refusals \<longrightarrow> rely (view w) (view w')
    | Inr _ \<Rightarrow> (\<exists>x w1. readForDeletion S cx i w = (Inr (Some (It_Subscription x)), w1)
        \<and> (\<forall>(k, it) \<in> set (subscription_rows (cx_tenantId cx) x). view w' k = None) \<and> audited cx ''subscription.deleted'' i (view w'))"
proof -
  let ?t = "cx_tenantId cx" and ?act = "''subscription.deleted''"
  obtain q w1 where audit: "cps_audit S cx ?act ''SUBSCRIPTION'' i [] w = (q, w1)"
    by (cases "cps_audit S cx ?act ''SUBSCRIPTION'' i [] w")
  obtain g w2 where get: "getCore (sv_db S) (K_SubscriptionCatalog ?t i) w1 = (g, w2)"
    by (cases "getCore (sv_db S) (K_SubscriptionCatalog ?t i) w1")
  have rely1: "rely (view w) (view w1)" using moves_audit audit by (auto simp: moves_def)
  have rely2: "rely (view w) (view w2)" using rely1 moves_getCore get by (auto simp: moves_def intro: rely_trans)
  show ?thesis
  proof (cases "\<exists>a x. q = Inr a \<and> g = Inr (Some (It_Subscription x))")
    case False
    with run audit get rely1 rely2 show ?thesis
      by (cases q; cases g; auto simp: cps_deleteSubscription_def deleteSubscription_def mapM_def bindM_def returnM_def throwM_def
          split: option.splits item.splits elim!: as_subscription.elims)
  next
    case True
    then obtain a x where q: "q = Inr a" "g = Inr (Some (It_Subscription x))" by blast
    have rec: "records cx ?act i a"
      using audit q(1) by (auto simp: cps_audit_def bindM_def readM_def returnM_def records_def split: prod.splits sum.splits)
    let ?g = "\<lambda>ok. if ok then Inr () else Inl (Error ''NOT_FOUND'')"
    have "(\<lambda>ok. if (if ok then DO_Deleted else DO_Not_Found) = DO_Deleted then returnM () else throwM (Error ''NOT_FOUND''))
        = (\<lambda>ok. liftM (?g ok) :: ('w, unit) op)"
      by (auto simp: fun_eq_iff returnM_def throwM_def liftM_def)
    then have same: "bindM (mapM (\<lambda>ok. if ok then DO_Deleted else DO_Not_Found) m)
        (\<lambda>result. if result = DO_Deleted then returnM () else throwM (Error ''NOT_FOUND'')) = bindM m (\<lambda>ok. liftM (?g ok))"
      for m :: "('w, bool) op"
      by (simp add: op_binds)
    have "bindM (mapM (\<lambda>ok. if ok then DO_Deleted else DO_Not_Found) (db_write (sv_db S) (unsubscribeTransaction ?t x a)))
        (\<lambda>result. if result = DO_Deleted then returnM () else throwM (Error ''NOT_FOUND'')) w2 = (r, w')"
      using run by (simp add: cps_deleteSubscription_def deleteSubscription_def bindM_def [of "cps_audit S cx act ty tg md" for act ty tg md]
          audit q op_binds(1) bindM_def [of "mapM as_subscription m" for m] mapM_def [of as_subscription] bindM_def [of "getCore db k" for db k]
          get op_bind_return)
    then have run2: "bindM (db_write (sv_db S) (unsubscribeTransaction ?t x a)) (\<lambda>ok. liftM (?g ok)) w2 = (r, w')"
      unfolding same .
    have settled: "runs view (goes_on rely {view w}) (bindM (db_write (sv_db S) (unsubscribeTransaction ?t x a)) (\<lambda>ok. liftM (?g ok)))
        (settles rely {view w} cx (\<lambda>_. map (\<lambda>(k, it). (k, None)) (subscription_rows ?t x)) ?act (\<lambda>_. i))"
      by (rule write_settles [where a = a and x = "()"])
        (auto simp: rec unsubscribeTransaction_def subscription_rows_def delete_op_def)
    have "goes_on rely {view w} (view w2)" using rely2 by (simp add: goes_on_def)
    with settled run2 have "settles rely {view w} cx (\<lambda>_. map (\<lambda>(k, it). (k, None)) (subscription_rows ?t x)) ?act (\<lambda>_. i) r (view w')"
      unfolding runs_def by blast
    with audit get q show ?thesis
      by (cases r) (auto simp: settles_def goes_on_def readForDeletion_def bindM_def subscription_rows_def)
  qed
qed

end

section \<open>Where destinations point\<close>

definition vetted_destination :: "('w, 'z) services_scheme \<Rightarrow> (string \<Rightarrow> bool) \<Rightarrow> destination \<Rightarrow> bool" where
  "vetted_destination S cleared d \<longleftrightarrow> (\<exists>url. sv_url S (de_path d) (de_baseUrl d) = Inr url \<and> cleared url)"

text \<open>The URL of every destination of the table has been vetted.\<close>

definition vetted_table :: "('w, 'z) services_scheme \<Rightarrow> (string \<Rightarrow> bool) \<Rightarrow> dtable \<Rightarrow> bool" where
  "vetted_table S cleared u \<longleftrightarrow> (\<forall>t i d. u (K_Destination t i) = Some (It_Destination d) \<longrightarrow> vetted_destination S cleared d)"

lemma vetted_write:
  assumes "vetted_table S cleared u" and "tx_distinct ops"
    and new: "\<And>op t i. op \<in> set ops \<Longrightarrow> op_key op = K_Destination t i \<Longrightarrow>
      \<exists>d. op_action op = Put (It_Destination d) \<and> vetted_destination S cleared d"
  shows "vetted_table S cleared (tx_apply ops u)"
  unfolding vetted_table_def
proof (intro allI impI)
  fix t i d
  assume row: "tx_apply ops u (K_Destination t i) = Some (It_Destination d)"
  show "vetted_destination S cleared d"
  proof (cases "K_Destination t i \<in> op_key ` set ops")
    case True
    then obtain op where op: "op \<in> set ops" "op_key op = K_Destination t i" by auto
    from new [OF op] obtain x where x: "op_action op = Put (It_Destination x)" "vetted_destination S cleared x" by auto
    from tx_apply_at [OF op(1) assms(2), of u] row op(2) x show ?thesis by simp
  next
    case False
    with row assms(1) show ?thesis by (simp add: tx_apply_other vetted_table_def)
  qed
qed

text \<open>
  The other clients keep that, and it has never been otherwise: a read may return an old row, and what an update makes of it is
  stored.
\<close>

locale vetted_plane = control_plane S view rely cleared
  for S :: "('w, 'z) control_services_scheme" and view :: "'w \<Rightarrow> dtable" and rely :: "dtable \<Rightarrow> dtable \<Rightarrow> bool"
    and cleared :: "string \<Rightarrow> bool" +
  assumes others_vet: "rely s t \<Longrightarrow> vetted_table S cleared s \<longleftrightarrow> vetted_table S cleared t"
begin

abbreviation keeps :: "('w, 'x) op \<Rightarrow> bool" where
  "keeps m \<equiv> runs view (vetted_table S cleared) m (\<lambda>_. vetted_table S cleared)"

lemma stable_vetted: "stable rely (vetted_table S cleared)"
  using others_vet by (auto simp: stable_def)

lemma keeps_end: "keeps (returnM a)" "keeps (throwM e)" "keeps (liftM r)"
  by (simp_all add: runs_return runs_throw runs_lift)

lemma keeps_moves: "moves m \<Longrightarrow> (\<And>a. keeps (f a)) \<Longrightarrow> keeps (bindM m f)"
  by (rule moves_then) (auto intro: stable_vetted)

lemma keeps_audit: "(\<And>a. keeps (f a)) \<Longrightarrow> keeps (bindM (cps_audit S cx action targetType target metadata) f)"
  by (rule keeps_moves) (rule moves_audit)

lemma keeps_lift: "(\<And>a. r = Inr a \<Longrightarrow> keeps (f a)) \<Longrightarrow> keeps (bindM (liftM r) f)"
  by (rule runs_lift_then) auto

lemma keeps_write:
  assumes "\<And>op t i. op \<in> set ops \<Longrightarrow> op_key op = K_Destination t i \<Longrightarrow>
      \<exists>d. op_action op = Put (It_Destination d) \<and> vetted_destination S cleared d"
    and "\<And>b. keeps (f b)"
  shows "keeps (bindM (db_write (sv_db S) ops) f)"
proof (rule runs_bind [where R = "\<lambda>_. vetted_table S cleared"])
  have "vetted_table S cleared (view w')" if put: "db_write (sv_db S) ops w = (r, w')" and I: "vetted_table S cleared (view w)"
    for w r w'
  proof -
    from write_law [OF put] obtain s where s: "rely (view w) s" "view w' = s \<or> (tx_ok ops s \<and> view w' = tx_apply ops s)"
      by (cases r) (auto split: bool.splits)
    have "vetted_table S cleared s" using others_vet [OF s(1)] I by simp
    with s(2) vetted_write [OF this _ assms(1)] show ?thesis by (auto simp: tx_ok_def)
  qed
  then show "runs view (vetted_table S cleared) (db_write (sv_db S) ops)
      (\<lambda>r u. case r of Inl e \<Rightarrow> vetted_table S cleared u | Inr a \<Rightarrow> vetted_table S cleared u)"
    by (auto simp: runs_def split: sum.split)
qed (fact assms(2))

lemma keeps_found:
  assumes "\<And>x. (\<And>d. x = Some (It_Destination d) \<Longrightarrow> vetted_destination S cleared d) \<Longrightarrow> keeps (f x)"
  shows "keeps (bindM (getCore (sv_db S) (K_Destination t i)) f)"
proof (rule runs_bind [where R = "\<lambda>x u. vetted_table S cleared u
      \<and> (\<forall>d. x = Some (It_Destination d) \<longrightarrow> vetted_destination S cleared d)"])
  have *: "vetted_table S cleared (view w') \<and> (\<forall>x d. r = Inr x \<longrightarrow> x = Some (It_Destination d) \<longrightarrow> vetted_destination S cleared d)"
    if get: "db_get (sv_db S) (K_Destination t i) w = (r, w')" and I: "vetted_table S cleared (view w)" for w r w'
  proof (intro conjI allI impI)
    from get_law [OF get] have rel: "rely (view w) (view w')"
      and x: "\<And>x. r = Inr x \<Longrightarrow> \<exists>s. rely s (view w') \<and> x = s (K_Destination t i)" by auto
    from others_vet [OF rel] I show I': "vetted_table S cleared (view w')" by simp
    fix x d
    assume "r = Inr x" "x = Some (It_Destination d)"
    with x obtain s where s: "rely s (view w')" "s (K_Destination t i) = Some (It_Destination d)" by metis
    from others_vet [OF s(1)] I' s(2) show "vetted_destination S cleared d" by (simp add: vetted_table_def)
  qed
  show "runs view (vetted_table S cleared) (getCore (sv_db S) (K_Destination t i)) (\<lambda>r u. case r of
      Inl e \<Rightarrow> vetted_table S cleared u
    | Inr x \<Rightarrow> vetted_table S cleared u \<and> (\<forall>d. x = Some (It_Destination d) \<longrightarrow> vetted_destination S cleared d))"
    unfolding runs_def
  proof (intro allI impI)
    fix w r w'
    assume I: "vetted_table S cleared (view w)" and run: "getCore (sv_db S) (K_Destination t i) w = (r, w')"
    obtain q w1 where get: "db_get (sv_db S) (K_Destination t i) w = (q, w1)" by (cases "db_get (sv_db S) (K_Destination t i) w")
    from * [OF get I] run get show "case r of
      Inl e \<Rightarrow> vetted_table S cleared (view w')
    | Inr x \<Rightarrow> vetted_table S cleared (view w') \<and> (\<forall>d. x = Some (It_Destination d) \<longrightarrow> vetted_destination S cleared d)"
      by (cases q) (auto simp: getCore_def bindM_def live_item_def split: option.splits if_splits)
  qed
qed (use assms in \<open>auto simp: runs_def\<close>)

lemma keeps_vet:
  assumes "\<And>url. sv_url S p b = Inr url \<Longrightarrow> cleared url \<Longrightarrow> keeps (f ())"
  shows "keeps (bindM (vetUrl S p b) f)"
  unfolding vetUrl_def op_bind_assoc
proof (rule keeps_lift)
  fix url
  assume url: "sv_url S p b = Inr url"
  have "runs view (vetted_table S cleared) (ct_validate S url) (\<lambda>r u. vetted_table S cleared u \<and> (r = Inr () \<longrightarrow> cleared url))"
    using validate_law vets stable_vetted unfolding runs_def stable_def by blast
  then show "keeps (bindM (ct_validate S url) f)"
  proof (rule runs_bind [OF runs_weaken])
    show "runs view (\<lambda>u. vetted_table S cleared u \<and> cleared url) (f a) (\<lambda>_. vetted_table S cleared)" for a
      using assms [OF url] by (cases "cleared url") (auto simp: runs_def)
  qed (auto split: sum.split)
qed

lemmas keeps_calls = moves_calls [THEN keeps_moves]
lemmas keeps_reads = moves_reads [THEN keeps_moves] moves_getCore [THEN keeps_moves]

lemma keeps_rotate: "(\<And>n. keeps (f n)) \<Longrightarrow> keeps (bindM (rotateCredential S cx target credential) f)"
  unfolding rotateCredential_def append_audit_def asUnit_def op_binds
  by (intro keeps_audit keeps_write) (auto simp: auditPut_def put_new_def put_op_def op_binds intro: keeps_calls keeps_end)

lemma keeps_createDestination:
  assumes "vetted_destination S cleared d" and "\<And>r. keeps (f r)"
  shows "keeps (bindM (createDestination (sv_db S) t d a) f)"
  unfolding createDestination_def getPartner_def op_binds
  using assms
  by (intro keeps_reads) (auto simp: op_binds destinationTransaction_def auditPut_def put_new_def put_op_def
      intro!: keeps_reads keeps_write)

lemma keeps_updateDestination:
  assumes "vetted_destination S cleared d" and "\<And>r. keeps (f r)"
  shows "keeps (bindM (updateDestination (sv_db S) shards t d expected a outbox) f)"
  unfolding updateDestination_def getDestination_def op_binds
  using assms
  by (intro keeps_reads) (auto simp: op_binds auditPut_def outboxPut_def put_new_def put_op_def
      intro!: keeps_write split: option.splits)

lemma keeps_newDestinations:
  "keeps (cps_createDestination S cx configuration credential)" "keeps (cps_createDestinationFromAlias S cx configuration alias)"
  unfolding cps_createDestination_def cps_createDestinationFromAlias_def Let_def
  by (intro keeps_vet keeps_rotate runs_clock keeps_audit keeps_createDestination keeps_end keeps_calls;
      auto simp: newDestination_def vetted_destination_def)+

lemma keeps_secret: "(\<And>r. keeps (f r)) \<Longrightarrow> keeps (bindM (secretChange S cx existing input) f)"
  unfolding secretChange_def op_binds
  by (cases "dc_credential input") (auto simp: op_binds intro!: keeps_rotate)

lemma keeps_resumption: "(\<And>r. keeps (f r)) \<Longrightarrow> keeps (bindM (resumption S cx existing destination) f)"
  unfolding resumption_def op_binds by (auto simp: op_binds intro!: keeps_calls runs_clock)

lemma keeps_patchDestination: "keeps (patchDestination S cx destinationId match body)"
proof -
  have found: "keeps (cps_updateDestination S cx existing expected input)" if d: "vetted_destination S cleared existing"
    for existing expected input
  proof (cases "dc_baseUrl input \<noteq> None \<or> dc_path input \<noteq> None")
    case True
    show ?thesis
      unfolding cps_updateDestination_def Let_def if_P [OF True]
    proof (intro keeps_vet keeps_secret keeps_audit keeps_resumption keeps_updateDestination keeps_end)
      show "vetted_destination S cleared (changedDestination existing input refs)"
        if "sv_url S (option_or (dc_path input) (de_path existing)) (option_or (dc_baseUrl input) (de_baseUrl existing)) = Inr url"
          "cleared url" for url refs
        using that by (auto simp: vetted_destination_def changedDestination_def)
    qed
  next
    case False
    with d have "vetted_destination S cleared (changedDestination existing input refs)" for refs
      by (simp add: vetted_destination_def changedDestination_def option_or_def)
    then show ?thesis
      unfolding cps_updateDestination_def Let_def if_not_P [OF False] op_bind_return
      by (intro keeps_secret keeps_audit keeps_resumption keeps_updateDestination keeps_end)
  qed
  show ?thesis
    unfolding patchDestination_def getDestination_def op_binds
  proof (intro keeps_found)
    fix x
    assume "\<And>d. x = Some (It_Destination d) \<Longrightarrow> vetted_destination S cleared d"
    then show "keeps (case as_destination x of None \<Rightarrow> throwM (Error ''NOT_FOUND'')
       | Some destination \<Rightarrow> bindM (liftM (ifMatch match)) (\<lambda>expectedVersion.
           bindM (liftM body) (\<lambda>input. cps_updateDestination S cx destination expectedVersion input)))"
      by (cases x; cases "the x") (auto intro!: keeps_end keeps_lift found)
  qed
qed

lemmas other_rows = partnerTransaction_def transformationTransaction_def subscribeTransaction_def resubscribeTransaction_def
  unsubscribeTransaction_def subscriptionKey_def catalogKey_def auditPut_def put_new_def put_op_def delete_op_def

lemma keeps_partners: "keeps (cps_createPartner S cx input)" "keeps (patchPartner S cx partnerId match body)"
  unfolding cps_createPartner_def createPartner_def patchPartner_def cps_updatePartner_def updatePartner_def getPartner_def Let_def op_binds
  by (intro runs_clock keeps_calls keeps_audit keeps_reads;
      auto simp: op_binds other_rows split: option.split
        intro!: keeps_end keeps_write keeps_lift keeps_audit runs_clock keeps_reads)+

lemma keeps_transformations:
  "keeps (cps_createTransformation S cx externalKey definition sample)"
  "keeps (cps_createTransformationVersion S cx v definition sample)"
  unfolding cps_createTransformation_def cps_createTransformationVersion_def createTransformationVersion_def Let_def op_binds
  by (intro runs_clock keeps_calls keeps_audit keeps_lift keeps_write keeps_end; auto simp: other_rows)+

lemma keeps_versions: "keeps (postTransformationVersion S cx transformationId parsed)"
  unfolding postTransformationVersion_def listTransformationVersions_def op_binds
proof (intro keeps_reads)
  fix rows
  show "keeps (bindM (withNow (sv_db S) (\<lambda>now. returnM (List.map_filter
      (\<lambda>(k, it). if isExpired it now then None else as_transformation (Some it)) rows)))
     (\<lambda>versions. if versions = [] then throwM (Error ''NOT_FOUND'')
       else bindM (liftM parsed) (\<lambda>(definition, sampleEvent).
         cps_createTransformationVersion S cx (last versions) definition sampleEvent)))"
    by (rule keeps_moves) (auto simp: moves_def withNow_def returnM_def rely_refl split: prod.split
      intro!: keeps_end keeps_lift keeps_transformations)
qed

lemma keeps_subscriptions:
  "keeps (cps_createSubscription S cx input')" "keeps (cps_updateSubscription S cx x expected enabled)"
  "keeps (cps_deleteSubscription S cx subscriptionId)"
  unfolding cps_createSubscription_def createSubscription_def cps_updateSubscription_def updateSubscription_def
    cps_deleteSubscription_def deleteSubscription_def getDestination_def Let_def op_binds
  by (intro runs_clock keeps_calls keeps_audit keeps_reads;
      auto simp: op_binds other_rows split: option.split intro!: keeps_end keeps_write)+

end

section \<open>Credentials\<close>

text \<open>
  A secret store: what is stored under an alias is what a reference to the alias resolves to from then on, and the other calls leave
  the secrets. What the calls that come before the store throw is not an answer of the control plane.
\<close>

locale secret_plane =
  fixes S :: "('w, 'z) control_services_scheme" and secret :: "'w \<Rightarrow> string \<Rightarrow> string \<Rightarrow> string option"
  assumes stored: "ct_store S cx a v w = (Inr n, w') \<Longrightarrow> secret w' (cx_tenantId cx) a = Some v"
    and next_secret: "sv_next S p w = (rn, w') \<Longrightarrow> secret w' = secret w"
    and get_secret: "db_get (sv_db S) k w = (rg, w') \<Longrightarrow> secret w' = secret w"
    and query_secret: "db_query (sv_db S) F l w = (rq, w') \<Longrightarrow> secret w' = secret w"
    and write_secret: "db_write (sv_db S) ops w = (rw, w') \<Longrightarrow> secret w' = secret w"
    and early_errors: "ct_store S cx a v w = (Inl e, w') \<Longrightarrow> e \<notin> refusals" "ct_validate S u w = (Inl e, w') \<Longrightarrow> e \<notin> refusals"
      "sv_next S p w = (Inl e, w') \<Longrightarrow> e \<notin> refusals" "db_write (sv_db S) ops w = (Inl e, w') \<Longrightarrow> e \<notin> refusals"
      "sv_url S pth b = Inl e \<Longrightarrow> e \<notin> refusals"
begin

definition early :: "('w, 'a) op \<Rightarrow> bool" where
  "early m \<longleftrightarrow> (\<forall>w e w'. m w = (Inl e, w') \<longrightarrow> e \<notin> refusals)"

definition leaves :: "('w, 'a) op \<Rightarrow> bool" where
  "leaves m \<longleftrightarrow> (\<forall>w r w'. m w = (r, w') \<longrightarrow> secret w' = secret w)"

lemma early_calls: "early (ct_store S cx a v)" "early (ct_validate S u)" "early (sv_next S p)" "early (db_write (sv_db S) ops)"
  "early (liftM (sv_url S pth b))" "early (returnM x)" "early (readM f)" "early (throwM (ServiceError t))"
  using early_errors by (auto simp: early_def liftM_def returnM_def readM_def throwM_def refusals_def)

lemma early_bind: "early m \<Longrightarrow> (\<And>a. early (f a)) \<Longrightarrow> early (bindM m f)"
  unfolding early_def bindM_def by (fastforce split: prod.splits sum.splits)

lemma leaves_calls: "leaves (sv_next S p)" "leaves (db_get (sv_db S) k)" "leaves (db_query (sv_db S) F l)" "leaves (db_write (sv_db S) ops)"
  "leaves (liftM r)" "leaves (returnM x)" "leaves (readM g)" "leaves (getCore (sv_db S) k)"
  using next_secret get_secret query_secret write_secret
  by (auto simp: leaves_def liftM_def returnM_def readM_def getCore_def bindM_def split: prod.splits sum.splits)

lemma leaves_bind: "leaves m \<Longrightarrow> (\<And>a. leaves (f a)) \<Longrightarrow> leaves (bindM m f)"
  unfolding leaves_def bindM_def by (fastforce split: prod.splits sum.splits)

text \<open>A refusal comes after the store, which has replaced the secret.\<close>

definition replaced :: "tenant_context \<Rightarrow> string \<times> string \<Rightarrow> ('w, 'a) op \<Rightarrow> bool" where
  "replaced cx credential m \<longleftrightarrow> (\<forall>w e w'. m w = (Inl e, w') \<longrightarrow> e \<in> refusals \<longrightarrow>
     secret w' (cx_tenantId cx) (fst credential) = Some (snd credential))"

lemma replaced_early: "early m \<Longrightarrow> (\<And>a. replaced cx c (f a)) \<Longrightarrow> replaced cx c (bindM m f)"
  unfolding early_def replaced_def bindM_def by (fastforce split: prod.splits sum.splits)

lemma replaced_store:
  assumes "\<And>n. leaves (f n)"
  shows "replaced cx c (bindM (ct_store S cx (fst c) (snd c)) f)"
  unfolding replaced_def
proof (intro allI impI)
  fix w e w'
  assume run: "bindM (ct_store S cx (fst c) (snd c)) f w = (Inl e, w')" and e: "e \<in> refusals"
  obtain r w1 where put: "ct_store S cx (fst c) (snd c) w = (r, w1)" by (cases "ct_store S cx (fst c) (snd c) w")
  with run e early_errors(1) obtain n where n: "r = Inr n" "f n w1 = (Inl e, w')" by (cases r) (auto simp: bindM_def)
  with put stored [of cx "fst c" "snd c" w n w1] assms [of n] show "secret w' (cx_tenantId cx) (fst c) = Some (snd c)"
    by (fastforce simp: leaves_def)
qed

lemma early_audit: "early (cps_audit S cx action targetType target metadata)"
  unfolding cps_audit_def by (intro early_bind early_calls)

lemma early_append: "early (append_audit (sv_db S) a)"
  unfolding append_audit_def asUnit_def by (intro early_bind) (auto intro: early_calls)

lemma early_vet: "early (vetUrl S p b)"
  unfolding vetUrl_def by (intro early_bind early_calls)

lemma leaves_audit: "leaves (cps_audit S cx action targetType target metadata)"
  unfolding cps_audit_def by (intro leaves_bind leaves_calls)

lemma leaves_createDestination: "leaves (createDestination (sv_db S) t d a)"
  unfolding createDestination_def getPartner_def op_binds by (intro leaves_bind) (auto intro!: leaves_bind leaves_calls simp: op_binds)

lemma leaves_updateDestination: "leaves (updateDestination (sv_db S) shards t d expected a outbox)"
  unfolding updateDestination_def getDestination_def op_binds
  by (intro leaves_bind) (auto intro!: leaves_bind leaves_calls simp: op_binds)

lemma leaves_resumption: "leaves (resumption S cx existing destination)"
  unfolding resumption_def by (auto intro!: leaves_bind leaves_calls)

lemma creation_replaces: "replaced cx credential (cps_createDestination S cx configuration credential)"
  unfolding cps_createDestination_def rotateCredential_def Let_def op_binds
  by (intro replaced_early replaced_store leaves_bind leaves_calls leaves_audit leaves_createDestination early_vet early_audit early_append)

lemma update_replaces:
  assumes "dc_credential input = Some credential"
  shows "replaced cx credential (cps_updateDestination S cx existing expected input)"
proof -
  have vet: "early (if c then vetUrl S p b else returnM ())" for c p b by (auto intro: early_vet early_calls)
  show ?thesis
    unfolding cps_updateDestination_def secretChange_def rotateCredential_def Let_def assms option.case op_bind_assoc op_bind_return
    by (intro vet replaced_early replaced_store leaves_bind leaves_calls leaves_audit leaves_resumption leaves_updateDestination
        early_audit early_append)
qed

end

section \<open>Resuming a destination\<close>

lemma resume_message:
  assumes "identifier_ok ''tenant'' (cx_tenantId cx)" "identifier_ok ''cor'' (cx_correlationId cx)"
    and "identifier_ok ''dst'' (de_destinationId d)"
  shows "outboxQueueMessage (resumeDestinationOutbox cx i d now) = Inr (Some \<lparr>qm_messageType = MT_Resume_Destination,
     qm_tenantId = cx_tenantId cx, qm_eventId = None, qm_deliveryId = None, qm_destinationId = Some (de_destinationId d),
     qm_correlationId = cx_correlationId cx, qm_notBefore = None, qm_cause = DESTINATION_ENABLED\<rparr>)"
  using assms by (simp add: outboxQueueMessage_def resumeDestinationOutbox_def parseMessage_def base_ok_def throw_if_def)

text \<open>The outbox has the record that resumes the destination, and lists it for publication.\<close>

definition resumes_later :: "nat \<Rightarrow> tenant_context \<Rightarrow> destination \<Rightarrow> dtable \<Rightarrow> bool" where
  "resumes_later shards cx d u \<longleftrightarrow> (\<exists>i now. u (outboxKey shards (resumeDestinationOutbox cx i d now))
     = Some (It_Outbox \<lparr>oi_record = resumeDestinationOutbox cx i d now, oi_expiresAt = to_epoch (Iso (now + days 7)),
         oi_unpublished = True, oi_lastPublicationFailureAt = None\<rparr>))"

context control_plane
begin

lemma write_updated:
  assumes "\<And>s. tx_ok ops s \<Longrightarrow> R (tx_apply ops s)"
  shows "runs view (\<lambda>_. True) (bindM (db_write (sv_db S) ops) (\<lambda>ok. liftM (updatedOr x (updated_or_conflict ok))))
    (\<lambda>r u. \<forall>y. r = Inr y \<longrightarrow> y = x \<and> R u)"
  unfolding runs_def
proof (intro allI impI)
  fix w r w' y
  assume run: "bindM (db_write (sv_db S) ops) (\<lambda>ok. liftM (updatedOr x (updated_or_conflict ok))) w = (r, w')" and y: "r = Inr y"
  obtain q w1 where put: "db_write (sv_db S) ops w = (q, w1)" by (cases "db_write (sv_db S) ops w")
  with run y have q: "q = Inr True" "w' = w1" "y = x"
    by (cases q; auto simp: bindM_def liftM_def updatedOr_def updated_or_conflict_def split: if_splits)+
  from write_law [OF put] q(1) assms show "y = x \<and> R (view w')" by (auto simp: q(2,3))
qed

lemma enabling_resumes:
  assumes "\<not> de_enabled existing" and "dc_enabled input = Some True"
  shows "runs view (\<lambda>_. True) (cps_updateDestination S cx existing expected input)
    (\<lambda>r u. \<forall>d. r = Inr d \<longrightarrow> de_destinationId d = de_destinationId existing \<and> resumes_later (sv_shards S) cx d u)"
proof -
  have on: "de_enabled (changedDestination existing input refs)" "de_destinationId (changedDestination existing input refs) = de_destinationId existing"
    for refs using assms(2) by (simp_all add: changedDestination_def option_or_def)
  have last: "runs view (\<lambda>_. True) (bindM (updateDestination (sv_db S) (sv_shards S) t d expected a (Some (resumeDestinationOutbox cx i d now)))
      (\<lambda>result. liftM (updatedOr d result)))
      (\<lambda>r u. \<forall>y. r = Inr y \<longrightarrow> de_destinationId y = de_destinationId existing \<and> resumes_later (sv_shards S) cx y u)"
    if "de_destinationId d = de_destinationId existing" for t d a i now
    unfolding updateDestination_def getDestination_def op_binds
  proof (rule any_then)
    fix x
    let ?ops = "[put_op (K_Destination t (de_destinationId d)) (version_is expected) (It_Destination d), auditPut a]
        @ [outboxPut (sv_shards S) (resumeDestinationOutbox cx i d now)]"
    have row: "resumes_later (sv_shards S) cx d (tx_apply ?ops s)" if "tx_ok ?ops s" for s
    proof -
      from that have "tx_distinct ?ops" by (simp add: tx_ok_def)
      from tx_apply_at [of "outboxPut (sv_shards S) (resumeDestinationOutbox cx i d now)", OF _ this, of s]
      have "tx_apply ?ops s (outboxKey (sv_shards S) (resumeDestinationOutbox cx i d now))
          = Some (It_Outbox \<lparr>oi_record = resumeDestinationOutbox cx i d now, oi_expiresAt = to_epoch (Iso (now + days 7)),
             oi_unpublished = True, oi_lastPublicationFailureAt = None\<rparr>)"
        by (simp add: outboxPut_def outboxKey_def put_new_def put_op_def) (simp add: resumeDestinationOutbox_def)
      then show ?thesis unfolding resumes_later_def by blast
    qed
    have "runs view (\<lambda>_. True) (bindM (db_write (sv_db S) ?ops) (\<lambda>ok. liftM (updatedOr d (updated_or_conflict ok))))
        (\<lambda>r u. \<forall>y. r = Inr y \<longrightarrow> y = d \<and> resumes_later (sv_shards S) cx d u)"
      by (rule write_updated [where R = "resumes_later (sv_shards S) cx d", OF row])
    then have "runs view (\<lambda>_. True) (bindM (db_write (sv_db S) ?ops) (\<lambda>ok. liftM (updatedOr d (updated_or_conflict ok))))
        (\<lambda>r u. \<forall>y. r = Inr y \<longrightarrow> de_destinationId y = de_destinationId existing \<and> resumes_later (sv_shards S) cx y u)"
      by (rule runs_weaken) (use that in auto)
    then show "runs view (\<lambda>_. True) (if as_destination x = None then liftM (updatedOr d UO_Not_Found)
        else bindM (db_write (sv_db S) ([put_op (K_Destination t (de_destinationId d)) (version_is expected) (It_Destination d), auditPut a]
          @ (case Some (resumeDestinationOutbox cx i d now) of None \<Rightarrow> [] | Some b \<Rightarrow> [outboxPut (sv_shards S) b])))
          (\<lambda>ok. liftM (updatedOr d (updated_or_conflict ok))))
        (\<lambda>r u. \<forall>y. r = Inr y \<longrightarrow> de_destinationId y = de_destinationId existing \<and> resumes_later (sv_shards S) cx y u)"
      by (auto simp: updatedOr_def intro!: runs_lift)
  qed simp
  have resumption: "resumption S cx existing (changedDestination existing input refs) = bindM (sv_next S ''obx'') (\<lambda>i. bindM (readM (sv_now S))
      (\<lambda>now. returnM (Some (resumeDestinationOutbox cx i (changedDestination existing input refs) now))))" for refs
    using assms(1) on by (simp add: resumption_def)
  show ?thesis
    unfolding cps_updateDestination_def Let_def resumption op_bind_assoc op_bind_return
    by (rule any_then, simp, rule any_then, simp, rule any_then, simp, rule any_then, simp, rule runs_clock, rule last, rule on)
qed

text \<open>The update of a partner that succeeds is one transaction on the table as the others have made it after the read.\<close>

lemma stale_update:
  assumes read: "getPartner (sv_db S) (cx_tenantId cx) i w = (Inr (Some old), w1)" and match: "ifMatch match = Inr v"
    and run: "patchPartner S cx i match (Inr input) w = (Inr p, w')"
  shows "\<exists>s at_ms a. rely (view w1) s \<and> version_is v (s (K_Partner (cx_tenantId cx) (pa_partnerId old)))
    \<and> p = changedPartner old input at_ms \<and> records cx ''partner.updated'' (pa_partnerId old) a
    \<and> view w' = s(K_Partner (cx_tenantId cx) (pa_partnerId old) \<mapsto> It_Partner p,
        K_Audit (cx_tenantId cx) (au_occurredAt a) (au_auditId a) \<mapsto> stored_audit a)"
proof -
  let ?k = "K_Partner (cx_tenantId cx) (pa_partnerId old)"
  let ?made = "\<lambda>p u. \<exists>s at_ms a. rely (view w1) s \<and> version_is v (s ?k) \<and> p = changedPartner old input at_ms
    \<and> records cx ''partner.updated'' (pa_partnerId old) a
    \<and> u = s(?k \<mapsto> It_Partner p, K_Audit (cx_tenantId cx) (au_occurredAt a) (au_auditId a) \<mapsto> stored_audit a)"
  have run1: "cps_updatePartner S cx old v input w1 = (Inr p, w')"
    using run read match by (simp add: patchPartner_def bindM_def liftM_def)
  have "runs view (rely (view w1)) (cps_updatePartner S cx old v input) (\<lambda>r u. \<forall>p. r = Inr p \<longrightarrow> ?made p u)"
    unfolding cps_updatePartner_def updatePartner_def getPartner_def Let_def op_binds
  proof (intro runs_clock audit_then [OF stable_from], simp, rule moves_then [OF moves_getCore stable_from], simp)
    fix at_ms a x
    let ?p = "changedPartner old input at_ms"
    let ?ops = "[put_op (K_Partner (cx_tenantId cx) (pa_partnerId ?p)) (version_is v) (It_Partner ?p), auditPut a]"
    assume rec: "records cx ''partner.updated'' (pa_partnerId ?p) a"
    have same: "pa_partnerId ?p = pa_partnerId old" by (simp add: changedPartner_def)
    have written: "?made ?p (tx_apply ?ops s)" if "tx_ok ?ops s" "rely (view w1) s" for s
      using that rec
      by (intro exI [of _ s] exI [of _ at_ms] exI [of _ a])
        (auto simp: same tx_ok_def put_op_def auditPut_def put_new_def records_def)
    have "runs view (rely (view w1)) (bindM (db_write (sv_db S) ?ops) (\<lambda>ok. liftM (updatedOr ?p (updated_or_conflict ok))))
        (\<lambda>r u. \<forall>p. r = Inr p \<longrightarrow> ?made p u)"
      unfolding runs_def
    proof (intro allI impI)
      fix w r w' q
      assume since: "rely (view w1) (view w)" and r: "r = Inr q"
        and run: "bindM (db_write (sv_db S) ?ops) (\<lambda>ok. liftM (updatedOr ?p (updated_or_conflict ok))) w = (r, w')"
      obtain b w2 where put: "db_write (sv_db S) ?ops w = (b, w2)" by (cases "db_write (sv_db S) ?ops w")
      with run r have b: "b = Inr True" "w' = w2" "q = ?p"
        by (cases b; auto simp: bindM_def liftM_def updatedOr_def updated_or_conflict_def split: if_splits)+
      from write_law [OF put] b(1) obtain s where s: "rely (view w) s" "tx_ok ?ops s" "view w2 = tx_apply ?ops s" by auto
      from written [OF s(2) rely_trans [OF since s(1)]] show "?made q (view w')" unfolding b(2,3) s(3) .
    qed
    then show "runs view (rely (view w1)) (if as_partner x = None then liftM (updatedOr ?p UO_Not_Found)
        else bindM (db_write (sv_db S) ?ops) (\<lambda>ok. liftM (updatedOr ?p (updated_or_conflict ok))))
        (\<lambda>r u. \<forall>p. r = Inr p \<longrightarrow> ?made p u)"
      by (auto simp: updatedOr_def intro!: runs_lift)
  qed
  from runsD [OF this rely_refl run1] show ?thesis by blast
qed

end

section \<open>Properties\<close>

text \<open>
  C33. No destination is stored with a URL that was not vetted. Every operation of the control plane, and the routes that read a row
  and update it, keep every URL of a destination in the table accepted by the validator, beside other clients that do: also when
  only the path or only the host is changed, and whatever the reads return and the calls throw.
\<close>

theorem destinations_stay_vetted:
  assumes "vetted_plane S view rely cleared"
  shows "runs view (vetted_table S cleared) (cps_createDestination S cx configuration credential) (\<lambda>_. vetted_table S cleared)
    \<and> runs view (vetted_table S cleared) (cps_createDestinationFromAlias S cx configuration alias) (\<lambda>_. vetted_table S cleared)
    \<and> runs view (vetted_table S cleared) (patchDestination S cx destinationId match body) (\<lambda>_. vetted_table S cleared)
    \<and> runs view (vetted_table S cleared) (cps_createPartner S cx partner) (\<lambda>_. vetted_table S cleared)
    \<and> runs view (vetted_table S cleared) (patchPartner S cx partnerId match' body') (\<lambda>_. vetted_table S cleared)
    \<and> runs view (vetted_table S cleared) (cps_createTransformation S cx externalKey definition sample) (\<lambda>_. vetted_table S cleared)
    \<and> runs view (vetted_table S cleared) (cps_createTransformationVersion S cx v definition sample) (\<lambda>_. vetted_table S cleared)
    \<and> runs view (vetted_table S cleared) (postTransformationVersion S cx transformationId parsed) (\<lambda>_. vetted_table S cleared)
    \<and> runs view (vetted_table S cleared) (cps_createSubscription S cx subscription) (\<lambda>_. vetted_table S cleared)
    \<and> runs view (vetted_table S cleared) (cps_updateSubscription S cx x expected enabled) (\<lambda>_. vetted_table S cleared)
    \<and> runs view (vetted_table S cleared) (cps_deleteSubscription S cx subscriptionId) (\<lambda>_. vetted_table S cleared)"
  by (intro conjI vetted_plane.keeps_newDestinations [OF assms] vetted_plane.keeps_patchDestination [OF assms]
    vetted_plane.keeps_partners [OF assms] vetted_plane.keeps_transformations [OF assms] vetted_plane.keeps_versions [OF assms]
    vetted_plane.keeps_subscriptions [OF assms])

text \<open>
  C34. The configuration changes as a whole and on record. When an operation of the control plane succeeds, its record is in the table
  with the pointer of its external key or the second copy that goes with it, or, for a deletion, the rows of the subscription it
  read are gone, and the audit table says who did it. When it answers with a limit, a conflict, a missing record or a wrong version,
  the table is as the other clients have made it; with a credential there may be the record that its rotation was requested.
  (What has become of the secret then is another matter.)
\<close>

theorem control_changes_are_recorded:
  assumes "control_plane S view rely cleared"
  shows "recorded view rely cx nothing_new (cps_createPartner S cx partner)
        (\<lambda>p. [(K_Partner (cx_tenantId cx) (pa_partnerId p), Some (It_Partner p)),
        (K_ExternalKey (cx_tenantId cx) RES_Partner (pa_externalKey p), Some (It_External (pa_partnerId p)))])
        ''partner.created'' pa_partnerId
    \<and> recorded view rely cx nothing_new (cps_updatePartner S cx old expected changes)
        (\<lambda>p. [(K_Partner (cx_tenantId cx) (pa_partnerId p), Some (It_Partner p))]) ''partner.updated'' pa_partnerId
    \<and> recorded view rely cx nothing_new (cps_createTransformation S cx externalKey definition sample)
        (\<lambda>v. [(K_Transformation (cx_tenantId cx) (tf_transformationId v) (tf_version v), Some (It_Transformation v)),
        (K_ExternalKey (cx_tenantId cx) RES_Transformation (tf_externalKey v), Some (It_External (tf_transformationId v)))])
        ''transformation.created'' tf_transformationId
    \<and> recorded view rely cx nothing_new (cps_createTransformationVersion S cx v definition sample)
        (\<lambda>v. [(K_Transformation (cx_tenantId cx) (tf_transformationId v) (tf_version v), Some (It_Transformation v))])
        ''transformation.version_created'' tf_transformationId
    \<and> recorded view rely cx (rotation_asked rely cx ''pending'') (cps_createDestination S cx configuration credential)
        (\<lambda>d. [(K_Destination (cx_tenantId cx) (de_destinationId d), Some (It_Destination d)),
        (K_ExternalKey (cx_tenantId cx) RES_Destination (de_externalKey d), Some (It_External (de_destinationId d)))])
        ''destination.created'' de_destinationId
    \<and> recorded view rely cx nothing_new (cps_createDestinationFromAlias S cx configuration alias)
        (\<lambda>d. [(K_Destination (cx_tenantId cx) (de_destinationId d), Some (It_Destination d)),
        (K_ExternalKey (cx_tenantId cx) RES_Destination (de_externalKey d), Some (It_External (de_destinationId d)))])
        ''destination.imported'' de_destinationId
    \<and> recorded view rely cx (left_by rely cx (de_destinationId existing) (dc_credential input))
        (cps_updateDestination S cx existing expected'' input)
        (\<lambda>d. [(K_Destination (cx_tenantId cx) (de_destinationId d), Some (It_Destination d))])
        (if dc_enabled input = Some False then ''destination.disabled'' else ''destination.updated'') de_destinationId
    \<and> recorded view rely cx nothing_new (cps_createSubscription S cx subscription)
        (\<lambda>x. subscription_rows (cx_tenantId cx) x) ''subscription.created'' su_subscriptionId
    \<and> recorded view rely cx nothing_new (cps_updateSubscription S cx x expected' enabled)
        (\<lambda>x. [(subscriptionKey (cx_tenantId cx) x, Some (It_Subscription x)), (catalogKey (cx_tenantId cx) x, Some (It_Subscription x))])
        ''subscription.updated'' su_subscriptionId
    \<and> (\<forall>w r w'. cps_deleteSubscription S cx i w = (r, w') \<longrightarrow> (case r of
          Inl e \<Rightarrow> e \<in> refusals \<longrightarrow> rely (view w) (view w')
        | Inr _ \<Rightarrow> (\<exists>x w1. readForDeletion S cx i w = (Inr (Some (It_Subscription x)), w1)
            \<and> (\<forall>(k, it) \<in> set (subscription_rows (cx_tenantId cx) x). view w' k = None)
            \<and> audited cx ''subscription.deleted'' i (view w'))))"
proof -
  have new: "goes_on rely (nothing_new s0) = rely s0" for s0 by (simp add: fun_eq_iff goes_on_def nothing_new_def)
  have recorded: "recorded view rely cx refused m rows action target"
    if "\<And>s0. runs view (rely s0) m (settles rely (refused s0) cx rows action target)"
    for refused and m :: "('a, 'x) op" and rows action target
    using that dynamo_table.rely_refl [OF control_plane.axioms(1) [OF assms]] by (auto simp: recorded_def runs_def)
  note unchanged = recorded [of _ nothing_new, folded new]
  show ?thesis
    by (intro conjI allI impI unchanged recorded control_plane.createPartner_settles [OF assms] control_plane.updatePartner_settles [OF assms]
      control_plane.createTransformation_settles [OF assms] control_plane.createTransformationVersion_settles [OF assms]
      control_plane.createDestinationFromAlias_settles [OF assms] control_plane.createDestination_records [OF assms]
      control_plane.updateDestination_records [OF assms] control_plane.createSubscription_settles [OF assms, folded subscription_rows_def]
      control_plane.updateSubscription_settles [OF assms] control_plane.deleteSubscription_settles [OF assms])
qed

text \<open>
  C36. A request that is refused has replaced the credential. A new destination or an update with a credential stores it under its
  alias before the repository decides: when the answer is a conflict, a limit, a missing partner or a wrong version, every
  destination that refers to the alias is called with the new secret all the same.
\<close>

theorem refused_change_rotates_credential:
  assumes "secret_plane S secret" and "e \<in> refusals"
    and "cps_createDestination S cx configuration (alias, value) w = (Inl e, w')
      \<or> (dc_credential input = Some (alias, value) \<and> cps_updateDestination S cx existing expected input w = (Inl e, w'))"
  shows "secret w' (cx_tenantId cx) alias = Some value"
  using assms(2,3) secret_plane.creation_replaces [OF assms(1)] secret_plane.update_replaces [OF assms(1)]
  unfolding secret_plane.replaced_def [OF assms(1)] by fastforce

text \<open>
  C37. A destination that is enabled again is resumed. With the update the outbox has a new record, listed for publication, that says to
  resume this very destination, and the publisher makes of it the message to do so.
\<close>

theorem enabling_resumes_deliveries:
  assumes "control_plane S view rely cleared" and "\<not> de_enabled existing" and "dc_enabled input = Some True"
    and "identifier_ok ''tenant'' (cx_tenantId cx)" and "identifier_ok ''cor'' (cx_correlationId cx)"
    and "identifier_ok ''dst'' (de_destinationId existing)"
    and "cps_updateDestination S cx existing expected input w = (Inr d, w')"
  shows "\<exists>b m now. view w' (outboxKey (sv_shards S) b)
        = Some (It_Outbox \<lparr>oi_record = b, oi_expiresAt = to_epoch (Iso (now + days 7)), oi_unpublished = True,
            oi_lastPublicationFailureAt = None\<rparr>)
    \<and> ob_kind b = RESUME_DESTINATION \<and> ob_tenantId b = cx_tenantId cx \<and> ob_aggregateId b = de_destinationId existing
    \<and> ob_target b = DELIVERY_QUEUE \<and> pl_destinationId (ob_payload b) = Some (de_destinationId existing)
    \<and> ob_createdAt b = now \<and> ob_attempts b = 0 \<and> ob_publishedAt b = None
    \<and> outboxQueueMessage b = Inr (Some m)
    \<and> qm_messageType m = MT_Resume_Destination \<and> qm_tenantId m = cx_tenantId cx \<and> qm_destinationId m = Some (de_destinationId existing)"
proof -
  from runsD [OF control_plane.enabling_resumes [OF assms(1-3)] TrueI assms(7)]
  have d: "de_destinationId d = de_destinationId existing" "resumes_later (sv_shards S) cx d (view w')" by simp_all
  then obtain i now where row: "view w' (outboxKey (sv_shards S) (resumeDestinationOutbox cx i d now))
      = Some (It_Outbox \<lparr>oi_record = resumeDestinationOutbox cx i d now, oi_expiresAt = to_epoch (Iso (now + days 7)),
          oi_unpublished = True, oi_lastPublicationFailureAt = None\<rparr>)"
    by (auto simp: resumes_later_def)
  show ?thesis
    using resume_message [of cx d i now] assms(4-6) d(1) row
    by (intro exI [of _ "resumeDestinationOutbox cx i d now"] exI [of _ now] exI) (auto simp: resumeDestinationOutbox_def)
qed

text \<open>
  C35. An update after a stale read undoes the previous one. Reads of the table are not consistent. When the route reads the row
  as it was before the last change, and the client names the version it has after that change, the update succeeds only on a table
  \<open>s\<close>, made by the other clients after the read, whose row has the version named; and it replaces that row by the old one with the new
  changes under the same version. Of \<open>s\<close> nothing else changes but for the audit record: the change in between is lost, and no later
  version check can tell.
\<close>

theorem stale_read_reverts_update:
  assumes "control_plane S view rely cleared" and "getPartner (sv_db S) (cx_tenantId cx) i w = (Inr (Some old), w1)"
    and "ifMatch match = Inr (pa_version old + 1)" and "patchPartner S cx i match (Inr input) w = (Inr p, w')"
  shows "\<exists>s at_ms a. rely (view w1) s \<and> version_is (pa_version p) (s (K_Partner (cx_tenantId cx) (pa_partnerId old)))
    \<and> p = changedPartner old input at_ms
    \<and> view w' = s(K_Partner (cx_tenantId cx) (pa_partnerId old) \<mapsto> It_Partner p,
        K_Audit (cx_tenantId cx) (au_occurredAt a) (au_auditId a) \<mapsto> stored_audit a)"
proof -
  have "pa_version (changedPartner old input t) = pa_version old + 1" for t by (simp add: changedPartner_def)
  with control_plane.stale_update [OF assms] show ?thesis by metis
qed

section \<open>A control plane in memory\<close>

type_synonym plane_world = "mem \<times> (string \<times> string \<Rightarrow> string option)"

definition sample_client :: "plane_world partner_http" where
  "sample_client = sample_http [''93.184.216.34''] (Response (Some 200) [] [] None)"

definition sample_clear :: "string \<Rightarrow> bool" where
  "sample_clear u \<longleftrightarrow> \<not> isl (checkUrl sample_client u)"

definition sample_control :: "(dtable \<Rightarrow> dtable \<Rightarrow> bool) \<Rightarrow> plane_world control_services" where
  "sample_control rely = \<lparr>sv_db = beside_db (mem_db [] rely), sv_shards = 4, sv_next = (\<lambda>p. returnM (p @ ''_1'')),
     sv_now = (\<lambda>w. mem_clock (fst w)), sv_traceparent = (\<lambda>_. None), sv_sha256 = sample_sha256, sv_number = unary,
     sv_url = (\<lambda>path base. Inr (base @ path)), sv_execute = (\<lambda>definition input. Inr (definition, ''h'')),
     sv_retentionDays = 30, sv_supportedEventTypes = [''order.created''],
     ct_store = (\<lambda>cx a v w. (Inr a, (fst w, (snd w)((cx_tenantId cx, a) \<mapsto> v)))),
     ct_validate = (\<lambda>u. bindM (validateUrl sample_client u) (\<lambda>_. returnM ()))\<rparr>"

text \<open>What the other clients may do: keep the URLs vetted, by the client of \<open>Partner_Http\<close>.\<close>

definition sample_vets :: "dtable \<Rightarrow> dtable \<Rightarrow> bool" where
  "sample_vets s t \<longleftrightarrow> (vetted_table (sample_control (=)) sample_clear s \<longleftrightarrow> vetted_table (sample_control (=)) sample_clear t)"

lemma sample_sel [simp]:
  "sv_db (sample_control rely) = beside_db (mem_db [] rely)" "sv_url (sample_control rely) path base = Inr (base @ path)"
  "sv_next (sample_control rely) p = returnM (p @ ''_1'')" "sv_shards (sample_control rely) = 4"
  "sv_now (sample_control rely) = (\<lambda>w. mem_clock (fst w))"
  "ct_store (sample_control rely) cx a v w = (Inr a, (fst w, (snd w)((cx_tenantId cx, a) \<mapsto> v)))"
  by (simp_all add: sample_control_def)

lemma sample_vetted: "vetted_table (sample_control rely) c u \<longleftrightarrow> vetted_table (sample_control (=)) c u"
  by (simp add: vetted_table_def vetted_destination_def)

lemma sample_validate:
  assumes "ct_validate (sample_control rely) u w = (r, w')"
  shows "w' = w" "r = Inr () \<Longrightarrow> sample_clear u" "r = Inl e \<Longrightarrow> e \<notin> refusals"
  using assms
  by (auto simp: sample_control_def validateUrl_def sample_client_def sample_http_def sample_clear_def bindM_def liftM_def
      returnM_def refusals_def checkUrl_def checkAddresses_def throw_if_def sample_url_def split: sum.splits prod.splits if_splits)

lemma beside_mem_error: "db_write (beside_db (mem_db ks rely)) ops w = (Inl e, w') \<Longrightarrow> e \<notin> refusals"
  by (auto simp: beside_db_def beside_run mem_db_def mem_write_def Let_def refusals_def split: if_splits)

interpretation mem_plane: vetted_plane "sample_control sample_vets" "mem_table \<circ> fst" sample_vets sample_clear
proof -
  have base: "dynamo_table (sv_db (sample_control sample_vets)) (mem_table \<circ> fst) sample_vets"
    by (simp, rule beside_table, rule mem_db_laws) (auto simp: sample_vets_def)
  moreover have "sample_vets s s" for s by (simp add: sample_vets_def)
  ultimately show "vetted_plane (sample_control sample_vets) (mem_table \<circ> fst) sample_vets sample_clear"
    unfolding vetted_plane_def vetted_plane_axioms_def control_plane_def control_plane_axioms_def
    using sample_vetted [of sample_vets]
    by (auto simp: returnM_def sample_vets_def dest: sample_validate beside_mem_error)
qed

interpretation mem_secrets: secret_plane "sample_control rely" "\<lambda>w t a. snd w (t, a)" for rely
proof
  fix e :: js_error and w w' :: plane_world
  show "db_write (sv_db (sample_control rely)) ops w = (Inl e, w') \<Longrightarrow> e \<notin> refusals" for ops
    using beside_mem_error by simp
  show "ct_validate (sample_control rely) u w = (Inl e, w') \<Longrightarrow> e \<notin> refusals" for u
    using sample_validate(3) by blast
qed (auto simp: returnM_def beside_db_def beside_run)

definition plane_context :: tenant_context where
  "plane_context = \<lparr>cx_tenantId = ''tenant_00000000000000000000000001'', cx_actorType = Console_User, cx_actorId = ''usr_1'',
     cx_role = Some Admin, cx_requestId = ''req_1'', cx_correlationId = ''cor_00000000000000000000000001''\<rparr>"

definition plane_destination :: destination where
  "plane_destination = sample_destination\<lparr>de_destinationId := ''dst_00000000000000000000000001'',
     de_tenantId := ''tenant_00000000000000000000000001'', de_enabled := False, de_secretReferences := [''alias'']\<rparr>"

definition no_changes :: destination_changes where
  "no_changes = \<lparr>dc_name = None, dc_baseUrl = None, dc_path = None, dc_enabled = None, dc_authType = None,
     dc_authConfiguration = None, dc_timeoutMs = None, dc_retryPolicy = None, dc_rateLimitPolicy = None,
     dc_circuitBreakerPolicy = None, dc_transformationId = None, dc_activeTransformationVersion = None,
     dc_sensitiveResponseJsonPaths = None, dc_credential = None, dc_credentialAlias = None\<rparr>"

definition plane_table :: dtable where
  "plane_table = [K_Destination ''tenant_00000000000000000000000001'' ''dst_00000000000000000000000001'' \<mapsto> It_Destination plane_destination]"

definition plane_start :: "dtable \<Rightarrow> (dtable \<Rightarrow> dtable) list \<Rightarrow> plane_world" where
  "plane_start s others = (\<lparr>mem_table = s, mem_clock = 5000, mem_others = others\<rparr>, (\<lambda>_. None))"

lemma empty_vetted: "vetted_table S c Map.empty"
  by (simp add: vetted_table_def)

lemma destinations_stay_vetted_witness:
  "vetted_table (sample_control sample_vets) sample_clear (mem_table (fst (snd
     (cps_createDestination (sample_control sample_vets) plane_context plane_destination (''alias'', ''secret'') (plane_start Map.empty [])))))"
proof -
  obtain r w' where run: "cps_createDestination (sample_control sample_vets) plane_context plane_destination (''alias'', ''secret'')
      (plane_start Map.empty []) = (r, w')"
    by (cases "cps_createDestination (sample_control sample_vets) plane_context plane_destination (''alias'', ''secret'') (plane_start Map.empty [])")
  from runsD [OF destinations_stay_vetted [OF mem_plane.vetted_plane_axioms, THEN conjunct1] _ run]
  show ?thesis unfolding run by (simp add: plane_start_def empty_vetted)
qed

lemma control_changes_are_recorded_witness:
  "recorded (mem_table \<circ> fst) sample_vets plane_context (rotation_asked sample_vets plane_context ''pending'')
      (cps_createDestination (sample_control sample_vets) plane_context plane_destination (''alias'', ''secret''))
      (\<lambda>d. [(K_Destination ''tenant_00000000000000000000000001'' (de_destinationId d), Some (It_Destination d)),
        (K_ExternalKey ''tenant_00000000000000000000000001'' RES_Destination (de_externalKey d), Some (It_External (de_destinationId d)))])
      ''destination.created'' de_destinationId"
  using control_changes_are_recorded [OF mem_plane.control_plane_axioms, of plane_context]
  by (simp add: plane_context_def)

lemmas plane_run = bindM_def liftM_def readM_def returnM_def throwM_def mapM_def getCore_def live_item_def isExpired_def beside_db_def
  beside_def mem_db_def mem_get_def mem_write_def interfere_def Let_def

lemmas update_run = cps_updateDestination_def secretChange_def cps_audit_def updateDestination_def getDestination_def resumption_def
  plane_run no_changes_def plane_start_def plane_table_def changedDestination_def option_or_def plane_destination_def
  sample_destination_def plane_context_def updatedOr_def updated_or_conflict_def auditPut_def outboxPut_def put_new_def put_op_def
  version_is_def tx_distinct_def attribute_not_exists_PK_def

definition plane_rotation :: destination_changes where
  "plane_rotation = no_changes\<lparr>dc_credential := Some (''alias'', ''new'')\<rparr>"

lemma refused_change_rotates_credential_witness:
  "\<exists>w'. cps_updateDestination (sample_control (=)) plane_context plane_destination 7 plane_rotation (plane_start plane_table [])
      = (Inl (Error ''PRECONDITION_FAILED''), w')
    \<and> snd w' (''tenant_00000000000000000000000001'', ''alias'') = Some ''new''"
proof -
  have "\<exists>w'. cps_updateDestination (sample_control (=)) plane_context plane_destination 7 plane_rotation (plane_start plane_table [])
      = (Inl (Error ''PRECONDITION_FAILED''), w')"
    by (simp add: update_run rotateCredential_def append_audit_def asUnit_def plane_rotation_def)
  then obtain w' where run: "cps_updateDestination (sample_control (=)) plane_context plane_destination 7 plane_rotation (plane_start plane_table [])
      = (Inl (Error ''PRECONDITION_FAILED''), w')" by blast
  with refused_change_rotates_credential [OF mem_secrets.secret_plane_axioms _ disjI2 [OF conjI [OF _ run]], of "''alias''" "''new''"]
  show ?thesis by (auto simp: refusals_def plane_rotation_def plane_context_def)
qed

definition plane_enabling :: destination_changes where
  "plane_enabling = no_changes\<lparr>dc_enabled := Some True\<rparr>"

lemma enabling_resumes_deliveries_witness:
  "\<exists>d w' b m x. cps_updateDestination (sample_control sample_vets) plane_context plane_destination 1 plane_enabling (plane_start plane_table [])
      = (Inr d, w')
    \<and> mem_table (fst w') (outboxKey 4 b) = Some (It_Outbox x) \<and> oi_record x = b \<and> oi_unpublished x \<and> outboxQueueMessage b = Inr (Some m)
    \<and> qm_messageType m = MT_Resume_Destination \<and> qm_destinationId m = Some ''dst_00000000000000000000000001''"
proof -
  have "\<exists>d w'. cps_updateDestination (sample_control sample_vets) plane_context plane_destination 1 plane_enabling (plane_start plane_table [])
      = (Inr d, w')"
    by (simp add: update_run plane_enabling_def)
  then obtain d w' where run: "cps_updateDestination (sample_control sample_vets) plane_context plane_destination 1 plane_enabling
      (plane_start plane_table []) = (Inr d, w')" by blast
  have ids: "identifier_ok ''tenant'' (cx_tenantId plane_context)" "identifier_ok ''cor'' (cx_correlationId plane_context)"
    "identifier_ok ''dst'' (de_destinationId plane_destination)"
    by (simp_all add: plane_context_def plane_destination_def identifier_ok_def asIdentifier_def is_ulid_def ulid_alphabet_def throw_if_def)
  have "\<not> de_enabled plane_destination" "dc_enabled plane_enabling = Some True"
    by (simp_all add: plane_destination_def plane_enabling_def)
  from enabling_resumes_deliveries [OF mem_plane.control_plane_axioms this ids run] obtain b m now where
    "mem_table (fst w') (outboxKey 4 b) = Some (It_Outbox \<lparr>oi_record = b, oi_expiresAt = to_epoch (Iso (now + days 7)),
        oi_unpublished = True, oi_lastPublicationFailureAt = None\<rparr>)"
    "outboxQueueMessage b = Inr (Some m)" "qm_messageType m = MT_Resume_Destination"
    "qm_destinationId m = Some (de_destinationId plane_destination)"
    by auto
  with run show ?thesis
    by (intro exI [of _ d] exI [of _ w'] exI [of _ b] exI [of _ m] exI) (auto simp: plane_destination_def)
qed

definition plane_partner :: partner where
  "plane_partner = sample_partner\<lparr>pa_tenantId := ''tenant_00000000000000000000000001''\<rparr>"

definition partner_key :: dkey where
  "partner_key = K_Partner ''tenant_00000000000000000000000001'' ''ptr_1''"

text \<open>After the first read another client changes the name: the row has version 2 then.\<close>

definition plane_renaming :: plane_world where
  "plane_renaming = plane_start [partner_key \<mapsto> It_Partner plane_partner]
     [\<lambda>s. s, \<lambda>s. [partner_key \<mapsto> It_Partner (plane_partner\<lparr>pa_name := ''Beta'', pa_version := 2\<rparr>)]]"

definition plane_disabling :: partner_changes where
  "plane_disabling = \<lparr>pc_name = None, pc_description = Unchanged, pc_enabled = Some False\<rparr>"

lemma partner_vets: "sample_vets [partner_key \<mapsto> x] [partner_key \<mapsto> y]"
  by (simp add: sample_vets_def vetted_table_def partner_key_def)

lemma stale_read_reverts_update_witness:
  "\<exists>p w'. patchPartner (sample_control sample_vets) plane_context ''ptr_1'' (Some [CHR 0x22, CHR ''2'', CHR 0x22]) (Inr plane_disabling)
      plane_renaming = (Inr p, w')
    \<and> pa_name p = ''Alpha'' \<and> pa_version p = 2 \<and> mem_table (fst w') partner_key = Some (It_Partner p)"
proof -
  let ?S = "sample_control sample_vets" and ?m = "Some [CHR 0x22, CHR ''2'', CHR 0x22]"
  have match: "ifMatch ?m = Inr (pa_version plane_partner + 1)"
    by (simp add: ifMatch_def plane_partner_def sample_partner_def)
  have read: "\<exists>w1. getPartner (sv_db ?S) (cx_tenantId plane_context) ''ptr_1'' plane_renaming = (Inr (Some plane_partner), w1)"
    using partner_vets by (simp add: getPartner_def plane_run plane_renaming_def plane_start_def plane_context_def partner_key_def)
  have "\<exists>p w'. patchPartner ?S plane_context ''ptr_1'' ?m (Inr plane_disabling) plane_renaming = (Inr p, w')"
    using partner_vets
    by (simp add: patchPartner_def match cps_updatePartner_def updatePartner_def getPartner_def cps_audit_def plane_run plane_renaming_def
      plane_start_def plane_context_def partner_key_def changedPartner_def plane_partner_def sample_partner_def updatedOr_def
      updated_or_conflict_def auditPut_def put_new_def put_op_def version_is_def tx_distinct_def attribute_not_exists_PK_def)
  then obtain p w' where run: "patchPartner ?S plane_context ''ptr_1'' ?m (Inr plane_disabling) plane_renaming = (Inr p, w')" by blast
  from read obtain w1 where read: "getPartner (sv_db ?S) (cx_tenantId plane_context) ''ptr_1'' plane_renaming = (Inr (Some plane_partner), w1)"
    by blast
  from stale_read_reverts_update [OF mem_plane.control_plane_axioms read match run] run show ?thesis
    by (auto simp: changedPartner_def plane_partner_def sample_partner_def plane_disabling_def option_or_def partner_key_def plane_context_def)
qed

end
