(* ===== verification/Secrets.thy ===== *)
theory Secrets
  imports Control_Service "HOL-Library.Word"
begin

text \<open>
  The secret stores of \<open>packages/secrets/src/index.ts\<close>: the local one, which keeps encrypted secrets in the table, with a row for
  every version and one that names the current version, and the hosted one over the parameter store. What is stored under an alias
  is what a reference to the alias resolves to: the local store gives the contract \<open>secret_plane\<close> of the control plane.
\<close>

section \<open>Keys\<close>

text \<open>Of the context of a call the keys take the tenant.\<close>

definition secretKey :: "string \<Rightarrow> string \<Rightarrow> string \<Rightarrow> string \<times> string" where
  "secretKey tn name version =
     (''TENANT#'' @ tn @ ''#SECRET'', ''SECRET#'' @ name @ ''#VERSION#'' @ version)"

definition secretHeadKey :: "string \<Rightarrow> string \<Rightarrow> string \<times> string" where
  "secretHeadKey tn name = (''TENANT#'' @ tn @ ''#SECRET'', ''SECRET#'' @ name @ ''#CURRENT'')"

definition associatedData :: "string \<Rightarrow> string \<Rightarrow> string \<Rightarrow> string" where
  "associatedData tn name version = tn @ [CHR 0x0A] @ name @ [CHR 0x0A] @ version"

text \<open>
  A version has no number sign and is not the word \<open>CURRENT\<close>, as the texts of twelve random bytes: then no row is taken for
  another one.
\<close>

definition plain_version :: "string \<Rightarrow> bool" where
  "plain_version v \<longleftrightarrow> CHR ''#'' \<notin> set v \<and> v \<noteq> ''CURRENT''"

lemma last_mark:
  assumes "c \<notin> set v" and "c \<notin> set v'" and "x @ c # v = y @ c # v'"
  shows "x = y \<and> v = v'"
  using assms by (auto simp: append_eq_append_conv2 Cons_eq_append_conv append_eq_Cons_conv)

lemma secretKey_inj:
  assumes "plain_version v" and "plain_version v'"
  shows "secretKey tn n v = secretKey tn' n' v' \<longleftrightarrow> tn = tn' \<and> n = n' \<and> v = v'"
  using last_mark [of "CHR ''#''" v v' "''SECRET#'' @ n @ ''#VERSION''" "''SECRET#'' @ n' @ ''#VERSION''"] assms
  by (auto simp: secretKey_def plain_version_def)

lemma secretHeadKey_inj: "secretHeadKey tn n = secretHeadKey tn' n' \<longleftrightarrow> tn = tn' \<and> n = n'"
  by (simp add: secretHeadKey_def)

lemma secretKey_not_head:
  assumes "plain_version v"
  shows "secretKey tn n v \<noteq> secretHeadKey tn' n'"
proof
  assume "secretKey tn n v = secretHeadKey tn' n'"
  then have "(''SECRET#'' @ n @ ''#VERSION'') @ CHR ''#'' # v = (''SECRET#'' @ n') @ CHR ''#'' # ''CURRENT''"
    by (simp add: secretKey_def secretHeadKey_def)
  from last_mark [OF _ _ this] assms show False by (simp add: plain_version_def)
qed

section \<open>The local store\<close>

type_synonym bytes = "8 word list"

record secret_item =
  se_ciphertext :: string
  se_iv :: string
  se_tag :: string
  se_version :: string

text \<open>The rows of the type \<open>LOCAL_SECRET\<close> and \<open>LOCAL_SECRET_HEAD\<close>, with the time of their creation or update.\<close>

datatype secret_row = Local_Secret secret_item instant | Local_Secret_Head string instant

type_synonym secret_rows = "string \<times> string \<Rightarrow> secret_row option"

text \<open>
  \<open>ls_put new head\<close> is the transaction of the two puts, the first on the condition that there is no such row, which throws when it is
  cancelled; \<open>ls_encrypt\<close> and \<open>ls_decrypt\<close> are AES-256-GCM with a key, an initialisation vector and the associated data, of which
  decryption fails for a tag that does not fit; \<open>ls_random\<close> is \<open>randomBytes\<close>; \<open>ls_base64\<close>, \<open>ls_bytes\<close> and \<open>ls_base64url\<close> are the
  encodings of a \<open>Buffer\<close>.
\<close>

record 'w secret_ports =
  ls_get :: "string \<times> string \<Rightarrow> ('w, secret_row option) op"
  ls_put :: "(string \<times> string) \<times> secret_row \<Rightarrow> (string \<times> string) \<times> secret_row \<Rightarrow> ('w, unit) op"
  ls_random :: "nat \<Rightarrow> ('w, bytes) op"
  ls_now :: "'w \<Rightarrow> instant"
  ls_encrypt :: "bytes \<Rightarrow> bytes \<Rightarrow> string \<Rightarrow> string \<Rightarrow> bytes \<times> bytes"
  ls_decrypt :: "bytes \<Rightarrow> bytes \<Rightarrow> string \<Rightarrow> bytes \<Rightarrow> bytes \<Rightarrow> string option"
  ls_base64 :: "bytes \<Rightarrow> string"
  ls_bytes :: "string \<Rightarrow> bytes"
  ls_base64url :: "bytes \<Rightarrow> string"

definition decodeLocalMasterKey :: "'w secret_ports \<Rightarrow> string \<Rightarrow> js_error + bytes" where
  "decodeLocalMasterKey P text = (let key = ls_bytes P text in
     throw_if (length key \<noteq> 32 \<or> ls_base64 P key \<noteq> text)
       (Error ''LOCAL_SECRET_MASTER_KEY_B64 must be a canonical base64 32-byte key.'') (Inr key))"

definition sealed :: "'w secret_ports \<Rightarrow> bytes \<Rightarrow> string \<Rightarrow> string \<Rightarrow> string \<Rightarrow> string \<Rightarrow> bytes \<Rightarrow> secret_item" where
  "sealed P key tn name version v iv = (let (ciphertext, tag) = ls_encrypt P key iv (associatedData tn name version) v in
     \<lparr>se_ciphertext = ls_base64 P ciphertext, se_iv = ls_base64 P iv, se_tag = ls_base64 P tag, se_version = version\<rparr>)"

definition localStore ::
    "'w secret_ports \<Rightarrow> bytes \<Rightarrow> tenant_context \<Rightarrow> string \<Rightarrow> string \<Rightarrow> string option \<Rightarrow> ('w, string \<times> string) op" where
  "localStore P key cx name v given =
     bindM (case given of Some version \<Rightarrow> returnM version | None \<Rightarrow> mapM (ls_base64url P) (ls_random P 12)) (\<lambda>version.
     bindM (ls_random P 12) (\<lambda>iv.
     bindM (readM (ls_now P)) (\<lambda>createdAt.
     bindM (readM (ls_now P)) (\<lambda>updatedAt.
     bindM (ls_put P (secretKey (cx_tenantId cx) name version, Local_Secret (sealed P key (cx_tenantId cx) name version v iv) createdAt)
              (secretHeadKey (cx_tenantId cx) name, Local_Secret_Head version updatedAt)) (\<lambda>_.
       returnM (name, version))))))"

definition unresolved :: js_error where
  "unresolved = Error ''Secret reference could not be resolved.''"

text \<open>A row that is not there, is no secret or cannot be decrypted is one error; both types of row have a version.\<close>

definition opened :: "'w secret_ports \<Rightarrow> bytes \<Rightarrow> string \<Rightarrow> string \<Rightarrow> string \<Rightarrow> secret_row option \<Rightarrow> js_error + string" where
  "opened P key tn name version row = (case row of
      Some (Local_Secret s createdAt) \<Rightarrow>
        (case ls_decrypt P key (ls_bytes P (se_iv s)) (associatedData tn name version) (ls_bytes P (se_tag s))
                (ls_bytes P (se_ciphertext s)) of
           None \<Rightarrow> Inl unresolved
         | Some v \<Rightarrow> Inr v)
    | _ \<Rightarrow> Inl unresolved)"

definition currentVersion :: "secret_row option \<Rightarrow> js_error + string" where
  "currentVersion row = (case row of
      Some (Local_Secret_Head version updatedAt) \<Rightarrow> Inr version
    | Some (Local_Secret s createdAt) \<Rightarrow> Inr (se_version s)
    | None \<Rightarrow> Inl unresolved)"

definition localResolve ::
    "'w secret_ports \<Rightarrow> bytes \<Rightarrow> tenant_context \<Rightarrow> string \<Rightarrow> string option \<Rightarrow> ('w, string \<times> string) op" where
  "localResolve P key cx name given =
     bindM (case given of Some version \<Rightarrow> returnM version
            | None \<Rightarrow> bindM (ls_get P (secretHeadKey (cx_tenantId cx) name)) (\<lambda>head. liftM (currentVersion head))) (\<lambda>version.
     bindM (ls_get P (secretKey (cx_tenantId cx) name version)) (\<lambda>row.
     bindM (liftM (opened P key (cx_tenantId cx) name version row)) (\<lambda>v. returnM (v, version))))"

definition localIsBound :: "'w secret_ports \<Rightarrow> tenant_context \<Rightarrow> string \<Rightarrow> ('w, bool) op" where
  "localIsBound P cx alias = bindM (ls_get P (secretHeadKey (cx_tenantId cx) alias)) (\<lambda>head. returnM (\<not> isl (currentVersion head)))"

section \<open>The parameter store\<close>

text \<open>
  \<open>ss_put\<close> overwrites a parameter and answers with its version, \<open>ss_get\<close> answers with its value, when decryption is asked for, and its
  version, or throws, \<open>ServiceError ''ParameterNotFound''\<close> for a name that is not there.
\<close>

record 'w parameter_ports =
  ss_prefix :: string
  ss_put :: "string \<Rightarrow> string \<Rightarrow> ('w, int option) op"
  ss_get :: "string \<Rightarrow> bool \<Rightarrow> ('w, string option \<times> int option) op"

definition is_alias :: "string \<Rightarrow> bool" where
  "is_alias s \<longleftrightarrow> s \<noteq> [] \<and> length s \<le> 160
     \<and> list_all (\<lambda>c. is_digit c \<or> is_upper c \<or> is_lower c \<or> c \<in> set ''._-'') s"

definition parameterName :: "'w parameter_ports \<Rightarrow> tenant_context \<Rightarrow> string \<Rightarrow> js_error + string" where
  "parameterName P cx alias = throw_if (\<not> is_alias alias) (Error ''Secret alias contains unsupported characters.'')
     (Inr (ss_prefix P @ ''/'' @ cx_tenantId cx @ ''/secrets/'' @ alias))"

text \<open>Two tenants, or two aliases of one tenant, never share a parameter.\<close>

lemma parameterName_inj:
  assumes "parameterName P cx alias = Inr path" and "parameterName P cx' alias' = Inr path"
  shows "cx_tenantId cx = cx_tenantId cx' \<and> alias = alias'"
proof -
  have no_slash: "CHR ''/'' \<notin> set a" if "is_alias a" for a
    using that by (auto simp: is_alias_def list_all_iff is_digit_def is_upper_def is_lower_def)
  have "(ss_prefix P @ ''/'' @ cx_tenantId cx @ ''/secrets'') @ CHR ''/'' # alias
      = (ss_prefix P @ ''/'' @ cx_tenantId cx' @ ''/secrets'') @ CHR ''/'' # alias'"
    and "is_alias alias" "is_alias alias'"
    using assms by (auto simp: parameterName_def throw_if_def split: if_splits)
  from last_mark [OF no_slash no_slash this(1)] this(2,3) show ?thesis by simp
qed

definition parameterStore ::
    "'w parameter_ports \<Rightarrow> tenant_context \<Rightarrow> string \<Rightarrow> string \<Rightarrow> string option \<Rightarrow> ('w, string \<times> string) op" where
  "parameterStore P cx name v given =
     bindM (liftM (throw_if (given \<noteq> None) (Error ''SSM assigns immutable secret versions.'') (parameterName P cx name))) (\<lambda>path.
     bindM (ss_put P path v) (\<lambda>version. case version of
         None \<Rightarrow> throwM (Error ''Secret parameter version was not returned.'')
       | Some n \<Rightarrow> returnM (name, js_int n)))"

definition parameterResolve ::
    "'w parameter_ports \<Rightarrow> tenant_context \<Rightarrow> string \<Rightarrow> string option \<Rightarrow> ('w, string \<times> string) op" where
  "parameterResolve P cx name given =
     bindM (liftM (parameterName P cx name)) (\<lambda>path.
     bindM (ss_get P (case given of None \<Rightarrow> path | Some version \<Rightarrow> path @ '':'' @ version) True) (\<lambda>answer. case answer of
         (Some v, Some n) \<Rightarrow> returnM (v, js_int n)
       | _ \<Rightarrow> throwM unresolved))"

definition parameterIsBound :: "'w parameter_ports \<Rightarrow> tenant_context \<Rightarrow> string \<Rightarrow> ('w, bool) op" where
  "parameterIsBound P cx alias =
     catchM (bindM (liftM (parameterName P cx alias)) (\<lambda>path.
             bindM (ss_get P path False) (\<lambda>answer. returnM (snd answer \<noteq> None))))
       (\<lambda>e. if e = ServiceError ''ParameterNotFound'' then returnM False else throwM e)"

section \<open>What is stored is what is resolved\<close>

text \<open>
  The table of secrets: a client alone on it, whose puts are one transaction; encryption that can be undone under the same
  key, vector and data; the encodings.
\<close>

locale secret_table =
  fixes P :: "'w secret_ports" and rows :: "'w \<Rightarrow> secret_rows"
  assumes get_row: "ls_get P k w = (rg, w') \<Longrightarrow> rows w' = rows w \<and> (\<forall>x. rg = Inr x \<longrightarrow> x = rows w k)"
    and put_rows: "ls_put P (k, x) (h, y) w = (rp, w') \<Longrightarrow>
      (rp = Inr () \<longrightarrow> rows w k = None \<and> rows w' = (rows w)(k \<mapsto> x, h \<mapsto> y))
      \<and> (rp \<noteq> Inr () \<longrightarrow> rows w' = rows w \<or> (rows w k = None \<and> rows w' = (rows w)(k \<mapsto> x, h \<mapsto> y)))"
    and random_rows: "ls_random P n w = (rr, w') \<Longrightarrow> rows w' = rows w"
    and random_text: "plain_version (ls_base64url P b)"
    and decrypts: "ls_encrypt P key iv d v = (c, t) \<Longrightarrow> ls_decrypt P key iv d t c = Some v"
    and base64_back: "ls_bytes P (ls_base64 P b) = b"
begin

definition current :: "bytes \<Rightarrow> secret_rows \<Rightarrow> string \<Rightarrow> string \<Rightarrow> string option" where
  "current key s tn name = (case currentVersion (s (secretHeadKey tn name)) of
      Inl e \<Rightarrow> None
    | Inr version \<Rightarrow> (case opened P key tn name version (s (secretKey tn name version)) of Inl e \<Rightarrow> None | Inr v \<Rightarrow> Some v))"

lemma opened_sealed: "opened P key tn name version (Some (Local_Secret (sealed P key tn name version v iv) t)) = Inr v"
proof -
  obtain c g where "ls_encrypt P key iv (associatedData tn name version) v = (c, g)"
    by (cases "ls_encrypt P key iv (associatedData tn name version) v")
  with decrypts [OF this] show ?thesis by (simp add: opened_def sealed_def base64_back)
qed

lemma store_holds:
  assumes "localStore P key cx name v None w = (Inr r, w')"
  shows "current key (rows w') (cx_tenantId cx) name = Some v \<and> fst r = name"
proof -
  obtain b iv t t' w1 where put: "ls_put P (secretKey (cx_tenantId cx) name (ls_base64url P b),
        Local_Secret (sealed P key (cx_tenantId cx) name (ls_base64url P b) v iv) t)
      (secretHeadKey (cx_tenantId cx) name, Local_Secret_Head (ls_base64url P b) t') w1 = (Inr (), w')" and r: "r = (name, ls_base64url P b)"
    using assms by (auto simp: localStore_def mapM_def bindM_def readM_def returnM_def split: prod.splits sum.splits)
  note plain = random_text [of b]
  from put_rows [OF put] secretKey_not_head [OF plain] show ?thesis
    by (simp add: current_def currentVersion_def opened_sealed r)
qed

lemma resolve_current:
  assumes "current key (rows w) (cx_tenantId cx) name = Some v" and "localResolve P key cx name None w = (r, w')"
  shows "(case r of Inl e \<Rightarrow> True | Inr x \<Rightarrow> fst x = v) \<and> rows w' = rows w"
proof -
  obtain g w1 where g: "ls_get P (secretHeadKey (cx_tenantId cx) name) w = (g, w1)" by (cases "ls_get P (secretHeadKey (cx_tenantId cx) name) w")
  obtain version where version: "currentVersion (rows w (secretHeadKey (cx_tenantId cx) name)) = Inr version"
    "opened P key (cx_tenantId cx) name version (rows w (secretKey (cx_tenantId cx) name version)) = Inr v"
    using assms(1) by (auto simp: current_def split: sum.splits)
  obtain q w2 where q: "ls_get P (secretKey (cx_tenantId cx) name version) w1 = (q, w2)" by (cases "ls_get P (secretKey (cx_tenantId cx) name version) w1")
  from get_row [OF g] get_row [OF q] assms(2) g q version show ?thesis
    by (cases g; cases q) (auto simp: localResolve_def bindM_def liftM_def returnM_def)
qed

text \<open>A secret stored without a version is what a reference without a version resolves to.\<close>

lemma stored_is_resolved:
  assumes "localStore P key cx name v None w = (Inr r, w')" and "localResolve P key cx name None w' = (Inr x, w'')"
  shows "fst x = v"
  using resolve_current [OF conjunct1 [OF store_holds [OF assms(1)]] assms(2)] by simp

end

text \<open>A control plane with the local store: its other calls leave the rows of the secrets alone.\<close>

definition storeSecret :: "'w secret_ports \<Rightarrow> bytes \<Rightarrow> tenant_context \<Rightarrow> string \<Rightarrow> string \<Rightarrow> ('w, string) op" where
  "storeSecret P key cx alias v = mapM fst (localStore P key cx alias v None)"

locale local_secrets = secret_table P rows
  for P :: "'w secret_ports" and rows :: "'w \<Rightarrow> secret_rows" +
  fixes S :: "('w, 'z) control_services_scheme" and key :: bytes
  assumes stores: "ct_store S = storeSecret P key"
    and next_rows: "sv_next S p w = (rn, w') \<Longrightarrow> rows w' = rows w"
    and db_rows: "db_get (sv_db S) k w = (rg, w') \<Longrightarrow> rows w' = rows w"
      "db_query (sv_db S) F l w = (rq, w') \<Longrightarrow> rows w' = rows w" "db_write (sv_db S) ops w = (rw, w') \<Longrightarrow> rows w' = rows w"
    and other_errors: "ls_random P n w = (Inl e, w') \<Longrightarrow> e \<notin> refusals" "ls_put P x y w = (Inl e, w') \<Longrightarrow> e \<notin> refusals"
      "ct_validate S u w = (Inl e, w') \<Longrightarrow> e \<notin> refusals" "sv_next S p w = (Inl e, w') \<Longrightarrow> e \<notin> refusals"
      "db_write (sv_db S) ops w = (Inl e, w') \<Longrightarrow> e \<notin> refusals" "sv_url S pth b = Inl e \<Longrightarrow> e \<notin> refusals"

sublocale local_secrets \<subseteq> secret_plane S "\<lambda>w. current key (rows w)"
proof
  show "ct_store S cx a v w = (Inr n, w') \<Longrightarrow> current key (rows w') (cx_tenantId cx) a = Some v" for cx a v w n w'
    using store_holds [of key cx a v w _ w']
    by (auto simp: stores storeSecret_def mapM_def bindM_def returnM_def split: prod.splits sum.splits)
  show "ct_store S cx a v w = (Inl e, w') \<Longrightarrow> e \<notin> refusals" for cx a v w e w'
    using other_errors(1,2)
    by (auto simp: stores storeSecret_def localStore_def mapM_def bindM_def readM_def returnM_def split: prod.splits sum.splits)
qed (use next_rows db_rows other_errors(3-6) in \<open>auto\<close>)

section \<open>Secrets in memory\<close>

definition byte_char :: "8 word \<Rightarrow> char" where
  "byte_char b = char_of (unat b)"

definition char_byte :: "char \<Rightarrow> 8 word" where
  "char_byte c = word_of_nat (of_char c)"

lemma byte_back [simp]: "char_byte (byte_char b) = b" "byte_char (char_byte c) = c"
proof -
  have "unat b < 256" using unsigned_less [of b] by simp
  then show "char_byte (byte_char b) = b" by (simp add: char_byte_def byte_char_def)
  have "unat (word_of_nat (of_char c) :: 8 word) = of_char c" by (simp add: unat_of_nat)
  then show "byte_char (char_byte c) = c" by (simp add: char_byte_def byte_char_def)
qed

type_synonym secret_world = "mem \<times> secret_rows"

definition memory_put ::
    "(string \<times> string) \<times> secret_row \<Rightarrow> (string \<times> string) \<times> secret_row \<Rightarrow> (secret_world, unit) op" where
  "memory_put x h w = (if snd w (fst x) = None then (Inr (), (fst w, (snd w)(fst x \<mapsto> snd x, fst h \<mapsto> snd h)))
     else (Inl (ServiceError ''TransactionCanceledException''), w))"

definition memory_secrets :: "secret_world secret_ports" where
  "memory_secrets = \<lparr>ls_get = (\<lambda>k. readM (\<lambda>w. snd w k)), ls_put = memory_put,
     ls_random = (\<lambda>n. returnM (replicate n 7)), ls_now = (\<lambda>w. mem_clock (fst w)),
     ls_encrypt = (\<lambda>key iv d v. (map char_byte v, [])), ls_decrypt = (\<lambda>key iv d t c. Some (map byte_char c)),
     ls_base64 = map byte_char, ls_bytes = map char_byte,
     ls_base64url = map (\<lambda>b. if b = 0 then CHR ''A'' else CHR ''B'')\<rparr>"

definition memory_control :: "(dtable \<Rightarrow> dtable \<Rightarrow> bool) \<Rightarrow> secret_world control_services" where
  "memory_control rely = \<lparr>sv_db = beside_db (mem_db [] rely), sv_shards = 4, sv_next = (\<lambda>p. returnM (p @ ''_1'')),
     sv_now = (\<lambda>w. mem_clock (fst w)), sv_traceparent = (\<lambda>_. None), sv_sha256 = sample_sha256, sv_number = unary,
     sv_url = (\<lambda>path base. Inr (base @ path)), sv_execute = (\<lambda>definition input. Inr (definition, ''h'')),
     sv_retentionDays = 30, sv_supportedEventTypes = [''order.created''],
     ct_store = storeSecret memory_secrets (replicate 32 1),
     ct_validate = (\<lambda>u. returnM ())\<rparr>"

interpretation stored_secrets: local_secrets memory_secrets snd "memory_control rely" "replicate 32 1" for rely
proof
  show "plain_version (ls_base64url memory_secrets b)" for b
    by (auto simp: memory_secrets_def plain_version_def split: if_splits)
  show "ls_encrypt memory_secrets key iv d v = (c, t) \<Longrightarrow> ls_decrypt memory_secrets key iv d t c = Some v" for key iv d v c t
    by (auto simp: memory_secrets_def comp_def)
  show "db_write (sv_db (memory_control rely)) ops w = (Inl e, w') \<Longrightarrow> e \<notin> refusals" for ops w e w'
    using beside_mem_error by (simp add: memory_control_def)
  show "ls_put memory_secrets x y w = (Inl e, w') \<Longrightarrow> e \<notin> refusals" for x y w e w'
    by (auto simp: memory_secrets_def memory_put_def refusals_def split: if_splits)
qed (auto simp: memory_secrets_def memory_control_def memory_put_def returnM_def readM_def beside_db_def beside_run comp_def
    split: if_splits)

end
