(* ===== verification/Replay_Service.thy ===== *)
theory Replay_Service
  imports Replay_Store Routing_Runs Outbox_Publisher
begin

text \<open>
  \<open>ReplayService\<close> of \<open>packages/application/src/index.ts\<close>: an administrator or operator sends a delivery that ended without success
  once more, with the present configuration of its destination. The original stays as it is; a replay is a delivery of its own.
\<close>

section \<open>The request\<close>

record replay_request =
  rq_deliveryId :: string
  rq_idempotencyKey :: string
  rq_reason :: string
  rq_correctionConfirmed :: bool

record replay_answer =
  ra_replayId :: string
  ra_deliveryId :: string
  ra_originalDeliveryId :: string
  ra_state :: string
  ra_previouslyAccepted :: bool

definition mayReplay :: "tenant_context \<Rightarrow> bool" where
  "mayReplay cx \<longleftrightarrow> cx_actorType cx = Console_User \<and> cx_role cx \<in> {Some Admin, Some Operator}"

text \<open>What the request is compared by when its key is used again.\<close>

definition bool_text :: "bool \<Rightarrow> string" where
  "bool_text b = (if b then ''true'' else ''false'')"

definition requestText :: "string \<Rightarrow> replay_request \<Rightarrow> string" where
  "requestText originalId q = lines_of [originalId, rq_reason q, bool_text (rq_correctionConfirmed q)]"

section \<open>The replay\<close>

definition replayDelivery ::
    "('w, 'z) services_scheme \<Rightarrow> canonical_event \<Rightarrow> destination \<Rightarrow> config_snapshot \<Rightarrow> json \<times> string \<Rightarrow> delivery \<Rightarrow> string
       \<Rightarrow> string \<Rightarrow> instant \<Rightarrow> delivery" where
  "replayDelivery S ev dest snapshot transformed original replayId deliveryId now =
     \<lparr>d_deliveryId = deliveryId, d_eventId = ev_eventId ev, d_correlationId = ev_correlationId ev,
      d_tenantId = ev_tenantId ev, d_partnerId = de_partnerId dest, d_destinationId = de_destinationId dest,
      d_executionType = REPLAY, d_originalDeliveryId = Some (d_deliveryId original), d_replayId = Some replayId,
      d_state = Scheduled, d_blockedReason = None, d_attemptCount = 0,
      d_maxAttempts = rp_maxAttempts (de_retryPolicy dest), d_activeAttemptId = None, d_nextEligibleAt = Some now,
      d_leaseOwner = None, d_leaseToken = None, d_leaseAcquiredAt = None, d_leaseExpiresAt = None,
      d_configSnapshot = snapshot, d_transformedPayload = fst transformed, d_transformedPayloadHash = snd transformed,
      d_partnerIdempotencyKey = partnerKey S ev (de_destinationId dest) deliveryId, d_lastFailureCategory = None,
      d_createdAt = now, d_updatedAt = now, d_terminalAt = None, d_version = 1,
      d_expiresAt = Iso (now + days (sv_retentionDays S))\<rparr>"

definition replayRelation ::
    "tenant_context \<Rightarrow> replay_request \<Rightarrow> delivery \<Rightarrow> delivery \<Rightarrow> string \<Rightarrow> instant \<Rightarrow> replay_relation" where
  "replayRelation cx q original d replayId now =
     \<lparr>rr_replayId = replayId, rr_tenantId = cx_tenantId cx, rr_eventId = d_eventId d,
      rr_originalDeliveryId = d_deliveryId original, rr_replayDeliveryId = d_deliveryId d, rr_requestedAt = now,
      rr_requestedBy = cx_actorId cx, rr_reason = rq_reason q, rr_correctionConfirmed = rq_correctionConfirmed q,
      rr_originalDestinationVersion = cs_destinationVersion (d_configSnapshot original),
      rr_originalTransformationId = cs_transformationId (d_configSnapshot original),
      rr_originalTransformationVersion = cs_transformationVersion (d_configSnapshot original),
      rr_replayDestinationVersion = cs_destinationVersion (d_configSnapshot d),
      rr_replayTransformationId = cs_transformationId (d_configSnapshot d),
      rr_replayTransformationVersion = cs_transformationVersion (d_configSnapshot d), rr_expiresAt = d_expiresAt d\<rparr>"

definition replayHistory :: "tenant_context \<Rightarrow> delivery \<Rightarrow> delivery \<Rightarrow> string \<Rightarrow> string \<Rightarrow> instant \<Rightarrow> history_entry" where
  "replayHistory cx original d replayId historyId now =
     \<lparr>hi_historyId = historyId, hi_deliveryId = d_deliveryId d, hi_tenantId = cx_tenantId cx,
      hi_correlationId = d_correlationId d, hi_type = Hi_Replay_Linked, hi_occurredAt = now,
      hi_summary = ''Replay delivery created and scheduled.'',
      hi_metadata = [(''originalDeliveryId'', Meta_Str (d_deliveryId original)), (''replayId'', Meta_Str replayId)],
      hi_expiresAt = d_expiresAt d\<rparr>"

definition replayOutbox :: "tenant_context \<Rightarrow> delivery \<Rightarrow> string \<Rightarrow> string option \<Rightarrow> instant \<Rightarrow> outbox_record" where
  "replayOutbox cx d outboxId trace now =
     \<lparr>ob_outboxId = outboxId, ob_kind = DELIVER, ob_tenantId = cx_tenantId cx, ob_aggregateType = DELIVERY,
      ob_aggregateId = d_deliveryId d, ob_target = DELIVERY_QUEUE,
      ob_payload = \<lparr>pl_eventId = Some (d_eventId d), pl_deliveryId = Some (d_deliveryId d), pl_destinationId = None,
        pl_correlationId = d_correlationId d, pl_notBefore = None, pl_cause = Some REPLAYED\<rparr>,
      ob_createdAt = now, ob_attempts = 0, ob_publishedAt = None, ob_traceparent = trace\<rparr>"

definition replayAudit ::
    "tenant_context \<Rightarrow> replay_request \<Rightarrow> delivery \<Rightarrow> delivery \<Rightarrow> string \<Rightarrow> string \<Rightarrow> instant \<Rightarrow> audit_event" where
  "replayAudit cx q original d replayId auditId now =
     \<lparr>au_auditId = auditId, au_tenantId = cx_tenantId cx, au_actorId = cx_actorId cx, au_actorRole = cx_role cx,
      au_action = ''delivery.replay_requested'', au_targetType = ''DELIVERY'', au_targetId = d_deliveryId original,
      au_requestId = cx_requestId cx, au_correlationId = d_correlationId d, au_reason = Some (rq_reason q),
      au_metadata = [(''replayId'', Meta_Str replayId), (''replayDeliveryId'', Meta_Str (d_deliveryId d)),
        (''correctionConfirmed'', Meta_Bool (rq_correctionConfirmed q)),
        (''originalDestinationVersion'', Meta_Int (cs_destinationVersion (d_configSnapshot original))),
        (''replayDestinationVersion'', Meta_Int (cs_destinationVersion (d_configSnapshot d))),
        (''originalTransformationVersion'', Meta_Int (cs_transformationVersion (d_configSnapshot original))),
        (''replayTransformationVersion'', Meta_Int (cs_transformationVersion (d_configSnapshot d)))],
      au_occurredAt = now, au_expiresAt = Iso (now + days 90)\<rparr>"

definition replayInput ::
    "('w, 'z) services_scheme \<Rightarrow> tenant_context \<Rightarrow> replay_request \<Rightarrow> delivery \<Rightarrow> delivery \<Rightarrow> string \<Rightarrow> string \<Rightarrow> string \<Rightarrow> string
       \<Rightarrow> string option \<Rightarrow> instant \<Rightarrow> replay_input" where
  "replayInput S cx q original d replayId historyId outboxId auditId trace now =
     \<lparr>ry_tenantId = cx_tenantId cx, ry_requestHash = hex (sv_sha256 S (requestText (d_deliveryId original) q)),
      ry_idempotencyKeyHash = hex (sv_sha256 S (rq_idempotencyKey q)),
      ry_relation = replayRelation cx q original d replayId now, ry_delivery = d,
      ry_history = replayHistory cx original d replayId historyId now, ry_outbox = replayOutbox cx d outboxId trace now,
      ry_audit = replayAudit cx q original d replayId auditId now\<rparr>"

definition replayAnswer :: "delivery \<Rightarrow> replay_result \<Rightarrow> js_error + replay_answer" where
  "replayAnswer original result = (case result of
      Replay_Conflict \<Rightarrow> Inl (Error ''IDEMPOTENCY_KEY_REUSED'')
    | Replay_Created d r \<Rightarrow> Inr \<lparr>ra_replayId = r, ra_deliveryId = d_deliveryId d,
        ra_originalDeliveryId = d_deliveryId original, ra_state = ''scheduled'', ra_previouslyAccepted = False\<rparr>
    | Replay_Duplicate d r \<Rightarrow> Inr \<lparr>ra_replayId = r, ra_deliveryId = d_deliveryId d,
        ra_originalDeliveryId = d_deliveryId original, ra_state = ''scheduled'', ra_previouslyAccepted = True\<rparr>)"

text \<open>With the event and the configuration at hand.\<close>

definition replayWith ::
    "('w, 'z) services_scheme \<Rightarrow> tenant_context \<Rightarrow> replay_request \<Rightarrow> delivery \<Rightarrow> canonical_event \<Rightarrow> destination
       \<Rightarrow> transformation_version \<Rightarrow> ('w, replay_answer) op" where
  "replayWith S cx q original ev dest tf =
     bindM (catchM (liftM (sv_execute S (tf_definition tf) (event_json (cx_tenantId cx) ev)))
              (\<lambda>_. throwM (Error ''REPLAY_TRANSFORMATION_FAILED''))) (\<lambda>transformed.
     bindM (readM (sv_now S)) (\<lambda>now.
     bindM (sv_next S ''rpl'') (\<lambda>replayId.
     bindM (sv_next S ''dlv'') (\<lambda>deliveryId.
     bindM (liftM (sv_url S (de_path dest) (de_baseUrl dest))) (\<lambda>url.
       (let d = replayDelivery S ev dest (routedSnapshot dest tf url) transformed original replayId deliveryId now in
     bindM (sv_next S ''req'') (\<lambda>historyId.
     bindM (sv_next S ''obx'') (\<lambda>outboxId.
     bindM (readM (sv_traceparent S)) (\<lambda>trace.
     bindM (sv_next S ''aud'') (\<lambda>auditId.
     bindM (createReplay (sv_db S) (sv_shards S)
              (replayInput S cx q original d replayId historyId outboxId auditId trace now)) (\<lambda>result.
       liftM (replayAnswer original result))))))))))))"

text \<open>The configuration, read from the destination on; nothing is read for a destination that is not there.\<close>

definition replayConfiguration ::
    "('w, 'z) services_scheme \<Rightarrow> tenant_context \<Rightarrow> delivery
       \<Rightarrow> ('w, (destination \<times> partner option \<times> transformation_version option) option) op" where
  "replayConfiguration S cx original =
     bindM (getDestination (sv_db S) (cx_tenantId cx) (d_destinationId original)) (\<lambda>destination.
       case destination of
         None \<Rightarrow> returnM None
       | Some dest \<Rightarrow>
           bindM (getPartner (sv_db S) (cx_tenantId cx) (de_partnerId dest)) (\<lambda>partner.
           bindM (getTransformationVersion (sv_db S) (cx_tenantId cx) (de_transformationId dest)
                    (de_activeTransformationVersion dest)) (\<lambda>transformation.
             returnM (Some (dest, partner, transformation)))))"

text \<open>Every part of it is there and enabled, or there is no replay.\<close>

definition replayChosen ::
    "('w, 'z) services_scheme \<Rightarrow> tenant_context \<Rightarrow> replay_request \<Rightarrow> delivery \<Rightarrow> canonical_event option
       \<Rightarrow> (destination \<times> partner option \<times> transformation_version option) option \<Rightarrow> ('w, replay_answer) op" where
  "replayChosen S cx q original event configuration = (case (event, configuration) of
       (Some ev, Some (dest, Some partner, Some tf)) \<Rightarrow>
         if de_enabled dest \<and> pa_enabled partner then replayWith S cx q original ev dest tf
         else throwM (Error ''REPLAY_CONFIGURATION_UNAVAILABLE'')
     | _ \<Rightarrow> throwM (Error ''REPLAY_CONFIGURATION_UNAVAILABLE''))"

definition replay :: "('w, 'z) services_scheme \<Rightarrow> tenant_context \<Rightarrow> replay_request \<Rightarrow> ('w, replay_answer) op" where
  "replay S cx q =
     (if \<not> mayReplay cx then throwM (Error ''FORBIDDEN'') else
      bindM (getDelivery (sv_db S) (cx_tenantId cx) (rq_deliveryId q)) (\<lambda>found. case found of
          None \<Rightarrow> throwM (Error ''NOT_FOUND'')
        | Some original \<Rightarrow>
            if \<not> el_eligible (replayEligibility (d_state original) (d_lastFailureCategory original) (rq_correctionConfirmed q))
            then throwM (Error ''REPLAY_NOT_ELIGIBLE'') else
            bindM (getEvent (sv_db S) (cx_tenantId cx) (d_eventId original)) (\<lambda>event.
            bindM (replayConfiguration S cx original) (replayChosen S cx q original event))))"

section \<open>A replay is safe\<close>

lemma replay_identity [simp]:
  "d_tenantId (replayDelivery S ev dest snapshot x original r i now) = ev_tenantId ev"
  "d_eventId (replayDelivery S ev dest snapshot x original r i now) = ev_eventId ev"
  "d_deliveryId (replayDelivery S ev dest snapshot x original r i now) = i"
  "d_executionType (replayDelivery S ev dest snapshot x original r i now) = REPLAY"
  by (simp_all add: replayDelivery_def)

lemma replay_creatable: "creatable (replayDelivery S ev dest snapshot x original r i now)"
  by (simp add: creatable_def lease_wf_def replayDelivery_def)

lemma replayInput_sel [simp]:
  "ry_tenantId (replayInput S cx q original d r h b a trace now) = cx_tenantId cx"
  "ry_delivery (replayInput S cx q original d r h b a trace now) = d"
  "ry_relation (replayInput S cx q original d r h b a trace now) = replayRelation cx q original d r now"
  "ry_audit (replayInput S cx q original d r h b a trace now) = replayAudit cx q original d r a now"
  by (simp_all add: replayInput_def)

context safe_services
begin

text \<open>What has been seen is there from some moment on: an operation may be taken to start then.\<close>

lemma hoare_since_seen:
  assumes "\<And>s1. since s0 s1 \<Longrightarrow> seen s1 k it \<Longrightarrow> hoare view (since s1) m (\<lambda>_. since s1) (since s1)"
  shows "hoare view (\<lambda>u. since s0 u \<and> seen u k it) m (\<lambda>_. since s0) (since s0)"
proof (rule hoareI)
  fix w r w'
  assume u: "since s0 (view w) \<and> seen (view w) k it" and run: "m w = (r, w')"
  from u have self: "since (view w) (view w)" by (blast intro: since_refl since_inv)
  from u have "hoare view (since (view w)) m (\<lambda>_. since (view w)) (since (view w))" by (blast intro: assms)
  from hoareD [OF this self run] have "since (view w) (view w')" by (simp split: sum.splits)
  with u have "since s0 (view w')" unfolding since_def using safe_trans by blast
  then show "case r of Inr a \<Rightarrow> since s0 (view w') | Inl e \<Rightarrow> since s0 (view w')" by (simp split: sum.split)
qed

lemma replayWith_keeps:
  assumes s1: "since s0 s1" "seen s1 (K_Event (cx_tenantId cx) e) (It_Event ev)"
  shows "hoare view (since s1) (replayWith S cx q original ev dest tf) (\<lambda>_. since s1) (since s1)"
proof -
  have own: "ev_tenantId ev = cx_tenantId cx" "ev_eventId ev = e"
    by (rule seen_event_tenant [OF s1(2) since_inv [OF s1(1)]], rule seen_event_id [OF s1(2) since_inv [OF s1(1)]])
  have create: "hoare view (since s1) (createReplay (sv_db S) (sv_shards S) (replayInput S cx q original
      (replayDelivery S ev dest snapshot x original r i now) r h b a trace now)) (\<lambda>_. since s1) (since s1)"
    for snapshot x r i now h b a trace
    by (rule createReplay_keeps [where it = "It_Event ev"]) (use s1(2) own in \<open>simp_all add: replay_creatable\<close>)
  show ?thesis
    unfolding replayWith_def Let_def
  proof (rule hoare_bind [where R = "\<lambda>_. since s1"])
    show "hoare view (since s1) (catchM (liftM (sv_execute S (tf_definition tf) (event_json (cx_tenantId cx) ev)))
        (\<lambda>_. throwM (Error ''REPLAY_TRANSFORMATION_FAILED''))) (\<lambda>_. since s1) (since s1)"
      by (rule hoare_catch [where R = "since s1"]) (auto intro: hoare_lift hoare_throw)
  qed (intro readM_then next_then lift_then hoare_bind [OF create] hoare_lift; assumption)
qed

lemma configuration_then:
  assumes "\<And>c. hoare view (since s0) (g c) (\<lambda>_. since s0) (since s0)"
  shows "hoare view (since s0) (bindM (replayConfiguration S cx original) g) (\<lambda>_. since s0) (since s0)"
  unfolding replayConfiguration_def getDestination_def getPartner_def getTransformationVersion_def op_bind_assoc
proof (rule plain_read_then)
  fix destination :: "destination option"
  show "hoare view (since s0) (bindM (case destination of None \<Rightarrow> returnM None
      | Some dest \<Rightarrow> bindM (mapM as_partner (getCore (sv_db S) (K_Partner (cx_tenantId cx) (de_partnerId dest)))) (\<lambda>partner.
          bindM (mapM as_transformation (getCore (sv_db S) (K_Transformation (cx_tenantId cx) (de_transformationId dest)
              (de_activeTransformationVersion dest)))) (\<lambda>transformation. returnM (Some (dest, partner, transformation))))) g)
      (\<lambda>_. since s0) (since s0)"
    by (cases destination) (auto simp: op_bind_assoc op_bind_return intro!: plain_read_then assms)
qed

lemma replay_keeps: "hoare view (since s0) (replay S cx q) (\<lambda>_. since s0) (since s0)"
proof -
  let ?g = "\<lambda>original event. bindM (replayConfiguration S cx original) (replayChosen S cx q original event)"
  have none: "hoare view (since s0) (?g original None) (\<lambda>_. since s0) (since s0)" for original
    by (rule configuration_then) (auto simp: replayChosen_def intro!: hoare_throw)
  have some: "hoare view (\<lambda>u. since s0 u \<and> seen u (K_Event (cx_tenantId cx) e) (It_Event ev)) (?g original (Some ev))
      (\<lambda>_. since s0) (since s0)" for e ev original
    by (auto simp: replayChosen_def intro!: hoare_since_seen configuration_then hoare_throw replayWith_keeps
        split: option.split)
  have "hoare view (since s0) (bindM (getEvent (sv_db S) (cx_tenantId cx) (d_eventId original)) (?g original))
      (\<lambda>_. since s0) (since s0)" for original
    by (rule event_then [OF stable_since _ none some])
  then show ?thesis
    unfolding replay_def by (auto intro!: hoare_bind [OF getDelivery_keeps] hoare_throw split: option.split)
qed

end

text \<open>
  C38. Asking for a replay is safe as a whole, beside any other safe clients: wherever it is refused or fails, the counters
  and the status of every event stay those of its own deliveries, which a replay is never one of.
\<close>

theorem replay_safe:
  assumes "safe_services S view" and "table_inv (view w)"
  shows "safe (view w) (view (snd (replay S cx q w))) \<and> table_inv (view (snd (replay S cx q w)))"
  using assms(2)
  by (rule safe_table.plain_operation_safe [OF safe_services.axioms(1) [OF assms(1)] safe_services.replay_keeps [OF assms(1)]])

section \<open>What a replay needs and leaves\<close>

text \<open>
  \<open>replayed S cx q s u i r\<close>: table \<open>u\<close> comes from \<open>s\<close> by one replay, the delivery \<open>i\<close> with the relation \<open>r\<close>. The original was there and
  eligible, with its event, and the configuration was there and enabled.
\<close>

definition replayable :: "tenant_context \<Rightarrow> replay_request \<Rightarrow> dtable \<Rightarrow> delivery \<Rightarrow> canonical_event \<Rightarrow> destination \<Rightarrow> bool" where
  "replayable cx q s original ev dest \<longleftrightarrow>
     (let t = cx_tenantId cx in
      mayReplay cx
      \<and> (\<exists>e. s (K_Lookup t LK_Delivery (rq_deliveryId q)) = Some (It_Lookup e)
           \<and> s (K_Delivery t e (rq_deliveryId q)) = Some (It_Delivery original))
      \<and> el_eligible (replayEligibility (d_state original) (d_lastFailureCategory original) (rq_correctionConfirmed q))
      \<and> s (K_Event t (d_eventId original)) = Some (It_Event ev)
      \<and> s (K_Destination t (d_destinationId original)) = Some (It_Destination dest) \<and> de_enabled dest
      \<and> (\<exists>partner. s (K_Partner t (de_partnerId dest)) = Some (It_Partner partner) \<and> pa_enabled partner))"

definition replayed :: "tenant_context \<Rightarrow> replay_request \<Rightarrow> dtable \<Rightarrow> dtable \<Rightarrow> string \<Rightarrow> string \<Rightarrow> bool" where
  "replayed cx q s u i r \<longleftrightarrow>
     (\<exists>original ev dest d rel a.
        replayable cx q s original ev dest
        \<and> s (K_Delivery (cx_tenantId cx) (ev_eventId ev) i) = None
        \<and> u (K_Delivery (cx_tenantId cx) (ev_eventId ev) i) = Some (stored_delivery d)
        \<and> d_state d = Scheduled \<and> d_executionType d = REPLAY \<and> d_attemptCount d = 0
        \<and> d_originalDeliveryId d = Some (d_deliveryId original) \<and> d_replayId d = Some r
        \<and> cs_destinationVersion (d_configSnapshot d) = de_version dest
        \<and> u (K_ReplayRelation (cx_tenantId cx) (ev_eventId ev) (d_deliveryId original) r) = Some (stored_relation rel)
        \<and> rr_replayDeliveryId rel = i \<and> rr_requestedBy rel = cx_actorId cx \<and> rr_reason rel = rq_reason q
        \<and> u (K_Audit (cx_tenantId cx) (au_occurredAt a) (au_auditId a)) = Some (stored_audit a)
        \<and> au_actorId a = cx_actorId cx \<and> au_targetId a = d_deliveryId original \<and> au_reason a = Some (rq_reason q)
        \<and> (\<exists>sh n b row. u (K_Outbox sh n b) = Some (It_Outbox row) \<and> oi_unpublished row \<and> ob_kind (oi_record row) = DELIVER
             \<and> pl_deliveryId (ob_payload (oi_record row)) = Some i)
        \<and> (\<forall>k. is_core k \<longrightarrow> k \<noteq> K_Delivery (cx_tenantId cx) (ev_eventId ev) i \<longrightarrow> u k = s k))"

lemma replay_rows:
  fixes S cx q original ev dest tf x r i h b a trace now url
  defines "d \<equiv> replayDelivery S ev dest (routedSnapshot dest tf url) x original r i now"
  defines "inp \<equiv> replayInput S cx q original d r h b a trace now"
  assumes s: "replayable cx q s original ev dest" and ok: "tx_ok (replayTransaction shards inp) s"
  shows "replayed cx q s (tx_apply (replayTransaction shards inp) s) i r"
proof -
  let ?ops = "replayTransaction shards inp" and ?t = "cx_tenantId cx" and ?rel = "replayRelation cx q original d r now"
    and ?a = "replayAudit cx q original d r a now" and ?o = "replayOutbox cx d b trace now"
  have at: "tx_apply ?ops s (op_key op) = run_action (op_action op) (s (op_key op))" if "op \<in> set ?ops" for op
    by (rule tx_apply_at [OF that replay_distinct])
  have "tx_apply ?ops s (K_Delivery ?t (ev_eventId ev) i) = Some (stored_delivery d)"
    using replay_puts(3) [of shards inp s] by (simp add: inp_def d_def)
  moreover have "tx_apply ?ops s (K_ReplayRelation ?t (ev_eventId ev) (d_deliveryId original) r) = Some (stored_relation ?rel)"
    using at [of "put_new (K_ReplayRelation ?t (ev_eventId ev) (d_deliveryId original) r) (stored_relation ?rel)"]
    by (simp add: replayTransaction_def Let_def inp_def replayRelation_def d_def)
  moreover have "tx_apply ?ops s (K_Audit ?t (au_occurredAt ?a) (au_auditId ?a)) = Some (stored_audit ?a)"
    using at [of "auditPut ?a"] by (simp add: replayTransaction_def Let_def inp_def auditPut_def replayAudit_def)
  moreover have "s (K_Delivery ?t (ev_eventId ev) i) = None"
    using tx_ok_core [OF ok] by (simp add: core_replay inp_def d_def)
  moreover have "tx_apply ?ops s k = s k" if "is_core k" "k \<noteq> K_Delivery ?t (ev_eventId ev) i" for k
    using that by (simp add: commit_at core_replay inp_def d_def)
  moreover have "\<exists>sh n b row. tx_apply ?ops s (K_Outbox sh n b) = Some (It_Outbox row) \<and> oi_unpublished row
      \<and> ob_kind (oi_record row) = DELIVER \<and> pl_deliveryId (ob_payload (oi_record row)) = Some i"
  proof -
    have "outboxPut shards ?o \<in> set ?ops" by (simp add: replayTransaction_def Let_def inp_def replayInput_def)
    from at [OF this] have "tx_apply ?ops s (K_Outbox (stableShard b shards) now b)
        = Some (It_Outbox \<lparr>oi_record = ?o, oi_expiresAt = to_epoch (Iso (now + days 7)), oi_unpublished = True,
            oi_lastPublicationFailureAt = None\<rparr>)"
      by (simp add: outboxPut_def replayOutbox_def)
    moreover have "ob_kind ?o = DELIVER" "pl_deliveryId (ob_payload ?o) = Some i"
      by (simp_all add: replayOutbox_def d_def)
    ultimately show ?thesis by fastforce
  qed
  moreover have "d_state d = Scheduled" "d_executionType d = REPLAY" "d_attemptCount d = 0"
      "d_originalDeliveryId d = Some (d_deliveryId original)" "d_replayId d = Some r"
      "cs_destinationVersion (d_configSnapshot d) = de_version dest"
    by (simp_all add: d_def replayDelivery_def routedSnapshot_def)
  moreover have "rr_replayDeliveryId ?rel = i" "rr_requestedBy ?rel = cx_actorId cx" "rr_reason ?rel = rq_reason q"
      "au_actorId ?a = cx_actorId cx" "au_targetId ?a = d_deliveryId original" "au_reason ?a = Some (rq_reason q)"
    by (simp_all add: replayRelation_def replayAudit_def d_def)
  ultimately show ?thesis
    unfolding replayed_def using s by blast
qed

text \<open>What a request leaves that is answered, and one that fails.\<close>

definition replay_left :: "tenant_context \<Rightarrow> replay_request \<Rightarrow> dtable \<Rightarrow> replay_answer \<Rightarrow> dtable \<Rightarrow> bool" where
  "replay_left cx q s a u \<longleftrightarrow> (if ra_previouslyAccepted a then u = s else replayed cx q s u (ra_deliveryId a) (ra_replayId a))"

definition replay_broken :: "tenant_context \<Rightarrow> replay_request \<Rightarrow> dtable \<Rightarrow> dtable \<Rightarrow> bool" where
  "replay_broken cx q s u \<longleftrightarrow> u = s \<or> (\<exists>i r. replayed cx q s u i r)"

lemma as_partner_Some: "as_partner x = Some p \<longleftrightarrow> x = Some (It_Partner p)"
  by (cases x rule: as_partner.cases) simp_all

lemma as_destination_Some: "as_destination x = Some d \<longleftrightarrow> x = Some (It_Destination d)"
  by (cases x rule: as_destination.cases) simp_all

context quiet_services
begin

lemma quiet_read_then:
  assumes "\<And>x now. s k = x \<Longrightarrow> hoare view (\<lambda>u. u = s) (g (f (live_item x now))) Q E" and "E s"
  shows "hoare view (\<lambda>u. u = s) (bindM (mapM f (getCore (sv_db S) k)) g) Q E"
proof (rule quiet_core_then)
  fix x now
  have "hoare view (\<lambda>u. s k = x \<and> u = s) (g (f (live_item x now))) Q E"
    using assms(1) by (rule hoare_conj_pure)
  then show "hoare view (\<lambda>u. u = s \<and> u k = x) (g (f (live_item x now))) Q E"
    by (rule hoare_weaken) auto
qed (simp add: assms(2))

lemma quiet_find_then:
  assumes "\<And>d e. s (K_Lookup t LK_Delivery i) = Some (It_Lookup e) \<Longrightarrow> s (K_Delivery t e i) = Some (It_Delivery d)
      \<Longrightarrow> hoare view (\<lambda>u. u = s) (g (Some d)) Q E"
    and "hoare view (\<lambda>u. u = s) (g None) Q E" and "E s"
  shows "hoare view (\<lambda>u. u = s) (bindM (getDelivery (sv_db S) t i) g) Q E"
  unfolding getDelivery_def op_bind_assoc
proof (rule quiet_read_then)
  fix x now
  assume x: "s (K_Lookup t LK_Delivery i) = x"
  show "hoare view (\<lambda>u. u = s) (bindM (case as_lookup (live_item x now) of None \<Rightarrow> returnM None
      | Some e \<Rightarrow> mapM as_delivery (getCore (sv_db S) (K_Delivery t e i))) g) Q E"
  proof (cases "as_lookup (live_item x now)")
    case None
    with assms(2) show ?thesis by (simp add: op_bind_return)
  next
    case (Some e)
    with x have e: "s (K_Lookup t LK_Delivery i) = Some (It_Lookup e)" by (auto simp: as_lookup_Some live_item_Some)
    have found: "hoare view (\<lambda>u. u = s) (g (as_delivery (live_item y now))) Q E" if "s (K_Delivery t e i) = y" for y now
    proof (cases "as_delivery (live_item y now)")
      case None
      with assms(2) show ?thesis by simp
    next
      case (Some d)
      then have "s (K_Delivery t e i) = Some (It_Delivery d)" using that by (auto simp: as_delivery_Some live_item_Some)
      with assms(1) [OF e] Some show ?thesis by simp
    qed
    show ?thesis
      by (simp add: Some, rule quiet_read_then) (simp_all add: found assms(3))
  qed
qed (rule assms(3))

lemma answer_quiet:
  "hoare view (\<lambda>u. u = s) (answerReplay (sv_db S) inp guard) (\<lambda>r u. u = s \<and> (\<nexists>d i. r = Replay_Created d i)) (\<lambda>u. u = s)"
  unfolding answerReplay_def
  by (auto intro!: hoare_return quiet_find_then split: option.split)

lemma createReplay_quiet:
  fixes inp s
  defines "committed \<equiv> (\<lambda>u. tx_ok (replayTransaction (sv_shards S) inp) s \<and> u = tx_apply (replayTransaction (sv_shards S) inp) s)"
  shows "hoare view (\<lambda>u. u = s) (createReplay (sv_db S) (sv_shards S) inp)
    (\<lambda>r u. case r of Replay_Created d i \<Rightarrow> d = ry_delivery inp \<and> i = rr_replayId (ry_relation inp) \<and> committed u | _ \<Rightarrow> u = s)
    (\<lambda>u. u = s \<or> committed u)"
proof -
  let ?Q = "\<lambda>r u. case r of Replay_Created d i \<Rightarrow> d = ry_delivery inp \<and> i = rr_replayId (ry_relation inp) \<and> committed u | _ \<Rightarrow> u = s"
  have answer: "hoare view (\<lambda>u. u = s) (answerReplay (sv_db S) inp guard) ?Q (\<lambda>u. u = s \<or> committed u)" for guard
    by (rule hoare_weaken [OF answer_quiet]) (auto split: replay_result.split)
  have wrote: "hoare view (\<lambda>u. u = s) (db_write (sv_db S) (replayTransaction (sv_shards S) inp))
      (\<lambda>ok u. if ok then committed u else u = s) (\<lambda>u. u = s \<or> committed u)"
    by (rule quiet_write) (auto simp: committed_def)
  have fresh: "hoare view (\<lambda>u. u = s) (bindM (db_write (sv_db S) (replayTransaction (sv_shards S) inp)) (\<lambda>ok.
         if ok then returnM (Replay_Created (ry_delivery inp) (rr_replayId (ry_relation inp)))
         else bindM (mapM as_replay_guard (getCore (sv_db S) (replayGuardKey inp))) (answerReplay (sv_db S) inp)))
      ?Q (\<lambda>u. u = s \<or> committed u)"
  proof (rule hoare_bind [OF wrote])
    show "hoare view (\<lambda>u. if ok then committed u else u = s) (if ok
        then returnM (Replay_Created (ry_delivery inp) (rr_replayId (ry_relation inp)))
        else bindM (mapM as_replay_guard (getCore (sv_db S) (replayGuardKey inp))) (answerReplay (sv_db S) inp))
      ?Q (\<lambda>u. u = s \<or> committed u)" for ok
      by (cases ok) (auto intro!: hoare_return quiet_read_then answer)
  qed
  have "hoare view (\<lambda>u. u = s) (if g \<noteq> None then answerReplay (sv_db S) inp g
      else bindM (db_write (sv_db S) (replayTransaction (sv_shards S) inp)) (\<lambda>ok.
         if ok then returnM (Replay_Created (ry_delivery inp) (rr_replayId (ry_relation inp)))
         else bindM (mapM as_replay_guard (getCore (sv_db S) (replayGuardKey inp))) (answerReplay (sv_db S) inp)))
      ?Q (\<lambda>u. u = s \<or> committed u)" for g
    using answer [of g] fresh by simp
  then show ?thesis
    unfolding createReplay_def by (intro quiet_read_then) simp_all
qed

lemma replayWith_quiet:
  assumes "replayable cx q s original ev dest"
  shows "hoare view (\<lambda>u. u = s) (replayWith S cx q original ev dest tf) (replay_left cx q s) (replay_broken cx q s)"
proof -
  note rows = replay_rows [OF assms]
  have last: "hoare view (\<lambda>u. u = s) (bindM (createReplay (sv_db S) (sv_shards S) (replayInput S cx q original
      (replayDelivery S ev dest (routedSnapshot dest tf url) x original r i now) r h b a trace now))
      (\<lambda>result. liftM (replayAnswer original result))) (replay_left cx q s) (replay_broken cx q s)"
    for url x r i now h b a trace
  proof (rule hoare_bind)
    show "hoare view (\<lambda>u. u = s) (createReplay (sv_db S) (sv_shards S) (replayInput S cx q original
        (replayDelivery S ev dest (routedSnapshot dest tf url) x original r i now) r h b a trace now))
      (\<lambda>result u. case replayAnswer original result of Inl e \<Rightarrow> u = s | Inr answer \<Rightarrow> replay_left cx q s answer u) (replay_broken cx q s)"
      by (rule hoare_weaken [OF createReplay_quiet])
         (auto simp: replayAnswer_def replayRelation_def replay_left_def replay_broken_def split: replay_result.splits intro: rows)
    show "hoare view (\<lambda>u. case replayAnswer original result of Inl e \<Rightarrow> u = s | Inr answer \<Rightarrow> replay_left cx q s answer u)
        (liftM (replayAnswer original result)) (replay_left cx q s) (replay_broken cx q s)" for result
      by (cases "replayAnswer original result") (simp_all add: hoare_def liftM_def replay_broken_def)
  qed
  have transformed: "hoare view (\<lambda>u. u = s) (catchM (liftM (sv_execute S (tf_definition tf) (event_json (cx_tenantId cx) ev)))
        (\<lambda>_. throwM (Error ''REPLAY_TRANSFORMATION_FAILED''))) (\<lambda>_ u. u = s) (replay_broken cx q s)"
    by (rule hoare_catch [where R = "\<lambda>u. u = s"]) (auto simp: replay_broken_def intro: hoare_lift hoare_throw)
  show ?thesis
    unfolding replayWith_def Let_def
    by (rule hoare_bind [OF transformed]) (auto simp: replay_broken_def [of cx q s s] intro!: readM_quiet_then next_quiet_then hoare_lift_bind last)
qed

lemma configuration_quiet:
  assumes some: "\<And>dest p tf. s (K_Destination (cx_tenantId cx) (d_destinationId original)) = Some (It_Destination dest)
      \<Longrightarrow> (\<And>partner. p = Some partner \<Longrightarrow> s (K_Partner (cx_tenantId cx) (de_partnerId dest)) = Some (It_Partner partner))
      \<Longrightarrow> hoare view (\<lambda>u. u = s) (g (Some (dest, p, tf))) Q E"
    and none: "hoare view (\<lambda>u. u = s) (g None) Q E" and E: "E s"
  shows "hoare view (\<lambda>u. u = s) (bindM (replayConfiguration S cx original) g) Q E"
  unfolding replayConfiguration_def getDestination_def op_bind_assoc
proof (rule quiet_read_then)
  fix x now
  assume x: "s (K_Destination (cx_tenantId cx) (d_destinationId original)) = x"
  show "hoare view (\<lambda>u. u = s) (bindM (case as_destination (live_item x now) of None \<Rightarrow> returnM None
      | Some dest \<Rightarrow> bindM (getPartner (sv_db S) (cx_tenantId cx) (de_partnerId dest)) (\<lambda>partner.
          bindM (getTransformationVersion (sv_db S) (cx_tenantId cx) (de_transformationId dest)
              (de_activeTransformationVersion dest)) (\<lambda>transformation. returnM (Some (dest, partner, transformation))))) g) Q E"
  proof (cases "as_destination (live_item x now)")
    case None
    with none show ?thesis by (simp add: op_bind_return)
  next
    case (Some dest)
    then have dest: "s (K_Destination (cx_tenantId cx) (d_destinationId original)) = Some (It_Destination dest)"
      using x by (auto simp: as_destination_Some live_item_Some)
    have "hoare view (\<lambda>u. u = s) (g (Some (dest, as_partner (live_item y now), tf))) Q E"
      if "s (K_Partner (cx_tenantId cx) (de_partnerId dest)) = y" for y now tf
      using that by (intro some [OF dest]) (auto simp: as_partner_Some live_item_Some)
    then show ?thesis
      by (auto simp: Some getPartner_def getTransformationVersion_def op_bind_assoc op_bind_return intro!: quiet_read_then E)
  qed
qed (rule E)

lemma replay_quiet: "hoare view (\<lambda>u. u = s) (replay S cx q) (replay_left cx q s) (replay_broken cx q s)"
proof -
  have [simp]: "replay_broken cx q s s" by (simp add: replay_broken_def)
  have refuse: "hoare view (\<lambda>u. u = s) (throwM e) (replay_left cx q s) (replay_broken cx q s)" for e
    by (auto intro: hoare_throw)
  have configured: "hoare view (\<lambda>u. u = s) (bindM (replayConfiguration S cx original) (replayChosen S cx q original event))
      (replay_left cx q s) (replay_broken cx q s)"
    if e: "s (K_Lookup (cx_tenantId cx) LK_Delivery (rq_deliveryId q)) = Some (It_Lookup e)"
      and original: "s (K_Delivery (cx_tenantId cx) e (rq_deliveryId q)) = Some (It_Delivery original)"
      and eligible: "mayReplay cx" "el_eligible
         (replayEligibility (d_state original) (d_lastFailureCategory original) (rq_correctionConfirmed q))"
      and event: "\<And>ev. event = Some ev \<Longrightarrow> s (K_Event (cx_tenantId cx) (d_eventId original)) = Some (It_Event ev)"
    for e original event
  proof (rule configuration_quiet)
    fix dest p tf
    assume dest: "s (K_Destination (cx_tenantId cx) (d_destinationId original)) = Some (It_Destination dest)"
      and p: "\<And>partner. p = Some partner \<Longrightarrow> s (K_Partner (cx_tenantId cx) (de_partnerId dest)) = Some (It_Partner partner)"
    have "hoare view (\<lambda>u. u = s) (replayWith S cx q original ev dest tfv) (replay_left cx q s) (replay_broken cx q s)"
      if "event = Some ev" "de_enabled dest" "p = Some partner" "pa_enabled partner" for ev partner tfv
      by (rule replayWith_quiet)
         (use that e original eligible event [OF that(1)] dest p [OF that(3)] in \<open>auto simp: replayable_def\<close>)
    then show "hoare view (\<lambda>u. u = s) (replayChosen S cx q original event (Some (dest, p, tf)))
        (replay_left cx q s) (replay_broken cx q s)"
      by (auto simp: replayChosen_def refuse split: option.split)
  qed (auto simp: replayChosen_def refuse split: option.split)
  have event: "hoare view (\<lambda>u. u = s) (bindM (getEvent (sv_db S) (cx_tenantId cx) (d_eventId original)) (\<lambda>event.
      bindM (replayConfiguration S cx original) (replayChosen S cx q original event))) (replay_left cx q s) (replay_broken cx q s)"
    if "s (K_Lookup (cx_tenantId cx) LK_Delivery (rq_deliveryId q)) = Some (It_Lookup e)"
      "s (K_Delivery (cx_tenantId cx) e (rq_deliveryId q)) = Some (It_Delivery original)" "mayReplay cx" "el_eligible
         (replayEligibility (d_state original) (d_lastFailureCategory original) (rq_correctionConfirmed q))"
    for e original
    unfolding getEvent_def
    by (rule quiet_read_then, rule configured [OF that]) (auto simp: as_event_Some live_item_Some)
  show ?thesis
    unfolding replay_def by (auto intro!: quiet_find_then event refuse)
qed

end

text \<open>
  C39. What a replay needs and what it leaves. Only an administrator or operator is answered, and only for a delivery that is
  there and ended in a way that may be replayed, with the correction confirmed where one is needed, and whose event, destination
  and partner are there and enabled. A new replay is then a delivery of its own in the scheduled state, with no attempts and
  the present version of the destination; the relation that links it to the original, an audit row of the actor with the
  reason, and an unpublished message for the delivery queue are all there. Nothing else changes among the events and
  deliveries, the original included; a repeated request changes nothing at all, and one that fails leaves either nothing or all of it.
\<close>

theorem replay_leaves_trail:
  assumes "quiet_services S view" and "replay S cx q w = (r, w1)"
  shows "case r of Inr a \<Rightarrow> replay_left cx q (view w) a (view w1) | Inl e \<Rightarrow> replay_broken cx q (view w) (view w1)"
  by (rule hoareD [OF quiet_services.replay_quiet [OF assms(1)] refl assms(2)])

text \<open>An operator at the console, and a delivery that its partner refused.\<close>

definition replay_original :: delivery where
  "replay_original = sample_delivery\<lparr>d_deliveryId := ''dlv_0'', d_state := Failed_Terminal, d_attemptCount := 1,
     d_lastFailureCategory := Some PARTNER_4XX, d_terminalAt := Some 1500\<rparr>"

definition replay_table :: dtable where
  "replay_table = routing_table(K_Lookup ''t1'' LK_Delivery ''dlv_0'' \<mapsto> It_Lookup ''evt_1'',
     K_Delivery ''t1'' ''evt_1'' ''dlv_0'' \<mapsto> It_Delivery replay_original)"

definition replay_context :: tenant_context where
  "replay_context = \<lparr>cx_tenantId = ''t1'', cx_actorType = Console_User, cx_actorId = ''usr_1'', cx_role = Some Operator,
     cx_requestId = ''req_9'', cx_correlationId = ''cor_9''\<rparr>"

definition sample_request :: replay_request where
  "sample_request = \<lparr>rq_deliveryId = ''dlv_0'', rq_idempotencyKey = ''k1'', rq_reason = ''fixed'', rq_correctionConfirmed = True\<rparr>"

lemma replay_safe_witness:
  "table_inv (mem_table (snd (replay (sample_services (mem_db [] safe)) replay_context sample_request (sample_world (sample_table sample_delivery)))))"
  using replay_safe [OF mem_safe_services.safe_services_axioms, where w = "sample_world (sample_table sample_delivery)"]
    sample_inv(1) by simp

lemma replay_core_read:
  "mapM f (getCore (mem_db ks rely) k) (sample_world s) = (Inr (f (live_item (s k) 2000)), sample_world s)"
  by (simp add: mapM_def getCore_def bindM_def returnM_def withNow_def mem_db_def mem_get_def interfere_def sample_world_def live_item_def
      split: option.split)

lemma replay_sample:
  "fst (replay (sample_services (mem_db [] (=))) replay_context sample_request (sample_world replay_table)) =
     Inr \<lparr>ra_replayId = ''rpl_1'', ra_deliveryId = ''dlv_1'', ra_originalDeliveryId = ''dlv_0'', ra_state = ''scheduled'',
       ra_previouslyAccepted = False\<rparr>"
proof -
  let ?w = "sample_world replay_table" and ?S = "sample_services (mem_db [] (=))"
  have rows: "getDelivery (mem_db [] (=)) ''t1'' ''dlv_0'' ?w = (Inr (Some replay_original), ?w)"
      "getEvent (mem_db [] (=)) ''t1'' ''evt_1'' ?w = (Inr (Some unrouted_event), ?w)"
      "getDestination (mem_db [] (=)) ''t1'' ''dst_1'' ?w = (Inr (Some sample_destination), ?w)"
      "getPartner (mem_db [] (=)) ''t1'' ''ptr_1'' ?w = (Inr (Some sample_partner), ?w)"
      "getTransformationVersion (mem_db [] (=)) ''t1'' ''trf_1'' 1 ?w = (Inr (Some sample_transformation), ?w)"
    by (simp_all add: getDelivery_def getEvent_def getDestination_def getPartner_def getTransformationVersion_def bindM_def
        replay_core_read replay_table_def live_item_def isExpired_def replay_original_def sample_delivery_def)
  have created: "fst (createReplay (mem_db [] (=)) 4 (replayInput ?S replay_context sample_request replay_original
      (replayDelivery ?S unrouted_event sample_destination snapshot x replay_original ''rpl_1'' ''dlv_1'' 2000) ''rpl_1'' ''req_1''
      ''obx_1'' ''aud_1'' None 2000) ?w) = Inr (Replay_Created (replayDelivery ?S unrouted_event sample_destination snapshot x
        replay_original ''rpl_1'' ''dlv_1'' 2000) ''rpl_1'')" for snapshot x
  proof -
    let ?inp = "replayInput ?S replay_context sample_request replay_original
      (replayDelivery ?S unrouted_event sample_destination snapshot x replay_original ''rpl_1'' ''dlv_1'' 2000) ''rpl_1'' ''req_1''
      ''obx_1'' ''aud_1'' None 2000"
    have none: "as_replay_guard (live_item (mem_table ?w (replayGuardKey ?inp)) (db_now (mem_db [] (=)) ?w)) = None"
      by (simp add: replay_table_def replayGuardKey_def routing_table_def live_item_def)
    have "tx_conditions (replayTransaction 4 ?inp) (mem_table ?w)"
      by (simp add: tx_conditions_def list_all_iff replayTransaction_def Let_def replay_table_def replayGuardKey_def
          outboxPut_def auditPut_def indexPutsNew_def deliveryIndexKey_def replayRelation_def replayHistory_def replayInput_def
          routing_table_def)
    with mem_alone.createReplay_run(2) [OF none, where shards = 4] show ?thesis
      by (simp add: yields_fst replayRelation_def)
  qed
  have may: "mayReplay replay_context" by (simp add: mayReplay_def replay_context_def)
  have ids: "cx_tenantId replay_context = ''t1''" "rq_deliveryId sample_request = ''dlv_0''" "rq_correctionConfirmed sample_request"
      "d_eventId replay_original = ''evt_1''" "d_destinationId replay_original = ''dst_1''" "d_deliveryId replay_original = ''dlv_0''"
      "d_state replay_original = Failed_Terminal" "d_lastFailureCategory replay_original = Some PARTNER_4XX"
      "de_partnerId sample_destination = ''ptr_1''" "de_transformationId sample_destination = ''trf_1''"
      "de_activeTransformationVersion sample_destination = 1" "de_enabled sample_destination" "pa_enabled sample_partner"
      "mem_clock ?w = 2000"
    by (simp_all add: replay_context_def sample_request_def replay_original_def sample_delivery_def sample_destination_def
        sample_partner_def sample_world_def)
  have services: "sv_db ?S = mem_db [] (=)" "sv_shards ?S = 4" "sv_next ?S p = returnM (p @ ''_1'')" "sv_now ?S = mem_clock"
      "sv_traceparent ?S = (\<lambda>_. None)" "sv_url ?S a b = Inr (b @ a)" "sv_execute ?S j k = Inr (j, ''h'')" for p a b j k
    by (simp_all add: sample_services_def)
  let ?made = "\<lambda>snapshot x. createReplay (mem_db [] (=)) 4 (replayInput ?S replay_context sample_request replay_original
      (replayDelivery ?S unrouted_event sample_destination snapshot x replay_original ''rpl_1'' ''dlv_1'' 2000) ''rpl_1'' ''req_1''
      ''obx_1'' ''aud_1'' None 2000) ?w"
  obtain w1 where w1: "?made snapshot x = (Inr (Replay_Created (replayDelivery ?S unrouted_event sample_destination snapshot x
      replay_original ''rpl_1'' ''dlv_1'' 2000) ''rpl_1''), w1 snapshot x)" for snapshot x
    using that [of "\<lambda>snapshot x. snd (?made snapshot x)"] created by (simp add: prod_eq_iff)
  show ?thesis
    by (simp add: replay_def may ids rows services replayEligibility_def replayableTerminalCategories_def bindM_def
        replayConfiguration_def replayChosen_def replayWith_def returnM_def readM_def liftM_def catchM_def Let_def w1 replayAnswer_def)
qed

lemma replay_leaves_trail_witness:
  "\<exists>w1. replay (sample_services (mem_db [] (=))) replay_context sample_request (sample_world replay_table) =
       (Inr \<lparr>ra_replayId = ''rpl_1'', ra_deliveryId = ''dlv_1'', ra_originalDeliveryId = ''dlv_0'', ra_state = ''scheduled'',
          ra_previouslyAccepted = False\<rparr>, w1)
     \<and> replayed replay_context sample_request replay_table (mem_table w1) ''dlv_1'' ''rpl_1''"
proof -
  let ?S = "sample_services (mem_db [] (=))" and ?w = "sample_world replay_table"
  obtain w1 where w1: "replay ?S replay_context sample_request ?w =
       (Inr \<lparr>ra_replayId = ''rpl_1'', ra_deliveryId = ''dlv_1'', ra_originalDeliveryId = ''dlv_0'', ra_state = ''scheduled'',
          ra_previouslyAccepted = False\<rparr>, w1)"
    using replay_sample by (cases "replay ?S replay_context sample_request ?w") simp
  from replay_leaves_trail [OF mem_services.quiet_services_axioms w1]
  have "replayed replay_context sample_request replay_table (mem_table w1) ''dlv_1'' ''rpl_1''"
    by (simp add: replay_left_def sample_world_def)
  with w1 show ?thesis by blast
qed

end
