(* ===== verification/Row_Keys.thy ===== *)
theory Row_Keys
  imports Dynamo Iso_Time Js_Text
begin

text \<open>
  \<open>packages/persistence/src/keys.ts\<close>: the attributes \<open>PK\<close> and \<open>SK\<close> under which the table stores a row. The other theories name a row by
  its \<open>dkey\<close>; here it is shown that this is the same: the attributes of two rows are equal only for equal keys.
\<close>

section \<open>The text of a key\<close>

text \<open>The parts of a template, with a number sign between each two.\<close>

fun sharp :: "string list \<Rightarrow> string" where
  "sharp [] = []"
| "sharp [x] = x"
| "sharp (x # xs) = x @ CHR ''#'' # sharp xs"

definition padStart :: "nat \<Rightarrow> char \<Rightarrow> string \<Rightarrow> string" where
  "padStart n c s = replicate (n - length s) c @ s"

text \<open>An hour of a rollup: the first thirteen characters of its time, without the separators.\<close>

definition hourText :: "int \<Rightarrow> string" where
  "hourText hour = filter (\<lambda>c. c \<notin> {CHR ''-'', CHR '':'', CHR ''T''}) (take 13 (isoString (hour * 3600000)))"

fun runtimeText :: "runtime_name \<Rightarrow> string" where
  "runtimeText RT_Rate_Limit = ''RATE_LIMIT''"
| "runtimeText RT_Circuit = ''CIRCUIT''"

fun resourceText :: "resource_type \<Rightarrow> string" where
  "resourceText RES_Partner = ''PARTNER''"
| "resourceText RES_Destination = ''DESTINATION''"
| "resourceText RES_Transformation = ''TRANSFORMATION''"
| "resourceText RES_Subscription = ''SUBSCRIPTION''"

fun lookupText :: "lookup_kind \<Rightarrow> string" where
  "lookupText LK_Event = ''EVENT''"
| "lookupText LK_Delivery = ''DELIVERY''"
| "lookupText LK_Correlation = ''CORRELATION''"

text \<open>The number of an attempt or a version; they count from one.\<close>

definition countText :: "int \<Rightarrow> string" where
  "countText n = padStart 8 CHR ''0'' (js_int n)"

text \<open>\<open>hash\<close> is the hexadecimal SHA-256.\<close>

fun partitionKey :: "(string \<Rightarrow> string) \<Rightarrow> dkey \<Rightarrow> string" where
  "partitionKey hash (K_Tenant t) = sharp [''TENANT'', t]"
| "partitionKey hash (K_Identity issuer subject) = sharp [''IDENTITY'', hash issuer, subject]"
| "partitionKey hash (K_ApiClient t c) = sharp [''TENANT'', t]"
| "partitionKey hash (K_ApiClientLocator c) = sharp [''API_CLIENT'', c]"
| "partitionKey hash (K_Partner t p) = sharp [''TENANT'', t]"
| "partitionKey hash (K_Destination t d) = sharp [''TENANT'', t]"
| "partitionKey hash (K_Runtime t d n) = sharp [''TENANT'', t, ''DESTINATION'', d]"
| "partitionKey hash (K_Transformation t i v) = sharp [''TENANT'', t, ''TRANSFORMATION'', i]"
| "partitionKey hash (K_Subscription t e d) = sharp [''TENANT'', t, ''EVENT_TYPE'', e]"
| "partitionKey hash (K_SubscriptionCatalog t s) = sharp [''TENANT'', t]"
| "partitionKey hash (K_ExternalKey t r x) = sharp [''TENANT'', t, ''EXTERNAL'', resourceText r]"
| "partitionKey hash (K_Event t e) = sharp [''TENANT'', t, ''EVENT'', e]"
| "partitionKey hash (K_Delivery t e d) = sharp [''TENANT'', t, ''EVENT'', e]"
| "partitionKey hash (K_Attempt t e d n) = sharp [''TENANT'', t, ''EVENT'', e]"
| "partitionKey hash (K_History t e d at_ms h) = sharp [''TENANT'', t, ''EVENT'', e]"
| "partitionKey hash (K_Lookup t k i) = sharp [''TENANT'', t, ''LOOKUP'']"
| "partitionKey hash (K_Idempotency t c h) = sharp [''TENANT'', t, ''IDEMPOTENCY'', c]"
| "partitionKey hash (K_ReplayIdempotency t h) = sharp [''TENANT'', t, ''REPLAY_IDEMPOTENCY'']"
| "partitionKey hash (K_Nonce t c h) = sharp [''TENANT'', t, ''NONCE'', c]"
| "partitionKey hash (K_EventIndex t c at_ms e) = sharp [''TENANT'', t, ''EVENT_INDEX'', c]"
| "partitionKey hash (K_DeliveryIndex t c at_ms d) = sharp [''TENANT'', t, ''DELIVERY_INDEX'', c]"
| "partitionKey hash (K_ReplayRelation t e d r) = sharp [''TENANT'', t, ''EVENT'', e]"
| "partitionKey hash (K_Rollup t h n) = (case n of
       None \<Rightarrow> sharp [''TENANT'', t, ''ROLLUP'', ''HOUR'', hourText h]
     | Some shard \<Rightarrow> sharp [''TENANT'', t, ''ROLLUP'', ''HOUR'', hourText h, ''SHARD'', js_int (int shard)])"
| "partitionKey hash (K_DestinationRollup t h d) = sharp [''TENANT'', t, ''ROLLUP'', ''HOUR'', hourText h]"
| "partitionKey hash (K_Outbox n at_ms o') = sharp [''OUTBOX'', js_int (int n)]"
| "partitionKey hash (K_ScheduledWork n at_ms w) = sharp [''SCHEDULED_WORK'', js_int (int n)]"
| "partitionKey hash (K_Audit t at_ms a) = sharp [''TENANT'', t]"
| "partitionKey hash (K_Secret t n v) = sharp [''TENANT'', t, ''SECRET'']"

fun sortKey :: "dkey \<Rightarrow> string" where
  "sortKey (K_Tenant t) = ''META''"
| "sortKey (K_Identity issuer subject) = ''META''"
| "sortKey (K_ApiClient t c) = sharp [''API_CLIENT'', c]"
| "sortKey (K_ApiClientLocator c) = ''LOCATOR''"
| "sortKey (K_Partner t p) = sharp [''PARTNER'', p]"
| "sortKey (K_Destination t d) = sharp [''DESTINATION'', d]"
| "sortKey (K_Runtime t d n) = sharp [''RUNTIME'', runtimeText n]"
| "sortKey (K_Transformation t i v) = sharp [''VERSION'', countText v]"
| "sortKey (K_Subscription t e d) = sharp [''DESTINATION'', d]"
| "sortKey (K_SubscriptionCatalog t s) = sharp [''SUBSCRIPTION'', s]"
| "sortKey (K_ExternalKey t r x) = sharp [''KEY'', x]"
| "sortKey (K_Event t e) = ''META''"
| "sortKey (K_Delivery t e d) = sharp [''DELIVERY'', d]"
| "sortKey (K_Attempt t e d n) = sharp [''DELIVERY'', d, ''ATTEMPT'', countText n]"
| "sortKey (K_History t e d at_ms h) = sharp [''DELIVERY'', d, ''HISTORY'', isoString at_ms, h]"
| "sortKey (K_Lookup t k i) = sharp [lookupText k, i]"
| "sortKey (K_Idempotency t c h) = sharp [''KEY'', h]"
| "sortKey (K_ReplayIdempotency t h) = sharp [''KEY'', h]"
| "sortKey (K_Nonce t c h) = sharp [''NONCE'', h]"
| "sortKey (K_EventIndex t c at_ms e) = sharp [isoString at_ms, ''EVENT'', e]"
| "sortKey (K_DeliveryIndex t c at_ms d) = sharp [isoString at_ms, ''DELIVERY'', d]"
| "sortKey (K_ReplayRelation t e d r) = sharp [''DELIVERY'', d, ''REPLAY'', r]"
| "sortKey (K_Rollup t h n) = (if n = None then ''DESTINATION'' else ''SYSTEM'')"
| "sortKey (K_DestinationRollup t h d) = sharp [''DESTINATION'', d]"
| "sortKey (K_Outbox n at_ms o') = sharp [isoString at_ms, o']"
| "sortKey (K_ScheduledWork n at_ms w) = sharp [isoString at_ms, w]"
| "sortKey (K_Audit t at_ms a) = sharp [isoString at_ms, ''AUDIT'', a]"
| "sortKey (K_Secret t n v) = sharp [''SECRET'', n, ''VERSION'', v]"

text \<open>The audit log is a table of its own.\<close>

fun in_audit_table :: "dkey \<Rightarrow> bool" where
  "in_audit_table (K_Audit t at_ms a) = True"
| "in_audit_table _ = False"

definition rowKey :: "(string \<Rightarrow> string) \<Rightarrow> dkey \<Rightarrow> bool \<times> string \<times> string" where
  "rowKey hash k = (in_audit_table k, partitionKey hash k, sortKey k)"

section \<open>Keys that can be told apart\<close>

text \<open>
  The schemas of identifiers admit no number sign; a part that stands last may hold one (external keys, event types, categories and
  subjects do). Times are of the years with four digits.
\<close>

definition plain :: "string \<Rightarrow> bool" where
  "plain x \<longleftrightarrow> CHR ''#'' \<notin> set x"

definition common_era :: "instant \<Rightarrow> bool" where
  "common_era t \<longleftrightarrow> 0 \<le> yearFromDay (t div 86400000) \<and> yearFromDay (t div 86400000) \<le> 9999"

fun tellable :: "dkey \<Rightarrow> bool" where
  "tellable (K_Tenant t) = plain t"
| "tellable (K_Identity issuer subject) = True"
| "tellable (K_ApiClient t c) = plain t"
| "tellable (K_ApiClientLocator c) = True"
| "tellable (K_Partner t p) = plain t"
| "tellable (K_Destination t d) = plain t"
| "tellable (K_Runtime t d n) = plain t"
| "tellable (K_Transformation t i v) = (plain t \<and> 0 \<le> v)"
| "tellable (K_Subscription t e d) = plain t"
| "tellable (K_SubscriptionCatalog t s) = plain t"
| "tellable (K_ExternalKey t r x) = plain t"
| "tellable (K_Event t e) = plain t"
| "tellable (K_Delivery t e d) = (plain t \<and> plain d)"
| "tellable (K_Attempt t e d n) = (plain t \<and> plain d \<and> 0 \<le> n)"
| "tellable (K_History t e d at_ms h) = (plain t \<and> plain d \<and> common_era at_ms)"
| "tellable (K_Lookup t k i) = plain t"
| "tellable (K_Idempotency t c h) = plain t"
| "tellable (K_ReplayIdempotency t h) = plain t"
| "tellable (K_Nonce t c h) = plain t"
| "tellable (K_EventIndex t c at_ms e) = (plain t \<and> common_era at_ms)"
| "tellable (K_DeliveryIndex t c at_ms d) = (plain t \<and> common_era at_ms)"
| "tellable (K_ReplayRelation t e d r) = (plain t \<and> plain d)"
| "tellable (K_Rollup t h n) = (plain t \<and> common_era (h * 3600000))"
| "tellable (K_DestinationRollup t h d) = (plain t \<and> common_era (h * 3600000))"
| "tellable (K_Outbox n at_ms o') = common_era at_ms"
| "tellable (K_ScheduledWork n at_ms w) = common_era at_ms"
| "tellable (K_Audit t at_ms a) = (plain t \<and> common_era at_ms)"
| "tellable (K_Secret t n v) = (plain t \<and> plain n)"

lemma plain_split [simp]: "plain x \<Longrightarrow> plain y \<Longrightarrow> (x @ CHR ''#'' # r = y @ CHR ''#'' # s) = (x = y \<and> r = s)"
proof -
  assume x: "plain x" and y: "plain y"
  have "takeWhile (\<lambda>c. c \<noteq> CHR ''#'') (z @ CHR ''#'' # u) = z" if "plain z" for z u
    using that by (simp add: plain_def takeWhile_append)
  then show ?thesis using x y by (metis append_same_eq same_append_eq list.inject)
qed

lemma plain_whole [simp]: "plain x \<Longrightarrow> x \<noteq> y @ CHR ''#'' # r" "plain x \<Longrightarrow> y @ CHR ''#'' # r \<noteq> x"
  by (auto simp: plain_def)

lemma plain_Cons [simp]: "plain [] = True" "plain (c # x) = (c \<noteq> CHR ''#'' \<and> plain x)" "plain (x @ y) = (plain x \<and> plain y)"
  by (auto simp: plain_def)

text \<open>Numbers.\<close>

lemma decimal_zeros: "decimal_value (replicate k CHR ''0'' @ s) = decimal_value s"
proof -
  have "foldl (\<lambda>n c. 10 * n + (of_char c - 48)) 0 (replicate k CHR ''0'') = (0::nat)" by (induction k) simp_all
  then show ?thesis by (simp add: decimal_value_def)
qed

lemma js_int_nat [simp]: "0 \<le> n \<Longrightarrow> js_int n = digits (nat n)"
  by (simp add: js_int_def)

lemma plain_digits [simp]: "plain (digits n)"
  using digits_only [of "CHR ''#''" n] by (auto simp: plain_def)

lemma digits_eq [simp]: "digits m = digits n \<longleftrightarrow> m = n"
  by (metis decimal_digits)

lemma countText_plain [simp]: "0 \<le> n \<Longrightarrow> plain (countText n)"
  by (simp add: countText_def padStart_def) (simp add: plain_def)

lemma countText_eq [simp]: "0 \<le> m \<Longrightarrow> 0 \<le> n \<Longrightarrow> countText m = countText n \<longleftrightarrow> m = n"
  unfolding countText_def padStart_def by (metis decimal_digits decimal_zeros js_int_nat nat_eq_iff2)

text \<open>Times.\<close>

lemma padded_chars: "c \<in> set (padded k n) \<Longrightarrow> 48 \<le> (of_char c :: nat) \<and> (of_char c :: nat) < 58"
  by (induction k arbitrary: n) auto

lemma plain_padded [simp]: "plain (padded k n)"
  using padded_chars [of "CHR ''#''" k n] by (auto simp: plain_def)

lemma plain_iso [simp]: "plain (isoString t)"
  by (simp add: isoString_def isoDate_def isoClock_def yearText_def Let_def)

lemma iso_eq [simp]: "common_era a \<Longrightarrow> common_era b \<Longrightarrow> isoString a = isoString b \<longleftrightarrow> a = b"
  using isoString_mono [of a b] isoString_mono [of b a] unfolding common_era_def
  by (cases a b rule: linorder_cases) auto

lemma zeros: "padded 2 0 = ''00''" "padded 3 0 = ''000''"
  by code_simp+

lemma whole_hours: "(q * 3600000) div 60000 mod 60 = (0::int)" "(q * 3600000) div 1000 mod 60 = (0::int)" "(q * 3600000) mod 1000 = (0::int)"
proof -
  have "(q * 3600000) div 60000 = (q * 60 * 60000) div 60000" by simp
  also have "\<dots> = q * 60" by (rule nonzero_mult_div_cancel_right) simp
  finally show "(q * 3600000) div 60000 mod 60 = (0::int)" by simp
  have "(q * 3600000) div 1000 = (q * 3600 * 1000) div 1000" by simp
  also have "\<dots> = q * 60 * 60" by (subst nonzero_mult_div_cancel_right) simp_all
  finally show "(q * 3600000) div 1000 mod 60 = (0::int)" by simp
  have "(q * 3600000) mod 1000 = (q * 3600 * 1000) mod 1000" by simp
  also have "\<dots> = 0" by (rule mod_mult_self2_is_0)
  finally show "(q * 3600000) mod 1000 = (0::int)" .
qed

lemma hour_clock: "isoClock (h * 3600000 mod 86400000) = padded 2 (nat (h mod 24)) @ '':00:00.000Z''"
proof -
  have "(h mod 24) * 3600000 = (h * 3600000) mod (24 * 3600000)" by (rule mult_mod_left)
  then have hours: "h * 3600000 mod 86400000 = (h mod 24) * 3600000" by simp
  have "(h mod 24) * 3600000 div 3600000 = h mod 24" by (rule nonzero_mult_div_cancel_right) simp
  then show ?thesis unfolding isoClock_def hours whole_hours by (simp add: zeros)
qed

lemma hour_parts:
  fixes h
  defines "day \<equiv> h * 3600000 div 86400000"
  defines "y \<equiv> yearFromDay day" and "doy \<equiv> day - dayFromYear (yearFromDay day)"
  assumes "common_era (h * 3600000)"
  shows "isoString (h * 3600000) = padded 4 (nat y) @ ''-'' @ padded 2 (nat (monthOf y doy)) @ ''-'' @ padded 2 (nat (dateOf y doy))
      @ ''T'' @ padded 2 (nat (h mod 24)) @ '':00:00.000Z''"
    and "hourText h = padded 4 (nat y) @ padded 2 (nat (monthOf y doy)) @ padded 2 (nat (dateOf y doy)) @ padded 2 (nat (h mod 24))"
proof -
  show iso: "isoString (h * 3600000) = padded 4 (nat y) @ ''-'' @ padded 2 (nat (monthOf y doy)) @ ''-'' @ padded 2 (nat (dateOf y doy))
      @ ''T'' @ padded 2 (nat (h mod 24)) @ '':00:00.000Z''"
    using assms(4) unfolding isoString_def hour_clock by (simp add: isoDate_def Let_def yearText_def common_era_def y_def doy_def day_def)
  have keep: "filter (\<lambda>c. c \<notin> {CHR ''-'', CHR '':'', CHR ''T''}) (padded k n) = padded k n" for k n
    using padded_chars [of "CHR ''-''" k n] padded_chars [of "CHR '':''" k n] padded_chars [of "CHR ''T''" k n]
    by (intro filter_True) auto
  show "hourText h = padded 4 (nat y) @ padded 2 (nat (monthOf y doy)) @ padded 2 (nat (dateOf y doy)) @ padded 2 (nat (h mod 24))"
    unfolding hourText_def iso using keep by simp
qed

lemma hour_plain [simp]: "common_era (h * 3600000) \<Longrightarrow> plain (hourText h)"
  by (simp add: hour_parts)

lemma hour_eq [simp]:
  assumes "common_era (g * 3600000)" "common_era (h * 3600000)"
  shows "hourText g = hourText h \<longleftrightarrow> g = h"
proof
  assume "hourText g = hourText h"
  then have "isoString (g * 3600000) = isoString (h * 3600000)"
    unfolding hour_parts [OF assms(1)] hour_parts [OF assms(2)] by (auto simp only: append_eq_append_conv length_padded simp_thms)
  then show "g = h" using assms by simp
qed simp

text \<open>The rest.\<close>

lemma tag_texts [simp]:
  "plain (runtimeText n)" "plain (resourceText r)" "plain (lookupText k)"
  "runtimeText n = runtimeText n' \<longleftrightarrow> n = n'" "resourceText r = resourceText r' \<longleftrightarrow> r = r'" "lookupText k = lookupText k' \<longleftrightarrow> k = k'"
proof -
  show "plain (runtimeText n)" "plain (resourceText r)" "plain (lookupText k)" by (cases n, simp_all) (cases r, simp_all, cases k, simp_all)
  show "runtimeText n = runtimeText n' \<longleftrightarrow> n = n'" by (cases n; cases n') simp_all
  show "resourceText r = resourceText r' \<longleftrightarrow> r = r'" by (cases r; cases r') simp_all
  show "lookupText k = lookupText k' \<longleftrightarrow> k = k'" by (cases k; cases k') simp_all
qed

section \<open>A row is its key\<close>

text \<open>No two issuers of the keys have one hash.\<close>

definition issuers_apart :: "(string \<Rightarrow> string) \<Rightarrow> dkey \<Rightarrow> dkey \<Rightarrow> bool" where
  "issuers_apart hash k k' = (case k of
       K_Identity i s \<Rightarrow> (case k' of K_Identity j u \<Rightarrow> hash i = hash j \<longrightarrow> i = j | _ \<Rightarrow> True)
     | _ \<Rightarrow> True)"

text \<open>
  C40. The attributes of a row say which row it is: when identifiers hold no number sign, numbers are not negative and times are of
  the years 0000 to 9999, two keys with the same table, \<open>PK\<close> and \<open>SK\<close> are equal. So the rows of two tenants, of an event and
  of its deliveries, of two attempts never overwrite each other. The issuers of identities are told apart as far as their hashes are.
\<close>

theorem rows_are_told_apart:
  assumes "tellable k" "tellable k'" and "rowKey hash k = rowKey hash k'" and "\<And>i. plain (hash i)"
    and "issuers_apart hash k k'"
  shows "k = k'"
  using assms(1-3,5)
  by (cases k; cases k') (auto simp: rowKey_def issuers_apart_def assms(4) split: option.splits)

text \<open>The eleventh attempt of a delivery is none of the first; another tenant's delivery is another row.\<close>

lemma rows_are_told_apart_witness:
  "rowKey (\<lambda>s. ''00'') (K_Attempt ''t1'' ''evt_1'' ''dlv_1'' 11) = (False, ''TENANT#t1#EVENT#evt_1'', ''DELIVERY#dlv_1#ATTEMPT#00000011'')
   \<and> rowKey (\<lambda>s. ''00'') (K_Attempt ''t1'' ''evt_1'' ''dlv_1'' 11) \<noteq> rowKey (\<lambda>s. ''00'') (K_Attempt ''t1'' ''evt_1'' ''dlv_1'' 1)
   \<and> rowKey (\<lambda>s. ''00'') (K_Delivery ''t1'' ''evt_1'' ''dlv_1'') \<noteq> rowKey (\<lambda>s. ''00'') (K_Delivery ''t2'' ''evt_1'' ''dlv_1'')"
proof (intro conjI notI)
  show "rowKey (\<lambda>s. ''00'') (K_Attempt ''t1'' ''evt_1'' ''dlv_1'' 11)
      = (False, ''TENANT#t1#EVENT#evt_1'', ''DELIVERY#dlv_1#ATTEMPT#00000011'')"
    by code_simp
  assume "rowKey (\<lambda>s. ''00'') (K_Attempt ''t1'' ''evt_1'' ''dlv_1'' 11) = rowKey (\<lambda>s. ''00'') (K_Attempt ''t1'' ''evt_1'' ''dlv_1'' 1)"
  from rows_are_told_apart [OF _ _ this] show False by (simp add: issuers_apart_def)
next
  assume "rowKey (\<lambda>s. ''00'') (K_Delivery ''t1'' ''evt_1'' ''dlv_1'') = rowKey (\<lambda>s. ''00'') (K_Delivery ''t2'' ''evt_1'' ''dlv_1'')"
  from rows_are_told_apart [OF _ _ this] show False by (simp add: issuers_apart_def)
qed

end
