(* ===== verification/Spec2Isabelle.thy ===== *)
theory Spec2Isabelle
  imports Table_Safety Event_Runs Finalization Permits Control_Store Replay_Store Outbox_Publisher Identifiers Canonical_Json Iso_Time Services Routing_Runs Delivery_Journal Partner_Http Auth Recovery_Runs Transformation_Runs Worker_Tokens Queue_Workers Control_Service Secrets Replay_Service Row_Keys
begin

text \<open>
  \<^bold>\<open>Partner Integration Reliability Hub\<close>: a multi-tenant hub that accepts events from producers over HTTP, turns every event
  into one delivery per matching subscription and sends these to partners over HTTPS, with retries, rate
  limits, circuit breakers, replays, an audit log and an outbox, on one DynamoDB table for the state and another for the
  audit log. The repository is a TypeScript monorepo: the domain, the services and the adapters are under
  \<open>src/packages\<close>, the processes under \<open>src/apps\<close>. This development models the program's own core logic, and proves what
  makes it correct; where the code does not do what it means to, a theorem states the case.

  \<^bold>\<open>How the program works.\<close> The API admits a request (\<open>packages/auth\<close>) and \<open>EventIngestionService\<close> stores the event with
  an idempotency guard and an outbox record in one transaction. A publisher moves outbox records to queues. The router takes an
  event from its queue, runs the transformation of every subscription and stores one delivery for each; the delivery worker takes a
  lease, a rate permit and a circuit permit, records the start of an attempt, sends the request and stores the result with the
  next state of the delivery, of its event and of the circuit. Every step is a conditional transaction, and workers compete: all
  that protects them from each other is the version of each row. So the state of the model is the table, an operation is the
  sequence of its calls to the database, and between two calls other clients may do anything that keeps their promises.

  \<^bold>\<open>Conventions.\<close> A record of the code is a \<open>record\<close> with prefixed fields, a union a \<open>datatype\<close>, a thrown error a value of \<open>js_error\<close>
  (\<open>Inl e\<close> of a result). \<open>Date\<close>s and durations are \<open>int\<close> milliseconds, counters \<open>int\<close>, arithmetic that the code does
  in 32 bits is done on \<open>32 word\<close> and related to the integers by a theorem. A loop of the code is a recursion with its termination
  proof, or a \<open>partial_function (option)\<close> where only an outside promise ends it; then ending is a theorem of its own.
  Statements about asynchronous code are statements about every interleaving of the calls: an operation gets the state before
  each of its calls from a relation of what the others may have done, and JSON values are \<open>json\<close>.

  \<^bold>\<open>What is outside and how it enters.\<close> Code that is not in the repository is a parameter.
  \<^item> The database service: the record \<open>dynamo\<close> of its calls, with the laws of conditional, all-or-nothing transactions and of reads
    that may be stale (locales \<open>dynamo_table\<close>, \<open>dynamo_alone\<close>, both interpreted on a memory database, and specialised by
    \<open>safe_table\<close>, \<open>rate_table\<close>, \<open>safe_services\<close>, \<open>quiet_services\<close>, \<open>alone_services\<close>, \<open>safe_delivery\<close>, \<open>outbox_ports\<close>,
    \<open>alone_auth\<close>, \<open>shared_auth\<close>, \<open>clocked_delivery\<close>, \<open>control_plane\<close>, \<open>paged_tables\<close> and \<open>recovery_host\<close>, each interpreted where
    its operations are).
  \<^item> Node's library: SHA-256, HMAC, the base64 decoder, gzip, files and paths, name resolution and sockets, \<open>new URL\<close>,
    \<open>JSON.parse\<close>, \<open>localeCompare\<close>, the printing of fractional numbers, case conversion and date parsing.
  \<^item> Services: queues, the scheduler, the parameter store, the token library (jose), the telemetry (whose calls return nothing that the program
    uses and are left out).
  A property that relies on a law of one of these has it as a hypothesis, and a witness with a concrete function.

  \<^bold>\<open>The theories, bottom up.\<close>
  \<^item> \<open>Prelude\<close>: JSON values, errors, collections of rewrite rules. \<open>Js_Text\<close>: the string methods that several components use.
  \<^item> \<open>Domain\<close> (\<open>packages/domain/src/index.ts\<close>): every record; \<open>transition\<close> and its table, \<open>deriveEventStatus\<close>, classification of
    results, retry delays, the token bucket, validation of policies, replay eligibility. Its lemmas: a successful transition
    leaves a non-terminal state and a well-formed delivery, the retry delay is bounded.
  \<^item> \<open>Sharding\<close> (\<open>stableShard\<close> of \<open>packages/persistence/src/keys.ts\<close>) and \<open>Identifiers\<close>, \<open>Canonical_Json\<close>, \<open>Iso_Time\<close>
    (\<open>deterministicIdentifier\<close>, \<open>stableJson\<close> of \<open>packages/application\<close>, \<open>Date.toISOString\<close>): bit-level and textual functions against
    their mathematical meaning; the canonical text identifies the value, ISO texts order as times do.
  \<^item> \<open>Row_Keys\<close> (\<open>packages/persistence/src/keys.ts\<close>): the attributes of a row; they identify its \<open>dkey\<close>, by which every other theory
    names it.
  \<^item> \<open>Dynamo\<close>, \<open>Persist_Base\<close>: the parameter database, its keys and items, and the helpers of \<open>DynamoPersistence\<close>.
  \<^item> \<open>Event_Store\<close>, \<open>Delivery_Store\<close>, \<open>Control_Store\<close>, \<open>Replay_Store\<close>, \<open>Outbox_Store\<close>, \<open>Permits\<close>: the operations of
    \<open>DynamoPersistence\<close> (\<open>packages/persistence/src/index.ts\<close>), one definition per method, with its retry loop of at most eight rounds.
  \<^item> \<open>Event_Invariant\<close>, \<open>Write_Safety\<close>, \<open>Table_Safety\<close>: \<open>table_inv\<close>, the invariant of the table (the counters of an event are those of
    its original deliveries, its status is the one derived from them), \<open>evolves\<close>, the way an event and a delivery may change,
    and for every writer that it keeps both beside any other safe client. The abstract specification is the reading of the status off the
    deliveries: one property says that the incremental counters of the code implement it.
  \<^item> \<open>Fencing\<close>, \<open>Alone\<close>, \<open>Event_Runs\<close>, \<open>Finalization\<close>: what a stale worker cannot do, and the exact outcome of each operation for a client
    alone on its table, error branches included.
  \<^item> \<open>Services\<close>, \<open>Routing\<close>, \<open>Routing_Runs\<close>, \<open>Evidence\<close>, \<open>Delivery_Service\<close>, \<open>Delivery_Safety\<close>: \<open>EventIngestionService\<close>, \<open>RoutingService\<close>
    and \<open>DeliveryService\<close> of \<open>packages/application/src/index.ts\<close>, over the operations above, with the evidence
    they keep. Whole runs of them keep the invariant, whatever partners and other workers do. \<open>Delivery_Journal\<close> runs the delivery
    service with a journal of its transactions and requests, and reads off it what was recorded before a request was sent.
  \<^item> \<open>Outbox_Publisher\<close>: \<open>apps/outbox-worker\<close> and \<open>apps/outbox-reconciler\<close> with their \<open>scheduleLongDelay\<close>, and the messages of
    \<open>packages/queue\<close>.
  \<^item> \<open>Delivery_Runs\<close>: when a delivery is lost. The locale \<open>clocked_delivery\<close> is a worker alone on its table, of a database that
    cancels no transaction whose conditions hold, whose rows may expire under it; when it acknowledges a message whose rows are
    consistent, the delivery is expired, terminal, held by another worker or in the outbox. After a cancelled deferral it is not.
  \<^item> \<open>Queue_Workers\<close> (\<open>packages/queue\<close>, the loops of \<open>apps/delivery-worker\<close> and \<open>apps/router-worker\<close> and the \<open>lambda.ts\<close> of the three
    workers): what is published is read back, and under the same conditions no message is dropped before its delivery is accounted
    for.
    \<open>Worker_Tokens\<close> (\<open>apps/delivery-worker/src/index.ts\<close>): the cache of access tokens and the identifiers of the workers.
  \<^item> \<open>Control_Service\<close> (\<open>ControlPlaneService\<close> of \<open>packages/application\<close>, the routes of \<open>apps/api/src/app.ts\<close> that read and then update,
    \<open>mapError\<close>): destinations, partners, subscriptions and transformations as an administrator changes them. \<open>control_plane\<close>,
    \<open>vetted_plane\<close> and \<open>secret_plane\<close> are what it relies on: the database, the URL validator and the secret store.
    \<open>Secrets\<close> (\<open>packages/secrets\<close>): the stores of secrets, of which the local one is shown to give \<open>secret_plane\<close>.
  \<^item> \<open>Replay_Service\<close> (\<open>ReplayService\<close> of \<open>packages/application\<close>): who may replay what, and the trail that a replay leaves.
  \<^item> \<open>Partner_Http\<close> (\<open>packages/partner-http\<close>): address checks and the bounded exchange; an interpretation makes it the HTTP client of
    the delivery service.
  \<^item> \<open>Auth\<close> (\<open>packages/auth\<close> and \<open>apps/api/src/auth.ts\<close>): tokens, signed requests, nonces. \<open>admission_step\<close> is the step relation of
    requests whose checks have passed and that put their nonces in any order.
  \<^item> \<open>Transformation\<close>, \<open>Transformation_Runs\<close> (\<open>packages/transformation\<close>, and its schema in \<open>packages/contracts\<close>): objects inherit
    from \<open>Object.prototype\<close> as in the language, so that names such as \<open>constructor\<close> and \<open>__proto__\<close> do what they do in the code.
  \<^item> \<open>Recovery\<close>, \<open>Json_Reader\<close>, \<open>Recovery_Runs\<close> (\<open>packages/recovery\<close>): backups and restorations; the reader is the concrete
    \<open>JSON.parse\<close> of the witnesses.

  \<^bold>\<open>Bounds.\<close> A compare-and-swap loop of the code has eight rounds, so has the model's, and the ninth outcome is what the code does then, an error or \<open>false\<close>.
  A batch write makes eight calls for at most 25 items; if each takes four of them (\<open>takes_four\<close>, which the service does not promise:
  where a property needs it, it is one of its hypotheses), 25 are done after seven, so the eighth suffices. A scan ends because every page moves on
  in a finite table: the measure is the number of rows left. \<open>Json_Reader\<close> has fuel of twice the length of the text; its round
  trip proves it is enough. Permits, leases and nonces are compared in milliseconds of unbounded integers, as the doubles of the code are
  exact up to \<open>2 ^ 53\<close>. Strings are taken as ASCII characters, so that lengths in bytes and in UTF-16 units agree.

  \<^bold>\<open>Not modelled.\<close> The paged searches and reports of \<open>DynamoPersistence\<close> (reads of rows the modelled writers
  leave), \<open>packages/config\<close>, \<open>packages/redaction\<close>, \<open>packages/config-portability\<close>, most request schemas of \<open>packages/contracts\<close>,
  \<open>captureResponse\<close> of \<open>packages/partner-http\<close>; start-up, signals and the HTTP routes of the processes, the console, telemetry, CDK
  stacks, mock partners, scripts and tests, which are glue, presentation or configuration.
\<close>

end
